(* ===== verification/Kontroler_Prelude.thy ===== *)
theory Kontroler_Prelude
  imports Main
begin

text \<open>
  Shared vocabulary of the development: Go errors and results, the SQL statements the two
  database managers are written with (as list functions on table contents), Go maps, and the
  generic lemmas on lists and relations the component proofs use.
\<close>

named_theorems sql_simps \<open>characteristic equations of the SQL statement combinators\<close>

named_theorems graph_simps \<open>facts on reachability used by the graph searches\<close>

section \<open>Go errors and results\<close>

text \<open>
  A Go \<open>error\<close> value: the sentinels the code compares with \<open>==\<close> and a plain message
  (\<open>errors.New\<close>, \<open>fmt.Errorf\<close>), which the code sometimes compares through
  \<open>err.Error()\<close>.
\<close>

datatype go_error =
    Err string
  | ErrNoRows
  | ErrTaskRunNotFound
  | ErrQueueIsEmpty
  | ErrContext

text \<open>
  A Go pair \<open>(value, error)\<close>: \<open>Inl\<close> is a non-nil error. A check that returns only an
  error is an option, \<open>None\<close> being \<open>nil\<close>.
\<close>

type_synonym 'a result = "go_error + 'a"
type_synonym check = "go_error option"

fun or_check :: "check \<Rightarrow> check \<Rightarrow> check" where
  "or_check None d = d"
| "or_check (Some e) d = Some e"

lemma or_check_None [simp]: "or_check c d = None \<longleftrightarrow> c = None \<and> d = None"
  by (cases c) auto

text \<open>The first failing element decides, as a \<open>for\<close> loop with an early return does.\<close>

fun first_check :: "('a \<Rightarrow> check) \<Rightarrow> 'a list \<Rightarrow> check" where
  "first_check f [] = None"
| "first_check f (x # xs) = or_check (f x) (first_check f xs)"

lemma first_check_None [simp]: "first_check f xs = None \<longleftrightarrow> (\<forall>x \<in> set xs. f x = None)"
  by (induction xs) auto

lemma first_check_Some:
  "first_check f xs = Some e \<Longrightarrow> \<exists>x \<in> set xs. f x = Some e"
proof (induction xs)
  case (Cons x xs)
  then show ?case by (cases "f x") auto
qed simp

fun is_Inr :: "'a + 'b \<Rightarrow> bool" where
  "is_Inr (Inl _) = False"
| "is_Inr (Inr _) = True"

lemma is_Inr_iff: "is_Inr r \<longleftrightarrow> (\<exists>x. r = Inr x)"
  by (cases r) simp_all

section \<open>SQL statements on table contents\<close>

text \<open>
  A table is the list of its rows in insertion order. \<open>update_where\<close> is
  \<open>UPDATE .. SET .. WHERE ..\<close>, \<open>delete_where\<close> is \<open>DELETE FROM .. WHERE ..\<close>, and
  \<open>rows_affected\<close> the number of rows either statement touches.
\<close>

definition update_where :: "('r \<Rightarrow> bool) \<Rightarrow> ('r \<Rightarrow> 'r) \<Rightarrow> 'r list \<Rightarrow> 'r list" where
  "update_where P f rows = map (\<lambda>r. if P r then f r else r) rows"

definition delete_where :: "('r \<Rightarrow> bool) \<Rightarrow> 'r list \<Rightarrow> 'r list" where
  "delete_where P rows = filter (\<lambda>r. \<not> P r) rows"

definition rows_affected :: "('r \<Rightarrow> bool) \<Rightarrow> 'r list \<Rightarrow> nat" where
  "rows_affected P rows = length (filter P rows)"

lemma set_update_where [sql_simps]:
  "set (update_where P f rows) = {r \<in> set rows. \<not> P r} \<union> f ` {r \<in> set rows. P r}"
  by (auto simp: update_where_def)

lemma set_delete_where [sql_simps, simp]: "set (delete_where P rows) = {r \<in> set rows. \<not> P r}"
  by (auto simp: delete_where_def)

lemma update_whereE:
  assumes "q \<in> set (update_where P f rows)"
  obtains p where "p \<in> set rows" "q = (if P p then f p else p)"
  using assms by (auto simp: update_where_def)

lemma length_update_where [simp]: "length (update_where P f rows) = length rows"
  by (simp add: update_where_def)

lemma update_where_Nil [simp]: "update_where P f [] = []"
  by (simp add: update_where_def)

lemma update_where_Cons [simp]:
  "update_where P f (r # rows) = (if P r then f r else r) # update_where P f rows"
  by (simp add: update_where_def)

lemma delete_where_Nil [simp]: "delete_where P [] = []"
  by (simp add: delete_where_def)

lemma delete_where_Cons [simp]:
  "delete_where P (r # rows) = (if P r then delete_where P rows else r # delete_where P rows)"
  by (simp add: delete_where_def)

text \<open>A column the update does not write is the same list afterwards.\<close>

lemma map_update_where:
  assumes "\<And>r. P r \<Longrightarrow> c (f r) = c r"
  shows "map c (update_where P f rows) = map c rows"
  using assms by (induction rows) auto

lemma rows_affected_0 [simp]: "rows_affected P rows = 0 \<longleftrightarrow> (\<forall>r \<in> set rows. \<not> P r)"
  by (auto simp: rows_affected_def filter_empty_conv)

lemma update_where_none: "(\<And>r. r \<in> set rows \<Longrightarrow> \<not> P r) \<Longrightarrow> update_where P f rows = rows"
  by (induction rows) auto

lemma update_where_cong:
  "(\<And>r. r \<in> set rows \<Longrightarrow> P r = Q r) \<Longrightarrow> update_where P f rows = update_where Q f rows"
  by (induction rows) auto

lemma distinct_map_delete_where:
  "distinct (map c rows) \<Longrightarrow> distinct (map c (delete_where P rows))"
  by (simp add: delete_where_def distinct_map_filter)

text \<open>\<open>QueryRow(..).Scan(..)\<close>: the first row of the result, if any.\<close>

fun query_row :: "'r list \<Rightarrow> 'r option" where
  "query_row [] = None"
| "query_row (r # _) = Some r"

lemma query_row_None [simp]: "query_row rows = None \<longleftrightarrow> rows = []"
  by (cases rows) auto

lemma query_row_Some_in: "query_row rows = Some r \<Longrightarrow> r \<in> set rows"
  by (cases rows) auto

lemma query_row_filter:
  "\<exists>x \<in> set xs. P x \<Longrightarrow> \<exists>r. query_row (filter P xs) = Some r \<and> r \<in> set xs \<and> P r"
  by (induction xs) auto

text \<open>
  \<open>ORDER BY key DESC\<close>: a stable insertion sort on the descending key, so rows of equal key keep
  the order of the table.
\<close>

fun insert_desc :: "('r \<Rightarrow> int) \<Rightarrow> 'r \<Rightarrow> 'r list \<Rightarrow> 'r list" where
  "insert_desc key x [] = [x]"
| "insert_desc key x (y # ys) = (if key y \<le> key x then x # y # ys else y # insert_desc key x ys)"

fun order_by_desc :: "('r \<Rightarrow> int) \<Rightarrow> 'r list \<Rightarrow> 'r list" where
  "order_by_desc key [] = []"
| "order_by_desc key (x # xs) = insert_desc key x (order_by_desc key xs)"

lemma set_insert_desc [simp]: "set (insert_desc key x ys) = insert x (set ys)"
  by (induction ys) auto

lemma set_order_by_desc [simp]: "set (order_by_desc key xs) = set xs"
  by (induction xs) auto

lemma order_by_desc_Nil_iff [simp]: "order_by_desc key xs = [] \<longleftrightarrow> xs = []"
  by (metis set_empty set_order_by_desc)

lemma sorted_insert_desc:
  "sorted_wrt (\<lambda>a b. key a \<ge> key b) ys \<Longrightarrow> sorted_wrt (\<lambda>a b. key a \<ge> key b) (insert_desc key x ys)"
  by (induction ys) auto

lemma sorted_order_by_desc: "sorted_wrt (\<lambda>a b. key a \<ge> key b) (order_by_desc key xs)"
  by (induction xs) (auto simp: sorted_insert_desc)

lemma query_row_order_by_desc:
  assumes "query_row (order_by_desc key xs) = Some r"
  shows "r \<in> set xs" "\<And>y. y \<in> set xs \<Longrightarrow> key y \<le> key r"
proof -
  obtain rs where eq: "order_by_desc key xs = r # rs"
    using assms by (cases "order_by_desc key xs") auto
  then show "r \<in> set xs" by (metis list.set_intros(1) set_order_by_desc)
  fix y assume "y \<in> set xs"
  then have "y \<in> set (r # rs)" using eq by (metis set_order_by_desc)
  then show "key y \<le> key r"
    using sorted_order_by_desc [of key xs] unfolding eq by auto
qed

section \<open>Go maps from strings\<close>

text \<open>
  A Go map whose size or keys the code inspects is an association list with distinct keys;
  the order stands for one of the iteration orders the runtime may choose.
\<close>

type_synonym ('k, 'v) gomap = "('k \<times> 'v) list"

definition gomap_ok :: "('k, 'v) gomap \<Rightarrow> bool" where
  "gomap_ok m \<longleftrightarrow> distinct (map fst m)"

section \<open>Related lists\<close>

lemma list_all2_right: "list_all2 P xs ys \<Longrightarrow> y \<in> set ys \<Longrightarrow> \<exists>x \<in> set xs. P x y"
  by (induction rule: list_all2_induct) auto

lemma list_all2_left: "list_all2 P xs ys \<Longrightarrow> x \<in> set xs \<Longrightarrow> \<exists>y \<in> set ys. P x y"
  by (induction rule: list_all2_induct) auto

section \<open>Reachability\<close>

lemma Image_closed_rtrancl [graph_simps]:
  assumes "r `` X \<subseteq> X"
  shows "r\<^sup>* `` X = X"
proof
  have "(x, y) \<in> r\<^sup>* \<Longrightarrow> x \<in> X \<Longrightarrow> y \<in> X" for x y
    by (induction rule: rtrancl_induct) (use assms in auto)
  then show "r\<^sup>* `` X \<subseteq> X" by auto
qed auto

lemma trancl_closed:
  assumes "(x, y) \<in> r\<^sup>+" "x \<in> X" "r `` X \<subseteq> X"
  shows "y \<in> X"
  using assms(1,2) by (induction rule: trancl_induct) (use assms(3) in auto)

lemma card_Diff_insert_less:
  assumes "finite N" "x \<in> N" "x \<notin> V"
  shows "card (N - insert x V) < card (N - V)"
  by (rule psubset_card_mono) (use assms in auto)

lemma rtrancl_Image_step: "R\<^sup>* `` A = A \<union> R\<^sup>* `` (R `` A)"
proof -
  have "R\<^sup>* = Id \<union> R O R\<^sup>*" by (metis rtrancl_unfold r_comp_rtrancl_eq Un_commute)
  then have "R\<^sup>* `` A = (Id \<union> R O R\<^sup>*) `` A" by simp
  then show ?thesis by (simp add: Un_Image relcomp_Image)
qed

end
