(* ===== verification/Dag_Types.thy ===== *)
theory Dag_Types
  imports Kontroler_Prelude
begin

text \<open>
  The custom resources of \<open>controller/api/v1alpha1\<close>: tasks, DAGs, DAG runs and reusable DAG
  tasks as records with the fields of the Go structs, and \<open>validateDagRun\<close>, the admission
  check of a DAG run. A pointer field is an option, a string-keyed map an association list.
\<close>

section \<open>Pod templates\<close>

record Volume =
  v_Name :: string
  v_EmptyDir :: "unit option"
  v_PersistentVolumeClaim :: "string option"

record VolumeMount =
  vm_Name :: string
  vm_MountPath :: string
  vm_ReadOnly :: bool

record Toleration =
  tol_Key :: string
  tol_Operator :: string
  tol_Value :: string
  tol_Effect :: string
  tol_TolerationSeconds :: "int option"

text \<open>The three parts of an affinity are raw JSON in the resource.\<close>

record Affinity =
  aff_NodeAffinity :: "string option"
  aff_PodAffinity :: "string option"
  aff_PodAntiAffinity :: "string option"

record ResourceRequirements =
  rr_Limits :: "(string, string) gomap"
  rr_Requests :: "(string, string) gomap"

text \<open>\<open>PodSecurityContext\<close> has the single field \<open>FSGroup\<close>.\<close>

record PodSecurityContext =
  psc_FSGroup :: "int option"

record PodTemplateSpec =
  pt_Volumes :: "Volume list"
  pt_VolumeMounts :: "VolumeMount list"
  pt_ImagePullSecrets :: "string list"
  pt_SecurityContext :: "PodSecurityContext option"
  pt_NodeSelector :: "(string, string) gomap"
  pt_Tolerations :: "Toleration list"
  pt_Affinity :: "Affinity option"
  pt_ServiceAccountName :: string
  pt_ActiveDeadlineSeconds :: "int option"
  pt_AutomountServiceAccountToken :: "bool option"
  pt_Resources :: "ResourceRequirements option"

definition empty_PodTemplateSpec :: PodTemplateSpec where
  "empty_PodTemplateSpec = \<lparr>pt_Volumes = [], pt_VolumeMounts = [], pt_ImagePullSecrets = [],
     pt_SecurityContext = None, pt_NodeSelector = [], pt_Tolerations = [], pt_Affinity = None,
     pt_ServiceAccountName = '''', pt_ActiveDeadlineSeconds = None,
     pt_AutomountServiceAccountToken = None, pt_Resources = None\<rparr>"

section \<open>Workspaces\<close>

text \<open>The label selector of a claim is opaque here: the code only stores and forwards it.\<close>

record PVC =
  pvc_AccessModes :: "string list"
  pvc_Selector :: "string option"
  pvc_Resources :: "ResourceRequirements option"
  pvc_StorageClassName :: "string option"
  pvc_VolumeMode :: "string option"

record Workspace =
  ws_Enabled :: bool
  ws_PvcSpec :: PVC

section \<open>Tasks and DAGs\<close>

record TaskRef =
  tr_Name :: string
  tr_Version :: int

record Backoff =
  bo_Limit :: int

record Conditional =
  co_Enabled :: bool
  co_RetryCodes :: "int list"

record TaskSpec =
  ts_Name :: string
  ts_Command :: "string list"
  ts_Args :: "string list"
  ts_Image :: string
  ts_RunAfter :: "string list"
  ts_Backoff :: Backoff
  ts_Conditional :: Conditional
  ts_Parameters :: "string list"
  ts_PodTemplate :: "PodTemplateSpec option"
  ts_Script :: string
  ts_ScriptInjectorImage :: string
  ts_TaskRef :: "TaskRef option"

text \<open>The zero value of the struct, from which Go composite literals start.\<close>

definition zero_TaskSpec :: TaskSpec where
  "zero_TaskSpec = \<lparr>ts_Name = '''', ts_Command = [], ts_Args = [], ts_Image = '''', ts_RunAfter = [],
     ts_Backoff = \<lparr>bo_Limit = 0\<rparr>, ts_Conditional = \<lparr>co_Enabled = False, co_RetryCodes = []\<rparr>,
     ts_Parameters = [], ts_PodTemplate = None, ts_Script = '''', ts_ScriptInjectorImage = '''',
     ts_TaskRef = None\<rparr>"

record DagParameterSpec =
  dp_Name :: string
  dp_DefaultValue :: string
  dp_DefaultFromSecret :: string

record Webhook =
  wh_URL :: string
  wh_VerifySSL :: bool

record DAGSpec =
  ds_Schedule :: string
  ds_Task :: "TaskSpec list"
  ds_Parameters :: "DagParameterSpec list"
  ds_Webhook :: Webhook
  ds_Workspace :: Workspace
  ds_Suspended :: bool
  ds_DSL :: string

definition zero_DAGSpec :: DAGSpec where
  "zero_DAGSpec = \<lparr>ds_Schedule = '''', ds_Task = [], ds_Parameters = [],
     ds_Webhook = \<lparr>wh_URL = '''', wh_VerifySSL = False\<rparr>,
     ds_Workspace = \<lparr>ws_Enabled = False, ws_PvcSpec = \<lparr>pvc_AccessModes = [], pvc_Selector = None,
       pvc_Resources = None, pvc_StorageClassName = None, pvc_VolumeMode = None\<rparr>\<rparr>,
     ds_Suspended = False, ds_DSL = ''''\<rparr>"

record DAGStatus =
  st_Phase :: string
  st_Message :: string

text \<open>\<open>DAG\<close>, with the metadata fields the controllers read.\<close>

record DAG =
  dag_Name :: string
  dag_Spec :: DAGSpec
  dag_Status :: DAGStatus
  dag_Annotations :: "(string, string) gomap"
  dag_Finalizers :: "string list"
  dag_Deleting :: bool

section \<open>DAG runs and reusable tasks\<close>

record ParameterSpec =
  ps_Name :: string
  ps_Value :: string
  ps_FromSecret :: string

record DagRunSpec =
  dr_DagName :: string
  dr_Parameters :: "ParameterSpec list"

record DagTaskSpec =
  dt_Command :: "string list"
  dt_Args :: "string list"
  dt_Image :: string
  dt_RunAfter :: "string list"
  dt_Backoff :: Backoff
  dt_Conditional :: Conditional
  dt_Parameters :: "string list"
  dt_PodTemplate :: "PodTemplateSpec option"
  dt_Script :: string
  dt_ScriptInjectorImage :: string

section \<open>Admission of a DAG run\<close>

definition validateDagRun_param :: "ParameterSpec \<Rightarrow> check" where
  "validateDagRun_param p =
     (if ps_Name p = '''' then Some (Err ''parameter name must be set'')
      else if ps_Value p \<noteq> '''' \<and> ps_FromSecret p \<noteq> ''''
        then Some (Err (''only one of value or fromSecret can be set for parameter '' @ ps_Name p))
      else if ps_Value p = '''' \<and> ps_FromSecret p = ''''
        then Some (Err (''either value or fromSecret must be set for parameter '' @ ps_Name p))
      else None)"

definition validateDagRun :: "DagRunSpec \<Rightarrow> check" where
  "validateDagRun r =
     (if dr_DagName r = '''' then Some (Err ''DagName cannot be empty'')
      else first_check validateDagRun_param (dr_Parameters r))"

text \<open>
  The admission webhook accepts a DAG run exactly when it names a DAG and every parameter has a name and
  exactly one of a value and a secret.
\<close>

theorem validateDagRun_iff:
  "validateDagRun r = None \<longleftrightarrow>
     dr_DagName r \<noteq> '''' \<and>
     (\<forall>p \<in> set (dr_Parameters r). ps_Name p \<noteq> '''' \<and> (ps_Value p = '''') \<noteq> (ps_FromSecret p = ''''))"
  by (auto simp: validateDagRun_def validateDagRun_param_def)

definition ex_run :: DagRunSpec where
  "ex_run = \<lparr>dr_DagName = ''d'', dr_Parameters = [\<lparr>ps_Name = ''p'', ps_Value = '''', ps_FromSecret = ''s''\<rparr>]\<rparr>"

theorem validateDagRun_iff_witness:
  "validateDagRun ex_run = None \<and> dr_DagName ex_run \<noteq> ''''"
  using validateDagRun_iff [of ex_run] by (simp add: ex_run_def)

end
