(* ===== verification/Dag_Validation.thy ===== *)
theory Dag_Validation
  imports Dag_Types
begin

text \<open>
  \<open>ValidateDAG\<close> of \<open>api/v1alpha1/dag_types.go\<close> and its six checks, on the task list of a DAG:
  required fields, parameters, cycles (a recursive search with a recursion stack), dangling
  dependencies, connectivity (a recursive search over the undirected graph) and the existence
  of a starting task. The two searches recurse through closures over shared maps; here they are
  structural in a fuel argument, and the lemmas \<open>visit_fuel\<close> and \<open>dfs_fuel\<close> show that one unit
  per task name and dependency name (plus one) is always enough.
\<close>

section \<open>Required fields\<close>

fun checkFieldsFilled_from :: "string set \<Rightarrow> TaskSpec list \<Rightarrow> check" where
  "checkFieldsFilled_from taskNames [] = None"
| "checkFieldsFilled_from taskNames (task # rest) =
     (if ts_Name task = '''' then Some (Err ''task name must be specified'')
      else if ts_TaskRef task \<noteq> None then checkFieldsFilled_from taskNames rest
      else if ts_Script task = '''' \<and> ts_Command task = []
        then Some (Err ''must provide a script or a command'')
      else if ts_Image task = '''' then Some (Err ''task image must be specified'')
      else if ts_Name task \<in> taskNames
        then Some (Err (''duplicate task name: '' @ ts_Name task))
      else checkFieldsFilled_from (insert (ts_Name task) taskNames) rest)"

definition checkFieldsFilled :: "TaskSpec list \<Rightarrow> check" where
  "checkFieldsFilled tasks = checkFieldsFilled_from {} tasks"

section \<open>Cycles\<close>

text \<open>\<open>visited\<close> and \<open>recStack\<close> are the sets of names mapped to true.\<close>

record visit_state =
  vs_visited :: "string set"
  vs_recStack :: "string set"

text \<open>
  The loops inside \<open>visit\<close>, over the recursive call \<open>v\<close>: \<open>None\<close> is running out of fuel,
  \<open>Some (True, _)\<close> an early return because a cycle was found.
\<close>

fun visit_deps :: "(string \<Rightarrow> visit_state \<Rightarrow> (bool \<times> visit_state) option) \<Rightarrow> string list \<Rightarrow>
    visit_state \<Rightarrow> (bool \<times> visit_state) option" where
  "visit_deps v [] s = Some (False, s)"
| "visit_deps v (dep # deps) s =
     (case v dep s of
        None \<Rightarrow> None
      | Some (True, s') \<Rightarrow> Some (True, s')
      | Some (False, s') \<Rightarrow> visit_deps v deps s')"

fun visit_tasks :: "(string \<Rightarrow> visit_state \<Rightarrow> (bool \<times> visit_state) option) \<Rightarrow> string \<Rightarrow>
    TaskSpec list \<Rightarrow> visit_state \<Rightarrow> (bool \<times> visit_state) option" where
  "visit_tasks v name [] s = Some (False, s)"
| "visit_tasks v name (task # rest) s =
     (if ts_Name task = name
      then (case visit_deps v (ts_RunAfter task) s of
              None \<Rightarrow> None
            | Some (True, s') \<Rightarrow> Some (True, s')
            | Some (False, s') \<Rightarrow> visit_tasks v name rest s')
      else visit_tasks v name rest s)"

fun visit :: "nat \<Rightarrow> TaskSpec list \<Rightarrow> string \<Rightarrow> visit_state \<Rightarrow> (bool \<times> visit_state) option" where
  "visit 0 tasks name s = None"
| "visit (Suc fuel) tasks name s =
     (if name \<in> vs_recStack s then Some (True, s)
      else if name \<in> vs_visited s then Some (False, s)
      else (case visit_tasks (visit fuel tasks) name tasks
                   \<lparr>vs_visited = insert name (vs_visited s),
                    vs_recStack = insert name (vs_recStack s)\<rparr> of
              None \<Rightarrow> None
            | Some (True, s') \<Rightarrow> Some (True, s')
            | Some (False, s') \<Rightarrow>
                Some (False, s'\<lparr>vs_recStack := vs_recStack s' - {name}\<rparr>)))"

text \<open>Every name a search can meet: a task or a dependency of one.\<close>

definition all_names :: "TaskSpec list \<Rightarrow> string list" where
  "all_names tasks = map ts_Name tasks @ concat (map ts_RunAfter tasks)"

fun checkNoCycles_from :: "TaskSpec list \<Rightarrow> TaskSpec list \<Rightarrow> visit_state \<Rightarrow> check option" where
  "checkNoCycles_from tasks [] s = Some None"
| "checkNoCycles_from tasks (task # rest) s =
     (case visit (Suc (length (all_names tasks))) tasks (ts_Name task) s of
        None \<Rightarrow> None
      | Some (True, s') \<Rightarrow> Some (Some (Err ''cyclic dependency detected''))
      | Some (False, s') \<Rightarrow> checkNoCycles_from tasks rest s')"

definition checkNoCycles :: "TaskSpec list \<Rightarrow> check option" where
  "checkNoCycles tasks = checkNoCycles_from tasks tasks \<lparr>vs_visited = {}, vs_recStack = {}\<rparr>"

section \<open>Dangling dependencies, connectivity, starting task\<close>

definition checkRunAfterTasksExist :: "TaskSpec list \<Rightarrow> check" where
  "checkRunAfterTasksExist tasks =
     first_check (\<lambda>task. first_check (\<lambda>dep.
         if dep \<in> ts_Name ` set tasks then None
         else Some (Err (''task '' @ ts_Name task @
                '' has runAfter dependency on non-existent task '' @ dep)))
       (ts_RunAfter task)) tasks"

text \<open>\<open>adjList\<close> as a total function: a missing key is the nil slice.\<close>

fun add_edges :: "string \<Rightarrow> string list \<Rightarrow> (string \<Rightarrow> string list) \<Rightarrow> string \<Rightarrow> string list" where
  "add_edges name [] adj = adj"
| "add_edges name (dep # deps) adj = add_edges name deps (adj(dep := adj dep @ [name]))"

fun build_adjList :: "TaskSpec list \<Rightarrow> (string \<Rightarrow> string list) \<Rightarrow> string \<Rightarrow> string list" where
  "build_adjList [] adj = adj"
| "build_adjList (task # rest) adj =
     build_adjList rest
       (add_edges (ts_Name task) (ts_RunAfter task)
          (adj(ts_Name task := adj (ts_Name task) @ ts_RunAfter task)))"

fun dfs_neighbors :: "(string \<Rightarrow> string set \<Rightarrow> string set option) \<Rightarrow> string list \<Rightarrow> string set \<Rightarrow>
    string set option" where
  "dfs_neighbors f [] visited = Some visited"
| "dfs_neighbors f (neighbor # rest) visited =
     (if neighbor \<in> visited then dfs_neighbors f rest visited
      else (case f neighbor visited of
              None \<Rightarrow> None
            | Some visited' \<Rightarrow> dfs_neighbors f rest visited'))"

fun dfs :: "nat \<Rightarrow> (string \<Rightarrow> string list) \<Rightarrow> string \<Rightarrow> string set \<Rightarrow> string set option" where
  "dfs 0 adj name visited = None"
| "dfs (Suc fuel) adj name visited =
     dfs_neighbors (dfs fuel adj) (adj name) (insert name visited)"

text \<open>
  \<open>startNode\<close> is the first key of a Go map, so any task name (the empty string when there is no
  task): it is an argument, constrained by \<open>valid_start\<close> below.
\<close>

definition checkAllTasksConnected :: "string \<Rightarrow> TaskSpec list \<Rightarrow> check option" where
  "checkAllTasksConnected startNode tasks =
     (case dfs (Suc (Suc (length (all_names tasks)))) (build_adjList tasks (\<lambda>_. [])) startNode {} of
        None \<Rightarrow> None
      | Some visited \<Rightarrow>
          Some (first_check (\<lambda>task. if ts_Name task \<in> visited then None
                                    else Some (Err ''not all tasks are connected'')) tasks))"

definition valid_start :: "string \<Rightarrow> TaskSpec list \<Rightarrow> bool" where
  "valid_start startNode tasks \<longleftrightarrow>
     (if tasks = [] then startNode = '''' else startNode \<in> ts_Name ` set tasks)"

definition checkStartingTask :: "TaskSpec list \<Rightarrow> check" where
  "checkStartingTask tasks =
     (if \<exists>task \<in> set tasks. ts_RunAfter task = [] then None
      else Some (Err ''no starting task found (a task with no runAfter dependencies)''))"

section \<open>Parameters\<close>

definition checkParameters_decl :: "DagParameterSpec \<Rightarrow> check" where
  "checkParameters_decl value =
     (if dp_Name value = '''' then Some (Err ''parameter has an empty name'')
      else if dp_DefaultValue value = '''' \<and> dp_DefaultFromSecret value = ''''
        then Some (Err ''parameter does not provide defaultValue or defaultFromSecret'')
      else if dp_DefaultValue value \<noteq> '''' \<and> dp_DefaultFromSecret value \<noteq> ''''
        then Some (Err ''parameter does not provide defaultValue or defaultFromSecret'')
      else None)"

definition check_selected :: "DagParameterSpec list \<Rightarrow> string list \<Rightarrow> check" where
  "check_selected params values =
     first_check (\<lambda>value. if value \<in> dp_Name ` set params then None
                          else Some (Err ''parameter selected in task does not exist'')) values"

text \<open>
  A task that refers to an unknown shared task is skipped altogether (the \<open>continue\<close>), its own
  parameters included.
\<close>

definition checkParameters_task ::
    "DagParameterSpec list \<Rightarrow> (TaskRef \<rightharpoonup> string list) \<Rightarrow> TaskSpec \<Rightarrow> check" where
  "checkParameters_task params refParams task =
     (case ts_TaskRef task of
        None \<Rightarrow> check_selected params (ts_Parameters task)
      | Some ref \<Rightarrow>
          (case refParams ref of
             None \<Rightarrow> None
           | Some values \<Rightarrow>
               or_check (check_selected params values) (check_selected params (ts_Parameters task))))"

definition checkParameters :: "DAGSpec \<Rightarrow> (TaskRef \<rightharpoonup> string list) \<Rightarrow> check" where
  "checkParameters spec refParams =
     or_check (first_check checkParameters_decl (ds_Parameters spec))
       (first_check (checkParameters_task (ds_Parameters spec) refParams) (ds_Task spec))"

section \<open>The whole validation\<close>

text \<open>\<open>or_fuel\<close> sequences a check that may run out of fuel with the checks after it.\<close>

fun or_fuel :: "check option \<Rightarrow> check option \<Rightarrow> check option" where
  "or_fuel None d = None"
| "or_fuel (Some None) d = d"
| "or_fuel (Some (Some e)) d = Some (Some e)"

definition ValidateDAG :: "string \<Rightarrow> DAGSpec \<Rightarrow> (TaskRef \<rightharpoonup> string list) \<Rightarrow> check option" where
  "ValidateDAG startNode spec refParams =
     or_fuel (Some (checkFieldsFilled (ds_Task spec)))
    (or_fuel (Some (checkParameters spec refParams))
    (or_fuel (checkNoCycles (ds_Task spec))
    (or_fuel (Some (checkRunAfterTasksExist (ds_Task spec)))
    (or_fuel (checkAllTasksConnected startNode (ds_Task spec))
             (Some (checkStartingTask (ds_Task spec)))))))"

section \<open>The dependency relation\<close>

definition dep_rel :: "TaskSpec list \<Rightarrow> (string \<times> string) set" where
  "dep_rel tasks = {(ts_Name t, d) | t d. t \<in> set tasks \<and> d \<in> set (ts_RunAfter t)}"

definition link_rel :: "TaskSpec list \<Rightarrow> (string \<times> string) set" where
  "link_rel tasks = dep_rel tasks \<union> (dep_rel tasks)\<inverse>"

lemma dep_rel_iff:
  "(n, d) \<in> dep_rel tasks \<longleftrightarrow> (\<exists>t \<in> set tasks. ts_Name t = n \<and> d \<in> set (ts_RunAfter t))"
  by (auto simp: dep_rel_def)

lemma dep_rel_names: "dep_rel tasks \<subseteq> set (all_names tasks) \<times> set (all_names tasks)"
  by (auto simp: dep_rel_def all_names_def)

lemma finite_dep_rel: "finite (dep_rel tasks)"
  by (rule finite_subset [OF dep_rel_names]) simp

section \<open>Correctness of the field check\<close>

definition inline_ok :: "string set \<Rightarrow> TaskSpec \<Rightarrow> bool" where
  "inline_ok seen t \<longleftrightarrow> (ts_TaskRef t = None \<longrightarrow>
     (ts_Script t \<noteq> '''' \<or> ts_Command t \<noteq> []) \<and> ts_Image t \<noteq> '''' \<and> ts_Name t \<notin> seen)"

lemma inline_ok_insert:
  "inline_ok (insert n seen) t \<longleftrightarrow> inline_ok seen t \<and> (ts_TaskRef t = None \<longrightarrow> ts_Name t \<noteq> n)"
  by (auto simp: inline_ok_def)

lemma checkFieldsFilled_from_iff:
  "checkFieldsFilled_from seen tasks = None \<longleftrightarrow>
     (\<forall>t \<in> set tasks. ts_Name t \<noteq> '''') \<and> (\<forall>t \<in> set tasks. inline_ok seen t) \<and>
     distinct (map ts_Name (filter (\<lambda>t. ts_TaskRef t = None) tasks))"
proof (induction tasks arbitrary: seen)
  case (Cons task rest)
  show ?case
  proof (cases "ts_TaskRef task")
    case None
    have "ts_Name task \<notin> ts_Name ` {t \<in> set rest. ts_TaskRef t = None} \<longleftrightarrow>
        (\<forall>t \<in> set rest. ts_TaskRef t = None \<longrightarrow> ts_Name t \<noteq> ts_Name task)"
      by (auto simp: image_iff)
    with None Cons show ?thesis
      by (auto simp: inline_ok_insert inline_ok_def [of _ task])
  qed (use Cons in \<open>simp add: inline_ok_def [of _ task]\<close>)
qed simp

lemma checkFieldsFilled_iff:
  "checkFieldsFilled tasks = None \<longleftrightarrow>
     (\<forall>t \<in> set tasks. ts_Name t \<noteq> '''') \<and>
     (\<forall>t \<in> set tasks. ts_TaskRef t = None \<longrightarrow>
        (ts_Script t \<noteq> '''' \<or> ts_Command t \<noteq> []) \<and> ts_Image t \<noteq> '''') \<and>
     distinct (map ts_Name (filter (\<lambda>t. ts_TaskRef t = None) tasks))"
  by (auto simp: checkFieldsFilled_def checkFieldsFilled_from_iff inline_ok_def)


section \<open>Correctness of the cycle check\<close>

text \<open>The finished names are the visited ones off the recursion stack.\<close>

definition finished :: "visit_state \<Rightarrow> string set" where
  "finished s = vs_visited s - vs_recStack s"

definition visit_inv :: "TaskSpec list \<Rightarrow> visit_state \<Rightarrow> bool" where
  "visit_inv tasks s \<longleftrightarrow> vs_recStack s \<subseteq> vs_visited s \<and>
     dep_rel tasks `` finished s \<subseteq> finished s \<and>
     (\<forall>x \<in> finished s. (x, x) \<notin> (dep_rel tasks)\<^sup>+)"

definition visit_step :: "visit_state \<Rightarrow> visit_state \<Rightarrow> bool" where
  "visit_step s s' \<longleftrightarrow> vs_recStack s' = vs_recStack s \<and> vs_visited s \<subseteq> vs_visited s'"

lemma visit_step_refl [simp]: "visit_step s s"
  by (simp add: visit_step_def)

lemma visit_step_trans: "visit_step s s' \<Longrightarrow> visit_step s' s'' \<Longrightarrow> visit_step s s''"
  by (auto simp: visit_step_def)

lemma visit_step_finished: "visit_step s s' \<Longrightarrow> finished s \<subseteq> finished s'"
  by (auto simp: visit_step_def finished_def)

subsection \<open>The loops keep what the recursive call keeps\<close>

lemma visit_deps_Cons_False:
  "visit_deps v (d # ds) s = Some (False, s') \<longleftrightarrow>
     (\<exists>t. v d s = Some (False, t) \<and> visit_deps v ds t = Some (False, s'))"
  by (auto split: option.splits bool.splits)

lemma visit_tasks_Cons_False:
  "visit_tasks v name (t # ts) s = Some (False, s') \<longleftrightarrow>
     (if ts_Name t = name
      then \<exists>u. visit_deps v (ts_RunAfter t) s = Some (False, u) \<and> visit_tasks v name ts u = Some (False, s')
      else visit_tasks v name ts s = Some (False, s'))"
  by (auto split: option.splits bool.splits)

lemma visit_tasks_Cons_True:
  "visit_tasks v name (t # ts) s = Some (True, s') \<longleftrightarrow>
     (if ts_Name t = name
      then visit_deps v (ts_RunAfter t) s = Some (True, s') \<or>
        (\<exists>u. visit_deps v (ts_RunAfter t) s = Some (False, u) \<and> visit_tasks v name ts u = Some (True, s'))
      else visit_tasks v name ts s = Some (True, s'))"
  by (auto split: option.splits bool.splits)

lemma visit_Suc_False:
  assumes "visit (Suc fuel) tasks name s = Some (False, s')" "name \<notin> vs_visited s"
  obtains t where
    "visit_tasks (visit fuel tasks) name tasks
       \<lparr>vs_visited = insert name (vs_visited s), vs_recStack = insert name (vs_recStack s)\<rparr>
     = Some (False, t)"
    "name \<notin> vs_recStack s" "s' = t\<lparr>vs_recStack := vs_recStack t - {name}\<rparr>"
  using assms by (auto split: option.splits bool.splits if_splits)

text \<open>What the recursive call is assumed to do, as predicates on it.\<close>

definition keeps_step where
  "keeps_step v \<longleftrightarrow> (\<forall>d s s'. v d s = Some (False, s') \<longrightarrow> visit_step s s')"

definition keeps_inv where
  "keeps_inv tasks v \<longleftrightarrow> (\<forall>d s s'. visit_inv tasks s \<longrightarrow> v d s = Some (False, s') \<longrightarrow>
     visit_inv tasks s' \<and> visit_step s s' \<and> d \<in> finished s')"

definition finds_cycle where
  "finds_cycle E v \<longleftrightarrow> (\<forall>d s s'. v d s = Some (True, s') \<longrightarrow>
     (\<forall>r \<in> vs_recStack s. (r, d) \<in> E\<^sup>+) \<longrightarrow> (\<exists>x. (x, x) \<in> E\<^sup>+))"

lemma keeps_invD:
  assumes "keeps_inv tasks v" "visit_inv tasks s" "v d s = Some (False, s')"
  shows "visit_inv tasks s'" "visit_step s s'" "d \<in> finished s'"
  using assms unfolding keeps_inv_def by blast+

lemma finds_cycleD:
  "finds_cycle E v \<Longrightarrow> v d s = Some (True, s') \<Longrightarrow> \<forall>r \<in> vs_recStack s. (r, d) \<in> E\<^sup>+ \<Longrightarrow>
     \<exists>x. (x, x) \<in> E\<^sup>+"
  unfolding finds_cycle_def by blast

lemma visit_deps_step:
  assumes "keeps_step v" "visit_deps v deps s = Some (False, s')"
  shows "visit_step s s'"
  using assms(2)
proof (induction deps arbitrary: s)
  case (Cons d deps)
  then obtain t where t: "v d s = Some (False, t)" "visit_deps v deps t = Some (False, s')"
    unfolding visit_deps_Cons_False by blast
  then have "visit_step s t" using assms(1) by (simp add: keeps_step_def)
  with Cons.IH [OF t(2)] show ?case by (rule visit_step_trans [rotated])
qed simp

lemma visit_tasks_step:
  assumes "keeps_step v" "visit_tasks v name ts s = Some (False, s')"
  shows "visit_step s s'"
  using assms(2)
proof (induction ts arbitrary: s)
  case (Cons t ts)
  show ?case
  proof (cases "ts_Name t = name")
    case True
    with Cons.prems obtain u where u: "visit_deps v (ts_RunAfter t) s = Some (False, u)"
      "visit_tasks v name ts u = Some (False, s')"
      unfolding visit_tasks_Cons_False by auto
    from Cons.IH [OF u(2)] visit_deps_step [OF assms(1) u(1)] show ?thesis
      by (rule visit_step_trans [rotated])
  next
    case False
    with Cons show ?thesis by simp
  qed
qed simp

lemma keeps_step_visit: "keeps_step (visit fuel tasks)"
proof (induction fuel)
  case 0
  show ?case by (simp add: keeps_step_def)
next
  case (Suc fuel)
  have "visit_step s s'" if v: "visit (Suc fuel) tasks name s = Some (False, s')" for name s s'
  proof (cases "name \<in> vs_visited s")
    case True
    with v show ?thesis by (auto split: if_splits)
  next
    case False
    from visit_Suc_False [OF v False] obtain t where
      t: "visit_tasks (visit fuel tasks) name tasks
            \<lparr>vs_visited = insert name (vs_visited s), vs_recStack = insert name (vs_recStack s)\<rparr>
          = Some (False, t)" and r: "name \<notin> vs_recStack s"
      and s': "s' = t\<lparr>vs_recStack := vs_recStack t - {name}\<rparr>" .
    from visit_tasks_step [OF Suc.IH t] r show ?thesis
      unfolding s' by (auto simp: visit_step_def)
  qed
  then show ?case by (simp only: keeps_step_def) blast
qed

lemma visit_deps_inv:
  assumes "keeps_inv tasks v" "visit_deps v deps s = Some (False, s')" "visit_inv tasks s"
  shows "visit_inv tasks s' \<and> visit_step s s' \<and> set deps \<subseteq> finished s'"
  using assms(2,3)
proof (induction deps arbitrary: s)
  case (Cons d deps)
  then obtain t where t: "v d s = Some (False, t)" "visit_deps v deps t = Some (False, s')"
    unfolding visit_deps_Cons_False by blast
  with Cons.prems(2) assms(1) have "visit_inv tasks t" "visit_step s t" "d \<in> finished t"
    unfolding keeps_inv_def by blast+
  with Cons.IH [OF t(2)] show ?case
    by (auto intro: visit_step_trans dest: visit_step_finished)
qed simp

lemma visit_tasks_inv:
  assumes "keeps_inv tasks v" "visit_tasks v name ts s = Some (False, s')" "visit_inv tasks s"
  shows "visit_inv tasks s' \<and> visit_step s s' \<and> dep_rel ts `` {name} \<subseteq> finished s'"
  using assms(2,3)
proof (induction ts arbitrary: s)
  case Nil
  then show ?case by (simp add: dep_rel_def)
next
  case (Cons x ts)
  show ?case
  proof (cases "ts_Name x = name")
    case True
    with Cons.prems obtain t where
      t: "visit_deps v (ts_RunAfter x) s = Some (False, t)" "visit_tasks v name ts t = Some (False, s')"
      unfolding visit_tasks_Cons_False by auto
    note d = visit_deps_inv [OF assms(1) t(1) Cons.prems(2)]
    with Cons.IH [OF t(2)] have "visit_inv tasks s'" "visit_step t s'"
      "dep_rel ts `` {name} \<subseteq> finished s'" by auto
    moreover have "dep_rel (x # ts) `` {name} \<subseteq> set (ts_RunAfter x) \<union> dep_rel ts `` {name}"
      by (auto simp: dep_rel_iff)
    ultimately show ?thesis
      using d visit_step_finished [of t s'] visit_step_trans [of s t s'] by auto
  next
    case False
    then have "dep_rel (x # ts) `` {name} = dep_rel ts `` {name}" by (auto simp: dep_rel_iff)
    with False Cons show ?thesis by simp
  qed
qed

text \<open>Popping a name whose dependencies are all finished keeps the invariant.\<close>

lemma visit_inv_pop:
  assumes inv: "visit_inv tasks t" and name: "name \<in> vs_recStack t" "name \<in> vs_visited t"
    and succs: "dep_rel tasks `` {name} \<subseteq> finished t"
  shows "visit_inv tasks (t\<lparr>vs_recStack := vs_recStack t - {name}\<rparr>)"
proof -
  let ?t = "t\<lparr>vs_recStack := vs_recStack t - {name}\<rparr>"
  have fin: "finished ?t = insert name (finished t)"
    using name by (auto simp: finished_def)
  have closed: "dep_rel tasks `` finished t \<subseteq> finished t" using inv by (simp add: visit_inv_def)
  have "(name, name) \<notin> (dep_rel tasks)\<^sup>+"
  proof
    assume "(name, name) \<in> (dep_rel tasks)\<^sup>+"
    then obtain d where d: "(name, d) \<in> dep_rel tasks" "(d, name) \<in> (dep_rel tasks)\<^sup>*"
      by (meson tranclD)
    with succs have "d \<in> finished t" by auto
    with d(2) have "name \<in> finished t" using Image_closed_rtrancl [OF closed] by blast
    with name show False by (simp add: finished_def)
  qed
  with inv succs closed show ?thesis
    unfolding visit_inv_def fin by auto
qed

lemma keeps_inv_visit: "keeps_inv tasks (visit fuel tasks)"
proof (induction fuel)
  case 0
  show ?case by (simp add: keeps_inv_def)
next
  case (Suc fuel)
  have "visit_inv tasks s' \<and> visit_step s s' \<and> name \<in> finished s'"
    if v: "visit (Suc fuel) tasks name s = Some (False, s')" and i: "visit_inv tasks s" for name s s'
  proof (cases "name \<in> vs_visited s")
    case True
    with v i show ?thesis by (auto simp: finished_def split: if_splits)
  next
    case False
    let ?s = "\<lparr>vs_visited = insert name (vs_visited s), vs_recStack = insert name (vs_recStack s)\<rparr>"
    from visit_Suc_False [OF v False] obtain t where
      t: "visit_tasks (visit fuel tasks) name tasks ?s = Some (False, t)"
      and r: "name \<notin> vs_recStack s" and s': "s' = t\<lparr>vs_recStack := vs_recStack t - {name}\<rparr>" .
    have "finished ?s = finished s" using False r by (auto simp: finished_def)
    with i have "visit_inv tasks ?s" by (auto simp: visit_inv_def)
    note inv = visit_tasks_inv [OF Suc.IH t this]
    then have "name \<in> vs_recStack t" "name \<in> vs_visited t" by (auto simp: visit_step_def)
    with inv have "visit_inv tasks s'" unfolding s' by (intro visit_inv_pop) auto
    with inv False r show ?thesis
      unfolding s' by (auto simp: visit_step_def finished_def)
  qed
  then show ?case by (simp only: keeps_inv_def) blast
qed

subsection \<open>A reported cycle exists\<close>

lemma visit_deps_cycle:
  assumes "finds_cycle E v" "keeps_step v" "visit_deps v deps s = Some (True, s')"
    and "\<forall>r \<in> vs_recStack s. \<forall>d \<in> set deps. (r, d) \<in> E\<^sup>+"
  shows "\<exists>x. (x, x) \<in> E\<^sup>+"
  using assms(3,4)
proof (induction deps arbitrary: s)
  case (Cons d deps)
  from Cons.prems(1) consider t where "v d s = Some (True, t)"
    | t where "v d s = Some (False, t)" "visit_deps v deps t = Some (True, s')"
    by (auto split: option.splits bool.splits)
  then show ?case
  proof cases
    case 1
    moreover have "\<forall>r \<in> vs_recStack s. (r, d) \<in> E\<^sup>+" using Cons.prems(2) by simp
    ultimately show ?thesis using assms(1) unfolding finds_cycle_def by blast
  next
    case 2
    then have "vs_recStack t = vs_recStack s"
      using assms(2) by (simp add: keeps_step_def visit_step_def)
    with 2 Cons show ?thesis by simp
  qed
qed simp

lemma visit_tasks_cycle:
  assumes "finds_cycle E v" "keeps_step v" "visit_tasks v name ts s = Some (True, s')"
    and "\<forall>r \<in> vs_recStack s. \<forall>d \<in> dep_rel ts `` {name}. (r, d) \<in> E\<^sup>+"
  shows "\<exists>x. (x, x) \<in> E\<^sup>+"
  using assms(3,4)
proof (induction ts arbitrary: s)
  case (Cons y ts)
  have sub: "dep_rel ts `` {name} \<subseteq> dep_rel (y # ts) `` {name}" by (auto simp: dep_rel_iff)
  from Cons.prems(1) consider t where "ts_Name y = name" "visit_deps v (ts_RunAfter y) s = Some (True, t)"
    | t where "visit_step s t" "visit_tasks v name ts t = Some (True, s')"
    unfolding visit_tasks_Cons_True using visit_deps_step [OF assms(2)] visit_step_refl
    by (metis (no_types))
  then show ?case
  proof cases
    case 1
    then have "set (ts_RunAfter y) \<subseteq> dep_rel (y # ts) `` {name}" by (auto simp: dep_rel_iff)
    with Cons.prems(2) have "\<forall>r \<in> vs_recStack s. \<forall>d \<in> set (ts_RunAfter y). (r, d) \<in> E\<^sup>+" by blast
    with visit_deps_cycle [OF assms(1,2) 1(2)] show ?thesis by simp
  next
    case 2
    then have "vs_recStack t = vs_recStack s" by (simp add: visit_step_def)
    with Cons.prems(2) sub have "\<forall>r \<in> vs_recStack t. \<forall>d \<in> dep_rel ts `` {name}. (r, d) \<in> E\<^sup>+" by auto
    with Cons.IH [OF 2(2)] show ?thesis by simp
  qed
qed simp

lemma finds_cycle_visit: "finds_cycle (dep_rel tasks) (visit fuel tasks)"
proof (induction fuel)
  case 0
  show ?case by (simp add: finds_cycle_def)
next
  case (Suc fuel)
  have "\<exists>x. (x, x) \<in> (dep_rel tasks)\<^sup>+"
    if v: "visit (Suc fuel) tasks name s = Some (True, s')"
      and st: "\<forall>r \<in> vs_recStack s. (r, name) \<in> (dep_rel tasks)\<^sup>+" for name s s'
  proof (cases "name \<in> vs_recStack s")
    case True
    with st show ?thesis by blast
  next
    case False
    let ?s = "\<lparr>vs_visited = insert name (vs_visited s), vs_recStack = insert name (vs_recStack s)\<rparr>"
    from False v obtain t where
      t: "visit_tasks (visit fuel tasks) name tasks ?s = Some (True, t)"
      by (auto split: option.splits bool.splits if_splits)
    have "\<forall>r \<in> vs_recStack ?s. \<forall>d \<in> dep_rel tasks `` {name}. (r, d) \<in> (dep_rel tasks)\<^sup>+"
      using st by (auto intro: trancl_into_trancl)
    with visit_tasks_cycle [OF Suc.IH keeps_step_visit t] show ?thesis by simp
  qed
  then show ?case by (simp only: finds_cycle_def) blast
qed

subsection \<open>Enough fuel\<close>

text \<open>Only the number of names not yet visited bounds the recursion depth.\<close>

definition has_fuel :: "string set \<Rightarrow> nat \<Rightarrow> visit_state \<Rightarrow> bool" where
  "has_fuel N fuel s \<longleftrightarrow> card (N - vs_visited s) < fuel"

definition returns where
  "returns N fuel v \<longleftrightarrow> (\<forall>d \<in> N. \<forall>s. has_fuel N fuel s \<longrightarrow> v d s \<noteq> None)"

lemma has_fuel_step: "finite N \<Longrightarrow> visit_step s s' \<Longrightarrow> has_fuel N fuel s \<Longrightarrow> has_fuel N fuel s'"
  unfolding has_fuel_def visit_step_def
  by (meson Diff_mono card_mono finite_Diff le_less_trans order_refl)

lemma visit_deps_returns:
  assumes "returns N fuel v" "keeps_step v" "finite N" "set deps \<subseteq> N" "has_fuel N fuel s"
  shows "visit_deps v deps s \<noteq> None"
  using assms(4,5)
proof (induction deps arbitrary: s)
  case (Cons d deps)
  from Cons.prems assms(1) have "v d s \<noteq> None" by (simp add: returns_def)
  then obtain b t where v: "v d s = Some (b, t)" by auto
  show ?case
  proof (cases b)
    case False
    with v assms(2) have "visit_step s t" by (simp add: keeps_step_def)
    with Cons.prems assms(3) have "has_fuel N fuel t" by (blast intro: has_fuel_step)
    with Cons v False show ?thesis by simp
  qed (use v in simp)
qed simp

lemma visit_tasks_returns:
  assumes "returns N fuel v" "keeps_step v" "finite N" "set (all_names ts) \<subseteq> N" "has_fuel N fuel s"
  shows "visit_tasks v name ts s \<noteq> None"
  using assms(4,5)
proof (induction ts arbitrary: s)
  case (Cons t ts)
  then have N: "set (ts_RunAfter t) \<subseteq> N" "set (all_names ts) \<subseteq> N" by (auto simp: all_names_def)
  from visit_deps_returns [OF assms(1-3) N(1) Cons.prems(2)]
  obtain b u where d: "visit_deps v (ts_RunAfter t) s = Some (b, u)" by auto
  show ?case
  proof (cases b)
    case False
    with d have "visit_deps v (ts_RunAfter t) s = Some (False, u)" by simp
    from has_fuel_step [OF assms(3) visit_deps_step [OF assms(2) this] Cons.prems(2)]
    have "has_fuel N fuel u" .
    with Cons.IH [OF N(2)] Cons.prems(2) d False show ?thesis by auto
  qed (use d Cons.IH [OF N(2)] Cons.prems(2) in auto)
qed simp

lemma visit_fuel:
  assumes "finite N" "set (all_names tasks) \<subseteq> N"
  shows "returns N fuel (visit fuel tasks)"
proof (induction fuel)
  case 0
  show ?case by (simp add: returns_def has_fuel_def)
next
  case (Suc fuel)
  have "visit (Suc fuel) tasks name s \<noteq> None" if "name \<in> N" "has_fuel N (Suc fuel) s" for name s
  proof (cases "name \<in> vs_visited s")
    case False
    let ?s = "\<lparr>vs_visited = insert name (vs_visited s), vs_recStack = insert name (vs_recStack s)\<rparr>"
    have "has_fuel N fuel ?s"
      using card_Diff_insert_less [OF assms(1) that(1) False] that(2) by (simp add: has_fuel_def)
    from visit_tasks_returns [OF Suc.IH keeps_step_visit assms this, of name]
    show ?thesis by (auto split: option.splits bool.splits)
  qed auto
  then show ?case by (simp only: returns_def) blast
qed

lemma visit_terminates:
  assumes "name \<in> set (all_names tasks)"
  shows "visit (Suc (length (all_names tasks))) tasks name s \<noteq> None"
proof -
  let ?N = "set (all_names tasks)"
  have "card (?N - vs_visited s) \<le> length (all_names tasks)"
    by (meson card_Diff_subset_Int card_length card_mono Diff_subset finite_set le_trans)
  then have "has_fuel ?N (Suc (length (all_names tasks))) s" by (simp add: has_fuel_def)
  with visit_fuel [of ?N tasks] assms show ?thesis unfolding returns_def by blast
qed

subsection \<open>The check decides acyclicity\<close>

lemma checkNoCycles_from_cases:
  assumes "visit_inv tasks s" "vs_recStack s = {}" "set rest \<subseteq> set tasks"
  shows "(\<exists>s'. visit_inv tasks s' \<and> vs_recStack s' = {} \<and> vs_visited s \<subseteq> vs_visited s' \<and>
            ts_Name ` set rest \<subseteq> vs_visited s' \<and> checkNoCycles_from tasks rest s = Some None) \<or>
         (\<not> acyclic (dep_rel tasks) \<and>
            checkNoCycles_from tasks rest s = Some (Some (Err ''cyclic dependency detected'')))"
  using assms
proof (induction rest arbitrary: s)
  case Nil
  then show ?case by auto
next
  case (Cons t rest)
  let ?v = "visit (Suc (length (all_names tasks))) tasks (ts_Name t) s"
  have "ts_Name t \<in> set (all_names tasks)" using Cons.prems(3) by (auto simp: all_names_def)
  from visit_terminates [OF this, of s] obtain b u where v: "?v = Some (b, u)" by fastforce
  show ?case
  proof (cases b)
    case True
    with v have "?v = Some (True, u)" by simp
    from finds_cycleD [OF finds_cycle_visit this] Cons.prems(2)
    have "\<exists>x. (x, x) \<in> (dep_rel tasks)\<^sup>+" by simp
    with v True show ?thesis by (auto simp: acyclic_def simp del: visit.simps)
  next
    case False
    with v have "?v = Some (False, u)" by simp
    note u = keeps_invD [OF keeps_inv_visit Cons.prems(1) this]
    then have "vs_recStack u = {}" using Cons.prems(2) by (simp add: visit_step_def)
    have eq: "checkNoCycles_from tasks (t # rest) s = checkNoCycles_from tasks rest u"
      using v False by (simp del: visit.simps)
    have sub: "set rest \<subseteq> set tasks" "vs_visited s \<subseteq> vs_visited u" "ts_Name t \<in> vs_visited u"
      using u(2,3) Cons.prems(3) by (auto simp: visit_step_def finished_def)
    from Cons.IH [OF u(1) \<open>vs_recStack u = {}\<close> sub(1)] show ?thesis
    proof (elim disjE exE conjE)
      fix s' assume s': "visit_inv tasks s'" "vs_recStack s' = {}" "vs_visited u \<subseteq> vs_visited s'"
        "ts_Name ` set rest \<subseteq> vs_visited s'" "checkNoCycles_from tasks rest u = Some None"
      have "vs_visited s \<subseteq> vs_visited s' \<and> ts_Name ` set (t # rest) \<subseteq> vs_visited s'"
        using s'(3,4) sub(2,3) by auto
      with s'(1,2,5) eq show ?thesis by (intro disjI1 exI [of _ s'] conjI) simp_all
    qed (use eq in simp)
  qed
qed

lemma visit_inv_acyclic:
  assumes "visit_inv tasks s" "vs_recStack s = {}" "ts_Name ` set tasks \<subseteq> vs_visited s"
  shows "acyclic (dep_rel tasks)"
  unfolding acyclic_def
proof (intro allI notI)
  fix x assume x: "(x, x) \<in> (dep_rel tasks)\<^sup>+"
  then obtain y where "(x, y) \<in> dep_rel tasks" by (meson tranclD)
  then have "x \<in> ts_Name ` set tasks" by (auto simp: dep_rel_iff)
  with assms have "x \<in> finished s" by (auto simp: finished_def)
  with x assms(1) show False by (simp add: visit_inv_def)
qed

lemma checkNoCycles_eq:
  "checkNoCycles tasks =
     Some (if acyclic (dep_rel tasks) then None else Some (Err ''cyclic dependency detected''))"
proof -
  let ?s = "\<lparr>vs_visited = {}, vs_recStack = {}\<rparr>"
  have "visit_inv tasks ?s" by (simp add: visit_inv_def finished_def)
  with checkNoCycles_from_cases [of tasks ?s tasks] show ?thesis
    unfolding checkNoCycles_def using visit_inv_acyclic by fastforce
qed

text \<open>
  (C5) \<open>checkNoCycles\<close> always returns, and it decides acyclicity: it accepts a task list exactly when the
  relation from a task to its \<open>runAfter\<close> names has no cycle, and reports the cycle otherwise.
\<close>

theorem checkNoCycles_correct:
  "checkNoCycles tasks =
     Some (if acyclic (dep_rel tasks) then None else Some (Err ''cyclic dependency detected''))"
  by (rule checkNoCycles_eq)

section \<open>Correctness of the connectivity check\<close>

definition adj_rel :: "(string \<Rightarrow> string list) \<Rightarrow> (string \<times> string) set" where
  "adj_rel adj = {(a, b). b \<in> set (adj a)}"

lemma adj_rel_iff [simp]: "(a, b) \<in> adj_rel adj \<longleftrightarrow> b \<in> set (adj a)"
  by (simp add: adj_rel_def)

lemma set_add_edges:
  "set (add_edges name deps adj n) = set (adj n) \<union> (if n \<in> set deps then {name} else {})"
  by (induction deps arbitrary: adj) auto

lemma set_build_adjList:
  "set (build_adjList tasks adj n) = set (adj n) \<union> link_rel tasks `` {n}"
proof (induction tasks arbitrary: adj)
  case Nil
  then show ?case by (simp add: link_rel_def dep_rel_def)
next
  case (Cons task rest)
  have "link_rel (task # rest) `` {n} =
      (if n = ts_Name task then set (ts_RunAfter task) else {}) \<union>
      (if n \<in> set (ts_RunAfter task) then {ts_Name task} else {}) \<union> link_rel rest `` {n}"
    by (auto simp: link_rel_def dep_rel_iff)
  with Cons.IH show ?case by (auto simp: set_add_edges)
qed

lemma adj_rel_build: "adj_rel (build_adjList tasks (\<lambda>_. [])) = link_rel tasks"
  by (auto simp: adj_rel_def set_build_adjList)

definition dfs_ok where
  "dfs_ok E f \<longleftrightarrow> (\<forall>n V V'. n \<notin> V \<longrightarrow> f n V = Some V' \<longrightarrow>
     insert n V \<subseteq> V' \<and> V' \<subseteq> V \<union> E\<^sup>* `` {n} \<and> E `` (V' - V) \<subseteq> V')"

lemma dfs_okD:
  assumes "dfs_ok E f" "n \<notin> V" "f n V = Some V'"
  shows "insert n V \<subseteq> V'" "V' \<subseteq> V \<union> E\<^sup>* `` {n}" "E `` (V' - V) \<subseteq> V'"
  using assms unfolding dfs_ok_def by blast+

lemma dfs_neighbors_ok:
  assumes "dfs_ok E f" "dfs_neighbors f ns V = Some V'"
  shows "V \<subseteq> V' \<and> set ns \<subseteq> V' \<and> V' \<subseteq> V \<union> E\<^sup>* `` set ns \<and> E `` (V' - V) \<subseteq> V'"
  using assms(2)
proof (induction ns arbitrary: V)
  case (Cons n ns)
  show ?case
  proof (cases "n \<in> V")
    case True
    with Cons show ?thesis by fastforce
  next
    case False
    with Cons.prems obtain W where W: "f n V = Some W" "dfs_neighbors f ns W = Some V'"
      by (auto split: option.splits)
    note w = dfs_okD [OF assms(1) False W(1)]
    from Cons.IH [OF W(2)] have v: "W \<subseteq> V'" "set ns \<subseteq> V'" "V' \<subseteq> W \<union> E\<^sup>* `` set ns"
      "E `` (V' - W) \<subseteq> V'" by auto
    have "V' - V \<subseteq> (V' - W) \<union> (W - V)" by auto
    then have "E `` (V' - V) \<subseteq> E `` (V' - W) \<union> E `` (W - V)" by auto
    with v w have "E `` (V' - V) \<subseteq> V'" by (meson Un_least subset_trans)
    moreover have "V' \<subseteq> V \<union> E\<^sup>* `` set (n # ns)" using v(3) w(2) by auto
    ultimately show ?thesis using v w by auto
  qed
qed simp

lemma dfs_ok_dfs: "dfs_ok (adj_rel adj) (dfs fuel adj)"
proof (induction fuel)
  case 0
  show ?case by (simp add: dfs_ok_def)
next
  case (Suc fuel)
  let ?E = "adj_rel adj"
  have "insert n V \<subseteq> V' \<and> V' \<subseteq> V \<union> ?E\<^sup>* `` {n} \<and> ?E `` (V' - V) \<subseteq> V'"
    if "n \<notin> V" "dfs (Suc fuel) adj n V = Some V'" for n V V'
  proof -
    from that(2) have "dfs_neighbors (dfs fuel adj) (adj n) (insert n V) = Some V'" by simp
    note d = dfs_neighbors_ok [OF Suc.IH this]
    have "?E\<^sup>* `` set (adj n) \<subseteq> ?E\<^sup>* `` {n}"
      by (auto intro: converse_rtrancl_into_rtrancl)
    moreover have "V' - V = insert n (V' - insert n V)" using d that(1) by auto
    then have "?E `` (V' - V) \<subseteq> set (adj n) \<union> ?E `` (V' - insert n V)" by auto
    ultimately have "?E `` (V' - V) \<subseteq> V'" "V' \<subseteq> V \<union> ?E\<^sup>* `` {n}"
      using d by (meson Un_least subset_trans, blast)
    with d show ?thesis by simp
  qed
  then show ?case by (simp only: dfs_ok_def) blast
qed

subsection \<open>Enough fuel\<close>

definition dfs_returns where
  "dfs_returns N fuel f \<longleftrightarrow>
     (\<forall>n V. n \<in> N \<longrightarrow> n \<notin> V \<longrightarrow> card (N - V) < fuel \<longrightarrow> f n V \<noteq> None)"

lemma dfs_neighbors_returns:
  assumes "dfs_returns N fuel f" "dfs_ok E f" "finite N" "set ns \<subseteq> N" "card (N - V) < fuel"
  shows "dfs_neighbors f ns V \<noteq> None"
  using assms(4,5)
proof (induction ns arbitrary: V)
  case (Cons n ns)
  show ?case
  proof (cases "n \<in> V")
    case False
    with Cons.prems assms(1) have "f n V \<noteq> None" by (simp add: dfs_returns_def)
    then obtain W where W: "f n V = Some W" by auto
    with assms(2) False have "V \<subseteq> W" unfolding dfs_ok_def by blast
    then have "card (N - W) \<le> card (N - V)" using assms(3) by (intro card_mono) auto
    with Cons W False show ?thesis by simp
  qed (use Cons in simp)
qed simp

lemma dfs_fuel:
  assumes "finite N" "adj_rel adj \<subseteq> N \<times> N"
  shows "dfs_returns N fuel (dfs fuel adj)"
proof (induction fuel)
  case 0
  show ?case by (simp add: dfs_returns_def)
next
  case (Suc fuel)
  have "dfs (Suc fuel) adj n V \<noteq> None" if "n \<in> N" "n \<notin> V" "card (N - V) < Suc fuel" for n V
  proof -
    have "card (N - insert n V) < fuel"
      using card_Diff_insert_less [OF assms(1) that(1,2)] that(3) by simp
    moreover have "set (adj n) \<subseteq> N" using assms(2) by (auto simp: adj_rel_def)
    ultimately show ?thesis using dfs_neighbors_returns [OF Suc.IH dfs_ok_dfs assms(1)] by simp
  qed
  then show ?case by (simp only: dfs_returns_def) blast
qed

lemma dfs_reachable:
  assumes "finite N" "adj_rel adj \<subseteq> N \<times> N" "start \<in> N" "card N < fuel"
  shows "dfs fuel adj start {} = Some ((adj_rel adj)\<^sup>* `` {start})"
proof -
  from dfs_fuel [OF assms(1,2), of fuel] assms(3,4) have "dfs fuel adj start {} \<noteq> None"
    by (simp add: dfs_returns_def)
  then obtain V where V: "dfs fuel adj start {} = Some V" by auto
  from dfs_okD [OF dfs_ok_dfs _ V]
  have v: "{start} \<subseteq> V" "V \<subseteq> (adj_rel adj)\<^sup>* `` {start}" "adj_rel adj `` V \<subseteq> V" by simp_all
  from v(1) have "(adj_rel adj)\<^sup>* `` {start} \<subseteq> (adj_rel adj)\<^sup>* `` V" by auto
  also have "\<dots> = V" by (rule Image_closed_rtrancl [OF v(3)])
  finally show ?thesis using V v(2) by auto
qed

lemma link_rel_names: "link_rel tasks \<subseteq> set (all_names tasks) \<times> set (all_names tasks)"
  using dep_rel_names by (auto simp: link_rel_def)

lemma sym_link_rel: "sym (link_rel tasks)"
  by (auto simp: link_rel_def sym_def)

lemma checkAllTasksConnected_start:
  "checkAllTasksConnected start tasks =
     Some (if \<forall>t \<in> set tasks. (start, ts_Name t) \<in> (link_rel tasks)\<^sup>* then None
           else Some (Err ''not all tasks are connected''))"
proof -
  let ?adj = "build_adjList tasks (\<lambda>_. [])" and ?N = "insert start (set (all_names tasks))"
  have "card ?N \<le> Suc (card (set (all_names tasks)))" by (simp add: card_insert_if)
  with card_length [of "all_names tasks"]
  have "card ?N < Suc (Suc (length (all_names tasks)))" by linarith
  moreover have "adj_rel ?adj \<subseteq> ?N \<times> ?N" using link_rel_names by (auto simp: adj_rel_build)
  ultimately have d: "dfs (Suc (Suc (length (all_names tasks)))) ?adj start {} =
      Some ((link_rel tasks)\<^sup>* `` {start})"
    using dfs_reachable [of ?N ?adj start] by (simp add: adj_rel_build del: dfs.simps)
  have "first_check (\<lambda>t. if ts_Name t \<in> V then None else Some e) ts =
      (if \<forall>t \<in> set ts. ts_Name t \<in> V then None else Some e)" for V e and ts :: "TaskSpec list"
    by (induction ts) auto
  from this [of "(link_rel tasks)\<^sup>* `` {start}"] show ?thesis
    unfolding checkAllTasksConnected_def d by simp
qed

lemma checkAllTasksConnected_eq:
  assumes "valid_start start tasks"
  shows "checkAllTasksConnected start tasks =
     Some (if \<forall>a \<in> set tasks. \<forall>b \<in> set tasks. (ts_Name a, ts_Name b) \<in> (link_rel tasks)\<^sup>* then None
           else Some (Err ''not all tasks are connected''))"
proof (cases "tasks = []")
  case True
  then show ?thesis by (simp add: checkAllTasksConnected_start)
next
  case False
  with assms obtain s where s: "s \<in> set tasks" "start = ts_Name s" by (auto simp: valid_start_def)
  have "sym ((link_rel tasks)\<^sup>*)" by (simp add: sym_link_rel sym_rtrancl)
  then have "(\<forall>t \<in> set tasks. (start, ts_Name t) \<in> (link_rel tasks)\<^sup>*) \<longleftrightarrow>
      (\<forall>a \<in> set tasks. \<forall>b \<in> set tasks. (ts_Name a, ts_Name b) \<in> (link_rel tasks)\<^sup>*)"
    using s by (meson rtrancl_trans symD)
  then show ?thesis by (simp add: checkAllTasksConnected_start)
qed

text \<open>
  \<open>checkAllTasksConnected\<close> always returns, and whatever task name the iteration over the Go map
  starts from, it accepts exactly the task lists whose undirected dependency graph is connected.
\<close>

theorem checkAllTasksConnected_correct:
  assumes "valid_start start tasks"
  shows "checkAllTasksConnected start tasks =
     Some (if \<forall>a \<in> set tasks. \<forall>b \<in> set tasks. (ts_Name a, ts_Name b) \<in> (link_rel tasks)\<^sup>* then None
           else Some (Err ''not all tasks are connected''))"
  by (rule checkAllTasksConnected_eq [OF assms])

section \<open>The whole validation\<close>

lemma checkRunAfterTasksExist_iff:
  "checkRunAfterTasksExist tasks = None \<longleftrightarrow> Range (dep_rel tasks) \<subseteq> ts_Name ` set tasks"
proof -
  have "Range (dep_rel tasks) = (\<Union>t \<in> set tasks. set (ts_RunAfter t))"
    by (auto simp: dep_rel_iff Range_iff) blast
  then show ?thesis by (auto simp: checkRunAfterTasksExist_def split: if_splits)
qed

lemma checkStartingTask_iff:
  "checkStartingTask tasks = None \<longleftrightarrow> (\<exists>t \<in> set tasks. ts_RunAfter t = [])"
  by (simp add: checkStartingTask_def)

lemma check_selected_iff:
  "check_selected params values = None \<longleftrightarrow> set values \<subseteq> dp_Name ` set params"
  by (auto simp: check_selected_def split: if_splits)

lemma checkParameters_decl_iff:
  "checkParameters_decl p = None \<longleftrightarrow>
     dp_Name p \<noteq> '''' \<and> (dp_DefaultValue p = '''') \<noteq> (dp_DefaultFromSecret p = '''')"
  by (auto simp: checkParameters_decl_def)

text \<open>The parameters a task needs: its own and those of the shared task it refers to, if that is known.\<close>

definition selected_params :: "(TaskRef \<rightharpoonup> string list) \<Rightarrow> TaskSpec \<Rightarrow> string set" where
  "selected_params refParams t =
     (case ts_TaskRef t of
        None \<Rightarrow> set (ts_Parameters t)
      | Some ref \<Rightarrow> (case refParams ref of None \<Rightarrow> {} | Some values \<Rightarrow> set values \<union> set (ts_Parameters t)))"

lemma checkParameters_task_iff:
  "checkParameters_task params refParams t = None \<longleftrightarrow> selected_params refParams t \<subseteq> dp_Name ` set params"
  by (auto simp: checkParameters_task_def selected_params_def check_selected_iff split: option.splits)

lemma checkParameters_iff:
  "checkParameters spec refParams = None \<longleftrightarrow>
     (\<forall>p \<in> set (ds_Parameters spec).
        dp_Name p \<noteq> '''' \<and> (dp_DefaultValue p = '''') \<noteq> (dp_DefaultFromSecret p = '''')) \<and>
     (\<forall>t \<in> set (ds_Task spec). selected_params refParams t \<subseteq> dp_Name ` set (ds_Parameters spec))"
  by (simp add: checkParameters_def checkParameters_decl_iff checkParameters_task_iff)

lemma or_fuel_ok [simp]: "or_fuel c d = Some None \<longleftrightarrow> c = Some None \<and> d = Some None"
  by (cases "(c, d)" rule: or_fuel.cases) auto

text \<open>
  (C20) What \<open>ValidateDAG\<close> accepts, for every iteration order of its Go maps: named and complete tasks with
  distinct inline names, well-formed parameters that the tasks select from, an acyclic
  and connected dependency graph without dangling names, and at least one starting task.
\<close>

theorem ValidateDAG_iff:
  assumes "valid_start start (ds_Task spec)"
  shows "ValidateDAG start spec refParams = Some None \<longleftrightarrow>
     (\<forall>t \<in> set (ds_Task spec). ts_Name t \<noteq> '''') \<and>
     (\<forall>t \<in> set (ds_Task spec). ts_TaskRef t = None \<longrightarrow>
        (ts_Script t \<noteq> '''' \<or> ts_Command t \<noteq> []) \<and> ts_Image t \<noteq> '''') \<and>
     distinct (map ts_Name (filter (\<lambda>t. ts_TaskRef t = None) (ds_Task spec))) \<and>
     (\<forall>p \<in> set (ds_Parameters spec).
        dp_Name p \<noteq> '''' \<and> (dp_DefaultValue p = '''') \<noteq> (dp_DefaultFromSecret p = '''')) \<and>
     (\<forall>t \<in> set (ds_Task spec). selected_params refParams t \<subseteq> dp_Name ` set (ds_Parameters spec)) \<and>
     acyclic (dep_rel (ds_Task spec)) \<and>
     Range (dep_rel (ds_Task spec)) \<subseteq> ts_Name ` set (ds_Task spec) \<and>
     (\<forall>a \<in> set (ds_Task spec). \<forall>b \<in> set (ds_Task spec).
        (ts_Name a, ts_Name b) \<in> (link_rel (ds_Task spec))\<^sup>*) \<and>
     (\<exists>t \<in> set (ds_Task spec). ts_RunAfter t = [])"
  unfolding ValidateDAG_def
  by (simp add: checkNoCycles_eq checkAllTasksConnected_eq [OF assms] checkFieldsFilled_iff
      checkParameters_iff checkRunAfterTasksExist_iff checkStartingTask_iff)

lemma source_exists:
  assumes "acyclic (dep_rel tasks)" "Range (dep_rel tasks) \<subseteq> ts_Name ` set tasks" "tasks \<noteq> []"
  shows "\<exists>t \<in> set tasks. ts_RunAfter t = []"
proof -
  have "wf ((dep_rel tasks)\<inverse>)"
    using finite_dep_rel assms(1) by (rule finite_acyclic_wf_converse)
  moreover obtain n where "n \<in> ts_Name ` set tasks" using assms(3) by (cases tasks) auto
  ultimately obtain z where z: "z \<in> ts_Name ` set tasks"
    "\<And>y. (y, z) \<in> (dep_rel tasks)\<inverse> \<Longrightarrow> y \<notin> ts_Name ` set tasks"
    by (rule wfE_min) blast
  then obtain t where t: "t \<in> set tasks" "ts_Name t = z" by auto
  have "d \<notin> set (ts_RunAfter t)" for d
  proof
    assume "d \<in> set (ts_RunAfter t)"
    with t have "(z, d) \<in> dep_rel tasks" by (auto simp: dep_rel_iff)
    with z(2) assms(2) show False by blast
  qed
  then have "ts_RunAfter t = []" by (cases "ts_RunAfter t") auto
  with t(1) show ?thesis by blast
qed

text \<open>
  Once the cycle check and the dangling-dependency check have passed, the starting-task check can only
  fail for a DAG without tasks: a finite acyclic dependency graph has a source.
\<close>

theorem checkStartingTask_redundant:
  assumes "checkNoCycles tasks = Some None" "checkRunAfterTasksExist tasks = None" "tasks \<noteq> []"
  shows "checkStartingTask tasks = None"
proof -
  have "acyclic (dep_rel tasks)" using assms(1) by (simp add: checkNoCycles_eq split: if_splits)
  with source_exists assms(2,3) show ?thesis
    by (simp add: checkRunAfterTasksExist_iff checkStartingTask_iff)
qed

section \<open>Examples\<close>

definition ex_task :: "string \<Rightarrow> string list \<Rightarrow> TaskSpec" where
  "ex_task name deps = zero_TaskSpec\<lparr>ts_Name := name, ts_Command := [''sh''], ts_Image := ''alpine'',
     ts_RunAfter := deps\<rparr>"

definition ex_diamond :: "TaskSpec list" where
  "ex_diamond = [ex_task ''a'' [], ex_task ''b'' [''a''], ex_task ''c'' [''a''], ex_task ''d'' [''b'', ''c'']]"

lemma ex_task_simps [simp]:
  "ts_Name (ex_task n ds) = n" "ts_RunAfter (ex_task n ds) = ds" "ts_TaskRef (ex_task n ds) = None"
  "ts_Script (ex_task n ds) = ''''" "ts_Command (ex_task n ds) = [''sh'']" "ts_Image (ex_task n ds) = ''alpine''"
  "ts_Parameters (ex_task n ds) = []"
  by (simp_all add: ex_task_def zero_TaskSpec_def)

lemma checkNoCycles_diamond: "checkNoCycles ex_diamond = Some None"
  by (simp add: checkNoCycles_def ex_diamond_def all_names_def)

lemma checkRunAfterTasksExist_diamond: "checkRunAfterTasksExist ex_diamond = None"
  by (simp add: checkRunAfterTasksExist_def ex_diamond_def)

theorem checkStartingTask_redundant_witness:
  "checkNoCycles ex_diamond = Some None \<and> checkRunAfterTasksExist ex_diamond = None \<and>
   checkStartingTask ex_diamond = None"
  using checkStartingTask_redundant [OF checkNoCycles_diamond checkRunAfterTasksExist_diamond]
    checkNoCycles_diamond checkRunAfterTasksExist_diamond
  by (simp add: ex_diamond_def)

lemma ex_diamond_mem: "ex_task ''b'' [''a''] \<in> set ex_diamond" "ex_task ''c'' [''a''] \<in> set ex_diamond"
  by (simp_all add: ex_diamond_def)

lemma valid_start_diamond: "valid_start ''c'' ex_diamond"
  by (simp add: valid_start_def ex_diamond_def)

lemma checkAllTasksConnected_diamond: "checkAllTasksConnected ''c'' ex_diamond = Some None"
  by (simp add: checkAllTasksConnected_def ex_diamond_def all_names_def)

theorem checkAllTasksConnected_correct_witness:
  "valid_start ''c'' ex_diamond \<and> (''b'', ''c'') \<in> (link_rel ex_diamond)\<^sup>*"
proof -
  from checkAllTasksConnected_correct [OF valid_start_diamond] checkAllTasksConnected_diamond
  have "\<forall>a \<in> set ex_diamond. \<forall>b \<in> set ex_diamond. (ts_Name a, ts_Name b) \<in> (link_rel ex_diamond)\<^sup>*"
    by (simp split: if_split_asm)
  then have "(ts_Name (ex_task ''b'' [''a'']), ts_Name (ex_task ''c'' [''a''])) \<in> (link_rel ex_diamond)\<^sup>*"
    by (meson ex_diamond_mem)
  with valid_start_diamond show ?thesis by simp
qed

definition ex_spec :: DAGSpec where
  "ex_spec = zero_DAGSpec\<lparr>ds_Task := ex_diamond\<rparr>"

lemma ds_Task_ex_spec [simp]: "ds_Task ex_spec = ex_diamond" "ds_Parameters ex_spec = []"
  by (simp_all add: ex_spec_def zero_DAGSpec_def)

theorem ValidateDAG_iff_witness:
  "valid_start ''c'' (ds_Task ex_spec) \<and> ValidateDAG ''c'' ex_spec Map.empty = Some None \<and>
   acyclic (dep_rel ex_diamond)"
proof -
  have "ValidateDAG ''c'' ex_spec Map.empty = Some None"
    by (simp add: ValidateDAG_def checkNoCycles_diamond checkRunAfterTasksExist_diamond
        checkAllTasksConnected_diamond)
      (simp add: checkFieldsFilled_def checkParameters_def checkParameters_task_def check_selected_def
        checkStartingTask_def ex_diamond_def)
  with ValidateDAG_iff [of "''c''" ex_spec Map.empty] valid_start_diamond show ?thesis by simp
qed

definition ex_ref_task :: "string \<Rightarrow> TaskSpec" where
  "ex_ref_task ref = zero_TaskSpec\<lparr>ts_Name := ''dup'',
     ts_TaskRef := Some \<lparr>tr_Name = ref, tr_Version = 1\<rparr>\<rparr>"

lemma ex_ref_task_simps [simp]:
  "ts_Name (ex_ref_task r) = ''dup''" "ts_RunAfter (ex_ref_task r) = []"
  "ts_TaskRef (ex_ref_task r) = Some \<lparr>tr_Name = r, tr_Version = 1\<rparr>"
  by (simp_all add: ex_ref_task_def zero_TaskSpec_def)

definition ex_dup_spec :: DAGSpec where
  "ex_dup_spec = zero_DAGSpec\<lparr>ds_Task := [ex_ref_task ''x'', ex_ref_task ''y'']\<rparr>"

lemma ex_dup_spec_simps [simp]:
  "ds_Task ex_dup_spec = [ex_ref_task ''x'', ex_ref_task ''y'']" "ds_Parameters ex_dup_spec = []"
  by (simp_all add: ex_dup_spec_def zero_DAGSpec_def)

lemma ex_dup_checks:
  "checkFieldsFilled [ex_ref_task ''x'', ex_ref_task ''y''] = None"
  "checkParameters ex_dup_spec Map.empty = None"
  "checkNoCycles [ex_ref_task ''x'', ex_ref_task ''y''] = Some None"
  "checkRunAfterTasksExist [ex_ref_task ''x'', ex_ref_task ''y''] = None"
  "checkAllTasksConnected ''dup'' [ex_ref_task ''x'', ex_ref_task ''y''] = Some None"
  "checkStartingTask [ex_ref_task ''x'', ex_ref_task ''y''] = None"
  by (simp_all add: checkFieldsFilled_def checkParameters_def checkParameters_task_def
      checkNoCycles_def checkRunAfterTasksExist_def checkAllTasksConnected_def checkStartingTask_def
      all_names_def)

text \<open>
  The duplicate-name check looks at inline tasks only: a DAG in which two tasks that refer to shared tasks
  carry the same name passes \<open>ValidateDAG\<close>.
\<close>

theorem ValidateDAG_duplicate_refs:
  "\<not> distinct (map ts_Name (ds_Task ex_dup_spec)) \<and> valid_start ''dup'' (ds_Task ex_dup_spec) \<and>
   ValidateDAG ''dup'' ex_dup_spec Map.empty = Some None"
  by (simp add: ValidateDAG_def ex_dup_checks valid_start_def)

end
