(* ===== verification/Go_Strconv.thy ===== *)
theory Go_Strconv
  imports Kontroler_Prelude "HOL-Library.Word"
begin

text \<open>
  The decimal conversions of Go's \<open>strconv\<close> that the program uses (\<open>FormatUint\<close>, \<open>ParseUint\<close>,
  \<open>Itoa\<close>, \<open>Atoi\<close>, and the zero padding of \<open>%08d\<close>), with their round trips. Task and run identifiers travel
  through pod annotations as decimal strings, and the persistent queue keeps its counters that way.
\<close>

section \<open>Digits\<close>

definition digit_char :: "nat \<Rightarrow> char" where
  "digit_char n = char_of (48 + n)"

definition is_digit :: "char \<Rightarrow> bool" where
  "is_digit c \<longleftrightarrow> 48 \<le> (of_char c :: nat) \<and> (of_char c :: nat) \<le> 57"

definition digit_val :: "char \<Rightarrow> nat" where
  "digit_val c = of_char c - 48"

lemma of_char_digit_char: "n < 10 \<Longrightarrow> of_char (digit_char n) = (48 + n :: nat)"
  by (simp add: digit_char_def)

lemma digit_val_digit_char [simp]: "n < 10 \<Longrightarrow> digit_val (digit_char n) = n"
  by (simp add: digit_val_def of_char_digit_char)

lemma is_digit_digit_char [simp]: "n < 10 \<Longrightarrow> is_digit (digit_char n)"
  by (simp add: is_digit_def of_char_digit_char)

text \<open>The value of a digit string, the reference for every parser below.\<close>

definition decimal :: "string \<Rightarrow> nat" where
  "decimal s = foldl (\<lambda>v c. v * 10 + digit_val c) 0 s"

lemma decimal_Nil [simp]: "decimal '''' = 0"
  by (simp add: decimal_def)

lemma decimal_snoc [simp]: "decimal (s @ [c]) = decimal s * 10 + digit_val c"
  by (simp add: decimal_def)

section \<open>Printing and parsing\<close>

fun FormatUint :: "nat \<Rightarrow> string" where
  "FormatUint n = (if n < 10 then [digit_char n] else FormatUint (n div 10) @ [digit_char (n mod 10)])"

declare FormatUint.simps [simp del]

lemma decimal_FormatUint [simp]: "decimal (FormatUint n) = n"
proof (induction n rule: FormatUint.induct)
  case (1 n)
  then show ?case
    by (cases "n < 10") (simp_all add: FormatUint.simps [of n] decimal_def)
qed

lemma FormatUint_digits: "list_all is_digit (FormatUint n)"
proof (induction n rule: FormatUint.induct)
  case (1 n)
  then show ?case by (cases "n < 10") (simp_all add: FormatUint.simps [of n])
qed

lemma FormatUint_nonempty [simp]: "FormatUint n \<noteq> ''''"
  by (simp add: FormatUint.simps [of n])

lemma inj_FormatUint: "FormatUint m = FormatUint n \<longleftrightarrow> m = n"
  by (metis decimal_FormatUint)

definition ParseUint :: "string \<Rightarrow> nat result" where
  "ParseUint s =
     (if s = '''' \<or> \<not> list_all is_digit s then Inl (Err ''invalid syntax'')
      else if decimal s < 2 ^ 64 then Inr (decimal s) else Inl (Err ''value out of range''))"

lemma ParseUint_FormatUint: "n < 2 ^ 64 \<Longrightarrow> ParseUint (FormatUint n) = Inr n"
  by (simp add: ParseUint_def FormatUint_digits)

definition Itoa :: "int \<Rightarrow> string" where
  "Itoa n = (if n < 0 then CHR ''-'' # FormatUint (nat (- n)) else FormatUint (nat n))"

definition Atoi :: "string \<Rightarrow> int result" where
  "Atoi s =
     (let (neg, ds) = (case s of [] \<Rightarrow> (False, [])
                       | c # cs \<Rightarrow> if c = CHR ''-'' then (True, cs)
                                  else if c = CHR ''+'' then (False, cs) else (False, c # cs))
      in if ds = '''' \<or> \<not> list_all is_digit ds then Inl (Err ''invalid syntax'')
         else let v = (if neg then - int (decimal ds) else int (decimal ds))
              in if - (2 ^ 63) \<le> v \<and> v < 2 ^ 63 then Inr v else Inl (Err ''value out of range''))"

lemma not_digit_sign [simp]: "\<not> is_digit (CHR ''-'')" "\<not> is_digit (CHR ''+'')"
  by (simp_all add: is_digit_def)

lemma Atoi_Itoa:
  assumes "- (2 ^ 63) \<le> n" "n < 2 ^ 63"
  shows "Atoi (Itoa n) = Inr n"
proof (cases "n < 0")
  case True
  with assms show ?thesis by (simp add: Atoi_def Itoa_def FormatUint_digits)
next
  case False
  obtain c cs where f: "FormatUint (nat n) = c # cs" by (cases "FormatUint (nat n)") auto
  then have c: "is_digit c" "list_all is_digit cs"
    using FormatUint_digits [of "nat n"] by simp_all
  then have "c \<noteq> CHR ''-''" "c \<noteq> CHR ''+''" using not_digit_sign by metis+
  moreover have "decimal (c # cs) = nat n" using decimal_FormatUint [of "nat n"] by (simp add: f)
  ultimately show ?thesis using False assms c by (simp add: Atoi_def Itoa_def f)
qed

section \<open>Zero padding\<close>

text \<open>\<open>%08d\<close>: at least eight digits.\<close>

definition pad8 :: "nat \<Rightarrow> string" where
  "pad8 n = replicate (8 - length (FormatUint n)) (CHR ''0'') @ FormatUint n"

lemma decimal_pad: "decimal (replicate k (CHR ''0'') @ s) = decimal s"
  by (induction k) (simp_all add: decimal_def digit_val_def)

lemma inj_pad8: "pad8 m = pad8 n \<longleftrightarrow> m = n"
  by (metis decimal_FormatUint decimal_pad pad8_def)

lemma pad8_digits: "list_all is_digit (pad8 n)"
  using FormatUint_digits [of n] by (auto simp: pad8_def list_all_iff is_digit_def)

lemma pad8_nonempty [simp]: "pad8 n \<noteq> ''''"
  by (simp add: pad8_def)

end
