(* ===== verification/Dag_DSL.thy ===== *)
theory Dag_DSL
  imports Dag_Validation Go_Strconv
begin

text \<open>
  \<open>internal/dagdsl\<close>: the syntax tree of the DAG language, its conversion to a \<open>DAGSpec\<close>
  (\<open>parser.go\<close>) and the validator of the converted specification (\<open>validator.go\<close>). Tokenising and parsing are
  done by the participle library from the struct tags, so the parser is an argument of \<open>ParseDSL\<close>.
\<close>

section \<open>Syntax tree\<close>

record ParameterDef =
  pd_Name :: string
  pd_DefaultValue :: "string option"
  pd_DefaultFromSecret :: "string option"

record TargetSet =
  tg_Single :: "string option"
  tg_Multiple :: "string list option"

record EdgeDef =
  ed_From :: string
  ed_To :: TargetSet

text \<open>One field of a task block; the parser sets one pointer, the code tests them in order.\<close>

record TaskField =
  tf_Image :: "string option"
  tf_Command :: "string list option"
  tf_Args :: "string list option"
  tf_Script :: "string option"
  tf_Parameters :: "string list option"
  tf_Retry :: "string list option"
  tf_Backoff :: "string option"

record TaskDef =
  td_Name :: string
  td_Fields :: "TaskField list"

record DAGItem =
  it_Schedule :: "string option"
  it_Parameters :: "ParameterDef list option"
  it_Graph :: "EdgeDef list option"
  it_Task :: "TaskDef option"

section \<open>Strings and integers\<close>

definition quote_char :: char where
  "quote_char = CHR 0x22"

definition cleanString :: "string \<Rightarrow> string" where
  "cleanString s =
     (if 2 \<le> length s \<and> hd s = quote_char \<and> last s = quote_char then butlast (tl s) else s)"

definition triple_quote :: string where
  "triple_quote = [quote_char, quote_char, quote_char]"

definition cleanScriptString :: "string \<Rightarrow> string" where
  "cleanScriptString s =
     (if 6 \<le> length s \<and> take 3 s = triple_quote \<and> drop (length s - 3) s = triple_quote
      then take (length s - 6) (drop 3 s) else cleanString s)"

definition cleanStringArray :: "string list \<Rightarrow> string list" where
  "cleanStringArray arr = map cleanString arr"

text \<open>The accumulator is a 64-bit \<open>int\<close>: multiplication and addition wrap.\<close>

fun convertInt_from :: "string \<Rightarrow> 64 word \<Rightarrow> string \<Rightarrow> (64 word) result" where
  "convertInt_from orig val [] = Inr val"
| "convertInt_from orig val (c # cs) =
     (if is_digit c then convertInt_from orig (val * 10 + of_nat (digit_val c)) cs
      else Inl (Err (''invalid integer: '' @ orig)))"

definition convertIntString :: "string \<Rightarrow> int result" where
  "convertIntString s = map_sum id sint (convertInt_from s 0 s)"

fun convertIntArray :: "string list \<Rightarrow> int list result" where
  "convertIntArray [] = Inr []"
| "convertIntArray (s # ss) =
     (case convertIntString s of
        Inl e \<Rightarrow> Inl e
      | Inr v \<Rightarrow> map_sum id (\<lambda>vs. v # vs) (convertIntArray ss))"

section \<open>Conversion to a DAG specification\<close>

definition convertParameters :: "ParameterDef list \<Rightarrow> DagParameterSpec list" where
  "convertParameters params =
     map (\<lambda>p. \<lparr>dp_Name = pd_Name p,
               dp_DefaultValue = (case pd_DefaultValue p of None \<Rightarrow> '''' | Some v \<Rightarrow> cleanString v),
               dp_DefaultFromSecret =
                 (case pd_DefaultFromSecret p of None \<Rightarrow> '''' | Some v \<Rightarrow> cleanString v)\<rparr>) params"

definition getTargets :: "TargetSet \<Rightarrow> string list" where
  "getTargets t =
     (case tg_Single t of
        Some n \<Rightarrow> [n]
      | None \<Rightarrow> (case tg_Multiple t of Some ns \<Rightarrow> ns | None \<Rightarrow> []))"

fun add_dependencies :: "string \<Rightarrow> string list \<Rightarrow> (string \<rightharpoonup> string list) \<Rightarrow> (string \<rightharpoonup> string list)" where
  "add_dependencies from [] m = m"
| "add_dependencies from (target # ts) m =
     add_dependencies from ts
       (m(target \<mapsto> (case m target of None \<Rightarrow> [] | Some ds \<Rightarrow> ds) @ [from]))"

fun add_edge_list :: "EdgeDef list \<Rightarrow> (string \<rightharpoonup> string list) \<Rightarrow> (string \<rightharpoonup> string list)" where
  "add_edge_list [] m = m"
| "add_edge_list (e # es) m = add_edge_list es (add_dependencies (ed_From e) (getTargets (ed_To e)) m)"

definition buildDependencyMap :: "EdgeDef list option \<Rightarrow> (string \<rightharpoonup> string list)" where
  "buildDependencyMap graph =
     (case graph of None \<Rightarrow> Map.empty | Some edges \<Rightarrow> add_edge_list edges Map.empty)"

definition apply_field :: "TaskSpec \<Rightarrow> TaskField \<Rightarrow> TaskSpec" where
  "apply_field t f =
     (case tf_Image f of Some v \<Rightarrow> t\<lparr>ts_Image := cleanString v\<rparr> | None \<Rightarrow>
     (case tf_Command f of Some v \<Rightarrow> t\<lparr>ts_Command := cleanStringArray v\<rparr> | None \<Rightarrow>
     (case tf_Args f of Some v \<Rightarrow> t\<lparr>ts_Args := cleanStringArray v\<rparr> | None \<Rightarrow>
     (case tf_Script f of Some v \<Rightarrow> t\<lparr>ts_Script := cleanScriptString v\<rparr> | None \<Rightarrow>
     (case tf_Parameters f of Some v \<Rightarrow> t\<lparr>ts_Parameters := cleanStringArray v\<rparr> | None \<Rightarrow>
     (case tf_Retry f of Some v \<Rightarrow>
        (case convertIntArray v of
           Inl _ \<Rightarrow> t
         | Inr codes \<Rightarrow> t\<lparr>ts_Conditional := \<lparr>co_Enabled = codes \<noteq> [], co_RetryCodes = codes\<rparr>\<rparr>) | None \<Rightarrow>
     (case tf_Backoff f of Some v \<Rightarrow>
        (case convertIntString v of
           Inl _ \<Rightarrow> t
         | Inr limit \<Rightarrow> t\<lparr>ts_Backoff := \<lparr>bo_Limit = limit\<rparr>\<rparr>) | None \<Rightarrow> t)))))))"

definition createTaskSpec :: "TaskDef \<Rightarrow> (string \<rightharpoonup> string list) \<Rightarrow> TaskSpec" where
  "createTaskSpec task dependencies =
     (let t0 = zero_TaskSpec\<lparr>ts_Name := td_Name task, ts_Backoff := \<lparr>bo_Limit = 3\<rparr>,
                 ts_Conditional := \<lparr>co_Enabled = False, co_RetryCodes = []\<rparr>\<rparr>;
          t1 = foldl apply_field t0 (td_Fields task)
      in case dependencies (td_Name task) of
           None \<Rightarrow> t1
         | Some deps \<Rightarrow> t1\<lparr>ts_RunAfter := deps\<rparr>)"

record dsl_parts =
  dp_schedule :: string
  dp_parameters :: "ParameterDef list option"
  dp_graph :: "EdgeDef list option"
  dp_tasks :: "TaskDef list"

definition add_item :: "dsl_parts \<Rightarrow> DAGItem \<Rightarrow> dsl_parts" where
  "add_item p item =
     (case it_Schedule item of Some s \<Rightarrow> p\<lparr>dp_schedule := cleanString s\<rparr> | None \<Rightarrow>
     (case it_Parameters item of Some b \<Rightarrow> p\<lparr>dp_parameters := Some b\<rparr> | None \<Rightarrow>
     (case it_Graph item of Some g \<Rightarrow> p\<lparr>dp_graph := Some g\<rparr> | None \<Rightarrow>
     (case it_Task item of Some t \<Rightarrow> p\<lparr>dp_tasks := dp_tasks p @ [t]\<rparr> | None \<Rightarrow> p))))"

definition collect_items :: "DAGItem list \<Rightarrow> dsl_parts" where
  "collect_items items =
     foldl add_item \<lparr>dp_schedule = '''', dp_parameters = None, dp_graph = None, dp_tasks = []\<rparr> items"

definition convertToDAGSpec :: "DAGItem list \<Rightarrow> DAGSpec" where
  "convertToDAGSpec items =
     (let p = collect_items items;
          dependencies = buildDependencyMap (dp_graph p)
      in zero_DAGSpec\<lparr>ds_Schedule := dp_schedule p,
           ds_Parameters := (case dp_parameters p of None \<Rightarrow> [] | Some b \<Rightarrow> convertParameters b),
           ds_Task := map (\<lambda>t. createTaskSpec t dependencies) (dp_tasks p)\<rparr>)"

text \<open>\<open>parser.ParseString\<close> is the library's; \<open>convertToDAGSpec\<close> never returns an error.\<close>

definition ParseDSL :: "(string \<Rightarrow> string + DAGItem list) \<Rightarrow> string \<Rightarrow> DAGSpec result" where
  "ParseDSL parseString input =
     (case parseString input of
        Inl err \<Rightarrow> Inl (Err (''failed to parse DSL: '' @ err))
      | Inr root \<Rightarrow> Inr (convertToDAGSpec root))"

section \<open>Validation of the converted specification\<close>

record ValidationError =
  ve_Field :: string
  ve_Message :: string

record ValidationResult =
  vr_Valid :: bool
  vr_Errors :: "ValidationError list"

definition addError :: "string \<Rightarrow> string \<Rightarrow> ValidationResult \<Rightarrow> ValidationResult" where
  "addError field message r =
     r\<lparr>vr_Valid := False, vr_Errors := vr_Errors r @ [\<lparr>ve_Field = field, ve_Message = message\<rparr>]\<rparr>"

definition hasGraph :: "DAGSpec \<Rightarrow> bool" where
  "hasGraph spec \<longleftrightarrow> (\<exists>t \<in> set (ds_Task spec). ts_RunAfter t \<noteq> [])"

fun join :: "string \<Rightarrow> string list \<Rightarrow> string" where
  "join sep [] = ''''"
| "join sep [s] = s"
| "join sep (s # ss) = s @ sep @ join sep ss"

definition missing_tasks :: "DAGSpec \<Rightarrow> string list" where
  "missing_tasks spec =
     concat (map (\<lambda>t. filter (\<lambda>d. d \<notin> ts_Name ` set (ds_Task spec)) (ts_RunAfter t)) (ds_Task spec))"

definition validateGraphTaskReferences :: "DAGSpec \<Rightarrow> string option" where
  "validateGraphTaskReferences spec =
     (if missing_tasks spec \<noteq> []
      then Some (''tasks referenced in graph but not defined: '' @ join '', '' (missing_tasks spec))
      else None)"

fun validateParameters_list :: "DagParameterSpec list \<Rightarrow> string option" where
  "validateParameters_list [] = None"
| "validateParameters_list (p # ps) =
     (if dp_Name p = '''' then Some ''parameter missing name''
      else if dp_DefaultValue p \<noteq> '''' \<and> dp_DefaultFromSecret p \<noteq> ''''
        then Some (''parameter '' @ [CHR 0x27] @ dp_Name p @ [CHR 0x27] @
                   '' cannot have both default value and defaultFromSecret'')
      else if dp_DefaultValue p = '''' \<and> dp_DefaultFromSecret p = ''''
        then Some (''parameter '' @ [CHR 0x27] @ dp_Name p @ [CHR 0x27] @
                   '' must have either default value or defaultFromSecret'')
      else validateParameters_list ps)"

definition validateParameters :: "DAGSpec \<Rightarrow> string option" where
  "validateParameters spec = validateParameters_list (ds_Parameters spec)"

definition missing_params :: "DAGSpec \<Rightarrow> string list" where
  "missing_params spec =
     concat (map (\<lambda>t. map (\<lambda>p. [CHR 0x27] @ p @ [CHR 0x27] @ '' in task '' @ [CHR 0x27] @ ts_Name t @ [CHR 0x27])
       (filter (\<lambda>p. p \<notin> dp_Name ` set (ds_Parameters spec)) (ts_Parameters t))) (ds_Task spec))"

definition validateTaskParameterReferences :: "DAGSpec \<Rightarrow> string option" where
  "validateTaskParameterReferences spec =
     (if missing_params spec \<noteq> []
      then Some (''parameters referenced in tasks but not defined: '' @ join '', '' (missing_params spec))
      else None)"

definition add_if :: "string \<Rightarrow> string option \<Rightarrow> ValidationResult \<Rightarrow> ValidationResult" where
  "add_if field err r = (case err of None \<Rightarrow> r | Some m \<Rightarrow> addError field m r)"

definition ValidateDAGSpec :: "DAGSpec \<Rightarrow> ValidationResult" where
  "ValidateDAGSpec spec =
     (let r0 = \<lparr>vr_Valid = True, vr_Errors = []\<rparr>;
          r1 = (if \<not> hasGraph spec
                then addError ''graph'' ''no graph definition provided - DAG must include a graph block with task dependencies'' r0
                else add_if ''graph'' (validateGraphTaskReferences spec) r0);
          r2 = add_if ''parameters'' (validateParameters spec) r1
      in add_if ''parameters'' (validateTaskParameterReferences spec) r2)"

definition getTaskNames :: "DAGSpec \<Rightarrow> string list" where
  "getTaskNames spec = map ts_Name (ds_Task spec)"

text \<open>A later task of the same name overwrites the entry.\<close>

definition getDependencyMap :: "DAGSpec \<Rightarrow> (string \<rightharpoonup> string list)" where
  "getDependencyMap spec =
     foldl (\<lambda>m t. if ts_RunAfter t \<noteq> [] then m(ts_Name t \<mapsto> ts_RunAfter t) else m) Map.empty (ds_Task spec)"

definition getRootTasks :: "DAGSpec \<Rightarrow> string list" where
  "getRootTasks spec = map ts_Name (filter (\<lambda>t. ts_RunAfter t = []) (ds_Task spec))"

definition getLeafTasks :: "DAGSpec \<Rightarrow> string list" where
  "getLeafTasks spec =
     map ts_Name (filter (\<lambda>t. \<not> (\<exists>u \<in> set (ds_Task spec). ts_Name t \<in> set (ts_RunAfter u))) (ds_Task spec))"

record dag_details =
  de_taskCount :: nat
  de_hasSchedule :: bool
  de_schedule :: string
  de_taskNames :: "string list"
  de_dependencies :: "string \<rightharpoonup> string list"
  de_rootTasks :: "string list"
  de_leafTasks :: "string list"

definition ValidateAndParseDetails :: "DAGSpec \<Rightarrow> ValidationResult \<times> dag_details" where
  "ValidateAndParseDetails spec =
     (ValidateDAGSpec spec,
      \<lparr>de_taskCount = length (ds_Task spec), de_hasSchedule = ds_Schedule spec \<noteq> '''',
       de_schedule = ds_Schedule spec, de_taskNames = getTaskNames spec,
       de_dependencies = getDependencyMap spec, de_rootTasks = getRootTasks spec,
       de_leafTasks = getLeafTasks spec\<rparr>)"

section \<open>Quoting\<close>

definition quoted :: "string \<Rightarrow> string" where
  "quoted s = quote_char # s @ [quote_char]"

lemma cleanString_quoted [simp]: "cleanString (quoted s) = s"
  by (simp add: cleanString_def quoted_def)

lemma cleanScriptString_triple: "cleanScriptString (triple_quote @ s @ triple_quote) = s"
  by (simp add: cleanScriptString_def triple_quote_def)

text \<open>
  A script in single quotes is unquoted as well, unless it happens to look like a triple-quoted one.
\<close>

lemma cleanScriptString_quoted:
  assumes "take 2 s \<noteq> [quote_char, quote_char]"
  shows "cleanScriptString (quoted s) = s"
proof -
  have "take 3 (quoted s) \<noteq> triple_quote" if "6 \<le> length (quoted s)"
    using assms that by (auto simp: quoted_def triple_quote_def numeral_3_eq_3 numeral_2_eq_2 take_Cons' split: if_splits)
  then have "cleanScriptString (quoted s) = cleanString (quoted s)"
    unfolding cleanScriptString_def by argo
  then show ?thesis by simp
qed

section \<open>Integers\<close>

lemma decimal_Cons: "decimal (c # s) = digit_val c * 10 ^ length s + decimal s"
proof (induction s rule: rev_induct)
  case (snoc d s)
  have "decimal (c # s @ [d]) = decimal (c # s) * 10 + digit_val d"
    using decimal_snoc [of "c # s" d] by simp
  then show ?case by (simp add: snoc.IH algebra_simps)
qed (simp add: decimal_def)

lemma convertInt_from_digits:
  "list_all is_digit s \<Longrightarrow>
     convertInt_from orig v s = Inr (v * 10 ^ length s + of_nat (decimal s))"
  by (induction s arbitrary: v) (simp_all add: decimal_Cons algebra_simps)

lemma convertInt_from_error:
  "\<not> list_all is_digit s \<Longrightarrow> convertInt_from orig v s = Inl (Err (''invalid integer: '' @ orig))"
  by (induction s arbitrary: v) auto

text \<open>
  The integer parser of the language: it fails exactly on a string with a non-digit; a digit string is
  its decimal value taken modulo 2^64 into the signed 64-bit range, so it is exact below 2^63 and wraps above.
\<close>

theorem convertIntString_correct:
  "convertIntString s =
     (if list_all is_digit s then Inr (signed_take_bit 63 (int (decimal s)))
      else Inl (Err (''invalid integer: '' @ s)))"
proof -
  have "sint (of_nat n :: 64 word) = signed_take_bit 63 (int n)" for n
    by transfer simp
  then show ?thesis
    by (simp add: convertIntString_def convertInt_from_digits convertInt_from_error)
qed

section \<open>Dependencies\<close>

definition deps_of :: "EdgeDef list \<Rightarrow> string \<Rightarrow> string list" where
  "deps_of edges name =
     concat (map (\<lambda>e. replicate (count_list (getTargets (ed_To e)) name) (ed_From e)) edges)"

definition opt_list :: "'a list option \<Rightarrow> 'a list" where
  "opt_list x = (case x of None \<Rightarrow> [] | Some l \<Rightarrow> l)"

lemma opt_list_simps [simp]: "opt_list None = []" "opt_list (Some l) = l"
  by (simp_all add: opt_list_def)

lemma add_dependencies_eq:
  "opt_list (add_dependencies from ts m x) = opt_list (m x) @ replicate (count_list ts x) from"
  by (induction ts arbitrary: m) (auto simp: opt_list_def replicate_append_same split: option.splits)

lemma add_edge_list_eq:
  "opt_list (add_edge_list es m x) = opt_list (m x) @ deps_of es x"
  by (induction es arbitrary: m) (simp_all add: deps_of_def add_dependencies_eq)

lemma apply_field_keeps [simp]:
  "ts_Name (apply_field t f) = ts_Name t" "ts_RunAfter (apply_field t f) = ts_RunAfter t"
  "ts_TaskRef (apply_field t f) = ts_TaskRef t"
  by (simp_all add: apply_field_def split: option.splits sum.splits)

lemma foldl_apply_field_keeps [simp]:
  "ts_Name (foldl apply_field t fs) = ts_Name t" "ts_RunAfter (foldl apply_field t fs) = ts_RunAfter t"
  "ts_TaskRef (foldl apply_field t fs) = ts_TaskRef t"
  by (induction fs arbitrary: t) simp_all

lemma createTaskSpec_keeps [simp]:
  "ts_Name (createTaskSpec t deps) = td_Name t"
  "ts_RunAfter (createTaskSpec t deps) = opt_list (deps (td_Name t))"
  "ts_TaskRef (createTaskSpec t deps) = None"
  by (simp_all add: createTaskSpec_def zero_TaskSpec_def Let_def split: option.splits)

lemma convertToDAGSpec_Task:
  "ds_Task (convertToDAGSpec items) =
     map (\<lambda>t. createTaskSpec t (buildDependencyMap (dp_graph (collect_items items)))) (dp_tasks (collect_items items))"
  by (simp add: convertToDAGSpec_def Let_def)

lemma buildDependencyMap_eq: "opt_list (buildDependencyMap g x) = deps_of (opt_list g) x"
proof (cases g)
  case None
  then show ?thesis by (simp add: buildDependencyMap_def deps_of_def)
next
  case (Some es)
  then show ?thesis by (simp add: buildDependencyMap_def add_edge_list_eq)
qed

text \<open>
  The conversion of a graph block: the tasks of the specification are the task blocks in order, and
  the dependencies of each are the sources of the edges into it, in the order of the edges, once per mention.
\<close>

theorem convertToDAGSpec_graph:
  "map (\<lambda>t. (ts_Name t, ts_RunAfter t)) (ds_Task (convertToDAGSpec items)) =
     map (\<lambda>t. (td_Name t, deps_of (opt_list (dp_graph (collect_items items))) (td_Name t)))
       (dp_tasks (collect_items items))"
  by (simp add: convertToDAGSpec_Task buildDependencyMap_eq)

section \<open>What a valid specification guarantees\<close>

lemma add_if_Valid [simp]: "vr_Valid (add_if f e r) \<longleftrightarrow> vr_Valid r \<and> e = None"
  by (auto simp: add_if_def addError_def split: option.splits)

lemma missing_tasks_iff: "missing_tasks spec = [] \<longleftrightarrow> checkRunAfterTasksExist (ds_Task spec) = None"
  by (auto simp: missing_tasks_def checkRunAfterTasksExist_def filter_empty_conv split: if_splits)

lemma validateParameters_iff:
  "validateParameters_list ps = None \<longleftrightarrow> first_check checkParameters_decl ps = None"
  by (induction ps) (auto simp: checkParameters_decl_def)

lemma missing_params_iff:
  "missing_params spec = [] \<longleftrightarrow>
     (\<forall>t \<in> set (ds_Task spec). check_selected (ds_Parameters spec) (ts_Parameters t) = None)"
  by (auto simp: missing_params_def check_selected_def filter_empty_conv split: if_splits)

lemma ValidateDAGSpec_Valid:
  "vr_Valid (ValidateDAGSpec spec) \<longleftrightarrow>
     hasGraph spec \<and> checkRunAfterTasksExist (ds_Task spec) = None \<and>
     first_check checkParameters_decl (ds_Parameters spec) = None \<and>
     (\<forall>t \<in> set (ds_Task spec). check_selected (ds_Parameters spec) (ts_Parameters t) = None)"
  by (auto simp: ValidateDAGSpec_def Let_def addError_def validateGraphTaskReferences_def
      validateParameters_def validateTaskParameterReferences_def missing_tasks_iff validateParameters_iff
      missing_params_iff)

lemma convertToDAGSpec_no_ref: "t \<in> set (ds_Task (convertToDAGSpec items)) \<Longrightarrow> ts_TaskRef t = None"
  by (auto simp: convertToDAGSpec_Task)

text \<open>
  (C35) The validator of the language implies two of the checks the reconciler repeats: a converted specification it
  accepts has no dangling dependency and passes the parameter check, whatever the shared tasks are.
\<close>

theorem ValidateDAGSpec_sound:
  assumes "vr_Valid (ValidateDAGSpec (convertToDAGSpec items))"
  shows "checkRunAfterTasksExist (ds_Task (convertToDAGSpec items)) = None \<and>
         checkParameters (convertToDAGSpec items) refParams = None"
  using assms convertToDAGSpec_no_ref [of _ items]
  by (simp add: ValidateDAGSpec_Valid checkParameters_def checkParameters_task_def)

definition no_item :: DAGItem where
  "no_item = \<lparr>it_Schedule = None, it_Parameters = None, it_Graph = None, it_Task = None\<rparr>"

definition ex_edge :: "string \<Rightarrow> string list \<Rightarrow> EdgeDef" where
  "ex_edge a bs = \<lparr>ed_From = a, ed_To = \<lparr>tg_Single = None, tg_Multiple = Some bs\<rparr>\<rparr>"

definition ex_task_item :: "string \<Rightarrow> DAGItem" where
  "ex_task_item n = no_item\<lparr>it_Task := Some \<lparr>td_Name = n, td_Fields = []\<rparr>\<rparr>"

definition ex_items :: "string list \<Rightarrow> DAGItem list" where
  "ex_items targets = [no_item\<lparr>it_Graph := Some [ex_edge ''a'' targets]\<rparr>, ex_task_item ''a'', ex_task_item ''b'']"

lemmas ex_items_defs = ex_items_def ex_task_item_def ex_edge_def no_item_def convertToDAGSpec_def collect_items_def
  add_item_def Let_def buildDependencyMap_def getTargets_def createTaskSpec_def zero_TaskSpec_def zero_DAGSpec_def

theorem ValidateDAGSpec_sound_witness:
  "vr_Valid (ValidateDAGSpec (convertToDAGSpec (ex_items [''b'']))) \<and>
   checkRunAfterTasksExist (ds_Task (convertToDAGSpec (ex_items [''b'']))) = None \<and>
   checkParameters (convertToDAGSpec (ex_items [''b''])) (\<lambda>_. None) = None"
proof -
  have "vr_Valid (ValidateDAGSpec (convertToDAGSpec (ex_items [''b''])))"
    by (simp add: ValidateDAGSpec_Valid hasGraph_def checkRunAfterTasksExist_def check_selected_def ex_items_defs)
  then show ?thesis using ValidateDAGSpec_sound [of "ex_items [''b'']" "\<lambda>_. None"] by blast
qed

text \<open>
  An edge to a task without a block is dropped without an error: the graph \<open>a -> (b, c)\<close> with blocks for
  \<open>a\<close> and \<open>b\<close> only is accepted, and the specification does not mention \<open>c\<close>.
\<close>

theorem undefined_target_accepted:
  "vr_Valid (ValidateDAGSpec (convertToDAGSpec (ex_items [''b'', ''c'']))) \<and>
   ''c'' \<notin> set (all_names (ds_Task (convertToDAGSpec (ex_items [''b'', ''c'']))))"
  by (simp add: ValidateDAGSpec_Valid hasGraph_def checkRunAfterTasksExist_def check_selected_def ex_items_defs
      all_names_def)

section \<open>Roots and leaves\<close>

lemma getDependencyMap_step:
  "foldl (\<lambda>m t. if ts_RunAfter t \<noteq> [] then m(ts_Name t \<mapsto> ts_RunAfter t) else m) m ts n = Some ds \<Longrightarrow>
     m n = Some ds \<or> (\<exists>t \<in> set ts. ts_Name t = n \<and> ts_RunAfter t = ds \<and> ds \<noteq> [])"
proof (induction ts arbitrary: m)
  case (Cons t ts)
  then have "(if ts_RunAfter t \<noteq> [] then m(ts_Name t \<mapsto> ts_RunAfter t) else m) n = Some ds \<or>
             (\<exists>t \<in> set ts. ts_Name t = n \<and> ts_RunAfter t = ds \<and> ds \<noteq> [])"
    by simp
  then show ?case by (auto split: if_splits)
qed simp

lemma getDependencyMap_Some:
  "getDependencyMap spec n = Some ds \<Longrightarrow>
     \<exists>t \<in> set (ds_Task spec). ts_Name t = n \<and> ts_RunAfter t = ds \<and> ds \<noteq> []"
  using getDependencyMap_step [of Map.empty "ds_Task spec" n ds] by (simp add: getDependencyMap_def)

text \<open>
  On an acyclic specification with at least one task and no dangling dependency, the reported root tasks and
  leaf tasks of a specification are never empty.
\<close>

theorem roots_and_leaves_exist:
  assumes "ds_Task spec \<noteq> []" "checkNoCycles (ds_Task spec) = Some None"
    and "checkRunAfterTasksExist (ds_Task spec) = None"
  shows "getRootTasks spec \<noteq> [] \<and> getLeafTasks spec \<noteq> []"
proof -
  have acyc: "acyclic (dep_rel (ds_Task spec))" using assms(2) by (simp add: checkNoCycles_eq split: if_splits)
  have wf: "wf (dep_rel (ds_Task spec))"
    using acyc finite_dep_rel finite_acyclic_wf by blast
  obtain t0 where t0: "t0 \<in> ts_Name ` set (ds_Task spec)"
    using assms(1) by (meson imageI last_in_set)
  have "getRootTasks spec \<noteq> []"
    using source_exists [OF acyc] assms(1,3)
    by (auto simp: checkRunAfterTasksExist_iff getRootTasks_def filter_empty_conv)
  moreover obtain y where y: "y \<in> ts_Name ` set (ds_Task spec)"
    and ymin: "\<And>x. (x, y) \<in> dep_rel (ds_Task spec) \<Longrightarrow> x \<notin> ts_Name ` set (ds_Task spec)"
    using wfE_min [OF wf t0] by blast
  have "getLeafTasks spec \<noteq> []"
  proof -
    obtain t where t: "t \<in> set (ds_Task spec)" "ts_Name t = y" using y by blast
    have "\<not> (\<exists>u \<in> set (ds_Task spec). ts_Name t \<in> set (ts_RunAfter u))"
      using ymin t by (auto simp: dep_rel_iff)
    then show ?thesis using t by (auto simp: getLeafTasks_def filter_empty_conv)
  qed
  ultimately show ?thesis by blast
qed

theorem roots_and_leaves_exist_witness:
  "ds_Task ex_spec \<noteq> [] \<and> checkNoCycles (ds_Task ex_spec) = Some None \<and>
   checkRunAfterTasksExist (ds_Task ex_spec) = None \<and> getRootTasks ex_spec \<noteq> [] \<and> getLeafTasks ex_spec \<noteq> []"
proof -
  have "ds_Task ex_spec \<noteq> []" by (simp add: ex_diamond_def)
  with roots_and_leaves_exist [of ex_spec] checkNoCycles_diamond checkRunAfterTasksExist_diamond
  show ?thesis by simp
qed

end
