(* ===== verification/Pod_Queue.thy ===== *)
theory Pod_Queue
  imports Go_Strconv
begin

text \<open>
  \<open>internal/queue\<close>: the in-memory queue (a slice with a head index that is compacted now and then) and
  the persistent queue over a Pebble key-value store (decimal counters and zero-padded keys). Both
  implement the interface of \<open>queue.go\<close>, stated here as the locale \<open>pod_queue\<close>: a first-in first-out
  list of events, with the number of further events the queue has room for. The interpretations at
  the end discharge its laws for the two implementations. One pass of a pop holds the mutex
  from start to end, so operations are atomic; waiting on an empty queue is the outcome \<open>Wait\<close>, and the
  wake-up protocol is the step relation \<open>mq_step\<close>.
\<close>

section \<open>The interface\<close>

text \<open>The outcome of one pass of \<open>PopBatchWithContext\<close>: wait, or return values and an error.\<close>

datatype 'e pop_out = Wait | Done "'e list" check

datatype 'e queue_op = OpPush "'e list" | OpPop nat

text \<open>A list of operations run against an implementation, with what each pop reports.\<close>

fun run_queue :: "('q \<Rightarrow> 'e list \<Rightarrow> check \<times> 'q) \<Rightarrow> ('q \<Rightarrow> nat \<Rightarrow> 'e pop_out \<times> 'q) \<Rightarrow> 'q \<Rightarrow>
    'e queue_op list \<Rightarrow> 'e pop_out list \<times> 'q" where
  "run_queue push pop q [] = ([], q)"
| "run_queue push pop q (OpPush vs # ops) = run_queue push pop (snd (push q vs)) ops"
| "run_queue push pop q (OpPop n # ops) =
     (fst (pop q n) # fst (run_queue push pop (snd (pop q n)) ops), snd (run_queue push pop (snd (pop q n)) ops))"

text \<open>The specification: a list.\<close>

definition spec_push :: "'e list \<Rightarrow> 'e list \<Rightarrow> check \<times> 'e list" where
  "spec_push q vs = (None, q @ vs)"

definition spec_pop :: "'e list \<Rightarrow> nat \<Rightarrow> 'e pop_out \<times> 'e list" where
  "spec_pop q n = (if q = [] then (Wait, q) else (Done (take n q) None, drop n q))"

fun pushed :: "'e queue_op list \<Rightarrow> 'e list" where
  "pushed [] = []"
| "pushed (OpPush vs # ops) = vs @ pushed ops"
| "pushed (OpPop n # ops) = pushed ops"

fun popped :: "'e pop_out list \<Rightarrow> 'e list" where
  "popped [] = []"
| "popped (Wait # outs) = popped outs"
| "popped (Done vs e # outs) = vs @ popped outs"

lemma spec_pop_simps: "snd (spec_pop q n) = drop n q"
  "fst (spec_pop q n) = (if q = [] then Wait else Done (take n q) None)"
  by (auto simp: spec_pop_def)

lemma take_drop_append: "take n xs @ drop n xs @ ys = xs @ ys"
  by (metis append_assoc append_take_drop_id)

lemma spec_run_conserves:
  "popped (fst (run_queue spec_push spec_pop q ops)) @ snd (run_queue spec_push spec_pop q ops) = q @ pushed ops"
proof (induction ops arbitrary: q)
  case (Cons op ops)
  then show ?case
    by (cases op) (simp_all add: spec_push_def spec_pop_simps take_drop_append)
qed simp

locale pod_queue =
  fixes inv :: "'q \<Rightarrow> bool"
    and abs :: "'q \<Rightarrow> 'e list"
    and room :: "'q \<Rightarrow> nat \<Rightarrow> bool"
    and push :: "'q \<Rightarrow> 'e list \<Rightarrow> check \<times> 'q"
    and pop :: "'q \<Rightarrow> nat \<Rightarrow> 'e pop_out \<times> 'q"
    and size :: "'q \<Rightarrow> nat"
  assumes room_less: "room q n \<Longrightarrow> m \<le> n \<Longrightarrow> room q m"
    and push_ok: "inv q \<Longrightarrow> room q (length vs) \<Longrightarrow> fst (push q vs) = None"
    and push_inv: "inv q \<Longrightarrow> room q (length vs) \<Longrightarrow> inv (snd (push q vs))"
    and push_abs: "inv q \<Longrightarrow> room q (length vs) \<Longrightarrow> abs (snd (push q vs)) = abs q @ vs"
    and push_room: "inv q \<Longrightarrow> room q (length vs + n) \<Longrightarrow> room (snd (push q vs)) n"
    and pop_empty: "inv q \<Longrightarrow> abs q = [] \<Longrightarrow> pop q n = (Wait, q)"
    and pop_out: "inv q \<Longrightarrow> abs q \<noteq> [] \<Longrightarrow> fst (pop q n) = Done (take n (abs q)) None"
    and pop_inv: "inv q \<Longrightarrow> inv (snd (pop q n))"
    and pop_abs: "inv q \<Longrightarrow> abs (snd (pop q n)) = drop n (abs q)"
    and pop_room: "inv q \<Longrightarrow> room q m \<Longrightarrow> room (snd (pop q n)) m"
    and size_abs: "inv q \<Longrightarrow> size q = length (abs q)"
begin

lemma pop_spec: "inv q \<Longrightarrow> fst (pop q n) = fst (spec_pop (abs q) n)"
  by (cases "abs q = []") (simp_all add: pop_empty pop_out spec_pop_def)

text \<open>A simulation: every run of the implementation is the run of the list.\<close>

lemma run_refines:
  assumes "inv q" "room q (length (pushed ops))"
  shows "fst (run_queue push pop q ops) = fst (run_queue spec_push spec_pop (abs q) ops)"
    and "abs (snd (run_queue push pop q ops)) = snd (run_queue spec_push spec_pop (abs q) ops)"
    and "inv (snd (run_queue push pop q ops))"
proof -
  have "fst (run_queue push pop q ops) = fst (run_queue spec_push spec_pop (abs q) ops) \<and>
        abs (snd (run_queue push pop q ops)) = snd (run_queue spec_push spec_pop (abs q) ops) \<and>
        inv (snd (run_queue push pop q ops))"
    using assms
  proof (induction ops arbitrary: q)
    case (Cons op ops)
    show ?case
    proof (cases op)
      case (OpPush vs)
      have room: "room q (length vs + length (pushed ops))" using Cons.prems(2) OpPush by simp
      then have "room q (length vs)" by (rule room_less) simp
      then show ?thesis
        using Cons.IH [of "snd (push q vs)"] Cons.prems(1) push_room [OF Cons.prems(1) room]
        by (simp add: OpPush push_inv push_abs spec_push_def)
    next
      case (OpPop n)
      have "room (snd (pop q n)) (length (pushed ops))"
        using Cons.prems OpPop pop_room by simp
      then show ?thesis
        using Cons.IH [of "snd (pop q n)"] Cons.prems(1)
        by (simp add: OpPop pop_inv pop_abs pop_spec spec_pop_simps)
    qed
  qed simp
  then show "fst (run_queue push pop q ops) = fst (run_queue spec_push spec_pop (abs q) ops)"
    "abs (snd (run_queue push pop q ops)) = snd (run_queue spec_push spec_pop (abs q) ops)"
    "inv (snd (run_queue push pop q ops))" by blast+
qed

text \<open>No event is lost, duplicated or reordered.\<close>

lemma run_conserves:
  assumes "inv q" "room q (length (pushed ops))"
  shows "popped (fst (run_queue push pop q ops)) @ abs (snd (run_queue push pop q ops)) = abs q @ pushed ops"
  using spec_run_conserves [of "abs q" ops] by (simp add: run_refines [OF assms])

end

section \<open>The in-memory queue\<close>

text \<open>
  \<open>MemoryQueue\<close>: a nil pointer of the slice is \<open>None\<close>; \<open>notify\<close> is a channel of capacity one, so a flag;
  \<open>mq_cancelled\<close> says that the queue's context is done.
\<close>

record 'e MemoryQueue =
  mq_data :: "'e option list"
  mq_head :: nat
  mq_notify :: bool
  mq_cancelled :: bool

definition NewMemoryQueue :: "'e MemoryQueue" where
  "NewMemoryQueue = \<lparr>mq_data = [], mq_head = 0, mq_notify = False, mq_cancelled = False\<rparr>"

definition mq_PushBatch :: "'e MemoryQueue \<Rightarrow> 'e option list \<Rightarrow> check \<times> 'e MemoryQueue" where
  "mq_PushBatch q values = (None, q\<lparr>mq_data := mq_data q @ values, mq_notify := True\<rparr>)"

definition mq_Push :: "'e MemoryQueue \<Rightarrow> 'e option \<Rightarrow> check \<times> 'e MemoryQueue" where
  "mq_Push q value = mq_PushBatch q [value]"

text \<open>The part of \<open>PopBatchWithContext\<close> between lock and unlock.\<close>

definition mq_take :: "'e MemoryQueue \<Rightarrow> nat \<Rightarrow> 'e option list \<times> 'e MemoryQueue" where
  "mq_take q count =
     (let res = take count (drop (mq_head q) (mq_data q));
          data = take (mq_head q) (mq_data q) @ replicate count None @ drop (mq_head q + count) (mq_data q);
          head = mq_head q + count
      in if head > 1024 \<and> head * 2 > length data
         then (res, q\<lparr>mq_data := drop head data, mq_head := 0\<rparr>)
         else (res, q\<lparr>mq_data := data, mq_head := head\<rparr>))"

definition mq_PopBatch :: "'e MemoryQueue \<Rightarrow> nat \<Rightarrow> 'e option pop_out \<times> 'e MemoryQueue" where
  "mq_PopBatch q count =
     (let available = length (mq_data q) - mq_head q
      in if available = 0 then (Wait, q)
         else let (res, q') = mq_take q (min count available) in (Done res None, q'))"

definition mq_Size :: "'e MemoryQueue \<Rightarrow> nat" where
  "mq_Size q = length (mq_data q) - mq_head q"

definition mq_Close :: "'e MemoryQueue \<Rightarrow> 'e MemoryQueue" where
  "mq_Close q = q\<lparr>mq_cancelled := True, mq_notify := True\<rparr>"

definition mq_abs :: "'e MemoryQueue \<Rightarrow> 'e option list" where
  "mq_abs q = drop (mq_head q) (mq_data q)"

text \<open>
  The head is inside the slice, everything before it has been cleared, and after compaction the dead prefix is
  at most 1024 slots or half of the slice.
\<close>

definition mq_inv :: "'e MemoryQueue \<Rightarrow> bool" where
  "mq_inv q \<longleftrightarrow> mq_head q \<le> length (mq_data q) \<and>
     take (mq_head q) (mq_data q) = replicate (mq_head q) None \<and>
     (mq_head q \<le> 1024 \<or> mq_head q * 2 \<le> length (mq_data q))"

lemma mq_inv_New [simp]: "mq_inv NewMemoryQueue" "mq_abs NewMemoryQueue = []"
  by (simp_all add: mq_inv_def mq_abs_def NewMemoryQueue_def)

lemma mq_take_fst [simp]: "fst (mq_take q n) = take n (mq_abs q)"
  by (simp add: mq_take_def mq_abs_def Let_def)

lemma mq_take_abs:
  "mq_head q + n \<le> length (mq_data q) \<Longrightarrow> mq_abs (snd (mq_take q n)) = drop n (mq_abs q)"
  by (simp add: mq_take_def mq_abs_def Let_def add.commute)

lemma mq_take_inv:
  assumes "mq_inv q" "mq_head q + n \<le> length (mq_data q)"
  shows "mq_inv (snd (mq_take q n))"
  using assms by (auto simp: mq_take_def mq_inv_def Let_def replicate_add)

lemma mq_PushBatch_inv: "mq_inv q \<Longrightarrow> mq_inv (snd (mq_PushBatch q vs))"
  by (auto simp: mq_PushBatch_def mq_inv_def)

lemma mq_PushBatch_abs: "mq_inv q \<Longrightarrow> mq_abs (snd (mq_PushBatch q vs)) = mq_abs q @ vs"
  by (simp add: mq_PushBatch_def mq_abs_def mq_inv_def)

lemma length_mq_abs [simp]: "length (mq_abs q) = length (mq_data q) - mq_head q"
  by (simp add: mq_abs_def)

lemma mq_PopBatch_nonempty:
  assumes "mq_abs q \<noteq> []"
  shows "mq_PopBatch q n = (Done (take n (mq_abs q)) None, snd (mq_take q (min n (length (mq_abs q)))))"
proof -
  have "length (mq_data q) - mq_head q \<noteq> 0" using assms by (simp add: mq_abs_def)
  then show ?thesis by (simp add: mq_PopBatch_def Let_def case_prod_beta min_def)
qed

lemma mq_PopBatch_empty: "mq_abs q = [] \<Longrightarrow> mq_PopBatch q n = (Wait, q)"
  by (simp add: mq_PopBatch_def mq_abs_def)

lemma mq_PopBatch_state:
  assumes "mq_inv q"
  shows "mq_inv (snd (mq_PopBatch q n)) \<and> mq_abs (snd (mq_PopBatch q n)) = drop n (mq_abs q)"
proof (cases "mq_abs q = []")
  case True
  then show ?thesis using assms by (simp add: mq_PopBatch_empty)
next
  case False
  have "mq_head q + min n (length (mq_abs q)) \<le> length (mq_data q)"
    using assms by (auto simp: mq_inv_def)
  then show ?thesis
    using assms by (simp add: mq_PopBatch_nonempty [OF False] mq_take_inv mq_take_abs min_def)
qed

interpretation mq: pod_queue mq_inv mq_abs "\<lambda>q n. True" mq_PushBatch mq_PopBatch mq_Size
proof unfold_locales
  show "fst (mq_PushBatch q vs) = None" for q :: "'a MemoryQueue" and vs by (simp add: mq_PushBatch_def)
  show "fst (mq_PopBatch q n) = Done (take n (mq_abs q)) None" if "mq_abs q \<noteq> []" for q :: "'a MemoryQueue" and n
    using that by (simp add: mq_PopBatch_nonempty)
qed (simp_all add: mq_PushBatch_inv mq_PushBatch_abs mq_PopBatch_empty mq_PopBatch_state mq_Size_def)

text \<open>
  (C8) The in-memory queue refines a first-in first-out list: for every sequence of batch pushes and pops, in
  any state that satisfies its invariant, each pop reports what the list would report, and the final content is
  the list's.
\<close>

theorem memory_queue_refines:
  assumes "mq_inv q"
  shows "fst (run_queue mq_PushBatch mq_PopBatch q ops) = fst (run_queue spec_push spec_pop (mq_abs q) ops) \<and>
         mq_abs (snd (run_queue mq_PushBatch mq_PopBatch q ops)) = snd (run_queue spec_push spec_pop (mq_abs q) ops) \<and>
         mq_inv (snd (run_queue mq_PushBatch mq_PopBatch q ops))"
  using mq.run_refines [OF assms TrueI] by blast

definition ex_mq :: "nat MemoryQueue" where
  "ex_mq = \<lparr>mq_data = [None, Some 1, Some 2], mq_head = 1, mq_notify = False, mq_cancelled = False\<rparr>"

theorem memory_queue_refines_witness:
  "mq_inv ex_mq \<and>
   fst (run_queue mq_PushBatch mq_PopBatch ex_mq [OpPop 1, OpPush [Some 3], OpPop 5, OpPop 1]) =
     [Done [Some 1] None, Done [Some 2, Some 3] None, Wait]"
proof -
  have "mq_inv ex_mq" by (simp add: ex_mq_def mq_inv_def)
  with memory_queue_refines [OF this, of "[OpPop 1, OpPush [Some 3], OpPop 5, OpPop 1]"] show ?thesis
    by (simp add: spec_push_def spec_pop_def) (simp add: ex_mq_def mq_abs_def spec_pop_def spec_push_def)
qed

text \<open>
  Popped events are not retained: after any sequence of operations from a new queue, the slots before the head
  are nil, and the slice is never longer than the live events plus 1024 or twice the live events.
\<close>

theorem memory_queue_space:
  "let q = snd (run_queue mq_PushBatch mq_PopBatch NewMemoryQueue ops)
   in take (mq_head q) (mq_data q) = replicate (mq_head q) None \<and>
      length (mq_data q) \<le> max (mq_Size q + 1024) (2 * mq_Size q)"
proof -
  have "mq_inv (snd (run_queue mq_PushBatch mq_PopBatch NewMemoryQueue ops))"
    by (rule mq.run_refines(3)) simp_all
  then show ?thesis by (auto simp: mq_inv_def mq_Size_def Let_def)
qed

subsection \<open>Waiting and waking up\<close>

text \<open>
  One consumer in \<open>PopBatchWithContext\<close> and any number of producers. The consumer checks under
  the lock, waits on the three channels when the queue is empty, and checks again when it is notified.
\<close>

datatype 'e consumer =
    Idle
  | Checking nat
  | Waiting nat
  | Returned "'e option list" check

inductive mq_step :: "bool \<Rightarrow> 'e consumer \<times> 'e MemoryQueue \<Rightarrow> 'e consumer \<times> 'e MemoryQueue \<Rightarrow> bool"
  for ctx_done where
  call: "mq_step ctx_done (Idle, q) (Checking n, q)"
| found: "mq_PopBatch q n = (Done vs e, q') \<Longrightarrow> mq_step ctx_done (Checking n, q) (Returned vs e, q')"
| empty: "mq_PopBatch q n = (Wait, q') \<Longrightarrow> mq_step ctx_done (Checking n, q) (Waiting n, q')"
| notified: "mq_notify q \<Longrightarrow> mq_step ctx_done (Waiting n, q) (Checking n, q\<lparr>mq_notify := False\<rparr>)"
| context_done: "ctx_done \<Longrightarrow> mq_step ctx_done (Waiting n, q) (Returned [] (Some ErrContext), q)"
| closed: "mq_cancelled q \<Longrightarrow> mq_step ctx_done (Waiting n, q) (Returned [] (Some ErrQueueIsEmpty), q)"
| again: "mq_step ctx_done (Returned vs e, q) (Idle, q)"
| producer: "mq_step ctx_done (c, q) (c, snd (mq_PushBatch q vs))"
| close: "mq_step ctx_done (c, q) (c, mq_Close q)"

inductive_cases mq_stepE: "mq_step ctx_done (c, q) (c', q')"

definition wakeable :: "'e consumer \<times> 'e MemoryQueue \<Rightarrow> bool" where
  "wakeable s \<longleftrightarrow> mq_inv (snd s) \<and>
     (\<forall>n. fst s = Waiting n \<longrightarrow> mq_abs (snd s) \<noteq> [] \<longrightarrow> mq_notify (snd s))"

lemma mq_inv_notify [simp]: "mq_inv (q\<lparr>mq_notify := b\<rparr>) = mq_inv q" "mq_abs (q\<lparr>mq_notify := b\<rparr>) = mq_abs q"
  "mq_inv (mq_Close q) = mq_inv q" "mq_abs (mq_Close q) = mq_abs q"
  by (simp_all add: mq_inv_def mq_abs_def mq_Close_def)

lemma mq_PopBatch_Wait: "mq_PopBatch q n = (Wait, q') \<Longrightarrow> q' = q \<and> mq_abs q = []"
  by (cases "mq_abs q = []") (simp_all add: mq_PopBatch_empty mq_PopBatch_nonempty)

lemma wakeable_step: "mq_step d s s' \<Longrightarrow> wakeable s \<Longrightarrow> wakeable s'"
proof (induction rule: mq_step.induct)
  case (found q n vs e q')
  then show ?case using mq_PopBatch_state [of q n] by (simp add: wakeable_def)
next
  case (empty q n q')
  then show ?case by (auto simp: wakeable_def dest: mq_PopBatch_Wait)
next
  case (producer c q vs)
  then show ?case by (simp add: wakeable_def mq_PushBatch_inv) (simp add: mq_PushBatch_def)
next
  case (close c q)
  then show ?case by (simp add: wakeable_def) (simp add: mq_Close_def)
qed (simp_all add: wakeable_def)

lemma wakeable_init: "wakeable (Idle, NewMemoryQueue)"
  by (simp add: wakeable_def)

lemma wakeable_reachable: "(mq_step d)\<^sup>*\<^sup>* (Idle, NewMemoryQueue) s \<Longrightarrow> wakeable s"
  by (induction rule: rtranclp_induct) (blast intro: wakeable_init wakeable_step)+

text \<open>
  (C27) No wake-up is lost: in every reachable state in which the consumer waits although an event is queued or the queue
  has been closed, it has a step that takes it out of the wait, whether or not its context is done.
\<close>

theorem no_lost_wakeup:
  assumes "(mq_step ctx_done)\<^sup>*\<^sup>* (Idle, NewMemoryQueue) (Waiting n, q)" "mq_abs q \<noteq> [] \<or> mq_cancelled q"
  shows "\<exists>c q'. mq_step ctx_done (Waiting n, q) (c, q') \<and> c \<noteq> Waiting n"
proof (cases "mq_notify q")
  case True
  then show ?thesis using mq_step.notified by blast
next
  case False
  then have "mq_cancelled q" using wakeable_reachable [OF assms(1)] assms(2) by (simp add: wakeable_def)
  then show ?thesis using mq_step.closed by blast
qed

lemma ex_waiting:
  "(mq_step False)\<^sup>*\<^sup>* (Idle, NewMemoryQueue) (Waiting 1, snd (mq_PushBatch NewMemoryQueue [Some (7::nat)]))"
proof -
  have "mq_step False (Idle, NewMemoryQueue) (Checking 1, NewMemoryQueue)" by (rule mq_step.call)
  moreover have "mq_step False (Checking 1, NewMemoryQueue) (Waiting 1, NewMemoryQueue)"
    by (rule mq_step.empty) (simp add: mq_PopBatch_empty)
  moreover have "mq_step False (Waiting 1, NewMemoryQueue)
      (Waiting 1, snd (mq_PushBatch NewMemoryQueue [Some (7::nat)]))"
    by (rule mq_step.producer)
  ultimately show ?thesis by (meson rtranclp.rtrancl_into_rtrancl rtranclp.rtrancl_refl)
qed

theorem no_lost_wakeup_witness:
  "\<exists>c q'. mq_step False (Waiting 1, snd (mq_PushBatch NewMemoryQueue [Some (7::nat)])) (c, q') \<and> c \<noteq> Waiting 1"
proof -
  have "mq_abs (snd (mq_PushBatch NewMemoryQueue [Some (7::nat)])) \<noteq> []"
    by (simp add: mq_PushBatch_abs)
  then show ?thesis using no_lost_wakeup [OF ex_waiting] by blast
qed

section \<open>The persistent queue\<close>

text \<open>
  \<open>PebbleQueue\<close> over the content of the key-value store, a map from keys to values. A batch is the list of its
  sets and deletes, applied atomically by \<open>Commit\<close>; whether the commit fails is the argument \<open>io\<close>. Reads fail
  only on a missing key. The JSON codec of the events, generated from the Kubernetes types, is a pair
  of functions \<open>marshal\<close> and \<open>unmarshal\<close>. The counters are 64-bit unsigned and wrap.
\<close>

type_synonym kv = "string \<rightharpoonup> string"
type_synonym batch = "(string \<times> string option) list"

record PebbleQueue =
  pq_db :: kv
  pq_topic :: string
  pq_notify :: bool
  pq_lastCommittedHead :: "64 word"

definition headKey :: "string \<Rightarrow> string" where
  "headKey topic = topic @ '':head''"

definition tailKey :: "string \<Rightarrow> string" where
  "tailKey topic = topic @ '':tail''"

definition entryKey :: "string \<Rightarrow> 64 word \<Rightarrow> string" where
  "entryKey topic n = topic @ '':'' @ pad8 (unat n)"

definition apply_batch :: "kv \<Rightarrow> batch \<Rightarrow> kv" where
  "apply_batch db b = foldl (\<lambda>m kv. m(fst kv := snd kv)) db b"

text \<open>\<open>ParseUint\<close> returns the largest value along with a range error, and zero with a syntax error.\<close>

definition getCounter :: "kv \<Rightarrow> string \<Rightarrow> 64 word \<times> check" where
  "getCounter db key =
     (case db key of
        None \<Rightarrow> (0, None)
      | Some v \<Rightarrow>
          (case ParseUint v of
             Inr n \<Rightarrow> (of_nat n, None)
           | Inl e \<Rightarrow> (if e = Err ''value out of range'' then - 1 else 0, Some e)))"

definition updateCounter :: "check \<Rightarrow> kv \<Rightarrow> string \<Rightarrow> 64 word \<Rightarrow> check \<times> kv" where
  "updateCounter io db key value =
     (case io of Some e \<Rightarrow> (Some e, db) | None \<Rightarrow> (None, db(key \<mapsto> FormatUint (unat value))))"

definition NewPebbleQueue :: "check \<Rightarrow> kv \<Rightarrow> string \<Rightarrow> PebbleQueue result" where
  "NewPebbleQueue io db topic =
     (case getCounter db (headKey topic) of
        (_, Some e) \<Rightarrow> Inl e
      | (head, None) \<Rightarrow>
          (case getCounter db (tailKey topic) of
             (_, Some e) \<Rightarrow> Inl e
           | (tail, None) \<Rightarrow>
               (if tail < head
                then (case updateCounter io db (tailKey topic) head of
                        (Some e, _) \<Rightarrow> Inl e
                      | (None, db') \<Rightarrow> Inr \<lparr>pq_db = db', pq_topic = topic, pq_notify = False,
                                          pq_lastCommittedHead = head\<rparr>)
                else Inr \<lparr>pq_db = db, pq_topic = topic, pq_notify = False, pq_lastCommittedHead = head\<rparr>)))"

fun push_entries :: "('e \<Rightarrow> string result) \<Rightarrow> string \<Rightarrow> 'e list \<Rightarrow> 64 word \<Rightarrow> batch \<Rightarrow> (64 word \<times> batch) result" where
  "push_entries marshal topic [] tail b = Inr (tail, b)"
| "push_entries marshal topic (value # values) tail b =
     (case marshal value of
        Inl e \<Rightarrow> Inl e
      | Inr data \<Rightarrow> push_entries marshal topic values (tail + 1) (b @ [(entryKey topic (tail + 1), Some data)]))"

definition pq_PushBatch :: "('e \<Rightarrow> string result) \<Rightarrow> check \<Rightarrow> PebbleQueue \<Rightarrow> 'e list \<Rightarrow> check \<times> PebbleQueue" where
  "pq_PushBatch marshal io q values =
     (let tail = fst (getCounter (pq_db q) (tailKey (pq_topic q)))
      in case push_entries marshal (pq_topic q) values tail [] of
           Inl e \<Rightarrow> (Some e, q)
         | Inr (tail', b) \<Rightarrow>
             (case io of
                Some e \<Rightarrow> (Some e, q)
              | None \<Rightarrow>
                  (None, q\<lparr>pq_db := apply_batch (pq_db q) (b @ [(tailKey (pq_topic q), Some (FormatUint (unat tail')))]),
                          pq_notify := True\<rparr>)))"

definition pq_Push :: "('e \<Rightarrow> string result) \<Rightarrow> check \<Rightarrow> PebbleQueue \<Rightarrow> 'e \<Rightarrow> check \<times> PebbleQueue" where
  "pq_Push marshal io q value = pq_PushBatch marshal io q [value]"

fun pop_entries :: "(string \<Rightarrow> 'e result) \<Rightarrow> string \<Rightarrow> kv \<Rightarrow> nat \<Rightarrow> 64 word \<Rightarrow> 'e list \<Rightarrow> batch \<Rightarrow>
    'e list \<times> check \<times> 64 word \<times> batch" where
  "pop_entries unmarshal topic db 0 head results b = (results, None, head, b)"
| "pop_entries unmarshal topic db (Suc n) head results b =
     (let key = entryKey topic (head + 1)
      in case db key of
           None \<Rightarrow> (results, Some (Err ''pebble: not found''), head + 1, b)
         | Some value \<Rightarrow>
             (case unmarshal value of
                Inl e \<Rightarrow> (results, Some e, head + 1, b)
              | Inr event \<Rightarrow> pop_entries unmarshal topic db n (head + 1) (results @ [event]) (b @ [(key, None)])))"

definition pq_PopBatch :: "(string \<Rightarrow> 'e result) \<Rightarrow> check \<Rightarrow> PebbleQueue \<Rightarrow> nat \<Rightarrow> 'e pop_out \<times> PebbleQueue" where
  "pq_PopBatch unmarshal io q count =
     (let head = fst (getCounter (pq_db q) (headKey (pq_topic q)));
          tail = fst (getCounter (pq_db q) (tailKey (pq_topic q)));
          available = sint (tail - head)
      in if available \<le> 0 then (Wait, q)
         else (case pop_entries unmarshal (pq_topic q) (pq_db q) (min count (nat available)) head [] [] of
                 (results, Some e, _, _) \<Rightarrow> (Done results (Some e), q)
               | (results, None, head', b) \<Rightarrow>
                   (case io of
                      Some e \<Rightarrow> (Done results (Some e), q)
                    | None \<Rightarrow>
                        (Done results None,
                         q\<lparr>pq_db := apply_batch (pq_db q) (b @ [(headKey (pq_topic q), Some (FormatUint (unat head')))]),
                           pq_lastCommittedHead := head'\<rparr>))))"

definition pq_Size :: "PebbleQueue \<Rightarrow> (64 word) result" where
  "pq_Size q =
     (case getCounter (pq_db q) (headKey (pq_topic q)) of
        (_, Some e) \<Rightarrow> Inl e
      | (head, None) \<Rightarrow>
          (case getCounter (pq_db q) (tailKey (pq_topic q)) of
             (_, Some e) \<Rightarrow> Inl e
           | (tail, None) \<Rightarrow> Inr (tail - head)))"

subsection \<open>Keys, counters and batches\<close>

lemma pad8_not_word: "pad8 n \<noteq> ''head''" "pad8 n \<noteq> ''tail''"
  using pad8_digits [of n] by (auto simp: is_digit_def)

lemma keys_distinct [simp]:
  "entryKey topic n \<noteq> headKey topic" "entryKey topic n \<noteq> tailKey topic"
  "headKey topic \<noteq> entryKey topic n" "tailKey topic \<noteq> entryKey topic n"
  "headKey topic \<noteq> tailKey topic" "tailKey topic \<noteq> headKey topic"
  using pad8_not_word [of "unat n"] by (auto simp: entryKey_def headKey_def tailKey_def)

lemma entryKey_inj [simp]: "entryKey topic m = entryKey topic n \<longleftrightarrow> m = n"
  by (simp add: entryKey_def inj_pad8 word_unat_eq_iff)

lemma unat_add_nat: "unat (w :: 64 word) + k < 2 ^ 64 \<Longrightarrow> unat (w + of_nat k) = unat w + k"
  by (simp add: unat_word_ariths unat_of_nat mod_add_right_eq)

lemma of_nat_eq_iff_64: "i < 2 ^ 64 \<Longrightarrow> j < 2 ^ 64 \<Longrightarrow> (of_nat i :: 64 word) = of_nat j \<longleftrightarrow> i = j"
  by (auto simp: word_unat_eq_iff unat_of_nat)

lemma getCounter_format:
  assumes "db key = Some (FormatUint (unat w))"
  shows "getCounter db key = (w, None)"
proof -
  have "unat w < 2 ^ LENGTH(64)" by (rule unsigned_less)
  then show ?thesis using assms ParseUint_FormatUint [of "unat w"] by (simp add: getCounter_def)
qed

lemma getCounter_cong: "db' key = db key \<Longrightarrow> getCounter db' key = getCounter db key"
  by (simp add: getCounter_def)

lemma apply_batch_snoc: "apply_batch db (b @ [(k, v)]) = (apply_batch db b)(k := v)"
  by (simp add: apply_batch_def)

lemma apply_batch_other: "k \<notin> fst ` set b \<Longrightarrow> apply_batch db b k = db k"
  by (induction b rule: rev_induct) (auto simp: apply_batch_def)

lemma apply_batch_in: "distinct (map fst b) \<Longrightarrow> (k, v) \<in> set b \<Longrightarrow> apply_batch db b k = v"
  by (induction b rule: rev_induct) (auto simp: apply_batch_def rev_image_eqI)

subsection \<open>Invariant and abstraction\<close>

definition codec_ok :: "('e \<Rightarrow> string result) \<Rightarrow> (string \<Rightarrow> 'e result) \<Rightarrow> bool" where
  "codec_ok marshal unmarshal \<longleftrightarrow> (\<forall>e. \<exists>data. marshal e = Inr data \<and> unmarshal data = Inr e)"

definition pq_head :: "PebbleQueue \<Rightarrow> nat" where
  "pq_head q = unat (fst (getCounter (pq_db q) (headKey (pq_topic q))))"

definition pq_tail :: "PebbleQueue \<Rightarrow> nat" where
  "pq_tail q = unat (fst (getCounter (pq_db q) (tailKey (pq_topic q))))"

definition pq_event :: "(string \<Rightarrow> 'e result) \<Rightarrow> PebbleQueue \<Rightarrow> nat \<Rightarrow> 'e result" where
  "pq_event unmarshal q i =
     (case pq_db q (entryKey (pq_topic q) (of_nat i)) of
        None \<Rightarrow> Inl (Err ''pebble: not found'')
      | Some data \<Rightarrow> unmarshal data)"

definition pq_abs :: "(string \<Rightarrow> 'e result) \<Rightarrow> PebbleQueue \<Rightarrow> 'e list" where
  "pq_abs unmarshal q = map (\<lambda>i. projr (pq_event unmarshal q i)) [Suc (pq_head q)..<Suc (pq_tail q)]"

definition pq_inv :: "('e \<Rightarrow> string result) \<Rightarrow> (string \<Rightarrow> 'e result) \<Rightarrow> PebbleQueue \<Rightarrow> bool" where
  "pq_inv marshal unmarshal q \<longleftrightarrow> codec_ok marshal unmarshal \<and>
     snd (getCounter (pq_db q) (headKey (pq_topic q))) = None \<and>
     snd (getCounter (pq_db q) (tailKey (pq_topic q))) = None \<and>
     pq_head q \<le> pq_tail q \<and> pq_tail q < 2 ^ 63 \<and>
     (\<forall>i \<in> {pq_head q<..pq_tail q}. is_Inr (pq_event unmarshal q i))"

definition pq_room :: "PebbleQueue \<Rightarrow> nat \<Rightarrow> bool" where
  "pq_room q n \<longleftrightarrow> pq_tail q + n < 2 ^ 63"

subsection \<open>Push\<close>

definition entries :: "('e \<Rightarrow> string result) \<Rightarrow> string \<Rightarrow> 64 word \<Rightarrow> 'e list \<Rightarrow> batch" where
  "entries marshal topic tail vs =
     map (\<lambda>i. (entryKey topic (tail + of_nat (Suc i)), Some (projr (marshal (vs ! i))))) [0..<length vs]"

lemma entries_Cons:
  "entries marshal topic tail (v # vs) =
     (entryKey topic (tail + 1), Some (projr (marshal v))) # entries marshal topic (tail + 1) vs"
proof -
  have "[0..<length (v # vs)] = 0 # map Suc [0..<length vs]"
    by (metis length_Cons list.size(4) upt_conv_Cons map_Suc_upt zero_less_Suc)
  then show ?thesis by (simp add: entries_def algebra_simps)
qed

lemma push_entries_eq:
  assumes "codec_ok marshal unmarshal"
  shows "push_entries marshal topic vs tail b = Inr (tail + of_nat (length vs), b @ entries marshal topic tail vs)"
proof (induction vs arbitrary: tail b)
  case Nil
  then show ?case by (simp add: entries_def)
next
  case (Cons v vs)
  obtain data where "marshal v = Inr data" using assms by (auto simp: codec_ok_def)
  then show ?case using Cons by (simp add: entries_Cons algebra_simps)
qed

lemma entries_distinct:
  assumes "unat tail + length vs < 2 ^ 64"
  shows "distinct (map fst (entries marshal topic tail vs))"
proof -
  have "i = j" if "i < length vs" "j < length vs"
    "(of_nat (Suc i) :: 64 word) = of_nat (Suc j)" for i j
    using that assms of_nat_eq_iff_64 [of "Suc i" "Suc j"] by simp
  then show ?thesis by (auto simp: entries_def distinct_map inj_on_def)
qed

lemma entry_fresh:
  assumes "unat tail + length vs < 2 ^ 64" "i \<le> unat tail"
  shows "entryKey topic (of_nat i) \<notin> fst ` set (entries marshal topic tail vs)"
proof -
  have "(of_nat i :: 64 word) \<noteq> tail + of_nat (Suc j)" if "j < length vs" for j
  proof
    assume eq: "(of_nat i :: 64 word) = tail + of_nat (Suc j)"
    have "unat (tail + of_nat (Suc j)) = unat tail + Suc j"
      by (rule unat_add_nat) (use assms that in simp)
    moreover have "unat (of_nat i :: 64 word) = i" using assms by (simp add: unat_of_nat)
    ultimately show False using eq assms(2) by (metis add_leD1 not_less_eq_eq add_Suc_right le_add1)
  qed
  then show ?thesis by (fastforce simp: entries_def simp del: of_nat_Suc)
qed

lemma pq_PushBatch_eq:
  assumes "codec_ok marshal unmarshal"
  shows "pq_PushBatch marshal None q vs =
    (let tail = fst (getCounter (pq_db q) (tailKey (pq_topic q)))
     in (None, q\<lparr>pq_db := (apply_batch (pq_db q) (entries marshal (pq_topic q) tail vs))
                 (tailKey (pq_topic q) \<mapsto> FormatUint (unat (tail + of_nat (length vs)))), pq_notify := True\<rparr>))"
  by (simp add: pq_PushBatch_def push_entries_eq [OF assms] apply_batch_snoc Let_def)

lemma counter_keys_fresh [simp]:
  "headKey topic \<notin> fst ` set (entries marshal topic tail vs)"
  "tailKey topic \<notin> fst ` set (entries marshal topic tail vs)"
  by (auto simp: entries_def)

lemma apply_batch_counters [simp]:
  "apply_batch db (entries marshal topic tail vs) (headKey topic) = db (headKey topic)"
  by (rule apply_batch_other) simp

lemma pq_push_counters:
  assumes "codec_ok marshal unmarshal" "pq_tail q + length vs < 2 ^ 63"
  defines "q' \<equiv> snd (pq_PushBatch marshal None q vs)"
  shows "pq_topic q' = pq_topic q" "getCounter (pq_db q') (headKey (pq_topic q)) = getCounter (pq_db q) (headKey (pq_topic q))"
    and "snd (getCounter (pq_db q') (tailKey (pq_topic q))) = None" "pq_tail q' = pq_tail q + length vs"
    and "pq_head q' = pq_head q"
proof -
  show topic: "pq_topic q' = pq_topic q" by (simp add: q'_def pq_PushBatch_eq [OF assms(1)] Let_def)
  show head: "getCounter (pq_db q') (headKey (pq_topic q)) = getCounter (pq_db q) (headKey (pq_topic q))"
    by (rule getCounter_cong) (simp add: q'_def pq_PushBatch_eq [OF assms(1)] Let_def)
  let ?tail = "fst (getCounter (pq_db q) (tailKey (pq_topic q))) + of_nat (length vs)"
  have tail: "getCounter (pq_db q') (tailKey (pq_topic q)) = (?tail, None)"
    by (rule getCounter_format) (simp add: q'_def pq_PushBatch_eq [OF assms(1)] Let_def)
  then show "snd (getCounter (pq_db q') (tailKey (pq_topic q))) = None" by simp
  show "pq_tail q' = pq_tail q + length vs"
    using assms(2) by (simp add: pq_tail_def topic tail unat_add_nat)
  show "pq_head q' = pq_head q" by (simp add: pq_head_def topic head)
qed

lemma pq_push_old_event:
  assumes "codec_ok marshal unmarshal" "pq_tail q + length vs < 2 ^ 63" "i \<le> pq_tail q"
  shows "pq_event unmarshal (snd (pq_PushBatch marshal None q vs)) i = pq_event unmarshal q i"
proof -
  have "entryKey (pq_topic q) (of_nat i) \<notin>
      fst ` set (entries marshal (pq_topic q) (fst (getCounter (pq_db q) (tailKey (pq_topic q)))) vs)"
    by (rule entry_fresh) (use assms(2,3) in \<open>simp_all add: pq_tail_def\<close>)
  then show ?thesis
    by (simp add: pq_event_def pq_PushBatch_eq [OF assms(1)] Let_def apply_batch_other)
qed

lemma pq_push_new_event:
  assumes "codec_ok marshal unmarshal" "pq_tail q + length vs < 2 ^ 63" "j < length vs"
  shows "pq_event unmarshal (snd (pq_PushBatch marshal None q vs)) (pq_tail q + Suc j) = Inr (vs ! j)"
proof -
  let ?tail = "fst (getCounter (pq_db q) (tailKey (pq_topic q)))"
  obtain data where data: "marshal (vs ! j) = Inr data" "unmarshal data = Inr (vs ! j)"
    using assms(1) by (auto simp: codec_ok_def)
  have key: "(of_nat (pq_tail q + Suc j) :: 64 word) = ?tail + of_nat (Suc j)"
    by (simp add: pq_tail_def)
  have "(entryKey (pq_topic q) (?tail + of_nat (Suc j)), Some data) \<in> set (entries marshal (pq_topic q) ?tail vs)"
    using assms(3) data(1) by (auto simp: entries_def intro!: rev_image_eqI [of j])
  moreover have "distinct (map fst (entries marshal (pq_topic q) ?tail vs))"
    by (rule entries_distinct) (use assms(2) in \<open>simp add: pq_tail_def\<close>)
  ultimately have "apply_batch (pq_db q) (entries marshal (pq_topic q) ?tail vs)
      (entryKey (pq_topic q) (?tail + of_nat (Suc j))) = Some data"
    using apply_batch_in by blast
  then show ?thesis
    unfolding pq_event_def key pq_PushBatch_eq [OF assms(1)] Let_def by (simp add: data(2))
qed

lemma pq_PushBatch_inv:
  assumes inv: "pq_inv marshal unmarshal q" and room: "pq_tail q + length vs < 2 ^ 63"
  shows "pq_inv marshal unmarshal (snd (pq_PushBatch marshal None q vs))"
proof -
  have codec: "codec_ok marshal unmarshal" using inv by (simp add: pq_inv_def)
  note counters = pq_push_counters [OF codec room]
  let ?q' = "snd (pq_PushBatch marshal None q vs)"
  have "is_Inr (pq_event unmarshal ?q' i)" if i: "pq_head q < i" "i \<le> pq_tail q + length vs" for i
  proof (cases "i \<le> pq_tail q")
    case True
    then show ?thesis using inv i by (simp add: pq_push_old_event [OF codec room] pq_inv_def)
  next
    case False
    then obtain j where "i = pq_tail q + Suc j" by (metis add_Suc_right less_iff_Suc_add not_le)
    then show ?thesis using i pq_push_new_event [OF codec room, of j] by simp
  qed
  then show ?thesis using inv room by (simp add: pq_inv_def counters)
qed

lemma pq_PushBatch_abs:
  assumes inv: "pq_inv marshal unmarshal q" and room: "pq_tail q + length vs < 2 ^ 63"
  shows "pq_abs unmarshal (snd (pq_PushBatch marshal None q vs)) = pq_abs unmarshal q @ vs"
proof -
  have codec: "codec_ok marshal unmarshal" and le: "pq_head q \<le> pq_tail q" using inv by (simp_all add: pq_inv_def)
  let ?ev = "\<lambda>i. projr (pq_event unmarshal (snd (pq_PushBatch marshal None q vs)) i)"
  have "[Suc (pq_head q)..<Suc (pq_tail q + length vs)] =
      [Suc (pq_head q)..<Suc (pq_tail q)] @ [Suc (pq_tail q)..<Suc (pq_tail q + length vs)]"
    using le upt_add_eq_append [of "Suc (pq_head q)" "Suc (pq_tail q)" "length vs"] by simp
  moreover have "map ?ev [Suc (pq_head q)..<Suc (pq_tail q)] = pq_abs unmarshal q"
    unfolding pq_abs_def by (rule map_cong) (auto simp: pq_push_old_event [OF codec room] simp del: upt_Suc)
  moreover have "map ?ev [Suc (pq_tail q)..<Suc (pq_tail q + length vs)] = vs"
    by (rule nth_equalityI) (use pq_push_new_event [OF codec room] in \<open>simp_all del: upt_Suc\<close>)
  ultimately show ?thesis by (simp add: pq_abs_def pq_push_counters [OF codec room] del: upt_Suc)
qed

subsection \<open>Pop\<close>

lemma pop_entries_eq:
  assumes "unat head + n < 2 ^ 64"
    and "\<forall>i \<in> {unat head<..unat head + n}. is_Inr (case db (entryKey topic (of_nat i)) of
           None \<Rightarrow> Inl (Err ''pebble: not found'') | Some data \<Rightarrow> unmarshal data)"
  shows "pop_entries unmarshal topic db n head results b =
    (results @ map (\<lambda>i. projr (case db (entryKey topic (of_nat i)) of
        None \<Rightarrow> Inl (Err ''pebble: not found'') | Some data \<Rightarrow> unmarshal data)) [Suc (unat head)..<Suc (unat head + n)],
     None, head + of_nat n,
     b @ map (\<lambda>i. (entryKey topic (of_nat i), None)) [Suc (unat head)..<Suc (unat head + n)])"
  using assms
proof (induction n arbitrary: head results b)
  case (Suc n)
  have u: "unat (head + 1) = Suc (unat head)"
    using Suc.prems(1) unat_add_nat [of head 1] by simp
  have k: "(of_nat (Suc (unat head)) :: 64 word) = head + 1" by simp
  have "is_Inr (case db (entryKey topic (head + 1)) of
           None \<Rightarrow> Inl (Err ''pebble: not found'') | Some data \<Rightarrow> unmarshal data)"
    using bspec [OF Suc.prems(2), of "Suc (unat head)"] unfolding k by simp
  then obtain data e where d: "db (entryKey topic (head + 1)) = Some data" "unmarshal data = Inr e"
    by (auto split: option.splits elim: is_Inr.elims)
  have upt: "[Suc (unat head)..<Suc (unat head + Suc n)] =
      Suc (unat head) # [Suc (Suc (unat head))..<Suc (Suc (unat head) + n)]"
    by (simp add: upt_rec)
  have sum: "head + 1 + of_nat n = head + of_nat (Suc n)" by simp
  have "unat (head + 1) + n < 2 ^ 64" using Suc.prems(1) u by simp
  moreover have "\<forall>i \<in> {unat (head + 1)<..unat (head + 1) + n}. is_Inr (case db (entryKey topic (of_nat i)) of
      None \<Rightarrow> Inl (Err ''pebble: not found'') | Some data \<Rightarrow> unmarshal data)"
    using Suc.prems(2) u by simp
  ultimately show ?case
    unfolding upt using Suc.IH [of "head + 1" "results @ [e]" "b @ [(entryKey topic (head + 1), None)]"]
    by (simp only: pop_entries.simps Let_def d option.case sum.case u sum list.map k append_assoc append_Cons
        append_Nil sum.sel)
qed simp

lemma sint_diff:
  assumes "unat (h :: 64 word) \<le> unat t" "unat t < 2 ^ 63"
  shows "sint (t - h) = int (unat t - unat h)"
proof -
  have "unat (t - h) = unat t - unat h" by (rule unat_sub) (use assms(1) in \<open>simp add: word_le_nat_alt\<close>)
  moreover have "sint (t - h) = int (unat (t - h))"
  proof -
    have "unat (t - h) < 2 ^ 63" using assms calculation by linarith
    then have "int (unat (t - h)) < int (2 ^ 63)" by (simp only: of_nat_less_iff)
    then have "uint (t - h) < 2 ^ 63" by (simp only: uint_nat of_nat_power of_nat_numeral)
    moreover have "- (2 ^ 63) \<le> uint (t - h)" by (rule order_trans [of _ 0]) simp_all
    ultimately have "signed_take_bit 63 (uint (t - h)) = uint (t - h)" by (rule signed_take_bit_int_eq_self [rotated])
    then show ?thesis by (simp add: sint_uint)
  qed
  ultimately show ?thesis by simp
qed

text \<open>What a pop does to a queue that satisfies the invariant and is not empty.\<close>

definition popped_db :: "PebbleQueue \<Rightarrow> nat \<Rightarrow> kv" where
  "popped_db q n =
     (apply_batch (pq_db q) (map (\<lambda>i. (entryKey (pq_topic q) (of_nat i), None)) [Suc (pq_head q)..<Suc (pq_head q + n)]))
       (headKey (pq_topic q) \<mapsto> FormatUint (pq_head q + n))"

lemma pq_abs_length: "length (pq_abs unmarshal q) = pq_tail q - pq_head q"
  by (simp add: pq_abs_def del: upt_Suc)

lemma pq_PopBatch_eq:
  fixes count :: nat
  assumes inv: "pq_inv marshal unmarshal q" and some: "pq_head q < pq_tail q"
  defines "n \<equiv> min count (pq_tail q - pq_head q)"
  shows "\<exists>h. pq_PopBatch unmarshal None q count =
    (Done (take count (pq_abs unmarshal q)) None, q\<lparr>pq_db := popped_db q n, pq_lastCommittedHead := h\<rparr>)"
proof -
  let ?h = "fst (getCounter (pq_db q) (headKey (pq_topic q)))"
  let ?t = "fst (getCounter (pq_db q) (tailKey (pq_topic q)))"
  let ?f = "\<lambda>i. projr (pq_event unmarshal q i)"
  have le: "unat ?h \<le> unat ?t" "unat ?t < 2 ^ 63" "unat ?h < unat ?t"
    using inv some by (simp_all add: pq_inv_def pq_head_def pq_tail_def)
  have avail: "sint (?t - ?h) = int (pq_tail q - pq_head q)"
    by (simp only: sint_diff [OF le(1,2)] pq_head_def pq_tail_def)
  have bound: "unat ?h + n < 2 ^ 64" using le by (simp add: n_def pq_head_def pq_tail_def)
  have "\<forall>i \<in> {unat ?h<..unat ?h + n}. is_Inr (pq_event unmarshal q i)"
    using inv by (auto simp: n_def pq_inv_def pq_head_def pq_tail_def)
  then have entries: "pop_entries unmarshal (pq_topic q) (pq_db q) n ?h [] [] =
    (map ?f [Suc (pq_head q)..<Suc (pq_head q + n)], None, ?h + of_nat n,
     map (\<lambda>i. (entryKey (pq_topic q) (of_nat i), None)) [Suc (pq_head q)..<Suc (pq_head q + n)])"
    using pop_entries_eq [OF bound, of unmarshal "pq_db q" "pq_topic q" "[]" "[]"]
    by (simp only: pq_event_def pq_head_def append_Nil)
  have res: "map ?f [Suc (pq_head q)..<Suc (pq_head q + n)] = take count (pq_abs unmarshal q)"
  proof -
    have "[Suc (pq_head q)..<Suc (pq_head q + n)] = take count [Suc (pq_head q)..<Suc (pq_tail q)]"
      using some take_upt [of "Suc (pq_head q)" count "Suc (pq_tail q)"]
      by (cases "count \<le> pq_tail q - pq_head q") (simp_all add: n_def min_def del: upt_Suc)
    then show ?thesis by (simp add: pq_abs_def take_map del: upt_Suc)
  qed
  have "unat (?h + of_nat n) = pq_head q + n" unfolding pq_head_def by (rule unat_add_nat [OF bound])
  moreover have "min count (nat (sint (?t - ?h))) = n" "\<not> sint (?t - ?h) \<le> 0"
    using some by (simp_all add: avail n_def)
  ultimately show ?thesis
    unfolding pq_PopBatch_def Let_def
    by (simp add: entries res popped_db_def apply_batch_snoc del: upt_Suc) blast
qed

lemma pq_PopBatch_empty:
  assumes "pq_inv marshal unmarshal q" "pq_tail q \<le> pq_head q"
  shows "pq_PopBatch unmarshal io q n = (Wait, q)"
proof -
  have "fst (getCounter (pq_db q) (tailKey (pq_topic q))) = fst (getCounter (pq_db q) (headKey (pq_topic q)))"
    using assms by (simp add: pq_inv_def pq_head_def pq_tail_def word_unat_eq_iff)
  then show ?thesis by (simp add: pq_PopBatch_def Let_def)
qed

lemma popped_db_lookup:
  assumes "pq_tail q < 2 ^ 63" "pq_head q + n \<le> pq_tail q"
  shows "popped_db q n (tailKey (pq_topic q)) = pq_db q (tailKey (pq_topic q))"
    and "popped_db q n (headKey (pq_topic q)) = Some (FormatUint (pq_head q + n))"
    and "pq_head q + n < i \<Longrightarrow> i \<le> pq_tail q \<Longrightarrow>
      popped_db q n (entryKey (pq_topic q) (of_nat i)) = pq_db q (entryKey (pq_topic q) (of_nat i))"
proof -
  let ?b = "map (\<lambda>i. (entryKey (pq_topic q) (of_nat i), None :: string option)) [Suc (pq_head q)..<Suc (pq_head q + n)]"
  have "apply_batch (pq_db q) ?b (tailKey (pq_topic q)) = pq_db q (tailKey (pq_topic q))"
    by (rule apply_batch_other) (auto simp del: upt_Suc)
  then show "popped_db q n (tailKey (pq_topic q)) = pq_db q (tailKey (pq_topic q))" by (simp add: popped_db_def del: upt_Suc)
  show "popped_db q n (headKey (pq_topic q)) = Some (FormatUint (pq_head q + n))" by (simp add: popped_db_def)
  assume i: "pq_head q + n < i" "i \<le> pq_tail q"
  have "(of_nat i :: 64 word) \<noteq> of_nat j" if "j < Suc (pq_head q + n)" for j
    using that i assms of_nat_eq_iff_64 [of i j] by simp
  then have "entryKey (pq_topic q) (of_nat i) \<notin> fst ` set ?b" by (fastforce simp del: upt_Suc)
  from apply_batch_other [OF this]
  show "popped_db q n (entryKey (pq_topic q) (of_nat i)) = pq_db q (entryKey (pq_topic q) (of_nat i))"
    by (simp add: popped_db_def del: upt_Suc)
qed

lemma pq_pop_state:
  fixes h :: "64 word"
  assumes inv: "pq_inv marshal unmarshal q" and n: "pq_head q + n \<le> pq_tail q"
  defines "q' \<equiv> q\<lparr>pq_db := popped_db q n, pq_lastCommittedHead := h\<rparr>"
  shows "pq_inv marshal unmarshal q'" "pq_abs unmarshal q' = drop n (pq_abs unmarshal q)" "pq_tail q' = pq_tail q"
proof -
  have lt: "pq_tail q < 2 ^ 63" using inv by (simp add: pq_inv_def)
  note look = popped_db_lookup [OF lt n]
  have top: "pq_topic q' = pq_topic q" "pq_db q' = popped_db q n" by (simp_all add: q'_def)
  have tail: "getCounter (pq_db q') (tailKey (pq_topic q')) = getCounter (pq_db q) (tailKey (pq_topic q))"
    unfolding top by (rule getCounter_cong) (rule look(1))
  then show tl: "pq_tail q' = pq_tail q" by (simp add: pq_tail_def)
  have u: "unat (of_nat (pq_head q + n) :: 64 word) = pq_head q + n"
    unfolding unat_of_nat using lt n by simp
  have hd: "getCounter (pq_db q') (headKey (pq_topic q')) = (of_nat (pq_head q + n), None)"
    unfolding top by (rule getCounter_format) (simp only: look(2) u)
  then have "pq_head q' = unat (of_nat (pq_head q + n) :: 64 word)" by (simp only: pq_head_def [of q'] fst_conv)
  then have head: "pq_head q' = pq_head q + n" by (simp only: u)
  have ev: "pq_event unmarshal q' i = pq_event unmarshal q i" if "pq_head q + n < i" "i \<le> pq_tail q" for i
    unfolding pq_event_def top by (simp only: look(3) [OF that])
  show "pq_inv marshal unmarshal q'"
    using inv n by (auto simp: pq_inv_def tl head tail hd ev)
  have "map (\<lambda>i. projr (pq_event unmarshal q' i)) [Suc (pq_head q + n)..<Suc (pq_tail q)] =
        map (\<lambda>i. projr (pq_event unmarshal q i)) [Suc (pq_head q + n)..<Suc (pq_tail q)]"
    by (rule map_cong) (auto simp: ev simp del: upt_Suc)
  then show "pq_abs unmarshal q' = drop n (pq_abs unmarshal q)"
    by (simp add: pq_abs_def tl head drop_map del: upt_Suc)
qed

lemma pq_abs_Nil: "pq_abs unmarshal q = [] \<longleftrightarrow> pq_tail q \<le> pq_head q"
  using pq_abs_length [of unmarshal q] by (metis diff_is_0_eq length_0_conv)

lemma pq_PopBatch_state:
  assumes inv: "pq_inv marshal unmarshal q"
  shows "pq_inv marshal unmarshal (snd (pq_PopBatch unmarshal None q n)) \<and>
    pq_abs unmarshal (snd (pq_PopBatch unmarshal None q n)) = drop n (pq_abs unmarshal q) \<and>
    pq_tail (snd (pq_PopBatch unmarshal None q n)) = pq_tail q"
proof (cases "pq_head q < pq_tail q")
  case True
  let ?n = "min n (pq_tail q - pq_head q)"
  obtain h where h: "snd (pq_PopBatch unmarshal None q n) = q\<lparr>pq_db := popped_db q ?n, pq_lastCommittedHead := h\<rparr>"
    using pq_PopBatch_eq [OF inv True, of n] by auto
  have "pq_head q + ?n \<le> pq_tail q" using True by simp
  moreover have "drop ?n (pq_abs unmarshal q) = drop n (pq_abs unmarshal q)"
    by (simp add: min_def pq_abs_length)
  ultimately show ?thesis unfolding h using pq_pop_state [OF inv, of ?n] by simp
next
  case False
  then have "pq_PopBatch unmarshal None q n = (Wait, q)" using pq_PopBatch_empty [OF inv] by simp
  then show ?thesis using inv False pq_abs_Nil [of unmarshal q] by simp
qed

text \<open>The size the queue reports, as a number.\<close>

definition pq_size :: "PebbleQueue \<Rightarrow> nat" where
  "pq_size q = (case pq_Size q of Inl e \<Rightarrow> 0 | Inr w \<Rightarrow> unat w)"

lemma pq_size_abs:
  assumes "pq_inv marshal unmarshal q"
  shows "pq_size q = length (pq_abs unmarshal q)"
proof -
  obtain h t where ht: "getCounter (pq_db q) (headKey (pq_topic q)) = (h, None)"
    "getCounter (pq_db q) (tailKey (pq_topic q)) = (t, None)"
    using assms by (metis pq_inv_def prod.collapse)
  moreover have "unat h \<le> unat t" using assms ht by (simp add: pq_inv_def pq_head_def pq_tail_def)
  ultimately have "unat (t - h) = unat t - unat h" by (simp add: unat_sub word_le_nat_alt)
  then show ?thesis using ht by (simp add: pq_size_def pq_Size_def pq_abs_length pq_head_def pq_tail_def)
qed

interpretation pq: pod_queue "pq_inv marshal unmarshal" "pq_abs unmarshal" pq_room "pq_PushBatch marshal None"
  "pq_PopBatch unmarshal None" pq_size
  for marshal :: "'e \<Rightarrow> string result" and unmarshal
proof unfold_locales
  fix q :: PebbleQueue and vs :: "'e list" and n m :: nat
  assume inv: "pq_inv marshal unmarshal q"
  then have codec: "codec_ok marshal unmarshal" by (simp add: pq_inv_def)
  show "fst (pq_PushBatch marshal None q vs) = None" by (simp add: pq_PushBatch_eq [OF codec] Let_def)
  show "pq_room (snd (pq_PushBatch marshal None q vs)) n" if "pq_room q (length vs + n)"
    using that pq_push_counters(4) [OF codec, of q vs] by (simp add: pq_room_def)
  show "fst (pq_PopBatch unmarshal None q n) = Done (take n (pq_abs unmarshal q)) None" if "pq_abs unmarshal q \<noteq> []"
    using that pq_PopBatch_eq [OF inv, of n] by (auto simp: pq_abs_Nil)
qed (auto simp: pq_room_def pq_PushBatch_inv pq_PushBatch_abs pq_abs_Nil pq_PopBatch_state pq_size_abs
    intro: pq_PopBatch_empty)

text \<open>
  (C26) The persistent queue refines the same list: as long as the tail counter stays below 2^63 and commits succeed, every
  sequence of batch pushes and pops reports what the list reports and leaves the list's content in the store; in
  particular the 64-bit counters never wrap and no key is overwritten. The codec must be able to
  encode every event and decode it again.
\<close>

theorem pebble_queue_refines:
  assumes "pq_inv marshal unmarshal q" "pq_room q (length (pushed ops))"
  shows "fst (run_queue (pq_PushBatch marshal None) (pq_PopBatch unmarshal None) q ops) =
           fst (run_queue spec_push spec_pop (pq_abs unmarshal q) ops) \<and>
         pq_abs unmarshal (snd (run_queue (pq_PushBatch marshal None) (pq_PopBatch unmarshal None) q ops)) =
           snd (run_queue spec_push spec_pop (pq_abs unmarshal q) ops) \<and>
         pq_inv marshal unmarshal (snd (run_queue (pq_PushBatch marshal None) (pq_PopBatch unmarshal None) q ops))"
  using pq.run_refines [OF assms] by blast

definition ex_marshal :: "nat \<Rightarrow> string result" where
  "ex_marshal n = Inr (FormatUint n)"

definition ex_unmarshal :: "string \<Rightarrow> nat result" where
  "ex_unmarshal s = Inr (decimal s)"

definition ex_pq :: PebbleQueue where
  "ex_pq = \<lparr>pq_db = Map.empty, pq_topic = ''t'', pq_notify = False, pq_lastCommittedHead = 0\<rparr>"

lemma ex_codec: "codec_ok ex_marshal ex_unmarshal"
  by (simp add: codec_ok_def ex_marshal_def ex_unmarshal_def)

lemma ex_pq_ok:
  "pq_inv ex_marshal ex_unmarshal ex_pq" "pq_abs ex_unmarshal ex_pq = []" "n < 2 ^ 63 \<Longrightarrow> pq_room ex_pq n"
  by (simp_all add: pq_inv_def pq_abs_def pq_room_def pq_head_def pq_tail_def getCounter_def ex_pq_def ex_codec)

theorem pebble_queue_refines_witness:
  "pq_inv ex_marshal ex_unmarshal ex_pq \<and>
   fst (run_queue (pq_PushBatch ex_marshal None) (pq_PopBatch ex_unmarshal None) ex_pq
          [OpPush [4, 5], OpPop 1, OpPop 9, OpPop 1]) = [Done [4] None, Done [5] None, Wait]"
proof -
  have "pq_room ex_pq (length (pushed [OpPush [4, 5], OpPop 1, OpPop 9, OpPop 1 :: nat queue_op]))"
    by (rule ex_pq_ok(3)) simp
  from pebble_queue_refines [OF ex_pq_ok(1) this] show ?thesis
    by (simp add: ex_pq_ok spec_push_def spec_pop_def)
qed

text \<open>
  Crash safety of the persistent queue: a push or pop whose commit fails leaves the store as it was, and
  reopening the store (after a restart) gives a queue with the same events.
\<close>

theorem pebble_queue_restart:
  assumes "pq_inv marshal unmarshal q"
  shows "\<exists>q'. NewPebbleQueue io (pq_db q) (pq_topic q) = Inr q' \<and> pq_inv marshal unmarshal q' \<and>
           pq_abs unmarshal q' = pq_abs unmarshal q \<and>
           snd (pq_PushBatch marshal (Some e) q vs) = q \<and> snd (pq_PopBatch unmarshal (Some e) q n) = q"
proof -
  obtain h t where ht: "getCounter (pq_db q) (headKey (pq_topic q)) = (h, None)"
    "getCounter (pq_db q) (tailKey (pq_topic q)) = (t, None)"
    using assms by (metis pq_inv_def prod.collapse)
  have le: "\<not> t < h" using assms ht by (simp add: pq_inv_def pq_head_def pq_tail_def word_less_nat_alt)
  let ?q' = "\<lparr>pq_db = pq_db q, pq_topic = pq_topic q, pq_notify = False, pq_lastCommittedHead = h\<rparr>"
  have "NewPebbleQueue io (pq_db q) (pq_topic q) = Inr ?q'" using ht le by (simp add: NewPebbleQueue_def)
  moreover have "pq_head ?q' = pq_head q" "pq_tail ?q' = pq_tail q" "pq_event unmarshal ?q' = pq_event unmarshal q"
    by (simp_all add: pq_head_def pq_tail_def pq_event_def fun_eq_iff)
  then have "pq_inv marshal unmarshal ?q'" "pq_abs unmarshal ?q' = pq_abs unmarshal q"
    using assms by (simp_all add: pq_inv_def pq_abs_def)
  moreover have "snd (pq_PushBatch marshal (Some e) q vs) = q"
    by (simp add: pq_PushBatch_def Let_def split: sum.splits prod.splits)
  moreover have "snd (pq_PopBatch unmarshal (Some e) q n) = q"
    by (simp add: pq_PopBatch_def Let_def split: prod.splits option.splits)
  ultimately show ?thesis by blast
qed

theorem pebble_queue_restart_witness:
  "\<exists>q'. NewPebbleQueue None (pq_db ex_pq) (pq_topic ex_pq) = Inr q' \<and> pq_abs ex_unmarshal q' = []"
  using pebble_queue_restart [OF ex_pq_ok(1), of None ErrNoRows "[]" 0] ex_pq_ok(2) by metis

end
