(* ===== verification/Dag_Store.thy ===== *)
theory Dag_Store
  imports Dag_Types
begin

text \<open>
  The relational schema of \<open>internal/db/migrations\<close>: one record per table, a database as the lists of
  its rows with the next value of every serial key, and transactions. Array and JSON columns hold the
  value they encode; a nullable column is an option. Identifiers are natural numbers, and a
  database error other than a missing row or a violated constraint is not modelled.
\<close>

section \<open>Tables\<close>

record dag_row =
  dg_id :: nat
  dg_name :: string
  dg_version :: int
  dg_hash :: string
  dg_schedule :: string
  dg_namespace :: string
  dg_active :: bool
  dg_taskCount :: nat
  dg_nexttime :: "int option"
  dg_webhookUrl :: string
  dg_sslVerification :: bool
  dg_workspaceEnabled :: "bool option"
  dg_suspended :: bool

record workspace_row =
  wk_dag_id :: nat
  wk_pvc :: PVC

record param_row =
  pr_dag_id :: nat
  pr_name :: string
  pr_isSecret :: bool
  pr_defaultValue :: string

record task_row =
  tk_id :: nat
  tk_name :: string
  tk_command :: "string list"
  tk_args :: "string list"
  tk_image :: string
  tk_parameters :: "string list"
  tk_backoffLimit :: int
  tk_isConditional :: bool
  tk_podTemplate :: "PodTemplateSpec option"
  tk_retryCodes :: "int list"
  tk_script :: string
  tk_scriptInjectorImage :: string
  tk_inline :: bool
  tk_namespace :: string
  tk_version :: int
  tk_hash :: "string option"

record dagtask_row =
  dk_id :: nat
  dk_dag_id :: nat
  dk_task_id :: nat
  dk_name :: string
  dk_version :: int

record dep_row =
  dp_task_id :: nat
  dp_depends_on :: nat

record run_row =
  rn_id :: nat
  rn_name :: string
  rn_dag_id :: nat
  rn_status :: string
  rn_successfulCount :: nat
  rn_failedCount :: nat
  rn_suspendedCount :: nat
  rn_run_time :: int
  rn_pvcName :: "string option"

record runparam_row =
  rp_run_id :: nat
  rp_name :: string
  rp_value :: string
  rp_isSecret :: bool

record taskrun_row =
  tr_id :: nat
  tr_run_id :: nat
  tr_task_id :: nat
  tr_status :: string
  tr_attempts :: nat
  tr_claimed_by :: "string option"
  tr_claimed_at :: "int option"
  tr_lease :: "int option"
  tr_scheduled_start :: "int option"
  tr_retry_env :: "string option"

record pod_row =
  po_uid :: string
  po_task_run_id :: nat
  po_exitCode :: "int option"
  po_name :: string
  po_status :: string
  po_namespace :: string
  po_updated_at :: int
  po_duration :: "int option"

section \<open>Databases\<close>

record db =
  ids :: "string list"
  dags :: "dag_row list"
  workspaces :: "workspace_row list"
  params :: "param_row list"
  tasks :: "task_row list"
  dagtasks :: "dagtask_row list"
  deps :: "dep_row list"
  runs :: "run_row list"
  runparams :: "runparam_row list"
  taskruns :: "taskrun_row list"
  pods :: "pod_row list"
  next_dag :: nat
  next_task :: nat
  next_dagtask :: nat
  next_run :: nat
  next_taskrun :: nat

definition empty_db :: db where
  "empty_db = \<lparr>ids = [], dags = [], workspaces = [], params = [], tasks = [], dagtasks = [], deps = [],
     runs = [], runparams = [], taskruns = [], pods = [],
     next_dag = 1, next_task = 1, next_dagtask = 1, next_run = 1, next_taskrun = 1\<rparr>"

text \<open>An operation returns its result and the database after it.\<close>

type_synonym 'a op = "db \<Rightarrow> 'a result \<times> db"

text \<open>
  A transaction body either fails, and the deferred rollback restores the database, or returns
  a value and the database to commit.
\<close>

type_synonym 'a tx_body = "db \<Rightarrow> ('a \<times> db) result"

definition withTx :: "'a tx_body \<Rightarrow> 'a op" where
  "withTx body s = (case body s of Inl e \<Rightarrow> (Inl e, s) | Inr (a, s') \<Rightarrow> (Inr a, s'))"

lemma withTx_error: "fst (withTx body s) = Inl e \<Longrightarrow> snd (withTx body s) = s"
  by (auto simp: withTx_def split: sum.splits)

definition bind_tx :: "('a \<times> db) result \<Rightarrow> ('a \<Rightarrow> 'b tx_body) \<Rightarrow> ('b \<times> db) result" where
  "bind_tx r f = (case r of Inl e \<Rightarrow> Inl e | Inr (a, s) \<Rightarrow> f a s)"

lemma bind_tx_simps [simp]: "bind_tx (Inl e) f = Inl e" "bind_tx (Inr (a, s)) f = f a s"
  by (simp_all add: bind_tx_def)

lemma bind_tx_Inr: "bind_tx r f = Inr y \<longleftrightarrow> (\<exists>a s. r = Inr (a, s) \<and> f a s = Inr y)"
  by (cases r) (auto simp: bind_tx_def)

text \<open>A \<open>for\<close> loop over a slice inside a transaction, with an early return on an error.\<close>

fun for_tx :: "'x list \<Rightarrow> ('x \<Rightarrow> unit tx_body) \<Rightarrow> unit tx_body" where
  "for_tx [] f s = Inr ((), s)"
| "for_tx (x # xs) f s = bind_tx (f x s) (\<lambda>_. for_tx xs f)"

lemma for_tx_preserves:
  assumes "for_tx xs f s = Inr ((), s')" "P s"
    and "\<And>x t t'. x \<in> set xs \<Longrightarrow> P t \<Longrightarrow> f x t = Inr ((), t') \<Longrightarrow> P t'"
  shows "P s'"
  using assms
proof (induction xs arbitrary: s)
  case (Cons x xs)
  then obtain t where t: "f x s = Inr ((), t)" "for_tx xs f t = Inr ((), s')"
    by (auto simp: bind_tx_Inr)
  have "P t" by (rule Cons.prems(3) [OF _ Cons.prems(2) t(1)]) simp
  show ?case by (rule Cons.IH [OF t(2) \<open>P t\<close>]) (meson Cons.prems(3) list.set_intros(2))
qed simp

lemma for_tx_succeeds:
  assumes "P s" "\<And>x t. x \<in> set xs \<Longrightarrow> P t \<Longrightarrow> \<exists>t'. f x t = Inr ((), t') \<and> P t'"
  shows "\<exists>s'. for_tx xs f s = Inr ((), s') \<and> P s'"
  using assms
proof (induction xs arbitrary: s)
  case (Cons x xs)
  obtain t where t: "f x s = Inr ((), t)" "P t" using Cons.prems(2) [of x s] Cons.prems(1) by auto
  have "\<exists>s'. for_tx xs f t = Inr ((), s') \<and> P s'"
    by (rule Cons.IH [OF t(2)]) (meson Cons.prems(2) list.set_intros(2))
  then show ?case using t(1) by simp
qed simp

section \<open>What every operation keeps\<close>

text \<open>Serial keys are fresh, keys are unique, and the unique constraints of the schema hold.\<close>

definition dag_keys :: "db \<Rightarrow> bool" where
  "dag_keys s \<longleftrightarrow> 0 < next_dag s \<and> (\<forall>d \<in> set (dags s). 0 < dg_id d \<and> dg_id d < next_dag s) \<and> distinct (map dg_id (dags s))"

definition task_keys :: "db \<Rightarrow> bool" where
  "task_keys s \<longleftrightarrow> (\<forall>t \<in> set (tasks s). tk_id t < next_task s) \<and> distinct (map tk_id (tasks s))"

definition dagtask_keys :: "db \<Rightarrow> bool" where
  "dagtask_keys s \<longleftrightarrow> (\<forall>t \<in> set (dagtasks s). dk_id t < next_dagtask s) \<and> distinct (map dk_id (dagtasks s))"

definition run_keys :: "db \<Rightarrow> bool" where
  "run_keys s \<longleftrightarrow> (\<forall>r \<in> set (runs s). rn_id r < next_run s) \<and> distinct (map rn_id (runs s)) \<and>
     (\<forall>r \<in> set (taskruns s). tr_id r < next_taskrun s) \<and> distinct (map tr_id (taskruns s))"

definition keys_ok :: "db \<Rightarrow> bool" where
  "keys_ok s \<longleftrightarrow> dag_keys s \<and> task_keys s \<and> dagtask_keys s \<and> run_keys s"

lemmas keys_defs = dag_keys_def task_keys_def dagtask_keys_def run_keys_def

definition unique_ok :: "db \<Rightarrow> bool" where
  "unique_ok s \<longleftrightarrow>
     distinct (map (\<lambda>d. (dg_name d, dg_version d, dg_namespace d)) (dags s)) \<and>
     distinct (map (\<lambda>t. (tk_name t, tk_version t, tk_namespace t)) (tasks s)) \<and>
     distinct (map rn_name (runs s)) \<and> distinct (map po_uid (pods s))"

lemma keys_ok_empty [simp]: "keys_ok empty_db" "unique_ok empty_db"
  by (simp_all add: keys_ok_def keys_defs unique_ok_def empty_db_def)

section \<open>Tasks as the workers see them\<close>

record Parameter =
  pa_Name :: string
  pa_IsSecret :: bool
  pa_Value :: string

record Task =
  t_Id :: nat
  t_Name :: string
  t_Image :: string
  t_Command :: "string list"
  t_Args :: "string list"
  t_Parameters :: "Parameter list"
  t_PodTemplate :: "PodTemplateSpec option"
  t_Script :: string
  t_ScriptInjectorImage :: string

record TaskClaim =
  cl_TaskRunID :: nat
  cl_TaskID :: nat
  cl_RunID :: nat

record DagInfo =
  di_DagId :: nat
  di_DagName :: string
  di_Namespace :: string
  di_WorkspaceEnabled :: bool
  di_WebhookUrl :: string
  di_SSLVerification :: bool

record RunningPodInfo =
  pi_Name :: string
  pi_Namespace :: string

end
