(* ===== verification/Kube_Api.thy ===== *)
theory Kube_Api
  imports Dag_Store Go_Strconv
begin

text \<open>
  The Kubernetes API as the controllers and workers see it: the fields of pods, containers and volume claims they read or write,
  and a record of the client calls they make. The API server is not part of the repository, so its
  calls are arguments: functions on a state \<open>'k\<close> that stands for the cluster. \<open>RemoveFinalizer\<close>
  (\<open>internal/object/utils.go\<close>) and the conversions between pod templates and pods (\<open>api/v1alpha1/dag_types.go\<close>) are
  translated on top of it. Volumes, mounts, tolerations and the security context of the core API carry the same
  fields as those of the custom resource, so they share its records; a quantity is its canonical text and an affinity its JSON.
\<close>

section \<open>Strings\<close>

fun contains :: "string \<Rightarrow> string \<Rightarrow> bool" where
  "contains [] sub = (sub = [])"
| "contains (c # cs) sub = (take (length sub) (c # cs) = sub \<or> contains cs sub)"

lemma contains_append [simp]: "contains (p @ sub @ q) sub"
proof (induction p)
  case Nil
  show ?case by (cases "sub @ q") (simp, metis append_Nil append_eq_conv_conj contains.simps(2))
qed simp

section \<open>Objects\<close>

record EnvVar =
  e_Name :: string
  e_Value :: string
  e_SecretKeyRef :: "(string \<times> string) option"

record CoreResources =
  cr_Limits :: "(string, string) gomap"
  cr_Requests :: "(string, string) gomap"

definition no_resources :: CoreResources where
  "no_resources = \<lparr>cr_Limits = [], cr_Requests = []\<rparr>"

record Container =
  c_Name :: string
  c_Image :: string
  c_Command :: "string list"
  c_Args :: "string list"
  c_Env :: "EnvVar list"
  c_VolumeMounts :: "VolumeMount list"
  c_Resources :: CoreResources

record PodSpec =
  sp_RestartPolicy :: string
  sp_Volumes :: "Volume list"
  sp_InitContainers :: "Container list"
  sp_Containers :: "Container list"
  sp_ImagePullSecrets :: "string list"
  sp_SecurityContext :: "PodSecurityContext option"
  sp_NodeSelector :: "(string, string) gomap"
  sp_Tolerations :: "Toleration list"
  sp_Affinity :: "string option"
  sp_ServiceAccountName :: string
  sp_AutomountServiceAccountToken :: "bool option"
  sp_ActiveDeadlineSeconds :: "int option"

text \<open>Times are nanoseconds; the zero time is \<open>None\<close>.\<close>

record Terminated =
  te_ExitCode :: int
  te_StartedAt :: "int option"
  te_FinishedAt :: "int option"

record ContainerState =
  cs_Waiting :: "string option"
  cs_Running :: bool
  cs_Terminated :: "Terminated option"

record Pod =
  pod_Name :: string
  pod_Namespace :: string
  pod_UID :: string
  pod_Labels :: "string \<rightharpoonup> string"
  pod_Annotations :: "string \<rightharpoonup> string"
  pod_Finalizers :: "string list"
  pod_Spec :: PodSpec
  pod_Phase :: string
  pod_ContainerStatuses :: "ContainerState list"
  pod_InitContainerStatuses :: "ContainerState list"
  pod_StartTime :: "int option"

record ClaimSpec =
  pc_AccessModes :: "string list"
  pc_Selector :: "string option"
  pc_Resources :: CoreResources
  pc_StorageClassName :: "string option"
  pc_VolumeMode :: "string option"

record Claim =
  clm_Name :: string
  clm_Namespace :: string
  clm_Finalizers :: "string list"
  clm_Spec :: ClaimSpec

section \<open>Client calls\<close>

datatype kube_reason = NotFound | Conflict | AlreadyExists | OtherReason

record kube_error =
  ke_Reason :: kube_reason
  ke_Message :: string

type_synonym 'a kresult = "kube_error + 'a"

record 'k kube =
  kb_getPod :: "string \<Rightarrow> string \<Rightarrow> 'k \<Rightarrow> Pod kresult"
  kb_createPod :: "string \<Rightarrow> Pod \<Rightarrow> 'k \<Rightarrow> Pod kresult \<times> 'k"
  kb_updatePod :: "string \<Rightarrow> Pod \<Rightarrow> 'k \<Rightarrow> unit kresult \<times> 'k"
  kb_deletePod :: "string \<Rightarrow> string \<Rightarrow> 'k \<Rightarrow> unit kresult \<times> 'k"
  kb_podsByUID :: "string \<Rightarrow> string \<Rightarrow> 'k \<Rightarrow> Pod list kresult"
  kb_getPVC :: "string \<Rightarrow> string \<Rightarrow> 'k \<Rightarrow> Claim kresult"
  kb_createPVC :: "string \<Rightarrow> Claim \<Rightarrow> 'k \<Rightarrow> unit kresult \<times> 'k"
  kb_updatePVC :: "string \<Rightarrow> Claim \<Rightarrow> 'k \<Rightarrow> unit kresult \<times> 'k"
  kb_deletePVC :: "string \<Rightarrow> string \<Rightarrow> 'k \<Rightarrow> unit kresult \<times> 'k"

section \<open>Finalizers\<close>

text \<open>The loop of \<open>RemoveFinalizer\<close>, with the number of attempts left and the last conflict.\<close>

fun remove_finalizer :: "nat \<Rightarrow> 'k kube \<Rightarrow> string \<Rightarrow> string \<Rightarrow> string \<Rightarrow> kube_error option \<Rightarrow> 'k \<Rightarrow> kube_error option \<times> 'k" where
  "remove_finalizer 0 kb podName namespace finalizer lastErr k = (lastErr, k)"
| "remove_finalizer (Suc i) kb podName namespace finalizer lastErr k =
     (case kb_getPod kb namespace podName k of
        Inl e \<Rightarrow> if ke_Reason e = NotFound then (None, k) else (Some e, k)
      | Inr pod \<Rightarrow>
          let newFinalizers = filter (\<lambda>f. f \<noteq> finalizer) (pod_Finalizers pod)
          in if length newFinalizers = length (pod_Finalizers pod) then (None, k)
             else (case kb_updatePod kb namespace (pod\<lparr>pod_Finalizers := newFinalizers\<rparr>) k of
                     (Inr _, k') \<Rightarrow> (None, k')
                   | (Inl e, k') \<Rightarrow>
                       if ke_Reason e = NotFound then (None, k')
                       else if ke_Reason e = Conflict then remove_finalizer i kb podName namespace finalizer (Some e) k'
                       else (Some e, k')))"

definition RemoveFinalizer :: "'k kube \<Rightarrow> string \<Rightarrow> string \<Rightarrow> string \<Rightarrow> 'k \<Rightarrow> kube_error option \<times> 'k" where
  "RemoveFinalizer kb podName namespace finalizer k = remove_finalizer 5 kb podName namespace finalizer None k"

section \<open>Pod templates\<close>

text \<open>A resource list keeps the entries whose quantity parses.\<close>

definition resource_list :: "(string \<Rightarrow> string option) \<Rightarrow> (string, string) gomap \<Rightarrow> (string, string) gomap" where
  "resource_list quantity m = concat (map (\<lambda>(k, v). case quantity v of None \<Rightarrow> [] | Some q \<Rightarrow> [(k, q)]) m)"

definition core_volume :: "Volume \<Rightarrow> Volume" where
  "core_volume v = \<lparr>v_Name = v_Name v, v_EmptyDir = v_EmptyDir v,
     v_PersistentVolumeClaim = (if v_EmptyDir v \<noteq> None then None else v_PersistentVolumeClaim v)\<rparr>"

record CoreParts =
  kp_Volumes :: "Volume list"
  kp_VolumeMounts :: "VolumeMount list"
  kp_ImagePullSecrets :: "string list"
  kp_SecurityContext :: "PodSecurityContext option"
  kp_Tolerations :: "Toleration list"
  kp_Affinity :: "string option"
  kp_Resources :: "CoreResources option"

definition ToK8sParts :: "(string \<Rightarrow> string option) \<Rightarrow> (Affinity \<Rightarrow> string) \<Rightarrow> PodTemplateSpec \<Rightarrow> CoreParts" where
  "ToK8sParts quantity affinity p =
     \<lparr>kp_Volumes = map core_volume (pt_Volumes p), kp_VolumeMounts = pt_VolumeMounts p,
      kp_ImagePullSecrets = pt_ImagePullSecrets p, kp_SecurityContext = pt_SecurityContext p,
      kp_Tolerations = pt_Tolerations p, kp_Affinity = map_option affinity (pt_Affinity p),
      kp_Resources = map_option (\<lambda>r. \<lparr>cr_Limits = resource_list quantity (rr_Limits r),
                                      cr_Requests = resource_list quantity (rr_Requests r)\<rparr>) (pt_Resources p)\<rparr>"

definition PodTemplateSpecFromK8s :: "(string \<Rightarrow> Affinity) \<Rightarrow> PodSpec \<Rightarrow> Container \<Rightarrow> PodTemplateSpec" where
  "PodTemplateSpecFromK8s affinity_from podSpec container =
     \<lparr>pt_Volumes = sp_Volumes podSpec, pt_VolumeMounts = c_VolumeMounts container,
      pt_ImagePullSecrets = sp_ImagePullSecrets podSpec, pt_SecurityContext = sp_SecurityContext podSpec,
      pt_NodeSelector = sp_NodeSelector podSpec, pt_Tolerations = sp_Tolerations podSpec,
      pt_Affinity = map_option affinity_from (sp_Affinity podSpec), pt_ServiceAccountName = sp_ServiceAccountName podSpec,
      pt_ActiveDeadlineSeconds = sp_ActiveDeadlineSeconds podSpec,
      pt_AutomountServiceAccountToken = sp_AutomountServiceAccountToken podSpec,
      pt_Resources = (if cr_Limits (c_Resources container) \<noteq> [] \<or> cr_Requests (c_Resources container) \<noteq> []
                      then Some \<lparr>rr_Limits = cr_Limits (c_Resources container), rr_Requests = cr_Requests (c_Resources container)\<rparr>
                      else None)\<rparr>"

definition ToK8sPersistentVolumeClaimSpec :: "(string \<Rightarrow> string option) \<Rightarrow> PVC \<Rightarrow> ClaimSpec" where
  "ToK8sPersistentVolumeClaimSpec quantity p =
     \<lparr>pc_AccessModes = pvc_AccessModes p, pc_Selector = pvc_Selector p,
      pc_Resources = (case pvc_Resources p of
                        None \<Rightarrow> no_resources
                      | Some r \<Rightarrow> \<lparr>cr_Limits = resource_list quantity (rr_Limits r), cr_Requests = resource_list quantity (rr_Requests r)\<rparr>),
      pc_StorageClassName = pvc_StorageClassName p, pc_VolumeMode = pvc_VolumeMode p\<rparr>"

section \<open>A cluster for examples\<close>

text \<open>
  Pods and claims as lists. A deleted object with a finalizer stays, and deleting it again succeeds; an object without one is removed.
\<close>

type_synonym cluster = "Pod list \<times> Claim list"

definition not_found :: kube_error where
  "not_found = \<lparr>ke_Reason = NotFound, ke_Message = ''object not found''\<rparr>"

definition find_pod :: "string \<Rightarrow> string \<Rightarrow> cluster \<Rightarrow> Pod option" where
  "find_pod namespace name k = query_row (filter (\<lambda>p. pod_Name p = name \<and> pod_Namespace p = namespace) (fst k))"

definition find_claim :: "string \<Rightarrow> string \<Rightarrow> cluster \<Rightarrow> Claim option" where
  "find_claim namespace name k = query_row (filter (\<lambda>c. clm_Name c = name \<and> clm_Namespace c = namespace) (snd k))"

definition ex_kube :: "cluster kube" where
  "ex_kube =
     \<lparr>kb_getPod = (\<lambda>namespace name k. case find_pod namespace name k of None \<Rightarrow> Inl not_found | Some p \<Rightarrow> Inr p),
      kb_createPod = (\<lambda>namespace pod k. case find_pod namespace (pod_Name pod) k of
        Some _ \<Rightarrow> (Inl \<lparr>ke_Reason = AlreadyExists, ke_Message = ''pod already exists''\<rparr>, k)
      | None \<Rightarrow> let p = pod\<lparr>pod_Namespace := namespace, pod_UID := FormatUint (length (fst k))\<rparr> in (Inr p, (fst k @ [p], snd k))),
      kb_updatePod = (\<lambda>namespace pod k. case find_pod namespace (pod_Name pod) k of
        None \<Rightarrow> (Inl not_found, k)
      | Some _ \<Rightarrow> (Inr (), (update_where (\<lambda>p. pod_Name p = pod_Name pod \<and> pod_Namespace p = namespace) (\<lambda>_. pod\<lparr>pod_Namespace := namespace\<rparr>) (fst k), snd k))),
      kb_deletePod = (\<lambda>namespace name k. case find_pod namespace name k of
        None \<Rightarrow> (Inl not_found, k)
      | Some q \<Rightarrow> (Inr (), (if pod_Finalizers q = [] then filter (\<lambda>p. \<not> (pod_Name p = name \<and> pod_Namespace p = namespace)) (fst k) else fst k, snd k))),
      kb_podsByUID = (\<lambda>namespace uid k. Inr (filter (\<lambda>p. pod_UID p = uid \<and> pod_Namespace p = namespace) (fst k))),
      kb_getPVC = (\<lambda>namespace name k. case find_claim namespace name k of None \<Rightarrow> Inl not_found | Some c \<Rightarrow> Inr c),
      kb_createPVC = (\<lambda>namespace c k. (Inr (), (fst k, snd k @ [c\<lparr>clm_Namespace := namespace\<rparr>]))),
      kb_updatePVC = (\<lambda>namespace c k. (Inr (), (fst k, update_where (\<lambda>d. clm_Name d = clm_Name c \<and> clm_Namespace d = namespace) (\<lambda>_. c) (snd k)))),
      kb_deletePVC = (\<lambda>namespace name k. (Inr (), (fst k, filter (\<lambda>c. \<not> (clm_Name c = name \<and> clm_Namespace c = namespace)) (snd k))))\<rparr>"

lemma find_pod_delete:
  assumes "(ns', n') \<noteq> (ns, n)"
  shows "kb_getPod ex_kube ns' n' (snd (kb_deletePod ex_kube ns n k)) = kb_getPod ex_kube ns' n' k"
proof -
  have "filter (\<lambda>p. pod_Name p = n' \<and> pod_Namespace p = ns') (filter (\<lambda>p. \<not> (pod_Name p = n \<and> pod_Namespace p = ns)) (fst k)) =
      filter (\<lambda>p. pod_Name p = n' \<and> pod_Namespace p = ns') (fst k)"
    using assms by (auto intro: filter_cong)
  then have "find_pod ns' n' (snd (kb_deletePod ex_kube ns n k)) = find_pod ns' n' k"
    by (cases "find_pod ns n k") (simp_all add: ex_kube_def find_pod_def)
  then show ?thesis by (simp add: ex_kube_def)
qed

lemma find_pod_update:
  assumes "(ns', n') \<noteq> (ns, pod_Name q)"
  shows "kb_getPod ex_kube ns' n' (snd (kb_updatePod ex_kube ns q k)) = kb_getPod ex_kube ns' n' k"
proof -
  have "filter (\<lambda>p. pod_Name p = n' \<and> pod_Namespace p = ns')
      (update_where (\<lambda>p. pod_Name p = pod_Name q \<and> pod_Namespace p = ns) (\<lambda>_. q\<lparr>pod_Namespace := ns\<rparr>) ps) =
      filter (\<lambda>p. pod_Name p = n' \<and> pod_Namespace p = ns') ps" for ps
    using assms by (induction ps) auto
  then have "find_pod ns' n' (snd (kb_updatePod ex_kube ns q k)) = find_pod ns' n' k"
    by (cases "find_pod ns (pod_Name q) k") (simp_all add: ex_kube_def find_pod_def)
  then show ?thesis by (simp add: ex_kube_def)
qed

end
