(* ===== verification/Pod_Events.thy ===== *)
theory Pod_Events
  imports Kube_Api
begin

text \<open>
  \<open>internal/workers/eventHandler.go\<close> and \<open>podEventHandler.go\<close>: from informer callbacks to the event queues of the workers. A pod's queue is
  chosen by a hash of its name and namespace, the same way for events about the pod and for changes of the pod itself; the hash (xxhash) is an argument. A
  queue is the list of its events, the view that \<open>Pod_Queue\<close> proves of both implementations.
\<close>

section \<open>Events\<close>

record PodEvent =
  pe_Pod :: Pod
  pe_Event :: string
  pe_EventTime :: int

record ObjectReference =
  or_Kind :: string
  or_Name :: string
  or_Namespace :: string

record KubeEvent =
  ke_Type :: string
  ke_InvolvedObject :: ObjectReference

type_synonym queues = "PodEvent list list"

text \<open>\<open>hasher.Write\<close> of the name and then of the namespace, and the sum modulo the number of queues as unsigned 64-bit numbers.\<close>

definition queue_index :: "(string \<Rightarrow> 64 word) \<Rightarrow> nat \<Rightarrow> string \<Rightarrow> string \<Rightarrow> nat" where
  "queue_index hash n name namespace = unat (hash (name @ namespace) mod of_nat n)"

definition pod_getQueueIndex :: "(string \<Rightarrow> 64 word) \<Rightarrow> nat \<Rightarrow> Pod \<Rightarrow> nat" where
  "pod_getQueueIndex hash n pod = queue_index hash n (pod_Name pod) (pod_Namespace pod)"

definition event_getQueueIndex :: "(string \<Rightarrow> 64 word) \<Rightarrow> nat \<Rightarrow> KubeEvent \<Rightarrow> nat" where
  "event_getQueueIndex hash n event = queue_index hash n (or_Name (ke_InvolvedObject event)) (or_Namespace (ke_InvolvedObject event))"

text \<open>A push to one of the queues; a failed push is logged and forgotten, and the model has none.\<close>

definition push_to :: "nat \<Rightarrow> PodEvent \<Rightarrow> queues \<Rightarrow> queues" where
  "push_to i e qs = qs[i := (qs ! i) @ [e]]"

section \<open>Changes of pods\<close>

text \<open>The callbacks are registered for pods, so the objects have the right type.\<close>

definition pod_HandleAdd :: "(string \<Rightarrow> 64 word) \<Rightarrow> int \<Rightarrow> Pod \<Rightarrow> queues \<Rightarrow> queues" where
  "pod_HandleAdd hash now pod qs =
     push_to (pod_getQueueIndex hash (length qs) pod) \<lparr>pe_Pod = pod, pe_Event = ''add'', pe_EventTime = now\<rparr> qs"

definition pod_HandleUpdate :: "(string \<Rightarrow> 64 word) \<Rightarrow> int \<Rightarrow> Pod \<Rightarrow> Pod \<Rightarrow> queues \<Rightarrow> queues" where
  "pod_HandleUpdate hash now old pod qs =
     (if pod_Phase old = pod_Phase pod then qs
      else push_to (pod_getQueueIndex hash (length qs) pod) \<lparr>pe_Pod = pod, pe_Event = ''update'', pe_EventTime = now\<rparr> qs)"

definition pod_HandleDelete :: "Pod \<Rightarrow> queues \<Rightarrow> queues" where
  "pod_HandleDelete pod qs = qs"

section \<open>Events about pods\<close>

definition hasRequiredLabels :: "'k kube \<Rightarrow> ObjectReference \<Rightarrow> 'k \<Rightarrow> Pod option" where
  "hasRequiredLabels kb obj k =
     (if or_Kind obj \<noteq> ''Pod'' then None
      else case kb_getPod kb (or_Namespace obj) (or_Name obj) k of
             Inl _ \<Rightarrow> None
           | Inr pod \<Rightarrow> if pod_Labels pod ''managed-by'' = Some ''kontroler'' \<and> pod_Labels pod ''kontroler/id'' \<noteq> None then Some pod else None)"

definition event_Handle :: "(string \<Rightarrow> 64 word) \<Rightarrow> 'k kube \<Rightarrow> int \<Rightarrow> KubeEvent \<Rightarrow> 'k \<Rightarrow> queues \<Rightarrow> queues" where
  "event_Handle hash kb now event k qs =
     (case hasRequiredLabels kb (ke_InvolvedObject event) k of
        None \<Rightarrow> qs
      | Some pod \<Rightarrow>
          if ke_Type event = ''Warning''
          then push_to (event_getQueueIndex hash (length qs) event) \<lparr>pe_Pod = pod, pe_Event = ''update'', pe_EventTime = now\<rparr> qs
          else qs)"

definition event_HandleAdd :: "(string \<Rightarrow> 64 word) \<Rightarrow> 'k kube \<Rightarrow> int \<Rightarrow> KubeEvent \<Rightarrow> 'k \<Rightarrow> queues \<Rightarrow> queues" where
  "event_HandleAdd = event_Handle"

text \<open>An update checks the type of the event before it looks up the pod; the effect is the same.\<close>

definition event_HandleUpdate :: "(string \<Rightarrow> 64 word) \<Rightarrow> 'k kube \<Rightarrow> int \<Rightarrow> KubeEvent \<Rightarrow> 'k \<Rightarrow> queues \<Rightarrow> queues" where
  "event_HandleUpdate hash kb now event k qs =
     (if ke_Type event \<noteq> ''Warning'' then qs
      else case hasRequiredLabels kb (ke_InvolvedObject event) k of
             None \<Rightarrow> qs
           | Some pod \<Rightarrow>
               push_to (event_getQueueIndex hash (length qs) event) \<lparr>pe_Pod = pod, pe_Event = ''update'', pe_EventTime = now\<rparr> qs)"

section \<open>One queue per pod\<close>

text \<open>The callbacks, in the order in which the informers deliver them.\<close>

datatype 'k callback =
    PodAdd int Pod
  | PodUpdate int Pod Pod
  | PodDelete Pod
  | EventAdd int KubeEvent 'k
  | EventUpdate int KubeEvent 'k

fun handle_callback :: "(string \<Rightarrow> 64 word) \<Rightarrow> 'k kube \<Rightarrow> 'k callback \<Rightarrow> queues \<Rightarrow> queues" where
  "handle_callback hash kb (PodAdd now pod) qs = pod_HandleAdd hash now pod qs"
| "handle_callback hash kb (PodUpdate now old pod) qs = pod_HandleUpdate hash now old pod qs"
| "handle_callback hash kb (PodDelete pod) qs = pod_HandleDelete pod qs"
| "handle_callback hash kb (EventAdd now event k) qs = event_HandleAdd hash kb now event k qs"
| "handle_callback hash kb (EventUpdate now event k) qs = event_HandleUpdate hash kb now event k qs"

text \<open>What a callback delivers, if anything.\<close>

fun delivered :: "'k kube \<Rightarrow> 'k callback \<Rightarrow> PodEvent list" where
  "delivered kb (PodAdd now pod) = [\<lparr>pe_Pod = pod, pe_Event = ''add'', pe_EventTime = now\<rparr>]"
| "delivered kb (PodUpdate now old pod) =
     (if pod_Phase old = pod_Phase pod then [] else [\<lparr>pe_Pod = pod, pe_Event = ''update'', pe_EventTime = now\<rparr>])"
| "delivered kb (PodDelete pod) = []"
| "delivered kb (EventAdd now event k) =
     (case hasRequiredLabels kb (ke_InvolvedObject event) k of
        Some pod \<Rightarrow> if ke_Type event = ''Warning'' then [\<lparr>pe_Pod = pod, pe_Event = ''update'', pe_EventTime = now\<rparr>] else []
      | None \<Rightarrow> [])"
| "delivered kb (EventUpdate now event k) =
     (case hasRequiredLabels kb (ke_InvolvedObject event) k of
        Some pod \<Rightarrow> if ke_Type event = ''Warning'' then [\<lparr>pe_Pod = pod, pe_Event = ''update'', pe_EventTime = now\<rparr>] else []
      | None \<Rightarrow> [])"

definition of_pod :: "string \<Rightarrow> string \<Rightarrow> PodEvent \<Rightarrow> bool" where
  "of_pod name namespace e \<longleftrightarrow> pod_Name (pe_Pod e) = name \<and> pod_Namespace (pe_Pod e) = namespace"

lemma queue_index_less: "0 < n \<Longrightarrow> n < 2 ^ 64 \<Longrightarrow> queue_index hash n name namespace < n"
  unfolding queue_index_def by (simp add: unat_mod_distrib unsigned_of_nat take_bit_nat_eq_self)

lemma length_push [simp]: "length (push_to i e qs) = length qs"
  by (simp add: push_to_def)

lemma length_callback [simp]: "length (handle_callback hash kb c qs) = length qs"
  by (cases c) (simp_all add: pod_HandleAdd_def pod_HandleUpdate_def pod_HandleDelete_def event_HandleAdd_def event_Handle_def
      event_HandleUpdate_def split: option.split)

lemma callback_push:
  assumes "\<And>ns n k pod. kb_getPod kb ns n k = Inr pod \<Longrightarrow> pod_Name pod = n \<and> pod_Namespace pod = ns"
  shows "handle_callback hash kb c qs = fold (\<lambda>e. push_to (pod_getQueueIndex hash (length qs) (pe_Pod e)) e) (delivered kb c) qs"
proof -
  have "event_getQueueIndex hash n event = pod_getQueueIndex hash n pod" if "hasRequiredLabels kb (ke_InvolvedObject event) k = Some pod" for n event k pod
    using that assms by (auto simp: hasRequiredLabels_def event_getQueueIndex_def pod_getQueueIndex_def split: if_splits sum.splits)
  then show ?thesis
    by (cases c) (auto simp: pod_HandleAdd_def pod_HandleUpdate_def pod_HandleDelete_def event_HandleAdd_def event_Handle_def
        event_HandleUpdate_def split: option.split)
qed

lemma push_filter:
  assumes "j < length qs"
  shows "filter P (push_to i e qs ! j) = filter P (qs ! j) @ (if i = j \<and> P e then [e] else [])"
  using assms by (cases "i = j") (simp_all add: push_to_def)

lemma pushes_filter:
  assumes len: "length qs = n" and i: "i < n"
  shows "filter (of_pod name namespace) (fold (\<lambda>e. push_to (pod_getQueueIndex hash n (pe_Pod e)) e) es qs ! i) =
    filter (of_pod name namespace) (qs ! i) @ (if i = queue_index hash n name namespace then filter (of_pod name namespace) es else [])"
  using assms
proof (induction es arbitrary: qs)
  case (Cons e es)
  let ?j = "pod_getQueueIndex hash n (pe_Pod e)"
  have "of_pod name namespace e \<Longrightarrow> ?j = queue_index hash n name namespace" by (simp add: of_pod_def pod_getQueueIndex_def)
  then show ?case using Cons push_filter [of i qs "of_pod name namespace" ?j e] by auto
qed simp

text \<open>
  (C28) The events of a pod go through one queue, in order: if the API server answers a lookup with the pod of that name, then after any sequence of
  callbacks from the pod and event informers the events about a pod are all in the queue chosen by its name and namespace, in the order in which they
  were delivered, and in no other queue. The choice is always one of the queues.
\<close>

theorem pod_events_in_one_queue:
  assumes "\<And>ns n k pod. kb_getPod kb ns n k = Inr pod \<Longrightarrow> pod_Name pod = n \<and> pod_Namespace pod = ns"
    and "0 < n" "n < 2 ^ 64" "i < n"
  shows "queue_index hash n name namespace < n \<and> filter (of_pod name namespace) (fold (handle_callback hash kb) cs (replicate n []) ! i) =
    (if i = queue_index hash n name namespace then filter (of_pod name namespace) (concat (map (delivered kb) cs)) else [])"
proof -
  have "filter (of_pod name namespace) (fold (handle_callback hash kb) cs qs ! i) = filter (of_pod name namespace) (qs ! i) @
      (if i = queue_index hash n name namespace then filter (of_pod name namespace) (concat (map (delivered kb) cs)) else [])"
    if "length qs = n" for qs using that
  proof (induction cs arbitrary: qs)
    case (Cons c cs)
    have "filter (of_pod name namespace) (handle_callback hash kb c qs ! i) = filter (of_pod name namespace) (qs ! i) @
        (if i = queue_index hash n name namespace then filter (of_pod name namespace) (delivered kb c) else [])"
      by (subst callback_push [OF assms(1)], assumption) (simp only: Cons.prems pushes_filter [OF Cons.prems assms(4)])
    then show ?case using Cons.IH [of "handle_callback hash kb c qs"] Cons.prems by simp
  qed simp
  from this [of "replicate n []"] show ?thesis using assms(2-4) by (simp add: queue_index_less)
qed

section \<open>Example\<close>

definition ex_pod :: "string \<Rightarrow> Pod" where
  "ex_pod phase = \<lparr>pod_Name = ''p'', pod_Namespace = ''ns'', pod_UID = ''u'', pod_Labels = [''managed-by'' \<mapsto> ''kontroler'', ''kontroler/id'' \<mapsto> ''1''],
     pod_Annotations = Map.empty, pod_Finalizers = [],
     pod_Spec = \<lparr>sp_RestartPolicy = '''', sp_Volumes = [], sp_InitContainers = [], sp_Containers = [], sp_ImagePullSecrets = [],
       sp_SecurityContext = None, sp_NodeSelector = [], sp_Tolerations = [], sp_Affinity = None, sp_ServiceAccountName = '''',
       sp_AutomountServiceAccountToken = None, sp_ActiveDeadlineSeconds = None\<rparr>,
     pod_Phase = phase, pod_ContainerStatuses = [], pod_InitContainerStatuses = [], pod_StartTime = None\<rparr>"

theorem pod_events_in_one_queue_witness:
  "filter (of_pod ''p'' ''ns'') (fold (handle_callback (\<lambda>_. 7) ex_kube)
     [PodAdd 1 (ex_pod ''Pending''), PodUpdate 2 (ex_pod ''Pending'') (ex_pod ''Running''),
      EventAdd 3 \<lparr>ke_Type = ''Warning'', ke_InvolvedObject = \<lparr>or_Kind = ''Pod'', or_Name = ''p'', or_Namespace = ''ns''\<rparr>\<rparr> ([ex_pod ''Running''], [])]
     (replicate 4 []) ! 3) =
   [\<lparr>pe_Pod = ex_pod ''Pending'', pe_Event = ''add'', pe_EventTime = 1\<rparr>, \<lparr>pe_Pod = ex_pod ''Running'', pe_Event = ''update'', pe_EventTime = 2\<rparr>,
    \<lparr>pe_Pod = ex_pod ''Running'', pe_Event = ''update'', pe_EventTime = 3\<rparr>]"
proof -
  have kb: "kb_getPod ex_kube ns n k = Inr pod \<Longrightarrow> pod_Name pod = n \<and> pod_Namespace pod = ns" for ns n and k :: cluster and pod
    by (auto simp: ex_kube_def find_pod_def split: option.splits dest!: query_row_Some_in)
  have i: "queue_index (\<lambda>_. 7) 4 ''p'' ''ns'' = 3" by (simp add: queue_index_def)
  have p: "pod_Name (ex_pod ph) = ''p''" "pod_Namespace (ex_pod ph) = ''ns''" "pod_Phase (ex_pod ph) = ph" for ph by (simp_all add: ex_pod_def)
  have l: "hasRequiredLabels ex_kube \<lparr>or_Kind = ''Pod'', or_Name = ''p'', or_Namespace = ''ns''\<rparr> ([ex_pod ''Running''], []) = Some (ex_pod ''Running'')"
    by (simp add: hasRequiredLabels_def ex_kube_def find_pod_def p) (simp add: ex_pod_def)
  let ?cs = "[PodAdd 1 (ex_pod ''Pending''), PodUpdate 2 (ex_pod ''Pending'') (ex_pod ''Running''),
      EventAdd 3 \<lparr>ke_Type = ''Warning'', ke_InvolvedObject = \<lparr>or_Kind = ''Pod'', or_Name = ''p'', or_Namespace = ''ns''\<rparr>\<rparr> ([ex_pod ''Running''], [])]"
  have "filter (of_pod ''p'' ''ns'') (fold (handle_callback (\<lambda>_. 7) ex_kube) ?cs (replicate 4 []) ! 3) =
      (if 3 = queue_index (\<lambda>_. 7) 4 ''p'' ''ns'' then filter (of_pod ''p'' ''ns'') (concat (map (delivered ex_kube) ?cs)) else [])"
    by (rule conjunct2 [OF pod_events_in_one_queue]) (use kb in blast, simp_all)
  also have "\<dots> = filter (of_pod ''p'' ''ns'') (concat (map (delivered ex_kube) ?cs))" by (simp add: i)
  finally show ?thesis by (simp add: of_pod_def p l del: handle_callback.simps fold_simps)
qed

end
