(* ===== verification/Sqlite_Dags.thy ===== *)
theory Sqlite_Dags
  imports Dag_Store Dag_Validation Go_Strconv
begin

text \<open>
  \<open>internal/db/sqliteManager.go\<close>, the operations on DAG definitions: versioned insertion with its
  tasks, dependencies, workspace and parameters, suspension, deletion, the shared tasks, and the
  scheduler's query for due DAGs. The cron parser, the digest of a specification (SHA-256 of its JSON), the
  generator of unique names and the clock are arguments.
\<close>

section \<open>Helpers\<close>

definition getTaskVersion :: "TaskSpec \<Rightarrow> int" where
  "getTaskVersion task = (case ts_TaskRef task of Some ref \<Rightarrow> tr_Version ref | None \<Rightarrow> 1)"

definition hashDagSpec :: "(DAGSpec \<Rightarrow> string) \<Rightarrow> DAGSpec \<Rightarrow> string" where
  "hashDagSpec digest spec = digest (spec\<lparr>ds_Suspended := False\<rparr>)"

definition GetID :: "string \<Rightarrow> string op" where
  "GetID newUUID s =
     (case query_row (ids s) of
        Some i \<Rightarrow> (Inr i, s)
      | None \<Rightarrow> (Inr newUUID, s\<lparr>ids := ids s @ [newUUID]\<rparr>))"

section \<open>Insertion of a DAG\<close>

definition setSuspended :: "string \<Rightarrow> string \<Rightarrow> bool \<Rightarrow> db \<Rightarrow> db" where
  "setSuspended dagName namespace suspended s =
     s\<lparr>dags := update_where (\<lambda>d. dg_name d = dagName \<and> dg_namespace d = namespace)
                 (\<lambda>d. d\<lparr>dg_suspended := suspended\<rparr>) (dags s)\<rparr>"

definition setInactive :: "string \<Rightarrow> string \<Rightarrow> int \<Rightarrow> db \<Rightarrow> db" where
  "setInactive name namespace prevVersion s =
     s\<lparr>dags := update_where (\<lambda>d. dg_name d = name \<and> dg_namespace d = namespace \<and> dg_version d = prevVersion)
                 (\<lambda>d. d\<lparr>dg_active := False\<rparr>) (dags s)\<rparr>"

definition insertWorkspace :: "nat \<Rightarrow> PVC \<Rightarrow> unit tx_body" where
  "insertWorkspace dagID pvc s =
     Inr ((), s\<lparr>workspaces := workspaces s @ [\<lparr>wk_dag_id = dagID, wk_pvc = pvc\<rparr>]\<rparr>)"

definition insert_task_row :: "task_row \<Rightarrow> nat tx_body" where
  "insert_task_row row s =
     (if \<exists>t \<in> set (tasks s). tk_name t = tk_name row \<and> tk_version t = tk_version row \<and> tk_namespace t = tk_namespace row
      then Inl (Err ''UNIQUE constraint failed: Tasks.name, Tasks.version, Tasks.namespace'')
      else Inr (next_task s, s\<lparr>tasks := tasks s @ [row\<lparr>tk_id := next_task s\<rparr>], next_task := Suc (next_task s)\<rparr>))"

definition insert_dagtask_row :: "nat \<Rightarrow> nat \<Rightarrow> string \<Rightarrow> int \<Rightarrow> unit tx_body" where
  "insert_dagtask_row dagID taskId name version s =
     Inr ((), s\<lparr>dagtasks := dagtasks s @ [\<lparr>dk_id = next_dagtask s, dk_dag_id = dagID, dk_task_id = taskId,
                  dk_name = name, dk_version = version\<rparr>],
               next_dagtask := Suc (next_dagtask s)\<rparr>)"

definition inline_row :: "(nat \<Rightarrow> string) \<Rightarrow> db \<Rightarrow> TaskSpec \<Rightarrow> string \<Rightarrow> int \<Rightarrow> task_row" where
  "inline_row uuid s task namespace version =
     \<lparr>tk_id = 0, tk_name = uuid (next_task s), tk_command = ts_Command task, tk_args = ts_Args task,
      tk_image = ts_Image task, tk_parameters = ts_Parameters task, tk_backoffLimit = bo_Limit (ts_Backoff task),
      tk_isConditional = co_Enabled (ts_Conditional task), tk_podTemplate = ts_PodTemplate task,
      tk_retryCodes = co_RetryCodes (ts_Conditional task), tk_script = ts_Script task,
      tk_scriptInjectorImage = ts_ScriptInjectorImage task, tk_inline = True, tk_namespace = namespace,
      tk_version = version, tk_hash = None\<rparr>"

definition insertTask :: "(nat \<Rightarrow> string) \<Rightarrow> nat \<Rightarrow> TaskSpec \<Rightarrow> string \<Rightarrow> int \<Rightarrow> unit tx_body" where
  "insertTask uuid dagID task namespace version s =
     (case ts_TaskRef task of
        Some ref \<Rightarrow>
          (case query_row (filter (\<lambda>t. tk_name t = tr_Name ref \<and> \<not> tk_inline t \<and> tk_version t = tr_Version ref)
                             (tasks s)) of
             None \<Rightarrow> Inl ErrNoRows
           | Some t \<Rightarrow> insert_dagtask_row dagID (tk_id t) (ts_Name task) version s)
      | None \<Rightarrow>
          bind_tx (insert_task_row (inline_row uuid s task namespace version) s)
            (\<lambda>taskId. insert_dagtask_row dagID taskId (ts_Name task) version))"

definition insert_dependency :: "nat \<Rightarrow> TaskSpec \<Rightarrow> int \<Rightarrow> string \<Rightarrow> unit tx_body" where
  "insert_dependency dagID task version dependency s =
     (case query_row (filter (\<lambda>t. dk_dag_id t = dagID \<and> dk_name t = ts_Name task \<and> dk_version t = version)
                        (dagtasks s)) of
        None \<Rightarrow> Inl (Err (''task: '' @ ts_Name task @ '' not found for version '' @ Itoa version))
      | Some t \<Rightarrow>
          (case query_row (order_by_desc dk_version
                   (filter (\<lambda>t. dk_dag_id t = dagID \<and> dk_name t = dependency) (dagtasks s))) of
             None \<Rightarrow> Inl ErrNoRows
           | Some d \<Rightarrow> Inr ((), s\<lparr>deps := deps s @ [\<lparr>dp_task_id = dk_id t, dp_depends_on = dk_id d\<rparr>]\<rparr>)))"

definition createDependencyConnection :: "nat \<Rightarrow> TaskSpec \<Rightarrow> int \<Rightarrow> unit tx_body" where
  "createDependencyConnection dagID task version = for_tx (ts_RunAfter task) (insert_dependency dagID task version)"

definition insertParameter :: "nat \<Rightarrow> DagParameterSpec \<Rightarrow> unit tx_body" where
  "insertParameter dagID p s =
     Inr ((), s\<lparr>params := params s @ [\<lparr>pr_dag_id = dagID, pr_name = dp_Name p,
                  pr_isSecret = (dp_DefaultValue p = ''''),
                  pr_defaultValue = (if dp_DefaultValue p = '''' then dp_DefaultFromSecret p else dp_DefaultValue p)\<rparr>]\<rparr>)"

definition insert_dag_row :: "dag_row \<Rightarrow> nat tx_body" where
  "insert_dag_row row s =
     (if \<exists>d \<in> set (dags s). dg_name d = dg_name row \<and> dg_version d = dg_version row \<and> dg_namespace d = dg_namespace row
      then Inl (Err ''UNIQUE constraint failed: DAGs.name, DAGs.version, DAGs.namespace'')
      else Inr (next_dag s, s\<lparr>dags := dags s @ [row\<lparr>dg_id := next_dag s\<rparr>], next_dag := Suc (next_dag s)\<rparr>))"

definition new_dag_row :: "DAG \<Rightarrow> int \<Rightarrow> string \<Rightarrow> string \<Rightarrow> int option \<Rightarrow> dag_row" where
  "new_dag_row dag version namespace hash nextTime =
     \<lparr>dg_id = 0, dg_name = dag_Name dag, dg_version = version, dg_hash = hash,
      dg_schedule = ds_Schedule (dag_Spec dag), dg_namespace = namespace, dg_active = True,
      dg_taskCount = length (ds_Task (dag_Spec dag)), dg_nexttime = nextTime,
      dg_webhookUrl = wh_URL (ds_Webhook (dag_Spec dag)),
      dg_sslVerification = wh_VerifySSL (ds_Webhook (dag_Spec dag)), dg_workspaceEnabled = None,
      dg_suspended = ds_Suspended (dag_Spec dag)\<rparr>"

text \<open>A cron schedule maps a time to the next occurrence after it.\<close>

type_synonym cron = "string \<Rightarrow> (int \<Rightarrow> int) result"

definition next_time :: "cron \<Rightarrow> int \<Rightarrow> string \<Rightarrow> int option result" where
  "next_time cron now schedule =
     (if schedule = '''' then Inr None
      else (case cron schedule of Inl e \<Rightarrow> Inl e | Inr next \<Rightarrow> Inr (Some (next now))))"

definition insertDAG ::
    "(nat \<Rightarrow> string) \<Rightarrow> cron \<Rightarrow> int \<Rightarrow> DAG \<Rightarrow> int \<Rightarrow> string \<Rightarrow> string \<Rightarrow> unit tx_body" where
  "insertDAG uuid cron now dag version namespace hash s =
     (let spec = dag_Spec dag
      in case next_time cron now (ds_Schedule spec) of
           Inl e \<Rightarrow> Inl e
         | Inr nextTime \<Rightarrow>
             bind_tx (insert_dag_row (new_dag_row dag version namespace hash nextTime) s) (\<lambda>dagID s1.
             bind_tx (if ws_Enabled (ds_Workspace spec)
                      then insertWorkspace dagID (ws_PvcSpec (ds_Workspace spec)) s1 else Inr ((), s1)) (\<lambda>_ s2.
             bind_tx (for_tx (ds_Task spec) (\<lambda>t. insertTask uuid dagID t namespace (getTaskVersion t)) s2) (\<lambda>_ s3.
             bind_tx (for_tx (ds_Task spec) (\<lambda>t. createDependencyConnection dagID t (getTaskVersion t)) s3) (\<lambda>_.
             for_tx (ds_Parameters spec) (insertParameter dagID))))))"

definition latest_dag :: "string \<Rightarrow> string \<Rightarrow> db \<Rightarrow> dag_row option" where
  "latest_dag name namespace s =
     query_row (order_by_desc dg_version (filter (\<lambda>d. dg_name d = name \<and> dg_namespace d = namespace) (dags s)))"

definition InsertDAG_tx ::
    "(DAGSpec \<Rightarrow> string) \<Rightarrow> (nat \<Rightarrow> string) \<Rightarrow> cron \<Rightarrow> int \<Rightarrow> DAG \<Rightarrow> string \<Rightarrow> unit tx_body" where
  "InsertDAG_tx digest uuid cron now dag namespace s =
     (let (existingDAGID, version, hash, suspended) =
            (case latest_dag (dag_Name dag) namespace s of
               None \<Rightarrow> (0, 0, '''', False)
             | Some d \<Rightarrow> (dg_id d, dg_version d, dg_hash d, dg_suspended d));
          hashValue = hashDagSpec digest (dag_Spec dag)
      in if hash = hashValue
         then (if suspended \<noteq> ds_Suspended (dag_Spec dag)
               then Inr ((), setSuspended (dag_Name dag) namespace (ds_Suspended (dag_Spec dag)) s)
               else Inl (Err ''applying the same dag''))
         else let version' = (if existingDAGID \<noteq> 0 then version + 1 else version)
              in bind_tx (insertDAG uuid cron now dag version' namespace hashValue s)
                   (\<lambda>_ s1. Inr ((), setInactive (dag_Name dag) namespace (version' - 1) s1)))"

definition InsertDAG ::
    "(DAGSpec \<Rightarrow> string) \<Rightarrow> (nat \<Rightarrow> string) \<Rightarrow> cron \<Rightarrow> int \<Rightarrow> DAG \<Rightarrow> string \<Rightarrow> unit op" where
  "InsertDAG digest uuid cron now dag namespace = withTx (InsertDAG_tx digest uuid cron now dag namespace)"

section \<open>Queries on DAGs\<close>

definition dagNameToDagId :: "string \<Rightarrow> db \<Rightarrow> nat result" where
  "dagNameToDagId dagName s =
     (case query_row (order_by_desc dg_version (filter (\<lambda>d. dg_name d = dagName) (dags s))) of
        None \<Rightarrow> Inl ErrNoRows
      | Some d \<Rightarrow> Inr (dg_id d))"

text \<open>The map from names to parameters; a later row of the same name overwrites an earlier one.\<close>

definition GetDagParameters :: "string \<Rightarrow> db \<Rightarrow> (string \<rightharpoonup> Parameter)" where
  "GetDagParameters dagName s =
     (case dagNameToDagId dagName s of
        Inl _ \<Rightarrow> Map.empty
      | Inr dagId \<Rightarrow>
          foldl (\<lambda>m p. m(pr_name p \<mapsto> \<lparr>pa_Name = pr_name p, pa_IsSecret = pr_isSecret p, pa_Value = pr_defaultValue p\<rparr>))
            Map.empty (filter (\<lambda>p. pr_dag_id p = dagId) (params s)))"

definition DagExists :: "string \<Rightarrow> db \<Rightarrow> bool \<times> int" where
  "DagExists dagName s =
     (case query_row (filter (\<lambda>d. dg_name d = dagName) (dags s)) of
        None \<Rightarrow> (False, - 1)
      | Some d \<Rightarrow> (True, int (dg_id d)))"

definition GetWebhookDetails :: "nat \<Rightarrow> db \<Rightarrow> Webhook result" where
  "GetWebhookDetails dagRunID s =
     (case query_row (filter (\<lambda>r. rn_id r = dagRunID) (runs s)) of
        None \<Rightarrow> Inl ErrNoRows
      | Some r \<Rightarrow>
          (case query_row (filter (\<lambda>d. dg_id d = rn_dag_id r) (dags s)) of
             None \<Rightarrow> Inl ErrNoRows
           | Some d \<Rightarrow> Inr \<lparr>wh_URL = dg_webhookUrl d, wh_VerifySSL = dg_sslVerification d\<rparr>))"

definition GetWorkspacePVCTemplate :: "nat \<Rightarrow> db \<Rightarrow> PVC option" where
  "GetWorkspacePVCTemplate dagId s =
     map_option wk_pvc (query_row (filter (\<lambda>w. wk_dag_id w = dagId) (workspaces s)))"

text \<open>
  \<open>GetDAGsToStartAndUpdate\<close>: \<open>due\<close> is the text comparison of a stored time with the argument of the query.
\<close>

fun advance :: "cron \<Rightarrow> int \<Rightarrow> dag_row list \<Rightarrow> unit tx_body" where
  "advance cron now [] s = Inr ((), s)"
| "advance cron now (d # ds) s =
     (case cron (dg_schedule d) of
        Inl e \<Rightarrow> Inl e
      | Inr next \<Rightarrow>
          advance cron now ds
            (s\<lparr>dags := update_where (\<lambda>x. dg_id x = dg_id d) (\<lambda>x. x\<lparr>dg_nexttime := Some (next now)\<rparr>) (dags s)\<rparr>))"

definition due_dags :: "(int \<Rightarrow> bool) \<Rightarrow> db \<Rightarrow> dag_row list" where
  "due_dags due s =
     filter (\<lambda>d. (case dg_nexttime d of None \<Rightarrow> False | Some t \<Rightarrow> due t) \<and> dg_schedule d \<noteq> '''' \<and>
                 dg_active d \<and> \<not> dg_suspended d) (dags s)"

definition dag_info :: "dag_row \<Rightarrow> DagInfo" where
  "dag_info d =
     \<lparr>di_DagId = 0, di_DagName = dg_name d, di_Namespace = dg_namespace d,
      di_WorkspaceEnabled = (dg_workspaceEnabled d = Some True), di_WebhookUrl = '''', di_SSLVerification = False\<rparr>"

definition GetDAGsToStartAndUpdate :: "cron \<Rightarrow> (int \<Rightarrow> bool) \<Rightarrow> int \<Rightarrow> DagInfo list op" where
  "GetDAGsToStartAndUpdate cron due now =
     withTx (\<lambda>s. bind_tx (advance cron now (due_dags due s) s) (\<lambda>_ s'. Inr (map dag_info (due_dags due s), s')))"

section \<open>Deletion of a DAG\<close>

definition dag_ids :: "string \<Rightarrow> string \<Rightarrow> db \<Rightarrow> nat set" where
  "dag_ids name namespace s = set (map dg_id (filter (\<lambda>d. dg_name d = name \<and> dg_namespace d = namespace) (dags s)))"

definition run_ids :: "nat set \<Rightarrow> db \<Rightarrow> nat set" where
  "run_ids D s = set (map rn_id (filter (\<lambda>r. rn_dag_id r \<in> D) (runs s)))"

text \<open>The shared tasks some version of the DAG uses.\<close>

definition getTaskDeletionData :: "string \<Rightarrow> string \<Rightarrow> db \<Rightarrow> task_row list" where
  "getTaskDeletionData name namespace s =
     filter (\<lambda>t. \<not> tk_inline t \<and>
                 (\<exists>k \<in> set (dagtasks s). dk_task_id k = tk_id t \<and> dk_dag_id k \<in> dag_ids name namespace s)) (tasks s)"

text \<open>Whether another DAG uses a task of that name (looked up in the DAG's namespace).\<close>

definition used_elsewhere :: "string \<Rightarrow> string \<Rightarrow> task_row \<Rightarrow> db \<Rightarrow> bool" where
  "used_elsewhere name namespace t s \<longleftrightarrow>
     (\<exists>k \<in> set (dagtasks s). \<exists>d \<in> set (dags s). dk_dag_id k = dg_id d \<and>
        (\<exists>u \<in> set (tasks s). tk_id u = dk_task_id k \<and> tk_name u = tk_name t \<and> tk_namespace u = namespace) \<and>
        \<not> (dg_name d = name \<and> dg_namespace d = namespace))"

text \<open>The inline tasks to delete are selected by the DAG's name alone.\<close>

definition inline_task_ids :: "string \<Rightarrow> db \<Rightarrow> nat set" where
  "inline_task_ids name s =
     set (map tk_id (filter (\<lambda>t. tk_inline t \<and>
       (\<exists>k \<in> set (dagtasks s). \<exists>d \<in> set (dags s). dk_task_id k = tk_id t \<and> dk_dag_id k = dg_id d \<and> dg_name d = name))
       (tasks s)))"

definition DeleteDAG :: "string \<Rightarrow> string \<Rightarrow> string list op" where
  "DeleteDAG name namespace s =
     (let D = dag_ids name namespace s;
          R = run_ids D s;
          T = inline_task_ids name s;
          unusedTaskNames = map tk_name (filter (\<lambda>t. \<not> used_elsewhere name namespace t s)
                                           (getTaskDeletionData name namespace s))
      in (Inr unusedTaskNames,
          s\<lparr>runparams := delete_where (\<lambda>p. rp_run_id p \<in> R) (runparams s),
            taskruns := delete_where (\<lambda>r. tr_run_id r \<in> R) (taskruns s),
            runs := delete_where (\<lambda>r. rn_dag_id r \<in> D) (runs s),
            dagtasks := delete_where (\<lambda>k. dk_dag_id k \<in> D) (dagtasks s),
            dags := delete_where (\<lambda>d. dg_name d = name \<and> dg_namespace d = namespace) (dags s),
            tasks := delete_where (\<lambda>t. tk_id t \<in> T) (tasks s)\<rparr>))"

section \<open>Shared tasks\<close>

definition AddTask_tx :: "(DagTaskSpec \<Rightarrow> string) \<Rightarrow> string \<Rightarrow> DagTaskSpec \<Rightarrow> string \<Rightarrow> unit tx_body" where
  "AddTask_tx digest name spec namespace s =
     (let (version, hash) =
            (case query_row (order_by_desc tk_version
                    (filter (\<lambda>t. tk_name t = name \<and> tk_namespace t = namespace) (tasks s))) of
               None \<Rightarrow> (0, None)
             | Some t \<Rightarrow> (tk_version t, tk_hash t))
      in if hash = Some (digest spec) then Inl (Err ''applying the same task'')
         else bind_tx (insert_task_row
                \<lparr>tk_id = 0, tk_name = name, tk_command = dt_Command spec, tk_args = dt_Args spec,
                 tk_image = dt_Image spec, tk_parameters = dt_Parameters spec,
                 tk_backoffLimit = bo_Limit (dt_Backoff spec),
                 tk_isConditional = co_Enabled (dt_Conditional spec), tk_podTemplate = dt_PodTemplate spec,
                 tk_retryCodes = co_RetryCodes (dt_Conditional spec), tk_script = dt_Script spec,
                 tk_scriptInjectorImage = dt_ScriptInjectorImage spec, tk_inline = False,
                 tk_namespace = namespace, tk_version = version + 1, tk_hash = Some (digest spec)\<rparr> s)
              (\<lambda>_ s'. Inr ((), s')))"

definition AddTask :: "(DagTaskSpec \<Rightarrow> string) \<Rightarrow> string \<Rightarrow> DagTaskSpec \<Rightarrow> string \<Rightarrow> unit op" where
  "AddTask digest name spec namespace = withTx (AddTask_tx digest name spec namespace)"

definition DeleteTask :: "string \<Rightarrow> string \<Rightarrow> unit op" where
  "DeleteTask taskName namespace s =
     (Inr (), s\<lparr>tasks := delete_where (\<lambda>t. tk_name t = taskName \<and> tk_namespace t = namespace \<and> \<not> tk_inline t) (tasks s)\<rparr>)"

fun GetTaskRefsParameters :: "TaskRef list \<Rightarrow> db \<Rightarrow> (TaskRef \<rightharpoonup> string list) \<Rightarrow> (TaskRef \<rightharpoonup> string list) result" where
  "GetTaskRefsParameters [] s m = Inr m"
| "GetTaskRefsParameters (ref # refs) s m =
     (case query_row (filter (\<lambda>t. tk_name t = tr_Name ref \<and> tk_version t = tr_Version ref \<and> \<not> tk_inline t) (tasks s)) of
        None \<Rightarrow> Inl ErrNoRows
      | Some t \<Rightarrow> GetTaskRefsParameters refs s (m(ref \<mapsto> tk_parameters t)))"

section \<open>What the insertion of a DAG writes\<close>

text \<open>References between tables point below the serial counters.\<close>

definition refs_ok :: "db \<Rightarrow> bool" where
  "refs_ok s \<longleftrightarrow> (\<forall>k \<in> set (dagtasks s). dk_dag_id k < next_dag s) \<and>
     (\<forall>d \<in> set (deps s). dp_task_id d < next_dagtask s \<and> dp_depends_on d < next_dagtask s)"

text \<open>The dependency graph of a stored DAG, by task name.\<close>

definition named_deps :: "nat \<Rightarrow> db \<Rightarrow> (string \<times> string) set" where
  "named_deps dagID s = {(dk_name k, dk_name e) | d k e. d \<in> set (deps s) \<and> k \<in> set (dagtasks s) \<and> e \<in> set (dagtasks s) \<and>
     dk_id k = dp_task_id d \<and> dk_id e = dp_depends_on d \<and> dk_dag_id k = dagID}"

definition dag_tasks_of :: "nat \<Rightarrow> db \<Rightarrow> dagtask_row list" where
  "dag_tasks_of dagID s = filter (\<lambda>k. dk_dag_id k = dagID) (dagtasks s)"

subsection \<open>One task\<close>

lemma insert_task_row_eq:
  "insert_task_row row s = Inr (i, s') \<Longrightarrow>
     i = next_task s \<and> s' = s\<lparr>tasks := tasks s @ [row\<lparr>tk_id := i\<rparr>], next_task := Suc i\<rparr>"
  by (auto simp: insert_task_row_def split: if_splits)

text \<open>Tables and counters other than the tasks are only extended by one row of \<open>DAG_Tasks\<close>.\<close>

definition adds_dagtask :: "nat \<Rightarrow> string \<Rightarrow> int \<Rightarrow> db \<Rightarrow> db \<Rightarrow> bool" where
  "adds_dagtask dagID name version s s' \<longleftrightarrow>
     (\<exists>taskId. dagtasks s' = dagtasks s @ [\<lparr>dk_id = next_dagtask s, dk_dag_id = dagID, dk_task_id = taskId,
                  dk_name = name, dk_version = version\<rparr>]) \<and>
     next_dagtask s' = Suc (next_dagtask s) \<and> dags s' = dags s \<and> next_dag s' = next_dag s \<and> deps s' = deps s \<and>
     runs s' = runs s \<and> taskruns s' = taskruns s \<and> next_run s' = next_run s \<and> next_taskrun s' = next_taskrun s"

lemma insertTask_adds:
  assumes "insertTask uuid dagID task namespace version s = Inr ((), s')"
  shows "adds_dagtask dagID (ts_Name task) version s s'"
  using assms
  by (auto simp: insertTask_def insert_dagtask_row_def adds_dagtask_def bind_tx_Inr dest!: insert_task_row_eq
      split: option.splits)

subsection \<open>All tasks\<close>

definition adds_dagtasks :: "nat \<Rightarrow> TaskSpec list \<Rightarrow> db \<Rightarrow> db \<Rightarrow> bool" where
  "adds_dagtasks dagID ts s s' \<longleftrightarrow>
     (\<exists>rows. dagtasks s' = dagtasks s @ rows \<and>
        map (\<lambda>k. (dk_dag_id k, dk_name k, dk_version k)) rows = map (\<lambda>t. (dagID, ts_Name t, getTaskVersion t)) ts \<and>
        map dk_id rows = [next_dagtask s..<next_dagtask s + length ts]) \<and>
     next_dagtask s' = next_dagtask s + length ts \<and> dags s' = dags s \<and> next_dag s' = next_dag s \<and> deps s' = deps s \<and>
     runs s' = runs s \<and> taskruns s' = taskruns s \<and> next_run s' = next_run s \<and> next_taskrun s' = next_taskrun s"

lemma adds_dagtasks_step:
  assumes "adds_dagtask dagID (ts_Name t) (getTaskVersion t) s s1" "adds_dagtasks dagID ts s1 s'"
  shows "adds_dagtasks dagID (t # ts) s s'"
proof -
  obtain rows where rows: "dagtasks s' = dagtasks s1 @ rows"
    "map (\<lambda>k. (dk_dag_id k, dk_name k, dk_version k)) rows = map (\<lambda>t. (dagID, ts_Name t, getTaskVersion t)) ts"
    "map dk_id rows = [next_dagtask s1..<next_dagtask s1 + length ts]"
    using assms(2) by (auto simp: adds_dagtasks_def)
  obtain i where i: "dagtasks s1 = dagtasks s @ [\<lparr>dk_id = next_dagtask s, dk_dag_id = dagID, dk_task_id = i,
      dk_name = ts_Name t, dk_version = getTaskVersion t\<rparr>]" "next_dagtask s1 = Suc (next_dagtask s)"
    using assms(1) by (auto simp: adds_dagtask_def)
  have "map dk_id (\<lparr>dk_id = next_dagtask s, dk_dag_id = dagID, dk_task_id = i, dk_name = ts_Name t,
      dk_version = getTaskVersion t\<rparr> # rows) = [next_dagtask s..<next_dagtask s + length (t # ts)]"
    using rows(3) i(2) by (simp add: upt_rec)
  then show ?thesis
    using assms rows i by (auto simp: adds_dagtasks_def adds_dagtask_def intro!: exI [of _ "_ # rows"])
qed

lemma for_insertTask_adds:
  assumes "for_tx ts (\<lambda>t. insertTask uuid dagID t namespace (getTaskVersion t)) s = Inr ((), s')"
  shows "adds_dagtasks dagID ts s s'"
  using assms
proof (induction ts arbitrary: s)
  case Nil
  then show ?case by (simp add: adds_dagtasks_def)
next
  case (Cons t ts)
  then obtain s1 where s1: "insertTask uuid dagID t namespace (getTaskVersion t) s = Inr ((), s1)"
    "for_tx ts (\<lambda>t. insertTask uuid dagID t namespace (getTaskVersion t)) s1 = Inr ((), s')"
    by (auto simp: bind_tx_Inr)
  show ?case by (rule adds_dagtasks_step [OF insertTask_adds [OF s1(1)] Cons.IH [OF s1(2)]])
qed

subsection \<open>Dependencies\<close>

text \<open>The rows of \<open>Dependencies\<close> that a list of (task, dependency) pairs gives.\<close>

definition dep_pairs :: "TaskSpec list \<Rightarrow> (TaskSpec \<times> string) list" where
  "dep_pairs ts = concat (map (\<lambda>t. map (\<lambda>d. (t, d)) (ts_RunAfter t)) ts)"

lemma for_tx_append: "for_tx (xs @ ys) f s = bind_tx (for_tx xs f s) (\<lambda>_. for_tx ys f)"
  by (induction xs arbitrary: s) (simp, case_tac "f a s", auto simp: bind_tx_def)

lemma for_dependencies_eq:
  "for_tx ts (\<lambda>t. createDependencyConnection dagID t (getTaskVersion t)) s =
   for_tx (dep_pairs ts) (\<lambda>p. insert_dependency dagID (fst p) (getTaskVersion (fst p)) (snd p)) s"
proof (induction ts arbitrary: s)
  case (Cons t ts)
  have "for_tx (map (\<lambda>d. (t, d)) ds) (\<lambda>p. insert_dependency dagID (fst p) (getTaskVersion (fst p)) (snd p)) s =
        for_tx ds (insert_dependency dagID t (getTaskVersion t)) s" for ds s
    by (induction ds arbitrary: s) (auto simp: bind_tx_def split: sum.splits)
  then show ?case
    using Cons by (simp add: dep_pairs_def for_tx_append createDependencyConnection_def bind_tx_def split: sum.splits)
qed (simp add: dep_pairs_def)

text \<open>A row of \<open>Dependencies\<close> that stands for the pair of a task and a dependency name.\<close>

definition dep_for :: "nat \<Rightarrow> db \<Rightarrow> TaskSpec \<times> string \<Rightarrow> dep_row \<Rightarrow> bool" where
  "dep_for dagID s p r \<longleftrightarrow> (\<exists>k \<in> set (dag_tasks_of dagID s). \<exists>e \<in> set (dag_tasks_of dagID s).
     dk_name k = ts_Name (fst p) \<and> dk_name e = snd p \<and> dp_task_id r = dk_id k \<and> dp_depends_on r = dk_id e)"

lemma insert_dependency_eq:
  assumes "insert_dependency dagID t v d s = Inr ((), s')"
  shows "\<exists>r. dep_for dagID s (t, d) r \<and> s' = s\<lparr>deps := deps s @ [r]\<rparr>"
proof -
  obtain k where k: "query_row (filter (\<lambda>x. dk_dag_id x = dagID \<and> dk_name x = ts_Name t \<and> dk_version x = v) (dagtasks s)) = Some k"
    using assms by (auto simp: insert_dependency_def split: option.splits)
  obtain e where e: "query_row (order_by_desc dk_version (filter (\<lambda>x. dk_dag_id x = dagID \<and> dk_name x = d) (dagtasks s))) = Some e"
    using assms k by (auto simp: insert_dependency_def split: option.splits)
  have "k \<in> set (dag_tasks_of dagID s)" "dk_name k = ts_Name t"
    using query_row_Some_in [OF k] by (auto simp: dag_tasks_of_def)
  moreover have "e \<in> set (dag_tasks_of dagID s)" "dk_name e = d"
    using query_row_order_by_desc(1) [OF e] by (auto simp: dag_tasks_of_def)
  ultimately have "dep_for dagID s (t, d) \<lparr>dp_task_id = dk_id k, dp_depends_on = dk_id e\<rparr>"
    by (auto simp: dep_for_def)
  then show ?thesis using assms k e by (auto simp: insert_dependency_def)
qed

lemma dep_for_deps [simp]: "dep_for dagID (s\<lparr>deps := ds\<rparr>) = dep_for dagID s"
  by (simp add: dep_for_def dag_tasks_of_def fun_eq_iff)

lemma for_insert_dependency_eq:
  assumes "for_tx ps (\<lambda>p. insert_dependency dagID (fst p) (getTaskVersion (fst p)) (snd p)) s = Inr ((), s')"
  shows "\<exists>rows. list_all2 (dep_for dagID s) ps rows \<and> s' = s\<lparr>deps := deps s @ rows\<rparr>"
  using assms
proof (induction ps arbitrary: s)
  case (Cons p ps)
  then obtain s1 where s1: "insert_dependency dagID (fst p) (getTaskVersion (fst p)) (snd p) s = Inr ((), s1)"
    "for_tx ps (\<lambda>p. insert_dependency dagID (fst p) (getTaskVersion (fst p)) (snd p)) s1 = Inr ((), s')"
    by (auto simp: bind_tx_Inr)
  obtain r where r: "dep_for dagID s p r" "s1 = s\<lparr>deps := deps s @ [r]\<rparr>"
    using insert_dependency_eq [OF s1(1)] by auto
  obtain rows where "list_all2 (dep_for dagID s1) ps rows" "s' = s1\<lparr>deps := deps s1 @ rows\<rparr>"
    using Cons.IH [OF s1(2)] by blast
  then show ?case using r by (auto intro!: exI [of _ "r # rows"])
qed simp

lemma for_insertParameter_eq:
  "for_tx ps (insertParameter dagID) s = Inr ((), s') \<Longrightarrow> \<exists>rows. s' = s\<lparr>params := params s @ rows\<rparr>"
proof (induction ps arbitrary: s)
  case (Cons p ps)
  then obtain s1 where s1: "insertParameter dagID p s = Inr ((), s1)" "for_tx ps (insertParameter dagID) s1 = Inr ((), s')"
    by (auto simp: bind_tx_Inr)
  obtain r where r: "s1 = s\<lparr>params := params s @ [r]\<rparr>" using s1(1) by (simp add: insertParameter_def) blast
  obtain rows where "s' = s1\<lparr>params := params s1 @ rows\<rparr>" using Cons.IH [OF s1(2)] by blast
  then show ?case using r by (auto intro!: exI [of _ "r # rows"])
qed (auto intro: exI [of _ "[]"])

subsection \<open>The whole insertion\<close>

lemma insert_dag_row_eq:
  "insert_dag_row row s = Inr (i, s') \<Longrightarrow>
     i = next_dag s \<and> s' = s\<lparr>dags := dags s @ [row\<lparr>dg_id := i\<rparr>], next_dag := Suc i\<rparr> \<and>
     (\<forall>d \<in> set (dags s). \<not> (dg_name d = dg_name row \<and> dg_version d = dg_version row \<and> dg_namespace d = dg_namespace row))"
  by (auto simp: insert_dag_row_def split: if_splits)

text \<open>The states between the five stages of a successful insertion.\<close>

lemma insertDAG_stages:
  assumes "insertDAG uuid cron now dag version namespace hash s = Inr ((), s')"
  obtains nextTime s1 ws s3 s4 where
    "next_time cron now (ds_Schedule (dag_Spec dag)) = Inr nextTime"
    "insert_dag_row (new_dag_row dag version namespace hash nextTime) s = Inr (next_dag s, s1)"
    "for_tx (ds_Task (dag_Spec dag)) (\<lambda>t. insertTask uuid (next_dag s) t namespace (getTaskVersion t))
       (s1\<lparr>workspaces := ws\<rparr>) = Inr ((), s3)"
    "for_tx (ds_Task (dag_Spec dag)) (\<lambda>t. createDependencyConnection (next_dag s) t (getTaskVersion t)) s3 = Inr ((), s4)"
    "for_tx (ds_Parameters (dag_Spec dag)) (insertParameter (next_dag s)) s4 = Inr ((), s')"
proof -
  obtain nextTime where nt: "next_time cron now (ds_Schedule (dag_Spec dag)) = Inr nextTime"
    using assms by (auto simp: insertDAG_def Let_def split: sum.splits)
  obtain s1 where s1: "insert_dag_row (new_dag_row dag version namespace hash nextTime) s = Inr (next_dag s, s1)"
    using assms nt by (auto simp: insertDAG_def Let_def bind_tx_Inr dest: insert_dag_row_eq)
  let ?w = "if ws_Enabled (ds_Workspace (dag_Spec dag))
            then insertWorkspace (next_dag s) (ws_PvcSpec (ds_Workspace (dag_Spec dag))) s1 else Inr ((), s1)"
  obtain s2 s3 s4 where s2: "?w = Inr ((), s2)"
    and s3: "for_tx (ds_Task (dag_Spec dag)) (\<lambda>t. insertTask uuid (next_dag s) t namespace (getTaskVersion t)) s2 = Inr ((), s3)"
    and s4: "for_tx (ds_Task (dag_Spec dag)) (\<lambda>t. createDependencyConnection (next_dag s) t (getTaskVersion t)) s3 = Inr ((), s4)"
    and s5: "for_tx (ds_Parameters (dag_Spec dag)) (insertParameter (next_dag s)) s4 = Inr ((), s')"
    using assms nt s1 by (auto simp: insertDAG_def Let_def bind_tx_Inr)
  have "s2 = s1\<lparr>workspaces := workspaces s2\<rparr>" using s2 by (auto simp: insertWorkspace_def split: if_splits)
  then show thesis using that [OF nt s1 _ s4 s5, of "workspaces s2"] s3 by simp
qed

lemma insertDAG_effect:
  assumes "insertDAG uuid cron now dag version namespace hash s = Inr ((), s')"
  obtains nextTime rows drows where
    "next_time cron now (ds_Schedule (dag_Spec dag)) = Inr nextTime"
    "dags s' = dags s @ [(new_dag_row dag version namespace hash nextTime)\<lparr>dg_id := next_dag s\<rparr>]"
    "next_dag s' = Suc (next_dag s)"
    "dagtasks s' = dagtasks s @ rows"
    "map (\<lambda>k. (dk_dag_id k, dk_name k, dk_version k)) rows =
       map (\<lambda>t. (next_dag s, ts_Name t, getTaskVersion t)) (ds_Task (dag_Spec dag))"
    "map dk_id rows = [next_dagtask s..<next_dagtask s + length (ds_Task (dag_Spec dag))]"
    "next_dagtask s' = next_dagtask s + length (ds_Task (dag_Spec dag))"
    "deps s' = deps s @ drows"
    "list_all2 (dep_for (next_dag s) s') (dep_pairs (ds_Task (dag_Spec dag))) drows"
    "runs s' = runs s" "taskruns s' = taskruns s" "next_run s' = next_run s" "next_taskrun s' = next_taskrun s"
    "\<forall>d \<in> set (dags s). \<not> (dg_name d = dag_Name dag \<and> dg_version d = version \<and> dg_namespace d = namespace)"
proof -
  let ?ts = "ds_Task (dag_Spec dag)"
  obtain nextTime s1 ws s3 s4 where nt: "next_time cron now (ds_Schedule (dag_Spec dag)) = Inr nextTime"
    and s1: "insert_dag_row (new_dag_row dag version namespace hash nextTime) s = Inr (next_dag s, s1)"
    and s3: "for_tx ?ts (\<lambda>t. insertTask uuid (next_dag s) t namespace (getTaskVersion t)) (s1\<lparr>workspaces := ws\<rparr>) = Inr ((), s3)"
    and s4: "for_tx ?ts (\<lambda>t. createDependencyConnection (next_dag s) t (getTaskVersion t)) s3 = Inr ((), s4)"
    and s5: "for_tx (ds_Parameters (dag_Spec dag)) (insertParameter (next_dag s)) s4 = Inr ((), s')"
    by (rule insertDAG_stages [OF assms])
  note row = insert_dag_row_eq [OF s1]
  obtain drows where drows: "list_all2 (dep_for (next_dag s) s3) (dep_pairs ?ts) drows" "s4 = s3\<lparr>deps := deps s3 @ drows\<rparr>"
    using for_insert_dependency_eq [OF s4 [unfolded for_dependencies_eq]] by blast
  obtain prows where p: "s' = s4\<lparr>params := params s4 @ prows\<rparr>" using for_insertParameter_eq [OF s5] by blast
  have df: "dep_for (next_dag s) s' = dep_for (next_dag s) s3"
    unfolding p drows(2) by (simp add: dep_for_def dag_tasks_of_def fun_eq_iff)
  note adds = for_insertTask_adds [OF s3, unfolded adds_dagtasks_def]
  obtain rows where rows: "dagtasks s3 = dagtasks s @ rows"
    "map (\<lambda>k. (dk_dag_id k, dk_name k, dk_version k)) rows = map (\<lambda>t. (next_dag s, ts_Name t, getTaskVersion t)) ?ts"
    "map dk_id rows = [next_dagtask s..<next_dagtask s + length ?ts]"
    using adds row by auto
  show thesis
    by (rule that [of nextTime rows drows])
      (use adds rows row drows p nt df in \<open>simp_all add: new_dag_row_def\<close>)
qed

text \<open>The stored graph is the graph of the specification.\<close>

lemma insertDAG_graph:
  assumes ok: "keys_ok s" "refs_ok s"
    and ins: "insertDAG uuid cron now dag version namespace hash s = Inr ((), s')"
  shows "named_deps (next_dag s) s' = dep_rel (ds_Task (dag_Spec dag))"
    and "map dk_name (dag_tasks_of (next_dag s) s') = map ts_Name (ds_Task (dag_Spec dag))"
proof -
  let ?ts = "ds_Task (dag_Spec dag)"
  obtain rows drows where dt: "dagtasks s' = dagtasks s @ rows"
    and names: "map (\<lambda>k. (dk_dag_id k, dk_name k, dk_version k)) rows = map (\<lambda>t. (next_dag s, ts_Name t, getTaskVersion t)) ?ts"
    and ids: "map dk_id rows = [next_dagtask s..<next_dagtask s + length ?ts]"
    and dp: "deps s' = deps s @ drows" and la: "list_all2 (dep_for (next_dag s) s') (dep_pairs ?ts) drows"
    by (rule insertDAG_effect [OF ins]) blast
  have "map dk_dag_id rows = map (\<lambda>_. next_dag s) ?ts" using arg_cong [OF names, of "map fst"] by (simp add: comp_def)
  then have new: "\<forall>k \<in> set rows. dk_dag_id k = next_dag s"
    by (metis (no_types, lifting) image_iff list.set_map)
  have "\<forall>k \<in> set (dagtasks s). dk_dag_id k \<noteq> next_dag s" using ok(2) by (auto simp: refs_ok_def)
  then have of: "dag_tasks_of (next_dag s) s' = rows"
    using new by (simp add: dag_tasks_of_def dt filter_id_conv filter_empty_conv)
  have "map dk_name rows = map ts_Name ?ts" using arg_cong [OF names, of "map (fst \<circ> snd)"] by (simp add: comp_def)
  then show "map dk_name (dag_tasks_of (next_dag s) s') = map ts_Name ?ts" by (simp add: of)
  have old: "dp_task_id d \<noteq> dk_id k" if "d \<in> set (deps s)" "k \<in> set rows" for d k
  proof -
    have "dk_id k \<in> set [next_dagtask s..<next_dagtask s + length ?ts]" using that(2) by (metis ids image_eqI list.set_map)
    then show ?thesis using that(1) ok(2) by (auto simp: refs_ok_def)
  qed
  have dist: "distinct (map dk_id (dagtasks s'))"
    using ok(1) by (auto simp: dt ids keys_ok_def dagtask_keys_def)
  have uniq: "k = k'" if "k \<in> set (dagtasks s')" "k' \<in> set (dagtasks s')" "dk_id k = dk_id k'" for k k'
    using dist that by (meson distinct_map inj_onD)
  show "named_deps (next_dag s) s' = dep_rel ?ts"
  proof (intro set_eqI iffI)
    fix x assume "x \<in> named_deps (next_dag s) s'"
    then obtain d k e where x: "x = (dk_name k, dk_name e)" "d \<in> set (deps s')" "k \<in> set (dagtasks s')"
      "e \<in> set (dagtasks s')" "dk_id k = dp_task_id d" "dk_id e = dp_depends_on d" "dk_dag_id k = next_dag s"
      by (auto simp: named_deps_def)
    have "k \<in> set rows" using x(3,7) of by (auto simp: dag_tasks_of_def)
    then have "d \<in> set drows" using x(2,5) old [of d k] by (auto simp: dp)
    then obtain p where p: "p \<in> set (dep_pairs ?ts)" "dep_for (next_dag s) s' p d"
      using list_all2_right [OF la] by blast
    then obtain k' e' where "k' \<in> set (dagtasks s')" "e' \<in> set (dagtasks s')" "dk_name k' = ts_Name (fst p)"
      "dk_name e' = snd p" "dp_task_id d = dk_id k'" "dp_depends_on d = dk_id e'"
      by (auto simp: dep_for_def dag_tasks_of_def)
    then have "x = (ts_Name (fst p), snd p)" using x uniq by metis
    then show "x \<in> dep_rel ?ts" using p(1) by (auto simp: dep_pairs_def dep_rel_iff)
  next
    fix x assume "x \<in> dep_rel ?ts"
    then obtain t d where t: "x = (ts_Name t, d)" "(t, d) \<in> set (dep_pairs ?ts)"
      by (cases x) (auto simp: dep_rel_iff dep_pairs_def)
    then obtain r where "r \<in> set drows" "dep_for (next_dag s) s' (t, d) r"
      using list_all2_left [OF la] by blast
    then obtain k e where ke: "r \<in> set (deps s')" "k \<in> set (dagtasks s')" "e \<in> set (dagtasks s')"
      "dk_dag_id k = next_dag s" "dk_name k = ts_Name t" "dk_name e = d" "dk_id k = dp_task_id r" "dk_id e = dp_depends_on r"
      by (auto simp: dep_for_def dag_tasks_of_def dp)
    then have "(dk_name k, dk_name e) \<in> named_deps (next_dag s) s'" unfolding named_deps_def by blast
    then show "x \<in> named_deps (next_dag s) s'" using t(1) ke by simp
  qed
qed

section \<open>Versions\<close>

text \<open>A version is active exactly when it is the highest of its name and namespace.\<close>

definition active_ok :: "db \<Rightarrow> bool" where
  "active_ok s \<longleftrightarrow> (\<forall>d \<in> set (dags s). dg_active d \<longleftrightarrow>
     (\<forall>e \<in> set (dags s). dg_name e = dg_name d \<and> dg_namespace e = dg_namespace d \<longrightarrow> dg_version e \<le> dg_version d))"

definition dag_inv :: "db \<Rightarrow> bool" where
  "dag_inv s \<longleftrightarrow> keys_ok s \<and> refs_ok s \<and> active_ok s"

lemma latest_dag_None:
  "latest_dag name namespace s = None \<longleftrightarrow> (\<forall>d \<in> set (dags s). \<not> (dg_name d = name \<and> dg_namespace d = namespace))"
  by (auto simp: latest_dag_def filter_empty_conv)

lemma latest_dag_Some:
  assumes "latest_dag name namespace s = Some d"
  shows "d \<in> set (dags s)" "dg_name d = name" "dg_namespace d = namespace"
    "\<And>e. e \<in> set (dags s) \<Longrightarrow> dg_name e = name \<Longrightarrow> dg_namespace e = namespace \<Longrightarrow> dg_version e \<le> dg_version d"
  using query_row_order_by_desc [OF assms [unfolded latest_dag_def]] by auto

text \<open>The hash \<open>InsertDAG\<close> compares with: that of the latest version, or the empty string.\<close>

definition stored_hash :: "string \<Rightarrow> string \<Rightarrow> db \<Rightarrow> string" where
  "stored_hash name namespace s = (case latest_dag name namespace s of None \<Rightarrow> '''' | Some d \<Rightarrow> dg_hash d)"

text \<open>The three ways \<open>InsertDAG\<close> can go.\<close>

lemma InsertDAG_cases:
  obtains (failed) e where "InsertDAG digest uuid cron now dag namespace s = (Inl e, s)"
  | (toggled) "InsertDAG digest uuid cron now dag namespace s =
         (Inr (), setSuspended (dag_Name dag) namespace (ds_Suspended (dag_Spec dag)) s)"
      "stored_hash (dag_Name dag) namespace s = hashDagSpec digest (dag_Spec dag)"
  | (inserted) version s1 where
      "InsertDAG digest uuid cron now dag namespace s = (Inr (), setInactive (dag_Name dag) namespace (version - 1) s1)"
      "insertDAG uuid cron now dag version namespace (hashDagSpec digest (dag_Spec dag)) s = Inr ((), s1)"
      "version = (case latest_dag (dag_Name dag) namespace s of None \<Rightarrow> 0
                  | Some d \<Rightarrow> if dg_id d \<noteq> 0 then dg_version d + 1 else dg_version d)"
proof (cases "InsertDAG_tx digest uuid cron now dag namespace s")
  case (Inl e)
  then show thesis using failed by (simp add: InsertDAG_def withTx_def)
next
  case (Inr r)
  obtain s' where r: "InsertDAG_tx digest uuid cron now dag namespace s = Inr ((), s')" using Inr by (cases r) simp
  then have ins: "InsertDAG digest uuid cron now dag namespace s = (Inr (), s')" by (simp add: InsertDAG_def withTx_def)
  show thesis
  proof (cases "latest_dag (dag_Name dag) namespace s")
    case None
    show thesis
      using r ins None toggled inserted [of 0]
      by (auto simp: InsertDAG_tx_def bind_tx_Inr Let_def stored_hash_def split: if_splits)
  next
    case (Some d)
    show thesis
      using r ins Some toggled inserted [of "if dg_id d \<noteq> 0 then dg_version d + 1 else dg_version d"]
      by (auto simp: InsertDAG_tx_def bind_tx_Inr Let_def stored_hash_def split: if_splits)
  qed
qed

lemma active_ok_cong:
  assumes "map (\<lambda>d. (dg_name d, dg_namespace d, dg_version d, dg_active d)) (dags s') =
           map (\<lambda>d. (dg_name d, dg_namespace d, dg_version d, dg_active d)) (dags s)"
  shows "active_ok s' = active_ok s"
proof -
  have eq: "active_ok t \<longleftrightarrow>
    (\<forall>x \<in> set (map (\<lambda>d. (dg_name d, dg_namespace d, dg_version d, dg_active d)) (dags t)).
     snd (snd (snd x)) \<longleftrightarrow>
      (\<forall>y \<in> set (map (\<lambda>d. (dg_name d, dg_namespace d, dg_version d, dg_active d)) (dags t)).
         fst y = fst x \<and> fst (snd y) = fst (snd x) \<longrightarrow> fst (snd (snd y)) \<le> fst (snd (snd x))))" for t
    by (simp add: active_ok_def)
  show ?thesis unfolding eq assms by (rule refl)
qed

lemma setSuspended_active [simp]: "active_ok (setSuspended n m b s) = active_ok s"
  by (rule active_ok_cong) (simp add: setSuspended_def map_update_where)

lemma keys_ok_dags:
  assumes "map dg_id ds = map dg_id (dags s)"
  shows "keys_ok (s\<lparr>dags := ds\<rparr>) = keys_ok s"
proof -
  have "dg_id ` set ds = dg_id ` set (dags s)" using assms by (metis list.set_map)
  then have "(\<forall>d \<in> set ds. 0 < dg_id d \<and> dg_id d < next_dag s) \<longleftrightarrow>
      (\<forall>d \<in> set (dags s). 0 < dg_id d \<and> dg_id d < next_dag s)"
    by (metis (mono_tags, lifting) image_iff)
  then show ?thesis by (simp add: keys_ok_def keys_defs assms)
qed

lemma setSuspended_keys [simp]: "keys_ok (setSuspended n m b s) = keys_ok s" "refs_ok (setSuspended n m b s) = refs_ok s"
  unfolding setSuspended_def by (rule keys_ok_dags, simp add: map_update_where) (simp add: refs_ok_def)

lemma setInactive_keys [simp]: "keys_ok (setInactive n m v s) = keys_ok s" "refs_ok (setInactive n m v s) = refs_ok s"
  unfolding setInactive_def by (rule keys_ok_dags, simp add: map_update_where) (simp add: refs_ok_def)

lemma insert_task_row_keys: "insert_task_row row s = Inr (i, s') \<Longrightarrow> task_keys s \<Longrightarrow> task_keys s'"
  by (drule insert_task_row_eq) (auto simp: task_keys_def less_Suc_eq)

lemma insert_dagtask_row_keys: "insert_dagtask_row a b c d s = Inr ((), s') \<Longrightarrow> task_keys s \<Longrightarrow> task_keys s'"
  by (auto simp: insert_dagtask_row_def task_keys_def)

lemma insertTask_task_keys:
  "insertTask uuid dagID t namespace v s = Inr ((), s') \<Longrightarrow> task_keys s \<Longrightarrow> task_keys s'"
  by (auto simp: insertTask_def bind_tx_Inr split: option.splits dest: insert_task_row_keys insert_dagtask_row_keys)

lemma insertDAG_task_keys:
  assumes "insertDAG uuid cron now dag version namespace hash s = Inr ((), s')" "task_keys s"
  shows "task_keys s'"
proof -
  obtain nextTime s1 ws s3 s4 where
    s1: "insert_dag_row (new_dag_row dag version namespace hash nextTime) s = Inr (next_dag s, s1)"
    and s3: "for_tx (ds_Task (dag_Spec dag)) (\<lambda>t. insertTask uuid (next_dag s) t namespace (getTaskVersion t))
       (s1\<lparr>workspaces := ws\<rparr>) = Inr ((), s3)"
    and s4: "for_tx (ds_Task (dag_Spec dag)) (\<lambda>t. createDependencyConnection (next_dag s) t (getTaskVersion t)) s3 = Inr ((), s4)"
    and s5: "for_tx (ds_Parameters (dag_Spec dag)) (insertParameter (next_dag s)) s4 = Inr ((), s')"
    by (rule insertDAG_stages [OF assms(1)])
  have "task_keys (s1\<lparr>workspaces := ws\<rparr>)" using assms(2) insert_dag_row_eq [OF s1] by (auto simp: task_keys_def)
  then have "task_keys s3" by (rule for_tx_preserves [OF s3]) (rule insertTask_task_keys)
  moreover obtain rows where "s4 = s3\<lparr>deps := deps s3 @ rows\<rparr>"
    using for_insert_dependency_eq [OF s4 [unfolded for_dependencies_eq]] by blast
  moreover obtain prows where "s' = s4\<lparr>params := params s4 @ prows\<rparr>" using for_insertParameter_eq [OF s5] by blast
  ultimately show ?thesis by (simp add: task_keys_def)
qed

lemma insertDAG_keys:
  assumes "insertDAG uuid cron now dag version namespace hash s = Inr ((), s')" "keys_ok s" "refs_ok s"
  shows "keys_ok s' \<and> refs_ok s'"
proof -
  let ?n = "length (ds_Task (dag_Spec dag))"
  obtain row rows drows where
    dg: "dags s' = dags s @ [row]" "dg_id row = next_dag s" "next_dag s' = Suc (next_dag s)"
    and dt: "dagtasks s' = dagtasks s @ rows"
    and names: "map (\<lambda>k. (dk_dag_id k, dk_name k, dk_version k)) rows =
       map (\<lambda>t. (next_dag s, ts_Name t, getTaskVersion t)) (ds_Task (dag_Spec dag))"
    and ids: "map dk_id rows = [next_dagtask s..<next_dagtask s + ?n]" "next_dagtask s' = next_dagtask s + ?n"
    and dp: "deps s' = deps s @ drows" and la: "list_all2 (dep_for (next_dag s) s') (dep_pairs (ds_Task (dag_Spec dag))) drows"
    and rest: "runs s' = runs s" "taskruns s' = taskruns s" "next_run s' = next_run s" "next_taskrun s' = next_taskrun s"
    by (rule insertDAG_effect [OF assms(1)]) auto
  have rid: "dk_id k < next_dagtask s'" if "k \<in> set rows" for k
  proof -
    have "dk_id k \<in> set (map dk_id rows)" using that by simp
    then show ?thesis unfolding ids by simp
  qed
  have "map dk_dag_id rows = map (\<lambda>_. next_dag s) (ds_Task (dag_Spec dag))"
    using arg_cong [OF names, of "map fst"] by (simp add: comp_def)
  then have rdag: "\<forall>k \<in> set rows. dk_dag_id k = next_dag s" by (metis (no_types, lifting) image_iff list.set_map)
  have all: "dk_id k < next_dagtask s'" if "k \<in> set (dagtasks s')" for k
    using that rid assms(2) ids(2) by (auto simp: dt keys_ok_def dagtask_keys_def)
  have "dp_task_id d < next_dagtask s' \<and> dp_depends_on d < next_dagtask s'" if "d \<in> set drows" for d
  proof -
    have "\<exists>p \<in> set (dep_pairs (ds_Task (dag_Spec dag))). dep_for (next_dag s) s' p d"
      by (rule list_all2_right [OF la that])
    then show ?thesis using all by (auto simp: dep_for_def dag_tasks_of_def)
  qed
  moreover have "dk_dag_id k < next_dag s'" if "k \<in> set (dagtasks s')" for k
    using that assms(3) rdag dg(3) by (auto simp: dt refs_ok_def)
  moreover have "dp_task_id d < next_dagtask s' \<and> dp_depends_on d < next_dagtask s'" if "d \<in> set (deps s)" for d
    using that assms(3) ids(2) by (auto simp: refs_ok_def)
  ultimately have "refs_ok s'" unfolding refs_ok_def dp set_append by blast
  moreover have "distinct (map dk_id (dagtasks s'))"
    using assms(2) by (auto simp: dt ids keys_ok_def dagtask_keys_def)
  then have "keys_ok s'"
    using assms(2) insertDAG_task_keys [OF assms(1)] all dg rest
    by (auto simp: keys_ok_def dag_keys_def dagtask_keys_def run_keys_def less_Suc_eq)
  ultimately show ?thesis by blast
qed

text \<open>The rows after a new version: the old rows, the previous one switched off, and the new one.\<close>

lemma set_setInactive:
  "set (dags (setInactive n m v s)) =
     {d \<in> set (dags s). \<not> (dg_name d = n \<and> dg_namespace d = m \<and> dg_version d = v)} \<union>
     (\<lambda>d. d\<lparr>dg_active := False\<rparr>) ` {d \<in> set (dags s). dg_name d = n \<and> dg_namespace d = m \<and> dg_version d = v}"
  by (simp add: setInactive_def set_update_where)

lemma insert_version_active:
  assumes act: "active_ok s"
    and dags: "dags s1 = dags s @ [row]" and row: "dg_active row" "dg_name row = n" "dg_namespace row = m" "dg_version row = v"
    and below: "\<forall>d \<in> set (dags s). dg_name d = n \<and> dg_namespace d = m \<longrightarrow> dg_version d < v"
    and prev: "\<forall>d \<in> set (dags s). dg_name d = n \<and> dg_namespace d = m \<and> dg_active d \<longrightarrow> dg_version d = v - 1"
  shows "active_ok (setInactive n m (v - 1) s1)"
proof -
  let ?old = "\<lambda>d. dg_name d = n \<and> dg_namespace d = m \<and> dg_version d = v - 1"
  let ?f = "\<lambda>d. if ?old d then d\<lparr>dg_active := False\<rparr> else d"
  have D: "set (dags (setInactive n m (v - 1) s1)) = insert row (?f ` set (dags s))"
    using row by (auto simp: setInactive_def update_where_def dags)
  have key: "dg_name (?f d) = dg_name d" "dg_namespace (?f d) = dg_namespace d" "dg_version (?f d) = dg_version d" for d
    by simp_all
  have mx: "(\<forall>e \<in> insert row (?f ` set (dags s)). dg_name e = dg_name d \<and> dg_namespace e = dg_namespace d \<longrightarrow> dg_version e \<le> dg_version d)
    \<longleftrightarrow> \<not> (dg_name d = n \<and> dg_namespace d = m) \<and> dg_active d" if "d \<in> set (dags s)" for d
  proof (cases "dg_name d = n \<and> dg_namespace d = m")
    case True
    then have "dg_version d < v" using below that by blast
    then show ?thesis using True row by force
  next
    case False
    then have "(\<forall>e \<in> insert row (?f ` set (dags s)). dg_name e = dg_name d \<and> dg_namespace e = dg_namespace d \<longrightarrow> dg_version e \<le> dg_version d)
      \<longleftrightarrow> (\<forall>e \<in> set (dags s). dg_name e = dg_name d \<and> dg_namespace e = dg_namespace d \<longrightarrow> dg_version e \<le> dg_version d)"
      using row key by auto
    then show ?thesis using False act that by (simp add: active_ok_def)
  qed
  have act': "dg_active (?f d) \<longleftrightarrow> \<not> (dg_name d = n \<and> dg_namespace d = m) \<and> dg_active d" if "d \<in> set (dags s)" for d
    using that prev by auto
  have new: "\<forall>e \<in> insert row (?f ` set (dags s)). dg_name e = dg_name row \<and> dg_namespace e = dg_namespace row \<longrightarrow> dg_version e \<le> dg_version row"
    using below row key by auto
  show ?thesis
    unfolding active_ok_def D
  proof
    fix d assume "d \<in> insert row (?f ` set (dags s))"
    then consider "d = row" | x where "x \<in> set (dags s)" "d = ?f x" by blast
    then show "dg_active d \<longleftrightarrow> (\<forall>e \<in> insert row (?f ` set (dags s)).
        dg_name e = dg_name d \<and> dg_namespace e = dg_namespace d \<longrightarrow> dg_version e \<le> dg_version d)"
    proof cases
      case 1
      then show ?thesis using new row(1) by blast
    next
      case 2
      show ?thesis unfolding 2(2) key act' [OF 2(1)] mx [OF 2(1)] by (rule refl)
    qed
  qed
qed

lemma dag_inv_InsertDAG:
  assumes inv: "dag_inv s"
  shows "dag_inv (snd (InsertDAG digest uuid cron now dag namespace s))"
proof (rule InsertDAG_cases [of digest uuid cron now dag namespace s])
  fix e assume "InsertDAG digest uuid cron now dag namespace s = (Inl e, s)"
  then show ?thesis using inv by simp
next
  assume "InsertDAG digest uuid cron now dag namespace s =
    (Inr (), setSuspended (dag_Name dag) namespace (ds_Suspended (dag_Spec dag)) s)"
  then show ?thesis using inv by (simp add: dag_inv_def)
next
  fix version s1
  assume ins: "InsertDAG digest uuid cron now dag namespace s = (Inr (), setInactive (dag_Name dag) namespace (version - 1) s1)"
    and s1: "insertDAG uuid cron now dag version namespace (hashDagSpec digest (dag_Spec dag)) s = Inr ((), s1)"
    and version: "version = (case latest_dag (dag_Name dag) namespace s of None \<Rightarrow> 0
                  | Some d \<Rightarrow> if dg_id d \<noteq> 0 then dg_version d + 1 else dg_version d)"
  obtain row where row: "dags s1 = dags s @ [row]" "dg_active row" "dg_name row = dag_Name dag"
    "dg_namespace row = namespace" "dg_version row = version"
    by (rule insertDAG_effect [OF s1]) (auto simp: new_dag_row_def)
  have "\<forall>d \<in> set (dags s). dg_name d = dag_Name dag \<and> dg_namespace d = namespace \<longrightarrow>
      dg_version d < version \<and> (dg_active d \<longrightarrow> dg_version d = version - 1)"
  proof (cases "latest_dag (dag_Name dag) namespace s")
    case None
    then show ?thesis by (auto simp: latest_dag_None)
  next
    case (Some l)
    note l = latest_dag_Some [OF Some]
    have "dg_id l \<noteq> 0" using inv l(1) by (auto simp: dag_inv_def keys_ok_def dag_keys_def)
    then have v: "version = dg_version l + 1" using version Some by simp
    show ?thesis
    proof (intro ballI impI conjI)
      fix d assume d: "d \<in> set (dags s)" "dg_name d = dag_Name dag \<and> dg_namespace d = namespace"
      then have le: "dg_version d \<le> dg_version l" using l(4) by blast
      then show "dg_version d < version" using v by simp
      assume "dg_active d"
      then have "dg_version l \<le> dg_version d"
        using inv d l(1-3) unfolding dag_inv_def active_ok_def by metis
      then show "dg_version d = version - 1" using le v by simp
    qed
  qed
  then have "active_ok (setInactive (dag_Name dag) namespace (version - 1) s1)"
    by (intro insert_version_active [of s s1 row]) (use inv row in \<open>auto simp: dag_inv_def\<close>)
  then show ?thesis
    using insertDAG_keys [OF s1] inv by (simp add: ins dag_inv_def)
qed

subsection \<open>The other operations\<close>

lemma dag_inv_DeleteDAG: "dag_inv s \<Longrightarrow> dag_inv (snd (DeleteDAG name namespace s))"
  unfolding dag_inv_def
proof (intro conjI; elim conjE)
  assume "active_ok s"
  then show "active_ok (snd (DeleteDAG name namespace s))"
    by (auto simp: active_ok_def DeleteDAG_def Let_def)
qed (auto simp: keys_ok_def keys_defs refs_ok_def DeleteDAG_def Let_def distinct_map_delete_where)

lemma AddTask_tx_row:
  "AddTask_tx digest name spec namespace s = Inr ((), s') \<Longrightarrow> \<exists>row i. insert_task_row row s = Inr (i, s')"
  by (auto simp: AddTask_tx_def Let_def bind_tx_Inr split: prod.splits if_splits)

lemma dag_inv_task_row:
  assumes row: "insert_task_row row s = Inr (i, s')" and inv: "dag_inv s"
  shows "dag_inv s'"
proof -
  have "task_keys s'" using insert_task_row_keys [OF row] inv by (simp add: dag_inv_def keys_ok_def)
  then show ?thesis
    using insert_task_row_eq [OF row] inv
    by (simp add: dag_inv_def keys_ok_def dag_keys_def dagtask_keys_def run_keys_def refs_ok_def active_ok_def)
qed

lemma dag_inv_AddTask:
  assumes "dag_inv s"
  shows "dag_inv (snd (AddTask digest name spec namespace s))"
proof (cases "AddTask_tx digest name spec namespace s")
  case (Inl e)
  then show ?thesis using assms by (simp add: AddTask_def withTx_def)
next
  case (Inr r)
  then obtain s' where "AddTask_tx digest name spec namespace s = Inr ((), s')" by (cases r) simp
  then show ?thesis using AddTask_tx_row dag_inv_task_row assms by (fastforce simp: AddTask_def withTx_def)
qed

lemma dag_inv_DeleteTask: "dag_inv s \<Longrightarrow> dag_inv (snd (DeleteTask name namespace s))"
  by (auto simp: DeleteTask_def dag_inv_def keys_ok_def keys_defs refs_ok_def active_ok_def distinct_map_delete_where)

lemma dag_inv_advance:
  "advance cron now ds s = Inr ((), s') \<Longrightarrow> dag_inv s \<Longrightarrow> dag_inv s'"
proof (induction ds arbitrary: s)
  case (Cons d ds)
  obtain nxt where nxt: "cron (dg_schedule d) = Inr nxt" using Cons.prems(1) by (cases "cron (dg_schedule d)") auto
  let ?s = "s\<lparr>dags := update_where (\<lambda>x. dg_id x = dg_id d) (\<lambda>x. x\<lparr>dg_nexttime := Some (nxt now)\<rparr>) (dags s)\<rparr>"
  have "keys_ok ?s = keys_ok s" by (rule keys_ok_dags) (simp add: map_update_where)
  moreover have "active_ok ?s = active_ok s" by (rule active_ok_cong) (simp add: map_update_where)
  moreover have "refs_ok ?s = refs_ok s" by (simp add: refs_ok_def)
  ultimately have "dag_inv ?s" using Cons.prems(2) by (simp add: dag_inv_def)
  then show ?case using Cons.IH [of ?s] Cons.prems(1) nxt by simp
qed simp

lemma dag_inv_GetDAGs: "dag_inv s \<Longrightarrow> dag_inv (snd (GetDAGsToStartAndUpdate cron due now s))"
  by (auto simp: GetDAGsToStartAndUpdate_def withTx_def bind_tx_def split: sum.splits dest: dag_inv_advance)

text \<open>The databases the operations on definitions can produce from an empty one.\<close>

inductive dag_reachable :: "db \<Rightarrow> bool" where
  start: "dag_reachable empty_db"
| insert: "dag_reachable s \<Longrightarrow> dag_reachable (snd (InsertDAG digest uuid cron now dag namespace s))"
| delete: "dag_reachable s \<Longrightarrow> dag_reachable (snd (DeleteDAG name namespace s))"
| add_task: "dag_reachable s \<Longrightarrow> dag_reachable (snd (AddTask tdigest name spec namespace s))"
| delete_task: "dag_reachable s \<Longrightarrow> dag_reachable (snd (DeleteTask name namespace s))"
| due: "dag_reachable s \<Longrightarrow> dag_reachable (snd (GetDAGsToStartAndUpdate cron is_due now s))"

lemma dag_inv_empty: "dag_inv empty_db"
  by (simp add: dag_inv_def) (simp add: refs_ok_def active_ok_def empty_db_def)

lemma dag_inv_reachable: "dag_reachable s \<Longrightarrow> dag_inv s"
  by (induction rule: dag_reachable.induct)
    (simp_all add: dag_inv_empty dag_inv_InsertDAG dag_inv_DeleteDAG dag_inv_AddTask dag_inv_DeleteTask dag_inv_GetDAGs)

text \<open>
  (C6) One version runs: after any sequence of insertions, deletions, task changes and scheduler passes, a stored version of
  a DAG is active exactly when no version of the same name and namespace is higher.
\<close>

theorem active_is_latest:
  assumes "dag_reachable s" "d \<in> set (dags s)"
  shows "dg_active d \<longleftrightarrow>
    (\<forall>e \<in> set (dags s). dg_name e = dg_name d \<and> dg_namespace e = dg_namespace d \<longrightarrow> dg_version e \<le> dg_version d)"
  using dag_inv_reachable [OF assms(1)] assms(2) by (simp add: dag_inv_def active_ok_def)

lemma InsertDAG_graph:
  assumes inv: "keys_ok s" "refs_ok s" and "InsertDAG digest uuid cron now dag namespace s = (Inr (), s')"
    and "next_dag s' \<noteq> next_dag s"
  shows "named_deps (next_dag s) s' = dep_rel (ds_Task (dag_Spec dag)) \<and>
         map dk_name (dag_tasks_of (next_dag s) s') = map ts_Name (ds_Task (dag_Spec dag))"
proof (rule InsertDAG_cases [of digest uuid cron now dag namespace s])
  fix e assume "InsertDAG digest uuid cron now dag namespace s = (Inl e, s)"
  then show ?thesis using assms(3) by simp
next
  assume "InsertDAG digest uuid cron now dag namespace s =
    (Inr (), setSuspended (dag_Name dag) namespace (ds_Suspended (dag_Spec dag)) s)"
  then show ?thesis using assms(3,4) by (auto simp: setSuspended_def)
next
  fix version s1
  assume ins: "InsertDAG digest uuid cron now dag namespace s = (Inr (), setInactive (dag_Name dag) namespace (version - 1) s1)"
    and s1: "insertDAG uuid cron now dag version namespace (hashDagSpec digest (dag_Spec dag)) s = Inr ((), s1)"
  have "named_deps i (setInactive n m v s1) = named_deps i s1" "dag_tasks_of i (setInactive n m v s1) = dag_tasks_of i s1" for i n m v
    by (simp_all add: named_deps_def dag_tasks_of_def setInactive_def)
  then show ?thesis using insertDAG_graph [OF inv s1] ins assms(3) by simp
qed

text \<open>The tasks of a new version refer to stored task rows.\<close>

definition tasks_exist :: "nat \<Rightarrow> db \<Rightarrow> bool" where
  "tasks_exist dagID s \<longleftrightarrow> (\<forall>k \<in> set (dagtasks s). dk_dag_id k = dagID \<longrightarrow> dk_task_id k \<in> tk_id ` set (tasks s))"

lemma tasks_exist_row:
  assumes "insert_dagtask_row dagID i name v s = Inr ((), s')" "tasks_exist dagID s" "i \<in> tk_id ` set (tasks s)"
  shows "tasks_exist dagID s'"
  using assms(2,3) assms(1) [symmetric] by (simp add: insert_dagtask_row_def tasks_exist_def)

lemma insertTask_tasks_exist:
  assumes "insertTask uuid dagID t namespace v s = Inr ((), s')" "tasks_exist dagID s"
  shows "tasks_exist dagID s'"
proof (cases "ts_TaskRef t")
  case None
  with assms(1) obtain i s1 where s1: "insert_task_row (inline_row uuid s t namespace v) s = Inr (i, s1)" "insert_dagtask_row dagID i (ts_Name t) v s1 = Inr ((), s')"
    by (auto simp: insertTask_def bind_tx_Inr)
  then have "tasks_exist dagID s1" "i \<in> tk_id ` set (tasks s1)"
    using assms(2) by (auto simp: insert_task_row_def tasks_exist_def split: if_splits)
  with s1(2) show ?thesis by (rule tasks_exist_row)
next
  case (Some ref)
  with assms(1) obtain row where "row \<in> set (tasks s)" "insert_dagtask_row dagID (tk_id row) (ts_Name t) v s = Inr ((), s')"
    by (auto simp: insertTask_def split: option.splits dest!: query_row_Some_in)
  with assms(2) show ?thesis using tasks_exist_row by blast
qed

lemma insertDAG_tasks_exist:
  assumes "refs_ok s" "insertDAG uuid cron now dag version namespace hash s = Inr ((), s')"
  shows "tasks_exist (next_dag s) s'"
proof -
  obtain nextTime s1 ws s3 s4 where s1: "insert_dag_row (new_dag_row dag version namespace hash nextTime) s = Inr (next_dag s, s1)"
    and s3: "for_tx (ds_Task (dag_Spec dag)) (\<lambda>t. insertTask uuid (next_dag s) t namespace (getTaskVersion t)) (s1\<lparr>workspaces := ws\<rparr>) = Inr ((), s3)"
    and s4: "for_tx (ds_Task (dag_Spec dag)) (\<lambda>t. createDependencyConnection (next_dag s) t (getTaskVersion t)) s3 = Inr ((), s4)"
    and s5: "for_tx (ds_Parameters (dag_Spec dag)) (insertParameter (next_dag s)) s4 = Inr ((), s')"
    by (rule insertDAG_stages [OF assms(2)])
  have "tasks_exist (next_dag s) (s1\<lparr>workspaces := ws\<rparr>)"
    using assms(1) insert_dag_row_eq [OF s1] by (auto simp: tasks_exist_def refs_ok_def)
  from s3 this have "tasks_exist (next_dag s) s3" by (rule for_tx_preserves) (rule insertTask_tasks_exist)
  moreover obtain drows where "s4 = s3\<lparr>deps := deps s3 @ drows\<rparr>" using for_insert_dependency_eq [OF s4 [unfolded for_dependencies_eq]] by blast
  moreover obtain prows where "s' = s4\<lparr>params := params s4 @ prows\<rparr>" using for_insertParameter_eq [OF s5] by blast
  ultimately show ?thesis by (simp add: tasks_exist_def)
qed

lemma InsertDAG_tasks_exist:
  assumes "refs_ok s" "InsertDAG digest uuid cron now dag namespace s = (Inr (), s')" "next_dag s' \<noteq> next_dag s"
  shows "tasks_exist (next_dag s) s'"
proof (rule InsertDAG_cases [of digest uuid cron now dag namespace s])
  fix version s1
  assume ins: "InsertDAG digest uuid cron now dag namespace s = (Inr (), setInactive (dag_Name dag) namespace (version - 1) s1)"
    and s1: "insertDAG uuid cron now dag version namespace (hashDagSpec digest (dag_Spec dag)) s = Inr ((), s1)"
  have "tasks_exist i (setInactive n m v s1) = tasks_exist i s1" for i n m v by (simp add: tasks_exist_def setInactive_def)
  then show ?thesis using insertDAG_tasks_exist [OF assms(1) s1] ins assms(2) by simp
qed (use assms(2,3) in \<open>auto simp: setSuspended_def\<close>)

text \<open>
  (C25) What an accepted new version stores: the tasks of the DAG in order, and, as rows of \<open>Dependencies\<close> between them,
  exactly the \<open>runAfter\<close> relation of the specification that validation looked at.
\<close>

theorem InsertDAG_stores_graph:
  assumes "dag_reachable s" "InsertDAG digest uuid cron now dag namespace s = (Inr (), s')"
    and "next_dag s' \<noteq> next_dag s"
  shows "named_deps (next_dag s) s' = dep_rel (ds_Task (dag_Spec dag)) \<and>
         map dk_name (dag_tasks_of (next_dag s) s') = map ts_Name (ds_Task (dag_Spec dag))"
  using InsertDAG_graph [OF _ _ assms(2,3)] dag_inv_reachable [OF assms(1)] by (simp add: dag_inv_def)

subsection \<open>Applying a DAG again\<close>

lemma insert_desc_map: "(\<And>x. key (f x) = key x) \<Longrightarrow> insert_desc key (f x) (map f ys) = map f (insert_desc key x ys)"
  by (induction ys) auto

lemma order_by_desc_map: "(\<And>x. key (f x) = key x) \<Longrightarrow> order_by_desc key (map f xs) = map f (order_by_desc key xs)"
  by (induction xs) (simp_all add: insert_desc_map)

lemma query_row_map: "query_row (map f xs) = map_option f (query_row xs)"
  by (cases xs) auto

lemma latest_dag_setSuspended:
  "latest_dag n m (setSuspended n m b s) = map_option (\<lambda>d. d\<lparr>dg_suspended := b\<rparr>) (latest_dag n m s)"
proof -
  let ?P = "\<lambda>d. dg_name d = n \<and> dg_namespace d = m"
  let ?f = "\<lambda>d. d\<lparr>dg_suspended := b\<rparr>"
  have "filter ?P (update_where ?P ?f ds) = map ?f (filter ?P ds)" for ds :: "dag_row list"
    by (induction ds) auto
  then show ?thesis by (simp add: latest_dag_def setSuspended_def order_by_desc_map query_row_map)
qed

lemma latest_dag_new:
  assumes "row \<in> set (dags s)" "dg_name row = n" "dg_namespace row = m"
    and "\<forall>d \<in> set (dags s). dg_name d = n \<and> dg_namespace d = m \<and> d \<noteq> row \<longrightarrow> dg_version d < dg_version row"
  shows "latest_dag n m s = Some row"
proof (cases "latest_dag n m s")
  case None
  then show ?thesis using assms(1-3) by (simp add: latest_dag_None)
next
  case (Some d)
  note d = latest_dag_Some [OF Some]
  have "dg_version row \<le> dg_version d" using d(4) assms(1-3) by blast
  then have "d = row" using assms(4) d(1-3) by force
  then show ?thesis using Some by simp
qed

lemma InsertDAG_same:
  assumes "latest_dag (dag_Name dag) namespace s = Some d" "dg_hash d = hashDagSpec digest (dag_Spec dag)"
    and "dg_suspended d = ds_Suspended (dag_Spec dag)"
  shows "InsertDAG digest uuid cron now dag namespace s = (Inl (Err ''applying the same dag''), s)"
  using assms by (simp add: InsertDAG_def withTx_def InsertDAG_tx_def Let_def)

text \<open>
  Applying a DAG is idempotent: once \<open>InsertDAG\<close> has accepted a DAG, applying the same DAG again, at any later
  time and with any generator of names, is rejected as the same DAG and leaves the database unchanged.
\<close>

theorem InsertDAG_idempotent:
  assumes "dag_reachable s" "InsertDAG digest uuid cron now dag namespace s = (Inr (), s')"
    and "hashDagSpec digest (dag_Spec dag) \<noteq> ''''"
  shows "InsertDAG digest uuid' cron' now' dag namespace s' = (Inl (Err ''applying the same dag''), s')"
proof (rule InsertDAG_cases [of digest uuid cron now dag namespace s])
  fix e assume "InsertDAG digest uuid cron now dag namespace s = (Inl e, s)"
  then show ?thesis using assms(2) by simp
next
  assume t: "InsertDAG digest uuid cron now dag namespace s =
      (Inr (), setSuspended (dag_Name dag) namespace (ds_Suspended (dag_Spec dag)) s)"
    and hash: "stored_hash (dag_Name dag) namespace s = hashDagSpec digest (dag_Spec dag)"
  obtain d where d: "latest_dag (dag_Name dag) namespace s = Some d" "dg_hash d = hashDagSpec digest (dag_Spec dag)"
    using hash assms(3) by (auto simp: stored_hash_def split: option.splits)
  then have "latest_dag (dag_Name dag) namespace s' = Some (d\<lparr>dg_suspended := ds_Suspended (dag_Spec dag)\<rparr>)"
    using t assms(2) by (simp add: latest_dag_setSuspended)
  then show ?thesis by (rule InsertDAG_same) (simp_all add: d)
next
  fix version s1
  assume ins: "InsertDAG digest uuid cron now dag namespace s = (Inr (), setInactive (dag_Name dag) namespace (version - 1) s1)"
    and s1: "insertDAG uuid cron now dag version namespace (hashDagSpec digest (dag_Spec dag)) s = Inr ((), s1)"
    and version: "version = (case latest_dag (dag_Name dag) namespace s of None \<Rightarrow> 0
                  | Some d \<Rightarrow> if dg_id d \<noteq> 0 then dg_version d + 1 else dg_version d)"
  obtain row where row: "dags s1 = dags s @ [row]" "dg_name row = dag_Name dag" "dg_namespace row = namespace"
    "dg_version row = version" "dg_hash row = hashDagSpec digest (dag_Spec dag)" "dg_suspended row = ds_Suspended (dag_Spec dag)"
    by (rule insertDAG_effect [OF s1]) (auto simp: new_dag_row_def)
  have inv: "dag_inv s" by (rule dag_inv_reachable [OF assms(1)])
  have below: "dg_version d < version" if "d \<in> set (dags s)" "dg_name d = dag_Name dag" "dg_namespace d = namespace" for d
  proof (cases "latest_dag (dag_Name dag) namespace s")
    case None
    then show ?thesis using that by (simp add: latest_dag_None)
  next
    case (Some l)
    have "dg_id l \<noteq> 0" using inv latest_dag_Some(1) [OF Some] by (auto simp: dag_inv_def keys_ok_def dag_keys_def)
    then show ?thesis using latest_dag_Some(4) [OF Some that] version Some by simp
  qed
  have "latest_dag (dag_Name dag) namespace s' = Some row"
  proof (rule latest_dag_new)
    show "row \<in> set (dags s')" using ins assms(2) row by (auto simp: set_setInactive)
    show "\<forall>d \<in> set (dags s'). dg_name d = dag_Name dag \<and> dg_namespace d = namespace \<and> d \<noteq> row \<longrightarrow> dg_version d < dg_version row"
      using ins assms(2) row below by (auto simp: set_setInactive)
  qed (use row in simp_all)
  then show ?thesis using row by (intro InsertDAG_same) auto
qed

subsection \<open>A valid DAG is accepted\<close>

text \<open>The shared tasks that the DAG refers to exist, and the generated names are new.\<close>

definition refs_exist :: "TaskSpec list \<Rightarrow> db \<Rightarrow> bool" where
  "refs_exist ts s \<longleftrightarrow> (\<forall>t \<in> set ts. \<forall>ref. ts_TaskRef t = Some ref \<longrightarrow>
     (\<exists>r \<in> set (tasks s). tk_name r = tr_Name ref \<and> \<not> tk_inline r \<and> tk_version r = tr_Version ref))"

definition names_fresh :: "(nat \<Rightarrow> string) \<Rightarrow> db \<Rightarrow> bool" where
  "names_fresh uuid s \<longleftrightarrow> inj uuid \<and> (\<forall>r \<in> set (tasks s). \<forall>n \<ge> next_task s. tk_name r \<noteq> uuid n)"

lemma insertTask_succeeds:
  assumes "refs_exist ts s" "names_fresh uuid s" "t \<in> set ts"
  shows "\<exists>s'. insertTask uuid dagID t namespace v s = Inr ((), s') \<and> refs_exist ts s' \<and> names_fresh uuid s'"
proof (cases "ts_TaskRef t")
  case None
  let ?row = "(inline_row uuid s t namespace v)\<lparr>tk_id := next_task s\<rparr>"
  have "\<forall>r \<in> set (tasks s). tk_name r \<noteq> uuid (next_task s)" using assms(2) by (simp add: names_fresh_def)
  then have "insert_task_row (inline_row uuid s t namespace v) s =
      Inr (next_task s, s\<lparr>tasks := tasks s @ [?row], next_task := Suc (next_task s)\<rparr>)"
    by (auto simp: insert_task_row_def inline_row_def)
  moreover have "names_fresh uuid (s\<lparr>tasks := tasks s @ [?row], next_task := Suc (next_task s)\<rparr>)"
    using assms(2) by (auto simp: names_fresh_def inline_row_def inj_eq)
  ultimately show ?thesis
    using None assms(1)
    by (auto simp: insertTask_def insert_dagtask_row_def refs_exist_def names_fresh_def)
next
  case (Some ref)
  then have "\<exists>r \<in> set (tasks s). tk_name r = tr_Name ref \<and> \<not> tk_inline r \<and> tk_version r = tr_Version ref"
    using assms(1,3) by (simp add: refs_exist_def)
  from query_row_filter [OF this]
  obtain r where "query_row (filter (\<lambda>t. tk_name t = tr_Name ref \<and> \<not> tk_inline t \<and> tk_version t = tr_Version ref) (tasks s)) = Some r"
    by auto
  then show ?thesis
    using Some assms(1,2) by (simp add: insertTask_def insert_dagtask_row_def refs_exist_def names_fresh_def)
qed

lemma insert_dependency_succeeds:
  assumes "\<exists>k \<in> set (dag_tasks_of dagID s). dk_name k = ts_Name t \<and> dk_version k = v"
    and "\<exists>k \<in> set (dag_tasks_of dagID s). dk_name k = d"
  shows "\<exists>s'. insert_dependency dagID t v d s = Inr ((), s') \<and> dagtasks s' = dagtasks s"
proof -
  obtain k where k: "query_row (filter (\<lambda>x. dk_dag_id x = dagID \<and> dk_name x = ts_Name t \<and> dk_version x = v) (dagtasks s)) = Some k"
    using assms(1) query_row_filter [of "dagtasks s" "\<lambda>x. dk_dag_id x = dagID \<and> dk_name x = ts_Name t \<and> dk_version x = v"]
    by (auto simp: dag_tasks_of_def)
  obtain e where "query_row (order_by_desc dk_version (filter (\<lambda>x. dk_dag_id x = dagID \<and> dk_name x = d) (dagtasks s))) = Some e"
    using assms(2) by (cases "query_row (order_by_desc dk_version (filter (\<lambda>x. dk_dag_id x = dagID \<and> dk_name x = d) (dagtasks s)))")
      (auto simp: dag_tasks_of_def filter_empty_conv)
  then show ?thesis using k by (simp add: insert_dependency_def)
qed

lemma for_dependencies_succeed:
  assumes rows: "\<forall>t \<in> set ts. \<exists>k \<in> set (dag_tasks_of dagID s). dk_name k = ts_Name t \<and> dk_version k = getTaskVersion t"
    and exist: "checkRunAfterTasksExist ts = None"
  shows "\<exists>s'. for_tx ts (\<lambda>t. createDependencyConnection dagID t (getTaskVersion t)) s = Inr ((), s')"
proof -
  have "\<exists>s'. for_tx (dep_pairs ts) (\<lambda>p. insert_dependency dagID (fst p) (getTaskVersion (fst p)) (snd p)) s = Inr ((), s') \<and>
      dagtasks s' = dagtasks s"
  proof (rule for_tx_succeeds)
    fix p and u :: db assume p: "p \<in> set (dep_pairs ts)" and u: "dagtasks u = dagtasks s"
    have t: "fst p \<in> set ts" "snd p \<in> set (ts_RunAfter (fst p))" using p by (auto simp: dep_pairs_def)
    then obtain t' where "t' \<in> set ts" "ts_Name t' = snd p"
      using exist by (fastforce simp: checkRunAfterTasksExist_def split: if_splits)
    then have "\<exists>k \<in> set (dag_tasks_of dagID u). dk_name k = snd p" using rows u by (fastforce simp: dag_tasks_of_def)
    moreover have "\<exists>k \<in> set (dag_tasks_of dagID u). dk_name k = ts_Name (fst p) \<and> dk_version k = getTaskVersion (fst p)"
      using rows t(1) u by (simp add: dag_tasks_of_def)
    ultimately show "\<exists>u'. insert_dependency dagID (fst p) (getTaskVersion (fst p)) (snd p) u = Inr ((), u') \<and> dagtasks u' = dagtasks s"
      using insert_dependency_succeeds u by metis
  qed simp
  then show ?thesis unfolding for_dependencies_eq by blast
qed

lemma insertDAG_succeeds:
  assumes sched: "next_time cron now (ds_Schedule (dag_Spec dag)) = Inr nextTime"
    and refs: "refs_exist (ds_Task (dag_Spec dag)) s" "names_fresh uuid s"
    and deps: "checkRunAfterTasksExist (ds_Task (dag_Spec dag)) = None"
    and new: "\<forall>d \<in> set (dags s). \<not> (dg_name d = dag_Name dag \<and> dg_version d = version \<and> dg_namespace d = namespace)"
  shows "\<exists>s'. insertDAG uuid cron now dag version namespace hash s = Inr ((), s')"
proof -
  let ?ts = "ds_Task (dag_Spec dag)"
  let ?row = "new_dag_row dag version namespace hash nextTime"
  let ?s1 = "s\<lparr>dags := dags s @ [?row\<lparr>dg_id := next_dag s\<rparr>], next_dag := Suc (next_dag s)\<rparr>"
  have s1: "insert_dag_row ?row s = Inr (next_dag s, ?s1)"
    using new by (auto simp: insert_dag_row_def new_dag_row_def)
  define s2 where "s2 = (if ws_Enabled (ds_Workspace (dag_Spec dag))
    then ?s1\<lparr>workspaces := workspaces ?s1 @ [\<lparr>wk_dag_id = next_dag s, wk_pvc = ws_PvcSpec (ds_Workspace (dag_Spec dag))\<rparr>]\<rparr> else ?s1)"
  have w: "(if ws_Enabled (ds_Workspace (dag_Spec dag))
      then insertWorkspace (next_dag s) (ws_PvcSpec (ds_Workspace (dag_Spec dag))) ?s1 else Inr ((), ?s1)) = Inr ((), s2)"
    by (simp add: s2_def insertWorkspace_def)
  have "refs_exist ?ts s2 \<and> names_fresh uuid s2" using refs by (simp add: s2_def refs_exist_def names_fresh_def)
  then have "\<exists>s3. for_tx ?ts (\<lambda>t. insertTask uuid (next_dag s) t namespace (getTaskVersion t)) s2 = Inr ((), s3) \<and>
      refs_exist ?ts s3 \<and> names_fresh uuid s3"
    by (rule for_tx_succeeds) (use insertTask_succeeds in blast)
  then obtain s3 where s3: "for_tx ?ts (\<lambda>t. insertTask uuid (next_dag s) t namespace (getTaskVersion t)) s2 = Inr ((), s3)" by blast
  obtain rows where rows: "dagtasks s3 = dagtasks s2 @ rows"
    "map (\<lambda>k. (dk_dag_id k, dk_name k, dk_version k)) rows = map (\<lambda>t. (next_dag s, ts_Name t, getTaskVersion t)) ?ts"
    using for_insertTask_adds [OF s3] by (auto simp: adds_dagtasks_def)
  have "\<exists>k \<in> set (dag_tasks_of (next_dag s) s3). dk_name k = ts_Name t \<and> dk_version k = getTaskVersion t" if "t \<in> set ?ts" for t
  proof -
    have "(next_dag s, ts_Name t, getTaskVersion t) \<in> set (map (\<lambda>k. (dk_dag_id k, dk_name k, dk_version k)) rows)"
      unfolding rows(2) using that by auto
    then show ?thesis by (auto simp: dag_tasks_of_def rows(1))
  qed
  then obtain s4 where s4: "for_tx ?ts (\<lambda>t. createDependencyConnection (next_dag s) t (getTaskVersion t)) s3 = Inr ((), s4)"
    using for_dependencies_succeed deps by blast
  obtain s5 where "for_tx (ds_Parameters (dag_Spec dag)) (insertParameter (next_dag s)) s4 = Inr ((), s5)"
    using for_tx_succeeds [of "\<lambda>_. True" s4 "ds_Parameters (dag_Spec dag)" "insertParameter (next_dag s)"]
    by (auto simp: insertParameter_def)
  then show ?thesis using sched s1 w s3 s4 by (simp add: insertDAG_def Let_def)
qed

lemma InsertDAG_success:
  assumes "dag_reachable s"
    and "ds_Schedule (dag_Spec dag) = '''' \<or> is_Inr (cron (ds_Schedule (dag_Spec dag)))"
    and "refs_exist (ds_Task (dag_Spec dag)) s" "names_fresh uuid s"
    and "checkRunAfterTasksExist (ds_Task (dag_Spec dag)) = None"
    and "stored_hash (dag_Name dag) namespace s \<noteq> hashDagSpec digest (dag_Spec dag)"
  shows "\<exists>s'. InsertDAG digest uuid cron now dag namespace s = (Inr (), s') \<and> next_dag s' = Suc (next_dag s)"
proof -
  obtain nextTime where nt: "next_time cron now (ds_Schedule (dag_Spec dag)) = Inr nextTime"
    using assms(2) by (cases "ds_Schedule (dag_Spec dag) = ''''") (auto simp: next_time_def is_Inr_iff)
  define version where "version = (case latest_dag (dag_Name dag) namespace s of None \<Rightarrow> 0
    | Some d \<Rightarrow> if dg_id d \<noteq> 0 then dg_version d + 1 else dg_version d)"
  have inv: "dag_inv s" by (rule dag_inv_reachable [OF assms(1)])
  have "\<forall>d \<in> set (dags s). \<not> (dg_name d = dag_Name dag \<and> dg_version d = version \<and> dg_namespace d = namespace)"
  proof (cases "latest_dag (dag_Name dag) namespace s")
    case None
    then show ?thesis by (auto simp: latest_dag_None)
  next
    case (Some l)
    have "dg_id l \<noteq> 0" using inv latest_dag_Some(1) [OF Some] by (auto simp: dag_inv_def keys_ok_def dag_keys_def)
    then have v: "version = dg_version l + 1" by (simp add: version_def Some)
    show ?thesis
    proof (intro ballI notI)
      fix d assume "d \<in> set (dags s)" "dg_name d = dag_Name dag \<and> dg_version d = version \<and> dg_namespace d = namespace"
      then show False using latest_dag_Some(4) [OF Some, of d] v by auto
    qed
  qed
  then obtain s1 where s1: "insertDAG uuid cron now dag version namespace (hashDagSpec digest (dag_Spec dag)) s = Inr ((), s1)"
    using insertDAG_succeeds [OF nt assms(3,4,5)] by blast
  have "InsertDAG_tx digest uuid cron now dag namespace s = Inr ((), setInactive (dag_Name dag) namespace (version - 1) s1)"
    using assms(6) s1 unfolding InsertDAG_tx_def Let_def version_def stored_hash_def
    by (cases "latest_dag (dag_Name dag) namespace s") auto
  moreover have "next_dag s1 = Suc (next_dag s)" by (rule insertDAG_effect [OF s1]) simp
  ultimately show ?thesis by (simp add: InsertDAG_def withTx_def setInactive_def)
qed

text \<open>
  A changed DAG is stored: if its schedule parses (or is empty), the shared tasks it refers to exist, the generated
  names are new, it has no dangling dependency and its digest differs from that of the latest version, then \<open>InsertDAG\<close>
  succeeds and the new version becomes the latest.
\<close>

theorem InsertDAG_accepts:
  assumes "dag_reachable s"
    and "ds_Schedule (dag_Spec dag) = '''' \<or> is_Inr (cron (ds_Schedule (dag_Spec dag)))"
    and "refs_exist (ds_Task (dag_Spec dag)) s" "names_fresh uuid s"
    and "checkRunAfterTasksExist (ds_Task (dag_Spec dag)) = None"
    and "stored_hash (dag_Name dag) namespace s \<noteq> hashDagSpec digest (dag_Spec dag)"
  shows "\<exists>s'. InsertDAG digest uuid cron now dag namespace s = (Inr (), s') \<and> next_dag s' = Suc (next_dag s)"
  by (rule InsertDAG_success [where cron = cron and dag = dag, OF assms])

section \<open>Examples\<close>

definition ex_digest :: "DAGSpec \<Rightarrow> string" where
  "ex_digest spec = ''digest''"

definition ex_uuid :: "nat \<Rightarrow> string" where
  "ex_uuid n = replicate n (CHR ''u'')"

definition ex_cron :: cron where
  "ex_cron schedule = Inr (\<lambda>t. t + 60)"

definition ex_dag :: DAG where
  "ex_dag = \<lparr>dag_Name = ''etl'', dag_Spec = ex_spec, dag_Status = \<lparr>st_Phase = '''', st_Message = ''''\<rparr>,
     dag_Annotations = [], dag_Finalizers = [], dag_Deleting = False\<rparr>"

lemma ex_dag_simps [simp]:
  "dag_Name ex_dag = ''etl''" "dag_Spec ex_dag = ex_spec" "hashDagSpec ex_digest spec = ''digest''"
  by (simp_all add: ex_dag_def hashDagSpec_def ex_digest_def)

lemma ex_hyps:
  "ds_Schedule (dag_Spec ex_dag) = '''' \<or> is_Inr (ex_cron (ds_Schedule (dag_Spec ex_dag)))"
  "refs_exist (ds_Task (dag_Spec ex_dag)) empty_db" "names_fresh ex_uuid empty_db"
  "checkRunAfterTasksExist (ds_Task (dag_Spec ex_dag)) = None"
  "stored_hash (dag_Name ex_dag) ''ns'' empty_db \<noteq> hashDagSpec ex_digest (dag_Spec ex_dag)"
proof -
  show "ds_Schedule (dag_Spec ex_dag) = '''' \<or> is_Inr (ex_cron (ds_Schedule (dag_Spec ex_dag)))" by (simp add: ex_cron_def)
  show "refs_exist (ds_Task (dag_Spec ex_dag)) empty_db" by (simp add: refs_exist_def ex_diamond_def)
  have "inj ex_uuid" by (rule injI) (metis ex_uuid_def length_replicate)
  then show "names_fresh ex_uuid empty_db" by (simp add: names_fresh_def empty_db_def)
  show "checkRunAfterTasksExist (ds_Task (dag_Spec ex_dag)) = None" by (simp add: checkRunAfterTasksExist_diamond)
  show "stored_hash (dag_Name ex_dag) ''ns'' empty_db \<noteq> hashDagSpec ex_digest (dag_Spec ex_dag)"
    by (simp add: stored_hash_def latest_dag_def empty_db_def)
qed

lemma ex_inserted:
  obtains s' where "InsertDAG ex_digest ex_uuid ex_cron 0 ex_dag ''ns'' empty_db = (Inr (), s')" "next_dag s' = Suc (next_dag empty_db)"
  using InsertDAG_success [where cron = ex_cron and dag = ex_dag, OF dag_reachable.start ex_hyps] by blast

theorem InsertDAG_accepts_witness:
  "\<exists>s'. InsertDAG ex_digest ex_uuid ex_cron 0 ex_dag ''ns'' empty_db = (Inr (), s') \<and> next_dag s' = Suc (next_dag empty_db)"
  by (rule InsertDAG_accepts [where cron = ex_cron and dag = ex_dag, OF dag_reachable.start ex_hyps])

theorem InsertDAG_stores_graph_witness:
  "\<exists>s'. InsertDAG ex_digest ex_uuid ex_cron 0 ex_dag ''ns'' empty_db = (Inr (), s') \<and>
     named_deps (next_dag empty_db) s' = dep_rel ex_diamond"
proof (rule ex_inserted)
  fix s' assume "InsertDAG ex_digest ex_uuid ex_cron 0 ex_dag ''ns'' empty_db = (Inr (), s')" "next_dag s' = Suc (next_dag empty_db)"
  then show ?thesis using InsertDAG_stores_graph [OF dag_reachable.start, of ex_digest ex_uuid ex_cron 0 ex_dag "''ns''" s'] by auto
qed

theorem InsertDAG_idempotent_witness:
  "\<exists>s'. InsertDAG ex_digest ex_uuid ex_cron 0 ex_dag ''ns'' empty_db = (Inr (), s') \<and>
     InsertDAG ex_digest ex_uuid ex_cron 5 ex_dag ''ns'' s' = (Inl (Err ''applying the same dag''), s')"
proof (rule ex_inserted)
  fix s' assume "InsertDAG ex_digest ex_uuid ex_cron 0 ex_dag ''ns'' empty_db = (Inr (), s')" "next_dag s' = Suc (next_dag empty_db)"
  then show ?thesis
    using InsertDAG_idempotent [OF dag_reachable.start, of ex_digest ex_uuid ex_cron 0 ex_dag "''ns''" s' ex_uuid ex_cron 5] by auto
qed

text \<open>Two DAGs of one name in two namespaces, each with one inline task.\<close>

definition ex_one :: DAG where
  "ex_one = ex_dag\<lparr>dag_Spec := zero_DAGSpec\<lparr>ds_Task := [ex_task ''a'' []]\<rparr>\<rparr>"

definition ex_two_dbs :: db where
  "ex_two_dbs = snd (InsertDAG ex_digest ex_uuid ex_cron 0 ex_one ''ns2''
                 (snd (InsertDAG ex_digest ex_uuid ex_cron 0 ex_one ''ns1'' empty_db)))"

lemmas insert_defs = InsertDAG_def InsertDAG_tx_def withTx_def insertDAG_def insert_dag_row_def new_dag_row_def insertTask_def
  insert_task_row_def inline_row_def insert_dagtask_row_def createDependencyConnection_def getTaskVersion_def Let_def
  next_time_def setInactive_def latest_dag_def hashDagSpec_def

lemmas ex_one_defs = insert_defs ex_one_def ex_dag_def zero_DAGSpec_def ex_task_def zero_TaskSpec_def empty_db_def
  ex_uuid_def ex_digest_def

lemma ex_two_dbs_reachable: "dag_reachable ex_two_dbs"
  unfolding ex_two_dbs_def by (intro dag_reachable.insert dag_reachable.start)

theorem active_is_latest_witness:
  "\<exists>d. d \<in> set (dags ex_two_dbs) \<and> dg_namespace d = ''ns2'' \<and> dg_active d"
proof -
  let ?d = "last (dags ex_two_dbs)"
  have d: "?d \<in> set (dags ex_two_dbs)" "dg_namespace ?d = ''ns2''" "dg_version ?d = 0"
    and all: "\<forall>e \<in> set (dags ex_two_dbs). dg_version e = 0"
    by (simp_all add: ex_two_dbs_def ex_one_defs)
  have "dg_active ?d" using active_is_latest [OF ex_two_dbs_reachable d(1)] d(3) all by simp
  then show ?thesis using d by blast
qed

text \<open>
  Deleting a DAG removes the inline tasks of every DAG of that name, whatever its namespace: after two DAGs of one
  name were stored in two namespaces and the first was deleted, the second is still stored and active, but the task row its only task
  points to is gone.
\<close>

theorem DeleteDAG_breaks_other_namespace:
  "\<exists>s. dag_reachable s \<and>
     (let s' = snd (DeleteDAG ''etl'' ''ns1'' s)
      in map (\<lambda>d. (dg_name d, dg_namespace d, dg_active d)) (dags s') = [(''etl'', ''ns2'', True)] \<and>
         map (\<lambda>k. (dk_dag_id k, dk_task_id k)) (dagtasks s') = [(2, 2)] \<and> tasks s' = [])"
  by (rule exI [of _ ex_two_dbs], rule conjI, rule ex_two_dbs_reachable)
    (simp add: ex_two_dbs_def ex_one_defs DeleteDAG_def dag_ids_def inline_task_ids_def run_ids_def)

end
