(* ===== verification/Sqlite_Runs.thy ===== *)
theory Sqlite_Runs
  imports Sqlite_Dags
begin

text \<open>
  \<open>internal/db/sqliteManager.go\<close>, the operations on DAG runs: creation, starting tasks, the outcome of
  a task run and the tasks it makes runnable, failure and the suspension of everything that depends on a failed task,
  completion, suspension and deletion of a run, and the pods of its tasks. Claims are in \<open>Task_Claims\<close>.
\<close>

section \<open>Creation\<close>

text \<open>The parameters arrive in a Go map; the list gives one of its iteration orders.\<close>

definition run_param_row :: "nat \<Rightarrow> ParameterSpec \<Rightarrow> runparam_row" where
  "run_param_row runId p =
     \<lparr>rp_run_id = runId, rp_name = ps_Name p,
      rp_value = (if ps_FromSecret p \<noteq> '''' then ps_FromSecret p else ps_Value p),
      rp_isSecret = (ps_FromSecret p \<noteq> '''')\<rparr>"

definition CreateDAGRun :: "string \<Rightarrow> DagRunSpec \<Rightarrow> ParameterSpec list \<Rightarrow> string option \<Rightarrow> int \<Rightarrow> nat op" where
  "CreateDAGRun name dag parameters pvcName now s =
     (case dagNameToDagId (dr_DagName dag) s of
        Inl e \<Rightarrow> (Inl e, s)
      | Inr dagId \<Rightarrow>
          (case query_row (filter (\<lambda>r. rn_name r = name) (runs s)) of
             Some r \<Rightarrow> (Inr (rn_id r), s)
           | None \<Rightarrow>
               (Inr (next_run s),
                s\<lparr>runs := runs s @ [\<lparr>rn_id = next_run s, rn_name = name, rn_dag_id = dagId, rn_status = ''running'',
                          rn_successfulCount = 0, rn_failedCount = 0, rn_suspendedCount = 0, rn_run_time = now,
                          rn_pvcName = pvcName\<rparr>],
                  next_run := Suc (next_run s),
                  runparams := runparams s @ map (run_param_row (next_run s)) parameters\<rparr>)))"

definition FindExistingDAGRun :: "string \<Rightarrow> db \<Rightarrow> bool" where
  "FindExistingDAGRun name s \<longleftrightarrow> (\<exists>r \<in> set (runs s). rn_name r = name)"

definition DagrunExists :: "nat \<Rightarrow> db \<Rightarrow> bool" where
  "DagrunExists dagrunId s \<longleftrightarrow> (\<exists>r \<in> set (runs s). rn_id r = dagrunId)"

definition TaskRunExists :: "nat \<Rightarrow> nat \<Rightarrow> db \<Rightarrow> bool" where
  "TaskRunExists runId dagTaskId s \<longleftrightarrow> (\<exists>r \<in> set (taskruns s). tr_run_id r = runId \<and> tr_task_id r = dagTaskId)"

section \<open>Tasks with their pod template and parameters\<close>

definition find_task :: "nat \<Rightarrow> db \<Rightarrow> task_row option" where
  "find_task taskId s = query_row (filter (\<lambda>t. tk_id t = taskId) (tasks s))"

definition find_run :: "nat \<Rightarrow> db \<Rightarrow> run_row option" where
  "find_run runId s = query_row (filter (\<lambda>r. rn_id r = runId) (runs s))"

definition find_taskrun :: "nat \<Rightarrow> db \<Rightarrow> taskrun_row option" where
  "find_taskrun taskRunId s = query_row (filter (\<lambda>r. tr_id r = taskRunId) (taskruns s))"

text \<open>The workspace volume is added to the task's own template, or to an empty one.\<close>

definition with_workspace :: "PodTemplateSpec option \<Rightarrow> string option \<Rightarrow> PodTemplateSpec" where
  "with_workspace tmpl pvcName =
     (let pt = (case tmpl of Some p \<Rightarrow> p | None \<Rightarrow> empty_PodTemplateSpec)
      in case pvcName of
           None \<Rightarrow> pt
         | Some claim \<Rightarrow>
             pt\<lparr>pt_Volumes := pt_Volumes pt @ [\<lparr>v_Name = ''workspace'', v_EmptyDir = None, v_PersistentVolumeClaim = Some claim\<rparr>],
                pt_VolumeMounts := pt_VolumeMounts pt @ [\<lparr>vm_Name = ''workspace'', vm_MountPath = ''/workspace'', vm_ReadOnly = False\<rparr>]\<rparr>)"

definition param_of :: "param_row \<Rightarrow> Parameter" where
  "param_of p = \<lparr>pa_Name = pr_name p, pa_IsSecret = pr_isSecret p, pa_Value = pr_defaultValue p\<rparr>"

text \<open>The rows of a join of \<open>DAG_Tasks\<close> with \<open>Tasks\<close>.\<close>

definition task_join :: "db \<Rightarrow> (dagtask_row \<times> task_row) list" where
  "task_join s = concat (map (\<lambda>k. map (\<lambda>t. (k, t)) (filter (\<lambda>t. tk_id t = dk_task_id k) (tasks s))) (dagtasks s))"

definition starting_rows :: "string \<Rightarrow> nat \<Rightarrow> db \<Rightarrow> (dagtask_row \<times> task_row \<times> run_row) list" where
  "starting_rows dagName dagrun s =
     (case dagNameToDagId dagName s of
        Inl _ \<Rightarrow> []
      | Inr dagId \<Rightarrow>
          concat (map (\<lambda>(k, t). map (\<lambda>r. (k, t, r)) (filter (\<lambda>r. rn_dag_id r = dk_dag_id k \<and> rn_id r = dagrun) (runs s)))
            (filter (\<lambda>(k, t). dk_dag_id k = dagId \<and> \<not> (\<exists>d \<in> set (deps s). dp_task_id d = dk_id k)) (task_join s))))"

definition lookup_param :: "nat \<Rightarrow> string \<Rightarrow> db \<Rightarrow> Parameter option" where
  "lookup_param dagId name s =
     map_option param_of (query_row (rev (filter (\<lambda>p. pr_dag_id p = dagId \<and> pr_name p = name) (params s))))"

text \<open>\<open>paramMap[pname]\<close>, whose presence was checked before.\<close>

definition param_value :: "nat \<Rightarrow> db \<Rightarrow> string \<Rightarrow> Parameter" where
  "param_value dagId s name =
     (case lookup_param dagId name s of Some p \<Rightarrow> p | None \<Rightarrow> \<lparr>pa_Name = '''', pa_IsSecret = False, pa_Value = ''''\<rparr>)"

definition GetStartingTasks :: "string \<Rightarrow> nat \<Rightarrow> db \<Rightarrow> Task list result" where
  "GetStartingTasks dagName dagrun s =
     (let rows = starting_rows dagName dagrun s;
          flattened = remdups (concat (map (\<lambda>(k, t, r). tk_parameters t) rows));
          dagId = (case dagNameToDagId dagName s of Inr i \<Rightarrow> i | Inl _ \<Rightarrow> 0);
          missing = filter (\<lambda>n. lookup_param dagId n s = None) flattened
      in case missing of
           name # _ \<Rightarrow> Inl (Err (''failed to get parameter '' @ [CHR 0x27] @ name @ [CHR 0x27]))
         | [] \<Rightarrow>
             Inr (map (\<lambda>(k, t, r).
               \<lparr>t_Id = dk_id k, t_Name = dk_name k, t_Image = tk_image t, t_Command = tk_command t, t_Args = tk_args t,
                t_Parameters = map (param_value dagId s) (tk_parameters t),
                t_PodTemplate = Some (with_workspace (tk_podTemplate t) (rn_pvcName r)), t_Script = tk_script t,
                t_ScriptInjectorImage = ''''\<rparr>) rows))"

section \<open>Task runs\<close>

definition insert_taskrun :: "nat \<Rightarrow> nat \<Rightarrow> string \<Rightarrow> nat \<Rightarrow> db \<Rightarrow> nat \<times> db" where
  "insert_taskrun runId taskId status attempts s =
     (next_taskrun s,
      s\<lparr>taskruns := taskruns s @ [\<lparr>tr_id = next_taskrun s, tr_run_id = runId, tr_task_id = taskId, tr_status = status,
           tr_attempts = attempts, tr_claimed_by = None, tr_claimed_at = None, tr_lease = None,
           tr_scheduled_start = None, tr_retry_env = None\<rparr>],
        next_taskrun := Suc (next_taskrun s)\<rparr>)"

definition MarkTaskAsStarted :: "nat \<Rightarrow> nat \<Rightarrow> nat op" where
  "MarkTaskAsStarted runId taskId s = (let (i, s') = insert_taskrun runId taskId ''running'' 1 s in (Inr i, s'))"

definition AddPendingTaskRun :: "nat \<Rightarrow> nat \<Rightarrow> nat op" where
  "AddPendingTaskRun runId dagTaskId s = (let (i, s') = insert_taskrun runId dagTaskId ''pending'' 0 s in (Inr i, s'))"

definition IncrementAttempts :: "nat \<Rightarrow> unit op" where
  "IncrementAttempts taskRunId s =
     (Inr (), s\<lparr>taskruns := update_where (\<lambda>r. tr_id r = taskRunId) (\<lambda>r. r\<lparr>tr_attempts := tr_attempts r + 1\<rparr>) (taskruns s)\<rparr>)"

definition SaveRetryEnv :: "nat \<Rightarrow> string \<Rightarrow> unit op" where
  "SaveRetryEnv taskRunId envJSON s =
     (Inr (), s\<lparr>taskruns := update_where (\<lambda>r. tr_id r = taskRunId) (\<lambda>r. r\<lparr>tr_retry_env := Some envJSON\<rparr>) (taskruns s)\<rparr>)"

definition GetTaskRunStatus :: "nat \<Rightarrow> db \<Rightarrow> string result" where
  "GetTaskRunStatus taskRunId s =
     (case find_taskrun taskRunId s of None \<Rightarrow> Inl ErrTaskRunNotFound | Some r \<Rightarrow> Inr (tr_status r))"

definition set_status :: "nat \<Rightarrow> string \<Rightarrow> db \<Rightarrow> db" where
  "set_status taskRunId status s =
     s\<lparr>taskruns := update_where (\<lambda>r. tr_id r = taskRunId) (\<lambda>r. r\<lparr>tr_status := status\<rparr>) (taskruns s)\<rparr>"

section \<open>Success and the next tasks\<close>

definition getDependencyCounts :: "nat \<Rightarrow> db \<Rightarrow> (nat, nat) gomap" where
  "getDependencyCounts dagId s =
     (let rows = filter (\<lambda>d. \<exists>k \<in> set (dagtasks s). dk_id k = dp_task_id d \<and> dk_dag_id k = dagId) (deps s)
      in map (\<lambda>t. (t, length (filter (\<lambda>d. dp_task_id d = t) rows))) (remdups (map dp_task_id rows)))"

text \<open>The pairs of a dependency and a successful run of it, for tasks of the DAG without a run that started.\<close>

definition met_rows :: "nat \<Rightarrow> nat \<Rightarrow> db \<Rightarrow> (dep_row \<times> taskrun_row) list" where
  "met_rows dagId runID s =
     filter (\<lambda>(d, r). tr_status r = ''success'' \<and>
              (\<exists>k \<in> set (dagtasks s). dk_id k = dp_task_id d \<and> dk_dag_id k = dagId) \<and>
              \<not> (\<exists>q \<in> set (taskruns s). tr_task_id q = dp_task_id d \<and> tr_run_id q = runID \<and>
                    tr_status q \<in> {''running'', ''success'', ''failed''}) \<and>
              tr_run_id r = runID)
       (concat (map (\<lambda>d. map (\<lambda>r. (d, r)) (filter (\<lambda>r. tr_task_id r = dp_depends_on d) (taskruns s))) (deps s)))"

definition getMetDependencies :: "nat \<Rightarrow> nat \<Rightarrow> db \<Rightarrow> nat \<Rightarrow> nat" where
  "getMetDependencies dagId runID s taskId = length (filter (\<lambda>(d, r). dp_task_id d = taskId) (met_rows dagId runID s))"

text \<open>The query compares the column \<open>run_id\<close> with the task run's own identifier.\<close>

definition getRunnableTasks :: "(nat, nat) gomap \<Rightarrow> (nat \<Rightarrow> nat) \<Rightarrow> nat \<Rightarrow> db \<Rightarrow> nat list" where
  "getRunnableTasks dependencyCounts metDependencies taskRunId s =
     map fst (filter (\<lambda>(taskId, totalDeps). totalDeps = metDependencies taskId \<and>
       \<not> (\<exists>r \<in> set (taskruns s). tr_task_id r = taskId \<and> tr_run_id r = taskRunId)) dependencyCounts)"

definition getTasksByIds :: "nat list \<Rightarrow> nat \<Rightarrow> db \<Rightarrow> (Task \<times> string list) list" where
  "getTasksByIds taskIds runId s =
     concat (map (\<lambda>(k, t). map (\<lambda>r.
         (\<lparr>t_Id = dk_id k, t_Name = dk_name k, t_Image = tk_image t, t_Command = tk_command t, t_Args = tk_args t,
           t_Parameters = [], t_PodTemplate = Some (with_workspace (tk_podTemplate t) (rn_pvcName r)),
           t_Script = tk_script t, t_ScriptInjectorImage = tk_scriptInjectorImage t\<rparr>, tk_parameters t))
       (filter (\<lambda>r. rn_dag_id r = dk_dag_id k \<and> rn_id r = runId) (runs s)))
     (filter (\<lambda>(k, t). dk_id k \<in> set taskIds) (task_join s)))"

definition getNextRunnableTasks :: "nat \<Rightarrow> nat \<Rightarrow> nat \<Rightarrow> db \<Rightarrow> (Task \<times> string list) list" where
  "getNextRunnableTasks taskRunId runId dagId s =
     getTasksByIds (getRunnableTasks (getDependencyCounts dagId s) (getMetDependencies dagId runId s) taskRunId s) runId s"

text \<open>Every row of \<open>DAG_Parameters\<close> that is asked for is appended to the tasks that mention it, once per mention.\<close>

definition fetchTaskParameters :: "nat \<Rightarrow> (Task \<times> string list) list \<Rightarrow> db \<Rightarrow> Task list" where
  "fetchTaskParameters dagId ts s =
     map (\<lambda>(t, names). t\<lparr>t_Parameters :=
       concat (map (\<lambda>p. replicate (count_list names (pr_name p)) (param_of p))
         (filter (\<lambda>p. pr_dag_id p = dagId) (params s)))\<rparr>) ts"

definition run_complete :: "nat \<Rightarrow> db \<Rightarrow> bool" where
  "run_complete runId s \<longleftrightarrow>
     (\<exists>r \<in> set (runs s). rn_id r = runId \<and> (\<exists>d \<in> set (dags s). dg_id d = rn_dag_id r \<and> dg_taskCount d = rn_successfulCount r))"

definition MarkSuccessAndGetNextTasks :: "nat \<Rightarrow> Task list op" where
  "MarkSuccessAndGetNextTasks taskRunId =
     withTx (\<lambda>s.
       case find_taskrun taskRunId s of
         None \<Rightarrow> Inl ErrNoRows
       | Some r \<Rightarrow>
           let runId = tr_run_id r;
               s1 = set_status taskRunId ''success'' s;
               s2 = s1\<lparr>runs := update_where (\<lambda>r. rn_id r = runId) (\<lambda>r. r\<lparr>rn_successfulCount := rn_successfulCount r + 1\<rparr>) (runs s1)\<rparr>
           in if run_complete runId s2
              then Inr ([], s2\<lparr>runs := update_where (\<lambda>r. rn_id r = runId) (\<lambda>r. r\<lparr>rn_status := ''success''\<rparr>) (runs s2)\<rparr>)
              else (case find_run runId s2 of
                      None \<Rightarrow> Inl ErrNoRows
                    | Some run \<Rightarrow>
                        Inr (fetchTaskParameters (rn_dag_id run)
                               (getNextRunnableTasks taskRunId runId (rn_dag_id run) s2) s2, s2)))"

definition MarkDAGRunOutcome :: "nat \<Rightarrow> string \<Rightarrow> unit op" where
  "MarkDAGRunOutcome dagRunId outcome s =
     (Inr (), s\<lparr>runs := update_where (\<lambda>r. rn_id r = dagRunId) (\<lambda>r. r\<lparr>rn_status := outcome\<rparr>) (runs s)\<rparr>)"

section \<open>Failure and retries\<close>

definition in_int32 :: "int \<Rightarrow> bool" where
  "in_int32 n \<longleftrightarrow> - (2 ^ 31) \<le> n \<and> n < 2 ^ 31"

definition taskrun_task :: "nat \<Rightarrow> db \<Rightarrow> (taskrun_row \<times> task_row) option" where
  "taskrun_task taskRunID s =
     query_row (concat (map (\<lambda>r. map (\<lambda>(k, t). (r, t)) (filter (\<lambda>(k, t). dk_id k = tr_task_id r) (task_join s)))
       (filter (\<lambda>r. tr_id r = taskRunID) (taskruns s))))"

text \<open>The retry codes are decoded into 32-bit integers, which fails on a larger stored code.\<close>

definition ShouldRerun :: "nat \<Rightarrow> int \<Rightarrow> db \<Rightarrow> bool result" where
  "ShouldRerun taskRunID exitCode s =
     (case taskrun_task taskRunID s of
        None \<Rightarrow> Inr False
      | Some (r, t) \<Rightarrow>
          if int (tr_attempts r) > tk_backoffLimit t then Inr False
          else if tk_isConditional t
            then (if list_all in_int32 (tk_retryCodes t) then Inr (exitCode \<in> set (tk_retryCodes t))
                  else Inl (Err ''failed to parse retry codes''))
            else Inr True)"

definition MarkTaskAsFailed :: "nat \<Rightarrow> unit op" where
  "MarkTaskAsFailed taskRunId s =
     (let s1 = set_status taskRunId ''failed'' s;
          R = set (map tr_run_id (filter (\<lambda>r. tr_id r = taskRunId) (taskruns s1)))
      in (Inr (), s1\<lparr>runs := update_where (\<lambda>r. rn_id r \<in> R)
             (\<lambda>r. r\<lparr>rn_failedCount := rn_failedCount r + 1, rn_status := ''failed''\<rparr>) (runs s1)\<rparr>))"

section \<open>Suspension of the tasks after a failed one\<close>

definition dependents :: "(nat \<times> nat) list \<Rightarrow> nat \<Rightarrow> nat list" where
  "dependents rows task = map snd (filter (\<lambda>(parent, child). parent = task) rows)"

text \<open>
  The loop body over the dependents of one task, on the stack (its top first) and the tasks to suspend (in order
  of discovery, which is also the set \<open>uniqueUpdates\<close>).
\<close>

fun suspend_children :: "nat set \<Rightarrow> nat list \<Rightarrow> nat list \<times> nat list \<Rightarrow> nat list \<times> nat list" where
  "suspend_children existing [] (stack, updates) = (stack, updates)"
| "suspend_children existing (c # cs) (stack, updates) =
     (if c \<in> existing \<or> c \<in> set updates then suspend_children existing cs (stack, updates)
      else suspend_children existing cs (c # stack, updates @ [c]))"

lemma suspend_children_append:
  "\<exists>new. suspend_children existing cs (stack, updates) = (rev new @ stack, updates @ new) \<and>
     distinct new \<and> set new = set cs - existing - set updates"
proof (induction cs arbitrary: stack updates)
  case (Cons c cs)
  show ?case
  proof (cases "c \<in> existing \<or> c \<in> set updates")
    case True
    then show ?thesis using Cons [of stack updates] by auto
  next
    case False
    obtain new where "suspend_children existing cs (c # stack, updates @ [c]) = (rev new @ c # stack, (updates @ [c]) @ new)"
      "distinct new" "set new = set cs - existing - set (updates @ [c])"
      using Cons [of "c # stack" "updates @ [c]"] by blast
    then show ?thesis using False by (intro exI [of _ "c # new"]) auto
  qed
qed simp

function suspend_dfs :: "(nat \<times> nat) list \<Rightarrow> nat set \<Rightarrow> nat list \<Rightarrow> nat set \<Rightarrow> nat list \<Rightarrow> nat list" where
  "suspend_dfs rows existing [] seen updates = updates"
| "suspend_dfs rows existing (cur # stack) seen updates =
     (if cur \<in> seen then suspend_dfs rows existing stack seen updates
      else suspend_dfs rows existing (fst (suspend_children existing (dependents rows cur) (stack, updates)))
             (insert cur seen) (snd (suspend_children existing (dependents rows cur) (stack, updates))))"
  by pat_completeness auto

text \<open>Each step pops one task and pushes only tasks that join the updates, which are dependents of some row.\<close>

termination
proof (relation "measure (\<lambda>(rows, existing, stack, seen, updates).
    length stack + 2 * card (snd ` set rows - set updates))")
  fix rows :: "(nat \<times> nat) list" and existing seen :: "nat set" and cur :: nat and stack updates :: "nat list"
  assume "cur \<notin> seen"
  obtain new where new: "suspend_children existing (dependents rows cur) (stack, updates) = (rev new @ stack, updates @ new)"
    "distinct new" "set new = set (dependents rows cur) - existing - set updates"
    using suspend_children_append by blast
  have sub: "set new \<subseteq> snd ` set rows - set updates" using new(3) by (auto simp: dependents_def)
  have "card (snd ` set rows - set (updates @ new)) = card (snd ` set rows - set updates) - length new"
  proof -
    have "snd ` set rows - set (updates @ new) = (snd ` set rows - set updates) - set new" by auto
    then show ?thesis using sub distinct_card [OF new(2)] by (simp add: card_Diff_subset)
  qed
  then show "((rows, existing, fst (suspend_children existing (dependents rows cur) (stack, updates)), insert cur seen,
      snd (suspend_children existing (dependents rows cur) (stack, updates))), rows, existing, cur # stack, seen, updates)
    \<in> measure (\<lambda>(rows, existing, stack, seen, updates). length stack + 2 * card (snd ` set rows - set updates))"
    using card_mono [OF _ sub] distinct_card [OF new(2)] by (simp add: new(1))
qed auto

definition dependency_rows :: "nat \<Rightarrow> db \<Rightarrow> (nat \<times> nat) list" where
  "dependency_rows dagRunId s =
     (case find_run dagRunId s of
        None \<Rightarrow> []
      | Some run \<Rightarrow>
          map (\<lambda>d. (dp_depends_on d, dp_task_id d))
            (filter (\<lambda>d. \<exists>k \<in> set (dagtasks s). dk_id k = dp_depends_on d \<and> dk_dag_id k = rn_dag_id run) (deps s)))"

fun insert_suspended :: "nat \<Rightarrow> nat list \<Rightarrow> db \<Rightarrow> db" where
  "insert_suspended dagRunId [] s = s"
| "insert_suspended dagRunId (t # ts) s = insert_suspended dagRunId ts (snd (insert_taskrun dagRunId t ''suspended'' 0 s))"

fun task_names :: "nat list \<Rightarrow> db \<Rightarrow> string list result" where
  "task_names [] s = Inr []"
| "task_names (t # ts) s =
     (case query_row (filter (\<lambda>k. dk_id k = t) (dagtasks s)) of
        None \<Rightarrow> Inl (Err ''failed to get task name'')
      | Some k \<Rightarrow> map_sum id (\<lambda>ns. dk_name k # ns) (task_names ts s))"

definition existing_tasks :: "nat \<Rightarrow> db \<Rightarrow> nat set" where
  "existing_tasks dagRunId s = set (map tr_task_id (filter (\<lambda>r. tr_run_id r = dagRunId) (taskruns s)))"

definition MarkConnectingTasksAsSuspended :: "nat \<Rightarrow> nat \<Rightarrow> string list op" where
  "MarkConnectingTasksAsSuspended dagRunId taskRunId =
     withTx (\<lambda>s.
       case find_taskrun taskRunId s of
         None \<Rightarrow> Inl (Err ''failed to get task id'')
       | Some start \<Rightarrow>
           let updates = suspend_dfs (dependency_rows dagRunId s) (existing_tasks dagRunId s) [tr_task_id start] {} [];
               s1 = insert_suspended dagRunId updates s;
               s2 = s1\<lparr>runs := update_where (\<lambda>r. rn_id r = dagRunId)
                       (\<lambda>r. r\<lparr>rn_suspendedCount := rn_suspendedCount r + length updates\<rparr>) (runs s1)\<rparr>
           in (case task_names updates s2 of Inl e \<Rightarrow> Inl e | Inr names \<Rightarrow> Inr (names, s2)))"

section \<open>Completion, suspension, deletion\<close>

definition CheckIfAllTasksDone :: "nat \<Rightarrow> db \<Rightarrow> bool result" where
  "CheckIfAllTasksDone dagRunID s =
     (case find_run dagRunID s of
        None \<Rightarrow> Inl ErrNoRows
      | Some r \<Rightarrow>
          Inr (length (filter (\<lambda>k. dk_dag_id k = rn_dag_id r) (dagtasks s)) =
               rn_successfulCount r + rn_failedCount r + rn_suspendedCount r))"

definition SuspendDagRun :: "nat \<Rightarrow> RunningPodInfo list op" where
  "SuspendDagRun dagRunId s =
     (Inr (concat (map (\<lambda>p. map (\<lambda>r. \<lparr>pi_Name = po_name p, pi_Namespace = po_namespace p\<rparr>)
             (filter (\<lambda>r. tr_id r = po_task_run_id p \<and> tr_run_id r = dagRunId \<and> tr_status r = ''running'') (taskruns s)))
           (pods s))),
      s\<lparr>runs := update_where (\<lambda>r. rn_id r = dagRunId) (\<lambda>r. r\<lparr>rn_status := ''suspended''\<rparr>) (runs s)\<rparr>)"

definition DeleteDagRun :: "nat \<Rightarrow> unit op" where
  "DeleteDagRun dagRunId s =
     (let T = set (map tr_id (filter (\<lambda>r. tr_run_id r = dagRunId) (taskruns s)))
      in (Inr (), s\<lparr>pods := delete_where (\<lambda>p. po_task_run_id p \<in> T) (pods s),
                   taskruns := delete_where (\<lambda>r. tr_run_id r = dagRunId) (taskruns s),
                   runparams := delete_where (\<lambda>p. rp_run_id p = dagRunId) (runparams s),
                   runs := delete_where (\<lambda>r. rn_id r = dagRunId) (runs s)\<rparr>))"

section \<open>Pods\<close>

definition MarkPodStatus ::
    "string \<Rightarrow> string \<Rightarrow> nat \<Rightarrow> string \<Rightarrow> int \<Rightarrow> int option \<Rightarrow> string \<Rightarrow> unit op" where
  "MarkPodStatus podUid name taskRunID status tStamp exitCode namespace =
     withTx (\<lambda>s.
       if \<exists>p \<in> set (pods s). po_uid p = podUid \<and> po_task_run_id p = taskRunID
       then Inr ((), s\<lparr>pods := update_where (\<lambda>p. po_uid p = podUid \<and> po_task_run_id p = taskRunID)
                    (\<lambda>p. p\<lparr>po_status := status, po_updated_at := tStamp, po_exitCode := exitCode\<rparr>) (pods s)\<rparr>)
       else if \<exists>p \<in> set (pods s). po_uid p = podUid then Inl (Err ''UNIQUE constraint failed: Task_Pods.Pod_UID'')
       else Inr ((), s\<lparr>pods := pods s @ [\<lparr>po_uid = podUid, po_task_run_id = taskRunID, po_exitCode = exitCode, po_name = name,
                    po_status = status, po_namespace = namespace, po_updated_at = tStamp, po_duration = None\<rparr>]\<rparr>))"

definition AddPodDuration :: "nat \<Rightarrow> int \<Rightarrow> unit op" where
  "AddPodDuration taskRunId durationSec s =
     (Inr (), s\<lparr>pods := update_where (\<lambda>p. po_task_run_id p = taskRunId) (\<lambda>p. p\<lparr>po_duration := Some durationSec\<rparr>) (pods s)\<rparr>)"

section \<open>Lookups by the workers\<close>

definition GetTaskRunInfo :: "nat \<Rightarrow> db \<Rightarrow> (string \<times> string \<times> string) result" where
  "GetTaskRunInfo taskRunId s =
     (case query_row [(dg_name d, dk_name k, dg_namespace d).
            r <- taskruns s, tr_id r = taskRunId, n <- runs s, rn_id n = tr_run_id r,
            d <- dags s, dg_id d = rn_dag_id n, k <- dagtasks s, dk_id k = tr_task_id r] of
        None \<Rightarrow> Inl (Err ''failed to get task run info'')
      | Some x \<Rightarrow> Inr x)"

definition GetTaskScriptAndInjectorImage :: "nat \<Rightarrow> db \<Rightarrow> (string \<times> string) result" where
  "GetTaskScriptAndInjectorImage taskId s =
     (case query_row (filter (\<lambda>k. dk_id k = taskId) (dagtasks s)) of
        None \<Rightarrow> Inl ErrNoRows
      | Some k \<Rightarrow>
          (case find_task (dk_task_id k) s of
             None \<Rightarrow> Inl ErrNoRows
           | Some t \<Rightarrow> Inr (tk_script t, tk_scriptInjectorImage t)))"

text \<open>
  \<open>GetTaskForRun\<close> scans the text columns \<open>command\<close> and \<open>args\<close> into string slices, a conversion that \<open>database/sql\<close>
  does not support: a row that is found is an error too.
\<close>

definition GetTaskForRun :: "nat \<Rightarrow> nat \<Rightarrow> db \<Rightarrow> (Task \<times> string \<times> string) result" where
  "GetTaskForRun runId dagTaskId s =
     (case query_row [k. (k, t) <- task_join s, dk_id k = dagTaskId, r <- runs s, rn_id r = runId \<and> rn_dag_id r = dk_dag_id k,
                         d <- dags s, dg_id d = rn_dag_id r] of
        None \<Rightarrow> Inl ErrNoRows
      | Some k \<Rightarrow> Inl (Err ''sql: Scan error on column index 3, name command: unsupported Scan''))"

section \<open>The suspended tasks are those reachable from the failed one\<close>

definition suspend_rel :: "(nat \<times> nat) list \<Rightarrow> nat set \<Rightarrow> (nat \<times> nat) set" where
  "suspend_rel rows existing = {(a, b). (a, b) \<in> set rows \<and> b \<notin> existing}"

lemma set_dependents: "set (dependents rows cur) - existing = suspend_rel rows existing `` {cur}"
  by (force simp: dependents_def suspend_rel_def)

text \<open>What holds at every pass of the loop, for the search from \<open>start\<close>.\<close>

definition suspend_inv :: "(nat \<times> nat) set \<Rightarrow> nat \<Rightarrow> nat list \<Rightarrow> nat set \<Rightarrow> nat list \<Rightarrow> bool" where
  "suspend_inv R start stack seen updates \<longleftrightarrow>
     distinct updates \<and> set updates \<subseteq> R\<^sup>+ `` {start} \<and> set stack \<subseteq> insert start (set updates) \<and>
     insert start (set updates) \<subseteq> seen \<union> set stack \<and> R `` seen \<subseteq> set updates"

lemma suspend_inv_result:
  assumes "suspend_inv R start [] seen updates"
  shows "set updates = R\<^sup>+ `` {start}" "distinct updates"
proof -
  have closed: "R `` (insert start (set updates)) \<subseteq> set updates" using assms by (auto simp: suspend_inv_def)
  have "y \<in> set updates" if "(start, y) \<in> R\<^sup>+" for y
    using that by (induction rule: trancl_induct) (use closed in auto)
  then show "set updates = R\<^sup>+ `` {start}" "distinct updates" using assms by (auto simp: suspend_inv_def)
qed

lemma suspend_inv_step:
  assumes inv: "suspend_inv R start (cur # stack) seen updates" and R: "R = suspend_rel rows existing"
    and new: "suspend_children existing (dependents rows cur) (stack, updates) = (stack', updates')"
  shows "suspend_inv R start stack' (insert cur seen) updates'"
proof -
  obtain n where n: "stack' = rev n @ stack" "updates' = updates @ n" "distinct n"
    "set n = R `` {cur} - set updates"
    using suspend_children_append [of existing "dependents rows cur" stack updates] new set_dependents [of rows cur existing] R
    by auto
  have cur: "cur = start \<or> (start, cur) \<in> R\<^sup>+" using inv by (auto simp: suspend_inv_def)
  have "R `` {cur} \<subseteq> R\<^sup>+ `` {start}" using cur by (auto intro: trancl_into_trancl)
  then show ?thesis using inv n unfolding suspend_inv_def by auto
qed

lemma suspend_dfs_correct:
  assumes "suspend_inv (suspend_rel rows existing) start stack seen updates"
  shows "set (suspend_dfs rows existing stack seen updates) = (suspend_rel rows existing)\<^sup>+ `` {start} \<and>
         distinct (suspend_dfs rows existing stack seen updates)"
  using assms
proof (induction rows existing stack seen updates rule: suspend_dfs.induct)
  case (1 rows existing seen updates)
  then show ?case using suspend_inv_result by simp
next
  case (2 rows existing cur stack seen updates)
  show ?case
  proof (cases "cur \<in> seen")
    case True
    then have "suspend_inv (suspend_rel rows existing) start stack seen updates" using 2(3) by (auto simp: suspend_inv_def)
    then show ?thesis using 2(1) True by simp
  next
    case False
    then show ?thesis using 2(2) suspend_inv_step [OF 2(3) refl prod.collapse [symmetric]] by simp
  qed
qed

lemma insert_suspended_taskruns:
  "\<exists>rows. taskruns (insert_suspended run ts s) = taskruns s @ rows \<and>
     map (\<lambda>r. (tr_run_id r, tr_task_id r, tr_status r, tr_attempts r)) rows = map (\<lambda>t. (run, t, ''suspended'', 0)) ts"
  "runs (insert_suspended run ts s) = runs s" "dagtasks (insert_suspended run ts s) = dagtasks s"
proof -
  show "\<exists>rows. taskruns (insert_suspended run ts s) = taskruns s @ rows \<and>
     map (\<lambda>r. (tr_run_id r, tr_task_id r, tr_status r, tr_attempts r)) rows = map (\<lambda>t. (run, t, ''suspended'', 0)) ts"
  proof (induction ts arbitrary: s)
    case (Cons t ts)
    obtain r where r: "taskruns (snd (insert_taskrun run t ''suspended'' 0 s)) = taskruns s @ [r]"
      "(tr_run_id r, tr_task_id r, tr_status r, tr_attempts r) = (run, t, ''suspended'', 0)"
      by (simp add: insert_taskrun_def)
    obtain rows where "taskruns (insert_suspended run ts (snd (insert_taskrun run t ''suspended'' 0 s))) =
        taskruns (snd (insert_taskrun run t ''suspended'' 0 s)) @ rows"
      "map (\<lambda>r. (tr_run_id r, tr_task_id r, tr_status r, tr_attempts r)) rows = map (\<lambda>t. (run, t, ''suspended'', 0)) ts"
      using Cons by blast
    then show ?case using r by (intro exI [of _ "r # rows"]) simp
  qed simp
  show "runs (insert_suspended run ts s) = runs s" "dagtasks (insert_suspended run ts s) = dagtasks s"
    by (induction ts arbitrary: s) (simp_all add: insert_taskrun_def)
qed

lemma MarkConnecting_result:
  assumes "MarkConnectingTasksAsSuspended dagRunId taskRunId s = (Inr names, s')" "find_taskrun taskRunId s = Some start"
  shows "\<exists>updates rows. distinct updates \<and>
     set updates = (suspend_rel (dependency_rows dagRunId s) (existing_tasks dagRunId s))\<^sup>+ `` {tr_task_id start} \<and>
     set updates \<inter> existing_tasks dagRunId s = {} \<and>
     taskruns s' = taskruns s @ rows \<and>
     map (\<lambda>r. (tr_run_id r, tr_task_id r, tr_status r, tr_attempts r)) rows = map (\<lambda>t. (dagRunId, t, ''suspended'', 0)) updates \<and>
     runs s' = update_where (\<lambda>r. rn_id r = dagRunId) (\<lambda>r. r\<lparr>rn_suspendedCount := rn_suspendedCount r + length updates\<rparr>) (runs s)"
proof -
  let ?R = "suspend_rel (dependency_rows dagRunId s) (existing_tasks dagRunId s)"
  define updates where "updates = suspend_dfs (dependency_rows dagRunId s) (existing_tasks dagRunId s) [tr_task_id start] {} []"
  have "suspend_inv ?R (tr_task_id start) [tr_task_id start] {} []" by (simp add: suspend_inv_def)
  then have u: "set updates = ?R\<^sup>+ `` {tr_task_id start}" "distinct updates"
    using suspend_dfs_correct unfolding updates_def by blast+
  have "y \<notin> existing_tasks dagRunId s" if "(x, y) \<in> ?R\<^sup>+" for x y
    using that by (cases rule: trancl.cases) (auto simp: suspend_rel_def)
  then have "set updates \<inter> existing_tasks dagRunId s = {}" using u(1) by auto
  moreover obtain rows where "taskruns (insert_suspended dagRunId updates s) = taskruns s @ rows"
    "map (\<lambda>r. (tr_run_id r, tr_task_id r, tr_status r, tr_attempts r)) rows = map (\<lambda>t. (dagRunId, t, ''suspended'', 0)) updates"
    using insert_suspended_taskruns(1) by blast
  moreover have "taskruns s' = taskruns (insert_suspended dagRunId updates s) \<and>
      runs s' = update_where (\<lambda>r. rn_id r = dagRunId) (\<lambda>r. r\<lparr>rn_suspendedCount := rn_suspendedCount r + length updates\<rparr>) (runs s)"
    using assms by (auto simp: MarkConnectingTasksAsSuspended_def withTx_def Let_def insert_suspended_taskruns simp del: suspend_dfs.simps
        simp flip: updates_def split: sum.splits)
  ultimately show ?thesis using u by (intro exI [of _ updates] exI [of _ rows]) simp
qed

text \<open>
  (C4) When a task fails for good, the tasks marked as suspended are exactly those that can be reached from it along
  dependencies through tasks without a run: each gets one new task run, none of them had a run before, the earlier
  task runs are untouched, and the run's counter grows by their number.
\<close>

theorem suspends_exactly_the_dependents:
  assumes "MarkConnectingTasksAsSuspended dagRunId taskRunId s = (Inr names, s')" "find_taskrun taskRunId s = Some start"
  shows "\<exists>updates rows. distinct updates \<and>
     set updates = (suspend_rel (dependency_rows dagRunId s) (existing_tasks dagRunId s))\<^sup>+ `` {tr_task_id start} \<and>
     set updates \<inter> existing_tasks dagRunId s = {} \<and>
     taskruns s' = taskruns s @ rows \<and>
     map (\<lambda>r. (tr_run_id r, tr_task_id r, tr_status r, tr_attempts r)) rows = map (\<lambda>t. (dagRunId, t, ''suspended'', 0)) updates \<and>
     runs s' = update_where (\<lambda>r. rn_id r = dagRunId) (\<lambda>r. r\<lparr>rn_suspendedCount := rn_suspendedCount r + length updates\<rparr>) (runs s)"
  by (rule MarkConnecting_result [OF assms])

section \<open>Creation of a run\<close>

text \<open>
  Creating a run is idempotent by name: a second call with the same name, whatever its parameters, claim
  name and time, returns the identifier of the first and changes nothing, so a reconcile that is repeated after a crash starts no second run.
\<close>

theorem CreateDAGRun_idempotent:
  assumes "CreateDAGRun name dag parameters pvcName now s = (Inr i, s')"
  shows "CreateDAGRun name dag parameters' pvcName' now' s' = (Inr i, s')"
proof -
  obtain dagId where d: "dagNameToDagId (dr_DagName dag) s = Inr dagId"
    using assms by (auto simp: CreateDAGRun_def split: sum.splits)
  show ?thesis
  proof (cases "query_row (filter (\<lambda>r. rn_name r = name) (runs s))")
    case (Some r)
    then show ?thesis using assms d by (auto simp: CreateDAGRun_def)
  next
    case None
    then have "filter (\<lambda>r. rn_name r = name) (runs s) = []" by simp
    moreover have "dagNameToDagId (dr_DagName dag) s' = Inr dagId"
      using assms d None by (auto simp: CreateDAGRun_def dagNameToDagId_def)
    ultimately show ?thesis using assms d None by (auto simp: CreateDAGRun_def)
  qed
qed

section \<open>Deletion of a run\<close>

text \<open>
  Deleting a run removes it with its task runs, parameters and pods, and no row of another run.
\<close>

theorem DeleteDagRun_exact:
  "let s' = snd (DeleteDagRun i s)
   in runs s' = filter (\<lambda>r. rn_id r \<noteq> i) (runs s) \<and>
      taskruns s' = filter (\<lambda>r. tr_run_id r \<noteq> i) (taskruns s) \<and>
      runparams s' = filter (\<lambda>p. rp_run_id p \<noteq> i) (runparams s) \<and>
      pods s' = filter (\<lambda>p. \<not> (\<exists>r \<in> set (taskruns s). tr_run_id r = i \<and> tr_id r = po_task_run_id p)) (pods s) \<and>
      \<not> DagrunExists i s'"
proof -
  have "po_task_run_id p \<in> set (map tr_id (filter (\<lambda>r. tr_run_id r = i) (taskruns s))) \<longleftrightarrow>
      (\<exists>r \<in> set (taskruns s). tr_run_id r = i \<and> tr_id r = po_task_run_id p)" for p :: pod_row
    by force
  then show ?thesis by (simp add: DeleteDagRun_def Let_def delete_where_def DagrunExists_def del: set_map)
qed

section \<open>Which tasks become runnable\<close>

definition in_dag :: "nat \<Rightarrow> nat \<Rightarrow> db \<Rightarrow> bool" where
  "in_dag dagId t s \<longleftrightarrow> (\<exists>k \<in> set (dagtasks s). dk_id k = t \<and> dk_dag_id k = dagId)"

definition dep_rows_of :: "nat \<Rightarrow> db \<Rightarrow> dep_row list" where
  "dep_rows_of t s = filter (\<lambda>d. dp_task_id d = t) (deps s)"

definition success_runs :: "nat \<Rightarrow> nat \<Rightarrow> db \<Rightarrow> taskrun_row list" where
  "success_runs run a s = filter (\<lambda>r. tr_task_id r = a \<and> tr_run_id r = run \<and> tr_status r = ''success'') (taskruns s)"

definition has_started :: "nat \<Rightarrow> nat \<Rightarrow> db \<Rightarrow> bool" where
  "has_started run t s \<longleftrightarrow> (\<exists>q \<in> set (taskruns s). tr_task_id q = t \<and> tr_run_id q = run \<and>
     tr_status q \<in> {''running'', ''success'', ''failed''})"

text \<open>No task succeeded twice in the run.\<close>

definition one_success :: "nat \<Rightarrow> db \<Rightarrow> bool" where
  "one_success run s \<longleftrightarrow> (\<forall>a. length (success_runs run a s) \<le> 1)"

lemma getDependencyCounts_mem:
  "(t, n) \<in> set (getDependencyCounts dagId s) \<longleftrightarrow> in_dag dagId t s \<and> dep_rows_of t s \<noteq> [] \<and> n = length (dep_rows_of t s)"
proof -
  let ?rows = "filter (\<lambda>d. \<exists>k \<in> set (dagtasks s). dk_id k = dp_task_id d \<and> dk_dag_id k = dagId) (deps s)"
  have rows: "filter (\<lambda>d. dp_task_id d = t) ?rows = dep_rows_of t s" if "in_dag dagId t s"
    using that by (auto simp: dep_rows_of_def in_dag_def intro!: filter_cong)
  have mem: "t \<in> dp_task_id ` set ?rows \<longleftrightarrow> in_dag dagId t s \<and> dep_rows_of t s \<noteq> []"
    by (force simp: dep_rows_of_def in_dag_def filter_empty_conv)
  have "(t, n) \<in> set (getDependencyCounts dagId s) \<longleftrightarrow>
      t \<in> dp_task_id ` set ?rows \<and> n = length (filter (\<lambda>d. dp_task_id d = t) ?rows)"
    by (auto simp: getDependencyCounts_def Let_def)
  then show ?thesis unfolding mem by (cases "in_dag dagId t s") (simp_all only: rows simp_thms)
qed

lemma met_rows_of:
  "length (filter (\<lambda>(d, r). dp_task_id d = t) (met_rows dagId run s)) =
     (if in_dag dagId t s \<and> \<not> has_started run t s
      then sum_list (map (\<lambda>d. length (success_runs run (dp_depends_on d) s)) (dep_rows_of t s)) else 0)"
proof -
  let ?P = "\<lambda>d r. dp_task_id d = t \<and> tr_status r = ''success'' \<and> in_dag dagId (dp_task_id d) s \<and>
     \<not> has_started run (dp_task_id d) s \<and> tr_run_id r = run"
  have eq: "filter (\<lambda>(d, r). dp_task_id d = t) (met_rows dagId run s) =
    concat (map (\<lambda>d. map (\<lambda>r. (d, r)) (filter (\<lambda>r. tr_task_id r = dp_depends_on d \<and> ?P d r) (taskruns s))) (deps s))"
    unfolding met_rows_def in_dag_def has_started_def filter_filter filter_concat map_map comp_def
    by (intro arg_cong [of _ _ concat] map_cong refl) (auto simp: filter_map comp_def intro!: filter_cong arg_cong [of _ _ "map _"])
  have "length (filter (\<lambda>r. tr_task_id r = dp_depends_on d \<and> ?P d r) (taskruns s)) =
    (if dp_task_id d = t \<and> in_dag dagId t s \<and> \<not> has_started run t s then length (success_runs run (dp_depends_on d) s) else 0)" for d :: dep_row
    by (auto simp: success_runs_def filter_empty_conv intro!: arg_cong [of _ _ length] filter_cong)
  then have "length (filter (\<lambda>(d, r). dp_task_id d = t) (met_rows dagId run s)) =
    sum_list (map (\<lambda>d. if dp_task_id d = t \<and> in_dag dagId t s \<and> \<not> has_started run t s
      then length (success_runs run (dp_depends_on d) s) else 0) (deps s))"
    by (simp add: eq length_concat comp_def)
  also have "\<dots> = (if in_dag dagId t s \<and> \<not> has_started run t s
      then sum_list (map (\<lambda>d. length (success_runs run (dp_depends_on d) s)) (dep_rows_of t s)) else 0)"
    unfolding dep_rows_of_def by (induction "deps s" rule: list.induct) (auto simp: sum_list_map_filter' cong: if_cong)
  finally show ?thesis .
qed

lemma sum_list_all_one:
  assumes "\<forall>x \<in> set xs. f x \<le> (1 :: nat)"
  shows "sum_list (map f xs) = length xs \<longleftrightarrow> (\<forall>x \<in> set xs. f x = 1)"
proof -
  have "sum_list (map f xs) \<le> length xs" using assms by (induction xs) (auto simp: add_mono)
  then show ?thesis using assms
  proof (induction xs)
    case (Cons x xs)
    have "sum_list (map f xs) \<le> length xs" using Cons.prems(2) by (induction xs) (auto simp: add_mono)
    then show ?case using Cons by (auto simp: le_Suc_eq)
  qed simp
qed

text \<open>How many task runs of dependencies have succeeded: a dependency that succeeded twice counts twice.\<close>

definition met_count :: "nat \<Rightarrow> nat \<Rightarrow> db \<Rightarrow> nat" where
  "met_count run t s = sum_list (map (\<lambda>d. length (success_runs run (dp_depends_on d) s)) (dep_rows_of t s))"

text \<open>What the queries select: a task of the DAG with dependencies, as many successes of them as there are, that has not started.\<close>

definition released :: "nat \<Rightarrow> nat \<Rightarrow> nat \<Rightarrow> db \<Rightarrow> nat \<Rightarrow> bool" where
  "released run dagId taskRunId s t \<longleftrightarrow> in_dag dagId t s \<and> dep_rows_of t s \<noteq> [] \<and> met_count run t s = length (dep_rows_of t s) \<and>
     \<not> has_started run t s \<and> \<not> (\<exists>q \<in> set (taskruns s). tr_task_id q = t \<and> tr_run_id q = taskRunId)"

lemma getRunnableTasks_released:
  "t \<in> set (getRunnableTasks (getDependencyCounts dagId s) (getMetDependencies dagId run s) taskRunId s) \<longleftrightarrow> released run dagId taskRunId s t"
  by (auto simp: released_def met_count_def getRunnableTasks_def image_iff getDependencyCounts_mem getMetDependencies_def met_rows_of split: if_splits)

lemma met_count_one_success:
  assumes "one_success run s"
  shows "met_count run t s = length (dep_rows_of t s) \<longleftrightarrow> (\<forall>d \<in> set (dep_rows_of t s). success_runs run (dp_depends_on d) s \<noteq> [])"
proof -
  have one: "length (success_runs run a s) \<le> 1" for a using assms by (simp add: one_success_def)
  have nonempty: "success_runs run a s \<noteq> [] \<longleftrightarrow> length (success_runs run a s) = 1" for a
    using one [of a] by (cases "success_runs run a s") auto
  show ?thesis unfolding nonempty met_count_def by (rule sum_list_all_one) (use one in blast)
qed

text \<open>A task of the run's DAG that has dependencies, all successful in the run, and has not started in it.\<close>

definition ready :: "nat \<Rightarrow> nat \<Rightarrow> db \<Rightarrow> nat \<Rightarrow> bool" where
  "ready run dagId s t \<longleftrightarrow> in_dag dagId t s \<and> dep_rows_of t s \<noteq> [] \<and>
     (\<forall>d \<in> set (dep_rows_of t s). success_runs run (dp_depends_on d) s \<noteq> []) \<and> \<not> has_started run t s"

lemma released_ready:
  "one_success run s \<Longrightarrow> released run dagId taskRunId s t \<longleftrightarrow>
    ready run dagId s t \<and> \<not> (\<exists>q \<in> set (taskruns s). tr_task_id q = t \<and> tr_run_id q = taskRunId)"
  by (auto simp: released_def ready_def met_count_one_success)

lemma set_task_join: "(k, t) \<in> set (task_join s) \<longleftrightarrow> k \<in> set (dagtasks s) \<and> t \<in> set (tasks s) \<and> tk_id t = dk_task_id k"
  by (auto simp: task_join_def)

lemma getTasksByIds_map:
  "map (t_Id \<circ> fst) (getTasksByIds taskIds runId s) =
   concat (map (\<lambda>(k, t). map (\<lambda>r. dk_id k) (filter (\<lambda>r. rn_dag_id r = dk_dag_id k \<and> rn_id r = runId) (runs s)))
     (filter (\<lambda>(k, t). dk_id k \<in> set taskIds) (task_join s)))"
  unfolding getTasksByIds_def map_concat map_map
  by (rule arg_cong [of _ _ concat], rule map_cong) (simp_all add: comp_def case_prod_beta)

lemma getTasksByIds_ids:
  assumes "find_run runId s = Some run" "distinct (map rn_id (runs s))"
  shows "t_Id ` fst ` set (getTasksByIds taskIds runId s) =
    {dk_id k | k t. (k, t) \<in> set (task_join s) \<and> dk_id k \<in> set taskIds \<and> dk_dag_id k = rn_dag_id run}"
proof -
  have run: "run \<in> set (runs s)" "rn_id run = runId"
    using assms(1) query_row_Some_in [of "filter (\<lambda>r. rn_id r = runId) (runs s)" run] by (auto simp: find_run_def)
  have uniq: "r = run" if "r \<in> set (runs s)" "rn_id r = runId" for r
    using that run assms(2) by (auto simp: distinct_map inj_on_def)
  have "t_Id ` fst ` set (getTasksByIds taskIds runId s) = set (map (t_Id \<circ> fst) (getTasksByIds taskIds runId s))"
    by (simp add: image_comp)
  also have "\<dots> = {dk_id k | k t r. (k, t) \<in> set (task_join s) \<and> dk_id k \<in> set taskIds \<and> r \<in> set (runs s) \<and>
      rn_dag_id r = dk_dag_id k \<and> rn_id r = runId}"
    unfolding getTasksByIds_map by auto
  also have "\<dots> = {dk_id k | k t. (k, t) \<in> set (task_join s) \<and> dk_id k \<in> set taskIds \<and> dk_dag_id k = rn_dag_id run}"
  proof (intro set_eqI iffI)
    fix x assume "x \<in> {dk_id k | k t r. (k, t) \<in> set (task_join s) \<and> dk_id k \<in> set taskIds \<and> r \<in> set (runs s) \<and>
      rn_dag_id r = dk_dag_id k \<and> rn_id r = runId}"
    then show "x \<in> {dk_id k | k t. (k, t) \<in> set (task_join s) \<and> dk_id k \<in> set taskIds \<and> dk_dag_id k = rn_dag_id run}"
      using uniq by fastforce
  next
    fix x assume "x \<in> {dk_id k | k t. (k, t) \<in> set (task_join s) \<and> dk_id k \<in> set taskIds \<and> dk_dag_id k = rn_dag_id run}"
    then show "x \<in> {dk_id k | k t r. (k, t) \<in> set (task_join s) \<and> dk_id k \<in> set taskIds \<and> r \<in> set (runs s) \<and>
      rn_dag_id r = dk_dag_id k \<and> rn_id r = runId}"
      using run by fastforce
  qed
  finally show ?thesis .
qed

lemma fetchTaskParameters_ids: "t_Id ` set (fetchTaskParameters dagId ts s) = t_Id ` fst ` set ts"
  by (force simp: fetchTaskParameters_def image_iff)

lemma run_complete_cong:
  assumes "map (\<lambda>r. (rn_id r, rn_dag_id r, rn_successfulCount r)) (runs s') = map (\<lambda>r. (rn_id r, rn_dag_id r, rn_successfulCount r)) (runs s)"
    and "dags s' = dags s"
  shows "run_complete i s' = run_complete i s"
proof -
  have "run_complete i t \<longleftrightarrow> (\<exists>x \<in> set (map (\<lambda>r. (rn_id r, rn_dag_id r, rn_successfulCount r)) (runs t)).
      fst x = i \<and> (\<exists>d \<in> set (dags t). dg_id d = fst (snd x) \<and> dg_taskCount d = snd (snd x)))" for t
    by (simp add: run_complete_def)
  then show ?thesis by (simp only: assms)
qed

lemma MarkSuccess_incomplete:
  assumes ms: "MarkSuccessAndGetNextTasks taskRunId s = (Inr ts, s')" and r: "find_taskrun taskRunId s = Some r"
    and inc: "\<not> run_complete (tr_run_id r) s'"
  obtains run where "find_run (tr_run_id r) s' = Some run"
    "ts = fetchTaskParameters (rn_dag_id run) (getNextRunnableTasks taskRunId (tr_run_id r) (rn_dag_id run) s') s'"
proof -
  let ?s1 = "set_status taskRunId ''success'' s"
  let ?s2 = "?s1\<lparr>runs := update_where (\<lambda>x. rn_id x = tr_run_id r) (\<lambda>x. x\<lparr>rn_successfulCount := rn_successfulCount x + 1\<rparr>) (runs ?s1)\<rparr>"
  have nc: "\<not> run_complete (tr_run_id r) ?s2"
  proof
    assume "run_complete (tr_run_id r) ?s2"
    moreover from this have "s' = ?s2\<lparr>runs := update_where (\<lambda>x. rn_id x = tr_run_id r) (\<lambda>x. x\<lparr>rn_status := ''success''\<rparr>) (runs ?s2)\<rparr>"
      using ms r by (simp add: MarkSuccessAndGetNextTasks_def withTx_def Let_def)
    then have "run_complete (tr_run_id r) s' = run_complete (tr_run_id r) ?s2"
      by (intro run_complete_cong) (simp_all add: map_update_where)
    ultimately show False using inc by blast
  qed
  then obtain run where run: "find_run (tr_run_id r) ?s2 = Some run"
    using ms r by (auto simp: MarkSuccessAndGetNextTasks_def withTx_def Let_def split: option.splits)
  have "s' = ?s2 \<and> ts = fetchTaskParameters (rn_dag_id run) (getNextRunnableTasks taskRunId (tr_run_id r) (rn_dag_id run) ?s2) ?s2"
    using ms nc r run by (auto simp: MarkSuccessAndGetNextTasks_def withTx_def Let_def)
  then show thesis using that run by blast
qed

lemma MarkSuccess_keys:
  "snd (MarkSuccessAndGetNextTasks taskRunId s) = s' \<Longrightarrow> map rn_id (runs s') = map rn_id (runs s) \<and> dagtasks s' = dagtasks s"
  by (auto simp: MarkSuccessAndGetNextTasks_def withTx_def Let_def set_status_def map_update_where split: option.splits if_splits)

lemma MarkSuccess_complete:
  assumes ms: "MarkSuccessAndGetNextTasks taskRunId s = (Inr ts, s')" and r: "find_taskrun taskRunId s = Some r"
    and c: "run_complete (tr_run_id r) s'"
  shows "ts = []"
proof -
  let ?s1 = "set_status taskRunId ''success'' s"
  let ?s2 = "?s1\<lparr>runs := update_where (\<lambda>x. rn_id x = tr_run_id r) (\<lambda>x. x\<lparr>rn_successfulCount := rn_successfulCount x + 1\<rparr>) (runs ?s1)\<rparr>"
  show ?thesis
  proof (cases "run_complete (tr_run_id r) ?s2")
    case True
    with ms r show ?thesis by (simp add: MarkSuccessAndGetNextTasks_def withTx_def Let_def)
  next
    case False
    then have "s' = ?s2" using ms r by (auto simp: MarkSuccessAndGetNextTasks_def withTx_def Let_def split: option.splits)
    with False c show ?thesis by simp
  qed
qed

lemma distinct_concat_keys:
  assumes "distinct (map g xs)" "\<And>x. x \<in> set xs \<Longrightarrow> distinct (f x) \<and> set (f x) \<subseteq> {g x}"
  shows "distinct (concat (map f xs))"
  using assms
proof (induction xs)
  case (Cons x xs)
  have "set (f x) \<inter> set (f y) = {}" if "y \<in> set xs" for y
  proof -
    have "g x \<noteq> g y" using that Cons.prems(1) by auto
    then show ?thesis using Cons.prems(2) [of x] Cons.prems(2) [of y] that by fastforce
  qed
  then show ?case using Cons by auto
qed simp

lemma distinct_lookup:
  assumes "distinct (map key xs)"
  shows "distinct (map (\<lambda>x. c) (filter (\<lambda>x. Q x \<and> key x = i) xs))"
  using assms
proof (induction xs)
  case (Cons x xs)
  have new: "key y \<noteq> key x" if "y \<in> set xs" for y
  proof -
    have "key x \<notin> key ` set xs" using Cons.prems by simp
    then show ?thesis using imageI [OF that, of key] by metis
  qed
  have "filter (\<lambda>y. Q y \<and> key y = i) xs = []" if "key x = i"
    using new that by (auto simp: filter_empty_conv)
  then show ?case using Cons by auto
qed simp

lemma task_join_keys:
  assumes "distinct (map dk_id (dagtasks s))" "distinct (map tk_id (tasks s))"
  shows "distinct (map (\<lambda>(k, t). dk_id k) (task_join s))"
proof -
  have *: "distinct (concat (map (\<lambda>k. map (\<lambda>t. dk_id k) (filter (\<lambda>t. True \<and> tk_id t = dk_task_id k) (tasks s))) (dagtasks s)))"
    by (rule distinct_concat_keys [of dk_id]) (use assms distinct_lookup [of tk_id "tasks s" _ "\<lambda>_. True"] in auto)
  then show ?thesis by (simp add: task_join_def map_concat comp_def)
qed

lemma getTasksByIds_distinct:
  assumes "distinct (map dk_id (dagtasks s))" "distinct (map tk_id (tasks s))" "distinct (map rn_id (runs s))"
  shows "distinct (map (t_Id \<circ> fst) (getTasksByIds taskIds runId s))"
proof -
  let ?xs = "filter (\<lambda>(k, t). dk_id k \<in> set taskIds) (task_join s)"
  have "distinct (map (\<lambda>(k, t). dk_id k) ?xs)" by (rule distinct_map_filter [OF task_join_keys [OF assms(1,2)]])
  then show ?thesis unfolding getTasksByIds_map
    by (rule distinct_concat_keys) (use distinct_lookup [OF assms(3)] in auto)
qed

lemma fetchTaskParameters_map: "map t_Id (fetchTaskParameters dagId ts s) = map (t_Id \<circ> fst) ts"
  by (induction ts) (auto simp: fetchTaskParameters_def)

lemma MarkSuccess_tasks: "snd (MarkSuccessAndGetNextTasks taskRunId s) = s' \<Longrightarrow> tasks s' = tasks s"
  by (auto simp: MarkSuccessAndGetNextTasks_def withTx_def Let_def set_status_def split: option.splits if_splits)

lemma MarkSuccess_released:
  assumes "MarkSuccessAndGetNextTasks taskRunId s = (Inr ts, s')" "find_taskrun taskRunId s = Some r"
    and "\<not> run_complete (tr_run_id r) s'" "keys_ok s"
  obtains run where "find_run (tr_run_id r) s' = Some run" "distinct (map t_Id ts)"
    "t_Id ` set ts = {dk_id k | k t. (k, t) \<in> set (task_join s') \<and> released (tr_run_id r) (rn_dag_id run) taskRunId s' (dk_id k)}"
proof -
  obtain run where run: "find_run (tr_run_id r) s' = Some run"
    "ts = fetchTaskParameters (rn_dag_id run) (getNextRunnableTasks taskRunId (tr_run_id r) (rn_dag_id run) s') s'"
    by (rule MarkSuccess_incomplete [OF assms(1-3)])
  have keys: "distinct (map rn_id (runs s'))" "distinct (map dk_id (dagtasks s'))" "distinct (map tk_id (tasks s'))"
    using MarkSuccess_keys [of taskRunId s s'] MarkSuccess_tasks [of taskRunId s s'] assms(1,4) by (simp_all add: keys_ok_def keys_defs)
  have dag: "dk_dag_id k = d" if "k \<in> set (dagtasks s')" "in_dag d (dk_id k) s'" for k d
    using that keys(2) by (auto simp: in_dag_def distinct_map inj_on_def)
  have "t_Id ` set ts = {dk_id k | k t. (k, t) \<in> set (task_join s') \<and>
      released (tr_run_id r) (rn_dag_id run) taskRunId s' (dk_id k) \<and> dk_dag_id k = rn_dag_id run}"
    by (simp only: run(2) fetchTaskParameters_ids getNextRunnableTasks_def getTasksByIds_ids [OF run(1) keys(1)] getRunnableTasks_released)
  also have "\<dots> = {dk_id k | k t. (k, t) \<in> set (task_join s') \<and> released (tr_run_id r) (rn_dag_id run) taskRunId s' (dk_id k)}"
    using dag by (auto simp: released_def set_task_join)
  finally have ids: "t_Id ` set ts =
      {dk_id k | k t. (k, t) \<in> set (task_join s') \<and> released (tr_run_id r) (rn_dag_id run) taskRunId s' (dk_id k)}" .
  show thesis
    by (rule that [OF run(1) _ ids]) (simp only: run(2) fetchTaskParameters_map getNextRunnableTasks_def getTasksByIds_distinct [OF keys(2,3,1)])
qed

text \<open>
  (C3) The tasks that a success releases, exactly. When the run is complete there are none. Otherwise they are, each once, the tasks of the run's DAG
  that have dependencies, for which the successful task runs of these dependencies in the run, counted with repetitions, are as many as the
  dependencies, and which have no running, successful or failed task run in the run, less those with a task run in the run whose number
  equals the number of the finished \<^emph>\<open>task run\<close> (the query compares \<open>run_id\<close> with it). A task that waits as pending is therefore released again. If no task has
  succeeded twice in the run, a released task has had a success of every dependency.
\<close>

theorem released_tasks_exact:
  assumes "MarkSuccessAndGetNextTasks taskRunId s = (Inr ts, s')" "find_taskrun taskRunId s = Some r" "keys_ok s"
  shows "if run_complete (tr_run_id r) s' then ts = []
    else \<exists>run. find_run (tr_run_id r) s' = Some run \<and> distinct (map t_Id ts) \<and>
      t_Id ` set ts = {dk_id k | k t. (k, t) \<in> set (task_join s') \<and> released (tr_run_id r) (rn_dag_id run) taskRunId s' (dk_id k)} \<and>
      (one_success (tr_run_id r) s' \<longrightarrow> (\<forall>i \<in> t_Id ` set ts. ready (tr_run_id r) (rn_dag_id run) s' i))"
proof (cases "run_complete (tr_run_id r) s'")
  case True
  then show ?thesis using MarkSuccess_complete [OF assms(1,2)] by simp
next
  case False
  obtain run where "find_run (tr_run_id r) s' = Some run" "distinct (map t_Id ts)"
    "t_Id ` set ts = {dk_id k | k t. (k, t) \<in> set (task_join s') \<and> released (tr_run_id r) (rn_dag_id run) taskRunId s' (dk_id k)}"
    by (rule MarkSuccess_released [OF assms(1,2) False assms(3)])
  then show ?thesis using False released_ready [of "tr_run_id r" s'] by auto
qed

section \<open>A task released twice\<close>

text \<open>
  A run with three tasks, in which \<open>c\<close> (3) depends on \<open>a\<close> (1) and \<open>b\<close> (2) is independent: \<open>a\<close> has succeeded, \<open>b\<close> is
  running, and \<open>c\<close> is pending, waiting for a worker.
\<close>

definition ex_dagtask :: "nat \<Rightarrow> string \<Rightarrow> dagtask_row" where
  "ex_dagtask i n = \<lparr>dk_id = i, dk_dag_id = 1, dk_task_id = 1, dk_name = n, dk_version = 1\<rparr>"

definition ex_taskrun :: "nat \<Rightarrow> string \<Rightarrow> taskrun_row" where
  "ex_taskrun i st = \<lparr>tr_id = i, tr_run_id = 1, tr_task_id = i, tr_status = st, tr_attempts = 0, tr_claimed_by = None,
     tr_claimed_at = None, tr_lease = None, tr_scheduled_start = None, tr_retry_env = None\<rparr>"

definition ex_task_row :: task_row where
  "ex_task_row = \<lparr>tk_id = 1, tk_name = ''shared'', tk_command = [''sh''], tk_args = [], tk_image = ''alpine'', tk_parameters = [],
     tk_backoffLimit = 1, tk_isConditional = False, tk_podTemplate = None, tk_retryCodes = [], tk_script = '''',
     tk_scriptInjectorImage = '''', tk_inline = False, tk_namespace = ''ns'', tk_version = 1, tk_hash = None\<rparr>"

definition ex_dag_row :: dag_row where
  "ex_dag_row = \<lparr>dg_id = 1, dg_name = ''etl'', dg_version = 0, dg_hash = ''h'', dg_schedule = '''', dg_namespace = ''ns'',
     dg_active = True, dg_taskCount = 3, dg_nexttime = None, dg_webhookUrl = '''', dg_sslVerification = False,
     dg_workspaceEnabled = None, dg_suspended = False\<rparr>"

definition ex_run_row :: run_row where
  "ex_run_row = \<lparr>rn_id = 1, rn_name = ''run'', rn_dag_id = 1, rn_status = ''running'', rn_successfulCount = 1,
     rn_failedCount = 0, rn_suspendedCount = 0, rn_run_time = 0, rn_pvcName = None\<rparr>"

definition ex_run_db :: db where
  "ex_run_db = empty_db\<lparr>dags := [ex_dag_row], tasks := [ex_task_row], dagtasks := [ex_dagtask 1 ''a'', ex_dagtask 2 ''b'', ex_dagtask 3 ''c''],
     deps := [\<lparr>dp_task_id = 3, dp_depends_on = 1\<rparr>], runs := [ex_run_row],
     taskruns := [ex_taskrun 1 ''success'', ex_taskrun 2 ''running'', ex_taskrun 3 ''pending''],
     next_dag := 2, next_task := 2, next_dagtask := 4, next_run := 2, next_taskrun := 4\<rparr>"

lemmas ex_run_defs = ex_run_db_def empty_db_def ex_run_row_def ex_dag_row_def ex_task_row_def ex_taskrun_def ex_dagtask_def

lemmas mark_success_defs = MarkSuccessAndGetNextTasks_def withTx_def find_taskrun_def Let_def set_status_def run_complete_def
  find_run_def fetchTaskParameters_def getNextRunnableTasks_def getTasksByIds_def getRunnableTasks_def getDependencyCounts_def
  getMetDependencies_def met_rows_def task_join_def with_workspace_def

lemma ex_run_ok: "keys_ok ex_run_db"
  by (simp add: keys_ok_def keys_defs ex_run_defs)

text \<open>
  Because the query for an existing task run compares \<open>run_id\<close> with a task run's number, a task that is already
  waiting as pending is released again by the success of another task of the same run.
\<close>

theorem pending_task_released_again:
  "keys_ok ex_run_db \<and> TaskRunExists 1 3 ex_run_db \<and>
   map_sum id (map t_Id) (fst (MarkSuccessAndGetNextTasks 2 ex_run_db)) = Inr [3]"
  by (simp add: ex_run_ok) (simp add: TaskRunExists_def mark_success_defs ex_run_defs)

text \<open>
  A task that was released twice can succeed twice, and its successes are then counted for another dependency: here \<open>c\<close> depends on \<open>a\<close> and \<open>b\<close>, and
  is released by the success of a fourth task although \<open>b\<close> is still running.
\<close>

definition ex_early_db :: db where
  "ex_early_db = ex_run_db\<lparr>dags := [ex_dag_row\<lparr>dg_taskCount := 4\<rparr>],
     dagtasks := [ex_dagtask 1 ''a'', ex_dagtask 2 ''b'', ex_dagtask 3 ''c'', ex_dagtask 4 ''d''],
     deps := [\<lparr>dp_task_id = 3, dp_depends_on = 1\<rparr>, \<lparr>dp_task_id = 3, dp_depends_on = 2\<rparr>],
     taskruns := [ex_taskrun 1 ''success'', ex_taskrun 2 ''running'', ex_taskrun 4 ''running'', (ex_taskrun 1 ''success'')\<lparr>tr_id := 5\<rparr>],
     next_dagtask := 5, next_taskrun := 6\<rparr>"

theorem task_released_too_early:
  "keys_ok ex_early_db \<and> map_sum id (map t_Id) (fst (MarkSuccessAndGetNextTasks 4 ex_early_db)) = Inr [3] \<and>
   \<lparr>dp_task_id = 3, dp_depends_on = 2\<rparr> \<in> set (dep_rows_of 3 ex_early_db) \<and> success_runs 1 2 (snd (MarkSuccessAndGetNextTasks 4 ex_early_db)) = []"
  by (simp add: keys_ok_def keys_defs mark_success_defs dep_rows_of_def success_runs_def ex_early_db_def ex_run_defs)

section \<open>Further examples\<close>

theorem released_tasks_exact_witness:
  "\<exists>ts s' run. MarkSuccessAndGetNextTasks 2 ex_run_db = (Inr ts, s') \<and> find_run 1 s' = Some run \<and>
     t_Id ` set ts = {3} \<and> distinct (map t_Id ts) \<and> released 1 (rn_dag_id run) 2 s' 3 \<and> ready 1 (rn_dag_id run) s' 3"
proof -
  define s' where "s' = snd (MarkSuccessAndGetNextTasks 2 ex_run_db)"
  obtain ts where ts: "MarkSuccessAndGetNextTasks 2 ex_run_db = (Inr ts, s')" "t_Id ` set ts = {3}"
    unfolding s'_def by (simp add: mark_success_defs ex_run_defs)
  have r: "find_taskrun 2 ex_run_db = Some (ex_taskrun 2 ''running'')" "tr_run_id (ex_taskrun 2 ''running'') = 1"
    by (simp_all add: find_taskrun_def ex_run_defs)
  have s': "\<not> run_complete 1 s'" "one_success 1 s'"
    by (simp_all add: s'_def mark_success_defs ex_run_defs one_success_def success_runs_def)
  have "\<exists>run. find_run 1 s' = Some run \<and> distinct (map t_Id ts) \<and>
      t_Id ` set ts = {dk_id k | k t. (k, t) \<in> set (task_join s') \<and> released 1 (rn_dag_id run) 2 s' (dk_id k)} \<and>
      (one_success 1 s' \<longrightarrow> (\<forall>i \<in> t_Id ` set ts. ready 1 (rn_dag_id run) s' i))"
    using released_tasks_exact [OF ts(1) r(1) ex_run_ok] s'(1) unfolding r(2) by (simp only: if_False)
  then obtain run where run: "find_run 1 s' = Some run" "distinct (map t_Id ts)"
    "t_Id ` set ts = {dk_id k | k t. (k, t) \<in> set (task_join s') \<and> released 1 (rn_dag_id run) 2 s' (dk_id k)}"
    "\<forall>i \<in> t_Id ` set ts. ready 1 (rn_dag_id run) s' i"
    using s'(2) by blast
  have "3 \<in> t_Id ` set ts" by (simp add: ts(2))
  moreover from this have "released 1 (rn_dag_id run) 2 s' 3" unfolding run(3) by auto
  ultimately show ?thesis using ts run by blast
qed

definition ex_fail_db :: db where
  "ex_fail_db = ex_run_db\<lparr>taskruns := [ex_taskrun 1 ''failed'', ex_taskrun 2 ''running'']\<rparr>"

theorem suspends_exactly_the_dependents_witness:
  "\<exists>names s' r. MarkConnectingTasksAsSuspended 1 1 ex_fail_db = (Inr names, s') \<and>
     r \<in> set (taskruns s') \<and> tr_task_id r = 3 \<and> tr_status r = ''suspended''"
proof -
  let ?R = "suspend_rel (dependency_rows 1 ex_fail_db) (existing_tasks 1 ex_fail_db)"
  define s' where "s' = snd (MarkConnectingTasksAsSuspended 1 1 ex_fail_db)"
  have m: "MarkConnectingTasksAsSuspended 1 1 ex_fail_db = (Inr [''c''], s')"
    unfolding s'_def by (simp add: MarkConnectingTasksAsSuspended_def withTx_def Let_def find_taskrun_def find_run_def
        dependency_rows_def existing_tasks_def dependents_def insert_taskrun_def ex_fail_db_def ex_run_defs)
  have r: "find_taskrun 1 ex_fail_db = Some (ex_taskrun 1 ''failed'')" "tr_task_id (ex_taskrun 1 ''failed'') = 1"
    by (simp_all add: find_taskrun_def ex_fail_db_def ex_run_defs)
  have "(1, 3) \<in> ?R"
    by (simp add: suspend_rel_def dependency_rows_def find_run_def existing_tasks_def ex_fail_db_def ex_run_defs)
  then have "3 \<in> ?R\<^sup>+ `` {1}" by auto
  then obtain updates rows where u: "3 \<in> set updates" "taskruns s' = taskruns ex_fail_db @ rows"
    "map (\<lambda>r. (tr_run_id r, tr_task_id r, tr_status r, tr_attempts r)) rows = map (\<lambda>t. (1, t, ''suspended'', 0)) updates"
    using suspends_exactly_the_dependents [OF m r(1)] unfolding r(2) by blast
  have "(1, 3, ''suspended'', 0) \<in> set (map (\<lambda>r. (tr_run_id r, tr_task_id r, tr_status r, tr_attempts r)) rows)"
    unfolding u(3) using u(1) by auto
  then obtain q where "q \<in> set rows" "tr_task_id q = 3" "tr_status q = ''suspended''" by auto
  then show ?thesis using m u(2) by (intro exI [of _ "[''c'']"] exI [of _ s'] exI [of _ q]) simp
qed

theorem CreateDAGRun_idempotent_witness:
  "\<exists>s'. CreateDAGRun ''nightly'' \<lparr>dr_DagName = ''etl'', dr_Parameters = []\<rparr> [] None 0 ex_run_db = (Inr 2, s') \<and>
     CreateDAGRun ''nightly'' \<lparr>dr_DagName = ''etl'', dr_Parameters = []\<rparr> [] (Some ''pvc'') 9 s' = (Inr 2, s')"
proof -
  obtain s' where "CreateDAGRun ''nightly'' \<lparr>dr_DagName = ''etl'', dr_Parameters = []\<rparr> [] None 0 ex_run_db = (Inr 2, s')"
    by (simp add: CreateDAGRun_def dagNameToDagId_def ex_run_defs)
  then show ?thesis using CreateDAGRun_idempotent by blast
qed

end
