(* ===== verification/Task_Claims.thy ===== *)
theory Task_Claims
  imports Sqlite_Runs
begin

text \<open>
  Claims and leases on pending task runs, for both database managers: \<open>ClaimTasks\<close>, \<open>ClaimTaskByID\<close>, \<open>RenewLease\<close>,
  \<open>FinalizeClaimToRunning\<close> and \<open>RecoverExpiredLeases\<close> of \<open>sqliteManager.go\<close> and \<open>postgresDAGManager.go\<close>. Clocks and
  durations are in nanoseconds. Postgres keeps timestamps of the clock; SQLite keeps whole seconds,
  the lease formatted in local time (offset \<open>tz\<close>) and compared with \<open>datetime('now')\<close>, which is UTC. The locales
  state what a worker relies on: nobody else holds a lease it has been given.
\<close>

section \<open>Claimable rows\<close>

definition expired :: "int \<Rightarrow> int option \<Rightarrow> bool" where
  "expired now lease = (case lease of None \<Rightarrow> False | Some l \<Rightarrow> l \<le> now)"

definition claimable :: "int \<Rightarrow> taskrun_row \<Rightarrow> bool" where
  "claimable now r \<longleftrightarrow> tr_status r = ''pending'' \<and> (tr_claimed_by r = None \<or> expired now (tr_lease r))"

definition start_reached :: "int \<Rightarrow> taskrun_row \<Rightarrow> bool" where
  "start_reached now r = (case tr_scheduled_start r of None \<Rightarrow> True | Some t \<Rightarrow> t \<le> now)"

definition claim_row :: "string \<Rightarrow> int \<Rightarrow> int \<Rightarrow> taskrun_row \<Rightarrow> taskrun_row" where
  "claim_row workerId now lease r = r\<lparr>tr_claimed_by := Some workerId, tr_claimed_at := Some now, tr_lease := Some lease\<rparr>"

definition unclaim_row :: "taskrun_row \<Rightarrow> taskrun_row" where
  "unclaim_row r = r\<lparr>tr_claimed_by := None, tr_claimed_at := None, tr_lease := None\<rparr>"

definition task_claim :: "taskrun_row \<Rightarrow> TaskClaim" where
  "task_claim r = \<lparr>cl_TaskRunID = tr_id r, cl_TaskID = tr_task_id r, cl_RunID = tr_run_id r\<rparr>"

lemma claim_row_simps [simp]:
  "tr_id (claim_row w n l r) = tr_id r" "tr_claimed_by (claim_row w n l r) = Some w" "tr_lease (claim_row w n l r) = Some l"
  "tr_id (unclaim_row r) = tr_id r" "tr_claimed_by (unclaim_row r) = None" "tr_lease (unclaim_row r) = None"
  "tr_status (claim_row w n l r) = tr_status r" "tr_status (unclaim_row r) = tr_status r"
  by (simp_all add: claim_row_def unclaim_row_def)

section \<open>Postgres\<close>

text \<open>The whole seconds of a time or duration in nanoseconds; Go truncates towards zero, which differs only for a negative one.\<close>

definition seconds :: "int \<Rightarrow> int" where
  "seconds d = d div 1000000000"

definition pg_lease :: "int \<Rightarrow> int \<Rightarrow> int" where
  "pg_lease now leaseTTL = now + seconds leaseTTL * 1000000000"

text \<open>
  \<open>FOR UPDATE SKIP LOCKED\<close> passes over the rows that a concurrent transaction has locked, the set \<open>locked\<close>;
  the outer update repeats the conditions on the rows it locked itself.
\<close>

definition pg_ClaimTasks :: "nat set \<Rightarrow> nat \<Rightarrow> string \<Rightarrow> int \<Rightarrow> int \<Rightarrow> db \<Rightarrow> TaskClaim list \<times> db" where
  "pg_ClaimTasks locked limit workerId leaseTTL now s =
     (let candidates = take limit (filter (\<lambda>r. start_reached now r \<and> claimable now r \<and> tr_id r \<notin> locked) (taskruns s));
          hit = (\<lambda>r. tr_id r \<in> tr_id ` set candidates \<and> claimable now r)
      in (map task_claim (filter hit (taskruns s)),
          s\<lparr>taskruns := update_where hit (claim_row workerId now (pg_lease now leaseTTL)) (taskruns s)\<rparr>))"

definition pg_ClaimTaskByID :: "string \<Rightarrow> int \<Rightarrow> int \<Rightarrow> nat \<Rightarrow> TaskClaim op" where
  "pg_ClaimTaskByID workerId leaseTTL now taskRunId s =
     (let hit = (\<lambda>r. tr_id r = taskRunId \<and> claimable now r)
      in case query_row (filter hit (taskruns s)) of
           None \<Rightarrow> (Inl ErrNoRows, s)
         | Some r \<Rightarrow> (Inr (task_claim r),
                     s\<lparr>taskruns := update_where hit (claim_row workerId now (pg_lease now leaseTTL)) (taskruns s)\<rparr>))"

definition pg_RenewLease :: "string \<Rightarrow> int \<Rightarrow> int \<Rightarrow> nat \<Rightarrow> unit op" where
  "pg_RenewLease workerId leaseTTL now taskRunId s =
     (let hit = (\<lambda>r. tr_id r = taskRunId \<and> tr_claimed_by r = Some workerId)
      in (if rows_affected hit (taskruns s) = 0 then Inl (Err ''failed to renew lease: not owner or task not claimed'') else Inr (),
          s\<lparr>taskruns := update_where hit (\<lambda>r. r\<lparr>tr_lease := Some (pg_lease now leaseTTL)\<rparr>) (taskruns s)\<rparr>))"

definition pg_FinalizeClaimToRunning :: "string \<Rightarrow> nat \<Rightarrow> unit op" where
  "pg_FinalizeClaimToRunning workerId taskRunId s =
     (let hit = (\<lambda>r. tr_id r = taskRunId \<and> tr_claimed_by r = Some workerId)
      in (if rows_affected hit (taskruns s) = 0 then Inl ErrNoRows else Inr (),
          s\<lparr>taskruns := update_where hit (\<lambda>r. (unclaim_row r)\<lparr>tr_status := ''running''\<rparr>) (taskruns s)\<rparr>))"

definition pg_RecoverExpiredLeases :: "int \<Rightarrow> nat op" where
  "pg_RecoverExpiredLeases now s =
     (let hit = (\<lambda>r. expired now (tr_lease r) \<and> tr_status r = ''pending'')
      in (Inr (rows_affected hit (taskruns s)), s\<lparr>taskruns := update_where hit unclaim_row (taskruns s)\<rparr>))"

section \<open>SQLite\<close>

definition sq_lease :: "int \<Rightarrow> int \<Rightarrow> int \<Rightarrow> int" where
  "sq_lease tz now leaseTTL = (now + leaseTTL) div 1000000000 + tz"

text \<open>The selection does not look at the claim columns.\<close>

definition ClaimTasks :: "int \<Rightarrow> nat \<Rightarrow> string \<Rightarrow> int \<Rightarrow> int \<Rightarrow> db \<Rightarrow> TaskClaim list \<times> db" where
  "ClaimTasks tz limit workerId leaseTTL now s =
     (let rows = take limit (filter (\<lambda>r. tr_status r = ''pending'' \<and> start_reached (seconds now) r) (taskruns s))
      in if rows = [] then ([], s)
         else (map task_claim rows,
               s\<lparr>taskruns := update_where (\<lambda>r. tr_id r \<in> tr_id ` set rows)
                   (claim_row workerId (seconds now) (sq_lease tz now leaseTTL)) (taskruns s)\<rparr>))"

definition ClaimTaskByID :: "int \<Rightarrow> string \<Rightarrow> int \<Rightarrow> int \<Rightarrow> nat \<Rightarrow> TaskClaim op" where
  "ClaimTaskByID tz workerId leaseTTL now taskRunId s =
     (let hit = (\<lambda>r. tr_id r = taskRunId \<and> claimable (seconds now) r);
          s' = s\<lparr>taskruns := update_where hit (claim_row workerId (seconds now) (sq_lease tz now leaseTTL)) (taskruns s)\<rparr>
      in if rows_affected hit (taskruns s) = 0 then (Inl (Err ''failed to claim task''), s')
         else (case find_taskrun taskRunId s' of
                 None \<Rightarrow> (Inl ErrNoRows, s')
               | Some r \<Rightarrow> (Inr (task_claim r), s')))"

definition RenewLease :: "int \<Rightarrow> string \<Rightarrow> int \<Rightarrow> int \<Rightarrow> nat \<Rightarrow> unit op" where
  "RenewLease tz workerId leaseTTL now taskRunId s =
     (let hit = (\<lambda>r. tr_id r = taskRunId \<and> tr_claimed_by r = Some workerId)
      in (if rows_affected hit (taskruns s) = 0 then Inl (Err ''failed to renew lease: not owner or task not claimed'') else Inr (),
          s\<lparr>taskruns := update_where hit (\<lambda>r. r\<lparr>tr_lease := Some (sq_lease tz now leaseTTL)\<rparr>) (taskruns s)\<rparr>))"

definition FinalizeClaimToRunning :: "string \<Rightarrow> nat \<Rightarrow> unit op" where
  "FinalizeClaimToRunning workerId taskRunId s =
     (let hit = (\<lambda>r. tr_id r = taskRunId \<and> tr_claimed_by r = Some workerId)
      in (if rows_affected hit (taskruns s) = 0 then Inl (Err ''failed to finalize claim: not owner or task not claimed'') else Inr (),
          s\<lparr>taskruns := update_where hit (\<lambda>r. (unclaim_row r)\<lparr>tr_status := ''running''\<rparr>) (taskruns s)\<rparr>))"

definition RecoverExpiredLeases :: "int \<Rightarrow> nat op" where
  "RecoverExpiredLeases now s =
     (let hit = (\<lambda>r. expired (seconds now) (tr_lease r) \<and> tr_status r = ''pending'')
      in (Inr (rows_affected hit (taskruns s)), s\<lparr>taskruns := update_where hit unclaim_row (taskruns s)\<rparr>))"

section \<open>Workers and their leases\<close>

text \<open>
  The state of a system of workers: the clock, the database, and the leases that workers have been given, as triples
  of worker, task run and expiry. A lease is live while the database clock is before its expiry. \<open>quiet\<close> steps are the operations
  that leave the claim columns alone; the rows they add carry new numbers.
\<close>

type_synonym lease_sys = "int \<times> db \<times> (string \<times> nat \<times> int) set"

definition quiet :: "db \<Rightarrow> db \<Rightarrow> bool" where
  "quiet s s' \<longleftrightarrow> run_keys s' \<and> next_taskrun s \<le> next_taskrun s' \<and>
     (\<forall>r' \<in> set (taskruns s').
        (\<exists>r \<in> set (taskruns s). tr_id r = tr_id r' \<and> tr_claimed_by r = tr_claimed_by r' \<and> tr_lease r = tr_lease r') \<or>
        next_taskrun s \<le> tr_id r')"

inductive lease_step ::
    "(int \<Rightarrow> int) \<Rightarrow> (nat set \<Rightarrow> nat \<Rightarrow> string \<Rightarrow> int \<Rightarrow> db \<Rightarrow> TaskClaim list \<times> db) \<Rightarrow> (string \<Rightarrow> int \<Rightarrow> nat \<Rightarrow> TaskClaim op) \<Rightarrow>
     (string \<Rightarrow> int \<Rightarrow> nat \<Rightarrow> unit op) \<Rightarrow> (string \<Rightarrow> nat \<Rightarrow> unit op) \<Rightarrow> (int \<Rightarrow> nat op) \<Rightarrow> lease_sys \<Rightarrow> lease_sys \<Rightarrow> bool"
  for expiry claim claim_id renew finalize recover where
  tick: "now \<le> now' \<Longrightarrow> lease_step expiry claim claim_id renew finalize recover (now, s, H) (now', s, H)"
| claim_many: "claim locked limit w now s = (cs, s') \<Longrightarrow>
    lease_step expiry claim claim_id renew finalize recover (now, s, H) (now, s', H \<union> (\<lambda>c. (w, cl_TaskRunID c, expiry now)) ` set cs)"
| claim_one: "claim_id w now i s = (Inr c, s') \<Longrightarrow>
    lease_step expiry claim claim_id renew finalize recover (now, s, H) (now, s', insert (w, cl_TaskRunID c, expiry now) H)"
| claim_none: "claim_id w now i s = (Inl e, s') \<Longrightarrow>
    lease_step expiry claim claim_id renew finalize recover (now, s, H) (now, s', H)"
| renewed: "renew w now i s = (Inr u, s') \<Longrightarrow>
    lease_step expiry claim claim_id renew finalize recover (now, s, H) (now, s', insert (w, i, expiry now) H)"
| not_renewed: "renew w now i s = (Inl e, s') \<Longrightarrow>
    lease_step expiry claim claim_id renew finalize recover (now, s, H) (now, s', H)"
| finalized: "finalize w i s = (Inr u, s') \<Longrightarrow>
    lease_step expiry claim claim_id renew finalize recover (now, s, H) (now, s', {x \<in> H. \<not> (fst x = w \<and> fst (snd x) = i)})"
| not_finalized: "finalize w i s = (Inl e, s') \<Longrightarrow>
    lease_step expiry claim claim_id renew finalize recover (now, s, H) (now, s', H)"
| recovered: "recover now s = (x, s') \<Longrightarrow>
    lease_step expiry claim claim_id renew finalize recover (now, s, H) (now, s', H)"
| other: "quiet s s' \<Longrightarrow> lease_step expiry claim claim_id renew finalize recover (now, s, H) (now, s', H)"

text \<open>A database before anything has been claimed.\<close>

definition unclaimed :: "db \<Rightarrow> bool" where
  "unclaimed s \<longleftrightarrow> run_keys s \<and> (\<forall>r \<in> set (taskruns s). tr_claimed_by r = None)"

text \<open>A live lease of the bookkeeping is a lease of the table.\<close>

definition backed :: "db \<Rightarrow> string \<times> nat \<times> int \<Rightarrow> bool" where
  "backed s h \<longleftrightarrow> (\<forall>r \<in> set (taskruns s). tr_id r = fst (snd h) \<longrightarrow>
     tr_claimed_by r = Some (fst h) \<and> (\<exists>l. tr_lease r = Some l \<and> snd (snd h) \<le> l))"

text \<open>The interface of the claim operations on single task runs.\<close>

locale lease_core =
  fixes clk :: "int \<Rightarrow> int"
    and expiry :: "int \<Rightarrow> int"
    and claim_id :: "string \<Rightarrow> int \<Rightarrow> nat \<Rightarrow> TaskClaim op"
    and renew :: "string \<Rightarrow> int \<Rightarrow> nat \<Rightarrow> unit op"
    and finalize :: "string \<Rightarrow> nat \<Rightarrow> unit op"
    and recover :: "int \<Rightarrow> nat op"
  assumes clk_mono: "now \<le> now' \<Longrightarrow> clk now \<le> clk now'"
    and expiry_mono: "now \<le> now' \<Longrightarrow> expiry now \<le> expiry now'"
    and claim_id_ok: "run_keys s \<Longrightarrow> claim_id w now i s = (Inr c, s') \<Longrightarrow>
      cl_TaskRunID c = i \<and> (\<exists>r \<in> set (taskruns s). tr_id r = i \<and> claimable (clk now) r) \<and>
      s' = s\<lparr>taskruns := update_where (\<lambda>r. tr_id r = i \<and> claimable (clk now) r) (claim_row w (clk now) (expiry now)) (taskruns s)\<rparr>"
    and claim_id_err: "run_keys s \<Longrightarrow> claim_id w now i s = (Inl e, s') \<Longrightarrow> s' = s"
    and renew_ok: "renew w now i s = (Inr u, s') \<Longrightarrow>
      (\<exists>r \<in> set (taskruns s). tr_id r = i \<and> tr_claimed_by r = Some w) \<and>
      s' = s\<lparr>taskruns := update_where (\<lambda>r. tr_id r = i \<and> tr_claimed_by r = Some w) (\<lambda>r. r\<lparr>tr_lease := Some (expiry now)\<rparr>) (taskruns s)\<rparr>"
    and renew_err: "renew w now i s = (Inl e, s') \<Longrightarrow> s' = s"
    and finalize_ok: "finalize w i s = (Inr u, s') \<Longrightarrow>
      (\<exists>r \<in> set (taskruns s). tr_id r = i \<and> tr_claimed_by r = Some w) \<and>
      s' = s\<lparr>taskruns := update_where (\<lambda>r. tr_id r = i \<and> tr_claimed_by r = Some w) (\<lambda>r. (unclaim_row r)\<lparr>tr_status := ''running''\<rparr>) (taskruns s)\<rparr>"
    and finalize_err: "finalize w i s = (Inl e, s') \<Longrightarrow> s' = s"
    and recover_rows: "snd (recover now s) =
      s\<lparr>taskruns := update_where (\<lambda>r. expired (clk now) (tr_lease r) \<and> tr_status r = ''pending'') unclaim_row (taskruns s)\<rparr>"
begin

definition live :: "int \<Rightarrow> string \<times> nat \<times> int \<Rightarrow> bool" where
  "live now h \<longleftrightarrow> clk now < snd (snd h)"

definition lease_inv :: "lease_sys \<Rightarrow> bool" where
  "lease_inv x = (case x of (now, s, H) \<Rightarrow>
     run_keys s \<and> (\<forall>h \<in> H. fst (snd h) < next_taskrun s \<and> snd (snd h) \<le> expiry now \<and> (live now h \<longrightarrow> backed s h)) \<and>
     (\<forall>h \<in> H. \<forall>k \<in> H. fst (snd h) = fst (snd k) \<longrightarrow> live now h \<longrightarrow> live now k \<longrightarrow> fst h = fst k))"

lemma lease_invI:
  assumes "run_keys s" "\<And>h. h \<in> H \<Longrightarrow> fst (snd h) < next_taskrun s" "\<And>h. h \<in> H \<Longrightarrow> snd (snd h) \<le> expiry now"
    "\<And>h. h \<in> H \<Longrightarrow> live now h \<Longrightarrow> backed s h"
    "\<And>h k. h \<in> H \<Longrightarrow> k \<in> H \<Longrightarrow> fst (snd h) = fst (snd k) \<Longrightarrow> live now h \<Longrightarrow> live now k \<Longrightarrow> fst h = fst k"
  shows "lease_inv (now, s, H)"
  unfolding lease_inv_def prod.case by (intro conjI ballI impI; (rule assms; assumption))

lemma lease_invD:
  assumes "lease_inv (now, s, H)"
  shows inv_keys: "run_keys s"
    and inv_ids: "\<And>h. h \<in> H \<Longrightarrow> fst (snd h) < next_taskrun s"
    and inv_bound: "\<And>h. h \<in> H \<Longrightarrow> snd (snd h) \<le> expiry now"
    and inv_held: "\<And>h. h \<in> H \<Longrightarrow> live now h \<Longrightarrow> backed s h"
    and inv_uniq: "\<And>h k. h \<in> H \<Longrightarrow> k \<in> H \<Longrightarrow> fst (snd h) = fst (snd k) \<Longrightarrow> live now h \<Longrightarrow> live now k \<Longrightarrow> fst h = fst k"
  using assms unfolding lease_inv_def prod.case by blast+

text \<open>A row that is claimable backs no live lease.\<close>

lemma claimable_not_backed:
  assumes "r \<in> set (taskruns s)" "tr_id r = fst (snd h)" "claimable (clk now) r" "live now h"
  shows "\<not> backed s h"
  using assms by (auto simp: backed_def claimable_def live_def expired_def split: option.splits)

lemma run_keys_update:
  assumes "run_keys s" "\<And>r. P r \<Longrightarrow> tr_id (f r) = tr_id r"
  shows "run_keys (s\<lparr>taskruns := update_where P f (taskruns s)\<rparr>)"
proof -
  have "map tr_id (update_where P f (taskruns s)) = map tr_id (taskruns s)" by (rule map_update_where) (rule assms(2))
  moreover have "\<forall>r \<in> set (update_where P f (taskruns s)). tr_id r < next_taskrun s"
    using assms by (auto simp: run_keys_def set_update_where)
  ultimately show ?thesis using assms(1) by (simp add: run_keys_def)
qed

lemma run_keys_unique: "run_keys s \<Longrightarrow> r \<in> set (taskruns s) \<Longrightarrow> q \<in> set (taskruns s) \<Longrightarrow> tr_id r = tr_id q \<Longrightarrow> r = q"
  by (auto simp: run_keys_def distinct_map inj_on_def)

lemma inv_claim:
  assumes inv: "lease_inv (now, s, H)"
    and rows: "\<And>i. i \<in> I \<Longrightarrow> \<exists>r \<in> set (taskruns s). tr_id r = i \<and> claimable (clk now) r"
    and s': "s' = s\<lparr>taskruns := update_where (\<lambda>r. tr_id r \<in> I) (claim_row w (clk now) (expiry now)) (taskruns s)\<rparr>"
  shows "lease_inv (now, s', H \<union> (\<lambda>i. (w, i, expiry now)) ` I)"
proof (rule lease_invI)
  note keys = inv_keys [OF inv]
  have free: "\<not> live now h" if "h \<in> H" "fst (snd h) \<in> I" for h
    using rows [OF that(2)] inv_held [OF inv that(1)] claimable_not_backed by blast
  show "run_keys s'" unfolding s' by (rule run_keys_update [OF keys]) simp
  have old: "i < next_taskrun s" if "i \<in> I" for i using rows [OF that] keys by (auto simp: run_keys_def)
  fix h assume h: "h \<in> H \<union> (\<lambda>i. (w, i, expiry now)) ` I"
  show "fst (snd h) < next_taskrun s'" using h old inv_ids [OF inv, of h] by (auto simp: s')
  show "snd (snd h) \<le> expiry now" using h inv_bound [OF inv, of h] by auto
  have new: "fst h = w" if "h \<in> H \<union> (\<lambda>i. (w, i, expiry now)) ` I" "fst (snd h) \<in> I" "live now h" for h
    using that free [of h] by auto
  show "fst h = fst k"
    if k: "k \<in> H \<union> (\<lambda>i. (w, i, expiry now)) ` I" and e: "fst (snd h) = fst (snd k)" and l: "live now h" "live now k" for k
  proof (cases "fst (snd h) \<in> I")
    case True
    then show ?thesis using new [OF h True l(1)] new [OF k _ l(2)] e by simp
  next
    case False
    then have "h \<in> H" "k \<in> H" using h k e by auto
    then show ?thesis using inv_uniq [OF inv _ _ e l] by simp
  qed
  show "backed s' h" if "live now h"
  proof (cases "fst (snd h) \<in> I")
    case False
    then have "h \<in> H" using h by auto
    then show ?thesis using inv_held [OF inv _ that] False by (auto simp: backed_def s' set_update_where)
  next
    case True
    then have "h \<in> (\<lambda>i. (w, i, expiry now)) ` I" using h free that by blast
    then show ?thesis by (auto simp: backed_def s' set_update_where)
  qed
qed

lemma inv_claim_one:
  assumes inv: "lease_inv (now, s, H)" and ok: "claim_id w now i s = (Inr c, s')"
  shows "lease_inv (now, s', insert (w, cl_TaskRunID c, expiry now) H)"
proof -
  note keys = inv_keys [OF inv]
  obtain r where r: "r \<in> set (taskruns s)" "tr_id r = i" "claimable (clk now) r" "cl_TaskRunID c = i"
    and s': "s' = s\<lparr>taskruns := update_where (\<lambda>r. tr_id r = i \<and> claimable (clk now) r) (claim_row w (clk now) (expiry now)) (taskruns s)\<rparr>"
    using claim_id_ok [OF keys ok] by auto
  have "update_where (\<lambda>r. tr_id r = i \<and> claimable (clk now) r) (claim_row w (clk now) (expiry now)) (taskruns s) =
      update_where (\<lambda>r. tr_id r \<in> {i}) (claim_row w (clk now) (expiry now)) (taskruns s)"
    by (rule update_where_cong) (use run_keys_unique [OF keys] r in auto)
  then have "lease_inv (now, s', H \<union> (\<lambda>i. (w, i, expiry now)) ` {i})"
    by (intro inv_claim [OF inv]) (use r s' in auto)
  then show ?thesis by (simp add: r(4))
qed

lemma owned_row:
  assumes inv: "lease_inv (now, s, H)" and r: "r \<in> set (taskruns s)" "tr_id r = i" "tr_claimed_by r = Some w"
  shows "h \<in> H \<Longrightarrow> live now h \<Longrightarrow> fst (snd h) = i \<Longrightarrow> fst h = w"
  using inv_held [OF inv, of h] r by (simp add: backed_def)

lemma inv_renew:
  assumes inv: "lease_inv (now, s, H)" and ok: "renew w now i s = (Inr u, s')"
  shows "lease_inv (now, s', insert (w, i, expiry now) H)"
proof (rule lease_invI)
  note keys = inv_keys [OF inv]
  obtain r where r: "r \<in> set (taskruns s)" "tr_id r = i" "tr_claimed_by r = Some w"
    and s': "s' = s\<lparr>taskruns := update_where (\<lambda>r. tr_id r = i \<and> tr_claimed_by r = Some w) (\<lambda>r. r\<lparr>tr_lease := Some (expiry now)\<rparr>) (taskruns s)\<rparr>"
    using renew_ok [OF ok] by auto
  note mine = owned_row [OF inv r]
  have all: "q = r" if "q \<in> set (taskruns s)" "tr_id q = i" for q using run_keys_unique [OF keys] r that by auto
  show "run_keys s'" unfolding s' by (rule run_keys_update [OF keys]) simp
  have old: "i < next_taskrun s" using r keys by (auto simp: run_keys_def)
  fix h assume h: "h \<in> insert (w, i, expiry now) H"
  show "fst (snd h) < next_taskrun s'" using h old inv_ids [OF inv, of h] by (auto simp: s')
  show "snd (snd h) \<le> expiry now" using h inv_bound [OF inv, of h] by auto
  have new: "fst h = w" if "h \<in> insert (w, i, expiry now) H" "fst (snd h) = i" "live now h" for h
    using that mine [of h] by (cases "h \<in> H") (simp, simp add: prod_eq_iff)
  show "fst h = fst k" if k: "k \<in> insert (w, i, expiry now) H" and e: "fst (snd h) = fst (snd k)" and l: "live now h" "live now k" for k
  proof (cases "fst (snd h) = i")
    case True
    then show ?thesis using new [OF h True l(1)] new [OF k _ l(2)] e by simp
  next
    case False
    then have "h \<in> H" "k \<in> H" using h k e by auto
    then show ?thesis using inv_uniq [OF inv _ _ e l] by simp
  qed
  show "backed s' h" if l: "live now h"
  proof (cases "h \<in> H")
    case True
    then show ?thesis using inv_held [OF inv True l] inv_bound [OF inv True] by (auto simp: backed_def s' set_update_where)
  next
    case False
    then have h_eq: "h = (w, i, expiry now)" using h by simp
    have "q = r\<lparr>tr_lease := Some (expiry now)\<rparr>" if q: "q \<in> set (taskruns s')" "tr_id q = i" for q :: taskrun_row
    proof -
      obtain p where p: "p \<in> set (taskruns s)" "q = (if tr_id p = i \<and> tr_claimed_by p = Some w then p\<lparr>tr_lease := Some (expiry now)\<rparr> else p)"
        by (rule update_whereE [OF q(1) [unfolded s', simplified]])
      then have "tr_id p = i" using q(2) by (simp split: if_splits)
      then show ?thesis using all [OF p(1)] p(2) r by simp
    qed
    note only = this
    show ?thesis unfolding backed_def h_eq
    proof (intro ballI impI)
      fix q assume "q \<in> set (taskruns s')" "tr_id q = fst (snd (w, i, expiry now))"
      then have "q = r\<lparr>tr_lease := Some (expiry now)\<rparr>" by (intro only) simp_all
      then show "tr_claimed_by q = Some (fst (w, i, expiry now)) \<and> (\<exists>l. tr_lease q = Some l \<and> snd (snd (w, i, expiry now)) \<le> l)"
        by (simp add: r(3))
    qed
  qed
qed

lemma inv_finalize:
  assumes inv: "lease_inv (now, s, H)" and ok: "finalize w i s = (Inr u, s')"
  shows "lease_inv (now, s', {x \<in> H. \<not> (fst x = w \<and> fst (snd x) = i)})"
proof (rule lease_invI)
  obtain r where r: "r \<in> set (taskruns s)" "tr_id r = i" "tr_claimed_by r = Some w"
    and s': "s' = s\<lparr>taskruns := update_where (\<lambda>r. tr_id r = i \<and> tr_claimed_by r = Some w) (\<lambda>r. (unclaim_row r)\<lparr>tr_status := ''running''\<rparr>) (taskruns s)\<rparr>"
    using finalize_ok [OF ok] by auto
  show "run_keys s'" unfolding s' by (rule run_keys_update [OF inv_keys [OF inv]]) simp
  fix h assume "h \<in> {x \<in> H. \<not> (fst x = w \<and> fst (snd x) = i)}"
  then have h: "h \<in> H" "\<not> (fst h = w \<and> fst (snd h) = i)" by simp_all
  show "fst (snd h) < next_taskrun s'" using inv_ids [OF inv h(1)] by (simp add: s')
  show "snd (snd h) \<le> expiry now" by (rule inv_bound [OF inv h(1)])
  show "backed s' h" if "live now h"
  proof -
    have "fst (snd h) \<noteq> i" using owned_row [OF inv r h(1) that] h(2) by blast
    then show ?thesis using inv_held [OF inv h(1) that] by (auto simp: backed_def s' set_update_where)
  qed
  show "fst h = fst k" if "k \<in> {x \<in> H. \<not> (fst x = w \<and> fst (snd x) = i)}" "fst (snd h) = fst (snd k)" "live now h" "live now k" for k
    using inv_uniq [OF inv h(1), of k] that by simp
qed

lemma inv_recover:
  assumes inv: "lease_inv (now, s, H)"
  shows "lease_inv (now, snd (recover now s), H)"
proof (rule lease_invI)
  show "run_keys (snd (recover now s))" unfolding recover_rows by (rule run_keys_update [OF inv_keys [OF inv]]) simp
  fix h assume h: "h \<in> H"
  show "fst (snd h) < next_taskrun (snd (recover now s))" using inv_ids [OF inv h] by (simp add: recover_rows)
  show "snd (snd h) \<le> expiry now" by (rule inv_bound [OF inv h])
  show "backed (snd (recover now s)) h" if "live now h"
    using inv_held [OF inv h that] that by (auto simp: backed_def recover_rows set_update_where expired_def live_def)
  show "fst h = fst k" if "k \<in> H" "fst (snd h) = fst (snd k)" "live now h" "live now k" for k
    using inv_uniq [OF inv h that(1)] that by simp
qed

lemma inv_quiet:
  assumes inv: "lease_inv (now, s, H)" and q: "quiet s s'"
  shows "lease_inv (now, s', H)"
proof (rule lease_invI)
  show "run_keys s'" using q by (simp add: quiet_def)
  fix h assume h: "h \<in> H"
  show "fst (snd h) < next_taskrun s'" using inv_ids [OF inv h] q by (simp add: quiet_def)
  show "snd (snd h) \<le> expiry now" by (rule inv_bound [OF inv h])
  show "fst h = fst k" if "k \<in> H" "fst (snd h) = fst (snd k)" "live now h" "live now k" for k
    using inv_uniq [OF inv h that(1)] that by simp
  show "backed s' h" if "live now h"
    unfolding backed_def
  proof (intro ballI impI)
    fix r' assume r': "r' \<in> set (taskruns s')" "tr_id r' = fst (snd h)"
    then have "tr_id r' < next_taskrun s" using inv_ids [OF inv h] by simp
    then obtain r where r: "r \<in> set (taskruns s)" "tr_id r = tr_id r'" "tr_claimed_by r = tr_claimed_by r'" "tr_lease r = tr_lease r'"
      using q r'(1) by (auto simp: quiet_def)
    have "tr_claimed_by r = Some (fst h) \<and> (\<exists>l. tr_lease r = Some l \<and> snd (snd h) \<le> l)"
      using inv_held [OF inv h that] r(1) r(2) r'(2) unfolding backed_def by simp
    then show "tr_claimed_by r' = Some (fst h) \<and> (\<exists>l. tr_lease r' = Some l \<and> snd (snd h) \<le> l)"
      by (simp add: r(3,4))
  qed
qed

lemma inv_tick:
  assumes inv: "lease_inv (now, s, H)" and le: "now \<le> now'"
  shows "lease_inv (now', s, H)"
proof (rule lease_invI)
  have live: "live now h" if "live now' h" for h using that clk_mono [OF le] by (simp add: live_def)
  show "run_keys s" by (rule inv_keys [OF inv])
  fix h assume h: "h \<in> H"
  show "fst (snd h) < next_taskrun s" by (rule inv_ids [OF inv h])
  show "snd (snd h) \<le> expiry now'" using inv_bound [OF inv h] expiry_mono [OF le] by simp
  show "backed s h" if "live now' h" using inv_held [OF inv h live [OF that]] .
  show "fst h = fst k" if "k \<in> H" "fst (snd h) = fst (snd k)" "live now' h" "live now' k" for k
    using inv_uniq [OF inv h that(1,2)] live that(3,4) by blast
qed

end

text \<open>The batch claim: it returns task runs that can be claimed, and claims exactly those.\<close>

locale lease_batch = lease_core +
  fixes claim :: "nat set \<Rightarrow> nat \<Rightarrow> string \<Rightarrow> int \<Rightarrow> db \<Rightarrow> TaskClaim list \<times> db"
  assumes claim_rows: "run_keys s \<Longrightarrow> claim locked limit w now s = (cs, s') \<Longrightarrow>
      (\<forall>i \<in> cl_TaskRunID ` set cs. \<exists>r \<in> set (taskruns s). tr_id r = i \<and> claimable (clk now) r) \<and>
      s' = s\<lparr>taskruns := update_where (\<lambda>r. tr_id r \<in> cl_TaskRunID ` set cs) (claim_row w (clk now) (expiry now)) (taskruns s)\<rparr>"
begin

lemma inv_claim_many:
  assumes inv: "lease_inv (now, s, H)" and cs: "claim locked limit w now s = (cs, s')"
  shows "lease_inv (now, s', H \<union> (\<lambda>c. (w, cl_TaskRunID c, expiry now)) ` set cs)"
  using inv_claim [OF inv, of "cl_TaskRunID ` set cs" s' w] claim_rows [OF inv_keys [OF inv] cs] by (simp add: image_image)

lemma inv_step: "lease_step expiry claim claim_id renew finalize recover x y \<Longrightarrow> lease_inv x \<Longrightarrow> lease_inv y"
proof (induction rule: lease_step.induct)
  case (claim_none w now i s e s' H)
  then show ?case using claim_id_err [OF inv_keys [OF claim_none(2)] claim_none(1)] by simp
next
  case (not_renewed w now i s e s' H)
  then show ?case using renew_err by blast
next
  case (not_finalized w i s e s' now H)
  then show ?case using finalize_err by blast
next
  case (recovered now s x s' H)
  then show ?case using inv_recover [OF recovered(2)] by simp
next
  case (finalized w i s u s' now H)
  then show ?case by (rule inv_finalize [rotated])
qed (auto intro: inv_tick inv_claim_many inv_claim_one inv_renew inv_quiet)

lemma inv_steps: "(lease_step expiry claim claim_id renew finalize recover)\<^sup>*\<^sup>* x y \<Longrightarrow> lease_inv x \<Longrightarrow> lease_inv y"
  by (induction rule: rtranclp_induct) (auto intro: inv_step)

lemma inv_start: "unclaimed s \<Longrightarrow> lease_inv (now, s, {})"
  by (simp add: lease_inv_def unclaimed_def)

theorem exclusive:
  assumes "unclaimed s0" "(lease_step expiry claim claim_id renew finalize recover)\<^sup>*\<^sup>* (now0, s0, {}) (now, s, H)"
    "(w, i, l) \<in> H" "(w', i, l') \<in> H" "clk now < l" "clk now < l'"
  shows "w = w'"
  using inv_uniq [OF inv_steps [OF assms(2) inv_start [OF assms(1)]] assms(3,4)] assms(5,6) by (simp add: live_def)

theorem lease_is_recorded:
  assumes "unclaimed s0" "(lease_step expiry claim claim_id renew finalize recover)\<^sup>*\<^sup>* (now0, s0, {}) (now, s, H)"
    "(w, i, l) \<in> H" "clk now < l" "r \<in> set (taskruns s)" "tr_id r = i"
  shows "tr_claimed_by r = Some w" "\<not> claimable (clk now) r"
proof -
  have "backed s (w, i, l)"
    using inv_held [OF inv_steps [OF assms(2) inv_start [OF assms(1)]] assms(3)] assms(4) by (simp add: live_def)
  then show "tr_claimed_by r = Some w" "\<not> claimable (clk now) r"
    using assms(4-6) by (auto simp: backed_def claimable_def expired_def)
qed

end

text \<open>Where task runs are only claimed one by one, the laws on single task runs are enough.\<close>

sublocale lease_core \<subseteq> single: lease_batch clk expiry claim_id renew finalize recover "\<lambda>_ _ _ _ s. ([], s)"
  by unfold_locales (simp add: update_where_def)

section \<open>The two managers\<close>

lemma pg_claim_rows:
  assumes keys: "run_keys s" and eq: "pg_ClaimTasks locked limit w ttl now s = (cs, s')"
  shows "(\<forall>i \<in> cl_TaskRunID ` set cs. \<exists>r \<in> set (taskruns s). tr_id r = i \<and> claimable now r) \<and>
    s' = s\<lparr>taskruns := update_where (\<lambda>r. tr_id r \<in> cl_TaskRunID ` set cs) (claim_row w now (pg_lease now ttl)) (taskruns s)\<rparr>"
proof -
  obtain hit where cs: "cs = map task_claim (filter hit (taskruns s))" and hit: "\<And>r. hit r \<Longrightarrow> claimable now r"
    and s': "s' = s\<lparr>taskruns := update_where hit (claim_row w now (pg_lease now ttl)) (taskruns s)\<rparr>"
    using eq by (auto simp: pg_ClaimTasks_def Let_def)
  have ids: "cl_TaskRunID ` set cs = tr_id ` {r \<in> set (taskruns s). hit r}"
    by (simp add: cs task_claim_def image_image)
  have uniq: "q = r" if "q \<in> set (taskruns s)" "r \<in> set (taskruns s)" "tr_id q = tr_id r" for q r
    using keys that by (auto simp: run_keys_def distinct_map inj_on_def)
  have "update_where hit (claim_row w now (pg_lease now ttl)) (taskruns s) =
      update_where (\<lambda>r. tr_id r \<in> cl_TaskRunID ` set cs) (claim_row w now (pg_lease now ttl)) (taskruns s)"
    by (rule update_where_cong) (use uniq in \<open>auto simp: ids\<close>)
  then show ?thesis using hit s' by (auto simp: ids)
qed

interpretation pg: lease_batch "\<lambda>now. now" "\<lambda>now. pg_lease now ttl" "\<lambda>w now. pg_ClaimTaskByID w ttl now"
    "\<lambda>w now. pg_RenewLease w ttl now" pg_FinalizeClaimToRunning pg_RecoverExpiredLeases
    "\<lambda>locked limit w now. pg_ClaimTasks locked limit w ttl now" for ttl
proof (unfold_locales, goal_cases)
  case (3 s w now i c s')
  then show ?case by (auto simp: pg_ClaimTaskByID_def Let_def task_claim_def split: option.splits dest!: query_row_Some_in)
next
  case (10 s locked limit w now cs s')
  then show ?case by (rule pg_claim_rows)
qed (auto simp: pg_lease_def pg_ClaimTaskByID_def pg_RenewLease_def pg_FinalizeClaimToRunning_def pg_RecoverExpiredLeases_def Let_def
      update_where_none split: option.splits if_splits)

lemma sq_claim_id_ok:
  assumes keys: "run_keys s" and eq: "ClaimTaskByID tz w ttl now i s = (Inr c, s')"
  shows "cl_TaskRunID c = i \<and> (\<exists>r \<in> set (taskruns s). tr_id r = i \<and> claimable (seconds now) r) \<and>
    s' = s\<lparr>taskruns := update_where (\<lambda>r. tr_id r = i \<and> claimable (seconds now) r)
                          (claim_row w (seconds now) (sq_lease tz now ttl)) (taskruns s)\<rparr>"
proof -
  have "tr_id q = i" if "find_taskrun i s = Some q" for q s using query_row_Some_in [OF that [unfolded find_taskrun_def]] by simp
  then show ?thesis using eq by (auto simp: ClaimTaskByID_def Let_def task_claim_def split: option.splits if_splits)
qed

lemma sq_claim_id_some:
  assumes "\<exists>r \<in> set (taskruns s). tr_id r = i \<and> claimable (seconds now) r"
  shows "\<exists>c s'. ClaimTaskByID tz w ttl now i s = (Inr c, s')"
proof -
  define s1 where "s1 = s\<lparr>taskruns := update_where (\<lambda>r. tr_id r = i \<and> claimable (seconds now) r)
                          (claim_row w (seconds now) (sq_lease tz now ttl)) (taskruns s)\<rparr>"
  obtain q where q: "q \<in> set (taskruns s)" "tr_id q = i" "claimable (seconds now) q" using assms by blast
  then have "claim_row w (seconds now) (sq_lease tz now ttl) q \<in> set (taskruns s1)" by (simp add: s1_def set_update_where)
  then have "\<exists>r \<in> set (taskruns s1). tr_id r = i" by (rule rev_bexI) (simp add: q(2))
  then obtain r where "find_taskrun i s1 = Some r" using query_row_filter [of "taskruns s1" "\<lambda>r. tr_id r = i"]
    unfolding find_taskrun_def by auto
  moreover have "rows_affected (\<lambda>r. tr_id r = i \<and> claimable (seconds now) r) (taskruns s) \<noteq> 0" using assms by simp
  ultimately have "ClaimTaskByID tz w ttl now i s = (Inr (task_claim r), s1)"
    by (simp only: ClaimTaskByID_def Let_def flip: s1_def) simp
  then show ?thesis by blast
qed

lemma sq_claim_id_err:
  assumes eq: "ClaimTaskByID tz w ttl now i s = (Inl e, s')"
  shows "s' = s"
proof -
  have "\<not> (\<exists>r \<in> set (taskruns s). tr_id r = i \<and> claimable (seconds now) r)" using sq_claim_id_some [of s i now tz w ttl] eq by auto
  then show ?thesis using eq by (simp add: ClaimTaskByID_def Let_def update_where_none)
qed

interpretation sq: lease_core seconds "\<lambda>now. sq_lease tz now ttl" "\<lambda>w now. ClaimTaskByID tz w ttl now"
    "\<lambda>w now. RenewLease tz w ttl now" FinalizeClaimToRunning RecoverExpiredLeases for tz ttl
proof (unfold_locales, goal_cases)
  case (1 now now')
  then show ?case by (simp add: seconds_def zdiv_mono1)
next
  case (2 now now')
  then show ?case by (simp add: sq_lease_def zdiv_mono1)
next
  case (3 s w now i c s')
  then show ?case by (rule sq_claim_id_ok)
next
  case (4 s w now i e s')
  then show ?case by (auto dest: sq_claim_id_err)
qed (auto simp: update_where_none RenewLease_def FinalizeClaimToRunning_def RecoverExpiredLeases_def Let_def
      split: option.splits if_splits)

section \<open>Operations that leave the leases alone\<close>

lemma quiet_trans: "quiet s s1 \<Longrightarrow> quiet s1 s2 \<Longrightarrow> quiet s s2"
  unfolding quiet_def by (metis le_trans)

lemma quiet_rows:
  assumes keys: "run_keys s" and rows: "taskruns s' = update_where P f (taskruns s)"
    and f: "\<And>r. tr_id (f r) = tr_id r \<and> tr_claimed_by (f r) = tr_claimed_by r \<and> tr_lease (f r) = tr_lease r"
    and runs: "map rn_id (runs s') = map rn_id (runs s)" "next_run s' = next_run s" "next_taskrun s' = next_taskrun s"
  shows "quiet s s'"
proof -
  have row: "\<exists>r \<in> set (taskruns s). tr_id r = tr_id r' \<and> tr_claimed_by r = tr_claimed_by r' \<and> tr_lease r = tr_lease r'"
    if r': "r' \<in> set (taskruns s')" for r' :: taskrun_row
  proof -
    obtain p where "p \<in> set (taskruns s)" "r' = (if P p then f p else p)" by (rule update_whereE [OF r' [unfolded rows]])
    then show ?thesis using f [of p] by (intro bexI [of _ p]) auto
  qed
  have "map tr_id (taskruns s') = map tr_id (taskruns s)" unfolding rows by (rule map_update_where) (simp add: f)
  moreover have "rn_id r < next_run s'" if "r \<in> set (runs s')" for r :: run_row
  proof -
    have "rn_id r \<in> rn_id ` set (runs s)" using that arg_cong [OF runs(1), of set] by (metis image_eqI list.set_map)
    then show ?thesis using keys by (auto simp: run_keys_def runs(2))
  qed
  moreover have "tr_id r < next_taskrun s'" if "r \<in> set (taskruns s')" for r :: taskrun_row
    using row [OF that] keys by (auto simp: run_keys_def runs(3))
  ultimately have "run_keys s'" using keys by (simp add: run_keys_def runs(1))
  then show ?thesis using row by (simp add: quiet_def runs(3))
qed

lemma quiet_same:
  assumes "run_keys s" "taskruns s' = taskruns s" "map rn_id (runs s') = map rn_id (runs s)" "next_run s' = next_run s"
    "next_taskrun s' = next_taskrun s"
  shows "quiet s s'"
  by (rule quiet_rows [where P = "\<lambda>_. False" and f = "\<lambda>r. r"]) (use assms in \<open>simp_all add: update_where_none\<close>)

lemma quiet_insert: "run_keys s \<Longrightarrow> quiet s (snd (insert_taskrun runId taskId status attempts s))"
  by (auto simp: quiet_def insert_taskrun_def run_keys_def)

lemma quiet_keys: "quiet s s' \<Longrightarrow> run_keys s'"
  by (simp add: quiet_def)

lemma quiet_suspended: "run_keys s \<Longrightarrow> quiet s (insert_suspended dagRunId ts s)"
proof (induction ts arbitrary: s)
  case Nil
  then show ?case by (simp add: quiet_same)
next
  case (Cons t ts)
  have "quiet s (snd (insert_taskrun dagRunId t ''suspended'' 0 s))" by (rule quiet_insert [OF Cons.prems])
  then show ?case using Cons.IH [OF quiet_keys] quiet_trans by (auto intro: quiet_trans)
qed

lemma quiet_withTx: "run_keys s \<Longrightarrow> (\<And>x s'. body s = Inr (x, s') \<Longrightarrow> quiet s s') \<Longrightarrow> quiet s (snd (withTx body s))"
  by (auto simp: withTx_def quiet_same split: sum.splits)

lemma set_status_quiet: "run_keys s \<Longrightarrow> quiet s (set_status i st s)"
  unfolding set_status_def
  by (rule quiet_rows [where P = "\<lambda>r. tr_id r = i" and f = "\<lambda>r. r\<lparr>tr_status := st\<rparr>"]) simp_all

lemma quiet_runs:
  assumes "run_keys s" "\<And>r. rn_id (f r) = rn_id r"
  shows "quiet s (s\<lparr>runs := update_where P f (runs s)\<rparr>)"
  by (rule quiet_same) (use assms in \<open>simp_all add: map_update_where\<close>)

lemma MarkSuccess_quiet: "run_keys s \<Longrightarrow> quiet s (snd (MarkSuccessAndGetNextTasks i s))"
  unfolding MarkSuccessAndGetNextTasks_def
  by (rule quiet_withTx)
    (auto simp: Let_def set_status_def map_update_where split: option.splits if_splits
       intro!: quiet_rows [where P = "\<lambda>r. tr_id r = i" and f = "\<lambda>r. r\<lparr>tr_status := ''success''\<rparr>"])

lemma MarkTaskAsFailed_quiet: "run_keys s \<Longrightarrow> quiet s (snd (MarkTaskAsFailed i s))"
  unfolding MarkTaskAsFailed_def Let_def snd_conv set_status_def
  by (rule quiet_rows [where P = "\<lambda>r. tr_id r = i" and f = "\<lambda>r. r\<lparr>tr_status := ''failed''\<rparr>"]) (simp_all add: map_update_where)

lemma MarkConnecting_quiet:
  assumes "run_keys s"
  shows "quiet s (snd (MarkConnectingTasksAsSuspended dagRunId i s))"
  unfolding MarkConnectingTasksAsSuspended_def
proof (rule quiet_withTx [OF assms])
  fix x s'
  assume "(case find_taskrun i s of None \<Rightarrow> Inl (Err ''failed to get task id'')
       | Some start \<Rightarrow>
           let updates = suspend_dfs (dependency_rows dagRunId s) (existing_tasks dagRunId s) [tr_task_id start] {} [];
               s1 = insert_suspended dagRunId updates s;
               s2 = s1\<lparr>runs := update_where (\<lambda>r. rn_id r = dagRunId)
                       (\<lambda>r. r\<lparr>rn_suspendedCount := rn_suspendedCount r + length updates\<rparr>) (runs s1)\<rparr>
           in (case task_names updates s2 of Inl e \<Rightarrow> Inl e | Inr names \<Rightarrow> Inr (names, s2))) = Inr (x, s')"
  then obtain ts f where s': "s' = (insert_suspended dagRunId ts s)\<lparr>runs := update_where (\<lambda>r. rn_id r = dagRunId) f
      (runs (insert_suspended dagRunId ts s))\<rparr>" and f: "\<And>r. rn_id (f r) = rn_id r"
    by (auto simp: Let_def split: option.splits sum.splits)
  show "quiet s s'" unfolding s'
    by (rule quiet_trans [OF quiet_suspended [OF assms] quiet_runs [OF quiet_keys [OF quiet_suspended [OF assms]] f]])
qed

lemma DeleteDagRun_quiet: "run_keys s \<Longrightarrow> quiet s (snd (DeleteDagRun dagRunId s))"
  by (auto simp: DeleteDagRun_def Let_def quiet_def run_keys_def delete_where_def distinct_map_filter)

lemma CreateDAGRun_quiet: "run_keys s \<Longrightarrow> quiet s (snd (CreateDAGRun name spec ps pvc dagId s))"
  by (auto simp: CreateDAGRun_def quiet_def run_keys_def less_SucI split: option.split sum.split)

lemma quiet_operations:
  assumes "run_keys s"
  shows "quiet s (snd (MarkTaskAsStarted runId taskId s))" "quiet s (snd (AddPendingTaskRun runId taskId s))"
    "quiet s (snd (IncrementAttempts i s))" "quiet s (snd (SaveRetryEnv i env s))"
    "quiet s (snd (MarkSuccessAndGetNextTasks i s))" "quiet s (snd (MarkTaskAsFailed i s))"
    "quiet s (snd (MarkConnectingTasksAsSuspended runId i s))" "quiet s (snd (MarkDAGRunOutcome runId outcome s))"
    "quiet s (snd (SuspendDagRun runId s))" "quiet s (snd (DeleteDagRun runId s))"
    "quiet s (snd (CreateDAGRun name spec ps pvc dagId s))"
    "quiet s (snd (MarkPodStatus uid podName i status tStamp exitCode namespace s))" "quiet s (snd (AddPodDuration i d s))"
proof -
  show "quiet s (snd (MarkTaskAsStarted runId taskId s))" "quiet s (snd (AddPendingTaskRun runId taskId s))"
    using quiet_insert [OF assms] by (simp_all add: MarkTaskAsStarted_def AddPendingTaskRun_def case_prod_beta)
  show "quiet s (snd (IncrementAttempts i s))" "quiet s (snd (SaveRetryEnv i env s))"
    unfolding IncrementAttempts_def SaveRetryEnv_def snd_conv
    by (rule quiet_rows [OF assms, where P = "\<lambda>r. tr_id r = i" and f = "\<lambda>r. r\<lparr>tr_attempts := tr_attempts r + 1\<rparr>"], simp_all)
      (rule quiet_rows [OF assms, where P = "\<lambda>r. tr_id r = i" and f = "\<lambda>r. r\<lparr>tr_retry_env := Some env\<rparr>"], simp_all)
  show "quiet s (snd (MarkDAGRunOutcome runId outcome s))" "quiet s (snd (SuspendDagRun runId s))"
    unfolding MarkDAGRunOutcome_def SuspendDagRun_def snd_conv by (rule quiet_runs [OF assms]; simp)+
  show "quiet s (snd (MarkPodStatus uid podName i status tStamp exitCode namespace s))"
    unfolding MarkPodStatus_def by (rule quiet_withTx [OF assms]) (auto intro!: quiet_same [OF assms] split: if_splits)
  show "quiet s (snd (AddPodDuration i d s))"
    unfolding AddPodDuration_def snd_conv by (rule quiet_same [OF assms]) simp_all
qed (rule MarkSuccess_quiet MarkTaskAsFailed_quiet MarkConnecting_quiet DeleteDagRun_quiet CreateDAGRun_quiet, rule assms)+

text \<open>
  No other operation of the manager touches a claim or a lease: starting, queueing, retrying, finishing or failing a
  task run, suspending its dependents, recording pods, creating, suspending and deleting DAG runs all keep
  the claim columns of every task run they keep, and the task runs they add carry new numbers.
\<close>

theorem other_operations_keep_leases:
  assumes "run_keys s"
  shows "quiet s (snd (MarkTaskAsStarted runId taskId s)) \<and>
    quiet s (snd (AddPendingTaskRun runId taskId s)) \<and>
    quiet s (snd (IncrementAttempts i s)) \<and>
    quiet s (snd (SaveRetryEnv i env s)) \<and>
    quiet s (snd (MarkSuccessAndGetNextTasks i s)) \<and>
    quiet s (snd (MarkTaskAsFailed i s)) \<and>
    quiet s (snd (MarkConnectingTasksAsSuspended runId i s)) \<and>
    quiet s (snd (MarkDAGRunOutcome runId outcome s)) \<and>
    quiet s (snd (SuspendDagRun runId s)) \<and>
    quiet s (snd (DeleteDagRun runId s)) \<and>
    quiet s (snd (CreateDAGRun name spec ps pvc dagId s)) \<and>
    quiet s (snd (MarkPodStatus uid podName i status tStamp exitCode namespace s)) \<and>
    quiet s (snd (AddPodDuration i d s))"
  by (intro conjI quiet_operations assms)

theorem other_operations_keep_leases_witness:
  "run_keys ex_run_db \<and> quiet ex_run_db (snd (MarkTaskAsFailed 2 ex_run_db)) \<and>
   taskruns (snd (MarkTaskAsFailed 2 ex_run_db)) \<noteq> taskruns ex_run_db"
proof -
  have k: "run_keys ex_run_db" using ex_run_ok by (simp add: keys_ok_def)
  have "quiet ex_run_db (snd (MarkTaskAsFailed 2 ex_run_db))" using other_operations_keep_leases [OF k, of _ _ 2] by blast
  moreover have "taskruns (snd (MarkTaskAsFailed 2 ex_run_db)) \<noteq> taskruns ex_run_db"
    by (simp add: MarkTaskAsFailed_def Let_def set_status_def ex_run_defs)
  ultimately show ?thesis using k by blast
qed

section \<open>Leases are exclusive\<close>

text \<open>
  (C1) With the Postgres manager, whatever sequence of claims (single or in batches, skipping any locked rows), renewals, completions,
  recoveries, other operations and passing of time workers go through, no two workers hold a live lease on the same task run; and a
  live lease is the one recorded in the table, on a row that nobody can claim.
\<close>

theorem pg_leases_exclusive:
  assumes "unclaimed s0"
    and "(lease_step (\<lambda>now. pg_lease now ttl) (\<lambda>locked limit w now. pg_ClaimTasks locked limit w ttl now)
           (\<lambda>w now. pg_ClaimTaskByID w ttl now) (\<lambda>w now. pg_RenewLease w ttl now)
           pg_FinalizeClaimToRunning pg_RecoverExpiredLeases)\<^sup>*\<^sup>* (now0, s0, {}) (now, s, H)"
    and "(w, i, l) \<in> H" "now < l"
  shows "(\<forall>w' l'. (w', i, l') \<in> H \<longrightarrow> now < l' \<longrightarrow> w' = w) \<and>
    (\<forall>r \<in> set (taskruns s). tr_id r = i \<longrightarrow> tr_claimed_by r = Some w \<and> \<not> claimable now r)"
proof (intro conjI allI ballI impI)
  show "w' = w" if "(w', i, l') \<in> H" "now < l'" for w' l'
    by (rule pg.exclusive [OF assms(1,2) that(1) assms(3) that(2) assms(4)])
  show "tr_claimed_by r = Some w" "\<not> claimable now r" if "r \<in> set (taskruns s)" "tr_id r = i" for r :: taskrun_row
    by (rule pg.lease_is_recorded [OF assms that])+
qed

text \<open>A worker that claims two rows in a batch, and one that claims nothing because both are taken.\<close>

definition ex_claim_db :: db where
  "ex_claim_db = empty_db\<lparr>taskruns := [ex_taskrun 1 ''pending'', ex_taskrun 2 ''pending''], next_taskrun := 3\<rparr>"

lemmas ex_claim_defs = ex_claim_db_def ex_taskrun_def empty_db_def pg_ClaimTasks_def ClaimTasks_def Let_def claimable_def expired_def start_reached_def
  task_claim_def claim_row_def pg_lease_def sq_lease_def seconds_def

lemma ex_claim_unclaimed: "unclaimed ex_claim_db"
  by (simp add: unclaimed_def run_keys_def ex_claim_defs)

theorem pg_leases_exclusive_witness:
  "\<exists>s (H :: (string \<times> nat \<times> int) set). (''w1'', 1, 60000000000) \<in> H \<and> (\<forall>w' l'. (w', 1, l') \<in> H \<longrightarrow> 0 < l' \<longrightarrow> w' = ''w1'') \<and>
    pg_ClaimTasks {} 5 ''w1'' 60000000000 0 ex_claim_db = ([\<lparr>cl_TaskRunID = 1, cl_TaskID = 1, cl_RunID = 1\<rparr>, \<lparr>cl_TaskRunID = 2, cl_TaskID = 2, cl_RunID = 1\<rparr>], s) \<and>
    fst (pg_ClaimTasks {} 5 ''w2'' 60000000000 0 s) = []"
proof -
  define r where "r = pg_ClaimTasks {} 5 ''w1'' 60000000000 0 ex_claim_db"
  define s where "s = snd r"
  define H where "H = {} \<union> (\<lambda>c. (''w1'', cl_TaskRunID c, pg_lease 0 60000000000)) ` set (fst r)"
  have eq: "pg_ClaimTasks {} 5 ''w1'' 60000000000 0 ex_claim_db = (fst r, s)" by (simp add: r_def s_def)
  have "(lease_step (\<lambda>now. pg_lease now 60000000000) (\<lambda>locked limit w now. pg_ClaimTasks locked limit w 60000000000 now)
           (\<lambda>w now. pg_ClaimTaskByID w 60000000000 now) (\<lambda>w now. pg_RenewLease w 60000000000 now)
           pg_FinalizeClaimToRunning pg_RecoverExpiredLeases)\<^sup>*\<^sup>* (0, ex_claim_db, {}) (0, s, H)"
    unfolding H_def
    by (rule r_into_rtranclp, rule lease_step.claim_many [where locked = "{}" and limit = 5]) (rule eq)
  moreover have r: "fst r = [\<lparr>cl_TaskRunID = 1, cl_TaskID = 1, cl_RunID = 1\<rparr>, \<lparr>cl_TaskRunID = 2, cl_TaskID = 2, cl_RunID = 1\<rparr>]"
    by (simp add: r_def ex_claim_defs)
  moreover have mem: "(''w1'', 1, 60000000000) \<in> H" by (simp add: H_def r pg_lease_def seconds_def)
  ultimately have only: "\<forall>w' l'. (w', 1, l') \<in> H \<longrightarrow> 0 < l' \<longrightarrow> w' = ''w1''"
    using pg_leases_exclusive [OF ex_claim_unclaimed, of 60000000000 0 0 s H "''w1''" 1 60000000000] by simp
  have none: "fst (pg_ClaimTasks {} 5 ''w2'' 60000000000 0 s) = []" by (simp add: s_def r_def ex_claim_defs)
  show ?thesis by (rule exI [of _ s], rule exI [of _ H]) (intro conjI mem only none eq [unfolded r])
qed

text \<open>
  With SQLite, the same holds of a deployment that claims task runs one by one with \<open>ClaimTaskByID\<close>: of two workers
  that hold unexpired leases on a task run, both are the same.
\<close>

theorem sqlite_single_claims_exclusive:
  assumes "unclaimed s0"
    and "(lease_step (\<lambda>now. sq_lease tz now ttl) (\<lambda>_ _ _ _ s. ([], s))
           (\<lambda>w now. ClaimTaskByID tz w ttl now) (\<lambda>w now. RenewLease tz w ttl now)
           FinalizeClaimToRunning RecoverExpiredLeases)\<^sup>*\<^sup>* (now0, s0, {}) (now, s, H)"
    and "(w, i, l) \<in> H" "(w', i, l') \<in> H" "seconds now < l" "seconds now < l'"
  shows "w = w'"
  by (rule sq.single.exclusive [OF assms])

theorem sqlite_single_claims_exclusive_witness:
  "\<exists>s :: (string \<times> nat \<times> int) set. fst (ClaimTaskByID 0 ''w1'' 60000000000 0 1 ex_claim_db) = Inr \<lparr>cl_TaskRunID = 1, cl_TaskID = 1, cl_RunID = 1\<rparr> \<and>
     (''w1'', 1, 60) \<in> s \<and> seconds 0 < 60 \<and> (\<forall>w'. (w', 1, 60) \<notin> s \<or> ''w1'' = w')"
proof -
  define r where "r = ClaimTaskByID 0 ''w1'' 60000000000 0 1 ex_claim_db"
  have r: "fst r = Inr \<lparr>cl_TaskRunID = 1, cl_TaskID = 1, cl_RunID = 1\<rparr>"
    by (simp add: r_def ClaimTaskByID_def find_taskrun_def rows_affected_def ex_claim_defs)
  define H where "H = insert (''w1'', cl_TaskRunID \<lparr>cl_TaskRunID = 1, cl_TaskID = 1, cl_RunID = 1\<rparr>, sq_lease 0 0 60000000000) {}"
  have eq: "ClaimTaskByID 0 ''w1'' 60000000000 0 1 ex_claim_db = (Inr \<lparr>cl_TaskRunID = 1, cl_TaskID = 1, cl_RunID = 1\<rparr>, snd r)"
    using r by (simp add: r_def prod_eq_iff)
  have steps: "(lease_step (\<lambda>now. sq_lease 0 now 60000000000) (\<lambda>_ _ _ _ s. ([], s))
           (\<lambda>w now. ClaimTaskByID 0 w 60000000000 now) (\<lambda>w now. RenewLease 0 w 60000000000 now)
           FinalizeClaimToRunning RecoverExpiredLeases)\<^sup>*\<^sup>* (0, ex_claim_db, {}) (0, snd r, H)"
    unfolding H_def
    by (rule r_into_rtranclp, rule lease_step.claim_one [where i = 1]) (rule eq)
  have mem: "(''w1'', 1, 60) \<in> H" by (simp add: H_def sq_lease_def)
  have only: "''w1'' = w'" if "(w', 1, 60) \<in> H" for w'
    by (rule sqlite_single_claims_exclusive [OF ex_claim_unclaimed steps mem that]) (simp_all add: seconds_def)
  have "\<forall>w'. (w', 1, 60) \<notin> H \<or> ''w1'' = w'" using only by blast
  then show ?thesis using r unfolding r_def by (intro exI [of _ H] conjI mem) (simp_all add: seconds_def)
qed

text \<open>The claims, renewals and recoveries of any workers at any times, with the SQLite manager.\<close>

inductive sq_claim_step :: "int \<Rightarrow> db \<Rightarrow> db \<Rightarrow> bool" for tz where
  batch: "sq_claim_step tz s (snd (ClaimTasks tz limit w leaseTTL now s))"
| one: "sq_claim_step tz s (snd (ClaimTaskByID tz w leaseTTL now i s))"
| renew: "sq_claim_step tz s (snd (RenewLease tz w leaseTTL now i s))"
| recover: "sq_claim_step tz s (snd (RecoverExpiredLeases now s))"

text \<open>What the batch claim reads of a task run.\<close>

definition claim_view :: "taskrun_row \<Rightarrow> nat \<times> nat \<times> nat \<times> string \<times> int option" where
  "claim_view r = (tr_id r, tr_task_id r, tr_run_id r, tr_status r, tr_scheduled_start r)"

lemma claim_view_claim [simp]: "claim_view (claim_row w n l r) = claim_view r" "claim_view (unclaim_row r) = claim_view r"
  "claim_view (r\<lparr>tr_lease := l'\<rparr>) = claim_view r"
  by (simp_all add: claim_view_def claim_row_def unclaim_row_def)

lemma sq_claim_step_view: "sq_claim_step tz s s' \<Longrightarrow> map claim_view (taskruns s') = map claim_view (taskruns s)"
  by (cases rule: sq_claim_step.cases, assumption)
    (auto simp: ClaimTasks_def ClaimTaskByID_def RenewLease_def RecoverExpiredLeases_def Let_def map_update_where split: option.splits)

lemma sq_claim_steps_view: "(sq_claim_step tz)\<^sup>*\<^sup>* s s' \<Longrightarrow> map claim_view (taskruns s') = map claim_view (taskruns s)"
  by (induction rule: rtranclp_induct) (simp_all add: sq_claim_step_view)

lemma ClaimTasks_fst:
  "fst (ClaimTasks tz limit w leaseTTL now s) = map (\<lambda>(i, t, r, st, start). \<lparr>cl_TaskRunID = i, cl_TaskID = t, cl_RunID = r\<rparr>)
     (take limit (filter (\<lambda>(i, t, r, st, start). st = ''pending'' \<and> (case start of None \<Rightarrow> True | Some t \<Rightarrow> t \<le> seconds now)) (map claim_view (taskruns s))))"
  by (simp add: ClaimTasks_def Let_def filter_map take_map comp_def claim_view_def start_reached_def task_claim_def)

lemma ClaimTasks_holds:
  assumes "r \<in> set (taskruns (snd (ClaimTasks tz limit w leaseTTL now s)))" "tr_id r \<in> cl_TaskRunID ` set (fst (ClaimTasks tz limit w leaseTTL now s))"
  shows "tr_claimed_by r = Some w \<and> tr_lease r = Some (sq_lease tz now leaseTTL)"
  using assms by (auto simp: ClaimTasks_def Let_def task_claim_def image_iff set_update_where split: if_splits)

text \<open>
  (C39) The batch claim of the SQLite manager does not see claims. Whatever claims, renewals and recoveries any workers have made since, at any times and with
  live leases or not, a worker that asks for task runs is given exactly those it would have been given before them, and takes over the claim and the
  lease of each. The claim of one task run does look at the lease: it then fails for every worker until that lease has run out.
\<close>

theorem sqlite_batch_claim_steals:
  assumes "(sq_claim_step tz)\<^sup>*\<^sup>* s s'" "ClaimTasks tz limit w leaseTTL now s' = (cs, s'')"
  shows "cs = fst (ClaimTasks tz limit w leaseTTL now s) \<and>
    (\<forall>r \<in> set (taskruns s''). tr_id r \<in> cl_TaskRunID ` set cs \<longrightarrow> tr_claimed_by r = Some w \<and> tr_lease r = Some (sq_lease tz now leaseTTL)) \<and>
    (\<forall>c \<in> set cs. \<forall>w' ttl' now'. seconds now' < sq_lease tz now leaseTTL \<longrightarrow>
       fst (ClaimTaskByID tz w' ttl' now' (cl_TaskRunID c) s'') = Inl (Err ''failed to claim task''))"
proof -
  have cs: "cs = fst (ClaimTasks tz limit w leaseTTL now s)"
    using arg_cong [OF assms(2), of fst] by (simp add: ClaimTasks_fst sq_claim_steps_view [OF assms(1)])
  have holds: "tr_claimed_by r = Some w \<and> tr_lease r = Some (sq_lease tz now leaseTTL)"
    if "r \<in> set (taskruns s'')" "tr_id r \<in> cl_TaskRunID ` set cs" for r
    using ClaimTasks_holds [of r tz limit w leaseTTL now s'] that by (simp add: assms(2))
  have "rows_affected (\<lambda>r. tr_id r = cl_TaskRunID c \<and> claimable (seconds now') r) (taskruns s'') = 0"
    if "c \<in> set cs" "seconds now' < sq_lease tz now leaseTTL" for c now'
    using holds that by (fastforce simp: rows_affected_def filter_empty_conv claimable_def expired_def)
  then show ?thesis using cs holds by (auto simp: ClaimTaskByID_def Let_def)
qed

theorem sqlite_batch_claim_steals_witness:
  "fst (ClaimTasks 0 1 ''w2'' 60000000000 0 (snd (ClaimTasks 0 1 ''w1'' 60000000000 0 ex_claim_db))) =
     fst (ClaimTasks 0 1 ''w1'' 60000000000 0 ex_claim_db) \<and>
   fst (ClaimTasks 0 1 ''w1'' 60000000000 0 ex_claim_db) = [\<lparr>cl_TaskRunID = 1, cl_TaskID = 1, cl_RunID = 1\<rparr>]"
proof -
  have e: "fst (ClaimTasks 0 1 w 60000000000 0 ex_claim_db) = [\<lparr>cl_TaskRunID = 1, cl_TaskID = 1, cl_RunID = 1\<rparr>]" for w
    by (simp add: ex_claim_defs)
  have steps: "(sq_claim_step 0)\<^sup>*\<^sup>* ex_claim_db (snd (ClaimTasks 0 1 ''w1'' 60000000000 0 ex_claim_db))"
    by (rule r_into_rtranclp) (rule sq_claim_step.batch)
  have "fst (ClaimTasks 0 1 ''w2'' 60000000000 0 (snd (ClaimTasks 0 1 ''w1'' 60000000000 0 ex_claim_db))) =
      fst (ClaimTasks 0 1 ''w2'' 60000000000 0 ex_claim_db)"
    by (rule conjunct1 [OF sqlite_batch_claim_steals [OF steps prod.collapse [symmetric]]])
  then show ?thesis by (simp only: e)
qed

text \<open>
  SQLite compares the lease, formatted in local time, with the clock in UTC: in a time zone behind UTC by at least the
  lease time, a task run that has just been claimed can be claimed by identifier again at once.
\<close>

theorem sqlite_lease_expired_at_once:
  assumes "leaseTTL \<le> - tz * 1000000000" and "fst (ClaimTaskByID tz w leaseTTL now i s) = Inr c" and "run_keys s"
  shows "\<exists>c'. fst (ClaimTaskByID tz w' leaseTTL now i (snd (ClaimTaskByID tz w leaseTTL now i s))) = Inr c'"
proof -
  define s' where "s' = snd (ClaimTaskByID tz w leaseTTL now i s)"
  have "ClaimTaskByID tz w leaseTTL now i s = (Inr c, s')" using assms(2) by (simp add: s'_def prod_eq_iff)
  from sq_claim_id_ok [OF assms(3) this] obtain r where r: "r \<in> set (taskruns s)" "tr_id r = i" "claimable (seconds now) r"
    and s': "s' = s\<lparr>taskruns := update_where (\<lambda>r. tr_id r = i \<and> claimable (seconds now) r)
                          (claim_row w (seconds now) (sq_lease tz now leaseTTL)) (taskruns s)\<rparr>" by blast
  have "(now + leaseTTL) div 1000000000 \<le> (now + (- tz) * 1000000000) div 1000000000" by (rule zdiv_mono1) (use assms(1) in simp_all)
  then have "sq_lease tz now leaseTTL \<le> seconds now" by (simp add: sq_lease_def seconds_def)
  then have q: "claimable (seconds now) (claim_row w (seconds now) (sq_lease tz now leaseTTL) r)"
    using r(3) by (simp add: claimable_def expired_def)
  have mem: "claim_row w (seconds now) (sq_lease tz now leaseTTL) r \<in> set (taskruns s')" using r by (simp add: s' set_update_where)
  have "\<exists>q \<in> set (taskruns s'). tr_id q = i \<and> claimable (seconds now) q"
    by (rule rev_bexI [OF mem]) (simp add: r(2) q)
  then show ?thesis using sq_claim_id_some [of s' i now tz w' leaseTTL] unfolding s'_def [symmetric] by auto
qed

theorem sqlite_lease_expired_at_once_witness:
  "\<exists>c. fst (ClaimTaskByID (- 18000) ''w1'' 60000000000 0 1 ex_claim_db) =
     Inr \<lparr>cl_TaskRunID = 1, cl_TaskID = 1, cl_RunID = 1\<rparr> \<and>
   fst (ClaimTaskByID (- 18000) ''w2'' 60000000000 0 1 (snd (ClaimTaskByID (- 18000) ''w1'' 60000000000 0 1 ex_claim_db))) = Inr c"
proof -
  have "run_keys ex_claim_db" using ex_claim_unclaimed by (simp add: unclaimed_def)
  moreover have "fst (ClaimTaskByID (- 18000) ''w1'' 60000000000 0 1 ex_claim_db) = Inr \<lparr>cl_TaskRunID = 1, cl_TaskID = 1, cl_RunID = 1\<rparr>"
    by (simp add: ClaimTaskByID_def find_taskrun_def rows_affected_def ex_claim_defs)
  ultimately show ?thesis using sqlite_lease_expired_at_once [of 60000000000 "- 18000" "''w1''" 0 1 ex_claim_db _ "''w2''"] by auto
qed

end
