(* ===== verification/Postgres_Manager.thy ===== *)
theory Postgres_Manager
  imports Task_Claims
begin

text \<open>
  \<open>internal/db/postgresDAGManager.go\<close>, on the tables of \<open>Dag_Store\<close>. Statements that are word for word those
  of the SQLite manager are shared with it; what differs is translated here: the foreign keys of the schema (an insertion
  that breaks one is an error, a deletion cascades), dependencies resolved in one query, the tolerant first statement
  of \<open>MarkSuccessAndGetNextTasks\<close>, the recursive query of \<open>MarkConnectingTasksAsSuspended\<close>, the
  guarded upsert of \<open>MarkPodStatus\<close>, \<open>ShouldRerun\<close> as one query, and the scheduler's update. The rows of
  a query without \<open>ORDER BY\<close> come in the order of insertion here; no property depends on it.
\<close>

section \<open>Foreign keys\<close>

definition fk_error :: go_error where
  "fk_error = Err ''violates foreign key constraint''"

text \<open>\<open>ON DELETE CASCADE\<close>, from the bottom of the schema up.\<close>

definition cascade_taskruns :: "(taskrun_row \<Rightarrow> bool) \<Rightarrow> db \<Rightarrow> db" where
  "cascade_taskruns P s =
     (let T = set (map tr_id (filter P (taskruns s)))
      in s\<lparr>taskruns := delete_where P (taskruns s), pods := delete_where (\<lambda>p. po_task_run_id p \<in> T) (pods s)\<rparr>)"

definition cascade_runs :: "(run_row \<Rightarrow> bool) \<Rightarrow> db \<Rightarrow> db" where
  "cascade_runs P s =
     (let R = set (map rn_id (filter P (runs s)))
      in cascade_taskruns (\<lambda>r. tr_run_id r \<in> R)
           (s\<lparr>runs := delete_where P (runs s), runparams := delete_where (\<lambda>p. rp_run_id p \<in> R) (runparams s)\<rparr>))"

definition cascade_dagtasks :: "(dagtask_row \<Rightarrow> bool) \<Rightarrow> db \<Rightarrow> db" where
  "cascade_dagtasks P s =
     (let K = set (map dk_id (filter P (dagtasks s)))
      in cascade_taskruns (\<lambda>r. tr_task_id r \<in> K)
           (s\<lparr>dagtasks := delete_where P (dagtasks s),
              deps := delete_where (\<lambda>d. dp_task_id d \<in> K \<or> dp_depends_on d \<in> K) (deps s)\<rparr>))"

definition cascade_tasks :: "(task_row \<Rightarrow> bool) \<Rightarrow> db \<Rightarrow> db" where
  "cascade_tasks P s =
     (let T = set (map tk_id (filter P (tasks s)))
      in cascade_dagtasks (\<lambda>k. dk_task_id k \<in> T) (s\<lparr>tasks := delete_where P (tasks s)\<rparr>))"

definition cascade_dags :: "(dag_row \<Rightarrow> bool) \<Rightarrow> db \<Rightarrow> db" where
  "cascade_dags P s =
     (let D = set (map dg_id (filter P (dags s)))
      in cascade_runs (\<lambda>r. rn_dag_id r \<in> D) (cascade_dagtasks (\<lambda>k. dk_dag_id k \<in> D)
           (s\<lparr>dags := delete_where P (dags s), workspaces := delete_where (\<lambda>w. wk_dag_id w \<in> D) (workspaces s),
              params := delete_where (\<lambda>p. pr_dag_id p \<in> D) (params s)\<rparr>)))"

section \<open>Insertion of a DAG\<close>

definition pg_setSuspended :: "string \<Rightarrow> string \<Rightarrow> bool \<Rightarrow> db \<Rightarrow> db" where
  "pg_setSuspended = setSuspended"

definition pg_setInactive :: "string \<Rightarrow> string \<Rightarrow> int \<Rightarrow> db \<Rightarrow> db" where
  "pg_setInactive = setInactive"

definition pg_insertWorkspace :: "nat \<Rightarrow> PVC \<Rightarrow> unit tx_body" where
  "pg_insertWorkspace = insertWorkspace"

definition pg_insertParameter :: "nat \<Rightarrow> DagParameterSpec \<Rightarrow> unit tx_body" where
  "pg_insertParameter = insertParameter"

text \<open>The column \<open>retryCodes\<close> is an array of 32-bit integers; the driver refuses a code outside their range.\<close>

definition pg_insertTask :: "(nat \<Rightarrow> string) \<Rightarrow> nat \<Rightarrow> TaskSpec \<Rightarrow> string \<Rightarrow> int \<Rightarrow> unit tx_body" where
  "pg_insertTask uuid dagID task namespace version s =
     (case ts_TaskRef task of
        Some ref \<Rightarrow>
          (case query_row (filter (\<lambda>t. tk_name t = tr_Name ref \<and> \<not> tk_inline t \<and> tk_version t = tr_Version ref)
                             (tasks s)) of
             None \<Rightarrow> Inl ErrNoRows
           | Some t \<Rightarrow> insert_dagtask_row dagID (tk_id t) (ts_Name task) version s)
      | None \<Rightarrow>
          if list_all in_int32 (co_RetryCodes (ts_Conditional task))
          then bind_tx (insert_task_row (inline_row uuid s task namespace version) s)
                 (\<lambda>taskId. insert_dagtask_row dagID taskId (ts_Name task) version)
          else Inl (Err ''failed to insert line task''))"

text \<open>
  The dependencies are read in one query, newest version first, and written into a map: of several tasks
  of one name, the last one read stays.
\<close>

definition pg_dep_map :: "nat \<Rightarrow> string list \<Rightarrow> db \<Rightarrow> string \<rightharpoonup> nat" where
  "pg_dep_map dagID runAfter s =
     foldl (\<lambda>m k. m(dk_name k \<mapsto> dk_id k)) Map.empty
       (order_by_desc dk_version (filter (\<lambda>k. dk_dag_id k = dagID \<and> dk_name k \<in> set runAfter) (dagtasks s)))"

definition pg_createDependencyConnection :: "nat \<Rightarrow> TaskSpec \<Rightarrow> int \<Rightarrow> unit tx_body" where
  "pg_createDependencyConnection dagID task version s =
     (if ts_RunAfter task = [] then Inr ((), s)
      else case query_row (filter (\<lambda>t. dk_dag_id t = dagID \<and> dk_name t = ts_Name task \<and> dk_version t = version)
                             (dagtasks s)) of
             None \<Rightarrow> Inl (Err (''task '' @ ts_Name task @ '' not found for version '' @ Itoa version))
           | Some t \<Rightarrow>
               let depMap = pg_dep_map dagID (ts_RunAfter task) s
               in (case filter (\<lambda>d. depMap d = None) (ts_RunAfter task) of
                     d # _ \<Rightarrow> Inl (Err (''dependency task '' @ d @ '' not found''))
                   | [] \<Rightarrow> Inr ((), s\<lparr>deps := deps s @
                             map (\<lambda>d. \<lparr>dp_task_id = dk_id t, dp_depends_on = the (depMap d)\<rparr>) (ts_RunAfter task)\<rparr>)))"

definition pg_new_dag_row :: "DAG \<Rightarrow> int \<Rightarrow> string \<Rightarrow> string \<Rightarrow> int option \<Rightarrow> dag_row" where
  "pg_new_dag_row dag version namespace hash nextTime =
     \<lparr>dg_id = 0, dg_name = dag_Name dag, dg_version = version, dg_hash = hash,
      dg_schedule = ds_Schedule (dag_Spec dag), dg_namespace = namespace, dg_active = True,
      dg_taskCount = length (ds_Task (dag_Spec dag)), dg_nexttime = nextTime,
      dg_webhookUrl = wh_URL (ds_Webhook (dag_Spec dag)),
      dg_sslVerification = wh_VerifySSL (ds_Webhook (dag_Spec dag)),
      dg_workspaceEnabled = Some (ws_Enabled (ds_Workspace (dag_Spec dag))),
      dg_suspended = ds_Suspended (dag_Spec dag)\<rparr>"

definition pg_insertDAG ::
    "(nat \<Rightarrow> string) \<Rightarrow> cron \<Rightarrow> int \<Rightarrow> DAG \<Rightarrow> int \<Rightarrow> string \<Rightarrow> string \<Rightarrow> unit tx_body" where
  "pg_insertDAG uuid cron now dag version namespace hash s =
     (let spec = dag_Spec dag
      in case next_time cron now (ds_Schedule spec) of
           Inl e \<Rightarrow> Inl e
         | Inr nextTime \<Rightarrow>
             bind_tx (insert_dag_row (pg_new_dag_row dag version namespace hash nextTime) s) (\<lambda>dagID s1.
             bind_tx (if ws_Enabled (ds_Workspace spec)
                      then pg_insertWorkspace dagID (ws_PvcSpec (ds_Workspace spec)) s1 else Inr ((), s1)) (\<lambda>_ s2.
             bind_tx (for_tx (ds_Task spec) (\<lambda>t. pg_insertTask uuid dagID t namespace (getTaskVersion t)) s2) (\<lambda>_ s3.
             bind_tx (for_tx (ds_Task spec) (\<lambda>t. pg_createDependencyConnection dagID t (getTaskVersion t)) s3) (\<lambda>_.
             for_tx (ds_Parameters spec) (pg_insertParameter dagID))))))"

definition pg_InsertDAG_tx ::
    "(DAGSpec \<Rightarrow> string) \<Rightarrow> (nat \<Rightarrow> string) \<Rightarrow> cron \<Rightarrow> int \<Rightarrow> DAG \<Rightarrow> string \<Rightarrow> unit tx_body" where
  "pg_InsertDAG_tx digest uuid cron now dag namespace s =
     (let (existingDAGID, version, hash, suspended) =
            (case latest_dag (dag_Name dag) namespace s of
               None \<Rightarrow> (0, 0, '''', False)
             | Some d \<Rightarrow> (dg_id d, dg_version d, dg_hash d, dg_suspended d));
          hashValue = hashDagSpec digest (dag_Spec dag)
      in if hash = hashValue
         then (if suspended \<noteq> ds_Suspended (dag_Spec dag)
               then Inr ((), pg_setSuspended (dag_Name dag) namespace (ds_Suspended (dag_Spec dag)) s)
               else Inl (Err ''applying the same dag''))
         else let version' = (if existingDAGID \<noteq> 0 then version + 1 else version)
              in bind_tx (pg_insertDAG uuid cron now dag version' namespace hashValue s)
                   (\<lambda>_ s1. Inr ((), pg_setInactive (dag_Name dag) namespace (version' - 1) s1)))"

definition pg_InsertDAG ::
    "(DAGSpec \<Rightarrow> string) \<Rightarrow> (nat \<Rightarrow> string) \<Rightarrow> cron \<Rightarrow> int \<Rightarrow> DAG \<Rightarrow> string \<Rightarrow> unit op" where
  "pg_InsertDAG digest uuid cron now dag namespace = withTx (pg_InsertDAG_tx digest uuid cron now dag namespace)"

section \<open>The scheduler's query\<close>

text \<open>The number of the DAG is scanned but not kept: every \<open>DagInfo\<close> has the number 0, and the update uses it.\<close>

definition pg_dag_info :: "dag_row \<Rightarrow> DagInfo" where
  "pg_dag_info d =
     \<lparr>di_DagId = 0, di_DagName = dg_name d, di_Namespace = dg_namespace d,
      di_WorkspaceEnabled = (dg_workspaceEnabled d = Some True), di_WebhookUrl = dg_webhookUrl d,
      di_SSLVerification = dg_sslVerification d\<rparr>"

fun pg_advance :: "cron \<Rightarrow> int \<Rightarrow> (string \<times> DagInfo) list \<Rightarrow> unit tx_body" where
  "pg_advance cron now [] s = Inr ((), s)"
| "pg_advance cron now ((schedule, info) # rest) s =
     (case cron schedule of
        Inl e \<Rightarrow> Inl e
      | Inr next \<Rightarrow>
          pg_advance cron now rest
            (s\<lparr>dags := update_where (\<lambda>x. dg_id x = di_DagId info) (\<lambda>x. x\<lparr>dg_nexttime := Some (next now)\<rparr>) (dags s)\<rparr>))"

definition pg_due_dags :: "int \<Rightarrow> db \<Rightarrow> dag_row list" where
  "pg_due_dags tm s =
     filter (\<lambda>d. (case dg_nexttime d of None \<Rightarrow> False | Some t \<Rightarrow> t \<le> tm) \<and> dg_schedule d \<noteq> '''' \<and>
                 dg_active d \<and> \<not> dg_suspended d) (dags s)"

text \<open>A row whose \<open>workspaceEnabled\<close> is null cannot be scanned into a \<open>bool\<close>, which is an error of the whole call.\<close>

definition pg_GetDAGsToStartAndUpdate :: "cron \<Rightarrow> int \<Rightarrow> int \<Rightarrow> DagInfo list op" where
  "pg_GetDAGsToStartAndUpdate cron tm now =
     withTx (\<lambda>s. let rows = pg_due_dags tm s;
                     namespaces = map pg_dag_info rows
                 in if list_ex (\<lambda>d. dg_workspaceEnabled d = None) rows then Inl (Err ''cannot scan NULL into *bool'')
                    else bind_tx (pg_advance cron now (zip (map dg_schedule rows) namespaces) s) (\<lambda>_ s'. Inr (namespaces, s')))"

section \<open>Lookups\<close>

definition pg_GetID :: "string \<Rightarrow> string op" where
  "pg_GetID = GetID"

definition pg_dagNameToDagId :: "string \<Rightarrow> db \<Rightarrow> nat result" where
  "pg_dagNameToDagId = dagNameToDagId"

definition pg_GetDagParameters :: "string \<Rightarrow> db \<Rightarrow> (string \<rightharpoonup> Parameter)" where
  "pg_GetDagParameters = GetDagParameters"

definition pg_DagExists :: "string \<Rightarrow> db \<Rightarrow> bool \<times> int" where
  "pg_DagExists = DagExists"

definition pg_GetWebhookDetails :: "nat \<Rightarrow> db \<Rightarrow> Webhook result" where
  "pg_GetWebhookDetails = GetWebhookDetails"

definition pg_GetWorkspacePVCTemplate :: "nat \<Rightarrow> db \<Rightarrow> PVC option" where
  "pg_GetWorkspacePVCTemplate = GetWorkspacePVCTemplate"

definition pg_FindExistingDAGRun :: "string \<Rightarrow> db \<Rightarrow> bool" where
  "pg_FindExistingDAGRun = FindExistingDAGRun"

definition pg_TaskRunExists :: "nat \<Rightarrow> nat \<Rightarrow> db \<Rightarrow> bool" where
  "pg_TaskRunExists = TaskRunExists"

definition pg_DagrunExists :: "nat \<Rightarrow> db \<Rightarrow> bool" where
  "pg_DagrunExists = DagrunExists"

definition pg_GetTaskRunStatus :: "nat \<Rightarrow> db \<Rightarrow> string result" where
  "pg_GetTaskRunStatus = GetTaskRunStatus"

definition pg_GetTaskRunInfo :: "nat \<Rightarrow> db \<Rightarrow> (string \<times> string \<times> string) result" where
  "pg_GetTaskRunInfo = GetTaskRunInfo"

definition pg_GetTaskScriptAndInjectorImage :: "nat \<Rightarrow> db \<Rightarrow> (string \<times> string) result" where
  "pg_GetTaskScriptAndInjectorImage = GetTaskScriptAndInjectorImage"

definition pg_CheckIfAllTasksDone :: "nat \<Rightarrow> db \<Rightarrow> bool result" where
  "pg_CheckIfAllTasksDone = CheckIfAllTasksDone"

text \<open>
  One query for all references, keyed by name and version only; the number of entries must be the number of references,
  so a reference given twice is an error.
\<close>

definition pg_GetTaskRefsParameters :: "TaskRef list \<Rightarrow> db \<Rightarrow> (TaskRef \<rightharpoonup> string list) result" where
  "pg_GetTaskRefsParameters taskRefs s =
     (if taskRefs = [] then Inr Map.empty
      else let rows = filter (\<lambda>t. \<not> tk_inline t \<and> \<lparr>tr_Name = tk_name t, tr_Version = tk_version t\<rparr> \<in> set taskRefs) (tasks s);
               taskMp = foldl (\<lambda>m t. m(\<lparr>tr_Name = tk_name t, tr_Version = tk_version t\<rparr> \<mapsto> tk_parameters t)) Map.empty rows
           in if length (remdups (map (\<lambda>t. \<lparr>tr_Name = tk_name t, tr_Version = tk_version t\<rparr>) rows)) \<noteq> length taskRefs
              then Inl (Err ''not all requested tasks were found'')
              else Inr taskMp)"

section \<open>Runs and task runs\<close>

definition pg_CreateDAGRun :: "string \<Rightarrow> DagRunSpec \<Rightarrow> ParameterSpec list \<Rightarrow> string option \<Rightarrow> int \<Rightarrow> nat op" where
  "pg_CreateDAGRun = CreateDAGRun"

definition pg_GetStartingTasks :: "string \<Rightarrow> nat \<Rightarrow> db \<Rightarrow> Task list result" where
  "pg_GetStartingTasks = GetStartingTasks"

definition pg_MarkDAGRunOutcome :: "nat \<Rightarrow> string \<Rightarrow> unit op" where
  "pg_MarkDAGRunOutcome = MarkDAGRunOutcome"

definition pg_IncrementAttempts :: "nat \<Rightarrow> unit op" where
  "pg_IncrementAttempts = IncrementAttempts"

definition pg_SaveRetryEnv :: "nat \<Rightarrow> string \<Rightarrow> unit op" where
  "pg_SaveRetryEnv = SaveRetryEnv"

definition pg_MarkTaskAsFailed :: "nat \<Rightarrow> unit op" where
  "pg_MarkTaskAsFailed = MarkTaskAsFailed"

definition pg_SuspendDagRun :: "nat \<Rightarrow> RunningPodInfo list op" where
  "pg_SuspendDagRun = SuspendDagRun"

definition pg_AddPodDuration :: "nat \<Rightarrow> int \<Rightarrow> unit op" where
  "pg_AddPodDuration = AddPodDuration"

text \<open>An inserted task run must name a run and a task of a DAG that exist.\<close>

definition pg_insert_taskrun :: "nat \<Rightarrow> nat \<Rightarrow> string \<Rightarrow> nat \<Rightarrow> nat op" where
  "pg_insert_taskrun runId taskId status attempts s =
     (if (\<exists>r \<in> set (runs s). rn_id r = runId) \<and> (\<exists>k \<in> set (dagtasks s). dk_id k = taskId)
      then (let (i, s') = insert_taskrun runId taskId status attempts s in (Inr i, s'))
      else (Inl fk_error, s))"

definition pg_MarkTaskAsStarted :: "nat \<Rightarrow> nat \<Rightarrow> nat op" where
  "pg_MarkTaskAsStarted runId taskId = pg_insert_taskrun runId taskId ''running'' 1"

definition pg_AddPendingTaskRun :: "nat \<Rightarrow> nat \<Rightarrow> nat op" where
  "pg_AddPendingTaskRun runId dagTaskId = pg_insert_taskrun runId dagTaskId ''pending'' 0"

definition pg_getDAGIdFromRun :: "nat \<Rightarrow> db \<Rightarrow> nat result" where
  "pg_getDAGIdFromRun runId s = (case find_run runId s of None \<Rightarrow> Inl ErrNoRows | Some r \<Rightarrow> Inr (rn_dag_id r))"

definition pg_getDependencyCounts :: "nat \<Rightarrow> db \<Rightarrow> (nat, nat) gomap" where
  "pg_getDependencyCounts = getDependencyCounts"

definition pg_getMetDependencies :: "nat \<Rightarrow> nat \<Rightarrow> db \<Rightarrow> nat \<Rightarrow> nat" where
  "pg_getMetDependencies = getMetDependencies"

definition pg_getRunnableTasks :: "(nat, nat) gomap \<Rightarrow> (nat \<Rightarrow> nat) \<Rightarrow> nat \<Rightarrow> db \<Rightarrow> nat list" where
  "pg_getRunnableTasks = getRunnableTasks"

definition pg_getTasksByIds :: "nat list \<Rightarrow> nat \<Rightarrow> db \<Rightarrow> (Task \<times> string list) list" where
  "pg_getTasksByIds = getTasksByIds"

definition pg_getNextRunnableTasks :: "nat \<Rightarrow> nat \<Rightarrow> nat \<Rightarrow> db \<Rightarrow> (Task \<times> string list) list" where
  "pg_getNextRunnableTasks taskRunId runId dagId s =
     pg_getTasksByIds (pg_getRunnableTasks (pg_getDependencyCounts dagId s) (pg_getMetDependencies dagId runId s) taskRunId s) runId s"

definition pg_fetchTaskParameters :: "nat \<Rightarrow> (Task \<times> string list) list \<Rightarrow> db \<Rightarrow> Task list" where
  "pg_fetchTaskParameters = fetchTaskParameters"

text \<open>
  A missing task run is not an error of the first statement: the run number stays 0, and the transaction fails
  only when that run is looked up.
\<close>

definition pg_MarkSuccessAndGetNextTasks :: "nat \<Rightarrow> Task list op" where
  "pg_MarkSuccessAndGetNextTasks taskRunId =
     withTx (\<lambda>s.
       let runId = (case find_taskrun taskRunId s of None \<Rightarrow> 0 | Some r \<Rightarrow> tr_run_id r);
           s1 = set_status taskRunId ''success'' s;
           s2 = s1\<lparr>runs := update_where (\<lambda>r. rn_id r = runId) (\<lambda>r. r\<lparr>rn_successfulCount := rn_successfulCount r + 1\<rparr>) (runs s1)\<rparr>
       in if run_complete runId s2
          then Inr ([], s2\<lparr>runs := update_where (\<lambda>r. rn_id r = runId) (\<lambda>r. r\<lparr>rn_status := ''success''\<rparr>) (runs s2)\<rparr>)
          else (case pg_getDAGIdFromRun runId s2 of
                  Inl e \<Rightarrow> Inl e
                | Inr dagId \<Rightarrow> Inr (pg_fetchTaskParameters dagId (pg_getNextRunnableTasks taskRunId runId dagId s2) s2, s2)))"

definition pg_ShouldRerun :: "nat \<Rightarrow> int \<Rightarrow> db \<Rightarrow> bool result" where
  "pg_ShouldRerun taskRunId exitCode s =
     Inr (\<exists>r \<in> set (taskruns s). \<exists>(k, t) \<in> set (task_join s).
            dk_id k = tr_task_id r \<and> tr_id r = taskRunId \<and> int (tr_attempts r) \<le> tk_backoffLimit t \<and>
            (\<not> tk_isConditional t \<or> exitCode \<in> set (tk_retryCodes t)))"

definition pg_MarkPodStatus ::
    "string \<Rightarrow> string \<Rightarrow> nat \<Rightarrow> string \<Rightarrow> int \<Rightarrow> int option \<Rightarrow> string \<Rightarrow> unit op" where
  "pg_MarkPodStatus podUid name taskRunID status tStamp exitCode namespace =
     withTx (\<lambda>s.
       if \<exists>p \<in> set (pods s). po_uid p = podUid
       then (if rows_affected (\<lambda>p. po_uid p = podUid \<and> po_updated_at p \<le> tStamp) (pods s) = 0
             then Inl (Err ''pod status not updated'')
             else Inr ((), s\<lparr>pods := update_where (\<lambda>p. po_uid p = podUid \<and> po_updated_at p \<le> tStamp)
                    (\<lambda>p. p\<lparr>po_status := status, po_updated_at := tStamp, po_exitCode := exitCode\<rparr>) (pods s)\<rparr>))
       else if \<exists>r \<in> set (taskruns s). tr_id r = taskRunID
       then Inr ((), s\<lparr>pods := pods s @ [\<lparr>po_uid = podUid, po_task_run_id = taskRunID, po_exitCode = exitCode, po_name = name,
                    po_status = status, po_namespace = namespace, po_updated_at = tStamp, po_duration = None\<rparr>]\<rparr>)
       else Inl fk_error)"

text \<open>
  \<open>GetTaskForRun\<close>: the first row of the join, with the retry environment of any task run of that task in the run.
\<close>

definition pg_task_rows :: "nat \<Rightarrow> nat \<Rightarrow> db \<Rightarrow> (dagtask_row \<times> task_row \<times> run_row \<times> dag_row \<times> string option) list" where
  "pg_task_rows runId dagTaskId s =
     [(k, t, r, d, e). (k, t) <- task_join s, dk_id k = dagTaskId, r <- runs s, rn_id r = runId \<and> rn_dag_id r = dk_dag_id k,
        d <- dags s, dg_id d = rn_dag_id r,
        e <- (case filter (\<lambda>q. tr_run_id q = runId \<and> tr_task_id q = dagTaskId) (taskruns s) of
                [] \<Rightarrow> [None] | qs \<Rightarrow> map tr_retry_env qs)]"

definition pg_GetTaskForRun :: "nat \<Rightarrow> nat \<Rightarrow> db \<Rightarrow> (Task \<times> string \<times> string) result" where
  "pg_GetTaskForRun runId dagTaskId s =
     (case query_row (pg_task_rows runId dagTaskId s) of
        None \<Rightarrow> Inl ErrNoRows
      | Some (k, t, r, d, retryEnv) \<Rightarrow>
          let task = \<lparr>t_Id = dk_id k, t_Name = dk_name k, t_Image = tk_image t, t_Command = tk_command t, t_Args = tk_args t,
                      t_Parameters = [], t_PodTemplate = Some (with_workspace (tk_podTemplate t) (rn_pvcName r)),
                      t_Script = tk_script t, t_ScriptInjectorImage = tk_scriptInjectorImage t\<rparr>;
              retry = (case retryEnv of None \<Rightarrow> '''' | Some e \<Rightarrow> e)
          in if tk_parameters t = [] then Inr (task, dg_namespace d, retry)
             else (case pg_getDAGIdFromRun runId s of
                     Inl e \<Rightarrow> Inl e
                   | Inr dagId \<Rightarrow>
                       (case pg_fetchTaskParameters dagId [(task, tk_parameters t)] s of
                          [] \<Rightarrow> Inl ErrNoRows
                        | task' # _ \<Rightarrow> Inr (task', dg_namespace d, retry))))"

section \<open>Shared tasks and deletion\<close>

definition pg_AddTask :: "(DagTaskSpec \<Rightarrow> string) \<Rightarrow> string \<Rightarrow> DagTaskSpec \<Rightarrow> string \<Rightarrow> unit op" where
  "pg_AddTask digest name spec namespace =
     withTx (\<lambda>s. if list_all in_int32 (co_RetryCodes (dt_Conditional spec)) then AddTask_tx digest name spec namespace s
                 else case AddTask_tx digest name spec namespace s of
                        Inl e \<Rightarrow> Inl e
                      | Inr _ \<Rightarrow> Inl (Err ''value is out of range for int4''))"

definition pg_DeleteTask :: "string \<Rightarrow> string \<Rightarrow> unit op" where
  "pg_DeleteTask taskName namespace s =
     (Inr (), cascade_tasks (\<lambda>t. tk_name t = taskName \<and> tk_namespace t = namespace \<and> \<not> tk_inline t) s)"

definition pg_getTaskDeletionData :: "string \<Rightarrow> string \<Rightarrow> db \<Rightarrow> task_row list" where
  "pg_getTaskDeletionData = getTaskDeletionData"

definition pg_DeleteDAG :: "string \<Rightarrow> string \<Rightarrow> string list op" where
  "pg_DeleteDAG name namespace s =
     (let T = inline_task_ids name s;
          unusedTaskNames = map tk_name (filter (\<lambda>t. \<not> used_elsewhere name namespace t s)
                                           (pg_getTaskDeletionData name namespace s))
      in (Inr unusedTaskNames,
          cascade_tasks (\<lambda>t. tk_id t \<in> T) (cascade_dags (\<lambda>d. dg_name d = name \<and> dg_namespace d = namespace) s)))"

definition pg_DeleteDagRun :: "nat \<Rightarrow> unit op" where
  "pg_DeleteDagRun dagRunId s = (Inr (), cascade_runs (\<lambda>r. rn_id r = dagRunId) s)"

section \<open>Suspension of the tasks after a failed one\<close>

text \<open>
  The recursive query \<open>task_chain\<close> works level by level and keeps duplicates: it ends exactly if
  no cycle of dependencies is reachable, so it may not return a value.
\<close>

partial_function (option) task_chain :: "(nat \<times> nat) list \<Rightarrow> nat \<Rightarrow> nat list \<Rightarrow> (nat \<times> nat) list option" where
  "task_chain edges depth frontier =
     (if frontier = [] then Some []
      else Option.bind (task_chain edges (Suc depth) (concat (map (dependents edges) frontier)))
             (\<lambda>rest. Some (map (\<lambda>t. (t, depth)) frontier @ rest)))"

definition chain_edges :: "db \<Rightarrow> (nat \<times> nat) list" where
  "chain_edges s =
     map (\<lambda>d. (dp_depends_on d, dp_task_id d)) (filter (\<lambda>d. \<exists>k \<in> set (dagtasks s). dk_id k = dp_task_id d) (deps s))"

definition task_name :: "db \<Rightarrow> nat \<Rightarrow> string" where
  "task_name s t = (case query_row (filter (\<lambda>k. dk_id k = t) (dagtasks s)) of Some k \<Rightarrow> dk_name k | None \<Rightarrow> '''')"

text \<open>The rows in order of depth; only the first row of a task counts.\<close>

definition chain_updates :: "nat \<Rightarrow> (nat \<times> nat) list \<Rightarrow> db \<Rightarrow> nat list" where
  "chain_updates dagRunId chain s = rev (remdups (rev (filter (\<lambda>t. t \<notin> existing_tasks dagRunId s) (map fst chain))))"

definition pg_MarkConnectingTasksAsSuspended :: "nat \<Rightarrow> nat \<Rightarrow> db \<Rightarrow> (string list result \<times> db) option" where
  "pg_MarkConnectingTasksAsSuspended dagRunId taskRunId s =
     (let edges = chain_edges s;
          start = map tr_task_id (filter (\<lambda>r. tr_id r = taskRunId) (taskruns s))
      in case task_chain edges 1 (concat (map (dependents edges) start)) of
           None \<Rightarrow> None
         | Some chain \<Rightarrow>
             let updates = chain_updates dagRunId chain s
             in if updates = [] then Some (Inr [], s)
                else if \<not> DagrunExists dagRunId s then Some (Inl fk_error, s)
                else let s1 = insert_suspended dagRunId updates s;
                         s2 = s1\<lparr>runs := update_where (\<lambda>r. rn_id r = dagRunId)
                                  (\<lambda>r. r\<lparr>rn_suspendedCount := rn_suspendedCount r + length updates\<rparr>) (runs s1)\<rparr>
                     in Some (Inr (map (task_name s) updates), s2))"

lemma task_chain_returns:
  assumes "acyclic (set edges)" "\<And>t. t \<in> set frontier \<Longrightarrow> card ((set edges)\<^sup>+ `` {t}) < n"
  shows "\<exists>chain. task_chain edges depth frontier = Some chain \<and> fst ` set chain = (set edges)\<^sup>* `` set frontier"
  using assms(2)
proof (induction n arbitrary: depth frontier)
  case 0
  then have "frontier = []" by (cases frontier) auto
  then show ?case by (simp add: task_chain.simps)
next
  case (Suc n)
  show ?case
  proof (cases "frontier = []")
    case False
    let ?new = "concat (map (dependents edges) frontier)"
    have new: "set ?new = set edges `` set frontier" by (force simp: dependents_def)
    have fin: "finite ((set edges)\<^sup>+ `` {t})" for t by (intro finite_Image) (simp add: finite_trancl)
    have "card ((set edges)\<^sup>+ `` {u}) < n" if "u \<in> set ?new" for u
    proof -
      obtain t where t: "t \<in> set frontier" "(t, u) \<in> set edges" using \<open>u \<in> set ?new\<close> new by auto
      have "u \<in> (set edges)\<^sup>+ `` {t}" using t(2) by blast
      moreover have "u \<notin> (set edges)\<^sup>+ `` {u}" using assms(1) by (simp add: acyclic_def)
      moreover have "(set edges)\<^sup>+ `` {u} \<subseteq> (set edges)\<^sup>+ `` {t}"
      proof
        fix v assume "v \<in> (set edges)\<^sup>+ `` {u}"
        then have "(t, v) \<in> (set edges)\<^sup>+" using trancl_into_trancl2 [OF t(2), of v] by simp
        then show "v \<in> (set edges)\<^sup>+ `` {t}" by simp
      qed
      ultimately have "(set edges)\<^sup>+ `` {u} \<subset> (set edges)\<^sup>+ `` {t}" by blast
      then have "card ((set edges)\<^sup>+ `` {u}) < card ((set edges)\<^sup>+ `` {t})" by (rule psubset_card_mono [OF fin])
      then show ?thesis using Suc.prems [OF t(1)] by simp
    qed
    from Suc.IH [OF this] obtain rest where rest: "task_chain edges (Suc depth) ?new = Some rest"
      "fst ` set rest = (set edges)\<^sup>* `` set ?new" by blast
    have "(set edges)\<^sup>* `` set frontier = set frontier \<union> (set edges)\<^sup>* `` (set edges `` set frontier)"
      by (rule rtrancl_Image_step)
    then show ?thesis using rest False new by (simp add: task_chain.simps [of edges depth frontier] image_Un image_image)
  qed (simp add: task_chain.simps)
qed

lemma task_chain_starts:
  assumes "acyclic (set edges)"
  shows "\<exists>chain. task_chain edges depth (concat (map (dependents edges) start)) = Some chain \<and>
           fst ` set chain = (set edges)\<^sup>+ `` set start"
proof -
  have new: "set (concat (map (dependents edges) start)) = set edges `` set start" by (force simp: dependents_def)
  have fin: "finite ((set edges)\<^sup>+)" by (simp add: finite_trancl)
  have "(set edges)\<^sup>+ `` {t} \<subseteq> Range ((set edges)\<^sup>+)" for t by blast
  then have "card ((set edges)\<^sup>+ `` {t}) < Suc (card (Range ((set edges)\<^sup>+)))" for t
    using card_mono [OF finite_Range [OF fin], of "(set edges)\<^sup>+ `` {t}"] by (simp add: less_Suc_eq_le)
  from task_chain_returns [OF assms this] obtain chain where
    "task_chain edges depth (concat (map (dependents edges) start)) = Some chain"
    "fst ` set chain = (set edges)\<^sup>* `` (set edges `` set start)" using new by metis
  moreover have "(set edges)\<^sup>* `` (set edges `` set start) = (set edges)\<^sup>+ `` set start"
    by (simp add: trancl_unfold_left relcomp_Image)
  ultimately show ?thesis by simp
qed

lemma chain_updates_set: "set (chain_updates run chain s) = fst ` set chain - existing_tasks run s"
  by (auto simp: chain_updates_def)

lemma pg_MarkConnecting_cases:
  assumes ac: "acyclic (set (chain_edges s))" and start: "find_taskrun taskRunId s = Some start" and keys: "run_keys s"
    and run: "DagrunExists dagRunId s"
  obtains updates where "set updates = (set (chain_edges s))\<^sup>+ `` {tr_task_id start} - existing_tasks dagRunId s"
    "distinct updates"
    "pg_MarkConnectingTasksAsSuspended dagRunId taskRunId s = Some (Inr (map (task_name s) updates),
       (if updates = [] then s else (insert_suspended dagRunId updates s)\<lparr>runs := update_where (\<lambda>r. rn_id r = dagRunId)
          (\<lambda>r. r\<lparr>rn_suspendedCount := rn_suspendedCount r + length updates\<rparr>) (runs (insert_suspended dagRunId updates s))\<rparr>))"
proof -
  let ?start = "map tr_task_id (filter (\<lambda>r. tr_id r = taskRunId) (taskruns s))"
  have in_rows: "start \<in> set (taskruns s)" "tr_id start = taskRunId"
    using query_row_Some_in [OF start [unfolded find_taskrun_def]] by auto
  have only: "r = start" if "r \<in> set (taskruns s)" "tr_id r = taskRunId" for r
    using keys in_rows that by (auto simp: run_keys_def distinct_map inj_on_def)
  have one: "set ?start = {tr_task_id start}" using only in_rows by force
  obtain chain where c: "task_chain (chain_edges s) 1 (concat (map (dependents (chain_edges s)) ?start)) = Some chain"
    "fst ` set chain = (set (chain_edges s))\<^sup>+ `` {tr_task_id start}"
    using task_chain_starts [OF ac, of 1 ?start] one by auto
  show thesis
    by (rule that [of "chain_updates dagRunId chain s"])
      (use c run in \<open>simp_all add: chain_updates_set pg_MarkConnectingTasksAsSuspended_def Let_def\<close>,
       simp_all add: chain_updates_def)
qed

lemma pg_MarkConnecting_result:
  assumes "acyclic (set (chain_edges s))" "find_taskrun taskRunId s = Some start" "run_keys s" "DagrunExists dagRunId s"
  shows "\<exists>updates rows s'. pg_MarkConnectingTasksAsSuspended dagRunId taskRunId s = Some (Inr (map (task_name s) updates), s') \<and>
     distinct updates \<and> set updates = (set (chain_edges s))\<^sup>+ `` {tr_task_id start} - existing_tasks dagRunId s \<and>
     taskruns s' = taskruns s @ rows \<and>
     map (\<lambda>r. (tr_run_id r, tr_task_id r, tr_status r, tr_attempts r)) rows = map (\<lambda>t. (dagRunId, t, ''suspended'', 0)) updates \<and>
     runs s' = update_where (\<lambda>r. rn_id r = dagRunId) (\<lambda>r. r\<lparr>rn_suspendedCount := rn_suspendedCount r + length updates\<rparr>) (runs s)"
proof (rule pg_MarkConnecting_cases [OF assms])
  fix updates
  assume u: "set updates = (set (chain_edges s))\<^sup>+ `` {tr_task_id start} - existing_tasks dagRunId s" "distinct updates"
    and eq: "pg_MarkConnectingTasksAsSuspended dagRunId taskRunId s = Some (Inr (map (task_name s) updates),
       (if updates = [] then s else (insert_suspended dagRunId updates s)\<lparr>runs := update_where (\<lambda>r. rn_id r = dagRunId)
          (\<lambda>r. r\<lparr>rn_suspendedCount := rn_suspendedCount r + length updates\<rparr>) (runs (insert_suspended dagRunId updates s))\<rparr>))"
  obtain rows where rows: "taskruns (insert_suspended dagRunId updates s) = taskruns s @ rows"
    "map (\<lambda>r. (tr_run_id r, tr_task_id r, tr_status r, tr_attempts r)) rows = map (\<lambda>t. (dagRunId, t, ''suspended'', 0)) updates"
    using insert_suspended_taskruns(1) by blast
  have same: "update_where P (\<lambda>r. r\<lparr>rn_suspendedCount := rn_suspendedCount r + 0\<rparr>) xs = xs" for P and xs :: "run_row list"
    by (induction xs) auto
  show ?thesis
  proof (cases "updates = []")
    case True
    then show ?thesis using u eq same [of "\<lambda>r. rn_id r = dagRunId" "runs s"] by (intro exI [of _ "[]"] exI [of _ s]) simp
  next
    case False
    then show ?thesis using u eq rows insert_suspended_taskruns(2)
      by (intro exI [of _ updates] exI [of _ rows]) simp
  qed
qed

text \<open>
  (C23) In Postgres, where a recursive query replaces the search, the query ends whenever the stored dependencies have no cycle,
  and the suspended tasks are all descendants of the failed task that have no run yet: each gets one new task run, and the
  run's counter grows by their number.
\<close>

theorem pg_suspends_descendants:
  assumes "acyclic (set (chain_edges s))" "find_taskrun taskRunId s = Some start" "run_keys s" "DagrunExists dagRunId s"
  shows "\<exists>updates rows s'. pg_MarkConnectingTasksAsSuspended dagRunId taskRunId s = Some (Inr (map (task_name s) updates), s') \<and>
     distinct updates \<and> set updates = (set (chain_edges s))\<^sup>+ `` {tr_task_id start} - existing_tasks dagRunId s \<and>
     taskruns s' = taskruns s @ rows \<and>
     map (\<lambda>r. (tr_run_id r, tr_task_id r, tr_status r, tr_attempts r)) rows = map (\<lambda>t. (dagRunId, t, ''suspended'', 0)) updates \<and>
     runs s' = update_where (\<lambda>r. rn_id r = dagRunId) (\<lambda>r. r\<lparr>rn_suspendedCount := rn_suspendedCount r + length updates\<rparr>) (runs s)"
  by (rule pg_MarkConnecting_result [OF assms])

text \<open>
  The search of the SQLite manager stops at tasks that have a run; it finds the same tasks as the recursive query if the tasks with
  a run are closed under dependents, the failed task aside.
\<close>

lemma suspend_rel_closed:
  assumes closed: "\<And>x y. (a, x) \<in> (set rows)\<^sup>+ \<Longrightarrow> x \<in> ex \<Longrightarrow> (x, y) \<in> set rows \<Longrightarrow> y \<in> ex"
  shows "(suspend_rel rows ex)\<^sup>+ `` {a} = (set rows)\<^sup>+ `` {a} - ex"
proof
  have sub: "suspend_rel rows ex \<subseteq> set rows" by (auto simp: suspend_rel_def)
  have "y \<notin> ex" if "(a, y) \<in> (suspend_rel rows ex)\<^sup>+" for y
    using that by (cases rule: trancl.cases) (auto simp: suspend_rel_def)
  then show "(suspend_rel rows ex)\<^sup>+ `` {a} \<subseteq> (set rows)\<^sup>+ `` {a} - ex" using trancl_mono_subset [OF sub] by blast
  have "y \<notin> ex \<longrightarrow> (a, y) \<in> (suspend_rel rows ex)\<^sup>+" if "(a, y) \<in> (set rows)\<^sup>+" for y
    using that
  proof (induction rule: trancl_induct)
    case (base y)
    then show ?case by (auto simp: suspend_rel_def)
  next
    case (step y z)
    then have "(y, z) \<in> suspend_rel rows ex" "y \<notin> ex" if "z \<notin> ex"
      using that closed [OF step(1) _ step(2)] by (auto simp: suspend_rel_def)
    then show ?case using step.IH by (meson trancl_into_trancl)
  qed
  then show "(set rows)\<^sup>+ `` {a} - ex \<subseteq> (suspend_rel rows ex)\<^sup>+ `` {a}" by blast
qed

section \<open>Where the two managers agree\<close>

lemma existing_tasks_append:
  assumes "taskruns s' = taskruns s @ rows"
    "map (\<lambda>r. (tr_run_id r, tr_task_id r, tr_status r, tr_attempts r)) rows = map (\<lambda>t. (run, t, ''suspended'', 0)) updates"
  shows "existing_tasks run s' = existing_tasks run s \<union> set updates"
proof -
  have ids: "map tr_run_id rows = map (\<lambda>_. run) updates" "map tr_task_id rows = updates"
    using arg_cong [OF assms(2), of "map fst"] arg_cong [OF assms(2), of "map (fst \<circ> snd)"] by (simp_all add: comp_def)
  have "tr_run_id r = run" if "r \<in> set rows" for r
  proof -
    have "tr_run_id r \<in> set (map tr_run_id rows)" using that by simp
    then show ?thesis unfolding ids(1) by auto
  qed
  then have "filter (\<lambda>r. tr_run_id r = run) rows = rows" by simp
  then show ?thesis using ids(2) assms(1) by (simp add: existing_tasks_def)
qed

text \<open>A dependency joins two tasks of one DAG, as \<open>InsertDAG\<close> stores them.\<close>

definition deps_in_dags :: "db \<Rightarrow> bool" where
  "deps_in_dags s \<longleftrightarrow> (\<forall>d \<in> set (deps s). \<exists>k \<in> set (dagtasks s). \<exists>e \<in> set (dagtasks s).
     dk_id k = dp_task_id d \<and> dk_id e = dp_depends_on d \<and> dk_dag_id k = dk_dag_id e)"

lemma trancl_within:
  assumes "P a" "\<And>x y. (x, y) \<in> R \<Longrightarrow> P x \<Longrightarrow> P y"
  shows "{(x, y). (x, y) \<in> R \<and> P x}\<^sup>+ `` {a} = R\<^sup>+ `` {a}"
proof -
  have "(a, y) \<in> {(x, y). (x, y) \<in> R \<and> P x}\<^sup>+ \<and> P y" if "(a, y) \<in> R\<^sup>+" for y
    using that
  proof (induction rule: trancl_induct)
    case (base y)
    then show ?case using assms by auto
  next
    case (step y z)
    then have "(y, z) \<in> {(x, y). (x, y) \<in> R \<and> P x}" "P z" using assms(2) by auto
    then show ?case using step.IH by (meson trancl_into_trancl)
  qed
  moreover have "{(x, y). (x, y) \<in> R \<and> P x}\<^sup>+ \<subseteq> R\<^sup>+" by (rule trancl_mono_subset) auto
  ultimately show ?thesis by blast
qed

lemma chain_edges_all: "deps_in_dags s \<Longrightarrow> set (chain_edges s) = (\<lambda>d. (dp_depends_on d, dp_task_id d)) ` set (deps s)"
  unfolding chain_edges_def deps_in_dags_def by (subst filter_True) auto

lemma run_edges:
  assumes "deps_in_dags s" "find_run dagRunId s = Some run"
  shows "set (dependency_rows dagRunId s) = {(x, y). (x, y) \<in> set (chain_edges s) \<and> in_dag (rn_dag_id run) x s}"
  using assms by (auto simp: dependency_rows_def chain_edges_all in_dag_def)

lemma edges_stay_in_dag:
  assumes "deps_in_dags s" "distinct (map dk_id (dagtasks s))" "(x, y) \<in> set (chain_edges s)" "in_dag i x s"
  shows "in_dag i y s"
proof -
  have uniq: "k = e" if "k \<in> set (dagtasks s)" "e \<in> set (dagtasks s)" "dk_id k = dk_id e" for k e
    using that assms(2) by (auto simp: distinct_map inj_on_def)
  obtain d where d: "d \<in> set (deps s)" "x = dp_depends_on d" "y = dp_task_id d" using assms(1,3) by (auto simp: chain_edges_all)
  obtain k e where ke: "k \<in> set (dagtasks s)" "e \<in> set (dagtasks s)" "dk_id k = y" "dk_id e = x" "dk_dag_id k = dk_dag_id e"
    using assms(1) d unfolding deps_in_dags_def by fastforce
  have "dk_dag_id e = i" using assms(4) uniq ke unfolding in_dag_def by metis
  then show ?thesis using ke unfolding in_dag_def by blast
qed

lemma suspend_rel_within:
  assumes "set rows = {(x, y). (x, y) \<in> E \<and> P x}"
  shows "suspend_rel rows ex = {(x, y). (x, y) \<in> {(x, y) \<in> E. y \<notin> ex} \<and> P x}"
  unfolding suspend_rel_def assms by auto

lemma deps_in_dags_insert:
  assumes "deps_in_dags s" "insertDAG uuid cron now dag version namespace hash s = Inr ((), s')"
  shows "deps_in_dags s'"
proof -
  obtain rows drows where dt: "dagtasks s' = dagtasks s @ rows" and dp: "deps s' = deps s @ drows"
    and la: "list_all2 (dep_for (next_dag s) s') (dep_pairs (ds_Task (dag_Spec dag))) drows"
    by (rule insertDAG_effect [OF assms(2)]) blast
  have "\<exists>k \<in> set (dagtasks s'). \<exists>e \<in> set (dagtasks s'). dk_id k = dp_task_id d \<and> dk_id e = dp_depends_on d \<and> dk_dag_id k = dk_dag_id e"
    if d: "d \<in> set drows" for d
  proof -
    obtain i where "i < length drows" "drows ! i = d" using d by (auto simp: in_set_conv_nth)
    then have "dep_for (next_dag s) s' (dep_pairs (ds_Task (dag_Spec dag)) ! i) d" using list_all2_nthD2 [OF la] by blast
    then obtain k e where "k \<in> set (dagtasks s')" "e \<in> set (dagtasks s')" "dk_dag_id k = next_dag s" "dk_dag_id e = next_dag s"
      "dp_task_id d = dk_id k" "dp_depends_on d = dk_id e" by (auto simp: dep_for_def dag_tasks_of_def)
    then show ?thesis by (intro bexI [of _ k] bexI [of _ e]) simp_all
  qed
  moreover have "\<exists>k \<in> set (dagtasks s'). \<exists>e \<in> set (dagtasks s'). dk_id k = dp_task_id d \<and> dk_id e = dp_depends_on d \<and> dk_dag_id k = dk_dag_id e"
    if "d \<in> set (deps s)" for d
    using bspec [OF assms(1) [unfolded deps_in_dags_def] that] by (auto simp: dt)
  ultimately show ?thesis unfolding deps_in_dags_def by (simp add: dp ball_Un)
qed

lemma deps_in_dags_InsertDAG:
  assumes "deps_in_dags s"
  shows "deps_in_dags (snd (InsertDAG digest uuid cron now dag namespace s))"
proof (cases rule: InsertDAG_cases [of digest uuid cron now dag namespace s])
  case (inserted version s1)
  from deps_in_dags_insert [OF assms inserted(2)] show ?thesis by (simp add: inserted(1) setInactive_def deps_in_dags_def)
qed (use assms in \<open>simp_all add: setSuspended_def deps_in_dags_def\<close>)

text \<open>
  (C24) The two managers compared on a failure, for a database in which every dependency joins two tasks of one DAG (as \<open>InsertDAG\<close> stores them) and there is no
  cycle, and a failed task of the run's DAG. What SQLite gives a run, Postgres does too. The tasks that only Postgres suspends are exactly the descendants of the
  failed task without a run that are reached only through tasks which have a run, because the search of SQLite stops at these. If every descendant
  with a run has runs of all its dependents, both leave the same tasks with a run.
\<close>

theorem managers_suspend_compared:
  assumes sq: "MarkConnectingTasksAsSuspended dagRunId taskRunId s = (Inr names, s1)" and start: "find_taskrun taskRunId s = Some start"
    and run: "find_run dagRunId s = Some run" "in_dag (rn_dag_id run) (tr_task_id start) s"
    and ok: "keys_ok s" "deps_in_dags s" and acyc: "acyclic (set (chain_edges s))"
  shows "\<exists>names' s2. pg_MarkConnectingTasksAsSuspended dagRunId taskRunId s = Some (Inr names', s2) \<and>
    existing_tasks dagRunId s1 \<subseteq> existing_tasks dagRunId s2 \<and>
    existing_tasks dagRunId s2 - existing_tasks dagRunId s1 = {y. y \<notin> existing_tasks dagRunId s \<and> (tr_task_id start, y) \<in> (set (chain_edges s))\<^sup>+ \<and>
      (tr_task_id start, y) \<notin> {(a, b) \<in> set (chain_edges s). b \<notin> existing_tasks dagRunId s}\<^sup>+} \<and>
    ((\<forall>(x, y) \<in> set (chain_edges s). (tr_task_id start, x) \<in> (set (chain_edges s))\<^sup>+ \<and> x \<in> existing_tasks dagRunId s \<longrightarrow> y \<in> existing_tasks dagRunId s)
      \<longrightarrow> existing_tasks dagRunId s2 = existing_tasks dagRunId s1)"
proof -
  let ?E = "set (chain_edges s)" let ?X = "existing_tasks dagRunId s" let ?a = "tr_task_id start"
  let ?N = "{(a, b) \<in> ?E. b \<notin> ?X}"
  have keys: "run_keys s" "distinct (map dk_id (dagtasks s))" using ok(1) by (simp_all add: keys_ok_def dagtask_keys_def)
  have ex: "DagrunExists dagRunId s" using run(1) query_row_Some_in by (fastforce simp: find_run_def DagrunExists_def)
  obtain u1 r1 where u1: "set u1 = (suspend_rel (dependency_rows dagRunId s) ?X)\<^sup>+ `` {?a}" and r1: "taskruns s1 = taskruns s @ r1"
      "map (\<lambda>r. (tr_run_id r, tr_task_id r, tr_status r, tr_attempts r)) r1 = map (\<lambda>t. (dagRunId, t, ''suspended'', 0)) u1"
    using MarkConnecting_result [OF sq start] by blast
  obtain u2 r2 s2 where pg: "pg_MarkConnectingTasksAsSuspended dagRunId taskRunId s = Some (Inr (map (task_name s) u2), s2)"
    and u2: "set u2 = ?E\<^sup>+ `` {?a} - ?X" and r2: "taskruns s2 = taskruns s @ r2"
      "map (\<lambda>r. (tr_run_id r, tr_task_id r, tr_status r, tr_attempts r)) r2 = map (\<lambda>t. (dagRunId, t, ''suspended'', 0)) u2"
    using pg_MarkConnecting_result [OF acyc start keys(1) ex] by blast
  have n: "set u1 = ?N\<^sup>+ `` {?a}"
    unfolding u1 suspend_rel_within [OF run_edges [OF ok(2) run(1)]]
    by (rule trancl_within [of "\<lambda>x. in_dag (rn_dag_id run) x s", OF run(2)]) (use edges_stay_in_dag [OF ok(2) keys(2)] in blast)
  have avoid: "y \<notin> ?X" if "(x, y) \<in> ?N\<^sup>+" for x y using that by (cases rule: trancl.cases) auto
  have sub: "?N\<^sup>+ \<subseteq> ?E\<^sup>+" by (rule trancl_mono_subset) auto
  have e1: "existing_tasks dagRunId s1 = ?X \<union> ?N\<^sup>+ `` {?a}" by (simp add: existing_tasks_append [OF r1] n)
  have e2: "existing_tasks dagRunId s2 = ?X \<union> ?E\<^sup>+ `` {?a}" by (simp add: existing_tasks_append [OF r2] u2)
  have closed: "?N\<^sup>+ `` {?a} = ?E\<^sup>+ `` {?a} - ?X" if "\<forall>(x, y) \<in> ?E. (?a, x) \<in> ?E\<^sup>+ \<and> x \<in> ?X \<longrightarrow> y \<in> ?X"
  proof -
    have "suspend_rel (chain_edges s) ?X = ?N" by (auto simp: suspend_rel_def)
    then show ?thesis using suspend_rel_closed [of ?a "chain_edges s" ?X] that by auto
  qed
  have "existing_tasks dagRunId s1 \<subseteq> existing_tasks dagRunId s2" unfolding e1 e2 using sub by blast
  moreover have "existing_tasks dagRunId s2 - existing_tasks dagRunId s1 = {y. y \<notin> ?X \<and> (?a, y) \<in> ?E\<^sup>+ \<and> (?a, y) \<notin> ?N\<^sup>+}"
    unfolding e1 e2 by blast
  moreover have "existing_tasks dagRunId s2 = existing_tasks dagRunId s1" if "\<forall>(x, y) \<in> ?E. (?a, x) \<in> ?E\<^sup>+ \<and> x \<in> ?X \<longrightarrow> y \<in> ?X"
    unfolding e1 e2 closed [OF that] by blast
  ultimately show ?thesis using pg by blast
qed

lemma pg_MarkSuccess_found:
  "find_taskrun taskRunId s = Some r \<Longrightarrow> pg_MarkSuccessAndGetNextTasks taskRunId s = MarkSuccessAndGetNextTasks taskRunId s"
  by (simp add: pg_MarkSuccessAndGetNextTasks_def MarkSuccessAndGetNextTasks_def withTx_def Let_def pg_getDAGIdFromRun_def
      pg_fetchTaskParameters_def pg_getNextRunnableTasks_def getNextRunnableTasks_def pg_getTasksByIds_def pg_getRunnableTasks_def
      pg_getDependencyCounts_def pg_getMetDependencies_def split: option.split)

lemma pg_MarkSuccess_eq:
  assumes "\<And>r. r \<in> set (runs s) \<Longrightarrow> rn_id r \<noteq> 0"
  shows "pg_MarkSuccessAndGetNextTasks taskRunId s = MarkSuccessAndGetNextTasks taskRunId s"
proof (cases "find_taskrun taskRunId s")
  case None
  have "update_where (\<lambda>r. rn_id r = 0) f (runs s) = runs s" for f using assms by (intro update_where_none) auto
  moreover have "find_run 0 s = None" using assms by (auto simp: find_run_def filter_empty_conv)
  moreover have "\<not> run_complete 0 (set_status taskRunId ''success'' s)" using assms by (auto simp: run_complete_def set_status_def)
  ultimately show ?thesis using None
    by (simp add: pg_MarkSuccessAndGetNextTasks_def MarkSuccessAndGetNextTasks_def withTx_def Let_def pg_getDAGIdFromRun_def
        set_status_def find_run_def)
qed (rule pg_MarkSuccess_found)

lemma ShouldRerun_eq:
  assumes keys: "keys_ok s" and codes: "\<And>t. t \<in> set (tasks s) \<Longrightarrow> list_all in_int32 (tk_retryCodes t)"
  shows "ShouldRerun taskRunId exitCode s = pg_ShouldRerun taskRunId exitCode s"
proof -
  define J where "J = concat (map (\<lambda>r. map (\<lambda>(k, t). (r, t)) (filter (\<lambda>(k, t). dk_id k = tr_task_id r) (task_join s)))
       (filter (\<lambda>r. tr_id r = taskRunId) (taskruns s)))"
  have mem: "(r, t) \<in> set J \<longleftrightarrow> r \<in> set (taskruns s) \<and> tr_id r = taskRunId \<and> (\<exists>k. (k, t) \<in> set (task_join s) \<and> dk_id k = tr_task_id r)" for r t
    by (force simp: J_def)
  have uniq: "r = r' \<and> t = t'" if in_J: "(r, t) \<in> set J" "(r', t') \<in> set J" for r t r' t'
  proof -
    obtain k k' where k: "(k, t) \<in> set (task_join s)" "dk_id k = tr_task_id r" "(k', t') \<in> set (task_join s)" "dk_id k' = tr_task_id r'"
      and r: "r \<in> set (taskruns s)" "r' \<in> set (taskruns s)" "tr_id r = tr_id r'" using in_J unfolding mem by auto
    have "r = r'" using keys r by (auto simp: keys_ok_def run_keys_def distinct_map inj_on_def)
    moreover from this have "k = k'" using keys k by (auto simp: keys_ok_def dagtask_keys_def set_task_join distinct_map inj_on_def)
    ultimately show ?thesis using keys k by (auto simp: keys_ok_def task_keys_def set_task_join distinct_map inj_on_def)
  qed
  have pg: "pg_ShouldRerun taskRunId exitCode s =
      Inr (\<exists>r t. (r, t) \<in> set J \<and> int (tr_attempts r) \<le> tk_backoffLimit t \<and> (\<not> tk_isConditional t \<or> exitCode \<in> set (tk_retryCodes t)))"
    unfolding pg_ShouldRerun_def mem split_paired_Bex_Sigma case_prod_beta' Bex_def split_paired_Ex by auto
  show ?thesis
  proof (cases "query_row J")
    case None
    then show ?thesis unfolding pg by (simp add: ShouldRerun_def taskrun_task_def flip: J_def)
  next
    case (Some x)
    obtain r t where x: "x = (r, t)" by (cases x)
    have in_J: "(r, t) \<in> set J" using query_row_Some_in [OF Some] x by simp
    have "t \<in> set (tasks s)" using in_J by (auto simp: mem set_task_join)
    then have "list_all in_int32 (tk_retryCodes t)" by (rule codes)
    moreover have "(\<exists>r t. (r, t) \<in> set J \<and> P r t) \<longleftrightarrow> P r t" for P using uniq [OF in_J] in_J by blast
    ultimately show ?thesis unfolding pg using Some x
      by (auto simp: ShouldRerun_def taskrun_task_def not_le simp flip: J_def)
  qed
qed

text \<open>
  Both managers decide alike what follows a finished pod. With serial keys that start at 1, a success has the same result
  and the same effect; with unique keys and retry codes of 32 bits, the decision to run a failed task again is the same.
\<close>

theorem managers_agree_on_outcomes:
  assumes "keys_ok s" "\<And>r. r \<in> set (runs s) \<Longrightarrow> rn_id r \<noteq> 0" "\<And>t. t \<in> set (tasks s) \<Longrightarrow> list_all in_int32 (tk_retryCodes t)"
  shows "pg_MarkSuccessAndGetNextTasks taskRunId s = MarkSuccessAndGetNextTasks taskRunId s \<and>
    pg_ShouldRerun taskRunId exitCode s = ShouldRerun taskRunId exitCode s"
  using pg_MarkSuccess_eq [OF assms(2)] ShouldRerun_eq [OF assms(1,3)] by simp

theorem managers_agree_on_outcomes_witness:
  "keys_ok ex_run_db \<and> pg_MarkSuccessAndGetNextTasks 2 ex_run_db = MarkSuccessAndGetNextTasks 2 ex_run_db \<and>
   pg_ShouldRerun 2 7 ex_run_db = ShouldRerun 2 7 ex_run_db"
proof -
  have "pg_MarkSuccessAndGetNextTasks 2 ex_run_db = MarkSuccessAndGetNextTasks 2 ex_run_db \<and>
    pg_ShouldRerun 2 7 ex_run_db = ShouldRerun 2 7 ex_run_db"
    by (rule managers_agree_on_outcomes [OF ex_run_ok]) (simp_all add: ex_run_defs)
  then show ?thesis using ex_run_ok by blast
qed

section \<open>The scheduler's update\<close>

lemma pg_advance_none:
  assumes "\<And>d. d \<in> set (dags s) \<Longrightarrow> dg_id d \<noteq> 0" "\<And>x. x \<in> set xs \<Longrightarrow> di_DagId (snd x) = 0"
    "pg_advance cron now xs s = Inr ((), s')"
  shows "s' = s"
  using assms(2,3)
proof (induction xs)
  case (Cons x xs)
  obtain sch info where x: "x = (sch, info)" by (cases x)
  have "di_DagId info = 0" using Cons.prems(1) [of x] x by simp
  then have "update_where (\<lambda>d. dg_id d = di_DagId info) f (dags s) = dags s" for f using assms(1) by (intro update_where_none) auto
  then have "pg_advance cron now xs s = Inr ((), s')" using Cons.prems(2) x by (simp split: sum.splits)
  then show ?case using Cons by simp
qed simp

text \<open>
  (C38) The Postgres manager forgets the number of the DAG when it collects the due DAGs, so the update of the next time
  matches no row: a pass over due DAGs returns them and leaves the database as it was, and the next pass, at any later time,
  returns them again.
\<close>

theorem pg_schedule_never_advances:
  assumes "dag_keys s" "pg_GetDAGsToStartAndUpdate cron tm now s = (Inr infos, s')" "tm \<le> tm'"
  shows "s' = s \<and> set infos \<subseteq> pg_dag_info ` set (pg_due_dags tm' s')"
proof -
  have "s' = s"
  proof -
    have "pg_advance cron now (zip (map dg_schedule (pg_due_dags tm s)) (map pg_dag_info (pg_due_dags tm s))) s = Inr ((), s')"
      using assms(2) by (auto simp: pg_GetDAGsToStartAndUpdate_def withTx_def Let_def bind_tx_def split: sum.splits if_splits)
    then show ?thesis
      by (rule pg_advance_none [rotated 2])
        (use assms(1) in \<open>auto simp: dag_keys_def pg_dag_info_def dest!: set_zip_rightD\<close>)
  qed
  moreover have "infos = map pg_dag_info (pg_due_dags tm s)"
    using assms(2) by (auto simp: pg_GetDAGsToStartAndUpdate_def withTx_def Let_def bind_tx_def split: sum.splits if_splits)
  moreover have "set (pg_due_dags tm s) \<subseteq> set (pg_due_dags tm' s)" using assms(3) by (auto simp: pg_due_dags_def split: option.splits)
  ultimately show ?thesis by auto
qed

definition ex_cron_daily :: cron where
  "ex_cron_daily schedule = Inr (\<lambda>t. t + 86400)"

definition ex_due_db :: db where
  "ex_due_db = ex_run_db\<lparr>dags := [ex_dag_row\<lparr>dg_nexttime := Some 100, dg_schedule := ''@daily'', dg_active := True, dg_suspended := False,
     dg_workspaceEnabled := Some False\<rparr>]\<rparr>"

theorem pg_schedule_never_advances_witness:
  "\<exists>info. pg_GetDAGsToStartAndUpdate ex_cron_daily 100 100 ex_due_db = (Inr [info], ex_due_db) \<and>
     info \<in> pg_dag_info ` set (pg_due_dags 200 ex_due_db)"
proof -
  have k: "dag_keys ex_due_db" by (simp add: dag_keys_def ex_due_db_def ex_run_defs)
  obtain info s' where eq: "pg_GetDAGsToStartAndUpdate ex_cron_daily 100 100 ex_due_db = (Inr [info], s')"
    by (simp add: pg_GetDAGsToStartAndUpdate_def withTx_def pg_due_dags_def ex_cron_daily_def ex_due_db_def ex_run_defs)
  have "s' = ex_due_db \<and> set [info] \<subseteq> pg_dag_info ` set (pg_due_dags 200 s')"
    by (rule pg_schedule_never_advances [OF k eq]) simp
  then show ?thesis using eq by auto
qed

section \<open>Examples of suspension\<close>

lemma ex_fail_edges: "chain_edges ex_fail_db = [(1, 3)]"
  by (simp add: chain_edges_def ex_fail_db_def ex_run_defs)

lemma ex_fail_closure: "(set (chain_edges ex_fail_db))\<^sup>+ = {(1, 3)}"
  unfolding ex_fail_edges by (simp add: trans_def)

lemma ex_fail_acyclic: "acyclic (set (chain_edges ex_fail_db))"
  by (simp add: acyclic_def ex_fail_closure)

lemma ex_fail_ok: "run_keys ex_fail_db" "DagrunExists 1 ex_fail_db" "find_taskrun 1 ex_fail_db = Some (ex_taskrun 1 ''failed'')"
  by (simp_all add: run_keys_def DagrunExists_def find_taskrun_def ex_fail_db_def ex_run_defs)

theorem pg_suspends_descendants_witness:
  "\<exists>names s'. pg_MarkConnectingTasksAsSuspended 1 1 ex_fail_db = Some (Inr names, s') \<and> length (taskruns s') = 3"
proof -
  obtain updates rows s' where m: "pg_MarkConnectingTasksAsSuspended 1 1 ex_fail_db = Some (Inr (map (task_name ex_fail_db) updates), s')"
    and u: "distinct updates" "set updates = (set (chain_edges ex_fail_db))\<^sup>+ `` {tr_task_id (ex_taskrun 1 ''failed'')} - existing_tasks 1 ex_fail_db"
    and r: "taskruns s' = taskruns ex_fail_db @ rows"
      "map (\<lambda>r. (tr_run_id r, tr_task_id r, tr_status r, tr_attempts r)) rows = map (\<lambda>t. (1, t, ''suspended'', 0)) updates"
    using pg_suspends_descendants [OF ex_fail_acyclic ex_fail_ok(3,1,2)] by blast
  have "set updates = {3}" using u(2) unfolding ex_fail_closure by (auto simp: existing_tasks_def ex_fail_db_def ex_run_defs)
  then have "length updates = 1" using u(1) distinct_card by fastforce
  then have "length rows = 1" using arg_cong [OF r(2), of length] by simp
  then show ?thesis using m r(1) by (simp add: ex_fail_db_def ex_run_defs)
qed

text \<open>A failed task 1, a task 2 after it that already waits as pending, and a task 3 after that.\<close>

definition ex_gap_db :: db where
  "ex_gap_db = ex_run_db\<lparr>deps := [\<lparr>dp_task_id = 2, dp_depends_on = 1\<rparr>, \<lparr>dp_task_id = 3, dp_depends_on = 2\<rparr>],
     taskruns := [ex_taskrun 1 ''failed'', ex_taskrun 2 ''pending'']\<rparr>"

lemma ex_gap_simps: "set (chain_edges ex_gap_db) = {(1, 2), (2, 3)}" "existing_tasks 1 ex_gap_db = {1, 2}"
  "find_taskrun 1 ex_gap_db = Some (ex_taskrun 1 ''failed'')" "find_run 1 ex_gap_db = Some ex_run_row" "in_dag 1 1 ex_gap_db"
  "keys_ok ex_gap_db" "deps_in_dags ex_gap_db"
  by (simp_all add: chain_edges_def existing_tasks_def find_taskrun_def find_run_def in_dag_def deps_in_dags_def keys_ok_def keys_defs
      ex_gap_db_def ex_run_defs)

lemma ex_gap_acyclic: "acyclic {(1 :: nat, 2 :: nat), (2, 3)}"
  by (rule acyclic_subset [OF wf_acyclic [OF wf_less_than]]) auto

theorem managers_suspend_compared_witness:
  "\<exists>s1 names s2. MarkConnectingTasksAsSuspended 1 1 ex_gap_db = (Inr [], s1) \<and> pg_MarkConnectingTasksAsSuspended 1 1 ex_gap_db = Some (Inr names, s2) \<and>
     existing_tasks 1 s2 - existing_tasks 1 s1 = {3}"
proof -
  define s1 where "s1 = snd (MarkConnectingTasksAsSuspended 1 1 ex_gap_db)"
  have m: "MarkConnectingTasksAsSuspended 1 1 ex_gap_db = (Inr [], s1)"
    unfolding s1_def by (simp add: MarkConnectingTasksAsSuspended_def withTx_def Let_def find_taskrun_def find_run_def
        dependency_rows_def existing_tasks_def dependents_def insert_taskrun_def ex_gap_db_def ex_run_defs)
  let ?E = "{(1 :: nat, 2 :: nat), (2, 3)}"
  have t: "tr_task_id (ex_taskrun 1 ''failed'') = 1" "rn_dag_id ex_run_row = 1" by (simp_all add: ex_taskrun_def ex_run_row_def)
  have n: "{(a, b) \<in> ?E. b \<notin> {1, 2}} = {(2, 3)}" by auto
  have n': "{(2 :: nat, 3 :: nat)}\<^sup>+ = {(2, 3)}" by (simp add: trans_def)
  have "(1, 3) \<in> ?E\<^sup>+" by (meson insertI1 insertI2 r_into_trancl trancl_into_trancl)
  moreover have "y \<in> {2, 3}" if "(1, y) \<in> ?E\<^sup>+" for y using that by (cases rule: trancl.cases) auto
  ultimately have d: "{y. y \<notin> {1, 2} \<and> (1, y) \<in> ?E\<^sup>+ \<and> (1, y) \<notin> {(2, 3)}\<^sup>+} = {3}" unfolding n' by auto
  have "\<exists>names' s2. pg_MarkConnectingTasksAsSuspended 1 1 ex_gap_db = Some (Inr names', s2) \<and> existing_tasks 1 s2 - existing_tasks 1 s1 = {3}"
    using managers_suspend_compared [OF m ex_gap_simps(3,4) _ ex_gap_simps(6,7)] ex_gap_acyclic ex_gap_simps(5)
    unfolding t ex_gap_simps(1,2) n d by blast
  then show ?thesis using m by blast
qed

end
