(* ===== verification/Db_Manager.thy ===== *)
theory Db_Manager
  imports Postgres_Manager
begin

text \<open>
  The interface \<open>DBDAGManager\<close> of \<open>internal/db/dbManagers.go\<close> as its clients call it: a manager is one of the two implementations,
  and each method dispatches on it. The clock of a call is an argument. A statement of the Postgres manager that does not end
  is cut off when the caller's context is cancelled, and its transaction is rolled back.
\<close>

text \<open>The SQLite manager formats leases in the local time zone, given by its offset in seconds.\<close>

datatype db_manager = SqliteManager int | PostgresManager

fun db_AddPendingTaskRun :: "db_manager \<Rightarrow> nat \<Rightarrow> nat \<Rightarrow> nat op" where
  "db_AddPendingTaskRun (SqliteManager tz) = AddPendingTaskRun"
| "db_AddPendingTaskRun PostgresManager = pg_AddPendingTaskRun"

fun db_MarkSuccessAndGetNextTasks :: "db_manager \<Rightarrow> nat \<Rightarrow> Task list op" where
  "db_MarkSuccessAndGetNextTasks (SqliteManager tz) = MarkSuccessAndGetNextTasks"
| "db_MarkSuccessAndGetNextTasks PostgresManager = pg_MarkSuccessAndGetNextTasks"

fun db_ShouldRerun :: "db_manager \<Rightarrow> nat \<Rightarrow> int \<Rightarrow> db \<Rightarrow> bool result" where
  "db_ShouldRerun (SqliteManager tz) = ShouldRerun"
| "db_ShouldRerun PostgresManager = pg_ShouldRerun"

fun db_MarkTaskAsFailed :: "db_manager \<Rightarrow> nat \<Rightarrow> unit op" where
  "db_MarkTaskAsFailed (SqliteManager tz) = MarkTaskAsFailed"
| "db_MarkTaskAsFailed PostgresManager = pg_MarkTaskAsFailed"

fun db_MarkConnectingTasksAsSuspended :: "db_manager \<Rightarrow> nat \<Rightarrow> nat \<Rightarrow> string list op" where
  "db_MarkConnectingTasksAsSuspended (SqliteManager tz) = MarkConnectingTasksAsSuspended"
| "db_MarkConnectingTasksAsSuspended PostgresManager = (\<lambda>dagRunId taskRunId s.
     case pg_MarkConnectingTasksAsSuspended dagRunId taskRunId s of Some r \<Rightarrow> r | None \<Rightarrow> (Inl ErrContext, s))"

fun db_CheckIfAllTasksDone :: "db_manager \<Rightarrow> nat \<Rightarrow> db \<Rightarrow> bool result" where
  "db_CheckIfAllTasksDone (SqliteManager tz) = CheckIfAllTasksDone"
| "db_CheckIfAllTasksDone PostgresManager = pg_CheckIfAllTasksDone"

fun db_GetWebhookDetails :: "db_manager \<Rightarrow> nat \<Rightarrow> db \<Rightarrow> Webhook result" where
  "db_GetWebhookDetails (SqliteManager tz) = GetWebhookDetails"
| "db_GetWebhookDetails PostgresManager = pg_GetWebhookDetails"

fun db_MarkPodStatus :: "db_manager \<Rightarrow> string \<Rightarrow> string \<Rightarrow> nat \<Rightarrow> string \<Rightarrow> int \<Rightarrow> int option \<Rightarrow> string \<Rightarrow> unit op" where
  "db_MarkPodStatus (SqliteManager tz) = MarkPodStatus"
| "db_MarkPodStatus PostgresManager = pg_MarkPodStatus"

fun db_AddPodDuration :: "db_manager \<Rightarrow> nat \<Rightarrow> int \<Rightarrow> unit op" where
  "db_AddPodDuration (SqliteManager tz) = AddPodDuration"
| "db_AddPodDuration PostgresManager = pg_AddPodDuration"

fun db_SaveRetryEnv :: "db_manager \<Rightarrow> nat \<Rightarrow> string \<Rightarrow> unit op" where
  "db_SaveRetryEnv (SqliteManager tz) = SaveRetryEnv"
| "db_SaveRetryEnv PostgresManager = pg_SaveRetryEnv"

fun db_IncrementAttempts :: "db_manager \<Rightarrow> nat \<Rightarrow> unit op" where
  "db_IncrementAttempts (SqliteManager tz) = IncrementAttempts"
| "db_IncrementAttempts PostgresManager = pg_IncrementAttempts"

fun db_ClaimTaskByID :: "db_manager \<Rightarrow> string \<Rightarrow> int \<Rightarrow> int \<Rightarrow> nat \<Rightarrow> TaskClaim op" where
  "db_ClaimTaskByID (SqliteManager tz) = ClaimTaskByID tz"
| "db_ClaimTaskByID PostgresManager = pg_ClaimTaskByID"

text \<open>The batch claim; \<open>locked\<close> are the rows other transactions of the Postgres manager hold.\<close>

fun db_ClaimTasks :: "db_manager \<Rightarrow> nat set \<Rightarrow> nat \<Rightarrow> string \<Rightarrow> int \<Rightarrow> int \<Rightarrow> db \<Rightarrow> TaskClaim list \<times> db" where
  "db_ClaimTasks (SqliteManager tz) locked = ClaimTasks tz"
| "db_ClaimTasks PostgresManager locked = pg_ClaimTasks locked"

fun db_RenewLease :: "db_manager \<Rightarrow> string \<Rightarrow> int \<Rightarrow> int \<Rightarrow> nat \<Rightarrow> unit op" where
  "db_RenewLease (SqliteManager tz) = RenewLease tz"
| "db_RenewLease PostgresManager = pg_RenewLease"

fun db_FinalizeClaimToRunning :: "db_manager \<Rightarrow> string \<Rightarrow> nat \<Rightarrow> unit op" where
  "db_FinalizeClaimToRunning (SqliteManager tz) = FinalizeClaimToRunning"
| "db_FinalizeClaimToRunning PostgresManager = pg_FinalizeClaimToRunning"

fun db_GetTaskForRun :: "db_manager \<Rightarrow> nat \<Rightarrow> nat \<Rightarrow> db \<Rightarrow> (Task \<times> string \<times> string) result" where
  "db_GetTaskForRun (SqliteManager tz) = GetTaskForRun"
| "db_GetTaskForRun PostgresManager = pg_GetTaskForRun"

fun db_RecoverExpiredLeases :: "db_manager \<Rightarrow> int \<Rightarrow> nat op" where
  "db_RecoverExpiredLeases (SqliteManager tz) = RecoverExpiredLeases"
| "db_RecoverExpiredLeases PostgresManager = pg_RecoverExpiredLeases"

text \<open>
  The operations of the controllers and the scheduler. The digest of a specification, fresh names for inline tasks, the cron parser, the clock, and
  the text comparison of stored times of the SQLite manager are arguments.
\<close>

fun db_InsertDAG :: "db_manager \<Rightarrow> (DAGSpec \<Rightarrow> string) \<Rightarrow> (nat \<Rightarrow> string) \<Rightarrow> cron \<Rightarrow> int \<Rightarrow> DAG \<Rightarrow> string \<Rightarrow> unit op" where
  "db_InsertDAG (SqliteManager tz) = InsertDAG"
| "db_InsertDAG PostgresManager = pg_InsertDAG"

fun db_GetTaskRefsParameters :: "db_manager \<Rightarrow> TaskRef list \<Rightarrow> db \<Rightarrow> (TaskRef \<rightharpoonup> string list) result" where
  "db_GetTaskRefsParameters (SqliteManager tz) refs s = GetTaskRefsParameters refs s Map.empty"
| "db_GetTaskRefsParameters PostgresManager refs s = pg_GetTaskRefsParameters refs s"

fun db_DeleteDAG :: "db_manager \<Rightarrow> string \<Rightarrow> string \<Rightarrow> string list op" where
  "db_DeleteDAG (SqliteManager tz) = DeleteDAG"
| "db_DeleteDAG PostgresManager = pg_DeleteDAG"

fun db_AddTask :: "db_manager \<Rightarrow> (DagTaskSpec \<Rightarrow> string) \<Rightarrow> string \<Rightarrow> DagTaskSpec \<Rightarrow> string \<Rightarrow> unit op" where
  "db_AddTask (SqliteManager tz) = AddTask"
| "db_AddTask PostgresManager = pg_AddTask"

fun db_DeleteTask :: "db_manager \<Rightarrow> string \<Rightarrow> string \<Rightarrow> unit op" where
  "db_DeleteTask (SqliteManager tz) = DeleteTask"
| "db_DeleteTask PostgresManager = pg_DeleteTask"

fun db_DagExists :: "db_manager \<Rightarrow> string \<Rightarrow> db \<Rightarrow> bool \<times> int" where
  "db_DagExists (SqliteManager tz) = DagExists"
| "db_DagExists PostgresManager = pg_DagExists"

fun db_GetDagParameters :: "db_manager \<Rightarrow> string \<Rightarrow> db \<Rightarrow> (string \<rightharpoonup> Parameter)" where
  "db_GetDagParameters (SqliteManager tz) = GetDagParameters"
| "db_GetDagParameters PostgresManager = pg_GetDagParameters"

fun db_GetWorkspacePVCTemplate :: "db_manager \<Rightarrow> nat \<Rightarrow> db \<Rightarrow> PVC option" where
  "db_GetWorkspacePVCTemplate (SqliteManager tz) = GetWorkspacePVCTemplate"
| "db_GetWorkspacePVCTemplate PostgresManager = pg_GetWorkspacePVCTemplate"

fun db_CreateDAGRun :: "db_manager \<Rightarrow> string \<Rightarrow> DagRunSpec \<Rightarrow> ParameterSpec list \<Rightarrow> string option \<Rightarrow> int \<Rightarrow> nat op" where
  "db_CreateDAGRun (SqliteManager tz) = CreateDAGRun"
| "db_CreateDAGRun PostgresManager = pg_CreateDAGRun"

fun db_GetStartingTasks :: "db_manager \<Rightarrow> string \<Rightarrow> nat \<Rightarrow> db \<Rightarrow> Task list result" where
  "db_GetStartingTasks (SqliteManager tz) = GetStartingTasks"
| "db_GetStartingTasks PostgresManager = pg_GetStartingTasks"

fun db_TaskRunExists :: "db_manager \<Rightarrow> nat \<Rightarrow> nat \<Rightarrow> db \<Rightarrow> bool" where
  "db_TaskRunExists (SqliteManager tz) = TaskRunExists"
| "db_TaskRunExists PostgresManager = pg_TaskRunExists"

fun db_DagrunExists :: "db_manager \<Rightarrow> nat \<Rightarrow> db \<Rightarrow> bool" where
  "db_DagrunExists (SqliteManager tz) = DagrunExists"
| "db_DagrunExists PostgresManager = pg_DagrunExists"

fun db_SuspendDagRun :: "db_manager \<Rightarrow> nat \<Rightarrow> RunningPodInfo list op" where
  "db_SuspendDagRun (SqliteManager tz) = SuspendDagRun"
| "db_SuspendDagRun PostgresManager = pg_SuspendDagRun"

fun db_DeleteDagRun :: "db_manager \<Rightarrow> nat \<Rightarrow> unit op" where
  "db_DeleteDagRun (SqliteManager tz) = DeleteDagRun"
| "db_DeleteDagRun PostgresManager = pg_DeleteDagRun"

fun db_GetTaskRunStatus :: "db_manager \<Rightarrow> nat \<Rightarrow> db \<Rightarrow> string result" where
  "db_GetTaskRunStatus (SqliteManager tz) = GetTaskRunStatus"
| "db_GetTaskRunStatus PostgresManager = pg_GetTaskRunStatus"

fun db_GetDAGsToStartAndUpdate :: "db_manager \<Rightarrow> cron \<Rightarrow> (int \<Rightarrow> int \<Rightarrow> bool) \<Rightarrow> int \<Rightarrow> int \<Rightarrow> DagInfo list op" where
  "db_GetDAGsToStartAndUpdate (SqliteManager tz) cron due tm now = GetDAGsToStartAndUpdate cron (due tm) now"
| "db_GetDAGsToStartAndUpdate PostgresManager cron due tm now = pg_GetDAGsToStartAndUpdate cron tm now"

section \<open>The contract of retries\<close>

text \<open>
  What the retry of a task relies on: a new pending task run with no attempts, an increment that adds one attempt, and claims and saved
  environments that leave the attempts alone.
\<close>

locale retry_manager =
  fixes add_pending :: "nat \<Rightarrow> nat \<Rightarrow> nat op"
    and save_env :: "nat \<Rightarrow> string \<Rightarrow> unit op"
    and claim_id :: "string \<Rightarrow> int \<Rightarrow> int \<Rightarrow> nat \<Rightarrow> TaskClaim op"
    and increment :: "nat \<Rightarrow> unit op"
  assumes add_pending_ok: "add_pending run task s = (Inr i, s') \<Longrightarrow> (i, s') = insert_taskrun run task ''pending'' 0 s"
    and add_pending_err: "add_pending run task s = (Inl e, s') \<Longrightarrow> s' = s"
    and save_env_row: "save_env i env s =
      (Inr (), s\<lparr>taskruns := update_where (\<lambda>r. tr_id r = i) (\<lambda>r. r\<lparr>tr_retry_env := Some env\<rparr>) (taskruns s)\<rparr>)"
    and claim_row_of: "\<exists>P now' l. snd (claim_id w ttl now i s) = s\<lparr>taskruns := update_where P (claim_row w now' l) (taskruns s)\<rparr> \<or>
      snd (claim_id w ttl now i s) = s"
    and increment_row: "increment i s =
      (Inr (), s\<lparr>taskruns := update_where (\<lambda>r. tr_id r = i) (\<lambda>r. r\<lparr>tr_attempts := tr_attempts r + 1\<rparr>) (taskruns s)\<rparr>)"

interpretation sqlite_retry: retry_manager AddPendingTaskRun SaveRetryEnv "ClaimTaskByID tz" IncrementAttempts for tz
  by unfold_locales
    (auto simp: AddPendingTaskRun_def SaveRetryEnv_def IncrementAttempts_def ClaimTaskByID_def Let_def split: prod.splits option.split)

interpretation pg_retry: retry_manager pg_AddPendingTaskRun pg_SaveRetryEnv pg_ClaimTaskByID pg_IncrementAttempts
  by unfold_locales
    (auto simp: pg_AddPendingTaskRun_def pg_insert_taskrun_def pg_SaveRetryEnv_def SaveRetryEnv_def pg_IncrementAttempts_def IncrementAttempts_def
      pg_ClaimTaskByID_def Let_def split: prod.splits option.split if_splits)

end
