(* ===== verification/Task_Allocator.thy ===== *)
theory Task_Allocator
  imports Kube_Api
begin

text \<open>
  \<open>internal/workers/taskAllocator.go\<close>: from a task and its environment to a pod specification, and the creation of
  the pod with fresh names. The pod objects come from a pool and are reused: what is created must not depend on what
  an object was used for before. The shell quoting of scripts is an argument (\<open>shellescape.Quote\<close>), and so are the random names.
\<close>

section \<open>Environment\<close>

definition CreateEnvs :: "Task \<Rightarrow> EnvVar list" where
  "CreateEnvs task =
     map (\<lambda>p. if pa_IsSecret p then \<lparr>e_Name = pa_Name p, e_Value = '''', e_SecretKeyRef = Some (pa_Value p, ''secret'')\<rparr>
              else \<lparr>e_Name = pa_Name p, e_Value = pa_Value p, e_SecretKeyRef = None\<rparr>) (t_Parameters task)"

definition containsVolumeMount :: "VolumeMount list \<Rightarrow> VolumeMount \<Rightarrow> bool" where
  "containsVolumeMount vs item \<longleftrightarrow>
     (\<exists>v \<in> set vs. vm_Name v = vm_Name item \<and> vm_MountPath v = vm_MountPath item \<and> vm_ReadOnly v = vm_ReadOnly item)"

definition containsVolume :: "Volume list \<Rightarrow> Volume \<Rightarrow> bool" where
  "containsVolume vs item \<longleftrightarrow> (\<exists>v \<in> set vs. v_Name v = v_Name item)"

section \<open>Pod specification\<close>

definition dquote :: "string \<Rightarrow> string" where
  "dquote s = [CHR 0x22] @ s @ [CHR 0x22]"

text \<open>The command of the init container; its second line starts with a line break and six tabulators.\<close>

definition initScriptCommand :: "string \<Rightarrow> string" where
  "initScriptCommand script =
     ''printf '' @ script @ '' > /script/my-script.sh && echo '' @ dquote ''Script created'' @ '' || echo '' @
     dquote ''Failed to write script'' @ '' >&2 &&'' @ [CHR 0x0A] @ replicate 6 (CHR 0x09) @ ''chmod 555 /script/my-script.sh && echo '' @
     dquote ''Permissions set'' @ '' || echo '' @ dquote ''Failed to set permissions'' @ '' >&2''"

definition scriptExecCommand :: "string list" where
  "scriptExecCommand = [''sh'', ''-c'', ''/bin/sh /script/my-script.sh'']"

definition script_volume :: Volume where
  "script_volume = \<lparr>v_Name = ''shared-scripts'', v_EmptyDir = Some (), v_PersistentVolumeClaim = None\<rparr>"

definition script_mount :: "bool \<Rightarrow> VolumeMount" where
  "script_mount readOnly = \<lparr>vm_Name = ''shared-scripts'', vm_MountPath = ''/script'', vm_ReadOnly = readOnly\<rparr>"

definition addScriptVolume :: "Task \<Rightarrow> PodSpec \<Rightarrow> PodSpec" where
  "addScriptVolume task spec =
     (if (case t_PodTemplate task of None \<Rightarrow> True | Some pt \<Rightarrow> \<not> containsVolume (pt_Volumes pt) script_volume)
      then spec\<lparr>sp_Volumes := sp_Volumes spec @ [script_volume]\<rparr> else spec)"

definition addDefaultContainer :: "Task \<Rightarrow> EnvVar list \<Rightarrow> PodSpec \<Rightarrow> PodSpec" where
  "addDefaultContainer task envs spec =
     spec\<lparr>sp_Containers := [\<lparr>c_Name = t_Name task, c_Image = t_Image task, c_Command = t_Command task, c_Args = t_Args task,
        c_Env = envs, c_VolumeMounts = [], c_Resources = no_resources\<rparr>]\<rparr>"

text \<open>An update of \<open>podSpec.Containers[0]\<close>; every specification built here has one.\<close>

definition on_first :: "(Container \<Rightarrow> Container) \<Rightarrow> PodSpec \<Rightarrow> PodSpec" where
  "on_first f spec = (case sp_Containers spec of [] \<Rightarrow> spec | c # cs \<Rightarrow> spec\<lparr>sp_Containers := f c # cs\<rparr>)"

definition applyPodTemplate ::
    "(string \<Rightarrow> string option) \<Rightarrow> (Affinity \<Rightarrow> string) \<Rightarrow> PodTemplateSpec \<Rightarrow> PodSpec \<Rightarrow> PodSpec" where
  "applyPodTemplate quantity affinity pt spec =
     (let parts = ToK8sParts quantity affinity pt;
          spec1 = spec\<lparr>sp_Volumes := sp_Volumes spec @ kp_Volumes parts,
                      sp_ImagePullSecrets := sp_ImagePullSecrets spec @ kp_ImagePullSecrets parts,
                      sp_SecurityContext := kp_SecurityContext parts, sp_NodeSelector := pt_NodeSelector pt,
                      sp_Tolerations := sp_Tolerations spec @ kp_Tolerations parts, sp_Affinity := kp_Affinity parts,
                      sp_ServiceAccountName := pt_ServiceAccountName pt,
                      sp_AutomountServiceAccountToken := pt_AutomountServiceAccountToken pt,
                      sp_ActiveDeadlineSeconds := pt_ActiveDeadlineSeconds pt\<rparr>;
          spec2 = on_first (\<lambda>c. c\<lparr>c_VolumeMounts := c_VolumeMounts c @ kp_VolumeMounts parts\<rparr>) spec1
      in case kp_Resources parts of None \<Rightarrow> spec2 | Some r \<Rightarrow> on_first (\<lambda>c. c\<lparr>c_Resources := r\<rparr>) spec2)"

definition empty_PodSpec :: PodSpec where
  "empty_PodSpec = \<lparr>sp_RestartPolicy = ''Never'', sp_Volumes = [], sp_InitContainers = [], sp_Containers = [], sp_ImagePullSecrets = [],
     sp_SecurityContext = None, sp_NodeSelector = [], sp_Tolerations = [], sp_Affinity = None, sp_ServiceAccountName = '''',
     sp_AutomountServiceAccountToken = None, sp_ActiveDeadlineSeconds = None\<rparr>"

definition script_containers :: "(string \<Rightarrow> string) \<Rightarrow> Task \<Rightarrow> EnvVar list \<Rightarrow> PodSpec \<Rightarrow> PodSpec" where
  "script_containers quote task envs spec =
     (let image = (if t_ScriptInjectorImage task = '''' then ''registry.access.redhat.com/ubi9/ubi-micro:latest''
                   else t_ScriptInjectorImage task);
          mounts = (if (case t_PodTemplate task of None \<Rightarrow> True | Some pt \<Rightarrow> \<not> containsVolumeMount (pt_VolumeMounts pt) (script_mount True))
                    then [script_mount True] else [])
      in spec\<lparr>sp_InitContainers := [\<lparr>c_Name = ''script-copier'', c_Image = image,
                  c_Command = [''sh'', ''-c'', initScriptCommand (quote (t_Script task))], c_Args = [], c_Env = [],
                  c_VolumeMounts = [script_mount False], c_Resources = no_resources\<rparr>],
              sp_Containers := [\<lparr>c_Name = t_Name task, c_Image = t_Image task, c_Command = scriptExecCommand, c_Args = [], c_Env = envs,
                  c_VolumeMounts = mounts, c_Resources = no_resources\<rparr>]\<rparr>)"

definition createPodSpec ::
    "(string \<Rightarrow> string option) \<Rightarrow> (Affinity \<Rightarrow> string) \<Rightarrow> (string \<Rightarrow> string) \<Rightarrow> Task \<Rightarrow> EnvVar list \<Rightarrow> CoreResources option \<Rightarrow> PodSpec" where
  "createPodSpec quantity affinity quote task envs resources =
     (let spec1 = (if t_Script task \<noteq> '''' then script_containers quote task envs (addScriptVolume task empty_PodSpec)
                   else addDefaultContainer task envs empty_PodSpec);
          spec2 = (case t_PodTemplate task of None \<Rightarrow> spec1 | Some pt \<Rightarrow> applyPodTemplate quantity affinity pt spec1)
      in case resources of None \<Rightarrow> spec2 | Some r \<Rightarrow> on_first (\<lambda>c. c\<lparr>c_Resources := r\<rparr>) spec2)"

section \<open>Creation of the pod\<close>

definition new_pool_pod :: Pod where
  "new_pool_pod = \<lparr>pod_Name = '''', pod_Namespace = '''', pod_UID = '''',
     pod_Labels = [''managed-by'' \<mapsto> ''kontroler'', ''kontroler/type'' \<mapsto> ''task''], pod_Annotations = Map.empty,
     pod_Finalizers = [''kontroler/logcollection''], pod_Spec = empty_PodSpec, pod_Phase = '''',
     pod_ContainerStatuses = [], pod_InitContainerStatuses = [], pod_StartTime = None\<rparr>"

definition prepare_pod :: "string \<Rightarrow> nat \<Rightarrow> int \<Rightarrow> int \<Rightarrow> string \<Rightarrow> PodSpec \<Rightarrow> Pod \<Rightarrow> Pod" where
  "prepare_pod allocatorId taskId dagRunId taskRunId claimedBy spec pod =
     (let ann = (pod_Annotations pod)(''kontroler/task-rid'' \<mapsto> Itoa taskRunId, ''kontroler/dagRun-id'' \<mapsto> Itoa dagRunId,
                  ''kontroler/task-id'' \<mapsto> Itoa (int taskId))
      in pod\<lparr>pod_Labels := (pod_Labels pod)(''kontroler/id'' \<mapsto> allocatorId),
             pod_Annotations := (if claimedBy \<noteq> '''' then ann(''kontroler/claimed-by'' \<mapsto> claimedBy)
                                 else ann(''kontroler/claimed-by'' := None)),
             pod_Spec := spec\<rparr>)"

text \<open>The loop over names, with the index of the next attempt; the pod that goes back to the pool carries the last name tried.\<close>

fun create_loop :: "nat \<Rightarrow> nat \<Rightarrow> 'k kube \<Rightarrow> (nat \<Rightarrow> string) \<Rightarrow> string \<Rightarrow> Pod \<Rightarrow> 'k \<Rightarrow> string kresult \<times> Pod \<times> 'k" where
  "create_loop 0 i kb names namespace pod k =
     (Inl \<lparr>ke_Reason = OtherReason, ke_Message = ''failed to create pod due to naming collisions''\<rparr>, pod, k)"
| "create_loop (Suc n) i kb names namespace pod k =
     (let pod' = pod\<lparr>pod_Name := names i\<rparr>
      in case kb_createPod kb namespace pod' k of
           (Inr created, k') \<Rightarrow> (Inr (pod_UID created), pod', k')
         | (Inl e, k') \<Rightarrow>
             if contains (ke_Message e) ''already exists'' then create_loop n (Suc i) kb names namespace pod' k'
             else (Inl e, pod', k'))"

definition allocatePod ::
    "(string \<Rightarrow> string option) \<Rightarrow> (Affinity \<Rightarrow> string) \<Rightarrow> (string \<Rightarrow> string) \<Rightarrow> 'k kube \<Rightarrow> (nat \<Rightarrow> string) \<Rightarrow> string \<Rightarrow>
     Task \<Rightarrow> int \<Rightarrow> int \<Rightarrow> string \<Rightarrow> EnvVar list \<Rightarrow> CoreResources option \<Rightarrow> string \<Rightarrow> Pod \<Rightarrow> 'k \<Rightarrow> string kresult \<times> Pod \<times> 'k" where
  "allocatePod quantity affinity quote kb names allocatorId task dagRunId taskRunId namespace envs resources claimedBy pooled k =
     create_loop 5 0 kb names namespace
       (prepare_pod allocatorId (t_Id task) dagRunId taskRunId claimedBy (createPodSpec quantity affinity quote task envs resources) pooled) k"

definition AllocateTask ::
    "(string \<Rightarrow> string option) \<Rightarrow> (Affinity \<Rightarrow> string) \<Rightarrow> (string \<Rightarrow> string) \<Rightarrow> 'k kube \<Rightarrow> (nat \<Rightarrow> string) \<Rightarrow> string \<Rightarrow>
     Task \<Rightarrow> int \<Rightarrow> int \<Rightarrow> string \<Rightarrow> string \<Rightarrow> Pod \<Rightarrow> 'k \<Rightarrow> string kresult \<times> Pod \<times> 'k" where
  "AllocateTask quantity affinity quote kb names allocatorId task dagRunId taskRunId namespace claimedBy =
     allocatePod quantity affinity quote kb names allocatorId task dagRunId taskRunId namespace (CreateEnvs task) None claimedBy"

definition AllocateTaskWithEnv ::
    "(string \<Rightarrow> string option) \<Rightarrow> (Affinity \<Rightarrow> string) \<Rightarrow> (string \<Rightarrow> string) \<Rightarrow> 'k kube \<Rightarrow> (nat \<Rightarrow> string) \<Rightarrow> string \<Rightarrow>
     Task \<Rightarrow> int \<Rightarrow> int \<Rightarrow> string \<Rightarrow> EnvVar list \<Rightarrow> CoreResources option \<Rightarrow> string \<Rightarrow> Pod \<Rightarrow> 'k \<Rightarrow> string kresult \<times> Pod \<times> 'k" where
  "AllocateTaskWithEnv = allocatePod"

section \<open>Reuse of pod objects\<close>

text \<open>What holds of every object of the pool: it is new, or it was prepared for an earlier task.\<close>

definition pool_ok :: "Pod \<Rightarrow> bool" where
  "pool_ok p \<longleftrightarrow>
     (pod_Labels p)(''kontroler/id'' := None) = [''managed-by'' \<mapsto> ''kontroler'', ''kontroler/type'' \<mapsto> ''task''] \<and>
     dom (pod_Annotations p) \<subseteq> {''kontroler/task-rid'', ''kontroler/dagRun-id'', ''kontroler/task-id'', ''kontroler/claimed-by''} \<and>
     pod_Finalizers p = [''kontroler/logcollection''] \<and> pod_Namespace p = '''' \<and> pod_UID p = '''' \<and> pod_Phase p = '''' \<and>
     pod_ContainerStatuses p = [] \<and> pod_InitContainerStatuses p = [] \<and> pod_StartTime p = None"

lemma pool_ok_new: "pool_ok new_pool_pod"
  by (auto simp: pool_ok_def new_pool_pod_def)

text \<open>The pod that is prepared from a pool object, up to its name.\<close>

definition fresh_pod :: "string \<Rightarrow> nat \<Rightarrow> int \<Rightarrow> int \<Rightarrow> string \<Rightarrow> PodSpec \<Rightarrow> Pod" where
  "fresh_pod allocatorId taskId dagRunId taskRunId claimedBy spec =
     prepare_pod allocatorId taskId dagRunId taskRunId claimedBy spec new_pool_pod"

lemma labels_reset:
  assumes "m(k := None) = n" "n k = None"
  shows "m(k \<mapsto> v) = n(k \<mapsto> v)"
  using assms(1) by (metis fun_upd_upd)

lemma prepare_pod_fresh:
  assumes "pool_ok p"
  shows "(prepare_pod allocatorId taskId dagRunId taskRunId claimedBy spec p)\<lparr>pod_Name := n\<rparr> =
    (fresh_pod allocatorId taskId dagRunId taskRunId claimedBy spec)\<lparr>pod_Name := n\<rparr>"
proof -
  have labels: "(pod_Labels p)(''kontroler/id'' \<mapsto> allocatorId) = (pod_Labels new_pool_pod)(''kontroler/id'' \<mapsto> allocatorId)"
    by (rule labels_reset) (use assms in \<open>auto simp: pool_ok_def new_pool_pod_def\<close>)
  let ?upd = "\<lambda>m c. m(''kontroler/task-rid'' \<mapsto> Itoa taskRunId, ''kontroler/dagRun-id'' \<mapsto> Itoa dagRunId,
      ''kontroler/task-id'' \<mapsto> Itoa (int taskId), ''kontroler/claimed-by'' := c)"
  have "pod_Annotations p a = None" if "a \<notin> {''kontroler/task-rid'', ''kontroler/dagRun-id'', ''kontroler/task-id'', ''kontroler/claimed-by''}" for a
    using assms that unfolding pool_ok_def by (meson domIff subsetD)
  then have "?upd (pod_Annotations p) c = ?upd Map.empty c" for c by (auto simp: fun_eq_iff)
  then show ?thesis using labels assms
    by (cases p) (simp add: prepare_pod_def fresh_pod_def pool_ok_def new_pool_pod_def Let_def)
qed

lemma pool_ok_prepare: "pool_ok p \<Longrightarrow> pool_ok (prepare_pod allocatorId taskId dagRunId taskRunId claimedBy spec p)"
  by (auto simp: pool_ok_def prepare_pod_def Let_def split: if_splits)

lemma pool_ok_name: "pool_ok (p\<lparr>pod_Name := n\<rparr>) = pool_ok p"
  by (simp add: pool_ok_def)

lemma create_loop_pool: "pool_ok p \<Longrightarrow> pool_ok (fst (snd (create_loop n i kb names namespace p k)))"
  by (induction n i kb names namespace p k rule: create_loop.induct)
    (auto simp: Let_def pool_ok_name split: prod.split sum.split)

lemma create_loop_name:
  assumes "p\<lparr>pod_Name := ''''\<rparr> = q\<lparr>pod_Name := ''''\<rparr>"
  shows "create_loop (Suc n) i kb names namespace p k = create_loop (Suc n) i kb names namespace q k"
proof -
  have "p\<lparr>pod_Name := names i\<rparr> = q\<lparr>pod_Name := names i\<rparr>"
    using arg_cong [OF assms, of "\<lambda>x. x\<lparr>pod_Name := names i\<rparr>"] by simp
  then show ?thesis by simp
qed

text \<open>
  (C29) Pods do not inherit anything from the tasks their objects served before: whatever object the pool hands out, the
  allocation has the same result and the same effect on the cluster as with a new object, and the object that goes back to the pool can be
  used again in the same way.
\<close>

theorem allocation_independent_of_pool:
  assumes "pool_ok p"
  shows "allocatePod quantity affinity quote kb names allocatorId task dagRunId taskRunId namespace envs resources claimedBy p k =
      allocatePod quantity affinity quote kb names allocatorId task dagRunId taskRunId namespace envs resources claimedBy new_pool_pod k \<and>
    pool_ok (fst (snd (allocatePod quantity affinity quote kb names allocatorId task dagRunId taskRunId namespace envs resources claimedBy p k)))"
proof -
  let ?prep = "prepare_pod allocatorId (t_Id task) dagRunId taskRunId claimedBy (createPodSpec quantity affinity quote task envs resources)"
  have "(?prep p)\<lparr>pod_Name := ''''\<rparr> = (?prep new_pool_pod)\<lparr>pod_Name := ''''\<rparr>"
    using prepare_pod_fresh [OF assms] by (simp add: fresh_pod_def)
  then have "create_loop 5 0 kb names namespace (?prep p) k = create_loop 5 0 kb names namespace (?prep new_pool_pod) k"
    using create_loop_name [of "?prep p" "?prep new_pool_pod" 4] by (simp add: eval_nat_numeral)
  then show ?thesis unfolding allocatePod_def by (metis create_loop_pool pool_ok_prepare assms)
qed

section \<open>Templates survive the pod\<close>

text \<open>A template as the API server stores it: one source per volume, canonical quantities, no empty resource maps.\<close>

definition template_canonical :: "(string \<Rightarrow> string option) \<Rightarrow> PodTemplateSpec \<Rightarrow> bool" where
  "template_canonical quantity pt \<longleftrightarrow>
     (\<forall>v \<in> set (pt_Volumes pt). v_EmptyDir v = None \<or> v_PersistentVolumeClaim v = None) \<and>
     (case pt_Resources pt of
        None \<Rightarrow> True
      | Some r \<Rightarrow> (rr_Limits r \<noteq> [] \<or> rr_Requests r \<noteq> []) \<and>
          (\<forall>(k, v) \<in> set (rr_Limits r) \<union> set (rr_Requests r). quantity v = Some v))"

lemma resource_list_id: "(\<And>k v. (k, v) \<in> set m \<Longrightarrow> quantity v = Some v) \<Longrightarrow> resource_list quantity m = m"
proof (induction m)
  case (Cons x m)
  obtain k v where x: "x = (k, v)" by (cases x)
  have "quantity v = Some v" using Cons.prems [of k v] x by simp
  moreover have "resource_list quantity m = m" by (rule Cons.IH) (meson Cons.prems list.set_intros(2))
  ultimately show ?case using x by (simp add: resource_list_def)
qed (simp add: resource_list_def)

lemma core_volume_id: "v_EmptyDir v = None \<or> v_PersistentVolumeClaim v = None \<Longrightarrow> core_volume v = v"
  by (cases v) (auto simp: core_volume_def)

lemma ToK8sParts_canonical:
  assumes "template_canonical quantity pt"
  shows "kp_Volumes (ToK8sParts quantity affinity pt) = pt_Volumes pt"
    "kp_Resources (ToK8sParts quantity affinity pt) =
       map_option (\<lambda>r. \<lparr>cr_Limits = rr_Limits r, cr_Requests = rr_Requests r\<rparr>) (pt_Resources pt)"
proof -
  show "kp_Volumes (ToK8sParts quantity affinity pt) = pt_Volumes pt"
    using assms by (simp add: ToK8sParts_def template_canonical_def core_volume_id map_idI)
  show "kp_Resources (ToK8sParts quantity affinity pt) =
       map_option (\<lambda>r. \<lparr>cr_Limits = rr_Limits r, cr_Requests = rr_Requests r\<rparr>) (pt_Resources pt)"
  proof (cases "pt_Resources pt")
    case (Some r)
    then have "resource_list quantity (rr_Limits r) = rr_Limits r" "resource_list quantity (rr_Requests r) = rr_Requests r"
      using assms by (auto simp: template_canonical_def intro!: resource_list_id)
    then show ?thesis by (simp add: ToK8sParts_def Some)
  qed (simp add: ToK8sParts_def)
qed

text \<open>
  The template of a task can be read back from the pod that was created for it: for a task without a script and a template in
  canonical form, if the API server keeps affinities, \<open>PodTemplateSpecFromK8s\<close> applied to the created specification and its
  container is the template of the task, and the container carries the name, image, command, arguments and environment of the task.
\<close>

theorem template_roundtrip:
  assumes "t_Script task = ''''" "t_PodTemplate task = Some pt" "template_canonical quantity pt"
    "\<And>a. pt_Affinity pt = Some a \<Longrightarrow> affinity_from (affinity a) = a"
  shows "\<exists>c. sp_Containers (createPodSpec quantity affinity quote task envs None) = [c] \<and>
    PodTemplateSpecFromK8s affinity_from (createPodSpec quantity affinity quote task envs None) c = pt \<and>
    c_Name c = t_Name task \<and> c_Image c = t_Image task \<and> c_Command c = t_Command task \<and> c_Args c = t_Args task \<and> c_Env c = envs"
proof -
  note parts = ToK8sParts_canonical [OF assms(3), of affinity]
  have aff: "map_option (affinity_from \<circ> affinity) (pt_Affinity pt) = pt_Affinity pt"
    using assms(4) by (cases "pt_Affinity pt") simp_all
  have res: "pt_Resources pt = Some r \<Longrightarrow> rr_Limits r \<noteq> [] \<or> rr_Requests r \<noteq> []" for r
    using assms(3) by (simp add: template_canonical_def)
  show ?thesis
  proof (cases "pt_Resources pt")
    case None
    then show ?thesis using assms(1,2) parts aff
      by (cases pt) (simp add: createPodSpec_def addDefaultContainer_def empty_PodSpec_def applyPodTemplate_def Let_def on_first_def
          PodTemplateSpecFromK8s_def no_resources_def ToK8sParts_def option.map_comp)
  next
    case (Some r)
    then show ?thesis using assms(1,2) parts aff res [OF Some]
      by (cases pt, cases r) (simp add: createPodSpec_def addDefaultContainer_def empty_PodSpec_def applyPodTemplate_def Let_def on_first_def
          PodTemplateSpecFromK8s_def no_resources_def ToK8sParts_def option.map_comp)
  qed
qed

section \<open>Examples\<close>

definition ex_task :: Task where
  "ex_task = \<lparr>t_Id = 3, t_Name = ''load'', t_Image = ''alpine'', t_Command = [''sh''], t_Args = [''-c'', ''true''], t_Parameters = [],
     t_PodTemplate = Some (empty_PodTemplateSpec\<lparr>pt_Volumes := [\<lparr>v_Name = ''workspace'', v_EmptyDir = None, v_PersistentVolumeClaim = Some ''claim''\<rparr>],
        pt_Affinity := Some \<lparr>aff_NodeAffinity = Some ''zone-a'', aff_PodAffinity = None, aff_PodAntiAffinity = None\<rparr>,
        pt_Resources := Some \<lparr>rr_Limits = [(''cpu'', ''1'')], rr_Requests = []\<rparr>\<rparr>),
     t_Script = '''', t_ScriptInjectorImage = ''''\<rparr>"

definition ex_used_pod :: Pod where
  "ex_used_pod = prepare_pod ''other'' 8 2 9 ''w0'' empty_PodSpec new_pool_pod"

theorem allocation_independent_of_pool_witness:
  "pool_ok ex_used_pod \<and> pod_Annotations ex_used_pod \<noteq> Map.empty \<and>
   allocatePod Some (\<lambda>_. '''') (\<lambda>s. s) ex_kube (\<lambda>_. ''cat-dog-lamp'') ''id'' ex_task 1 7 ''ns'' [] None '''' ex_used_pod ([], []) =
   allocatePod Some (\<lambda>_. '''') (\<lambda>s. s) ex_kube (\<lambda>_. ''cat-dog-lamp'') ''id'' ex_task 1 7 ''ns'' [] None '''' new_pool_pod ([], [])"
proof -
  have ok: "pool_ok ex_used_pod" unfolding ex_used_pod_def by (rule pool_ok_prepare [OF pool_ok_new])
  have "pod_Annotations ex_used_pod ''kontroler/claimed-by'' = Some ''w0''" by (simp add: ex_used_pod_def prepare_pod_def)
  then have "pod_Annotations ex_used_pod \<noteq> Map.empty" by (metis option.distinct(1))
  then show ?thesis by (intro conjI ok conjunct1 [OF allocation_independent_of_pool [OF ok]])
qed

definition ex_affinity :: "Affinity \<Rightarrow> string" where
  "ex_affinity a = (case aff_NodeAffinity a of Some s \<Rightarrow> s | None \<Rightarrow> '''')"

definition ex_affinity_from :: "string \<Rightarrow> Affinity" where
  "ex_affinity_from s = \<lparr>aff_NodeAffinity = Some s, aff_PodAffinity = None, aff_PodAntiAffinity = None\<rparr>"

theorem template_roundtrip_witness:
  "\<exists>pt c. t_PodTemplate ex_task = Some pt \<and> sp_Containers (createPodSpec Some ex_affinity (\<lambda>s. s) ex_task [] None) = [c] \<and>
     PodTemplateSpecFromK8s ex_affinity_from (createPodSpec Some ex_affinity (\<lambda>s. s) ex_task [] None) c = pt \<and>
     c_Command c = [''sh'']"
proof -
  obtain pt where pt: "t_PodTemplate ex_task = Some pt" "template_canonical Some pt"
    "\<And>a. pt_Affinity pt = Some a \<Longrightarrow> ex_affinity_from (ex_affinity a) = a"
    by (simp add: ex_task_def template_canonical_def empty_PodTemplateSpec_def ex_affinity_def ex_affinity_from_def)
  have "t_Script ex_task = ''''" "t_Command ex_task = [''sh'']" by (simp_all add: ex_task_def)
  then show ?thesis using template_roundtrip [OF _ pt, of "\<lambda>s. s" "[]"] pt(1) by auto
qed

end
