(* ===== verification/Webhooks.thy ===== *)
theory Webhooks
  imports Kontroler_Prelude
begin

text \<open>
  \<open>internal/webhook\<close>: the notifications that workers put on the webhook channel, and the manager that takes them off
  one by one, checks the certificate where asked, and posts them. Parsing a URL, a TLS connection, the encoding of a payload and the HTTP
  client are arguments.
\<close>

datatype hook_data =
    TaskHookDetails (hd_Status: string) (hd_DagRunId: int) (hd_TaskName: string) (hd_TaskId: int)
  | PodEventDetails (hd_Status: string) (hd_DagRunId: int) (hd_TaskName: string) (hd_TaskId: int) (hd_Duration: int)

text \<open>The field \<open>type\<close> of the encoded payload.\<close>

fun hook_type :: "hook_data \<Rightarrow> string" where
  "hook_type (TaskHookDetails _ _ _ _) = ''taskrun''"
| "hook_type (PodEventDetails _ _ _ _ _) = ''pod''"

record WebhookPayload =
  wp_URL :: string
  wp_VerifySSL :: bool
  wp_Data :: hook_data

definition NotifyTaskRun :: "string \<Rightarrow> string \<Rightarrow> int \<Rightarrow> int \<Rightarrow> string \<Rightarrow> bool \<Rightarrow> WebhookPayload list \<Rightarrow> WebhookPayload list" where
  "NotifyTaskRun name status dagRunId taskId url verifySSL ch =
     ch @ [\<lparr>wp_URL = url, wp_VerifySSL = verifySSL, wp_Data = TaskHookDetails status dagRunId name taskId\<rparr>]"

definition NotifyPodEvent :: "string \<Rightarrow> string \<Rightarrow> int \<Rightarrow> int \<Rightarrow> string \<Rightarrow> bool \<Rightarrow> int \<Rightarrow> WebhookPayload list \<Rightarrow> WebhookPayload list" where
  "NotifyPodEvent name status dagRunId taskId url verifySSL duration ch =
     ch @ [\<lparr>wp_URL = url, wp_VerifySSL = verifySSL, wp_Data = PodEventDetails status dagRunId name taskId duration\<rparr>]"

section \<open>The check of a URL\<close>

text \<open>
  \<open>systemURLVerifier\<close>: the parts of a parsed URL, and a TLS connection to its host, which may fail. On a connection the certificate is checked against
  the name of the host, and the peer must have sent certificates.
\<close>

record parsed_url =
  pu_Scheme :: string
  pu_Host :: string
  pu_Hostname :: string
  pu_Port :: string

record tls_conn =
  tc_verify :: "string \<Rightarrow> check"
  tc_peers :: nat

definition dial_host :: "parsed_url \<Rightarrow> string" where
  "dial_host u = (if pu_Port u = [] then pu_Hostname u @ '':443'' else pu_Host u)"

definition VerifySSL :: "(string \<Rightarrow> parsed_url result) \<Rightarrow> (string \<Rightarrow> tls_conn result) \<Rightarrow> string \<Rightarrow> check" where
  "VerifySSL parse dial inputURL =
     (case parse inputURL of
        Inl e \<Rightarrow> Some (Err ''invalid URL'')
      | Inr u \<Rightarrow>
          if pu_Scheme u \<noteq> ''https'' then Some (Err (''invalid URL scheme: '' @ pu_Scheme u @ '', must be https''))
          else case dial (dial_host u) of
                 Inl e \<Rightarrow> Some (Err ''failed to establish TLS connection'')
               | Inr conn \<Rightarrow>
                   if tc_verify conn (pu_Hostname u) \<noteq> None then Some (Err ''hostname verification failed'')
                   else if tc_peers conn = 0 then Some (Err ''no peer certificates found'') else None)"

lemma VerifySSL_ok:
  assumes "VerifySSL parse dial url = None"
  shows "\<exists>u conn. parse url = Inr u \<and> pu_Scheme u = ''https'' \<and> dial (dial_host u) = Inr conn \<and> tc_verify conn (pu_Hostname u) = None \<and> 0 < tc_peers conn"
proof -
  obtain u where u: "parse url = Inr u" using assms by (cases "parse url") (auto simp: VerifySSL_def)
  then obtain conn where "dial (dial_host u) = Inr conn" using assms by (cases "dial (dial_host u)") (auto simp: VerifySSL_def split: if_splits)
  with u assms show ?thesis by (auto simp: VerifySSL_def split: if_splits)
qed

section \<open>Delivery\<close>

text \<open>The client answers a request with a status code, or fails.\<close>

type_synonym http = "string \<Rightarrow> string \<Rightarrow> int result"

definition SendWebhook :: "http \<Rightarrow> string \<Rightarrow> string \<Rightarrow> check" where
  "SendWebhook post url payload =
     (case post url payload of
        Inl e \<Rightarrow> Some (Err ''HTTP request failed'')
      | Inr status \<Rightarrow> if status \<noteq> 200 then Some (Err ''failed to send webhook'') else None)"

text \<open>What one turn of \<open>Listen\<close> does with a payload: the requests made, and whether it was delivered.\<close>

definition deliver :: "(string \<Rightarrow> check) \<Rightarrow> (hook_data \<Rightarrow> string result) \<Rightarrow> http \<Rightarrow> WebhookPayload \<Rightarrow> (string \<times> string) list \<times> bool" where
  "deliver verify marshal post p =
     (if wp_VerifySSL p \<and> verify (wp_URL p) \<noteq> None then ([], False)
      else case marshal (wp_Data p) of
             Inl _ \<Rightarrow> ([], False)
           | Inr body \<Rightarrow> ([(wp_URL p, body)], SendWebhook post (wp_URL p) body = None))"

text \<open>
  \<open>Listen\<close> until the channel is closed, on the payloads in the order they were sent; a failure never stops the loop.
\<close>

fun Listen :: "(string \<Rightarrow> check) \<Rightarrow> (hook_data \<Rightarrow> string result) \<Rightarrow> http \<Rightarrow> WebhookPayload list \<Rightarrow> (string \<times> string) list" where
  "Listen verify marshal post [] = []"
| "Listen verify marshal post (p # ps) = fst (deliver verify marshal post p) @ Listen verify marshal post ps"

lemma Listen_append: "Listen verify marshal post (ps @ qs) = Listen verify marshal post ps @ Listen verify marshal post qs"
  by (induction ps) auto

lemma Listen_unverified: "p \<in> set ps \<Longrightarrow> \<not> wp_VerifySSL p \<Longrightarrow> marshal (wp_Data p) = Inr body \<Longrightarrow>
    (wp_URL p, body) \<in> set (Listen verify marshal post ps)"
  by (induction ps) (auto simp: deliver_def)

lemma Listen_verified:
  "(url, body) \<in> set (Listen verify marshal post ps) \<Longrightarrow>
    \<exists>p \<in> set ps. wp_URL p = url \<and> marshal (wp_Data p) = Inr body \<and> (wp_VerifySSL p \<longrightarrow> verify url = None)"
  by (induction ps) (auto simp: deliver_def split: if_splits sum.splits)

text \<open>
  A notification whose DAG asks for verification is posted only to a host that has shown, on an HTTPS address, a certificate for its name; one that
  does not ask for it is posted whatever happened to those before it (\<open>Listen_unverified\<close>).
\<close>

lemma webhooks_verified:
  assumes "(url, msg) \<in> set (Listen (VerifySSL parse dial) marshal post ps)" "\<And>q. q \<in> set ps \<Longrightarrow> wp_URL q = url \<Longrightarrow> wp_VerifySSL q"
  shows "\<exists>u conn. parse url = Inr u \<and> pu_Scheme u = ''https'' \<and> dial (dial_host u) = Inr conn \<and> tc_verify conn (pu_Hostname u) = None \<and> 0 < tc_peers conn"
  using Listen_verified [OF assms(1)] assms(2) VerifySSL_ok by blast

end
