(* ===== verification/Worker.thy ===== *)
theory Worker
  imports Db_Manager Task_Allocator Webhooks
begin

text \<open>
  \<open>internal/workers/workers.go\<close>: what a worker does with a pod event (outcomes, retries, suspension, completion, status rows and
  notifications) and with a claimed task run. A handler maps the world the worker acts on to the world after it. The
  goroutines it starts are recorded, in the order they are started, as work to be done: the notifications sent, the claims to process
  and the pods whose logs are to be collected. Metrics and log lines are left out; the lookups that only feed metrics too.
\<close>

section \<open>Worlds\<close>

record 'k world =
  wd_db :: db
  wd_kube :: 'k
  wd_sent :: "WebhookPayload list"
  wd_claims :: "TaskClaim list"
  wd_logs :: "Pod list"

text \<open>
  The worker itself, with the parameters of its calls: the manager and the cluster client, its identifier, the allocator's
  parameters, the JSON encoding of a retry environment, the clock of the handler, whether a log store is configured, and what
  other clients do to the database while the worker sleeps between two attempts of a status write.
\<close>

record 'k worker =
  wk_dbManager :: db_manager
  wk_clientSet :: "'k kube"
  wk_worker_id :: string
  wk_quantity :: "string \<Rightarrow> string option"
  wk_affinity :: "Affinity \<Rightarrow> string"
  wk_quote :: "string \<Rightarrow> string"
  wk_names :: "nat \<Rightarrow> string"
  wk_allocatorId :: string
  wk_pooled :: Pod
  wk_marshal :: "(string \<times> string) list \<Rightarrow> string"
  wk_unmarshal :: "string \<Rightarrow> EnvVar list option"
  wk_now :: int
  wk_logStore :: bool
  wk_others :: "nat \<Rightarrow> db \<Rightarrow> db"

text \<open>Identifiers read from annotations are Go integers. Serial keys start at 1, so a negative one is the key of no row, as 0 is.\<close>

definition row_id :: "int \<Rightarrow> nat" where
  "row_id i = nat i"

lemma row_id_int [simp]: "row_id (int n) = n"
  by (simp add: row_id_def)

text \<open>\<open>pod.Spec.Containers[0].Name\<close>; the API server admits no pod without a container.\<close>

definition container_name :: "Pod \<Rightarrow> string" where
  "container_name pod = (case sp_Containers (pod_Spec pod) of [] \<Rightarrow> '''' | c # _ \<Rightarrow> c_Name c)"

definition container_env :: "Pod \<Rightarrow> EnvVar list" where
  "container_env pod = (case sp_Containers (pod_Spec pod) of [] \<Rightarrow> [] | c # _ \<Rightarrow> c_Env c)"

section \<open>Identifiers of a pod\<close>

definition getTaskRunID :: "Pod \<Rightarrow> int result" where
  "getTaskRunID pod =
     (case pod_Annotations pod ''kontroler/task-rid'' of
        None \<Rightarrow> Inl (Err ''missing required annotation: kontroler/task-rid'')
      | Some s \<Rightarrow> (case Atoi s of Inl _ \<Rightarrow> Inl (Err (''invalid task run ID: '' @ s)) | Inr i \<Rightarrow> Inr i))"

definition getDagRunID :: "Pod \<Rightarrow> int result" where
  "getDagRunID pod =
     (case pod_Annotations pod ''kontroler/dagRun-id'' of
        None \<Rightarrow> Inl (Err ''missing required annotation: kontroler/dagRun-id'')
      | Some s \<Rightarrow> Atoi s)"

definition getTaskIdFromPod :: "Pod \<Rightarrow> int result" where
  "getTaskIdFromPod pod =
     (case pod_Annotations pod ''kontroler/task-id'' of
        None \<Rightarrow> Inl (Err ''missing annotation'')
      | Some s \<Rightarrow> Atoi s)"

section \<open>Duration and exit code\<close>

text \<open>
  \<open>Time.Sub\<close> saturates at the range of a 64-bit duration. The seconds of a duration are truncated towards zero; the conversion goes
  through a float, whose rounding of the last nanosecond of durations beyond \<open>2 ^ 24\<close> seconds is left out.
\<close>

definition time_sub :: "int \<Rightarrow> int \<Rightarrow> int" where
  "time_sub t u = max (- (2 ^ 63)) (min (2 ^ 63 - 1) (t - u))"

definition whole_seconds :: "int \<Rightarrow> int" where
  "whole_seconds d = (if 0 \<le> d then d div 10 ^ 9 else - ((- d) div 10 ^ 9))"

definition first_terminated :: "Pod \<Rightarrow> Terminated option" where
  "first_terminated pod = (case pod_ContainerStatuses pod of [] \<Rightarrow> None | s # _ \<Rightarrow> cs_Terminated s)"

definition computePodDurationAndExit :: "int \<Rightarrow> Pod \<Rightarrow> int option \<Rightarrow> int \<times> int option \<times> int option" where
  "computePodDurationAndExit now pod eventStamp =
     (case first_terminated pod of
        Some terminated \<Rightarrow>
          let stamp = (case te_FinishedAt terminated of Some t \<Rightarrow> Some t | None \<Rightarrow> eventStamp);
              d = (case (te_StartedAt terminated, te_FinishedAt terminated) of
                     (Some begun, Some ended) \<Rightarrow> whole_seconds (time_sub ended begun)
                   | (Some begun, None) \<Rightarrow> whole_seconds (time_sub now begun)
                   | (None, Some ended) \<Rightarrow>
                       (case pod_StartTime pod of Some begun \<Rightarrow> whole_seconds (time_sub ended begun) | None \<Rightarrow> 0)
                   | (None, None) \<Rightarrow> 0)
          in (if d < 0 then 0 else d, stamp, Some (te_ExitCode terminated))
      | None \<Rightarrow> (0, eventStamp, if pod_Phase pod = ''Failed'' then Some (- 1) else None))"

section \<open>Configuration errors\<close>

definition isContainerError :: "ContainerState \<Rightarrow> bool" where
  "isContainerError state \<longleftrightarrow>
     (case cs_Waiting state of
        None \<Rightarrow> False
      | Some reason \<Rightarrow> reason \<in> {''CreateContainerError'', ''RunContainerError'', ''CreateContainerConfigError'', ''ErrImagePull'', ''ImagePullBackOff''})"

definition hasConfigError :: "Pod \<Rightarrow> bool" where
  "hasConfigError pod \<longleftrightarrow> list_ex isContainerError (pod_ContainerStatuses pod) \<or> list_ex isContainerError (pod_InitContainerStatuses pod)"

section \<open>Effects shared by the handlers\<close>

text \<open>The lookup of the webhook followed by a notification, as the handlers repeat it.\<close>

definition notify_task :: "'k worker \<Rightarrow> string \<Rightarrow> string \<Rightarrow> int \<Rightarrow> int \<Rightarrow> 'k world \<Rightarrow> 'k world" where
  "notify_task w name status dagRunId taskRunId x =
     (case db_GetWebhookDetails (wk_dbManager w) (row_id dagRunId) (wd_db x) of
        Inl _ \<Rightarrow> x
      | Inr hook \<Rightarrow>
          if wh_URL hook \<noteq> ''''
          then x\<lparr>wd_sent := NotifyTaskRun name status dagRunId taskRunId (wh_URL hook) (wh_VerifySSL hook) (wd_sent x)\<rparr> else x)"

definition deletePod :: "'k worker \<Rightarrow> Pod \<Rightarrow> bool \<Rightarrow> 'k world \<Rightarrow> unit kresult \<times> 'k world" where
  "deletePod w pod removeFinaliser x =
     (let k = (if removeFinaliser
               then snd (RemoveFinalizer (wk_clientSet w) (pod_Name pod) (pod_Namespace pod) ''kontroler/logcollection'' (wd_kube x))
               else wd_kube x);
          (r, k') = kb_deletePod (wk_clientSet w) (pod_Namespace pod) (pod_Name pod) k
      in (r, x\<lparr>wd_kube := k'\<rparr>))"

text \<open>The first workspace volume that is a claim decides; its finalizers are cleared before it is deleted.\<close>

definition deletePVC :: "'k worker \<Rightarrow> Pod \<Rightarrow> 'k world \<Rightarrow> 'k world" where
  "deletePVC w pod x =
     (case filter (\<lambda>v. v_PersistentVolumeClaim v \<noteq> None \<and> v_Name v = ''workspace'') (sp_Volumes (pod_Spec pod)) of
        [] \<Rightarrow> x
      | v # _ \<Rightarrow>
          (case v_PersistentVolumeClaim v of
             None \<Rightarrow> x
           | Some claim \<Rightarrow>
               (case kb_getPVC (wk_clientSet w) (pod_Namespace pod) claim (wd_kube x) of
                  Inl _ \<Rightarrow> x
                | Inr pvc \<Rightarrow>
                    (case kb_updatePVC (wk_clientSet w) (pod_Namespace pod) (pvc\<lparr>clm_Finalizers := []\<rparr>) (wd_kube x) of
                       (Inl _, k) \<Rightarrow> x\<lparr>wd_kube := k\<rparr>
                     | (Inr _, k) \<Rightarrow> x\<lparr>wd_kube := snd (kb_deletePVC (wk_clientSet w) (pod_Namespace pod) claim k)\<rparr>))))"

definition checkIfDagRunIsComplete :: "'k worker \<Rightarrow> int \<Rightarrow> 'k world \<Rightarrow> bool result" where
  "checkIfDagRunIsComplete w runId x = db_CheckIfAllTasksDone (wk_dbManager w) (row_id runId) (wd_db x)"

definition handleDagRunCompletion :: "'k worker \<Rightarrow> Pod \<Rightarrow> int \<Rightarrow> 'k world \<Rightarrow> 'k world" where
  "handleDagRunCompletion w pod dagRunId x =
     (case checkIfDagRunIsComplete w dagRunId x of
        Inl _ \<Rightarrow> x
      | Inr complete \<Rightarrow> if complete then deletePVC w pod x else x)"

section \<open>Success\<close>

definition sendSuccessWebhook :: "'k worker \<Rightarrow> Pod \<Rightarrow> int \<Rightarrow> int \<Rightarrow> 'k world \<Rightarrow> 'k world" where
  "sendSuccessWebhook w pod dagRunId taskRunId = notify_task w (container_name pod) ''success'' dagRunId taskRunId"

text \<open>A task that cannot be enqueued is skipped.\<close>

fun allocateNextTasks :: "'k worker \<Rightarrow> int \<Rightarrow> Task list \<Rightarrow> 'k world \<Rightarrow> 'k world" where
  "allocateNextTasks w dagRunId [] x = x"
| "allocateNextTasks w dagRunId (task # ts) x =
     allocateNextTasks w dagRunId ts
       (x\<lparr>wd_db := snd (db_AddPendingTaskRun (wk_dbManager w) (row_id dagRunId) (t_Id task) (wd_db x))\<rparr>)"

definition processNextTasks :: "'k worker \<Rightarrow> Pod \<Rightarrow> int \<Rightarrow> Task list \<Rightarrow> 'k world \<Rightarrow> 'k world" where
  "processNextTasks w pod dagRunId ts x =
     (if ts = [] then handleDagRunCompletion w pod dagRunId x else allocateNextTasks w dagRunId ts x)"

definition handleSuccessfulTaskRun :: "'k worker \<Rightarrow> Pod \<Rightarrow> int \<Rightarrow> 'k world \<Rightarrow> 'k world" where
  "handleSuccessfulTaskRun w pod taskRunId x =
     (case getDagRunID pod of
        Inl _ \<Rightarrow> x
      | Inr dagRunId \<Rightarrow>
          (case deletePod w pod False x of
             (Inl _, x1) \<Rightarrow> x1
           | (Inr _, x1) \<Rightarrow>
               (case db_MarkSuccessAndGetNextTasks (wk_dbManager w) (row_id taskRunId) (wd_db x1) of
                  (Inl _, s) \<Rightarrow> x1\<lparr>wd_db := s\<rparr>
                | (Inr ts, s) \<Rightarrow>
                    processNextTasks w pod dagRunId ts (sendSuccessWebhook w pod dagRunId taskRunId (x1\<lparr>wd_db := s\<rparr>)))))"

section \<open>Failure\<close>

text \<open>The notifications for suspended tasks all carry the identifier of the failed task run.\<close>

definition notify_suspended :: "int \<Rightarrow> int \<Rightarrow> Webhook \<Rightarrow> string list \<Rightarrow> WebhookPayload list \<Rightarrow> WebhookPayload list" where
  "notify_suspended dagRunId taskRunId hook names ch =
     fold (\<lambda>name. NotifyTaskRun name ''suspended'' dagRunId taskRunId (wh_URL hook) (wh_VerifySSL hook)) names ch"

definition handleUnretryablePod :: "'k worker \<Rightarrow> Pod \<Rightarrow> int \<Rightarrow> int \<Rightarrow> 'k world \<Rightarrow> 'k world" where
  "handleUnretryablePod w pod taskRunId dagRunId x =
     (let m = wk_dbManager w;
          x1 = x\<lparr>wd_db := snd (db_MarkTaskAsFailed m (row_id taskRunId) (wd_db x))\<rparr>;
          hook = db_GetWebhookDetails m (row_id dagRunId) (wd_db x1);
          x2 = notify_task w (container_name pod) ''failed'' dagRunId taskRunId x1
      in case db_MarkConnectingTasksAsSuspended m (row_id dagRunId) (row_id taskRunId) (wd_db x2) of
           (Inl _, s) \<Rightarrow> x2\<lparr>wd_db := s\<rparr>
         | (Inr names, s) \<Rightarrow>
             let x3 = x2\<lparr>wd_db := s,
                         wd_sent := (case hook of
                            Inl _ \<Rightarrow> wd_sent x2
                          | Inr h \<Rightarrow> if wh_URL h \<noteq> '''' then notify_suspended dagRunId taskRunId h names (wd_sent x2) else wd_sent x2)\<rparr>
             in handleDagRunCompletion w pod dagRunId x3)"

definition defaultLeaseTTL :: int where
  "defaultLeaseTTL = 60000000000"

definition retryFailedTask :: "'k worker \<Rightarrow> Pod \<Rightarrow> int \<Rightarrow> 'k world \<Rightarrow> 'k world" where
  "retryFailedTask w pod dagRunId x =
     (let m = wk_dbManager w in
      case getTaskIdFromPod pod of
        Inl _ \<Rightarrow> x
      | Inr taskId \<Rightarrow>
          (case db_AddPendingTaskRun m (row_id dagRunId) (row_id taskId) (wd_db x) of
             (Inl _, s) \<Rightarrow> x\<lparr>wd_db := s\<rparr>
           | (Inr newTaskRunId, s) \<Rightarrow>
               let env = wk_marshal w (map (\<lambda>e. (e_Name e, e_Value e)) (container_env pod));
                   s1 = snd (db_SaveRetryEnv m newTaskRunId env s)
               in case db_ClaimTaskByID m (wk_worker_id w) defaultLeaseTTL (wk_now w) newTaskRunId s1 of
                    (Inl _, s2) \<Rightarrow> x\<lparr>wd_db := s2\<rparr>
                  | (Inr claim, s2) \<Rightarrow>
                      x\<lparr>wd_db := snd (db_IncrementAttempts m newTaskRunId s2), wd_claims := wd_claims x @ [claim]\<rparr>))"

definition handleFailedTaskRun :: "'k worker \<Rightarrow> Pod \<Rightarrow> int \<Rightarrow> 'k world \<Rightarrow> 'k world" where
  "handleFailedTaskRun w pod taskRunId x =
     (let exitcode = (case computePodDurationAndExit (wk_now w) pod None of (_, _, Some e) \<Rightarrow> e | (_, _, None) \<Rightarrow> - 1)
      in case getDagRunID pod of
           Inl _ \<Rightarrow> x
         | Inr dagRunId \<Rightarrow>
             (let (r, x1) = deletePod w pod False x
              in if (case r of Inl e \<Rightarrow> \<not> contains (ke_Message e) ''not found'' | Inr _ \<Rightarrow> False) then x1
                 else case db_ShouldRerun (wk_dbManager w) (row_id taskRunId) exitcode (wd_db x1) of
                        Inl _ \<Rightarrow> x1
                      | Inr ok \<Rightarrow> if ok then retryFailedTask w pod dagRunId x1
                                  else handleUnretryablePod w pod taskRunId dagRunId x1))"

section \<open>Start and wait\<close>

definition handleStartedTaskRun :: "'k worker \<Rightarrow> Pod \<Rightarrow> int \<Rightarrow> 'k world \<Rightarrow> 'k world" where
  "handleStartedTaskRun w pod taskRunId x =
     (case getDagRunID pod of
        Inl _ \<Rightarrow> x
      | Inr dagRunId \<Rightarrow> notify_task w (container_name pod) ''started'' dagRunId taskRunId x)"

definition handleConfigError :: "'k worker \<Rightarrow> Pod \<Rightarrow> int \<Rightarrow> int \<Rightarrow> 'k world \<Rightarrow> 'k world" where
  "handleConfigError w pod taskRunId dagRunId x =
     (let m = wk_dbManager w;
          s1 = snd (db_MarkTaskAsFailed m (row_id taskRunId) (wd_db x));
          s2 = snd (db_MarkPodStatus m (pod_UID pod) (pod_Name pod) (row_id taskRunId) ''Failed'' (wk_now w) None (pod_Namespace pod) s1);
          x1 = snd (deletePod w pod True (x\<lparr>wd_db := s2\<rparr>));
          x2 = notify_task w (container_name pod) ''failed'' dagRunId taskRunId x1
      in handleUnretryablePod w pod taskRunId dagRunId x2)"

text \<open>The result says whether the status of the pod is still to be written.\<close>

definition handlePendingTaskRun :: "'k worker \<Rightarrow> Pod \<Rightarrow> int \<Rightarrow> 'k world \<Rightarrow> bool \<times> 'k world" where
  "handlePendingTaskRun w pod taskRunId x =
     (case getDagRunID pod of
        Inl _ \<Rightarrow> (True, x)
      | Inr dagRunId \<Rightarrow>
          if hasConfigError pod then (False, handleConfigError w pod taskRunId dagRunId x)
          else (True, notify_task w (container_name pod) ''pending'' dagRunId taskRunId x))"

section \<open>Status rows\<close>

text \<open>
  The loop of status writes, with the number of attempts left and the index of the next one: only the error of a stale time stamp
  is retried, after a pause in which other clients act.
\<close>

fun mark_status_loop :: "nat \<Rightarrow> nat \<Rightarrow> (nat \<Rightarrow> db \<Rightarrow> db) \<Rightarrow> unit op \<Rightarrow> check \<Rightarrow> db \<Rightarrow> check \<times> db" where
  "mark_status_loop 0 i others mark lastErr s = (lastErr, s)"
| "mark_status_loop (Suc n) i others mark lastErr s =
     (case mark s of
        (Inr _, s') \<Rightarrow> (None, s')
      | (Inl e, s') \<Rightarrow>
          if (case e of Err msg \<Rightarrow> contains msg ''pod status not updated'' | _ \<Rightarrow> False)
          then mark_status_loop n (Suc i) others mark (Some e) (others i s')
          else (Some e, s'))"

definition writeStatusToDB :: "'k worker \<Rightarrow> Pod \<Rightarrow> int option \<Rightarrow> 'k world \<Rightarrow> check \<times> 'k world" where
  "writeStatusToDB w pod stamp x =
     (let m = wk_dbManager w in
      case getTaskRunID pod of
        Inl e \<Rightarrow> (Some e, x)
      | Inr taskRunId \<Rightarrow>
          (case getDagRunID pod of
             Inl e \<Rightarrow> (Some e, x)
           | Inr dagRunId \<Rightarrow>
               let (duration, outStamp, exitCode) = computePodDurationAndExit (wk_now w) pod stamp;
                   s1 = (if duration > 0 then snd (db_AddPodDuration m (row_id taskRunId) duration (wd_db x)) else wd_db x);
                   at = (case outStamp of Some t \<Rightarrow> t | None \<Rightarrow> wk_now w);
                   (err, s2) = mark_status_loop 5 0 (wk_others w)
                     (db_MarkPodStatus m (pod_UID pod) (pod_Name pod) (row_id taskRunId) (pod_Phase pod) at exitCode (pod_Namespace pod)) None s1;
                   x2 = x\<lparr>wd_db := s2\<rparr>
               in case err of
                    Some e \<Rightarrow> (Some e, x2)
                  | None \<Rightarrow>
                      (None,
                       case db_GetWebhookDetails m (row_id dagRunId) s2 of
                         Inl _ \<Rightarrow> x2
                       | Inr hook \<Rightarrow>
                           if wh_URL hook \<noteq> ''''
                           then x2\<lparr>wd_sent := NotifyPodEvent (container_name pod) (pod_Phase pod) dagRunId taskRunId (wh_URL hook)
                                      (wh_VerifySSL hook) duration (wd_sent x2)\<rparr>
                           else x2)))"

section \<open>Events\<close>

definition isPodReadyForLogCollection :: "Pod \<Rightarrow> bool" where
  "isPodReadyForLogCollection pod \<longleftrightarrow> list_ex (\<lambda>s. cs_Running s \<or> cs_Terminated s \<noteq> None) (pod_ContainerStatuses pod)"

definition handleLogCollection :: "'k worker \<Rightarrow> Pod \<Rightarrow> 'k world \<Rightarrow> 'k world" where
  "handleLogCollection w pod x =
     (if wk_logStore w \<and> isPodReadyForLogCollection pod then x\<lparr>wd_logs := wd_logs x @ [pod]\<rparr> else x)"

definition handleOutcome :: "'k worker \<Rightarrow> Pod \<Rightarrow> int option \<Rightarrow> 'k world \<Rightarrow> 'k world" where
  "handleOutcome w pod eventTime x =
     (case getTaskRunID pod of
        Inl _ \<Rightarrow> x
      | Inr taskRunId \<Rightarrow>
          let x1 = handleLogCollection w pod x;
              (writeState, x2) =
                (if pod_Phase pod = ''Succeeded'' then (True, handleSuccessfulTaskRun w pod taskRunId x1)
                 else if pod_Phase pod = ''Failed'' then (True, handleFailedTaskRun w pod taskRunId x1)
                 else if pod_Phase pod = ''Running'' then (True, handleStartedTaskRun w pod taskRunId x1)
                 else if pod_Phase pod = ''Pending'' then handlePendingTaskRun w pod taskRunId x1
                 else (True, x1))
          in if writeState then snd (writeStatusToDB w pod eventTime x2) else x2)"

text \<open>The body of the loop of \<open>Run\<close> for a popped event; \<open>handleAdd\<close> and \<open>handleUpdate\<close> only add metrics.\<close>

definition run_event :: "'k worker \<Rightarrow> string \<Rightarrow> Pod \<Rightarrow> int option \<Rightarrow> 'k world \<Rightarrow> 'k world" where
  "run_event w event pod eventTime x =
     (if event = ''add'' \<or> event = ''update'' then handleOutcome w pod eventTime x else x)"

section \<open>Claims\<close>

text \<open>
  The claimed task run gets its pod and becomes running, or the pod is deleted again. The lease renewals of the
  background goroutine are separate steps (\<open>RenewLease\<close>); they never change this path, which runs under the parent context.
\<close>

definition allocate_claim :: "'k worker \<Rightarrow> TaskClaim \<Rightarrow> Task \<Rightarrow> string \<Rightarrow> string \<Rightarrow> 'k \<Rightarrow> string kresult \<times> Pod \<times> 'k" where
  "allocate_claim w c task namespace retryEnv k =
     (let plain = AllocateTask (wk_quantity w) (wk_affinity w) (wk_quote w) (wk_clientSet w) (wk_names w) (wk_allocatorId w) task
            (int (cl_RunID c)) (int (cl_TaskRunID c)) namespace (wk_worker_id w) (wk_pooled w) k
      in if retryEnv = '''' then plain
         else case wk_unmarshal w retryEnv of
                None \<Rightarrow> plain
              | Some envs \<Rightarrow>
                  AllocateTaskWithEnv (wk_quantity w) (wk_affinity w) (wk_quote w) (wk_clientSet w) (wk_names w) (wk_allocatorId w) task
                    (int (cl_RunID c)) (int (cl_TaskRunID c)) namespace envs None (wk_worker_id w) (wk_pooled w) k)"

definition processClaim :: "'k worker \<Rightarrow> TaskClaim \<Rightarrow> 'k world \<Rightarrow> 'k world" where
  "processClaim w c x =
     (case db_GetTaskForRun (wk_dbManager w) (cl_RunID c) (cl_TaskID c) (wd_db x) of
        Inl _ \<Rightarrow> x
      | Inr (task, namespace, retryEnv) \<Rightarrow>
          (case allocate_claim w c task namespace retryEnv (wd_kube x) of
             (Inl _, _, k) \<Rightarrow> x\<lparr>wd_kube := k\<rparr>
           | (Inr podUID, _, k) \<Rightarrow>
               (case db_FinalizeClaimToRunning (wk_dbManager w) (wk_worker_id w) (cl_TaskRunID c) (wd_db x) of
                  (Inr _, s) \<Rightarrow> x\<lparr>wd_db := s, wd_kube := k\<rparr>
                | (Inl _, s) \<Rightarrow>
                    x\<lparr>wd_db := s,
                      wd_kube := (if podUID = '''' then k
                        else case kb_podsByUID (wk_clientSet w) namespace podUID k of
                               Inr (p # _) \<Rightarrow> snd (kb_deletePod (wk_clientSet w) namespace (pod_Name p) k)
                             | _ \<Rightarrow> k)\<rparr>)))"

text \<open>One tick of \<open>claimPoller\<close>: the batch is bounded by what may still be in flight, a 32-bit counter.\<close>

definition claim_limit :: "int \<Rightarrow> nat" where
  "claim_limit allowed = (if 5 > allowed then nat allowed else 5)"

definition poll_tick :: "'k worker \<Rightarrow> nat set \<Rightarrow> int \<Rightarrow> 'k world \<Rightarrow> 'k world" where
  "poll_tick w locked inFlight x =
     (let allowed = 50 - inFlight
      in if allowed \<le> 0 then x
         else let (claims, s) = db_ClaimTasks (wk_dbManager w) locked (claim_limit allowed) (wk_worker_id w) defaultLeaseTTL (wk_now w) (wd_db x)
              in x\<lparr>wd_db := s, wd_claims := wd_claims x @ claims\<rparr>)"

section \<open>What the handlers keep\<close>

text \<open>
  The operations of the manager that the handlers call, and the law an invariant of the database needs so that no handler breaks it.
  The retry of a task is one law: it saves an environment for, claims and increments the task run it has just added.
\<close>

locale worker_invariant =
  fixes m :: db_manager and I :: "db \<Rightarrow> bool"
  assumes inv_add: "I s \<Longrightarrow> I (snd (db_AddPendingTaskRun m run task s))"
    and inv_retry: "I s \<Longrightarrow> db_AddPendingTaskRun m run task s = (Inr i, s1) \<Longrightarrow>
      db_ClaimTaskByID m worker ttl now i (snd (db_SaveRetryEnv m i env s1)) = (r, s2) \<Longrightarrow> I s2 \<and> I (snd (db_IncrementAttempts m i s2))"
    and inv_success: "I s \<Longrightarrow> I (snd (db_MarkSuccessAndGetNextTasks m i s))"
    and inv_failed: "I s \<Longrightarrow> I (snd (db_MarkTaskAsFailed m i s))"
    and inv_suspend: "I s \<Longrightarrow> I (snd (db_MarkConnectingTasksAsSuspended m run i s))"
    and inv_status: "I s \<Longrightarrow> I (snd (db_MarkPodStatus m uid name i phase stamp code namespace s))"
    and inv_duration: "I s \<Longrightarrow> I (snd (db_AddPodDuration m i d s))"
    and inv_claims: "I s \<Longrightarrow> I (snd (db_ClaimTasks m locked limit worker ttl now s))"
    and inv_finalize: "I s \<Longrightarrow> I (snd (db_FinalizeClaimToRunning m worker i s))"
begin

definition keeper :: "'k worker \<Rightarrow> bool" where
  "keeper w \<longleftrightarrow> wk_dbManager w = m \<and> (\<forall>i s. I s \<longrightarrow> I (wk_others w i s))"

lemma keeperD: "keeper w \<Longrightarrow> wk_dbManager w = m" "keeper w \<Longrightarrow> I s \<Longrightarrow> I (wk_others w i s)"
  by (simp_all add: keeper_def)

lemma db_notify: "wd_db (notify_task w name status run i x) = wd_db x"
  by (simp add: notify_task_def split: sum.split)

lemma db_deletePod: "deletePod w pod b x = (r, x') \<Longrightarrow> wd_db x' = wd_db x"
  by (auto simp: deletePod_def split: prod.splits)

lemma db_deletePVC: "wd_db (deletePVC w pod x) = wd_db x"
  by (simp add: deletePVC_def split: list.split option.split sum.split prod.split)

lemma db_completion: "wd_db (handleDagRunCompletion w pod run x) = wd_db x"
  by (simp add: handleDagRunCompletion_def db_deletePVC split: sum.split)

lemmas db_frames = db_notify db_deletePVC db_completion

lemma inv_allocateNextTasks: "keeper w \<Longrightarrow> I (wd_db x) \<Longrightarrow> I (wd_db (allocateNextTasks w run ts x))"
  by (induction w run ts x rule: allocateNextTasks.induct) (simp_all add: inv_add keeperD(1))

lemma inv_processNextTasks: "keeper w \<Longrightarrow> I (wd_db x) \<Longrightarrow> I (wd_db (processNextTasks w pod run ts x))"
  by (simp add: processNextTasks_def inv_allocateNextTasks db_frames)

lemma inv_handleSuccessful:
  assumes w: "keeper w" and x: "I (wd_db x)"
  shows "I (wd_db (handleSuccessfulTaskRun w pod i x))"
proof (cases "getDagRunID pod")
  case (Inr run)
  obtain r x1 where d: "deletePod w pod False x = (r, x1)" by fastforce
  then have x1: "I (wd_db x1)" using x by (simp add: db_deletePod [OF d])
  obtain q s where q: "db_MarkSuccessAndGetNextTasks m (row_id i) (wd_db x1) = (q, s)" by fastforce
  then have "I s" using inv_success [OF x1] by (metis snd_conv)
  then show ?thesis
    using Inr d q x1 w
    by (simp add: handleSuccessfulTaskRun_def keeperD(1) [OF w] inv_processNextTasks sendSuccessWebhook_def db_frames split: sum.split)
qed (simp add: handleSuccessfulTaskRun_def x)

lemma inv_handleUnretryable:
  assumes w: "keeper w" and x: "I (wd_db x)"
  shows "I (wd_db (handleUnretryablePod w pod i run x))"
proof -
  let ?s = "snd (db_MarkTaskAsFailed m (row_id i) (wd_db x))"
  have "I ?s" by (rule inv_failed [OF x])
  obtain q s where q: "db_MarkConnectingTasksAsSuspended m (row_id run) (row_id i) ?s = (q, s)" by fastforce
  then have "I s" using inv_suspend [OF \<open>I ?s\<close>] by (metis snd_conv)
  then show ?thesis using q
    by (simp add: handleUnretryablePod_def Let_def keeperD(1) [OF w] db_frames split: sum.split)
qed

lemma inv_retryFailedTask:
  assumes w: "keeper w" and x: "I (wd_db x)"
  shows "I (wd_db (retryFailedTask w pod run x))"
proof (cases "getTaskIdFromPod pod")
  case (Inr task)
  obtain q s where q: "db_AddPendingTaskRun m (row_id run) (row_id task) (wd_db x) = (q, s)" by fastforce
  then have s: "I s" using inv_add [OF x] by (metis snd_conv)
  show ?thesis
  proof (cases q)
    case (Inr i)
    note added = q [unfolded Inr]
    let ?env = "wk_marshal w (map (\<lambda>e. (e_Name e, e_Value e)) (container_env pod))"
    obtain r s2 where c: "db_ClaimTaskByID m (wk_worker_id w) defaultLeaseTTL (wk_now w) i (snd (db_SaveRetryEnv m i ?env s)) = (r, s2)"
      by fastforce
    from inv_retry [OF x added this] have "I s2" "I (snd (db_IncrementAttempts m i s2))" by simp_all
    then show ?thesis using \<open>getTaskIdFromPod pod = Inr task\<close> added c
      by (simp add: retryFailedTask_def Let_def keeperD(1) [OF w] split: sum.split)
  qed (use Inr q s in \<open>simp add: retryFailedTask_def Let_def keeperD(1) [OF w]\<close>)
qed (simp add: retryFailedTask_def Let_def x)

lemma inv_handleFailed:
  assumes w: "keeper w" and x: "I (wd_db x)"
  shows "I (wd_db (handleFailedTaskRun w pod i x))"
proof -
  obtain r x1 where d: "deletePod w pod False x = (r, x1)" by fastforce
  then have "I (wd_db x1)" using x by (simp add: db_deletePod [OF d])
  then show ?thesis using x d
    by (simp add: handleFailedTaskRun_def Let_def inv_retryFailedTask [OF w] inv_handleUnretryable [OF w] split: sum.split)
qed

lemma inv_handleConfigError:
  assumes w: "keeper w" and x: "I (wd_db x)"
  shows "I (wd_db (handleConfigError w pod i run x))"
proof -
  let ?s = "snd (db_MarkPodStatus m (pod_UID pod) (pod_Name pod) (row_id i) ''Failed'' (wk_now w) None (pod_Namespace pod)
    (snd (db_MarkTaskAsFailed m (row_id i) (wd_db x))))"
  have "I ?s" by (intro inv_status inv_failed x)
  obtain r x1 where d: "deletePod w pod True (x\<lparr>wd_db := ?s\<rparr>) = (r, x1)" by fastforce
  then have "I (wd_db x1)" using \<open>I ?s\<close> by (simp add: db_deletePod [OF d])
  then show ?thesis using d
    by (simp add: handleConfigError_def Let_def keeperD(1) [OF w] inv_handleUnretryable [OF w] db_frames)
qed

lemma inv_mark_status_loop:
  assumes "\<And>s. I s \<Longrightarrow> I (snd (mark s))" "\<And>i s. I s \<Longrightarrow> I (others i s)" "I s"
  shows "I (snd (mark_status_loop n i others mark err s))"
  using assms
proof (induction n i others mark err s rule: mark_status_loop.induct)
  case (2 n i others mark err s)
  obtain r s' where r: "mark s = (r, s')" by fastforce
  then have s': "I s'" using "2.prems"(1) [OF "2.prems"(3)] by simp
  show ?case
  proof (cases r)
    case (Inl e)
    note IH = "2.IH" [OF r [symmetric] Inl _ "2.prems"(1,2) "2.prems"(2) [OF s']]
    show ?thesis using r Inl s' IH by simp
  qed (use r s' in simp)
qed simp

lemma inv_writeStatus:
  assumes w: "keeper w" and x: "I (wd_db x)"
  shows "I (wd_db (snd (writeStatusToDB w pod stamp x)))"
proof (cases "getTaskRunID pod")
  case i: (Inr i)
  show ?thesis
  proof (cases "getDagRunID pod")
    case run: (Inr run)
    obtain d out code where c: "computePodDurationAndExit (wk_now w) pod stamp = (d, out, code)" by (cases "computePodDurationAndExit (wk_now w) pod stamp")
    let ?s = "if d > 0 then snd (db_AddPodDuration m (row_id i) d (wd_db x)) else wd_db x"
    let ?at = "case out of Some t \<Rightarrow> t | None \<Rightarrow> wk_now w"
    let ?mark = "db_MarkPodStatus m (pod_UID pod) (pod_Name pod) (row_id i) (pod_Phase pod) ?at code (pod_Namespace pod)"
    obtain err s2 where l: "mark_status_loop 5 0 (wk_others w) ?mark None ?s = (err, s2)" by fastforce
    have "I ?s" using x by (simp add: inv_duration)
    then have "I (snd (mark_status_loop 5 0 (wk_others w) ?mark None ?s))"
      by (intro inv_mark_status_loop inv_status keeperD(2) [OF w])
    then have "I s2" by (simp only: l snd_conv)
    then show ?thesis using i run c l
      by (simp add: writeStatusToDB_def Let_def keeperD(1) [OF w] split: option.split sum.split)
  qed (simp add: writeStatusToDB_def i x)
qed (simp add: writeStatusToDB_def x)

lemma inv_handleOutcome:
  assumes w: "keeper w" and x: "I (wd_db x)"
  shows "I (wd_db (handleOutcome w pod t x))"
proof (cases "getTaskRunID pod")
  case (Inr i)
  let ?x = "handleLogCollection w pod x"
  have x1: "I (wd_db ?x)" using x by (simp add: handleLogCollection_def)
  obtain b x2 where p: "handlePendingTaskRun w pod i ?x = (b, x2)" by fastforce
  have "I (wd_db (snd (handlePendingTaskRun w pod i ?x)))"
    using x1 by (simp add: handlePendingTaskRun_def db_frames inv_handleConfigError [OF w] split: sum.split)
  then have pend: "I (wd_db x2)" by (simp add: p)
  have run: "I (wd_db (handleStartedTaskRun w pod i ?x))"
    using x1 by (simp add: handleStartedTaskRun_def db_frames split: sum.split)
  show ?thesis unfolding handleOutcome_def Inr
    using pend run inv_handleSuccessful [OF w x1] inv_handleFailed [OF w x1] x1
    by (simp add: Let_def p inv_writeStatus [OF w])
qed (simp add: handleOutcome_def x)

lemma inv_processClaim:
  assumes w: "keeper w" and x: "I (wd_db x)"
  shows "I (wd_db (processClaim w c x))"
proof -
  obtain q s where q: "db_FinalizeClaimToRunning m (wk_worker_id w) (cl_TaskRunID c) (wd_db x) = (q, s)" by fastforce
  then have "I s" using inv_finalize [OF x] by (metis snd_conv)
  then show ?thesis using x q
    by (simp add: processClaim_def keeperD(1) [OF w] split: sum.split prod.split)
qed

lemma inv_poll:
  assumes w: "keeper w" and x: "I (wd_db x)"
  shows "I (wd_db (poll_tick w locked inFlight x))"
proof -
  obtain cs s where q: "db_ClaimTasks m locked (claim_limit (50 - inFlight)) (wk_worker_id w) defaultLeaseTTL (wk_now w) (wd_db x) = (cs, s)"
    by fastforce
  then have "I s" using inv_claims [OF x] by (metis snd_conv)
  then show ?thesis using x q by (simp add: poll_tick_def Let_def keeperD(1) [OF w])
qed

lemma inv_run_event: "keeper w \<Longrightarrow> I (wd_db x) \<Longrightarrow> I (wd_db (run_event w event pod t x))"
  by (simp add: run_event_def inv_handleOutcome)

end

end
