(* ===== verification/Controllers.thy ===== *)
theory Controllers
  imports Worker Dag_DSL
begin

text \<open>
  The reconcilers of \<open>internal/controller\<close> (DAGs, DAG runs, shared tasks, orphaned pods) and the scheduler of \<open>internal/dag\<close>. Each is a function
  from the database and the cluster to its result, the database and the cluster after it. The API server, the parser generator behind the DAG
  language, SHA-256, the cron parser and the log store are arguments. Work that the code spreads over goroutines, each on an object of its own,
  is done in the order of the list.
\<close>

section \<open>Custom resources and their client\<close>

record DagTask =
  dto_Name :: string
  dto_Spec :: DagTaskSpec
  dto_Finalizers :: "string list"
  dto_Deleting :: bool

record DagRun =
  dro_Name :: string
  dro_Namespace :: string
  dro_Labels :: "(string, string) gomap"
  dro_Spec :: DagRunSpec
  dro_Finalizers :: "string list"
  dro_Deleting :: bool
  dro_DagRunId :: nat

text \<open>A patch is given by the namespace and the two objects it is computed from, the old one first.\<close>

record 'k cr_client =
  cr_getDag :: "string \<Rightarrow> string \<Rightarrow> 'k \<Rightarrow> DAG kresult"
  cr_patchDag :: "string \<Rightarrow> DAG \<Rightarrow> DAG \<Rightarrow> 'k \<Rightarrow> unit kresult \<times> 'k"
  cr_patchDagStatus :: "string \<Rightarrow> DAG \<Rightarrow> DAG \<Rightarrow> 'k \<Rightarrow> unit kresult \<times> 'k"
  cr_getDagTask :: "string \<Rightarrow> string \<Rightarrow> 'k \<Rightarrow> DagTask kresult"
  cr_patchDagTask :: "string \<Rightarrow> DagTask \<Rightarrow> DagTask \<Rightarrow> 'k \<Rightarrow> unit kresult \<times> 'k"
  cr_getDagRun :: "string \<Rightarrow> string \<Rightarrow> 'k \<Rightarrow> DagRun kresult"
  cr_createDagRun :: "string \<Rightarrow> DagRun \<Rightarrow> 'k \<Rightarrow> unit kresult \<times> 'k"
  cr_patchDagRun :: "string \<Rightarrow> DagRun \<Rightarrow> DagRun \<Rightarrow> 'k \<Rightarrow> unit kresult \<times> 'k"
  cr_patchDagRunStatus :: "string \<Rightarrow> DagRun \<Rightarrow> DagRun \<Rightarrow> 'k \<Rightarrow> unit kresult \<times> 'k"
  cr_patchPod :: "string \<Rightarrow> Pod \<Rightarrow> Pod \<Rightarrow> 'k \<Rightarrow> unit kresult \<times> 'k"
  cr_patchPVC :: "string \<Rightarrow> Claim \<Rightarrow> Claim \<Rightarrow> 'k \<Rightarrow> unit kresult \<times> 'k"
  cr_listTaskPods :: "'k \<Rightarrow> Pod list kresult"

text \<open>The reconcilers' fields and the parameters of their calls.\<close>

record 'k reconciler =
  rc_dbManager :: db_manager
  rc_kube :: "'k kube"
  rc_client :: "'k cr_client"
  rc_digest :: "DAGSpec \<Rightarrow> string"
  rc_task_digest :: "DagTaskSpec \<Rightarrow> string"
  rc_sha256 :: "string \<Rightarrow> string"
  rc_uuid :: "nat \<Rightarrow> string"
  rc_cron :: cron
  rc_now :: int
  rc_parseString :: "string \<Rightarrow> string + DAGItem list"
  rc_startNode :: string
  rc_text :: "go_error \<Rightarrow> string"
  rc_quantity :: "string \<Rightarrow> string option"
  rc_deleteLogs :: "(nat \<Rightarrow> check) option"

datatype reconcile_error = DbError go_error | KubeError kube_error

text \<open>The result of a reconciliation: an error, or whether to queue the request again.\<close>

type_synonym 'k reconcile = "(reconcile_error + bool) \<times> db \<times> 'k"

section \<open>DAGs\<close>

definition markDAG :: "'k reconciler \<Rightarrow> string \<Rightarrow> DAG \<Rightarrow> DAGStatus \<Rightarrow> db \<Rightarrow> 'k \<Rightarrow> 'k reconcile" where
  "markDAG rc namespace dag status s k =
     (if dag_Status dag = status then (Inr False, s, k)
      else case cr_patchDagStatus (rc_client rc) namespace dag (dag\<lparr>dag_Status := status\<rparr>) k of
             (Inl e, k') \<Rightarrow> (Inl (KubeError e), s, k')
           | (Inr _, k') \<Rightarrow> (Inr False, s, k'))"

definition markDAGFailed :: "'k reconciler \<Rightarrow> string \<Rightarrow> DAG \<Rightarrow> string \<Rightarrow> db \<Rightarrow> 'k \<Rightarrow> 'k reconcile" where
  "markDAGFailed rc namespace dag reason = markDAG rc namespace dag \<lparr>st_Phase = ''Failed'', st_Message = reason\<rparr>"

definition markDAGSuccessful :: "'k reconciler \<Rightarrow> string \<Rightarrow> DAG \<Rightarrow> db \<Rightarrow> 'k \<Rightarrow> 'k reconcile" where
  "markDAGSuccessful rc namespace dag = markDAG rc namespace dag \<lparr>st_Phase = ''Successful'', st_Message = ''DAG reconciled successfully''\<rparr>"

definition dagTaskFinalizer :: string where
  "dagTaskFinalizer = ''dagTask.finalizer.kontroler.greedykomodo''"

fun updatingDagTaskFinalisers :: "'k reconciler \<Rightarrow> string \<Rightarrow> TaskRef list \<Rightarrow> 'k \<Rightarrow> 'k" where
  "updatingDagTaskFinalisers rc namespace [] k = k"
| "updatingDagTaskFinalisers rc namespace (tr # trs) k =
     updatingDagTaskFinalisers rc namespace trs
       (case cr_getDagTask (rc_client rc) namespace (tr_Name tr) k of
          Inl _ \<Rightarrow> k
        | Inr dagTask \<Rightarrow>
            if dagTaskFinalizer \<in> set (dto_Finalizers dagTask) then k
            else snd (cr_patchDagTask (rc_client rc) namespace dagTask
                        (dagTask\<lparr>dto_Finalizers := dto_Finalizers dagTask @ [dagTaskFinalizer]\<rparr>) k))"

fun removingDagTaskFinalisers :: "'k reconciler \<Rightarrow> string \<Rightarrow> string list \<Rightarrow> 'k \<Rightarrow> 'k" where
  "removingDagTaskFinalisers rc namespace [] k = k"
| "removingDagTaskFinalisers rc namespace (tr # trs) k =
     removingDagTaskFinalisers rc namespace trs
       (case cr_getDagTask (rc_client rc) namespace tr k of
          Inl _ \<Rightarrow> k
        | Inr dagTask \<Rightarrow>
            if dagTaskFinalizer \<in> set (dto_Finalizers dagTask)
            then snd (cr_patchDagTask (rc_client rc) namespace dagTask
                        (dagTask\<lparr>dto_Finalizers := filter (\<lambda>f. f \<noteq> dagTaskFinalizer) (dto_Finalizers dagTask)\<rparr>) k)
            else k)"

definition dagFinalizer :: string where
  "dagFinalizer = ''dag.finalizer.kontroler.greedykomodo''"

definition dag_handleDeletion :: "'k reconciler \<Rightarrow> string \<Rightarrow> string \<Rightarrow> db \<Rightarrow> 'k \<Rightarrow> 'k reconcile" where
  "dag_handleDeletion rc namespace name s k =
     (case db_DeleteDAG (rc_dbManager rc) name namespace s of
        (Inl e, s') \<Rightarrow> (Inl (DbError e), s', k)
      | (Inr taskNames, s') \<Rightarrow>
          (case cr_getDag (rc_client rc) namespace name k of
             Inl e \<Rightarrow> if ke_Reason e = NotFound then (Inr False, s', removingDagTaskFinalisers rc namespace taskNames k)
                      else (Inl (KubeError e), s', k)
           | Inr dag \<Rightarrow>
               if dagFinalizer \<in> set (dag_Finalizers dag)
               then (case cr_patchDag (rc_client rc) namespace dag
                            (dag\<lparr>dag_Finalizers := filter (\<lambda>f. f \<noteq> dagFinalizer) (dag_Finalizers dag)\<rparr>) k of
                       (Inl e, k') \<Rightarrow> (Inl (KubeError e), s', k')
                     | (Inr _, k') \<Rightarrow> (Inr False, s', removingDagTaskFinalisers rc namespace taskNames k'))
               else (Inr False, s', removingDagTaskFinalisers rc namespace taskNames k)))"

definition validation_error :: "ValidationError \<Rightarrow> string" where
  "validation_error e =
     (if ve_Field e \<noteq> '''' then ''validation error in '' @ ve_Field e @ '': '' @ ve_Message e else ''validation error: '' @ ve_Message e)"

definition processDSL :: "'k reconciler \<Rightarrow> DAG \<Rightarrow> DAG result" where
  "processDSL rc dag =
     (case ParseDSL (rc_parseString rc) (ds_DSL (dag_Spec dag)) of
        Inl e \<Rightarrow> Inl (Err (''failed to parse DSL: '' @ rc_text rc e))
      | Inr parsed \<Rightarrow>
          let res = ValidateDAGSpec parsed
          in if \<not> vr_Valid res
             then Inl (Err (''DSL validation failed:'' @ concat (map (\<lambda>e. '' '' @ validation_error e) (vr_Errors res))))
             else Inr (dag\<lparr>dag_Spec := (dag_Spec dag)
                    \<lparr>ds_Schedule := (if ds_Schedule parsed \<noteq> '''' then ds_Schedule parsed else ds_Schedule (dag_Spec dag)),
                     ds_Parameters := (if ds_Parameters parsed \<noteq> [] then ds_Parameters parsed else ds_Parameters (dag_Spec dag)),
                     ds_Task := (if ds_Task parsed \<noteq> [] then ds_Task parsed else ds_Task (dag_Spec dag))\<rparr>\<rparr>))"

text \<open>The references to shared tasks, in order; \<open>None\<close> when one lacks a name or a version.\<close>

definition collect_refs :: "TaskSpec list \<Rightarrow> TaskRef list option" where
  "collect_refs ts =
     (let refs = concat (map (\<lambda>t. case ts_TaskRef t of None \<Rightarrow> [] | Some r \<Rightarrow> [r]) ts)
      in if list_ex (\<lambda>r. tr_Name r = '''' \<or> tr_Version r = 0) refs then None else Some refs)"

text \<open>From the references on: validation, storage, finalizers and the status.\<close>

definition store_dag :: "'k reconciler \<Rightarrow> string \<Rightarrow> DAG \<Rightarrow> db \<Rightarrow> 'k \<Rightarrow> 'k reconcile" where
  "store_dag rc namespace dag s k =
     (case collect_refs (ds_Task (dag_Spec dag)) of
        None \<Rightarrow> markDAGFailed rc namespace dag ''missing name or version'' s k
      | Some taskRefs \<Rightarrow>
          (case db_GetTaskRefsParameters (rc_dbManager rc) taskRefs s of
             Inl e \<Rightarrow> markDAGFailed rc namespace dag (''failed at GetTaskRefsParameters: '' @ rc_text rc e) s k
           | Inr refParams \<Rightarrow>
               (case ValidateDAG (rc_startNode rc) (dag_Spec dag) refParams of
                  Some (Some e) \<Rightarrow> markDAGFailed rc namespace dag (''failed to validate dag: '' @ rc_text rc e) s k
                | _ \<Rightarrow>
                    (case db_InsertDAG (rc_dbManager rc) (rc_digest rc) (rc_uuid rc) (rc_cron rc) (rc_now rc) dag namespace s of
                       (Inl e, s') \<Rightarrow>
                         if rc_text rc e = ''applying the same dag'' then (Inr False, s', k)
                         else markDAGFailed rc namespace dag (''failed to store dag in db: '' @ rc_text rc e) s' k
                     | (Inr _, s') \<Rightarrow>
                         markDAGSuccessful rc namespace dag s' (updatingDagTaskFinalisers rc namespace taskRefs k)))))"

definition set_annotation :: "string \<Rightarrow> string \<Rightarrow> (string, string) gomap \<Rightarrow> (string, string) gomap" where
  "set_annotation a v m = (a, v) # filter (\<lambda>(b, _). b \<noteq> a) m"

text \<open>The server answers a patch with the object it was sent.\<close>

definition dag_Reconcile :: "'k reconciler \<Rightarrow> string \<Rightarrow> string \<Rightarrow> db \<Rightarrow> 'k \<Rightarrow> 'k reconcile" where
  "dag_Reconcile rc namespace name s k =
     (case cr_getDag (rc_client rc) namespace name k of
        Inl e \<Rightarrow> if ke_Reason e = NotFound then dag_handleDeletion rc namespace name s k else (Inl (KubeError e), s, k)
      | Inr dag \<Rightarrow>
          if dag_Deleting dag then dag_handleDeletion rc namespace name s k
          else
            let dsl = ds_DSL (dag_Spec dag); hash = rc_sha256 rc dsl;
                existing = (case map_of (dag_Annotations dag) ''kontroler/dsl-hash'' of None \<Rightarrow> '''' | Some h \<Rightarrow> h)
            in if dsl \<noteq> '''' \<and> existing \<noteq> hash
               then (case processDSL rc dag of
                       Inl e \<Rightarrow> markDAGFailed rc namespace dag (''failed to process DSL: '' @ rc_text rc e) s k
                     | Inr dag' \<Rightarrow>
                         let dag'' = dag'\<lparr>dag_Annotations := set_annotation ''kontroler/dsl-hash'' hash (dag_Annotations dag')\<rparr>
                         in case cr_patchDag (rc_client rc) namespace dag dag'' k of
                              (Inl e, k') \<Rightarrow>
                                markDAGFailed rc namespace dag'' (''failed to patch DAG after DSL processing: '' @ ke_Message e) s k'
                            | (Inr _, k') \<Rightarrow> store_dag rc namespace dag'' s k')
               else store_dag rc namespace dag s k)"

section \<open>Shared tasks\<close>

definition dagTask_Reconcile :: "'k reconciler \<Rightarrow> string \<Rightarrow> string \<Rightarrow> db \<Rightarrow> 'k \<Rightarrow> (reconcile_error option) \<times> db" where
  "dagTask_Reconcile rc namespace name s k =
     (let delete = (\<lambda>n. case db_DeleteTask (rc_dbManager rc) n namespace s of
                          (Inl e, s') \<Rightarrow> (Some (DbError e), s') | (Inr _, s') \<Rightarrow> (None, s'))
      in case cr_getDagTask (rc_client rc) namespace name k of
           Inl e \<Rightarrow> if ke_Reason e = NotFound then delete name else (Some (KubeError e), s)
         | Inr task \<Rightarrow>
             if dto_Deleting task
             then (if dagTaskFinalizer \<in> set (dto_Finalizers task) then (None, s) else delete (dto_Name task))
             else (case db_AddTask (rc_dbManager rc) (rc_task_digest rc) (dto_Name task) (dto_Spec task) namespace s of
                     (Inl e, s') \<Rightarrow> if rc_text rc e = ''applying the same task'' then (None, s') else (Some (DbError e), s')
                   | (Inr _, s') \<Rightarrow> (None, s')))"

section \<open>DAG runs\<close>

definition dagRunFinalizer :: string where
  "dagRunFinalizer = ''kontroler.greedykomodo/dagrun.finalizer''"

text \<open>The parameters of a run that name a parameter of the DAG of the same kind; a later entry of the same name replaces an earlier one.\<close>

definition accepted_params :: "(string \<rightharpoonup> Parameter) \<Rightarrow> ParameterSpec list \<Rightarrow> ParameterSpec list" where
  "accepted_params parameters ps =
     foldl (\<lambda>m p. case parameters (ps_Name p) of
                    None \<Rightarrow> m
                  | Some d \<Rightarrow> if (ps_FromSecret p \<noteq> '''') = pa_IsSecret d
                              then filter (\<lambda>q. ps_Name q \<noteq> ps_Name p) m @ [p] else m) [] ps"

definition override_params :: "ParameterSpec list \<Rightarrow> Task \<Rightarrow> Task" where
  "override_params paramMap task =
     task\<lparr>t_Parameters := map (\<lambda>p. case query_row (filter (\<lambda>q. ps_Name q = pa_Name p) paramMap) of
                                   None \<Rightarrow> p
                                 | Some q \<Rightarrow> p\<lparr>pa_Value := (if pa_IsSecret p then ps_FromSecret q else ps_Value q)\<rparr>) (t_Parameters task)\<rparr>"

definition createPVC :: "'k reconciler \<Rightarrow> DagRun \<Rightarrow> PVC \<Rightarrow> 'k \<Rightarrow> string kresult \<times> 'k" where
  "createPVC rc dagRun pvcTemplate k =
     (let pvcName = dro_Name dagRun @ ''-pvc'';
          pvc = \<lparr>clm_Name = pvcName, clm_Namespace = dro_Namespace dagRun,
                 clm_Finalizers = [''kontroler.greedykomodo/pvc.finalizer''], clm_Spec = ToK8sPersistentVolumeClaimSpec (rc_quantity rc) pvcTemplate\<rparr>
      in case kb_createPVC (rc_kube rc) (dro_Namespace dagRun) pvc k of
           (Inl e, k') \<Rightarrow> (if ke_Reason e = AlreadyExists then Inr pvcName else Inl e, k')
         | (Inr _, k') \<Rightarrow> (Inr pvcName, k'))"

text \<open>The claim of the run, when its DAG has a workspace.\<close>

definition run_pvc :: "'k reconciler \<Rightarrow> DagRun \<Rightarrow> int \<Rightarrow> db \<Rightarrow> 'k \<Rightarrow> string option kresult \<times> 'k" where
  "run_pvc rc dagRun dagId s k =
     (case db_GetWorkspacePVCTemplate (rc_dbManager rc) (row_id dagId) s of
        None \<Rightarrow> (Inr None, k)
      | Some tmpl \<Rightarrow> (case createPVC rc dagRun tmpl k of (Inl e, k') \<Rightarrow> (Inl e, k') | (Inr n, k') \<Rightarrow> (Inr (Some n), k')))"

text \<open>The starting tasks are queued unless the run already has a task run for them; the overridden parameters are not used any further.\<close>

fun enqueue_starting :: "db_manager \<Rightarrow> nat \<Rightarrow> ParameterSpec list \<Rightarrow> Task list \<Rightarrow> db \<Rightarrow> check \<times> db" where
  "enqueue_starting m runId paramMap [] s = (None, s)"
| "enqueue_starting m runId paramMap (t # ts) s =
     (let task = override_params paramMap t
      in if db_TaskRunExists m runId (t_Id task) s then enqueue_starting m runId paramMap ts s
         else case db_AddPendingTaskRun m runId (t_Id task) s of
                (Inl e, s') \<Rightarrow> (Some (Err ''failed to add pending task run''), s')
              | (Inr _, s') \<Rightarrow> enqueue_starting m runId paramMap ts s')"

definition start_run :: "'k reconciler \<Rightarrow> DagRun \<Rightarrow> db \<Rightarrow> 'k \<Rightarrow> 'k reconcile" where
  "start_run rc dagRun s k =
     (let m = rc_dbManager rc; spec = dro_Spec dagRun; (ok, dagId) = db_DagExists m (dr_DagName spec) s
      in if \<not> ok then (Inr False, s, k)
         else
           let paramMap = accepted_params (db_GetDagParameters m (dr_DagName spec) s) (dr_Parameters spec);
               (pvc, k1) = run_pvc rc dagRun dagId s k
           in case pvc of
                Inl e \<Rightarrow> (Inl (KubeError e), s, k1)
              | Inr pvcName \<Rightarrow>
                  (case db_CreateDAGRun m (dro_Name dagRun) spec paramMap pvcName (rc_now rc) s of
                     (Inl e, s1) \<Rightarrow> (Inl (DbError e), s1, k1)
                   | (Inr runId, s1) \<Rightarrow>
                       (case db_GetStartingTasks m (dr_DagName spec) runId s1 of
                          Inl e \<Rightarrow> (Inl (DbError e), s1, k1)
                        | Inr ts \<Rightarrow>
                            (case enqueue_starting m runId paramMap ts s1 of
                               (Some e, s2) \<Rightarrow> (Inl (DbError e), s2, k1)
                             | (None, s2) \<Rightarrow>
                                 if dro_DagRunId dagRun = runId then (Inr False, s2, k1)
                                 else case cr_patchDagRunStatus (rc_client rc) (dro_Namespace dagRun) dagRun (dagRun\<lparr>dro_DagRunId := runId\<rparr>) k1 of
                                        (Inl e, k2) \<Rightarrow> (Inl (KubeError e), s2, k2)
                                      | (Inr _, k2) \<Rightarrow> (Inr False, s2, k2)))))"

text \<open>The copy that the patch is computed from is taken after the finalizers have been replaced.\<close>

definition deletePodByNameAndNamespace :: "'k reconciler \<Rightarrow> string \<Rightarrow> string \<Rightarrow> 'k \<Rightarrow> kube_error option \<times> 'k" where
  "deletePodByNameAndNamespace rc name namespace k =
     (case kb_getPod (rc_kube rc) namespace name k of
        Inl e \<Rightarrow> (Some e, k)
      | Inr pod \<Rightarrow>
          let pod' = pod\<lparr>pod_Finalizers := filter (\<lambda>f. f \<noteq> ''kontroler/logcollection'') (pod_Finalizers pod)\<rparr>;
              old = pod'
          in case cr_patchPod (rc_client rc) namespace old pod' k of
               (Inl e, k') \<Rightarrow> (Some e, k')
             | (Inr _, k') \<Rightarrow>
                 (case kb_deletePod (rc_kube rc) namespace name k' of (Inl e, k'') \<Rightarrow> (Some e, k'') | (Inr _, k'') \<Rightarrow> (None, k'')))"

definition deletePVCByNameAndNamespace :: "'k reconciler \<Rightarrow> string \<Rightarrow> string \<Rightarrow> 'k \<Rightarrow> kube_error option \<times> 'k" where
  "deletePVCByNameAndNamespace rc name namespace k =
     (case kb_getPVC (rc_kube rc) namespace name k of
        Inl e \<Rightarrow> (Some e, k)
      | Inr pvc \<Rightarrow>
          (case cr_patchPVC (rc_client rc) namespace pvc (pvc\<lparr>clm_Finalizers := []\<rparr>) k of
             (Inl e, k') \<Rightarrow> (Some e, k')
           | (Inr _, k') \<Rightarrow>
               (case kb_deletePVC (rc_kube rc) namespace name k' of (Inl e, k'') \<Rightarrow> (Some e, k'') | (Inr _, k'') \<Rightarrow> (None, k''))))"

definition delete_pods :: "'k reconciler \<Rightarrow> RunningPodInfo list \<Rightarrow> 'k \<Rightarrow> 'k" where
  "delete_pods rc ps k = fold (\<lambda>p k. snd (deletePodByNameAndNamespace rc (pi_Name p) (pi_Namespace p) k)) ps k"

definition dagRun_handleDeletion :: "'k reconciler \<Rightarrow> DagRun \<Rightarrow> db \<Rightarrow> 'k \<Rightarrow> 'k reconcile" where
  "dagRun_handleDeletion rc dagRun s k =
     (let m = rc_dbManager rc; runId = dro_DagRunId dagRun in
      if dagRunFinalizer \<notin> set (dro_Finalizers dagRun) then (Inr False, s, k)
      else case db_SuspendDagRun m runId s of
             (Inl e, s1) \<Rightarrow> (Inl (DbError e), s1, k)
           | (Inr ps, s1) \<Rightarrow>
               (let k1 = delete_pods rc ps k
                in case db_DeleteDagRun m runId s1 of
                     (Inl e, s2) \<Rightarrow> (Inl (DbError e), s2, k1)
                   | (Inr _, s2) \<Rightarrow>
                       (case (case rc_deleteLogs rc of None \<Rightarrow> None | Some f \<Rightarrow> f runId) of
                          Some e \<Rightarrow> (Inl (DbError e), s2, k1)
                        | None \<Rightarrow>
                            (case deletePVCByNameAndNamespace rc (dro_Name dagRun @ ''-pvc'') (dro_Namespace dagRun) k1 of
                               (err, k2) \<Rightarrow>
                                 if (case err of None \<Rightarrow> False | Some e \<Rightarrow> ke_Reason e \<noteq> NotFound)
                                 then (Inl (KubeError (the err)), s2, k2)
                                 else case cr_patchDagRun (rc_client rc) (dro_Namespace dagRun) dagRun
                                             (dagRun\<lparr>dro_Finalizers := filter (\<lambda>f. f \<noteq> dagRunFinalizer) (dro_Finalizers dagRun)\<rparr>) k2 of
                                        (Inl e, k3) \<Rightarrow> (Inl (KubeError e), s2, k3)
                                      | (Inr _, k3) \<Rightarrow> (Inr False, s2, k3)))))"

definition dagRun_Reconcile :: "'k reconciler \<Rightarrow> string \<Rightarrow> string \<Rightarrow> db \<Rightarrow> 'k \<Rightarrow> 'k reconcile" where
  "dagRun_Reconcile rc namespace name s k =
     (case cr_getDagRun (rc_client rc) namespace name k of
        Inl e \<Rightarrow> if ke_Reason e = NotFound then (Inr False, s, k) else (Inl (KubeError e), s, k)
      | Inr dagRun \<Rightarrow>
          if dro_Deleting dagRun then dagRun_handleDeletion rc dagRun s k
          else if dagRunFinalizer \<notin> set (dro_Finalizers dagRun)
          then (case cr_patchDagRun (rc_client rc) namespace dagRun
                       (dagRun\<lparr>dro_Finalizers := dro_Finalizers dagRun @ [dagRunFinalizer]\<rparr>) k of
                  (Inl e, k') \<Rightarrow> (Inl (KubeError e), s, k')
                | (Inr _, k') \<Rightarrow> (Inr True, s, k'))
          else start_run rc dagRun s k)"

section \<open>Orphaned pods\<close>

text \<open>
  One tick: pods of tasks that are older than five minutes and whose task run is gone or no longer active are deleted, their finalizers first. The
  creation time of a pod and the reading of a number by \<open>fmt.Sscan\<close> are arguments.
\<close>

definition orphaned :: "db_manager \<Rightarrow> (Pod \<Rightarrow> int) \<Rightarrow> (string \<Rightarrow> int option) \<Rightarrow> int \<Rightarrow> db \<Rightarrow> Pod \<Rightarrow> bool" where
  "orphaned m created scan now s pod \<longleftrightarrow>
     \<not> created pod + 300000000000 > now \<and>
     (case pod_Annotations pod ''kontroler/task-rid'' of
        None \<Rightarrow> False
      | Some v \<Rightarrow>
          v \<noteq> '''' \<and>
          (case scan v of
             None \<Rightarrow> False
           | Some taskRunId \<Rightarrow>
               (case db_GetTaskRunStatus m (row_id taskRunId) s of
                  Inl e \<Rightarrow> e = ErrTaskRunNotFound
                | Inr status \<Rightarrow> status \<noteq> ''running'' \<and> status \<noteq> ''pending'')))"

definition delete_orphan :: "'k kube \<Rightarrow> Pod \<Rightarrow> 'k \<Rightarrow> 'k" where
  "delete_orphan kb pod k =
     snd (kb_deletePod kb (pod_Namespace pod) (pod_Name pod) (snd (kb_updatePod kb (pod_Namespace pod) (pod\<lparr>pod_Finalizers := []\<rparr>) k)))"

definition orphan_tick :: "'k reconciler \<Rightarrow> (Pod \<Rightarrow> int) \<Rightarrow> (string \<Rightarrow> int option) \<Rightarrow> db \<Rightarrow> 'k \<Rightarrow> 'k" where
  "orphan_tick rc created scan s k =
     (case cr_listTaskPods (rc_client rc) k of
        Inl _ \<Rightarrow> k
      | Inr ps \<Rightarrow> fold (\<lambda>pod k. if orphaned (rc_dbManager rc) created scan (rc_now rc) s pod then delete_orphan (rc_kube rc) pod k else k) ps k)"

section \<open>The scheduler\<close>

definition shouldRetryCreateDagRun :: "(string \<Rightarrow> string) \<Rightarrow> kube_error \<Rightarrow> bool" where
  "shouldRetryCreateDagRun toLower e =
     (let msg = toLower (ke_Message e)
      in (contains msg ''failed calling webhook'' \<and> contains msg ''connection refused'') \<or>
         (contains msg ''failed calling webhook'' \<and> contains msg ''i/o timeout'') \<or> contains msg ''service unavailable'')"

definition CreateDagRunObject :: "DagInfo \<Rightarrow> string \<Rightarrow> DagRun" where
  "CreateDagRunObject dagInfo name =
     \<lparr>dro_Name = name, dro_Namespace = di_Namespace dagInfo, dro_Labels = [(''app.kubernetes.io/created-by'', ''konductor-operator'')],
      dro_Spec = \<lparr>dr_DagName = di_DagName dagInfo, dr_Parameters = []\<rparr>, dro_Finalizers = [], dro_Deleting = False, dro_DagRunId = 0\<rparr>"

text \<open>The loop with the number of attempts left; the context is not cancelled in between.\<close>

fun create_dagrun_loop :: "nat \<Rightarrow> (string \<Rightarrow> string) \<Rightarrow> 'k cr_client \<Rightarrow> string \<Rightarrow> DagRun \<Rightarrow> 'k \<Rightarrow> kube_error option \<times> 'k" where
  "create_dagrun_loop 0 toLower cl namespace run k = (None, k)"
| "create_dagrun_loop (Suc n) toLower cl namespace run k =
     (case cr_createDagRun cl namespace run k of
        (Inr _, k') \<Rightarrow> (None, k')
      | (Inl e, k') \<Rightarrow>
          if 0 < n \<and> shouldRetryCreateDagRun toLower e then create_dagrun_loop n toLower cl namespace run k' else (Some e, k'))"

definition createDagRun :: "(string \<Rightarrow> string) \<Rightarrow> 'k cr_client \<Rightarrow> string \<Rightarrow> DagInfo \<Rightarrow> 'k \<Rightarrow> 'k" where
  "createDagRun toLower cl uuid dagInfo k =
     snd (create_dagrun_loop 5 toLower cl (di_Namespace dagInfo) (CreateDagRunObject dagInfo (''dagrun-'' @ uuid)) k)"

fun create_dagruns :: "(string \<Rightarrow> string) \<Rightarrow> 'k cr_client \<Rightarrow> (nat \<Rightarrow> string) \<Rightarrow> nat \<Rightarrow> DagInfo list \<Rightarrow> 'k \<Rightarrow> 'k" where
  "create_dagruns toLower cl uuid i [] k = k"
| "create_dagruns toLower cl uuid i (d # ds) k = create_dagruns toLower cl uuid (Suc i) ds (createDagRun toLower cl (uuid i) d k)"

definition processDags :: "'k reconciler \<Rightarrow> (int \<Rightarrow> int \<Rightarrow> bool) \<Rightarrow> (string \<Rightarrow> string) \<Rightarrow> (nat \<Rightarrow> string) \<Rightarrow> db \<Rightarrow> 'k \<Rightarrow> db \<times> 'k" where
  "processDags rc due toLower uuid s k =
     (case db_GetDAGsToStartAndUpdate (rc_dbManager rc) (rc_cron rc) due (rc_now rc) (rc_now rc) s of
        (Inl _, s') \<Rightarrow> (s', k)
      | (Inr infos, s') \<Rightarrow> (s', create_dagruns toLower (rc_client rc) uuid 0 infos k))"

end
