(* ===== verification/Postgres_Integrity.thy ===== *)
theory Postgres_Integrity
  imports Postgres_Manager
begin

text \<open>
  The foreign keys of the Postgres schema hold in every database the manager can reach: each insertion names rows that
  exist, and each deletion takes the rows that refer to what it deletes with it.
\<close>

section \<open>The references of the schema\<close>

definition pg_fk :: "db \<Rightarrow> bool" where
  "pg_fk s \<longleftrightarrow>
     wk_dag_id ` set (workspaces s) \<subseteq> dg_id ` set (dags s) \<and> pr_dag_id ` set (params s) \<subseteq> dg_id ` set (dags s) \<and>
     dk_dag_id ` set (dagtasks s) \<subseteq> dg_id ` set (dags s) \<and> dk_task_id ` set (dagtasks s) \<subseteq> tk_id ` set (tasks s) \<and>
     dp_task_id ` set (deps s) \<subseteq> dk_id ` set (dagtasks s) \<and> dp_depends_on ` set (deps s) \<subseteq> dk_id ` set (dagtasks s) \<and>
     rn_dag_id ` set (runs s) \<subseteq> dg_id ` set (dags s) \<and> rp_run_id ` set (runparams s) \<subseteq> rn_id ` set (runs s) \<and>
     tr_run_id ` set (taskruns s) \<subseteq> rn_id ` set (runs s) \<and> tr_task_id ` set (taskruns s) \<subseteq> dk_id ` set (dagtasks s) \<and>
     po_task_run_id ` set (pods s) \<subseteq> tr_id ` set (taskruns s)"

text \<open>A deletion that also removes every row whose key is deleted keeps a reference from rows to keys.\<close>

lemma cascade_subset:
  assumes "f ` set xs \<subseteq> key ` set ys" "\<And>x. x \<in> set xs \<Longrightarrow> f x \<in> key ` {y \<in> set ys. P y} \<Longrightarrow> Q x"
  shows "f ` {x \<in> set xs. \<not> Q x} \<subseteq> key ` {y \<in> set ys. \<not> P y}"
proof
  fix v assume "v \<in> f ` {x \<in> set xs. \<not> Q x}"
  then obtain x where x: "x \<in> set xs" "\<not> Q x" "v = f x" by blast
  then obtain y where "y \<in> set ys" "v = key y" using assms(1) by blast
  moreover have "\<not> P y" using assms(2) [OF x(1)] x(2,3) calculation by blast
  ultimately show "v \<in> key ` {y \<in> set ys. \<not> P y}" by blast
qed

lemma image_sub: "f ` set xs \<subseteq> B \<Longrightarrow> f ` {x \<in> set xs. Q x} \<subseteq> B"
  by blast

lemma pg_fkI:
  assumes "wk_dag_id ` set (workspaces s) \<subseteq> dg_id ` set (dags s)"
    "pr_dag_id ` set (params s) \<subseteq> dg_id ` set (dags s)"
    "dk_dag_id ` set (dagtasks s) \<subseteq> dg_id ` set (dags s)"
    "dk_task_id ` set (dagtasks s) \<subseteq> tk_id ` set (tasks s)"
    "dp_task_id ` set (deps s) \<subseteq> dk_id ` set (dagtasks s)"
    "dp_depends_on ` set (deps s) \<subseteq> dk_id ` set (dagtasks s)"
    "rn_dag_id ` set (runs s) \<subseteq> dg_id ` set (dags s)"
    "rp_run_id ` set (runparams s) \<subseteq> rn_id ` set (runs s)"
    "tr_run_id ` set (taskruns s) \<subseteq> rn_id ` set (runs s)"
    "tr_task_id ` set (taskruns s) \<subseteq> dk_id ` set (dagtasks s)"
    "po_task_run_id ` set (pods s) \<subseteq> tr_id ` set (taskruns s)"
  shows "pg_fk s"
  unfolding pg_fk_def by (intro conjI assms)

lemma pg_fkE:
  assumes "pg_fk s"
  obtains "wk_dag_id ` set (workspaces s) \<subseteq> dg_id ` set (dags s)"
    "pr_dag_id ` set (params s) \<subseteq> dg_id ` set (dags s)"
    "dk_dag_id ` set (dagtasks s) \<subseteq> dg_id ` set (dags s)"
    "dk_task_id ` set (dagtasks s) \<subseteq> tk_id ` set (tasks s)"
    "dp_task_id ` set (deps s) \<subseteq> dk_id ` set (dagtasks s)"
    "dp_depends_on ` set (deps s) \<subseteq> dk_id ` set (dagtasks s)"
    "rn_dag_id ` set (runs s) \<subseteq> dg_id ` set (dags s)"
    "rp_run_id ` set (runparams s) \<subseteq> rn_id ` set (runs s)"
    "tr_run_id ` set (taskruns s) \<subseteq> rn_id ` set (runs s)"
    "tr_task_id ` set (taskruns s) \<subseteq> dk_id ` set (dagtasks s)"
    "po_task_run_id ` set (pods s) \<subseteq> tr_id ` set (taskruns s)"
  using assms unfolding pg_fk_def by (elim conjE) (rule that)

lemma cascade_taskruns_tables [simp]:
  "set (taskruns (cascade_taskruns P s)) = {r \<in> set (taskruns s). \<not> P r}"
  "set (pods (cascade_taskruns P s)) = {p \<in> set (pods s). po_task_run_id p \<notin> tr_id ` {r \<in> set (taskruns s). P r}}"
  "ids (cascade_taskruns P s) = ids s" "dags (cascade_taskruns P s) = dags s" "workspaces (cascade_taskruns P s) = workspaces s" "params (cascade_taskruns P s) = params s" "tasks (cascade_taskruns P s) = tasks s" "dagtasks (cascade_taskruns P s) = dagtasks s" "deps (cascade_taskruns P s) = deps s" "runs (cascade_taskruns P s) = runs s" "runparams (cascade_taskruns P s) = runparams s"
  by (auto simp: cascade_taskruns_def Let_def)

lemma cascade_runs_tables [simp]:
  "set (runs (cascade_runs P s)) = {r \<in> set (runs s). \<not> P r}"
  "set (runparams (cascade_runs P s)) = {p \<in> set (runparams s). rp_run_id p \<notin> rn_id ` {r \<in> set (runs s). P r}}"
  "set (taskruns (cascade_runs P s)) = {q \<in> set (taskruns s). tr_run_id q \<notin> rn_id ` {r \<in> set (runs s). P r}}"
  "set (pods (cascade_runs P s)) = {p \<in> set (pods s). po_task_run_id p \<notin> tr_id ` {q \<in> set (taskruns s). tr_run_id q \<in> rn_id ` {r \<in> set (runs s). P r}}}"
  "ids (cascade_runs P s) = ids s" "dags (cascade_runs P s) = dags s" "workspaces (cascade_runs P s) = workspaces s" "params (cascade_runs P s) = params s" "tasks (cascade_runs P s) = tasks s" "dagtasks (cascade_runs P s) = dagtasks s" "deps (cascade_runs P s) = deps s"
  by (simp_all add: cascade_runs_def Let_def)

lemma cascade_dagtasks_tables [simp]:
  "set (dagtasks (cascade_dagtasks P s)) = {k \<in> set (dagtasks s). \<not> P k}"
  "set (deps (cascade_dagtasks P s)) = {d \<in> set (deps s). dp_task_id d \<notin> dk_id ` {k \<in> set (dagtasks s). P k} \<and>
     dp_depends_on d \<notin> dk_id ` {k \<in> set (dagtasks s). P k}}"
  "set (taskruns (cascade_dagtasks P s)) = {q \<in> set (taskruns s). tr_task_id q \<notin> dk_id ` {k \<in> set (dagtasks s). P k}}"
  "set (pods (cascade_dagtasks P s)) = {p \<in> set (pods s). po_task_run_id p \<notin> tr_id ` {q \<in> set (taskruns s). tr_task_id q \<in> dk_id ` {k \<in> set (dagtasks s). P k}}}"
  "ids (cascade_dagtasks P s) = ids s" "dags (cascade_dagtasks P s) = dags s" "workspaces (cascade_dagtasks P s) = workspaces s" "params (cascade_dagtasks P s) = params s" "tasks (cascade_dagtasks P s) = tasks s" "runs (cascade_dagtasks P s) = runs s" "runparams (cascade_dagtasks P s) = runparams s"
  by (simp_all add: cascade_dagtasks_def Let_def)

text \<open>A reference survives when the rows whose key is deleted go with it.\<close>

lemma kept_refs: "f ` set xs \<subseteq> key ` set ys \<Longrightarrow> f ` {x \<in> set xs. f x \<notin> key ` {y \<in> set ys. P y}} \<subseteq> key ` {y \<in> set ys. \<not> P y}"
  by (rule cascade_subset) auto

lemma kept_refs_and:
  assumes "f ` set xs \<subseteq> key ` set ys"
  shows "f ` {x \<in> set xs. f x \<notin> key ` {y \<in> set ys. P y} \<and> R x} \<subseteq> key ` {y \<in> set ys. \<not> P y}"
    "f ` {x \<in> set xs. R x \<and> f x \<notin> key ` {y \<in> set ys. P y}} \<subseteq> key ` {y \<in> set ys. \<not> P y}"
  by (rule order_trans [OF image_mono kept_refs [OF assms]]; auto)+

lemma kept_refs_twice:
  assumes "f ` set xs \<subseteq> key ` set ys"
  shows "f ` {x \<in> set xs. f x \<notin> key ` {y \<in> set ys. A y} \<and> f x \<notin> key ` {y \<in> set ys. \<not> A y \<and> B y}} \<subseteq>
    key ` {y \<in> set ys. \<not> A y \<and> \<not> B y}"
proof
  fix v assume "v \<in> f ` {x \<in> set xs. f x \<notin> key ` {y \<in> set ys. A y} \<and> f x \<notin> key ` {y \<in> set ys. \<not> A y \<and> B y}}"
  then obtain x where x: "x \<in> set xs" "f x \<notin> key ` {y \<in> set ys. A y}" "f x \<notin> key ` {y \<in> set ys. \<not> A y \<and> B y}" "v = f x" by blast
  then obtain y where "y \<in> set ys" "f x = key y" using assms by blast
  then show "v \<in> key ` {y \<in> set ys. \<not> A y \<and> \<not> B y}" using x by blast
qed

lemmas fk_rules = image_sub kept_refs kept_refs_and kept_refs_twice

lemma cascade_runs_fk: "pg_fk s \<Longrightarrow> pg_fk (cascade_runs P s)"
  by (erule pg_fkE, rule pg_fkI; simp add: fk_rules)

lemma cascade_dagtasks_fk: "pg_fk s \<Longrightarrow> pg_fk (cascade_dagtasks P s)"
  by (erule pg_fkE, rule pg_fkI; simp add: fk_rules)

lemma cascade_tasks_fk: "pg_fk s \<Longrightarrow> pg_fk (cascade_tasks P s)"
  unfolding cascade_tasks_def Let_def
  by (erule pg_fkE, rule pg_fkI; simp add: fk_rules)

lemma cascade_dags_tables [simp]:
  "set (dags (cascade_dags P s)) = {d \<in> set (dags s). \<not> P d}"
  "tasks (cascade_dags P s) = tasks s"
  by (simp_all add: cascade_dags_def Let_def)

lemma cascade_dags_fk: "pg_fk s \<Longrightarrow> pg_fk (cascade_dags P s)"
  unfolding cascade_dags_def Let_def
  by (erule pg_fkE, rule pg_fkI; simp add: fk_rules)

section \<open>Insertions\<close>

text \<open>An insertion grows the tables; the new rows refer to rows that exist.\<close>

definition fk_with :: "nat \<Rightarrow> db \<Rightarrow> bool" where
  "fk_with dagID s \<longleftrightarrow> pg_fk s \<and> dagID \<in> dg_id ` set (dags s)"

lemma fk_withD: "fk_with dagID s \<Longrightarrow> pg_fk s" "fk_with dagID s \<Longrightarrow> dagID \<in> dg_id ` set (dags s)"
  by (simp_all add: fk_with_def)

lemma insert_dag_row_fk:
  assumes "pg_fk s" "insert_dag_row row s = Inr (dagID, s')"
  shows "fk_with dagID s'"
proof -
  have s': "s' = s\<lparr>dags := dags s @ [row\<lparr>dg_id := next_dag s\<rparr>], next_dag := Suc (next_dag s)\<rparr>" "dagID = next_dag s"
    using assms(2) by (auto simp: insert_dag_row_def split: if_splits)
  have "pg_fk s'" using assms(1) unfolding s' by (elim pg_fkE) (rule pg_fkI; simp add: subset_insertI2)
  then show ?thesis by (simp add: fk_with_def s')
qed

lemma insertWorkspace_fk: "fk_with dagID s \<Longrightarrow> insertWorkspace dagID pvc s = Inr ((), s') \<Longrightarrow> fk_with dagID s'"
  by (clarsimp simp: fk_with_def insertWorkspace_def, erule pg_fkE, rule pg_fkI; simp)

lemma fk_grow_params: "pg_fk s \<Longrightarrow> pr_dag_id row \<in> dg_id ` set (dags s) \<Longrightarrow> pg_fk (s\<lparr>params := params s @ [row]\<rparr>)"
  by (erule pg_fkE, rule pg_fkI; simp)

lemma insertParameter_fk: "fk_with dagID s \<Longrightarrow> insertParameter dagID p s = Inr ((), s') \<Longrightarrow> fk_with dagID s'"
  by (auto simp: fk_with_def insertParameter_def intro!: fk_grow_params)

lemma insert_dagtask_row_fk:
  assumes fk: "fk_with dagID s" and t: "taskId \<in> tk_id ` set (tasks s)" and eq: "insert_dagtask_row dagID taskId name version s = Inr ((), s')"
  shows "fk_with dagID s'"
proof -
  have s': "s' = s\<lparr>dagtasks := dagtasks s @ [\<lparr>dk_id = next_dagtask s, dk_dag_id = dagID, dk_task_id = taskId,
      dk_name = name, dk_version = version\<rparr>], next_dagtask := Suc (next_dagtask s)\<rparr>"
    using eq by (simp add: insert_dagtask_row_def)
  have "pg_fk s'" using fk_withD [OF fk] t unfolding s'
    by (elim pg_fkE) (rule pg_fkI; simp add: subset_insertI2)
  then show ?thesis using fk by (simp add: fk_with_def s')
qed

lemma insert_task_row_fk:
  assumes fk: "pg_fk s" and eq: "insert_task_row row s = Inr (i, s')"
  shows "pg_fk s'" "dags s' = dags s" "i \<in> tk_id ` set (tasks s')"
proof -
  have s': "s' = s\<lparr>tasks := tasks s @ [row\<lparr>tk_id := next_task s\<rparr>], next_task := Suc (next_task s)\<rparr>" "i = next_task s"
    using eq by (auto simp: insert_task_row_def split: if_splits)
  show "pg_fk s'" using fk unfolding s' by (elim pg_fkE) (rule pg_fkI; simp add: subset_insertI2)
  show "dags s' = dags s" "i \<in> tk_id ` set (tasks s')" by (simp_all add: s')
qed

lemma pg_insertTask_fk:
  assumes fk: "fk_with dagID s" and eq: "pg_insertTask uuid dagID task namespace version s = Inr ((), s')"
  shows "fk_with dagID s'"
proof (cases "ts_TaskRef task")
  case None
  then obtain i s1 where s1: "insert_task_row (inline_row uuid s task namespace version) s = Inr (i, s1)"
    "insert_dagtask_row dagID i (ts_Name task) version s1 = Inr ((), s')"
    using eq by (auto simp: pg_insertTask_def bind_tx_Inr split: if_splits)
  note row = insert_task_row_fk [OF fk_withD(1) [OF fk] s1(1)]
  have "fk_with dagID s1" using row(1,2) fk_withD(2) [OF fk] by (simp add: fk_with_def)
  then show ?thesis by (rule insert_dagtask_row_fk [OF _ row(3) s1(2)])
next
  case (Some ref)
  then obtain t where "t \<in> set (tasks s)" "insert_dagtask_row dagID (tk_id t) (ts_Name task) version s = Inr ((), s')"
    using eq by (auto simp: pg_insertTask_def split: option.splits dest!: query_row_Some_in)
  then show ?thesis by (intro insert_dagtask_row_fk [OF fk]) auto
qed

lemma dep_map_values:
  assumes "foldl (\<lambda>m k. m(dk_name k \<mapsto> dk_id k)) m xs d = Some i" "\<And>d i. m d = Some i \<Longrightarrow> i \<in> I" "dk_id ` set xs \<subseteq> I"
  shows "i \<in> I"
  using assms
proof (induction xs arbitrary: m)
  case (Cons x xs)
  show ?case
    by (rule Cons.IH [of "m(dk_name x \<mapsto> dk_id x)"]) (use Cons.prems in \<open>auto split: if_splits\<close>)
qed simp

lemma pg_createDependencyConnection_fk:
  assumes fk: "fk_with dagID s" and eq: "pg_createDependencyConnection dagID task version s = Inr ((), s')"
  shows "fk_with dagID s'"
proof (cases "ts_RunAfter task = []")
  case False
  define m where "m = pg_dep_map dagID (ts_RunAfter task) s"
  obtain t where t: "t \<in> set (dagtasks s)" and all: "\<And>d. d \<in> set (ts_RunAfter task) \<Longrightarrow> m d \<noteq> None"
    and s': "s' = s\<lparr>deps := deps s @ map (\<lambda>d. \<lparr>dp_task_id = dk_id t, dp_depends_on = the (m d)\<rparr>) (ts_RunAfter task)\<rparr>"
    using eq False by (auto simp: pg_createDependencyConnection_def Let_def filter_empty_conv m_def
        split: option.splits list.splits dest!: query_row_Some_in)
  have "the (m d) \<in> dk_id ` set (dagtasks s)" if d: "d \<in> set (ts_RunAfter task)" for d
  proof -
    obtain i where "m d = Some i" using all [OF d] by auto
    then have "i \<in> dk_id ` set (dagtasks s)" unfolding m_def pg_dep_map_def by (rule dep_map_values) auto
    then show ?thesis by (simp add: \<open>m d = Some i\<close>)
  qed
  then have "(\<lambda>d. the (m d)) ` set (ts_RunAfter task) \<subseteq> dk_id ` set (dagtasks s)" by blast
  moreover have "(\<lambda>d. dk_id t) ` set (ts_RunAfter task) \<subseteq> dk_id ` set (dagtasks s)" using t by blast
  ultimately have "pg_fk s'" using fk_withD(1) [OF fk] unfolding s'
    by (elim pg_fkE) (rule pg_fkI; simp add: image_Un image_image)
  then show ?thesis using fk by (simp add: fk_with_def s')
qed (use fk eq in \<open>simp add: pg_createDependencyConnection_def\<close>)

lemma pg_insertDAG_fk:
  assumes fk: "pg_fk s" and eq: "pg_insertDAG uuid cron now dag version namespace hash s = Inr ((), s')"
  shows "pg_fk s'"
proof -
  obtain nextTime dagID s1 s2 s3 s4 where
    s1: "insert_dag_row (pg_new_dag_row dag version namespace hash nextTime) s = Inr (dagID, s1)" and
    s2: "(if ws_Enabled (ds_Workspace (dag_Spec dag)) then pg_insertWorkspace dagID (ws_PvcSpec (ds_Workspace (dag_Spec dag))) s1
          else Inr ((), s1)) = Inr ((), s2)" and
    s3: "for_tx (ds_Task (dag_Spec dag)) (\<lambda>t. pg_insertTask uuid dagID t namespace (getTaskVersion t)) s2 = Inr ((), s3)" and
    s4: "for_tx (ds_Task (dag_Spec dag)) (\<lambda>t. pg_createDependencyConnection dagID t (getTaskVersion t)) s3 = Inr ((), s4)" and
    s5: "for_tx (ds_Parameters (dag_Spec dag)) (pg_insertParameter dagID) s4 = Inr ((), s')"
    using eq by (auto simp: pg_insertDAG_def Let_def bind_tx_Inr split: sum.splits)
  have "fk_with dagID s1" by (rule insert_dag_row_fk [OF fk s1])
  then have "fk_with dagID s2" using s2 insertWorkspace_fk by (auto simp: pg_insertWorkspace_def split: if_splits)
  then have "fk_with dagID s3" by (rule for_tx_preserves [OF s3]) (rule pg_insertTask_fk)
  then have "fk_with dagID s4" by (rule for_tx_preserves [OF s4]) (rule pg_createDependencyConnection_fk)
  then have "fk_with dagID s'"
    by (rule for_tx_preserves [OF s5]) (auto simp: pg_insertParameter_def intro: insertParameter_fk)
  then show ?thesis by (rule fk_withD)
qed

lemma fk_dags_cong:
  assumes "pg_fk s" "map dg_id ds = map dg_id (dags s)"
  shows "pg_fk (s\<lparr>dags := ds\<rparr>)"
proof -
  have "dg_id ` set ds = dg_id ` set (dags s)" using arg_cong [OF assms(2), of set] by simp
  then show ?thesis using assms(1) by (simp add: pg_fk_def)
qed

lemma withTx_keeps:
  assumes "P s" "\<And>x s'. body s = Inr (x, s') \<Longrightarrow> P s'"
  shows "P (snd (withTx body s))"
  using assms by (auto simp: withTx_def split: sum.split)

lemma fk_update_dags: "pg_fk s \<Longrightarrow> (\<And>d. dg_id (f d) = dg_id d) \<Longrightarrow> pg_fk (s\<lparr>dags := update_where P f (dags s)\<rparr>)"
  by (intro fk_dags_cong map_update_where)

lemma pg_InsertDAG_fk:
  assumes "pg_fk s"
  shows "pg_fk (snd (pg_InsertDAG digest uuid cron now dag namespace s))"
  unfolding pg_InsertDAG_def
proof (rule withTx_keeps [where P = pg_fk, OF assms])
  fix x s' assume eq: "pg_InsertDAG_tx digest uuid cron now dag namespace s = Inr (x, s')"
  consider b where "s' = pg_setSuspended (dag_Name dag) namespace b s"
    | s1 v h where "pg_insertDAG uuid cron now dag v namespace h s = Inr ((), s1)" "s' = pg_setInactive (dag_Name dag) namespace (v - 1) s1"
    using eq by (auto simp: pg_InsertDAG_tx_def Let_def bind_tx_Inr case_prod_beta split: if_splits option.splits)
  then show "pg_fk s'"
  proof cases
    case 1
    then show ?thesis using assms by (simp add: pg_setSuspended_def setSuspended_def fk_update_dags)
  next
    case 2
    then show ?thesis using pg_insertDAG_fk [OF assms] by (simp add: pg_setInactive_def setInactive_def fk_update_dags)
  qed
qed

section \<open>Updates\<close>

text \<open>An operation that keeps the keys and references of every row keeps the integrity.\<close>

lemma fk_same_keys:
  assumes "pg_fk s" and eqs: "workspaces s' = workspaces s" "params s' = params s" "dagtasks s' = dagtasks s" "deps s' = deps s"
      "runparams s' = runparams s" "tasks s' = tasks s" "map dg_id (dags s') = map dg_id (dags s)"
      "map (\<lambda>r. (rn_id r, rn_dag_id r)) (runs s') = map (\<lambda>r. (rn_id r, rn_dag_id r)) (runs s)"
      "map (\<lambda>r. (tr_id r, tr_run_id r, tr_task_id r)) (taskruns s') = map (\<lambda>r. (tr_id r, tr_run_id r, tr_task_id r)) (taskruns s)"
      "map po_task_run_id (pods s') = map po_task_run_id (pods s)"
  shows "pg_fk s'"
proof -
  have "map rn_id (runs s') = map rn_id (runs s)" "map rn_dag_id (runs s') = map rn_dag_id (runs s)"
    using arg_cong [OF eqs(8), of "map fst"] arg_cong [OF eqs(8), of "map snd"] by (simp_all add: comp_def)
  moreover have "map tr_id (taskruns s') = map tr_id (taskruns s)" "map tr_run_id (taskruns s') = map tr_run_id (taskruns s)"
      "map tr_task_id (taskruns s') = map tr_task_id (taskruns s)"
    using arg_cong [OF eqs(9), of "map fst"] arg_cong [OF eqs(9), of "map (fst \<circ> snd)"] arg_cong [OF eqs(9), of "map (snd \<circ> snd)"]
    by (simp_all add: comp_def)
  ultimately show ?thesis using assms(1) eqs(1-7,10) unfolding pg_fk_def set_map [symmetric] by simp
qed

lemmas fk_update = fk_same_keys map_update_where

lemma pg_insert_taskrun_fk: "pg_fk s \<Longrightarrow> pg_fk (snd (pg_insert_taskrun runId taskId status attempts s))"
  unfolding pg_insert_taskrun_def insert_taskrun_def
  by (auto split: if_split) (erule pg_fkE, rule pg_fkI; simp add: subset_insertI2)

lemma insert_suspended_fk:
  assumes "pg_fk s" "run \<in> rn_id ` set (runs s)" "set ts \<subseteq> dk_id ` set (dagtasks s)"
  shows "pg_fk (insert_suspended run ts s)"
  using assms
proof (induction ts arbitrary: s)
  case (Cons t ts)
  let ?s = "snd (insert_taskrun run t ''suspended'' 0 s)"
  have "pg_fk ?s" using Cons.prems
    by (elim pg_fkE) (rule pg_fkI; simp add: insert_taskrun_def subset_insertI2)
  then show ?case using Cons.IH [of ?s] Cons.prems by (simp add: insert_taskrun_def)
qed simp

lemma dependents_range: "set (concat (map (dependents edges) xs)) \<subseteq> snd ` set edges"
  by (auto simp: dependents_def rev_image_eqI)

lemma task_chain_range:
  assumes "task_chain edges depth frontier = Some chain"
  shows "set frontier \<subseteq> I \<longrightarrow> snd ` set edges \<subseteq> I \<longrightarrow> fst ` set chain \<subseteq> I"
proof (rule task_chain.raw_induct [OF _ assms])
  fix chain_of edges depth frontier chain
  assume IH: "\<And>edges depth frontier chain. chain_of edges depth frontier = Some chain \<Longrightarrow>
      set frontier \<subseteq> I \<longrightarrow> snd ` set edges \<subseteq> I \<longrightarrow> fst ` set chain \<subseteq> I"
    and eq: "(if frontier = [] then Some [] else Option.bind (chain_of edges (Suc depth) (concat (map (dependents edges) frontier)))
             (\<lambda>rest. Some (map (\<lambda>t. (t, depth)) frontier @ rest))) = Some chain"
  show "set frontier \<subseteq> I \<longrightarrow> snd ` set edges \<subseteq> I \<longrightarrow> fst ` set chain \<subseteq> I"
  proof (cases "frontier = []")
    case False
    then obtain rest where rest: "chain_of edges (Suc depth) (concat (map (dependents edges) frontier)) = Some rest"
      "chain = map (\<lambda>t. (t, depth)) frontier @ rest"
      using eq by (auto simp: bind_eq_Some_conv)
    then show ?thesis using IH [OF rest(1)] rest(2) dependents_range [of edges frontier] by (auto simp: image_Un image_image)
  qed (use eq in simp)
qed

lemma chain_edges_range: "snd ` set (chain_edges s) \<subseteq> dk_id ` set (dagtasks s)"
proof -
  have "dp_task_id d \<in> dk_id ` set (dagtasks s)" if "k \<in> set (dagtasks s)" "dk_id k = dp_task_id d" for k d
    using that by (rule rev_image_eqI [OF _ sym])
  then show ?thesis by (auto simp: chain_edges_def)
qed

lemma pg_MarkConnecting_fk:
  assumes fk: "pg_fk s" and eq: "pg_MarkConnectingTasksAsSuspended dagRunId taskRunId s = Some (x, s')"
  shows "pg_fk s'"
proof -
  obtain chain where c: "task_chain (chain_edges s) 1 (concat (map (dependents (chain_edges s))
      (map tr_task_id (filter (\<lambda>r. tr_id r = taskRunId) (taskruns s))))) = Some chain"
    using eq by (auto simp: pg_MarkConnectingTasksAsSuspended_def Let_def split: option.splits)
  define updates where "updates = chain_updates dagRunId chain s"
  have cases: "s' = s \<or> DagrunExists dagRunId s \<and> s' = (insert_suspended dagRunId updates s)\<lparr>runs := update_where (\<lambda>r. rn_id r = dagRunId)
       (\<lambda>r. r\<lparr>rn_suspendedCount := rn_suspendedCount r + length updates\<rparr>) (runs (insert_suspended dagRunId updates s))\<rparr>"
    using eq c by (auto simp: pg_MarkConnectingTasksAsSuspended_def Let_def updates_def split: if_splits)
  have "fst ` set chain \<subseteq> dk_id ` set (dagtasks s)"
    by (rule task_chain_range [OF c, rule_format, OF subset_trans [OF dependents_range chain_edges_range] chain_edges_range])
  then have u: "set updates \<subseteq> dk_id ` set (dagtasks s)" by (auto simp: updates_def chain_updates_set)
  show ?thesis
  proof (cases "s' = s")
    case False
    then have run: "dagRunId \<in> rn_id ` set (runs s)" using cases by (auto simp: DagrunExists_def)
    have "pg_fk (insert_suspended dagRunId updates s)" by (rule insert_suspended_fk [OF fk run u])
    from fk_same_keys [OF this, of "(insert_suspended dagRunId updates s)\<lparr>runs := update_where (\<lambda>r. rn_id r = dagRunId)
       (\<lambda>r. r\<lparr>rn_suspendedCount := rn_suspendedCount r + length updates\<rparr>) (runs (insert_suspended dagRunId updates s))\<rparr>"]
    show ?thesis using cases False by (simp add: map_update_where)
  qed (simp add: fk)
qed

section \<open>Every reachable database\<close>

text \<open>Any sequence of the manager's operations, from an empty database.\<close>

inductive pg_reachable :: "db \<Rightarrow> bool" where
  initial: "pg_reachable empty_db"
| insert_dag: "pg_reachable s \<Longrightarrow> pg_reachable (snd (pg_InsertDAG digest uuid cron now dag namespace s))"
| due: "pg_reachable s \<Longrightarrow> pg_reachable (snd (pg_GetDAGsToStartAndUpdate cron tm now s))"
| add_task: "pg_reachable s \<Longrightarrow> pg_reachable (snd (pg_AddTask tdigest name spec namespace s))"
| delete_task: "pg_reachable s \<Longrightarrow> pg_reachable (snd (pg_DeleteTask name namespace s))"
| delete_dag: "pg_reachable s \<Longrightarrow> pg_reachable (snd (pg_DeleteDAG name namespace s))"
| create_run: "pg_reachable s \<Longrightarrow> pg_reachable (snd (pg_CreateDAGRun name rspec ps pvc now s))"
| delete_run: "pg_reachable s \<Longrightarrow> pg_reachable (snd (pg_DeleteDagRun run s))"
| started: "pg_reachable s \<Longrightarrow> pg_reachable (snd (pg_MarkTaskAsStarted run task s))"
| pending: "pg_reachable s \<Longrightarrow> pg_reachable (snd (pg_AddPendingTaskRun run task s))"
| success: "pg_reachable s \<Longrightarrow> pg_reachable (snd (pg_MarkSuccessAndGetNextTasks i s))"
| failed: "pg_reachable s \<Longrightarrow> pg_reachable (snd (pg_MarkTaskAsFailed i s))"
| outcome: "pg_reachable s \<Longrightarrow> pg_reachable (snd (pg_MarkDAGRunOutcome run status s))"
| connected: "pg_reachable s \<Longrightarrow> pg_MarkConnectingTasksAsSuspended run i s = Some (x, s') \<Longrightarrow> pg_reachable s'"
| suspend: "pg_reachable s \<Longrightarrow> pg_reachable (snd (pg_SuspendDagRun run s))"
| attempts: "pg_reachable s \<Longrightarrow> pg_reachable (snd (pg_IncrementAttempts i s))"
| retry_env: "pg_reachable s \<Longrightarrow> pg_reachable (snd (pg_SaveRetryEnv i env s))"
| pod_status: "pg_reachable s \<Longrightarrow> pg_reachable (snd (pg_MarkPodStatus uid name i status tm exitCode namespace s))"
| pod_duration: "pg_reachable s \<Longrightarrow> pg_reachable (snd (pg_AddPodDuration i d s))"
| claim: "pg_reachable s \<Longrightarrow> pg_reachable (snd (pg_ClaimTasks locked limit w ttl now s))"
| claim_one: "pg_reachable s \<Longrightarrow> pg_reachable (snd (pg_ClaimTaskByID w ttl now i s))"
| renew: "pg_reachable s \<Longrightarrow> pg_reachable (snd (pg_RenewLease w ttl now i s))"
| finalize: "pg_reachable s \<Longrightarrow> pg_reachable (snd (pg_FinalizeClaimToRunning w i s))"
| recover: "pg_reachable s \<Longrightarrow> pg_reachable (snd (pg_RecoverExpiredLeases now s))"
| unique_id: "pg_reachable s \<Longrightarrow> pg_reachable (snd (pg_GetID new s))"

lemma pg_advance_fk: "pg_fk s \<Longrightarrow> pg_advance cron now xs s = Inr ((), s') \<Longrightarrow> pg_fk s'"
proof (induction cron now xs s rule: pg_advance.induct)
  case (2 cron now schedule info rest s)
  then obtain f where "cron schedule = Inr f" by (auto split: sum.splits)
  then show ?case using 2 fk_update_dags [OF 2(2)] by simp
qed simp

lemma pg_due_fk: "pg_fk s \<Longrightarrow> pg_fk (snd (pg_GetDAGsToStartAndUpdate cron tm now s))"
  unfolding pg_GetDAGsToStartAndUpdate_def
  by (rule withTx_keeps [where P = pg_fk]) (auto simp: Let_def bind_tx_Inr intro: pg_advance_fk split: if_splits)

lemma pg_AddTask_fk:
  assumes "pg_fk s"
  shows "pg_fk (snd (pg_AddTask digest name spec namespace s))"
  unfolding pg_AddTask_def
proof (rule withTx_keeps [where P = pg_fk, OF assms])
  fix x s'
  assume "(if list_all in_int32 (co_RetryCodes (dt_Conditional spec)) then AddTask_tx digest name spec namespace s
      else case AddTask_tx digest name spec namespace s of Inl e \<Rightarrow> Inl e | Inr _ \<Rightarrow> Inl (Err ''value is out of range for int4'')) = Inr (x, s')"
  then have "AddTask_tx digest name spec namespace s = Inr (x, s')" by (auto split: if_splits sum.splits)
  then obtain row i where "insert_task_row row s = Inr (i, s')"
    by (auto simp: AddTask_tx_def Let_def bind_tx_Inr case_prod_beta split: if_splits option.splits)
  then show "pg_fk s'" by (rule insert_task_row_fk [OF assms])
qed

lemma CreateDAGRun_fk:
  assumes "pg_fk s"
  shows "pg_fk (snd (CreateDAGRun name rspec ps pvc now s))"
proof -
  have "dagId \<in> dg_id ` set (dags s)" if "dagNameToDagId (dr_DagName rspec) s = Inr dagId" for dagId
    using that by (auto simp: dagNameToDagId_def split: option.splits dest!: query_row_Some_in)
  then show ?thesis using assms unfolding CreateDAGRun_def
    by (auto split: sum.split option.split)
      (erule pg_fkE, rule pg_fkI; auto simp: run_param_row_def image_Un image_image)
qed

lemma MarkTaskAsFailed_fk: "pg_fk s \<Longrightarrow> pg_fk (snd (MarkTaskAsFailed i s))"
  unfolding MarkTaskAsFailed_def Let_def set_status_def snd_conv by (rule fk_same_keys) (simp_all add: map_update_where)

lemma pg_MarkPodStatus_fk:
  assumes "pg_fk s"
  shows "pg_fk (snd (pg_MarkPodStatus uid name i status tm exitCode namespace s))"
  unfolding pg_MarkPodStatus_def
proof (rule withTx_keeps [where P = pg_fk, OF assms], goal_cases)
  case (1 x s')
  show ?case
  proof (cases "\<exists>p \<in> set (pods s). po_uid p = uid")
    case True
    then have "s' = s\<lparr>pods := update_where (\<lambda>p. po_uid p = uid \<and> po_updated_at p \<le> tm)
        (\<lambda>p. p\<lparr>po_status := status, po_updated_at := tm, po_exitCode := exitCode\<rparr>) (pods s)\<rparr>"
      using 1 by (auto split: if_splits)
    then show ?thesis using fk_same_keys [OF assms, of s'] by (simp add: map_update_where)
  next
    case False
    then have run: "i \<in> tr_id ` set (taskruns s)" and s': "s' = s\<lparr>pods := pods s @ [\<lparr>po_uid = uid, po_task_run_id = i, po_exitCode = exitCode,
        po_name = name, po_status = status, po_namespace = namespace, po_updated_at = tm, po_duration = None\<rparr>]\<rparr>"
      using 1 by (auto split: if_splits)
    show ?thesis using assms run unfolding s' by (elim pg_fkE) (rule pg_fkI; simp)
  qed
qed

lemma claim_fk:
  assumes "pg_fk s" "\<And>r. tr_id (f r) = tr_id r \<and> tr_run_id (f r) = tr_run_id r \<and> tr_task_id (f r) = tr_task_id r"
  shows "pg_fk (s\<lparr>taskruns := update_where P f (taskruns s)\<rparr>)"
  by (rule fk_same_keys [OF assms(1)]) (simp_all add: map_update_where assms(2))

lemma runs_fk:
  assumes "pg_fk s" "\<And>r. rn_id (f r) = rn_id r \<and> rn_dag_id (f r) = rn_dag_id r"
  shows "pg_fk (s\<lparr>runs := update_where P f (runs s)\<rparr>)"
  by (rule fk_same_keys [OF assms(1)]) (simp_all add: map_update_where assms(2))

lemma fk_ids: "pg_fk s \<Longrightarrow> pg_fk (s\<lparr>ids := xs\<rparr>)"
  by (simp add: pg_fk_def)

lemma fk_pods: "pg_fk s \<Longrightarrow> (\<And>p. po_task_run_id (f p) = po_task_run_id p) \<Longrightarrow> pg_fk (s\<lparr>pods := update_where P f (pods s)\<rparr>)"
  by (rule fk_same_keys) (simp_all add: map_update_where)

lemma set_status_fk: "pg_fk s \<Longrightarrow> pg_fk (set_status i status s)"
  unfolding set_status_def by (rule claim_fk) simp_all

lemma pg_MarkSuccess_fk:
  assumes "pg_fk s"
  shows "pg_fk (snd (pg_MarkSuccessAndGetNextTasks i s))"
  unfolding pg_MarkSuccessAndGetNextTasks_def
proof (rule withTx_keeps [where P = pg_fk, OF assms], goal_cases)
  case (1 x s')
  define runId where "runId = (case find_taskrun i s of None \<Rightarrow> 0 | Some r \<Rightarrow> tr_run_id r)"
  define s1 where "s1 = set_status i ''success'' s"
  define s2 where "s2 = s1\<lparr>runs := update_where (\<lambda>r. rn_id r = runId) (\<lambda>r. r\<lparr>rn_successfulCount := rn_successfulCount r + 1\<rparr>) (runs s1)\<rparr>"
  have s2: "pg_fk s2" unfolding s2_def s1_def by (intro runs_fk set_status_fk assms) simp
  have "s' = s2 \<or> s' = s2\<lparr>runs := update_where (\<lambda>r. rn_id r = runId) (\<lambda>r. r\<lparr>rn_status := ''success''\<rparr>) (runs s2)\<rparr>"
    using 1 unfolding Let_def runId_def [symmetric] s1_def [symmetric] s2_def [symmetric] by (simp split: if_splits sum.splits)
  then show ?case using s2 runs_fk [OF s2, of "\<lambda>r. r\<lparr>rn_status := ''success''\<rparr>"] by auto
qed

lemma pg_ops_fk:
  assumes "pg_fk s"
  shows "pg_fk (snd (pg_ClaimTasks locked limit w ttl now s))" "pg_fk (snd (pg_ClaimTaskByID w ttl now i s))"
    "pg_fk (snd (pg_RenewLease w ttl now i s))" "pg_fk (snd (pg_FinalizeClaimToRunning w i s))"
    "pg_fk (snd (pg_RecoverExpiredLeases now s))" "pg_fk (snd (pg_IncrementAttempts i s))" "pg_fk (snd (pg_SaveRetryEnv i env s))"
    "pg_fk (snd (pg_MarkDAGRunOutcome run status s))" "pg_fk (snd (pg_SuspendDagRun run s))" "pg_fk (snd (pg_AddPodDuration i d s))"
    "pg_fk (snd (pg_GetID new s))"
proof -
  show "pg_fk (snd (pg_ClaimTaskByID w ttl now i s))"
    using assms by (auto simp: pg_ClaimTaskByID_def Let_def claim_row_def split: option.split intro!: claim_fk)
  show "pg_fk (snd (pg_GetID new s))" using assms by (auto simp: pg_GetID_def GetID_def fk_ids split: option.split)
qed (use assms in \<open>simp_all add: pg_ClaimTasks_def pg_RenewLease_def pg_FinalizeClaimToRunning_def pg_RecoverExpiredLeases_def Let_def
      pg_IncrementAttempts_def IncrementAttempts_def pg_SaveRetryEnv_def SaveRetryEnv_def pg_MarkDAGRunOutcome_def MarkDAGRunOutcome_def
      pg_SuspendDagRun_def SuspendDagRun_def pg_AddPodDuration_def AddPodDuration_def claim_fk runs_fk fk_pods claim_row_def unclaim_row_def\<close>)

lemma pg_reachable_fk: "pg_reachable s \<Longrightarrow> pg_fk s"
proof (induction rule: pg_reachable.induct)
  case initial
  then show ?case by (simp add: pg_fk_def empty_db_def)
next
  case (connected s run i x s')
  then show ?case using pg_MarkConnecting_fk by blast
qed (simp_all add: pg_InsertDAG_fk pg_due_fk pg_AddTask_fk pg_DeleteTask_def cascade_tasks_fk pg_DeleteDAG_def Let_def cascade_dags_fk
    pg_CreateDAGRun_def CreateDAGRun_fk pg_DeleteDagRun_def cascade_runs_fk pg_MarkTaskAsStarted_def pg_AddPendingTaskRun_def
    pg_insert_taskrun_fk pg_MarkSuccess_fk pg_MarkTaskAsFailed_def MarkTaskAsFailed_fk pg_MarkPodStatus_fk pg_ops_fk)

text \<open>
  (C7) Referential integrity: after any sequence of operations of the Postgres manager from an empty database, every workspace,
  parameter, task and run belongs to a stored DAG, every dependency joins two stored tasks, and every task run, run parameter and pod
  belongs to a stored run, task and task run. No operation leaves a dangling reference.
\<close>

theorem pg_references_hold:
  assumes "pg_reachable s"
  shows "pg_fk s"
  by (rule pg_reachable_fk [OF assms])

definition ex_task_spec :: DagTaskSpec where
  "ex_task_spec = \<lparr>dt_Command = [''sh''], dt_Args = [], dt_Image = ''alpine'', dt_RunAfter = [], dt_Backoff = \<lparr>bo_Limit = 1\<rparr>,
     dt_Conditional = \<lparr>co_Enabled = False, co_RetryCodes = []\<rparr>, dt_Parameters = [], dt_PodTemplate = None, dt_Script = '''',
     dt_ScriptInjectorImage = ''''\<rparr>"

text \<open>A shared task that is stored and deleted again.\<close>

theorem pg_references_hold_witness:
  "pg_reachable (snd (pg_DeleteTask ''shared'' ''ns'' (snd (pg_AddTask (\<lambda>_. ''h'') ''shared'' ex_task_spec ''ns'' empty_db)))) \<and>
   pg_fk (snd (pg_DeleteTask ''shared'' ''ns'' (snd (pg_AddTask (\<lambda>_. ''h'') ''shared'' ex_task_spec ''ns'' empty_db)))) \<and>
   tasks (snd (pg_AddTask (\<lambda>_. ''h'') ''shared'' ex_task_spec ''ns'' empty_db)) \<noteq> []"
proof -
  have r: "pg_reachable (snd (pg_DeleteTask ''shared'' ''ns'' (snd (pg_AddTask (\<lambda>_. ''h'') ''shared'' ex_task_spec ''ns'' empty_db))))"
    by (intro pg_reachable.intros)
  have "tasks (snd (pg_AddTask (\<lambda>_. ''h'') ''shared'' ex_task_spec ''ns'' empty_db)) \<noteq> []"
    by (simp add: pg_AddTask_def withTx_def AddTask_tx_def insert_task_row_def ex_task_spec_def empty_db_def)
  then show ?thesis using r pg_references_hold [OF r] by blast
qed

end
