(* ===== verification/Worker_Safety.thy ===== *)
theory Worker_Safety
  imports Worker Postgres_Integrity
begin

text \<open>
  The workers of a controller acting on one database together, as a step relation: pod events, claims, polls, lease renewals and recoveries, and the
  controllers' own changes, in any order. Invariants of the database are carried through every handler by the interface of
  \<open>Worker\<close>; here it is interpreted for both managers, and the properties of the workers follow.
\<close>

section \<open>Steps\<close>

text \<open>
  Each worker is given with the clock and the random names it sees at that step. Controllers add pending task runs
  for the tasks that start a run, and otherwise change no task run but delete them.
\<close>

inductive worker_step :: "db_manager \<Rightarrow> 'k worker set \<Rightarrow> 'k world \<Rightarrow> 'k world \<Rightarrow> bool" for m W where
  event: "w \<in> W \<Longrightarrow> worker_step m W x (run_event w event pod t x)"
| claim: "w \<in> W \<Longrightarrow> c \<in> set (wd_claims x) \<Longrightarrow> worker_step m W x (processClaim w c (x\<lparr>wd_claims := remove1 c (wd_claims x)\<rparr>))"
| poll: "w \<in> W \<Longrightarrow> worker_step m W x (poll_tick w locked inFlight x)"
| renew: "worker_step m W x (x\<lparr>wd_db := snd (db_RenewLease m worker ttl now i (wd_db x))\<rparr>)"
| recover: "worker_step m W x (x\<lparr>wd_db := snd (db_RecoverExpiredLeases m now (wd_db x))\<rparr>)"
| start: "worker_step m W x (x\<lparr>wd_db := snd (db_AddPendingTaskRun m run task (wd_db x))\<rparr>)"
| other: "set (taskruns s) \<subseteq> set (taskruns (wd_db x)) \<Longrightarrow> next_taskrun s = next_taskrun (wd_db x) \<Longrightarrow>
    worker_step m W x (x\<lparr>wd_db := s\<rparr>)"

section \<open>Attempts\<close>

definition retry_inv :: "db \<Rightarrow> bool" where
  "retry_inv s \<longleftrightarrow> (\<forall>r \<in> set (taskruns s). tr_id r < next_taskrun s \<and> tr_attempts r \<le> 1)"

lemma retry_invI: "(\<And>r. r \<in> set (taskruns s) \<Longrightarrow> tr_id r < next_taskrun s \<and> tr_attempts r \<le> 1) \<Longrightarrow> retry_inv s"
  by (simp add: retry_inv_def)

lemma retry_invD: "retry_inv s \<Longrightarrow> r \<in> set (taskruns s) \<Longrightarrow> tr_id r < next_taskrun s \<and> tr_attempts r \<le> 1"
  by (simp add: retry_inv_def)

lemma retry_same: "retry_inv s \<Longrightarrow> taskruns s' = taskruns s \<Longrightarrow> next_taskrun s' = next_taskrun s \<Longrightarrow> retry_inv s'"
  by (simp add: retry_inv_def)

lemma retry_rows:
  assumes "retry_inv s" "taskruns s' = update_where P f (taskruns s)" "next_taskrun s' = next_taskrun s"
    "\<And>r. tr_id (f r) = tr_id r \<and> tr_attempts (f r) = tr_attempts r"
  shows "retry_inv s'"
proof (rule retry_invI)
  fix r assume "r \<in> set (taskruns s')"
  then obtain p where p: "p \<in> set (taskruns s)" "r = (if P p then f p else p)" using assms(2) by (metis update_whereE)
  then show "tr_id r < next_taskrun s' \<and> tr_attempts r \<le> 1" using retry_invD [OF assms(1) p(1)] assms(3,4) by simp
qed

lemma retry_insert: "retry_inv s \<Longrightarrow> n \<le> 1 \<Longrightarrow> retry_inv (snd (insert_taskrun run task status n s))"
  by (auto simp: retry_inv_def insert_taskrun_def)

lemma retry_suspended: "retry_inv s \<Longrightarrow> retry_inv (insert_suspended run ts s)"
  by (induction run ts s rule: insert_suspended.induct) (simp_all add: retry_insert)

lemma retry_withTx: "retry_inv s \<Longrightarrow> (\<And>x s'. body s = Inr (x, s') \<Longrightarrow> retry_inv s') \<Longrightarrow> retry_inv (snd (withTx body s))"
  by (auto simp: withTx_def split: sum.splits)

lemma retry_frames [simp]: "retry_inv (s\<lparr>pods := ps\<rparr>) = retry_inv s" "retry_inv (s\<lparr>runs := rs\<rparr>) = retry_inv s"
  by (simp_all add: retry_inv_def)

lemma retry_set_status: "retry_inv s \<Longrightarrow> retry_inv (set_status i st s)"
  by (rule retry_rows [where P = "\<lambda>r. tr_id r = i" and f = "\<lambda>r. r\<lparr>tr_status := st\<rparr>"]) (simp_all add: set_status_def)

lemma retry_MarkSuccess: "retry_inv s \<Longrightarrow> retry_inv (snd (db_MarkSuccessAndGetNextTasks m i s))"
  by (cases m)
    (auto simp: MarkSuccessAndGetNextTasks_def pg_MarkSuccessAndGetNextTasks_def Let_def retry_set_status
      split: option.splits if_splits sum.splits intro!: retry_withTx)

lemma retry_MarkFailed: "retry_inv s \<Longrightarrow> retry_inv (snd (db_MarkTaskAsFailed m i s))"
  by (cases m) (simp_all add: pg_MarkTaskAsFailed_def MarkTaskAsFailed_def Let_def retry_set_status)

lemma retry_suspend: "retry_inv s \<Longrightarrow> retry_inv (snd (db_MarkConnectingTasksAsSuspended m run i s))"
proof (cases m)
  case (SqliteManager tz)
  assume "retry_inv s"
  then show ?thesis unfolding SqliteManager db_MarkConnectingTasksAsSuspended.simps MarkConnectingTasksAsSuspended_def
    by (rule retry_withTx) (auto simp: Let_def retry_suspended [OF \<open>retry_inv s\<close>] split: option.splits sum.splits)
next
  case PostgresManager
  assume "retry_inv s"
  then show ?thesis unfolding PostgresManager
    by (simp add: pg_MarkConnectingTasksAsSuspended_def Let_def retry_suspended split: option.split)
qed

lemma retry_status: "retry_inv s \<Longrightarrow> retry_inv (snd (db_MarkPodStatus m uid name i phase stamp code namespace s))"
  by (cases m) (auto simp: MarkPodStatus_def pg_MarkPodStatus_def split: if_splits intro!: retry_withTx)

lemma retry_claims:
  assumes "retry_inv s"
  shows "retry_inv (snd (db_ClaimTasks m locked limit worker ttl now s))" "retry_inv (snd (db_FinalizeClaimToRunning m worker i s))"
    "retry_inv (snd (db_RenewLease m worker ttl now i s))" "retry_inv (snd (db_RecoverExpiredLeases m now s))"
    "retry_inv (snd (db_ClaimTaskByID m worker ttl now i s))" "retry_inv (snd (db_SaveRetryEnv m i env s))"
  by (cases m; auto simp: ClaimTasks_def pg_ClaimTasks_def FinalizeClaimToRunning_def pg_FinalizeClaimToRunning_def RenewLease_def
      pg_RenewLease_def RecoverExpiredLeases_def pg_RecoverExpiredLeases_def ClaimTaskByID_def pg_ClaimTaskByID_def SaveRetryEnv_def
      pg_SaveRetryEnv_def Let_def claim_row_def unclaim_row_def assms split: option.split intro!: retry_rows [OF assms])+

lemma retry_add: "retry_inv s \<Longrightarrow> retry_inv (snd (db_AddPendingTaskRun m run task s))"
  by (cases m) (simp_all add: AddPendingTaskRun_def pg_AddPendingTaskRun_def pg_insert_taskrun_def retry_insert case_prod_beta)

text \<open>A retry increments only the task run it has just added, which had no attempts.\<close>

definition unattempted :: "nat \<Rightarrow> db \<Rightarrow> bool" where
  "unattempted i s \<longleftrightarrow> retry_inv s \<and> (\<forall>r \<in> set (taskruns s). tr_id r = i \<longrightarrow> tr_attempts r = 0)"

lemma unattempted_rows:
  assumes "unattempted i s" "\<And>r. tr_id (f r) = tr_id r \<and> tr_attempts (f r) = tr_attempts r"
  shows "unattempted i (s\<lparr>taskruns := update_where P f (taskruns s)\<rparr>)"
  unfolding unattempted_def
proof (intro conjI ballI impI)
  show "retry_inv (s\<lparr>taskruns := update_where P f (taskruns s)\<rparr>)"
    by (rule retry_rows [where P = P and f = f]) (use assms in \<open>simp_all add: unattempted_def\<close>)
  fix r assume "r \<in> set (taskruns (s\<lparr>taskruns := update_where P f (taskruns s)\<rparr>))" and i: "tr_id r = i"
  then obtain p where p: "p \<in> set (taskruns s)" "r = (if P p then f p else p)" by (auto elim: update_whereE)
  then show "tr_attempts r = 0" using assms i by (auto simp: unattempted_def split: if_splits)
qed

lemma unattempted_increment:
  assumes "unattempted i s"
  shows "retry_inv (s\<lparr>taskruns := update_where (\<lambda>r. tr_id r = i) (\<lambda>r. r\<lparr>tr_attempts := tr_attempts r + 1\<rparr>) (taskruns s)\<rparr>)"
proof (rule retry_invI)
  fix r assume "r \<in> set (taskruns (s\<lparr>taskruns := update_where (\<lambda>r. tr_id r = i) (\<lambda>r. r\<lparr>tr_attempts := tr_attempts r + 1\<rparr>) (taskruns s)\<rparr>))"
  then obtain p where p: "p \<in> set (taskruns s)" "r = (if tr_id p = i then p\<lparr>tr_attempts := tr_attempts p + 1\<rparr> else p)"
    by (auto elim: update_whereE)
  have "tr_id p < next_taskrun s \<and> tr_attempts p \<le> 1" "tr_id p = i \<Longrightarrow> tr_attempts p = 0"
    using assms p(1) by (auto simp: unattempted_def retry_inv_def)
  then show "tr_id r < next_taskrun (s\<lparr>taskruns := update_where (\<lambda>r. tr_id r = i) (\<lambda>r. r\<lparr>tr_attempts := tr_attempts r + 1\<rparr>) (taskruns s)\<rparr>) \<and>
      tr_attempts r \<le> 1"
    using p(2) by simp
qed

context retry_manager
begin

lemma retry_keeps:
  assumes s: "retry_inv s" and add: "add_pending run task s = (Inr i, s1)" and c: "claim_id w ttl now i (snd (save_env i env s1)) = (r, s2)"
  shows "retry_inv s2 \<and> retry_inv (snd (increment i s2))"
proof -
  have i: "i = next_taskrun s" and s1: "s1 = snd (insert_taskrun run task ''pending'' 0 s)"
    using add_pending_ok [OF add] by (simp_all add: insert_taskrun_def)
  have "unattempted i s1" unfolding unattempted_def
  proof (intro conjI ballI impI)
    show "retry_inv s1" unfolding s1 by (rule retry_insert [OF s]) simp
    fix q assume "q \<in> set (taskruns s1)" "tr_id q = i"
    then show "tr_attempts q = 0" using s by (auto simp: s1 i insert_taskrun_def retry_inv_def)
  qed
  then have saved: "unattempted i (snd (save_env i env s1))" unfolding save_env_row snd_conv by (rule unattempted_rows) simp
  have "unattempted i s2"
    using claim_row_of [of w ttl now i "snd (save_env i env s1)"] unattempted_rows [OF saved] saved
    by (auto simp: c claim_row_def)
  then show ?thesis using unattempted_increment by (simp add: increment_row unattempted_def)
qed

end

interpretation retry_worker: worker_invariant m retry_inv for m
proof unfold_locales
  fix s run task i s1 worker ttl now env r s2
  assume retry: "retry_inv s" "db_AddPendingTaskRun m run task s = (Inr i, s1)"
    "db_ClaimTaskByID m worker ttl now i (snd (db_SaveRetryEnv m i env s1)) = (r, s2)"
  show "retry_inv s2 \<and> retry_inv (snd (db_IncrementAttempts m i s2))"
  proof (cases m)
    case (SqliteManager tz)
    show ?thesis using sqlite_retry.retry_keeps [OF retry(1)] retry(2,3) by (simp only: SqliteManager) simp
  next
    case PostgresManager
    show ?thesis using pg_retry.retry_keeps [OF retry(1)] retry(2,3) by (simp only: PostgresManager) simp
  qed
next
  fix s i d assume "retry_inv s"
  then show "retry_inv (snd (db_AddPodDuration m i d s))" by (cases m) (simp_all add: AddPodDuration_def pg_AddPodDuration_def)
qed (simp_all add: retry_add retry_MarkSuccess retry_MarkFailed retry_suspend retry_status retry_claims)

lemma retry_step:
  assumes "worker_step m W x y" "retry_inv (wd_db x)" "\<And>w. w \<in> W \<Longrightarrow> retry_worker.keeper m w"
  shows "retry_inv (wd_db y)"
  using assms
proof (induction rule: worker_step.cases)
  case (other s x')
  then show ?case by (auto simp: retry_inv_def)
qed (auto simp: retry_claims retry_add intro: retry_worker.inv_run_event [where m = m] retry_worker.inv_processClaim [where m = m]
    retry_worker.inv_poll [where m = m])

lemma retry_steps:
  assumes "(worker_step m W)\<^sup>*\<^sup>* x y" "retry_inv (wd_db x)" "\<And>w. w \<in> W \<Longrightarrow> retry_worker.keeper m w"
  shows "retry_inv (wd_db y)"
  using assms(1,2) by (induction rule: rtranclp_induct) (auto intro: retry_step [OF _ _ assms(3)])

lemma rerun_allowed:
  assumes "retry_inv s" and row: "taskrun_task i s = Some (r, t)" and t: "1 \<le> tk_backoffLimit t" "\<not> tk_isConditional t"
  shows "db_ShouldRerun m i code s = Inr True"
proof -
  have mem: "r \<in> set (taskruns s)" "tr_id r = i" "\<exists>k. (k, t) \<in> set (task_join s) \<and> dk_id k = tr_task_id r"
    using query_row_Some_in [OF row [unfolded taskrun_task_def]] by auto
  have a: "int (tr_attempts r) \<le> tk_backoffLimit t" using retry_invD [OF assms(1) mem(1)] t(1) by linarith
  show ?thesis
  proof (cases m)
    case (SqliteManager tz)
    then show ?thesis using row a t(2) by (simp add: ShouldRerun_def)
  next
    case PostgresManager
    then show ?thesis using mem a t(2) by (fastforce simp: pg_ShouldRerun_def)
  qed
qed

text \<open>
  (C36) The back-off limit never ends the retries: whatever the workers and controllers do from an empty table of task runs, with either
  manager, a failed task run of an unconditional task whose limit is at least 1 is to be run again. A retry is a new task run
  with one attempt, so attempts never accumulate and a task that always fails is retried for ever.
\<close>

theorem retries_never_exhaust:
  assumes "taskruns (wd_db x0) = []" "(worker_step m W)\<^sup>*\<^sup>* x0 x"
    and "\<And>w. w \<in> W \<Longrightarrow> wk_dbManager w = m" "\<And>w i s. w \<in> W \<Longrightarrow> retry_inv s \<Longrightarrow> retry_inv (wk_others w i s)"
    and "taskrun_task i (wd_db x) = Some (r, t)" "1 \<le> tk_backoffLimit t" "\<not> tk_isConditional t"
  shows "db_ShouldRerun m i code (wd_db x) = Inr True"
proof (rule rerun_allowed [OF _ assms(5-7)])
  have "retry_inv (wd_db x0)" using assms(1) by (simp add: retry_inv_def)
  then show "retry_inv (wd_db x)"
    by (rule retry_steps [OF assms(2)]) (simp add: retry_worker.keeper_def assms(3,4))
qed


section \<open>Success\<close>

lemma allocate_rows:
  assumes "\<exists>r \<in> set (runs (wd_db x)). rn_id r = row_id run" "t_Id ` set ts \<subseteq> dk_id ` set (dagtasks (wd_db x))"
  shows "\<exists>rows. taskruns (wd_db (allocateNextTasks w run ts x)) = taskruns (wd_db x) @ rows \<and>
    map (\<lambda>q. (tr_run_id q, tr_task_id q, tr_status q)) rows = map (\<lambda>t. (row_id run, t_Id t, ''pending'')) ts"
  using assms
proof (induction w run ts x rule: allocateNextTasks.induct)
  case (2 w run t ts x)
  let ?s = "snd (db_AddPendingTaskRun (wk_dbManager w) (row_id run) (t_Id t) (wd_db x))"
  have "t_Id t \<in> dk_id ` set (dagtasks (wd_db x))" using "2.prems"(2) by simp
  then have "\<exists>k \<in> set (dagtasks (wd_db x)). dk_id k = t_Id t" by auto
  then have "?s = snd (AddPendingTaskRun (row_id run) (t_Id t) (wd_db x))"
    using "2.prems"(1) by (cases "wk_dbManager w") (simp_all add: pg_AddPendingTaskRun_def pg_insert_taskrun_def AddPendingTaskRun_def)
  then obtain q where q: "taskruns ?s = taskruns (wd_db x) @ [q]" "tr_run_id q = row_id run" "tr_task_id q = t_Id t" "tr_status q = ''pending''"
    and same: "runs ?s = runs (wd_db x)" "dagtasks ?s = dagtasks (wd_db x)"
    by (simp add: AddPendingTaskRun_def insert_taskrun_def)
  obtain rows where "taskruns (wd_db (allocateNextTasks w run ts (x\<lparr>wd_db := ?s\<rparr>))) = taskruns ?s @ rows"
    "map (\<lambda>q. (tr_run_id q, tr_task_id q, tr_status q)) rows = map (\<lambda>t. (row_id run, t_Id t, ''pending'')) ts"
    using "2.IH" "2.prems" same by auto
  then show ?case using q by (intro exI [of _ "q # rows"]) simp
qed simp

lemma db_MarkSuccess:
  "find_taskrun i s = Some r \<Longrightarrow> db_MarkSuccessAndGetNextTasks m i s = MarkSuccessAndGetNextTasks i s"
  by (cases m) (simp_all add: pg_MarkSuccess_found)

lemma success_event_db:
  assumes "getDagRunID pod = Inr run" "fst (deletePod w pod False x) = Inr u"
    and "db_MarkSuccessAndGetNextTasks (wk_dbManager w) (row_id i) (wd_db x) = (Inr ts, s1)"
    and "ts \<noteq> [] \<Longrightarrow> \<exists>r \<in> set (runs s1). rn_id r = row_id run" "t_Id ` set ts \<subseteq> dk_id ` set (dagtasks s1)"
  shows "\<exists>rows. taskruns (wd_db (handleSuccessfulTaskRun w pod i x)) = taskruns s1 @ rows \<and>
    map (\<lambda>q. (tr_run_id q, tr_task_id q, tr_status q)) rows = map (\<lambda>t. (row_id run, t_Id t, ''pending'')) ts"
proof -
  obtain x1 where d: "deletePod w pod False x = (Inr u, x1)" using assms(2) by (metis prod.collapse)
  have db: "wd_db x1 = wd_db x" by (rule retry_worker.db_deletePod [OF d])
  let ?x = "sendSuccessWebhook w pod run i (x1\<lparr>wd_db := s1\<rparr>)"
  have x: "wd_db ?x = s1" by (simp add: sendSuccessWebhook_def retry_worker.db_notify)
  have eq: "wd_db (handleSuccessfulTaskRun w pod i x) = wd_db (processNextTasks w pod run ts ?x)"
    using assms d db by (simp add: handleSuccessfulTaskRun_def)
  show ?thesis
  proof (cases "ts = []")
    case True
    then show ?thesis by (simp add: eq processNextTasks_def retry_worker.db_completion x)
  next
    case False
    then show ?thesis using allocate_rows [of ?x run ts w] assms(4,5) by (simp add: eq processNextTasks_def x)
  qed
qed

text \<open>
  (C21) What a success event adds to the task runs, with either manager, exactly: when the pod of a successful task run has been deleted,
  nothing if the run is now complete, and otherwise one pending task run of the same run for each task that \<open>MarkSuccessAndGetNextTasks\<close> releases (its
  dependencies have as many successful task runs as there are dependencies, it has not started, and so on as in
  \<open>released\<close>). If no task has succeeded twice in the run, all the dependencies of a task so added have succeeded in it.
\<close>

theorem success_event_enqueues_released:
  assumes "getDagRunID pod = Inr (int (tr_run_id r))" "is_Inr (fst (deletePod w pod False x))"
    and "db_MarkSuccessAndGetNextTasks (wk_dbManager w) (row_id i) (wd_db x) = (Inr ts, s1)"
    and "find_taskrun (row_id i) (wd_db x) = Some r" "keys_ok (wd_db x)"
  shows "\<exists>rows. taskruns (wd_db (handleSuccessfulTaskRun w pod i x)) = taskruns s1 @ rows \<and>
    (\<forall>q \<in> set rows. tr_status q = ''pending'' \<and> tr_run_id q = tr_run_id r) \<and> distinct (map tr_task_id rows) \<and>
    (if run_complete (tr_run_id r) s1 then rows = []
     else \<exists>run. find_run (tr_run_id r) s1 = Some run \<and>
       tr_task_id ` set rows = {dk_id k | k t. (k, t) \<in> set (task_join s1) \<and> released (tr_run_id r) (rn_dag_id run) (row_id i) s1 (dk_id k)} \<and>
       (one_success (tr_run_id r) s1 \<longrightarrow> (\<forall>q \<in> set rows. ready (tr_run_id r) (rn_dag_id run) s1 (tr_task_id q))))"
proof -
  obtain u where u: "fst (deletePod w pod False x) = Inr u" using assms(2) by (auto simp: is_Inr_iff)
  have ms: "MarkSuccessAndGetNextTasks (row_id i) (wd_db x) = (Inr ts, s1)" using assms(3) by (simp add: db_MarkSuccess [OF assms(4)])
  have rid: "row_id (int (tr_run_id r)) = tr_run_id r" by (simp add: row_id_def)
  note event = success_event_db [OF assms(1) u assms(3), unfolded rid]
  show ?thesis
  proof (cases "run_complete (tr_run_id r) s1")
    case True
    with MarkSuccess_complete [OF ms assms(4)] have "ts = []" by simp
    with event True show ?thesis by auto
  next
    case False
    obtain run where run: "find_run (tr_run_id r) s1 = Some run" and d: "distinct (map t_Id ts)"
      and ids: "t_Id ` set ts = {dk_id k | k t. (k, t) \<in> set (task_join s1) \<and> released (tr_run_id r) (rn_dag_id run) (row_id i) s1 (dk_id k)}"
      by (rule MarkSuccess_released [OF ms assms(4) False assms(5)])
    have "\<exists>r' \<in> set (runs s1). rn_id r' = tr_run_id r" using run query_row_Some_in by (fastforce simp: find_run_def)
    moreover have "t_Id ` set ts \<subseteq> dk_id ` set (dagtasks s1)" unfolding ids by (auto simp: set_task_join)
    ultimately obtain rows where rows: "taskruns (wd_db (handleSuccessfulTaskRun w pod i x)) = taskruns s1 @ rows"
      and m: "map (\<lambda>q. (tr_run_id q, tr_task_id q, tr_status q)) rows = map (\<lambda>t. (tr_run_id r, t_Id t, ''pending'')) ts"
      using event by blast
    have t: "map tr_task_id rows = map t_Id ts" using arg_cong [OF m, of "map (\<lambda>(a, b, c). b)"] by (simp add: comp_def)
    have im: "tr_task_id ` set rows = t_Id ` set ts" using arg_cong [OF t, of set] by simp
    have "(tr_run_id q, tr_task_id q, tr_status q) \<in> set (map (\<lambda>t. (tr_run_id r, t_Id t, ''pending'')) ts)" if "q \<in> set rows" for q
      using that unfolding m [symmetric] by auto
    then have p: "\<forall>q \<in> set rows. tr_status q = ''pending'' \<and> tr_run_id q = tr_run_id r" by auto
    have "\<forall>q \<in> set rows. ready (tr_run_id r) (rn_dag_id run) s1 (tr_task_id q)" if o': "one_success (tr_run_id r) s1"
    proof
      fix q assume "q \<in> set rows"
      then have "tr_task_id q \<in> t_Id ` set ts" by (simp add: im [symmetric])
      then show "ready (tr_run_id r) (rn_dag_id run) s1 (tr_task_id q)" unfolding ids using released_ready [OF o'] by auto
    qed
    then show ?thesis using rows p d run False by (intro exI [of _ rows]) (simp add: t im ids)
  qed
qed

section \<open>Configuration errors\<close>

definition failed_counts :: "nat \<Rightarrow> db \<Rightarrow> nat list" where
  "failed_counts runId s = map rn_failedCount (filter (\<lambda>r. rn_id r = runId) (runs s))"

lemma failed_counts_update:
  assumes "\<And>r. rn_id (f r) = rn_id r"
  shows "failed_counts runId (s\<lparr>runs := update_where P f rs\<rparr>) =
    map (\<lambda>r. rn_failedCount (if P r then f r else r)) (filter (\<lambda>r. rn_id r = runId) rs)"
  using assms by (induction rs) (simp_all add: failed_counts_def)

lemma failed_counts_taskruns [simp]: "failed_counts runId (s\<lparr>taskruns := ts\<rparr>) = failed_counts runId s"
  "failed_counts runId (s\<lparr>pods := ps\<rparr>) = failed_counts runId s" "failed_counts runId (s\<lparr>next_taskrun := n\<rparr>) = failed_counts runId s"
  by (simp_all add: failed_counts_def)

lemma mem_update_where: "r \<in> set rows \<Longrightarrow> (if P r then f r else r) \<in> set (update_where P f rows)"
  by (simp add: update_where_def)

lemma insert_suspended_runs [simp]: "runs (insert_suspended run ts s) = runs s"
  by (induction run ts s rule: insert_suspended.induct) (simp_all add: insert_taskrun_def)

lemma set_status_runs [simp]: "runs (set_status i st s) = runs s"
  by (simp add: set_status_def)

lemma failed_counts_MarkFailed:
  assumes "r \<in> set (taskruns s)" "tr_id r = i" "tr_run_id r = runId"
  shows "failed_counts runId (snd (db_MarkTaskAsFailed m i s)) = map (\<lambda>n. n + 1) (failed_counts runId s)"
proof -
  let ?s1 = "set_status i ''failed'' s"
  let ?R = "set (map tr_run_id (filter (\<lambda>r. tr_id r = i) (taskruns ?s1)))"
  have "r\<lparr>tr_status := ''failed''\<rparr> \<in> set (taskruns ?s1)"
    using mem_update_where [OF assms(1), of "\<lambda>r. tr_id r = i" "\<lambda>r. r\<lparr>tr_status := ''failed''\<rparr>"] assms(2) by (simp add: set_status_def)
  then have "r\<lparr>tr_status := ''failed''\<rparr> \<in> set (filter (\<lambda>r. tr_id r = i) (taskruns ?s1))" using assms(2) by simp
  from imageI [OF this, of tr_run_id] have "tr_run_id (r\<lparr>tr_status := ''failed''\<rparr>) \<in> ?R" by (simp only: set_map)
  then have "runId \<in> ?R" using assms(3) by simp
  then have "map (\<lambda>q. rn_failedCount (if rn_id q \<in> ?R then q\<lparr>rn_failedCount := rn_failedCount q + 1, rn_status := ''failed''\<rparr> else q))
      (filter (\<lambda>q. rn_id q = runId) (runs s)) = map (\<lambda>n. n + 1) (failed_counts runId s)"
    by (simp add: failed_counts_def)
  then have "failed_counts runId (snd (MarkTaskAsFailed i s)) = map (\<lambda>n. n + 1) (failed_counts runId s)"
    unfolding MarkTaskAsFailed_def Let_def snd_conv by (subst failed_counts_update) simp_all
  then show ?thesis by (cases m) (simp_all add: pg_MarkTaskAsFailed_def)
qed

lemma failed_counts_status [simp]:
  "failed_counts runId (snd (db_MarkPodStatus m uid name i phase stamp code namespace s)) = failed_counts runId s"
  by (cases m) (simp_all add: MarkPodStatus_def pg_MarkPodStatus_def withTx_def)

lemma failed_counts_suspend [simp]:
  "failed_counts runId (snd (db_MarkConnectingTasksAsSuspended m run i s)) = failed_counts runId s"
proof -
  have "failed_counts runId ((insert_suspended run ts s)\<lparr>runs := update_where (\<lambda>r. rn_id r = run)
      (\<lambda>r. r\<lparr>rn_suspendedCount := rn_suspendedCount r + n\<rparr>) (runs (insert_suspended run ts s))\<rparr>) = failed_counts runId s" for ts n
  proof -
    have "rn_failedCount (if rn_id r = run then r\<lparr>rn_suspendedCount := rn_suspendedCount r + n\<rparr> else r) = rn_failedCount r" for r :: run_row
      by simp
    then show ?thesis by (subst failed_counts_update) (simp_all add: failed_counts_def)
  qed
  then show ?thesis
    by (cases m) (simp_all add: MarkConnectingTasksAsSuspended_def pg_MarkConnectingTasksAsSuspended_def withTx_def Let_def
        split: option.split sum.split)
qed

lemma taskrun_after_failed:
  assumes "r \<in> set (taskruns s)"
  shows "\<exists>q \<in> set (taskruns (snd (db_MarkPodStatus m uid name j phase stamp code namespace (snd (db_MarkTaskAsFailed m i s))))).
    tr_id q = tr_id r \<and> tr_run_id q = tr_run_id r"
proof -
  have "taskruns (snd (db_MarkPodStatus m uid name j phase stamp code namespace s)) = taskruns s" for s
    by (cases m) (simp_all add: MarkPodStatus_def pg_MarkPodStatus_def withTx_def)
  moreover have "taskruns (snd (db_MarkTaskAsFailed m i s)) = update_where (\<lambda>r. tr_id r = i) (\<lambda>r. r\<lparr>tr_status := ''failed''\<rparr>) (taskruns s)"
    by (cases m) (simp_all add: MarkTaskAsFailed_def pg_MarkTaskAsFailed_def set_status_def Let_def)
  ultimately show ?thesis using mem_update_where [OF assms, of "\<lambda>r. tr_id r = i" "\<lambda>r. r\<lparr>tr_status := ''failed''\<rparr>"]
    by (intro bexI [of _ "if tr_id r = i then r\<lparr>tr_status := ''failed''\<rparr> else r"]) simp_all
qed

lemma failed_counts_unretryable:
  assumes "r \<in> set (taskruns (wd_db x))" "tr_id r = row_id i"
  shows "failed_counts (tr_run_id r) (wd_db (handleUnretryablePod w pod i run x)) = map (\<lambda>n. n + 1) (failed_counts (tr_run_id r) (wd_db x))"
proof -
  let ?m = "wk_dbManager w" let ?s = "snd (db_MarkTaskAsFailed ?m (row_id i) (wd_db x))"
  obtain q s where q: "db_MarkConnectingTasksAsSuspended ?m (row_id run) (row_id i) ?s = (q, s)" by fastforce
  then have "wd_db (handleUnretryablePod w pod i run x) = s"
    by (simp add: handleUnretryablePod_def Let_def retry_worker.db_frames split: sum.split)
  moreover have "failed_counts (tr_run_id r) s = failed_counts (tr_run_id r) ?s"
    using failed_counts_suspend [of "tr_run_id r" ?m "row_id run" "row_id i" ?s] by (simp only: q snd_conv)
  ultimately show ?thesis using failed_counts_MarkFailed [OF assms refl] by simp
qed

lemma failed_counts_configError:
  assumes r: "r \<in> set (taskruns (wd_db x))" "tr_id r = row_id i"
  shows "failed_counts (tr_run_id r) (wd_db (handleConfigError w pod i run x)) = map (\<lambda>n. n + 2) (failed_counts (tr_run_id r) (wd_db x))"
proof -
  let ?m = "wk_dbManager w"
  let ?s1 = "snd (db_MarkTaskAsFailed ?m (row_id i) (wd_db x))"
  let ?s2 = "snd (db_MarkPodStatus ?m (pod_UID pod) (pod_Name pod) (row_id i) ''Failed'' (wk_now w) None (pod_Namespace pod) ?s1)"
  obtain e x1 where d: "deletePod w pod True (x\<lparr>wd_db := ?s2\<rparr>) = (e, x1)" by fastforce
  let ?x2 = "notify_task w (container_name pod) ''failed'' run i x1"
  have db: "wd_db ?x2 = ?s2" using retry_worker.db_deletePod [OF d] by (simp add: retry_worker.db_notify)
  obtain q where q: "q \<in> set (taskruns ?s2)" "tr_id q = row_id i" "tr_run_id q = tr_run_id r"
    using taskrun_after_failed [OF r(1)] r(2) by metis
  have "handleConfigError w pod i run x = handleUnretryablePod w pod i run ?x2"
    using d by (simp add: handleConfigError_def Let_def)
  then have "failed_counts (tr_run_id r) (wd_db (handleConfigError w pod i run x)) = map (\<lambda>n. n + 1) (failed_counts (tr_run_id r) ?s2)"
    using failed_counts_unretryable [of q ?x2 i w pod run] q db by simp
  also have "\<dots> = map (\<lambda>n. n + 2) (failed_counts (tr_run_id r) (wd_db x))"
    by (simp add: failed_counts_MarkFailed [OF r refl])
  finally show ?thesis .
qed

text \<open>
  A configuration error counts as two failures: \<open>handleConfigError\<close> marks the task run as failed and then hands it to
  \<open>handleUnretryablePod\<close>, which marks it again, so an event of a pending pod that cannot start adds 2 to the failed tasks of the run.
\<close>

theorem config_error_counted_twice:
  assumes "pod_Phase pod = ''Pending''" "hasConfigError pod" "getTaskRunID pod = Inr i" "getDagRunID pod = Inr run"
    and "r \<in> set (taskruns (wd_db x))" "tr_id r = row_id i"
  shows "failed_counts (tr_run_id r) (wd_db (handleOutcome w pod t x)) = map (\<lambda>n. n + 2) (failed_counts (tr_run_id r) (wd_db x))"
proof -
  let ?x = "handleLogCollection w pod x"
  have db: "wd_db ?x = wd_db x" by (simp add: handleLogCollection_def)
  have "handleOutcome w pod t x = handleConfigError w pod i run ?x"
    using assms(1-4) by (simp add: handleOutcome_def handlePendingTaskRun_def)
  then show ?thesis using failed_counts_configError [of r ?x] assms(5,6) by (simp add: db)
qed


section \<open>Pods and their identifiers\<close>

lemma Atoi_id: "n < 2 ^ 63 \<Longrightarrow> Atoi (Itoa (int n)) = Inr (int n)"
  by (rule Atoi_Itoa) (auto simp: of_nat_less_iff [of n "2 ^ 63", symmetric] simp del: of_nat_less_iff)

text \<open>
  The events of a pod find their way back: whatever pool object a pod is made from and whatever name it gets, the identifiers that a worker reads from its
  annotations are those of the task run, the DAG run and the task it was allocated for, as long as they fit a Go \<open>int\<close>.
\<close>

theorem pod_identifies_its_task:
  assumes "taskRunId < 2 ^ 63" "dagRunId < 2 ^ 63" "taskId < 2 ^ 63"
  shows "getTaskRunID ((prepare_pod allocatorId taskId (int dagRunId) (int taskRunId) claimedBy spec p)\<lparr>pod_Name := n\<rparr>) = Inr (int taskRunId) \<and>
    getDagRunID ((prepare_pod allocatorId taskId (int dagRunId) (int taskRunId) claimedBy spec p)\<lparr>pod_Name := n\<rparr>) = Inr (int dagRunId) \<and>
    getTaskIdFromPod ((prepare_pod allocatorId taskId (int dagRunId) (int taskRunId) claimedBy spec p)\<lparr>pod_Name := n\<rparr>) = Inr (int taskId)"
  using assms by (simp add: getTaskRunID_def getDagRunID_def getTaskIdFromPod_def prepare_pod_def Let_def Atoi_id)

theorem pod_identifies_its_task_witness:
  "getTaskRunID ((prepare_pod ''id'' 3 (int 1) (int 42) ''w'' empty_PodSpec ex_used_pod)\<lparr>pod_Name := ''a-b-c''\<rparr>) = Inr 42"
  using pod_identifies_its_task [where taskRunId = 42 and dagRunId = 1 and taskId = 3 and claimedBy = "''w''" and p = ex_used_pod] by simp

section \<open>Durations\<close>

lemma whole_seconds_bound: "whole_seconds (time_sub t u) \<le> 9223372036"
proof -
  have "time_sub t u \<le> 2 ^ 63 - 1" by (simp add: time_sub_def)
  then have "0 \<le> time_sub t u \<Longrightarrow> time_sub t u div 10 ^ 9 \<le> (2 ^ 63 - 1) div 10 ^ 9" by (intro zdiv_mono1) simp_all
  moreover have "- ((- d) div 10 ^ 9) \<le> 9223372036" if "\<not> 0 \<le> d" for d :: int
    using pos_imp_zdiv_nonneg_iff [of "10 ^ 9" "- d"] that by simp
  ultimately show ?thesis by (simp add: whole_seconds_def)
qed

lemma seconds_between:
  "(if whole_seconds (time_sub f b) < 0 then 0 else whole_seconds (time_sub f b)) =
   (if f < b then 0 else if f - b < 2 ^ 63 then (f - b) div 10 ^ 9 else 9223372036)"
proof (cases "f < b")
  case True
  then have "time_sub f b < 0" by (simp add: time_sub_def)
  moreover from this have "0 \<le> (- time_sub f b) div 10 ^ 9" by (intro pos_imp_zdiv_nonneg_iff [THEN iffD2]) simp_all
  ultimately show ?thesis using True by (simp add: whole_seconds_def)
next
  case False
  then have "time_sub f b = (if f - b < 2 ^ 63 then f - b else 2 ^ 63 - 1)" by (simp add: time_sub_def)
  moreover have "0 \<le> (f - b) div 10 ^ 9" using False by (intro pos_imp_zdiv_nonneg_iff [THEN iffD2]) simp_all
  ultimately show ?thesis using False by (simp add: whole_seconds_def)
qed

text \<open>
  What is recorded of a finished container is sane: the duration is never negative, and at most the seconds of a 64-bit duration,
  whatever the clocks say; an exit code is recorded exactly for terminated containers and failed pods; and with both times present and
  in order the duration is the whole seconds between them.
\<close>

theorem duration_and_exit_sane:
  assumes "computePodDurationAndExit now pod stamp = (d, t, e)"
  shows "0 \<le> d \<and> d \<le> 9223372036 \<and> (e = None) = (first_terminated pod = None \<and> pod_Phase pod \<noteq> ''Failed'') \<and>
    (\<forall>z b f. first_terminated pod = Some z \<longrightarrow> te_StartedAt z = Some b \<longrightarrow> te_FinishedAt z = Some f \<longrightarrow>
       e = Some (te_ExitCode z) \<and> t = Some f \<and> d = (if f < b then 0 else if f - b < 2 ^ 63 then (f - b) div 10 ^ 9 else 9223372036))"
proof (cases "first_terminated pod")
  case (Some z)
  have d: "0 \<le> d" "d \<le> 9223372036" "e = Some (te_ExitCode z)"
    using assms by (auto simp: computePodDurationAndExit_def Some Let_def whole_seconds_bound split: option.splits if_splits)
  moreover have "t = Some f \<and> d = (if f < b then 0 else if f - b < 2 ^ 63 then (f - b) div 10 ^ 9 else 9223372036)"
    if "te_StartedAt z = Some b" "te_FinishedAt z = Some f" for b f
    using assms seconds_between [of f b] by (simp add: computePodDurationAndExit_def Some that Let_def)
  ultimately show ?thesis using Some by simp
qed (use assms in \<open>auto simp: computePodDurationAndExit_def\<close>)

section \<open>Polling\<close>

lemma filter_ids_le:
  assumes "distinct (map c rows)"
  shows "length (filter (\<lambda>r. c r \<in> c ` set cs \<and> P r) rows) \<le> length cs"
proof -
  let ?f = "filter (\<lambda>r. c r \<in> c ` set cs \<and> P r) rows"
  have "length ?f = card (set (map c ?f))" using distinct_card [OF distinct_map_filter [OF assms]] by simp
  also have "\<dots> \<le> card (c ` set cs)" by (rule card_mono) auto
  also have "\<dots> \<le> length cs" by (metis card_length list.set_map length_map)
  finally show ?thesis .
qed

lemma claims_le: "run_keys s \<Longrightarrow> length (fst (db_ClaimTasks m locked limit worker ttl now s)) \<le> limit"
proof (cases m)
  case PostgresManager
  assume "run_keys s"
  then have "distinct (map tr_id (taskruns s))" by (simp add: run_keys_def)
  from filter_ids_le [OF this] show ?thesis unfolding PostgresManager
    by (simp add: pg_ClaimTasks_def Let_def)
      (rule le_trans, assumption, simp)
qed (simp add: ClaimTasks_def Let_def)

text \<open>
  Polling is bounded: with unique keys, a tick takes at most five claims, and never so many that more than fifty are in flight; with
  fifty or more in flight it takes none and leaves the database alone.
\<close>

theorem poll_bounded:
  assumes "run_keys (wd_db x)" "0 \<le> inFlight"
  shows "\<exists>cs. wd_claims (poll_tick w locked inFlight x) = wd_claims x @ cs \<and> length cs \<le> 5 \<and>
    (if inFlight < 50 then inFlight + int (length cs) \<le> 50 else cs = [] \<and> poll_tick w locked inFlight x = x)"
proof (cases "inFlight < 50")
  case True
  let ?cs = "fst (db_ClaimTasks (wk_dbManager w) locked (claim_limit (50 - inFlight)) (wk_worker_id w) defaultLeaseTTL (wk_now w) (wd_db x))"
  have "length ?cs \<le> claim_limit (50 - inFlight)" by (rule claims_le [OF assms(1)])
  then have "length ?cs \<le> 5" "inFlight + int (length ?cs) \<le> 50" using True by (auto simp: claim_limit_def split: if_splits)
  moreover have "wd_claims (poll_tick w locked inFlight x) = wd_claims x @ ?cs"
    using True by (simp add: poll_tick_def Let_def case_prod_beta)
  ultimately show ?thesis using True by auto
qed (simp add: poll_tick_def)

section \<open>Retry environments\<close>

text \<open>
  A retry does not restore secrets: the environment saved for a retry holds only names and values, so if the JSON encoding is read
  back faithfully the retried pod is allocated with every variable of the failed pod, those taken from secrets being empty strings.
\<close>

theorem retry_env_drops_secrets:
  assumes "wk_unmarshal w (wk_marshal w (map (\<lambda>e. (e_Name e, e_Value e)) env)) =
      Some (map (\<lambda>(n, v). \<lparr>e_Name = n, e_Value = v, e_SecretKeyRef = None\<rparr>) (map (\<lambda>e. (e_Name e, e_Value e)) env))"
    and "wk_marshal w (map (\<lambda>e. (e_Name e, e_Value e)) env) \<noteq> ''''"
  shows "allocate_claim w c task namespace (wk_marshal w (map (\<lambda>e. (e_Name e, e_Value e)) env)) k =
    AllocateTaskWithEnv (wk_quantity w) (wk_affinity w) (wk_quote w) (wk_clientSet w) (wk_names w) (wk_allocatorId w) task
      (int (cl_RunID c)) (int (cl_TaskRunID c)) namespace (map (\<lambda>e. e\<lparr>e_SecretKeyRef := None\<rparr>) env) None (wk_worker_id w) (wk_pooled w) k"
proof -
  have "\<lparr>e_Name = e_Name e, e_Value = e_Value e, e_SecretKeyRef = None\<rparr> = e\<lparr>e_SecretKeyRef := None\<rparr>" for e :: EnvVar
    by (cases e) simp
  then have "map (\<lambda>(n, v). \<lparr>e_Name = n, e_Value = v, e_SecretKeyRef = None\<rparr>) (map (\<lambda>e. (e_Name e, e_Value e)) env) =
      map (\<lambda>e. e\<lparr>e_SecretKeyRef := None\<rparr>) env" by simp
  note envs = assms(1) [unfolded this]
  show ?thesis unfolding allocate_claim_def Let_def envs using assms(2) by (simp only: if_False option.case)
qed


section \<open>Examples\<close>

text \<open>A JSON-like encoding of names and values for the examples: it is only read back for the one environment used there.\<close>

definition ex_env :: "EnvVar list" where
  "ex_env = [\<lparr>e_Name = ''TOKEN'', e_Value = '''', e_SecretKeyRef = Some (''store'', ''secret'')\<rparr>]"

definition ex_worker :: "db_manager \<Rightarrow> cluster worker" where
  "ex_worker m = \<lparr>wk_dbManager = m, wk_clientSet = ex_kube, wk_worker_id = ''w'', wk_quantity = Some, wk_affinity = (\<lambda>_. ''''),
     wk_quote = (\<lambda>s. s), wk_names = (\<lambda>i. ''pod-'' @ FormatUint i), wk_allocatorId = ''id'', wk_pooled = new_pool_pod,
     wk_marshal = (\<lambda>ps. CHR ''['' # concat (map fst ps)), wk_unmarshal = (\<lambda>s. Some [\<lparr>e_Name = tl s, e_Value = '''', e_SecretKeyRef = None\<rparr>]),
     wk_now = 100, wk_logStore = False, wk_others = (\<lambda>_ s. s)\<rparr>"

definition ex_event_pod :: "string \<Rightarrow> ContainerState list \<Rightarrow> Pod" where
  "ex_event_pod phase states =
     (prepare_pod ''id'' 2 1 2 ''w'' (createPodSpec Some (\<lambda>_. '''') (\<lambda>s. s) ex_task [] None) new_pool_pod)
       \<lparr>pod_Name := ''b-pod'', pod_Namespace := ''ns'', pod_UID := ''u2'', pod_Phase := phase, pod_ContainerStatuses := states\<rparr>"

definition ex_world :: "db \<Rightarrow> Pod list \<Rightarrow> cluster world" where
  "ex_world s ps = \<lparr>wd_db = s, wd_kube = (ps, []), wd_sent = [], wd_claims = [], wd_logs = []\<rparr>"

lemma ex_event_pod_ids: "getTaskRunID (ex_event_pod phase states) = Inr 2" "getDagRunID (ex_event_pod phase states) = Inr 1"
proof -
  have "Atoi (Itoa 2) = Inr 2" "Atoi (Itoa 1) = Inr 1" by (rule Atoi_Itoa; simp)+
  then show "getTaskRunID (ex_event_pod phase states) = Inr 2" "getDagRunID (ex_event_pod phase states) = Inr 1"
    by (simp_all add: getTaskRunID_def getDagRunID_def ex_event_pod_def prepare_pod_def Let_def)
qed

theorem retries_never_exhaust_witness:
  "db_ShouldRerun PostgresManager 4 7 (snd (pg_AddPendingTaskRun 1 1 (ex_run_db\<lparr>taskruns := []\<rparr>))) = Inr True"
proof -
  let ?x = "ex_world (ex_run_db\<lparr>taskruns := []\<rparr>) []"
  let ?y = "?x\<lparr>wd_db := snd (db_AddPendingTaskRun PostgresManager 1 1 (wd_db ?x))\<rparr>"
  have step: "(worker_step PostgresManager {ex_worker PostgresManager})\<^sup>*\<^sup>* ?x ?y"
    by (rule r_into_rtranclp) (rule worker_step.start)
  have "\<exists>r. taskrun_task 4 (wd_db ?y) = Some (r, ex_task_row)"
    by (simp add: ex_world_def pg_AddPendingTaskRun_def pg_insert_taskrun_def insert_taskrun_def taskrun_task_def task_join_def ex_run_defs)
  then obtain r where r: "taskrun_task 4 (wd_db ?y) = Some (r, ex_task_row)" by blast
  have "db_ShouldRerun PostgresManager 4 7 (wd_db ?y) = Inr True"
    by (rule retries_never_exhaust [OF _ step _ _ r]) (simp_all add: ex_world_def ex_worker_def ex_task_row_def)
  then show ?thesis by (simp only: ex_world_def world.simps db_AddPendingTaskRun.simps)
qed

theorem success_event_enqueues_released_witness:
  "\<exists>s1 rows. snd (MarkSuccessAndGetNextTasks 2 ex_run_db) = s1 \<and>
     taskruns (wd_db (handleSuccessfulTaskRun (ex_worker PostgresManager) (ex_event_pod ''Succeeded'' []) 2
       (ex_world ex_run_db [ex_event_pod ''Succeeded'' []]))) = taskruns s1 @ rows \<and>
     tr_task_id ` set rows = {3} \<and> (\<forall>q \<in> set rows. tr_status q = ''pending'' \<and> ready 1 1 s1 (tr_task_id q))"
proof -
  let ?pod = "ex_event_pod ''Succeeded'' []" let ?w = "ex_worker PostgresManager" let ?x = "ex_world ex_run_db [?pod]"
  define s1 where "s1 = snd (MarkSuccessAndGetNextTasks 2 ex_run_db)"
  obtain ts where ts: "MarkSuccessAndGetNextTasks 2 ex_run_db = (Inr ts, s1)"
    unfolding s1_def by (simp add: mark_success_defs ex_run_defs)
  have r: "find_taskrun 2 ex_run_db = Some (ex_taskrun 2 ''running'')" "tr_run_id (ex_taskrun 2 ''running'') = 1"
    by (simp_all add: find_taskrun_def ex_run_defs)
  have s1: "\<not> run_complete 1 s1" "one_success 1 s1" "find_run 1 s1 = Some (ex_run_row\<lparr>rn_successfulCount := 2\<rparr>)"
    by (simp_all add: s1_def mark_success_defs ex_run_defs one_success_def success_runs_def)
  have tj: "task_join s1 = [(ex_dagtask 1 ''a'', ex_task_row), (ex_dagtask 2 ''b'', ex_task_row), (ex_dagtask 3 ''c'', ex_task_row)]"
    by (simp add: s1_def mark_success_defs ex_run_defs)
  have dr: "dep_rows_of t s1 = (if t = 3 then [\<lparr>dp_task_id = 3, dp_depends_on = 1\<rparr>] else [])" for t
    by (simp add: s1_def dep_rows_of_def mark_success_defs ex_run_defs)
  have r3: "released 1 1 2 s1 3"
    unfolding released_def met_count_def dr by (simp add: s1_def in_dag_def success_runs_def has_started_def mark_success_defs ex_run_defs)
  have "{dk_id k | k t. (k, t) \<in> set xs \<and> P (dk_id k)} = {d \<in> set (map (dk_id \<circ> fst) xs). P d}" for xs :: "(dagtask_row \<times> task_row) list" and P
    by force
  from this [of "task_join s1" "released 1 1 2 s1"]
  have "{dk_id k | k t. (k, t) \<in> set (task_join s1) \<and> released 1 1 2 s1 (dk_id k)} = {d \<in> {1, 2, 3}. released 1 1 2 s1 d}"
    by (simp add: tj ex_dagtask_def)
  also have "\<dots> = {3}"
  proof -
    have "\<not> released 1 1 2 s1 d" if "d \<noteq> 3" for d using that by (simp add: released_def dr)
    then show ?thesis using r3 by blast
  qed
  finally have rel: "{dk_id k | k t. (k, t) \<in> set (task_join s1) \<and> released 1 1 2 s1 (dk_id k)} = {3}" .
  have del: "is_Inr (fst (deletePod ?w ?pod False ?x))"
    by (simp add: deletePod_def ex_worker_def ex_world_def ex_kube_def find_pod_def ex_event_pod_def prepare_pod_def Let_def)
  have w: "wk_dbManager ?w = PostgresManager" "wd_db ?x = ex_run_db" "row_id 2 = 2" "rn_dag_id ex_run_row = 1"
    by (simp_all add: ex_worker_def ex_world_def row_id_def ex_run_row_def)
  have ms: "db_MarkSuccessAndGetNextTasks (wk_dbManager ?w) (row_id 2) (wd_db ?x) = (Inr ts, s1)"
    using ts r(1) by (simp add: w pg_MarkSuccess_found)
  have k: "getDagRunID ?pod = Inr (int (tr_run_id (ex_taskrun 2 ''running'')))" "find_taskrun (row_id 2) (wd_db ?x) = Some (ex_taskrun 2 ''running'')"
    "keys_ok (wd_db ?x)" using ex_event_pod_ids(2) [of "''Succeeded''" "[]"] r ex_run_ok by (simp_all add: w)
  obtain rows where rows: "taskruns (wd_db (handleSuccessfulTaskRun ?w ?pod 2 ?x)) = taskruns s1 @ rows"
    "\<forall>q \<in> set rows. tr_status q = ''pending'' \<and> tr_run_id q = 1" "tr_task_id ` set rows = {3}"
    "\<forall>q \<in> set rows. ready 1 1 s1 (tr_task_id q)"
    using success_event_enqueues_released [OF k(1) del ms k(2,3)] unfolding r(2) w(3) using s1 rel w(4) by (simp only: if_False) auto
  then show ?thesis using s1_def by blast
qed

theorem config_error_counted_twice_witness:
  "failed_counts 1 (wd_db (handleOutcome (ex_worker PostgresManager)
     (ex_event_pod ''Pending'' [\<lparr>cs_Waiting = Some ''ImagePullBackOff'', cs_Running = False, cs_Terminated = None\<rparr>]) None
     (ex_world ex_run_db []))) = [2]"
proof -
  let ?pod = "ex_event_pod ''Pending'' [\<lparr>cs_Waiting = Some ''ImagePullBackOff'', cs_Running = False, cs_Terminated = None\<rparr>]"
  have pod: "pod_Phase ?pod = ''Pending''" "hasConfigError ?pod"
    by (simp_all add: ex_event_pod_def hasConfigError_def isContainerError_def)
  have r: "ex_taskrun 2 ''running'' \<in> set (taskruns (wd_db (ex_world ex_run_db [])))" "tr_id (ex_taskrun 2 ''running'') = row_id 2"
    by (simp_all add: ex_world_def ex_run_db_def ex_taskrun_def row_id_def)
  have "tr_run_id (ex_taskrun 2 ''running'') = 1" "failed_counts 1 (wd_db (ex_world ex_run_db [])) = [0]"
    by (simp_all add: ex_world_def failed_counts_def ex_run_defs)
  then show ?thesis
    using config_error_counted_twice [OF pod ex_event_pod_ids r, of "ex_worker PostgresManager" None] by simp
qed

theorem duration_and_exit_sane_witness:
  "\<exists>d t e. computePodDurationAndExit 0 (ex_event_pod ''Failed''
     [\<lparr>cs_Waiting = None, cs_Running = False, cs_Terminated = Some \<lparr>te_ExitCode = 3, te_StartedAt = Some 5, te_FinishedAt = Some 7000000004\<rparr>\<rparr>]) None = (d, t, e) \<and>
     d = 6 \<and> e = Some 3"
proof -
  let ?z = "\<lparr>te_ExitCode = 3, te_StartedAt = Some 5, te_FinishedAt = Some 7000000004\<rparr>"
  let ?pod = "ex_event_pod ''Failed'' [\<lparr>cs_Waiting = None, cs_Running = False, cs_Terminated = Some ?z\<rparr>]"
  obtain d t e where c: "computePodDurationAndExit 0 ?pod None = (d, t, e)" by (cases "computePodDurationAndExit 0 ?pod None")
  have "first_terminated ?pod = Some ?z" by (simp add: first_terminated_def ex_event_pod_def)
  then have "d = 6 \<and> e = Some 3" using duration_and_exit_sane [OF c] by simp
  then show ?thesis using c by blast
qed

theorem poll_bounded_witness:
  "\<exists>cs. wd_claims (poll_tick (ex_worker PostgresManager) {} 48 (ex_world ex_run_db [])) = cs \<and> 48 + int (length cs) \<le> 50"
proof -
  have "run_keys (wd_db (ex_world ex_run_db []))" using ex_run_ok by (simp add: ex_world_def keys_ok_def)
  from poll_bounded [OF this, of 48 "ex_worker PostgresManager" "{}"] show ?thesis by (simp add: ex_world_def)
qed

theorem retry_env_drops_secrets_witness:
  "allocate_claim (ex_worker PostgresManager) \<lparr>cl_TaskRunID = 5, cl_TaskID = 3, cl_RunID = 1\<rparr> ex_task ''ns'' ''[TOKEN'' ([], []) =
   AllocateTaskWithEnv Some (\<lambda>_. '''') (\<lambda>s. s) ex_kube (\<lambda>i. ''pod-'' @ FormatUint i) ''id'' ex_task 1 5 ''ns''
     [\<lparr>e_Name = ''TOKEN'', e_Value = '''', e_SecretKeyRef = None\<rparr>] None ''w'' new_pool_pod ([], [])"
  using retry_env_drops_secrets [of "ex_worker PostgresManager" ex_env "\<lparr>cl_TaskRunID = 5, cl_TaskID = 3, cl_RunID = 1\<rparr>" ex_task "''ns''" "([], [])"]
  by (simp add: ex_worker_def ex_env_def)


section \<open>Referential integrity\<close>

lemma pg_reachable_suspend: "pg_reachable s \<Longrightarrow> pg_reachable (snd (db_MarkConnectingTasksAsSuspended PostgresManager run i s))"
  by (auto split: option.split intro: pg_reachable.connected simp flip: prod.collapse)

interpretation reachable_worker: worker_invariant PostgresManager pg_reachable
proof unfold_locales
  fix s run task i s1 worker ttl now env r s2
  assume s: "pg_reachable s" and add: "db_AddPendingTaskRun PostgresManager run task s = (Inr i, s1)"
    and c: "db_ClaimTaskByID PostgresManager worker ttl now i (snd (db_SaveRetryEnv PostgresManager i env s1)) = (r, s2)"
  have "pg_reachable s1" using pg_reachable.pending [OF s] add by (metis db_AddPendingTaskRun.simps(2) snd_conv)
  then have "pg_reachable (snd (pg_ClaimTaskByID worker ttl now i (snd (pg_SaveRetryEnv i env s1))))"
    by (intro pg_reachable.claim_one pg_reachable.retry_env)
  then have "pg_reachable s2" using c by simp
  then show "pg_reachable s2 \<and> pg_reachable (snd (db_IncrementAttempts PostgresManager i s2))" by (simp add: pg_reachable.attempts)
qed (simp_all add: pg_reachable_suspend [simplified] pg_reachable.pending pg_reachable.success pg_reachable.failed pg_reachable.pod_status
    pg_reachable.pod_duration pg_reachable.claim pg_reachable.finalize)

text \<open>
  The workers keep the references of the database: a Postgres worker that starts from a database reached by operations of the
  manager leaves, after any pod event, claim or poll, and while others work on it between the attempts of a status write, a
  database without dangling references.
\<close>

theorem worker_keeps_references:
  assumes "wk_dbManager w = PostgresManager" "\<And>i s. pg_reachable s \<Longrightarrow> pg_reachable (wk_others w i s)" "pg_reachable (wd_db x)"
  shows "pg_fk (wd_db (run_event w event pod t x)) \<and> pg_fk (wd_db (processClaim w c x)) \<and> pg_fk (wd_db (poll_tick w locked inFlight x))"
proof -
  have w: "reachable_worker.keeper w" using assms(1,2) by (simp add: reachable_worker.keeper_def)
  show ?thesis using reachable_worker.inv_run_event [OF w assms(3)] reachable_worker.inv_processClaim [OF w assms(3)]
      reachable_worker.inv_poll [OF w assms(3)] by (intro conjI pg_reachable_fk)
qed

theorem worker_keeps_references_witness:
  "pg_fk (wd_db (run_event (ex_worker PostgresManager) ''add'' (ex_event_pod ''Failed'' []) (Some 7) (ex_world empty_db [])))"
  by (rule conjunct1 [OF worker_keeps_references]) (simp_all add: ex_worker_def ex_world_def pg_reachable.initial)

end
