(* ===== verification/Controller_Safety.thy ===== *)
theory Controller_Safety
  imports Controllers Worker_Safety
begin

text \<open>
  Properties of the reconcilers, most of them across components: what they store is what validation accepted, starting a run twice is harmless,
  active pods survive the orphan scan, and two places where a value or a finalizer is lost on the way.
\<close>

section \<open>Stored DAGs\<close>

lemma markDAG_db: "fst (snd (markDAG rc namespace dag status s k)) = s"
  by (simp add: markDAG_def split: prod.split sum.split)

lemmas mark_db = markDAG_db markDAGFailed_def markDAGSuccessful_def

lemma validated:
  assumes "\<And>e. ValidateDAG start spec refParams \<noteq> Some (Some e)"
  shows "acyclic (dep_rel (ds_Task spec))" "checkRunAfterTasksExist (ds_Task spec) = None"
proof -
  have step: "c \<noteq> Some (Some e) \<and> (c = Some None \<longrightarrow> d \<noteq> Some (Some e))" if "or_fuel c d \<noteq> Some (Some e)" for c d e
    using that by (cases "(c, d)" rule: or_fuel.cases) auto
  have fields: "checkFieldsFilled (ds_Task spec) = None"
    using step [OF assms [unfolded ValidateDAG_def]] by (cases "checkFieldsFilled (ds_Task spec)") auto
  have params: "checkParameters spec refParams = None"
    using assms unfolding ValidateDAG_def fields by (cases "checkParameters spec refParams") auto
  show ac: "acyclic (dep_rel (ds_Task spec))"
    using assms unfolding ValidateDAG_def fields params checkNoCycles_eq by (cases "acyclic (dep_rel (ds_Task spec))") auto
  show "checkRunAfterTasksExist (ds_Task spec) = None"
    using assms ac unfolding ValidateDAG_def fields params checkNoCycles_eq
    by (cases "checkRunAfterTasksExist (ds_Task spec)") auto
qed

lemma store_dag_cases:
  assumes "store_dag rc namespace dag s k = (r, s', k')"
  obtains "s' = s"
  | e where "db_InsertDAG (rc_dbManager rc) (rc_digest rc) (rc_uuid rc) (rc_cron rc) (rc_now rc) dag namespace s = (Inl e, s')"
  | refParams where "\<And>e. ValidateDAG (rc_startNode rc) (dag_Spec dag) refParams \<noteq> Some (Some e)"
      "db_InsertDAG (rc_dbManager rc) (rc_digest rc) (rc_uuid rc) (rc_cron rc) (rc_now rc) dag namespace s = (Inr (), s')"
proof -
  have mark: "markDAG rc namespace dag st t k1 = (r, s', k') \<Longrightarrow> s' = t" for st t k1
    using markDAG_db [of rc namespace dag st t k1] by simp
  show thesis
  proof (cases "collect_refs (ds_Task (dag_Spec dag))")
    case None
    then show thesis using assms mark that(1) by (auto simp: store_dag_def markDAGFailed_def)
  next
    case refs: (Some refs)
    show thesis
    proof (cases "db_GetTaskRefsParameters (rc_dbManager rc) refs s")
      case (Inl e)
      then show thesis using assms refs mark that(1) by (auto simp: store_dag_def markDAGFailed_def)
    next
      case params: (Inr refParams)
      let ?ins = "db_InsertDAG (rc_dbManager rc) (rc_digest rc) (rc_uuid rc) (rc_cron rc) (rc_now rc) dag namespace s"
      obtain q t where ins: "?ins = (q, t)" by fastforce
      show thesis
      proof (cases "\<exists>e. ValidateDAG (rc_startNode rc) (dag_Spec dag) refParams = Some (Some e)")
        case True
        then show thesis using assms refs params mark that(1) by (auto simp: store_dag_def markDAGFailed_def)
      next
        case False
        then have ok: "\<And>e. ValidateDAG (rc_startNode rc) (dag_Spec dag) refParams \<noteq> Some (Some e)" by blast
        have "s' = t" using assms refs params ins ok mark
          by (auto simp: store_dag_def markDAGFailed_def markDAGSuccessful_def split: option.splits sum.splits if_splits)
        then show thesis using ins ok that(2,3) by (cases q) auto
      qed
    qed
  qed
qed

lemma InsertDAG_error_same: "InsertDAG digest uuid cron now dag namespace s = (Inl e, s') \<Longrightarrow> s' = s"
  unfolding InsertDAG_def using withTx_error by (metis fst_conv snd_conv)

lemma store_dag_graph:
  assumes "rc_dbManager rc = SqliteManager tz" "keys_ok s" "refs_ok s" "store_dag rc namespace dag s k = (r, s', k')" "next_dag s' \<noteq> next_dag s"
  shows "acyclic (named_deps (next_dag s) s') \<and> Range (named_deps (next_dag s) s') \<subseteq> set (map dk_name (dag_tasks_of (next_dag s) s'))"
proof (rule store_dag_cases [OF assms(4)])
  fix refParams
  assume v: "\<And>e. ValidateDAG (rc_startNode rc) (dag_Spec dag) refParams \<noteq> Some (Some e)"
    and i: "db_InsertDAG (rc_dbManager rc) (rc_digest rc) (rc_uuid rc) (rc_cron rc) (rc_now rc) dag namespace s = (Inr (), s')"
  have "named_deps (next_dag s) s' = dep_rel (ds_Task (dag_Spec dag)) \<and>
      map dk_name (dag_tasks_of (next_dag s) s') = map ts_Name (ds_Task (dag_Spec dag))"
    using InsertDAG_graph [OF assms(2,3) _ assms(5)] i assms(1) by simp
  then show ?thesis using validated [OF v] checkRunAfterTasksExist_iff [of "ds_Task (dag_Spec dag)"] by simp
next
  fix e assume "db_InsertDAG (rc_dbManager rc) (rc_digest rc) (rc_uuid rc) (rc_cron rc) (rc_now rc) dag namespace s = (Inl e, s')"
  then have "s' = s" using assms(1) by (simp add: InsertDAG_error_same)
  then show ?thesis using assms(5) by simp
qed (use assms(5) in simp)

lemma dag_handleDeletion_next: "rc_dbManager rc = SqliteManager tz \<Longrightarrow> dag_handleDeletion rc namespace name s k = (r, s', k') \<Longrightarrow> next_dag s' = next_dag s"
  by (auto simp: dag_handleDeletion_def DeleteDAG_def Let_def split: sum.splits prod.splits if_splits)

text \<open>
  (C2) Whatever a reconciliation of a DAG stores has passed validation: when the reconciler of a controller on SQLite adds a version of a
  DAG, the dependencies stored for it form an acyclic graph between its own tasks, whether they came from the fields of the resource or from its
  program in the DAG language.
\<close>

theorem reconciled_dag_is_acyclic:
  assumes "rc_dbManager rc = SqliteManager tz" "keys_ok s" "refs_ok s" "dag_Reconcile rc namespace name s k = (r, s', k')"
    and "next_dag s' \<noteq> next_dag s"
  shows "acyclic (named_deps (next_dag s) s') \<and> Range (named_deps (next_dag s) s') \<subseteq> set (map dk_name (dag_tasks_of (next_dag s) s'))"
proof -
  have del: "\<not> dag_handleDeletion rc namespace name s k = (r, s', k')" using dag_handleDeletion_next [OF assms(1)] assms(5) by blast
  have mark: "\<not> markDAGFailed rc namespace dag e s k1 = (r, s', k')" for dag e k1
  proof
    assume "markDAGFailed rc namespace dag e s k1 = (r, s', k')"
    then have "s' = s" using markDAG_db [of rc namespace dag _ s k1] unfolding markDAGFailed_def by (metis fst_conv snd_conv)
    then show False using assms(5) by simp
  qed
  obtain dag k1 where "store_dag rc namespace dag s k1 = (r, s', k')"
    using assms(4,5) del mark by (auto simp: dag_Reconcile_def Let_def split: sum.splits if_splits prod.splits)
  then show ?thesis by (rule store_dag_graph [OF assms(1-3) _ assms(5)])
qed


section \<open>Starting a run again\<close>

lemma db_simps_runs:
  "db_CreateDAGRun m = CreateDAGRun" "db_GetStartingTasks m = GetStartingTasks" "db_TaskRunExists m = TaskRunExists"
  "db_DagExists m = DagExists" "db_GetDagParameters m = GetDagParameters" "db_GetWorkspacePVCTemplate m = GetWorkspacePVCTemplate"
  by (cases m; simp add: pg_CreateDAGRun_def pg_GetStartingTasks_def pg_TaskRunExists_def pg_DagExists_def pg_GetDagParameters_def
      pg_GetWorkspacePVCTemplate_def)+

lemma override_id [simp]: "t_Id (override_params ps t) = t_Id t"
  by (simp add: override_params_def)

lemma AddPending_ok:
  assumes "db_AddPendingTaskRun m run task s = (Inr i, s')"
  shows "\<exists>row. s' = s\<lparr>taskruns := taskruns s @ [row], next_taskrun := Suc (next_taskrun s)\<rparr> \<and> tr_run_id row = run \<and> tr_task_id row = task"
  using assms by (cases m) (auto simp: AddPendingTaskRun_def pg_AddPendingTaskRun_def pg_insert_taskrun_def insert_taskrun_def split: if_splits)

lemma exists_append: "TaskRunExists run task s \<Longrightarrow> TaskRunExists run task (s\<lparr>taskruns := taskruns s @ rows, next_taskrun := n\<rparr>)"
  by (auto simp: TaskRunExists_def)

lemma enqueue_starting_ok:
  assumes "enqueue_starting m run pm ts s = (None, s')"
  shows "\<exists>rows n. s' = s\<lparr>taskruns := taskruns s @ rows, next_taskrun := n\<rparr> \<and> (\<forall>t \<in> set ts. TaskRunExists run (t_Id t) s')"
  using assms
proof (induction ts arbitrary: s)
  case Nil
  then show ?case by (intro exI [of _ "[]"] exI [of _ "next_taskrun s"]) simp
next
  case (Cons t ts)
  show ?case
  proof (cases "TaskRunExists run (t_Id t) s")
    case True
    then have "enqueue_starting m run pm ts s = (None, s')" using Cons.prems by (simp add: db_simps_runs)
    from Cons.IH [OF this] obtain rows n
      where s': "s' = s\<lparr>taskruns := taskruns s @ rows, next_taskrun := n\<rparr>" "\<forall>t \<in> set ts. TaskRunExists run (t_Id t) s'" by blast
    moreover have "TaskRunExists run (t_Id t) s'" unfolding s'(1) by (rule exists_append [OF True])
    ultimately show ?thesis by (intro exI [of _ rows] exI [of _ n]) simp
  next
    case False
    obtain q s1 where q: "db_AddPendingTaskRun m run (t_Id t) s = (q, s1)" by fastforce
    then obtain i where i: "q = Inr i" and rest: "enqueue_starting m run pm ts s1 = (None, s')"
      using Cons.prems False by (cases q) (auto simp: db_simps_runs)
    obtain row where s1: "s1 = s\<lparr>taskruns := taskruns s @ [row], next_taskrun := Suc (next_taskrun s)\<rparr>" "tr_run_id row = run" "tr_task_id row = t_Id t"
      using AddPending_ok [OF q [unfolded i]] by blast
    obtain rows n where s': "s' = s1\<lparr>taskruns := taskruns s1 @ rows, next_taskrun := n\<rparr>" "\<forall>t \<in> set ts. TaskRunExists run (t_Id t) s'"
      using Cons.IH [OF rest] by blast
    have "TaskRunExists run (t_Id t) s1" using s1 by (simp add: TaskRunExists_def)
    then have "TaskRunExists run (t_Id t) s'" unfolding s'(1) by (rule exists_append)
    moreover have "s' = s\<lparr>taskruns := taskruns s @ (row # rows), next_taskrun := n\<rparr>" by (simp add: s'(1) s1(1))
    ultimately show ?thesis using s'(2) by (intro exI [of _ "row # rows"] exI [of _ n]) simp
  qed
qed

lemma enqueue_again: "(\<And>t. t \<in> set ts \<Longrightarrow> TaskRunExists run (t_Id t) s) \<Longrightarrow> enqueue_starting m run pm ts s = (None, s)"
  by (induction ts) (simp_all add: db_simps_runs)

lemma starting_frames:
  "dagNameToDagId name (s\<lparr>taskruns := rows, next_taskrun := n\<rparr>) = dagNameToDagId name s"
  "dagNameToDagId name (s\<lparr>runparams := rp\<rparr>) = dagNameToDagId name s"
  "param_value dagId (s\<lparr>taskruns := rows, next_taskrun := n\<rparr>) = param_value dagId s"
  "param_value dagId (s\<lparr>runparams := rp\<rparr>) = param_value dagId s"
  "lookup_param dagId p (s\<lparr>taskruns := rows, next_taskrun := n\<rparr>) = lookup_param dagId p s"
  "lookup_param dagId p (s\<lparr>runparams := rp\<rparr>) = lookup_param dagId p s"
  "task_join (s\<lparr>taskruns := rows, next_taskrun := n\<rparr>) = task_join s" "task_join (s\<lparr>runparams := rp\<rparr>) = task_join s"
  by (simp_all add: dagNameToDagId_def param_value_def lookup_param_def task_join_def fun_eq_iff)

lemma starting_rows_frames:
  "starting_rows name run (s\<lparr>taskruns := rows, next_taskrun := n\<rparr>) = starting_rows name run s"
  "starting_rows name run (s\<lparr>runparams := rp\<rparr>) = starting_rows name run s"
  by (cases "dagNameToDagId name s"; simp add: starting_rows_def starting_frames)+

lemma GetStartingTasks_frames:
  "GetStartingTasks name run (s\<lparr>taskruns := rows, next_taskrun := n\<rparr>) = GetStartingTasks name run s"
  "GetStartingTasks name run (s\<lparr>runparams := rp\<rparr>) = GetStartingTasks name run s"
  unfolding GetStartingTasks_def starting_rows_frames starting_frames by (rule refl)+

lemma CreateDAGRun_again:
  assumes "CreateDAGRun name spec ps pvc now s = (Inr run, s1)"
  shows "CreateDAGRun name spec ps' pvc' now' (s1\<lparr>taskruns := rows, next_taskrun := n\<rparr>) = (Inr run, s1\<lparr>taskruns := rows, next_taskrun := n\<rparr>)"
proof -
  obtain dagId where d: "dagNameToDagId (dr_DagName spec) s = Inr dagId"
    using assms by (cases "dagNameToDagId (dr_DagName spec) s") (simp_all add: CreateDAGRun_def)
  have same: "dagNameToDagId (dr_DagName spec) (s1\<lparr>taskruns := rows, next_taskrun := n\<rparr>) = Inr dagId"
    using assms d by (auto simp: CreateDAGRun_def dagNameToDagId_def split: option.splits)
  show ?thesis
  proof (cases "query_row (filter (\<lambda>r. rn_name r = name) (runs s))")
    case (Some r)
    then show ?thesis using assms d same by (simp add: CreateDAGRun_def)
  next
    case None
    then have "filter (\<lambda>r. rn_name r = name) (runs s) = []" by simp
    then show ?thesis using assms d same None by (auto simp: CreateDAGRun_def)
  qed
qed

lemma start_run_cases:
  assumes "start_run rc dagRun s k = (Inr b, s2, k2)"
  obtains "\<not> fst (DagExists (dr_DagName (dro_Spec dagRun)) s)" "s2 = s"
  | run pm pvcName ts s1 where
    "CreateDAGRun (dro_Name dagRun) (dro_Spec dagRun) pm pvcName (rc_now rc) s = (Inr run, s1)"
    "GetStartingTasks (dr_DagName (dro_Spec dagRun)) run s1 = Inr ts" "enqueue_starting (rc_dbManager rc) run pm ts s1 = (None, s2)"
  using assms
  by (auto simp: start_run_def Let_def db_simps_runs split: prod.splits sum.splits option.splits if_splits)

text \<open>
  (C10) Reconciling a DAG run again is harmless: after a reconciliation that started the run, with either manager, another one, whatever the state
  of the cluster, the clock and the recorded run number, leaves the database as it is. No run and no task run is created twice.
\<close>

theorem start_run_idempotent:
  assumes "start_run rc dagRun s k = (Inr b, s2, k2)"
  shows "fst (snd (start_run (rc\<lparr>rc_now := now\<rparr>) (dagRun\<lparr>dro_DagRunId := i\<rparr>) s2 k')) = s2"
proof (rule start_run_cases [OF assms])
  assume "\<not> fst (DagExists (dr_DagName (dro_Spec dagRun)) s)" "s2 = s"
  then show ?thesis by (cases "DagExists (dr_DagName (dro_Spec dagRun)) s") (simp add: start_run_def Let_def db_simps_runs)
next
  fix run pm pvcName ts s1
  assume c: "CreateDAGRun (dro_Name dagRun) (dro_Spec dagRun) pm pvcName (rc_now rc) s = (Inr run, s1)"
    and ts: "GetStartingTasks (dr_DagName (dro_Spec dagRun)) run s1 = Inr ts" and e: "enqueue_starting (rc_dbManager rc) run pm ts s1 = (None, s2)"
  obtain rows n where s2: "s2 = s1\<lparr>taskruns := taskruns s1 @ rows, next_taskrun := n\<rparr>" "\<And>t. t \<in> set ts \<Longrightarrow> TaskRunExists run (t_Id t) s2"
    using enqueue_starting_ok [OF e] by blast
  have again: "CreateDAGRun (dro_Name dagRun) (dro_Spec dagRun) ps pvc t s2 = (Inr run, s2)" for ps pvc t
    unfolding s2(1) by (rule CreateDAGRun_again [OF c])
  have ts2: "GetStartingTasks (dr_DagName (dro_Spec dagRun)) run s2 = Inr ts" unfolding s2(1) GetStartingTasks_frames by (rule ts)
  have e2: "enqueue_starting (rc_dbManager rc) run ps ts s2 = (None, s2)" for ps by (rule enqueue_again [OF s2(2)])
  show ?thesis
    by (simp add: start_run_def Let_def db_simps_runs again ts2 e2 split: prod.split sum.split option.split)
qed


section \<open>Parameters of a run\<close>

lemma CreateDAGRun_params:
  assumes "dr_DagName spec' = dr_DagName spec"
  shows "\<exists>rp. CreateDAGRun name spec' ps' pvc now s = (fst (CreateDAGRun name spec ps pvc now s), (snd (CreateDAGRun name spec ps pvc now s))\<lparr>runparams := rp\<rparr>)"
proof -
  have same: "s = s\<lparr>runparams := runparams s\<rparr>" by simp
  show ?thesis
  proof (cases "dagNameToDagId (dr_DagName spec) s")
    case (Inl e)
    then show ?thesis using assms same by (simp add: CreateDAGRun_def exI [of _ "runparams s"])
  next
    case (Inr d)
    show ?thesis
    proof (cases "query_row (filter (\<lambda>r. rn_name r = name) (runs s))")
      case (Some r)
      then show ?thesis using assms Inr same by (simp add: CreateDAGRun_def exI [of _ "runparams s"])
    next
      case None
      then show ?thesis using assms Inr
        by (intro exI [of _ "runparams s @ map (run_param_row (next_run s)) ps'"]) (simp add: CreateDAGRun_def)
    qed
  qed
qed

lemma AddPending_runparams:
  "db_AddPendingTaskRun m run task (s\<lparr>runparams := rp\<rparr>) = (fst (db_AddPendingTaskRun m run task s), (snd (db_AddPendingTaskRun m run task s))\<lparr>runparams := rp\<rparr>)"
  by (cases m) (simp_all add: AddPendingTaskRun_def pg_AddPendingTaskRun_def pg_insert_taskrun_def insert_taskrun_def)

lemma enqueue_params:
  "enqueue_starting m run pm' ts (s\<lparr>runparams := rp\<rparr>) = (fst (enqueue_starting m run pm ts s), (snd (enqueue_starting m run pm ts s))\<lparr>runparams := rp\<rparr>)"
proof (induction ts arbitrary: s)
  case (Cons t ts)
  have ex: "TaskRunExists run (t_Id t) (s\<lparr>runparams := rp\<rparr>) = TaskRunExists run (t_Id t) s" by (simp add: TaskRunExists_def)
  obtain q s1 where q: "db_AddPendingTaskRun m run (t_Id t) s = (q, s1)" by fastforce
  then have "db_AddPendingTaskRun m run (t_Id t) (s\<lparr>runparams := rp\<rparr>) = (q, s1\<lparr>runparams := rp\<rparr>)" by (simp add: AddPending_runparams)
  then show ?case using q Cons.IH by (cases q) (simp_all add: db_simps_runs ex)
qed simp

lemma run_pvc_spec: "run_pvc rc (dagRun\<lparr>dro_Spec := spec\<rparr>) = run_pvc rc dagRun"
proof -
  have "createPVC rc (dagRun\<lparr>dro_Spec := spec\<rparr>) tmpl k = createPVC rc dagRun tmpl k" for tmpl k by (simp add: createPVC_def)
  then show ?thesis unfolding run_pvc_def fun_eq_iff by (simp only:) simp
qed

lemma start_run_params:
  assumes spec: "dr_DagName spec' = dr_DagName (dro_Spec dagRun)"
  shows "\<exists>rp. fst (snd (start_run rc (dagRun\<lparr>dro_Spec := spec'\<rparr>) s k)) = (fst (snd (start_run rc dagRun s k)))\<lparr>runparams := rp\<rparr>"
proof -
  let ?spec = "dro_Spec dagRun" let ?m = "rc_dbManager rc"
  let ?pm = "accepted_params (GetDagParameters (dr_DagName ?spec) s) (dr_Parameters ?spec)"
  let ?pm' = "accepted_params (GetDagParameters (dr_DagName ?spec) s) (dr_Parameters spec')"
  have same: "\<exists>rp. s = s\<lparr>runparams := rp\<rparr>" by (rule exI [of _ "runparams s"]) simp
  obtain ok dagId where d: "DagExists (dr_DagName ?spec) s = (ok, dagId)" by fastforce
  obtain pvc k1 where pvc: "run_pvc rc dagRun dagId s k = (pvc, k1)" by fastforce
  show ?thesis
  proof (cases "ok \<and> is_Inr pvc")
    case False
    then have "\<not> ok \<or> (\<exists>e. pvc = Inl e)" by (cases pvc) auto
    then show ?thesis using same d pvc spec by (auto simp: start_run_def Let_def db_simps_runs run_pvc_spec)
  next
    case True
    then obtain pvcName where ok: "ok" "pvc = Inr pvcName" by (auto simp: is_Inr_iff)
    obtain q s1 where c: "CreateDAGRun (dro_Name dagRun) ?spec ?pm pvcName (rc_now rc) s = (q, s1)" by fastforce
    obtain rp where c': "CreateDAGRun (dro_Name dagRun) spec' ?pm' pvcName (rc_now rc) s = (q, s1\<lparr>runparams := rp\<rparr>)"
      using CreateDAGRun_params [OF spec, of "dro_Name dagRun" ?pm' pvcName "rc_now rc" s ?pm] c by auto
    show ?thesis
    proof (cases q)
      case (Inl e)
      then show ?thesis using ok d pvc spec c c' by (auto simp: start_run_def Let_def db_simps_runs run_pvc_spec)
    next
      case (Inr run)
      show ?thesis
      proof (cases "GetStartingTasks (dr_DagName ?spec) run s1")
        case (Inl e)
        then show ?thesis using Inr ok d pvc spec c c'
          by (auto simp: start_run_def Let_def db_simps_runs run_pvc_spec GetStartingTasks_frames)
      next
        case ts: (Inr ts)
        obtain e s2 where e: "enqueue_starting ?m run ?pm ts s1 = (e, s2)" by fastforce
        have e': "enqueue_starting ?m run ?pm' ts (s1\<lparr>runparams := rp\<rparr>) = (e, s2\<lparr>runparams := rp\<rparr>)"
          using enqueue_params [where m = ?m and run = run and pm' = ?pm' and pm = ?pm and ts = ts and s = s1 and rp = rp] by (simp add: e)
        show ?thesis using ts Inr ok d pvc spec c c' e e'
          by (auto simp: start_run_def Let_def db_simps_runs run_pvc_spec GetStartingTasks_frames split: option.split prod.split sum.split)
      qed
    qed
  qed
qed

lemma db_runparams: "runs (s\<lparr>runparams := rp\<rparr>) = runs s" "dags (s\<lparr>runparams := rp\<rparr>) = dags s" "taskruns (s\<lparr>runparams := rp\<rparr>) = taskruns s"
  by simp_all

lemma GetTaskForRun_runparams: "db_GetTaskForRun m run task (s\<lparr>runparams := rp\<rparr>) = db_GetTaskForRun m run task s"
proof (cases m)
  case (SqliteManager tz)
  show ?thesis unfolding SqliteManager db_GetTaskForRun.simps GetTaskForRun_def starting_frames db_runparams by (rule refl)
next
  case PostgresManager
  have "pg_task_rows run task (s\<lparr>runparams := rp\<rparr>) = pg_task_rows run task s" unfolding pg_task_rows_def starting_frames db_runparams by (rule refl)
  moreover have "pg_getDAGIdFromRun run (s\<lparr>runparams := rp\<rparr>) = pg_getDAGIdFromRun run s" by (simp add: pg_getDAGIdFromRun_def find_run_def)
  moreover have "pg_fetchTaskParameters d ts (s\<lparr>runparams := rp\<rparr>) = pg_fetchTaskParameters d ts s" for d ts
    by (simp add: pg_fetchTaskParameters_def fetchTaskParameters_def)
  ultimately show ?thesis unfolding PostgresManager db_GetTaskForRun.simps pg_GetTaskForRun_def by (simp only:)
qed

lemma processClaim_runparams: "wd_kube (processClaim w c (x\<lparr>wd_db := (wd_db x)\<lparr>runparams := rp\<rparr>\<rparr>)) = wd_kube (processClaim w c x)"
proof -
  let ?m = "wk_dbManager w"
  have "fst (db_FinalizeClaimToRunning ?m i j (s\<lparr>runparams := rp\<rparr>)) = fst (db_FinalizeClaimToRunning ?m i j s)" for i j s
    by (cases ?m) (simp_all add: FinalizeClaimToRunning_def pg_FinalizeClaimToRunning_def Let_def)
  then show ?thesis
    by (auto simp: processClaim_def GetTaskForRun_runparams split: sum.splits prod.splits list.splits) (metis fst_conv sum.distinct(1))+
qed

text \<open>
  (C37) The parameters of a DAG run never reach its pods. Starting a run with other parameters changes at most the table of run parameters: the values
  put into the tasks are dropped. And that table is read nowhere on the way to a pod: with any other contents of it, the worker that
  processes a claim does exactly the same to the cluster. Every pod runs with the defaults of its DAG.
\<close>

theorem run_parameters_never_reach_pods:
  "(\<exists>rp. fst (snd (start_run rc (dagRun\<lparr>dro_Spec := (dro_Spec dagRun)\<lparr>dr_Parameters := ps\<rparr>\<rparr>) s k)) =
      (fst (snd (start_run rc dagRun s k)))\<lparr>runparams := rp\<rparr>) \<and>
   wd_kube (processClaim w c (x\<lparr>wd_db := (wd_db x)\<lparr>runparams := rows\<rparr>\<rparr>)) = wd_kube (processClaim w c x)"
  by (intro conjI start_run_params processClaim_runparams) simp

section \<open>Orphaned pods\<close>

lemma delete_orphan_other:
  assumes "\<And>ns n k. (ns', n') \<noteq> (ns, n) \<Longrightarrow> kb_getPod kb ns' n' (snd (kb_deletePod kb ns n k)) = kb_getPod kb ns' n' k"
    and "\<And>ns p k. (ns', n') \<noteq> (ns, pod_Name p) \<Longrightarrow> kb_getPod kb ns' n' (snd (kb_updatePod kb ns p k)) = kb_getPod kb ns' n' k"
    and "(pod_Namespace q, pod_Name q) \<noteq> (ns', n')"
  shows "kb_getPod kb ns' n' (delete_orphan kb q k) = kb_getPod kb ns' n' k"
proof -
  have "(ns', n') \<noteq> (pod_Namespace q, pod_Name q)" "(ns', n') \<noteq> (pod_Namespace q, pod_Name (q\<lparr>pod_Finalizers := []\<rparr>))" using assms(3) by auto
  then show ?thesis unfolding delete_orphan_def by (metis assms(1,2))
qed

text \<open>
  The orphan scan spares the pods of active task runs: if deleting and updating a pod affect no pod of another name, and numbers
  are read back as they were written, then a listed pod whose task run is pending or running, by the database at the time of the scan, is left as it is.
\<close>

theorem orphan_scan_spares_active:
  assumes "\<And>ns n ns' n' k. (ns', n') \<noteq> (ns, n) \<Longrightarrow> kb_getPod (rc_kube rc) ns' n' (snd (kb_deletePod (rc_kube rc) ns n k)) = kb_getPod (rc_kube rc) ns' n' k"
    and "\<And>ns p ns' n' k. (ns', n') \<noteq> (ns, pod_Name p) \<Longrightarrow> kb_getPod (rc_kube rc) ns' n' (snd (kb_updatePod (rc_kube rc) ns p k)) = kb_getPod (rc_kube rc) ns' n' k"
    and "scan (Itoa (int i)) = Some (int i)" "cr_listTaskPods (rc_client rc) k = Inr ps"
    and "distinct (map (\<lambda>p. (pod_Namespace p, pod_Name p)) ps)" "pod \<in> set ps" "pod_Annotations pod ''kontroler/task-rid'' = Some (Itoa (int i))"
    and "db_GetTaskRunStatus (rc_dbManager rc) i s = Inr status" "status = ''pending'' \<or> status = ''running''"
  shows "kb_getPod (rc_kube rc) (pod_Namespace pod) (pod_Name pod) (orphan_tick rc created scan s k) =
    kb_getPod (rc_kube rc) (pod_Namespace pod) (pod_Name pod) k"
proof -
  let ?key = "\<lambda>p. (pod_Namespace p, pod_Name p)"
  let ?orphan = "orphaned (rc_dbManager rc) created scan (rc_now rc) s"
  let ?step = "\<lambda>p k. if ?orphan p then delete_orphan (rc_kube rc) p k else k"
  have spared: "\<not> ?orphan pod" using assms(3,7-9) by (auto simp: orphaned_def)
  have other: "?key p \<noteq> ?key pod" if "p \<in> set ps" "p \<noteq> pod" for p
    using assms(5,6) that by (auto simp: distinct_map inj_on_def)
  have "kb_getPod (rc_kube rc) (pod_Namespace pod) (pod_Name pod) (fold ?step qs k) = kb_getPod (rc_kube rc) (pod_Namespace pod) (pod_Name pod) k"
    if "set qs \<subseteq> set ps" for qs using that
  proof (induction qs arbitrary: k)
    case (Cons q qs)
    have "kb_getPod (rc_kube rc) (pod_Namespace pod) (pod_Name pod) (?step q k) = kb_getPod (rc_kube rc) (pod_Namespace pod) (pod_Name pod) k"
    proof (cases "q = pod")
      case False
      then have "?key q \<noteq> ?key pod" using other Cons.prems by simp
      then show ?thesis using delete_orphan_other [of "pod_Namespace pod" "pod_Name pod" "rc_kube rc" q k] assms(1,2) by simp
    qed (simp add: spared)
    then show ?case using Cons by simp
  qed simp
  then show ?thesis by (simp add: orphan_tick_def assms(4))
qed

section \<open>Deletion of a run\<close>

text \<open>
  Deleting the pods of a DAG run does not remove their finalizer: the copy that the patch is computed from is taken after the change, so, if a
  patch between equal objects changes nothing, the call is a plain deletion. A pod held by \<open>kontroler/logcollection\<close> stays until its logs are collected.
\<close>

theorem run_deletion_keeps_finalizer:
  assumes "\<And>ns p k. cr_patchPod (rc_client rc) ns p p k = (Inr (), k)"
  shows "deletePodByNameAndNamespace rc name namespace k =
    (case kb_getPod (rc_kube rc) namespace name k of
       Inl e \<Rightarrow> (Some e, k)
     | Inr _ \<Rightarrow> (case kb_deletePod (rc_kube rc) namespace name k of (Inl e, k') \<Rightarrow> (Some e, k') | (Inr _, k') \<Rightarrow> (None, k')))"
  by (simp add: deletePodByNameAndNamespace_def Let_def assms split: sum.split)


section \<open>Examples\<close>

definition ex_client :: "Pod list \<Rightarrow> cluster cr_client" where
  "ex_client listed = \<lparr>cr_getDag = (\<lambda>_ _ _. Inr ex_dag), cr_patchDag = (\<lambda>_ _ _ k. (Inr (), k)), cr_patchDagStatus = (\<lambda>_ _ _ k. (Inr (), k)),
     cr_getDagTask = (\<lambda>_ _ _. Inl not_found), cr_patchDagTask = (\<lambda>_ _ _ k. (Inr (), k)), cr_getDagRun = (\<lambda>_ _ _. Inl not_found),
     cr_createDagRun = (\<lambda>_ _ k. (Inr (), k)), cr_patchDagRun = (\<lambda>_ _ _ k. (Inr (), k)), cr_patchDagRunStatus = (\<lambda>_ _ _ k. (Inr (), k)),
     cr_patchPod = (\<lambda>ns old new k. if old = new then (Inr (), k) else kb_updatePod ex_kube ns new k),
     cr_patchPVC = (\<lambda>_ _ _ k. (Inr (), k)), cr_listTaskPods = (\<lambda>_. Inr listed)\<rparr>"

definition ex_reconciler :: "db_manager \<Rightarrow> Pod list \<Rightarrow> cluster reconciler" where
  "ex_reconciler m listed = \<lparr>rc_dbManager = m, rc_kube = ex_kube, rc_client = ex_client listed, rc_digest = ex_digest, rc_task_digest = (\<lambda>_. ''h''),
     rc_sha256 = (\<lambda>s. s), rc_uuid = ex_uuid, rc_cron = ex_cron, rc_now = 0, rc_parseString = (\<lambda>_. Inl ''''), rc_startNode = ''c'',
     rc_text = (\<lambda>e. case e of Err m \<Rightarrow> m | _ \<Rightarrow> ''error''), rc_quantity = Some, rc_deleteLogs = None\<rparr>"

lemma ex_validated: "ValidateDAG ''c'' ex_spec Map.empty = Some None"
  by (simp add: ValidateDAG_def checkNoCycles_diamond checkRunAfterTasksExist_diamond checkAllTasksConnected_diamond)
    (simp add: checkFieldsFilled_def checkParameters_def checkParameters_task_def check_selected_def checkStartingTask_def ex_diamond_def)

theorem reconciled_dag_is_acyclic_witness:
  "\<exists>r s' k'. dag_Reconcile (ex_reconciler (SqliteManager 0) []) ''ns'' ''etl'' empty_db ([], []) = (r, s', k') \<and>
     next_dag s' \<noteq> next_dag empty_db \<and> acyclic (named_deps (next_dag empty_db) s')"
proof (rule ex_inserted)
  let ?rc = "ex_reconciler (SqliteManager 0) []"
  fix s' assume i: "InsertDAG ex_digest ex_uuid ex_cron 0 ex_dag ''ns'' empty_db = (Inr (), s')" "next_dag s' = Suc (next_dag empty_db)"
  have refs: "collect_refs ex_diamond = Some []" by (simp add: collect_refs_def ex_diamond_def)
  have dsl: "ds_DSL ex_spec = ''''" "\<not> dag_Deleting ex_dag" by (simp_all add: ex_spec_def zero_DAGSpec_def ex_dag_def)
  have "fst (snd (dag_Reconcile ?rc ''ns'' ''etl'' empty_db ([], []))) = s'"
    using i(1) ex_validated refs dsl
    by (simp add: dag_Reconcile_def store_dag_def ex_reconciler_def ex_client_def markDAGSuccessful_def markDAG_db)
  then obtain r k' where rec: "dag_Reconcile ?rc ''ns'' ''etl'' empty_db ([], []) = (r, s', k')" by (metis prod.collapse)
  have "refs_ok empty_db" by (simp add: refs_ok_def empty_db_def)
  then show ?thesis using reconciled_dag_is_acyclic [OF _ _ _ rec, of 0] i(2) rec by (auto simp: ex_reconciler_def)
qed

definition ex_dagrun :: DagRun where
  "ex_dagrun = \<lparr>dro_Name = ''nightly'', dro_Namespace = ''ns'', dro_Labels = [], dro_Spec = \<lparr>dr_DagName = ''etl'', dr_Parameters = []\<rparr>,
     dro_Finalizers = [dagRunFinalizer], dro_Deleting = False, dro_DagRunId = 0\<rparr>"

theorem start_run_idempotent_witness:
  "\<exists>b s2 k2. start_run (ex_reconciler PostgresManager []) ex_dagrun ex_run_db ([], []) = (Inr b, s2, k2) \<and>
     length (taskruns s2) = 5 \<and> fst (snd (start_run ((ex_reconciler PostgresManager [])\<lparr>rc_now := 9\<rparr>) (ex_dagrun\<lparr>dro_DagRunId := 2\<rparr>) s2 ([], []))) = s2"
proof -
  obtain s2 k2 where s: "start_run (ex_reconciler PostgresManager []) ex_dagrun ex_run_db ([], []) = (Inr False, s2, k2)" "length (taskruns s2) = 5"
    by (simp add: start_run_def Let_def db_simps_runs ex_reconciler_def ex_client_def ex_dagrun_def run_pvc_def DagExists_def GetDagParameters_def
        dagNameToDagId_def accepted_params_def GetWorkspacePVCTemplate_def CreateDAGRun_def GetStartingTasks_def starting_rows_def task_join_def
        TaskRunExists_def pg_AddPendingTaskRun_def pg_insert_taskrun_def insert_taskrun_def ex_run_defs)
  then show ?thesis using start_run_idempotent [OF s(1)] by blast
qed

theorem orphan_scan_spares_active_witness:
  "find_pod ''ns'' ''b-pod'' (orphan_tick (ex_reconciler PostgresManager [ex_event_pod ''Running'' []]) (\<lambda>_. - 600000000000)
     (\<lambda>s. if s = Itoa 2 then Some 2 else None) ex_run_db ([ex_event_pod ''Running'' []], [])) = Some (ex_event_pod ''Running'' [])"
proof -
  let ?p = "ex_event_pod ''Running'' []" let ?rc = "ex_reconciler PostgresManager [?p]"
  let ?scan = "\<lambda>s. if s = Itoa 2 then Some 2 else None"
  have p: "pod_Name ?p = ''b-pod''" "pod_Namespace ?p = ''ns''" "pod_Annotations ?p ''kontroler/task-rid'' = Some (Itoa (int 2))"
    by (simp_all add: ex_event_pod_def prepare_pod_def)
  have rc: "rc_kube ?rc = ex_kube" "rc_dbManager ?rc = PostgresManager" "cr_listTaskPods (rc_client ?rc) ([?p], []) = Inr [?p]"
    by (simp_all add: ex_reconciler_def ex_client_def)
  have st: "db_GetTaskRunStatus (rc_dbManager ?rc) 2 ex_run_db = Inr ''running''"
    by (simp add: rc pg_GetTaskRunStatus_def GetTaskRunStatus_def find_taskrun_def ex_run_defs)
  have "kb_getPod (rc_kube ?rc) (pod_Namespace ?p) (pod_Name ?p) (orphan_tick ?rc (\<lambda>_. - 600000000000) ?scan ex_run_db ([?p], [])) =
      kb_getPod (rc_kube ?rc) (pod_Namespace ?p) (pod_Name ?p) ([?p], [])"
    by (rule orphan_scan_spares_active [OF _ _ _ rc(3) _ _ p(3) st]) (simp_all add: rc find_pod_delete find_pod_update)
  then show ?thesis using p by (simp add: rc ex_kube_def find_pod_def split: option.splits)
qed

theorem run_deletion_keeps_finalizer_witness:
  "find_pod ''ns'' ''b-pod'' (snd (deletePodByNameAndNamespace (ex_reconciler PostgresManager []) ''b-pod'' ''ns'' ([ex_event_pod ''Running'' []], []))) =
   Some (ex_event_pod ''Running'' []) \<and> pod_Finalizers (ex_event_pod ''Running'' []) = [''kontroler/logcollection'']"
proof -
  let ?p = "ex_event_pod ''Running'' []" let ?rc = "ex_reconciler PostgresManager []"
  have patch: "cr_patchPod (rc_client ?rc) ns p p k = (Inr (), k)" for ns p k by (simp add: ex_reconciler_def ex_client_def)
  have p: "pod_Name ?p = ''b-pod''" "pod_Namespace ?p = ''ns''" "pod_Finalizers ?p = [''kontroler/logcollection'']"
    by (simp_all add: ex_event_pod_def prepare_pod_def new_pool_pod_def)
  then have f: "find_pod ''ns'' ''b-pod'' ([?p], []) = Some ?p" by (simp add: find_pod_def)
  then show ?thesis using p run_deletion_keeps_finalizer [OF patch, of "''b-pod''" "''ns''" "([?p], [])"]
    by (simp add: ex_reconciler_def ex_kube_def)
qed

end
