(* ===== verification/Log_Store.thy ===== *)
theory Log_Store
  imports Kube_Api
begin

text \<open>
  \<open>internal/object\<close>: the two stores the logs of pods are collected into, a directory (\<open>filesystem.go\<close>) and an S3 bucket
  (\<open>logStore.go\<close>). Both keep the set of pods that are being fetched, open the log stream of a pod with retries, copy it, and remove the
  pod's finalizer once nothing more is to be read. The S3 service is a parameter, with the laws of its documentation as a
  predicate on the abstract contents of the bucket; the log stream of a pod is the list of the reads it answers.
\<close>

section \<open>Which pods are being fetched\<close>

type_synonym fetching = "string set"

definition fetch_key :: "int \<Rightarrow> Pod \<Rightarrow> string" where
  "fetch_key dagRunId pod = Itoa dagRunId @ ''-'' @ pod_UID pod"

definition fs_IsFetching :: "int \<Rightarrow> Pod \<Rightarrow> fetching \<Rightarrow> bool" where
  "fs_IsFetching dagRunId pod f \<longleftrightarrow> fetch_key dagRunId pod \<in> f"

definition fs_MarkAsFetching :: "int \<Rightarrow> Pod \<Rightarrow> fetching \<Rightarrow> check \<times> fetching" where
  "fs_MarkAsFetching dagRunId pod f =
     (let key = fetch_key dagRunId pod
      in if key \<in> f then (Some (Err ''already fetching''), f) else (None, insert key f))"

definition fs_UnlistFetching :: "int \<Rightarrow> Pod \<Rightarrow> fetching \<Rightarrow> fetching" where
  "fs_UnlistFetching dagRunId pod f = f - {fetch_key dagRunId pod}"

definition s3_IsFetching :: "int \<Rightarrow> Pod \<Rightarrow> fetching \<Rightarrow> bool" where
  "s3_IsFetching dagRunId pod f \<longleftrightarrow> fetch_key dagRunId pod \<in> f"

definition s3_MarkAsFetching :: "int \<Rightarrow> Pod \<Rightarrow> fetching \<Rightarrow> check \<times> fetching" where
  "s3_MarkAsFetching dagRunId pod f =
     (let key = fetch_key dagRunId pod
      in if key \<in> f then (Some (Err ''already fetching''), f) else (None, insert key f))"

definition s3_UnlistFetching :: "int \<Rightarrow> Pod \<Rightarrow> fetching \<Rightarrow> fetching" where
  "s3_UnlistFetching dagRunId pod f = f - {fetch_key dagRunId pod}"

section \<open>Opening the stream\<close>

text \<open>
  A stream is what its reads return: reads without an error, then one with the end of the stream or another error, of which the message
  matters. That last read may carry bytes.
\<close>

datatype read_end = StreamEOF | StreamError string

record log_stream =
  st_reads :: "string list"
  st_last :: string
  st_end :: read_end

datatype stream_opening = Opened log_stream | PodGone | OpenFailed | NoStream

text \<open>
  The retry loop, attempt \<open>i\<close> answering \<open>opens i\<close>. The wait after an attempt ends early when the context of the caller is cancelled; the S3
  store sleeps through it.
\<close>

fun open_loop :: "(kube_error \<Rightarrow> bool) \<Rightarrow> (nat \<Rightarrow> bool) \<Rightarrow> (nat \<Rightarrow> log_stream kresult) \<Rightarrow> nat \<Rightarrow> nat \<Rightarrow> stream_opening" where
  "open_loop gone cancelled opens i 0 = NoStream"
| "open_loop gone cancelled opens i (Suc n) =
     (case opens i of
        Inr st \<Rightarrow> Opened st
      | Inl e \<Rightarrow>
          if gone e then PodGone
          else if n = 0 \<or> cancelled i then OpenFailed
          else open_loop gone cancelled opens (Suc i) n)"

definition defaultStreamRetryCount :: int where
  "defaultStreamRetryCount = 3"

definition fs_gone :: "kube_error \<Rightarrow> bool" where
  "fs_gone e \<longleftrightarrow> ke_Reason e = NotFound \<or> contains (ke_Message e) ''not found''"

definition s3_gone :: "kube_error \<Rightarrow> bool" where
  "s3_gone e \<longleftrightarrow> contains (ke_Message e) ''not found''"

definition stream_broken :: "string \<Rightarrow> bool" where
  "stream_broken msg \<longleftrightarrow>
     contains msg ''not found'' \<or> contains msg ''connection refused'' \<or> contains msg ''has been terminated''"

section \<open>The file system store\<close>

type_synonym files = "string \<rightharpoonup> string"

text \<open>The base directory is a clean path, and a pod's UID a plain file name, so that \<open>filepath.Join\<close> only adds separators.\<close>

definition log_dir :: "string \<Rightarrow> int \<Rightarrow> string" where
  "log_dir baseDir dagrunId = baseDir @ ''/'' @ Itoa dagrunId"

definition log_path :: "string \<Rightarrow> int \<Rightarrow> Pod \<Rightarrow> string" where
  "log_path baseDir dagrunId pod = log_dir baseDir dagrunId @ ''/'' @ pod_UID pod @ ''-log.txt''"

text \<open>
  What the operating system answers: creating the directory and the file, and flushing the writer. \<open>fs_written\<close> is the number of bytes that
  have reached the file when reading fails.
\<close>

record fs_calls =
  fs_mkdir :: check
  fs_create :: check
  fs_flush :: check
  fs_written :: nat

definition stream_data :: "log_stream \<Rightarrow> string" where
  "stream_data st = concat (st_reads st) @ st_last st"

text \<open>
  \<open>io.Copy\<close> ends without an error at the end of the stream. A truncated stream, \<open>io.ErrUnexpectedEOF\<close>, also counts as its end.
\<close>

definition fs_copy :: "fs_calls \<Rightarrow> string \<Rightarrow> log_stream \<Rightarrow> files \<Rightarrow> check \<times> bool \<times> files" where
  "fs_copy io path st s =
     (let all = s(path \<mapsto> stream_data st); partial = s(path \<mapsto> take (fs_written io) (stream_data st));
          finish = (case fs_flush io of
                      Some e \<Rightarrow> (Some (Err ''error flushing log file''), False, partial)
                    | None \<Rightarrow> (None, True, all))
      in case st_end st of
           StreamEOF \<Rightarrow> finish
         | StreamError msg \<Rightarrow>
             if msg = ''context canceled'' then (Some (Err msg), False, partial)
             else if msg = ''unexpected EOF'' then finish
             else if stream_broken msg then (None, True, partial)
             else (Some (Err ''error reading logs''), False, partial))"

definition fs_uploadLogsWithGetter ::
    "fs_calls \<Rightarrow> string \<Rightarrow> int \<Rightarrow> int \<Rightarrow> (nat \<Rightarrow> bool) \<Rightarrow> (nat \<Rightarrow> log_stream kresult) \<Rightarrow> Pod \<Rightarrow> files \<Rightarrow> check \<times> bool \<times> files" where
  "fs_uploadLogsWithGetter io baseDir retryCount dagrunId cancelled opens pod s =
     (if fs_mkdir io \<noteq> None then (Some (Err ''failed to create log directory''), False, s)
      else if fs_create io \<noteq> None then (Some (Err ''failed to create log file''), False, s)
      else let path = log_path baseDir dagrunId pod; s1 = s(path \<mapsto> '''');
               n = (if retryCount \<le> 0 then defaultStreamRetryCount else retryCount)
           in if sp_Containers (pod_Spec pod) = [] then (Some (Err ''no containers configured for pod''), False, s1)
              else case open_loop fs_gone cancelled opens 0 (nat n) of
                     PodGone \<Rightarrow> (None, True, s1)
                   | OpenFailed \<Rightarrow> (Some (Err ''error in opening stream''), False, s1)
                   | NoStream \<Rightarrow> (Some (Err ''failed to open log stream''), False, s1)
                   | Opened st \<Rightarrow> fs_copy io path st s1)"

definition logFinalizer :: string where
  "logFinalizer = ''kontroler/logcollection''"

text \<open>The deferred clean-up removes the finalizer; an error of it is only logged.\<close>

definition finaliserCleanup :: "'k kube \<Rightarrow> Pod \<Rightarrow> bool \<Rightarrow> 'k \<Rightarrow> 'k" where
  "finaliserCleanup kb pod shouldCleanup k =
     (if shouldCleanup then snd (RemoveFinalizer kb (pod_Name pod) (pod_Namespace pod) logFinalizer k) else k)"

definition fs_UploadLogs ::
    "'k kube \<Rightarrow> fs_calls \<Rightarrow> string \<Rightarrow> int \<Rightarrow> int \<Rightarrow> (nat \<Rightarrow> bool) \<Rightarrow> (nat \<Rightarrow> log_stream kresult) \<Rightarrow> Pod \<Rightarrow> files \<Rightarrow> 'k \<Rightarrow> check \<times> files \<times> 'k" where
  "fs_UploadLogs kb io baseDir retryCount dagrunId cancelled opens pod s k =
     (case fs_uploadLogsWithGetter io baseDir retryCount dagrunId cancelled opens pod s of
        (r, shouldCleanup, s') \<Rightarrow> (r, s', finaliserCleanup kb pod shouldCleanup k))"

text \<open>\<open>os.RemoveAll\<close> removes the directory and everything below it; with an error, some of it.\<close>

definition below :: "string \<Rightarrow> string \<Rightarrow> bool" where
  "below dir path \<longleftrightarrow> path = dir \<or> take (length dir + 1) path = dir @ ''/''"

datatype remove_result = Removed | NotExist | RemoveFailed

definition fs_DeleteLogs :: "remove_result \<Rightarrow> string set \<Rightarrow> string \<Rightarrow> int \<Rightarrow> files \<Rightarrow> check \<times> files" where
  "fs_DeleteLogs answer kept baseDir dagrunId s =
     (case answer of
        Removed \<Rightarrow> (None, s |` {p. \<not> below (log_dir baseDir dagrunId) p})
      | NotExist \<Rightarrow> (None, s)
      | RemoveFailed \<Rightarrow>
          (Some (Err ''failed to delete log directory''), s |` {p. below (log_dir baseDir dagrunId) p \<longrightarrow> p \<in> kept}))"

section \<open>The S3 store\<close>

text \<open>The calls of the S3 client on its own state, and the laws the store relies on.\<close>

record 's s3Client =
  CreateMultipartUpload :: "string \<Rightarrow> 's \<Rightarrow> string result \<times> 's"
  UploadPart :: "string \<Rightarrow> string \<Rightarrow> int \<Rightarrow> string \<Rightarrow> 's \<Rightarrow> string result \<times> 's"
  CompleteMultipartUpload :: "string \<Rightarrow> string \<Rightarrow> (string \<times> int) list \<Rightarrow> 's \<Rightarrow> unit result \<times> 's"
  PutObject :: "string \<Rightarrow> string \<Rightarrow> 's \<Rightarrow> unit result \<times> 's"
  AbortMultipartUpload :: "string \<Rightarrow> string \<Rightarrow> 's \<Rightarrow> unit result \<times> 's"
  DeleteObjects :: "string list \<Rightarrow> 's \<Rightarrow> string list result \<times> 's"
  ListObjectsV2 :: "string \<Rightarrow> string option \<Rightarrow> 's \<Rightarrow> (string list \<times> bool \<times> string option) result"

definition s3_object_key :: "int \<Rightarrow> Pod \<Rightarrow> string" where
  "s3_object_key dagrunId pod = Itoa dagrunId @ ''/'' @ pod_UID pod @ ''-log.txt''"

definition cleanupPartialUpload :: "'s s3Client \<Rightarrow> string \<Rightarrow> string \<Rightarrow> 's \<Rightarrow> 's" where
  "cleanupPartialUpload c objectKey uploadID s = snd (AbortMultipartUpload c objectKey uploadID s)"

record upload =
  up_buffer :: string
  up_completedParts :: "(string \<times> int) list"
  up_partNumber :: int
  up_hasUploadedParts :: bool

definition uploadPart :: "'s s3Client \<Rightarrow> string \<Rightarrow> string \<Rightarrow> upload \<Rightarrow> 's \<Rightarrow> check \<times> upload \<times> 's" where
  "uploadPart c objectKey uploadID up s =
     (case UploadPart c objectKey uploadID (up_partNumber up) (up_buffer up) s of
        (Inl e, s1) \<Rightarrow> (Some (Err ''error uploading part''), up, cleanupPartialUpload c objectKey uploadID s1)
      | (Inr etag, s1) \<Rightarrow>
          (None, up\<lparr>up_completedParts := up_completedParts up @ [(etag, up_partNumber up)], up_buffer := ''''\<rparr>, s1))"

text \<open>What follows a read without an error, or with the end of the stream: the bytes are buffered, and a full buffer becomes a part.\<close>

definition take_chunk :: "'s s3Client \<Rightarrow> int \<Rightarrow> string \<Rightarrow> string \<Rightarrow> string \<Rightarrow> upload \<Rightarrow> 's \<Rightarrow> check \<times> upload \<times> 's" where
  "take_chunk c minPart objectKey uploadID chunk up s =
     (let up1 = up\<lparr>up_buffer := up_buffer up @ chunk\<rparr>
      in if int (length (up_buffer up1)) \<ge> minPart
         then (case uploadPart c objectKey uploadID (up1\<lparr>up_hasUploadedParts := True\<rparr>) s of
                 (Some e, up2, s2) \<Rightarrow> (Some e, up2, s2)
               | (None, up2, s2) \<Rightarrow> (None, up2\<lparr>up_partNumber := up_partNumber up2 + 1\<rparr>, s2))
         else (None, up1, s))"

text \<open>The read loop: an error of an upload or of a read ends it, \<open>Inr True\<close> when the pod was deleted meanwhile.\<close>

fun read_loop ::
    "'s s3Client \<Rightarrow> int \<Rightarrow> string \<Rightarrow> string \<Rightarrow> string list \<Rightarrow> string \<Rightarrow> read_end \<Rightarrow> upload \<Rightarrow> 's \<Rightarrow> bool result \<times> upload \<times> 's" where
  "read_loop c minPart objectKey uploadID [] final StreamEOF up s =
     (case take_chunk c minPart objectKey uploadID final up s of
        (Some e, up1, s1) \<Rightarrow> (Inl e, up1, s1) | (None, up1, s1) \<Rightarrow> (Inr False, up1, s1))"
| "read_loop c minPart objectKey uploadID [] final (StreamError msg) up s =
     (if stream_broken msg then (Inr True, up, cleanupPartialUpload c objectKey uploadID s)
      else (Inl (Err ''error reading logs''), up, s))"
| "read_loop c minPart objectKey uploadID (chunk # chunks) final ending up s =
     (case take_chunk c minPart objectKey uploadID chunk up s of
        (Some e, up1, s1) \<Rightarrow> (Inl e, up1, s1)
      | (None, up1, s1) \<Rightarrow> read_loop c minPart objectKey uploadID chunks final ending up1 s1)"

text \<open>The rest after the loop. The last component is the variable \<open>err\<close> the deferred abort looks at: only completing the upload sets it.\<close>

definition finish_upload ::
    "'s s3Client \<Rightarrow> int \<Rightarrow> string \<Rightarrow> string \<Rightarrow> upload \<Rightarrow> 's \<Rightarrow> check \<times> bool \<times> 's \<times> bool" where
  "finish_upload c minPart objectKey uploadID up s =
     (if up_buffer up \<noteq> '''' \<and> int (length (up_buffer up)) < minPart \<and> \<not> up_hasUploadedParts up
      then (case PutObject c objectKey (up_buffer up) s of
              (Inl e, s1) \<Rightarrow> (Some (Err ''error uploading small log file''), False, s1, False)
            | (Inr _, s1) \<Rightarrow> (None, True, s1, False))
      else case (if up_buffer up \<noteq> '''' then uploadPart c objectKey uploadID up s else (None, up, s)) of
             (Some e, up1, s1) \<Rightarrow> (Some e, False, s1, False)
           | (None, up1, s1) \<Rightarrow>
               if up_hasUploadedParts up1
               then (case CompleteMultipartUpload c objectKey uploadID (up_completedParts up1) s1 of
                       (Inl e, s2) \<Rightarrow> (Some (Err ''error completing multipart upload''), False, s2, True)
                     | (Inr _, s2) \<Rightarrow> (None, True, s2, False))
               else (None, True, s1, False))"

definition defaultMinPartSize :: int where
  "defaultMinPartSize = 5 * 1024 * 1024"

definition min_part :: "int \<Rightarrow> int" where
  "min_part minPartSize = (if minPartSize = 0 then defaultMinPartSize else minPartSize)"

definition s3_multipart :: "'s s3Client \<Rightarrow> int \<Rightarrow> string \<Rightarrow> log_stream \<Rightarrow> 's \<Rightarrow> check \<times> bool \<times> 's" where
  "s3_multipart c minPart objectKey st s =
     (case CreateMultipartUpload c objectKey s of
        (Inl e, s1) \<Rightarrow> (Some (Err ''error initiating multipart upload''), False, s1)
      | (Inr uploadID, s1) \<Rightarrow>
          let (r, up, s2) = read_loop c minPart objectKey uploadID (st_reads st) (st_last st) (st_end st)
                \<lparr>up_buffer = '''', up_completedParts = [], up_partNumber = 1, up_hasUploadedParts = False\<rparr> s1;
              (res, shouldCleanup, s3, err) =
                (case r of
                   Inl e \<Rightarrow> (Some e, False, s2, False)
                 | Inr True \<Rightarrow> (None, True, s2, False)
                 | Inr False \<Rightarrow> finish_upload c minPart objectKey uploadID up s2)
          in (res, shouldCleanup,
              if \<not> up_hasUploadedParts up \<or> err then cleanupPartialUpload c objectKey uploadID s3 else s3))"

definition s3_uploadLogsWithGetter ::
    "'s s3Client \<Rightarrow> int \<Rightarrow> int \<Rightarrow> int \<Rightarrow> (nat \<Rightarrow> log_stream kresult) \<Rightarrow> Pod \<Rightarrow> 's \<Rightarrow> check \<times> bool \<times> 's" where
  "s3_uploadLogsWithGetter c minPartSize streamRetryCount dagrunId opens pod s =
     (let n = (if streamRetryCount = 0 then defaultStreamRetryCount else streamRetryCount)
      in if 0 < n \<and> sp_Containers (pod_Spec pod) = [] then (None, False, s)
         else case open_loop s3_gone (\<lambda>_. False) opens 0 (nat n) of
                PodGone \<Rightarrow> (None, True, s)
              | OpenFailed \<Rightarrow> (Some (Err ''error in opening stream''), False, s)
              | NoStream \<Rightarrow> (Some (Err ''failed to open log stream''), False, s)
              | Opened st \<Rightarrow> s3_multipart c (min_part minPartSize) (s3_object_key dagrunId pod) st s)"

definition s3_UploadLogs ::
    "'k kube \<Rightarrow> 's s3Client \<Rightarrow> int \<Rightarrow> int \<Rightarrow> int \<Rightarrow> (nat \<Rightarrow> log_stream kresult) \<Rightarrow> Pod \<Rightarrow> 's \<Rightarrow> 'k \<Rightarrow> check \<times> 's \<times> 'k" where
  "s3_UploadLogs kb c minPartSize streamRetryCount dagrunId opens pod s k =
     (case s3_uploadLogsWithGetter c minPartSize streamRetryCount dagrunId opens pod s of
        (r, shouldCleanup, s') \<Rightarrow> (r, s', finaliserCleanup kb pod shouldCleanup k))"

text \<open>The listing follows continuation tokens until the service says that nothing is left; nothing bounds the number of pages.\<close>

partial_function (option) list_objects ::
    "'s s3Client \<Rightarrow> string \<Rightarrow> string option \<Rightarrow> string list \<Rightarrow> 's \<Rightarrow> string list result option" where
  "list_objects c prefix cont objectIds s =
     (case ListObjectsV2 c prefix cont s of
        Inl e \<Rightarrow> Some (Inl (Err ''error listing objects''))
      | Inr (keys, isTruncated, next) \<Rightarrow>
          if isTruncated then list_objects c prefix next (objectIds @ keys) s else Some (Inr (objectIds @ keys)))"

definition maxBatchSize :: nat where
  "maxBatchSize = 1000"

function delete_batches :: "'s s3Client \<Rightarrow> string list \<Rightarrow> 's \<Rightarrow> check \<times> 's" where
  "delete_batches c objectIds s =
     (if objectIds = [] then (None, s)
      else case DeleteObjects c (take maxBatchSize objectIds) s of
             (Inl e, s1) \<Rightarrow> (Some (Err ''error deleting objects batch''), s1)
           | (Inr errors, s1) \<Rightarrow>
               if errors \<noteq> [] then (Some (Err ''delete objects returned errors''), s1)
               else delete_batches c (drop maxBatchSize objectIds) s1)"
  by pat_completeness auto
termination
  by (relation "measure (\<lambda>(c, ids, s). length ids)") (auto simp: maxBatchSize_def)

declare delete_batches.simps [simp del]

definition s3_prefix :: "int \<Rightarrow> string" where
  "s3_prefix dagrunId = Itoa dagrunId @ ''/''"

definition s3_DeleteLogs :: "'s s3Client \<Rightarrow> int \<Rightarrow> 's \<Rightarrow> (check \<times> 's) option" where
  "s3_DeleteLogs c dagrunId s =
     (case list_objects c (s3_prefix dagrunId) None [] s of
        None \<Rightarrow> None
      | Some (Inl e) \<Rightarrow> Some (Some e, s)
      | Some (Inr objectIds) \<Rightarrow> Some (delete_batches c objectIds s))"

end
