(* ===== verification/Log_Store_Laws.thy ===== *)
theory Log_Store_Laws
  imports Log_Store
begin

text \<open>
  What the log stores keep: the laws of the S3 service as the store uses it, the progress of a multipart upload, and the
  properties of uploads and deletions.
\<close>

section \<open>The S3 service\<close>

text \<open>
  The laws of the service on the contents of the bucket and the uploads in progress, as its documentation states them: parts are
  collected per upload and number, completing an upload stores the listed parts in ascending order as one object, aborting leaves the
  objects alone, and a deletion without errors deletes the given keys. Nothing is said of calls that fail.
\<close>

definition bodies :: "(int \<rightharpoonup> string \<times> string) \<Rightarrow> (string \<times> int) list \<Rightarrow> string" where
  "bodies ps parts = concat (map (\<lambda>(e, n). snd (the (ps n))) parts)"

definition parts_known :: "(int \<rightharpoonup> string \<times> string) \<Rightarrow> (string \<times> int) list \<Rightarrow> bool" where
  "parts_known ps parts \<longleftrightarrow> list_all (\<lambda>(e, n). \<exists>b. ps n = Some (e, b)) parts \<and> sorted_wrt (<) (map snd parts)"

definition s3_spec :: "'s s3Client \<Rightarrow> ('s \<Rightarrow> string \<rightharpoonup> string) \<Rightarrow> ('s \<Rightarrow> string \<rightharpoonup> int \<rightharpoonup> string \<times> string) \<Rightarrow> bool" where
  "s3_spec c objs pend \<longleftrightarrow>
     (\<forall>key s uid s'. CreateMultipartUpload c key s = (Inr uid, s') \<longrightarrow> objs s' = objs s \<and> pend s' = (pend s)(uid \<mapsto> Map.empty)) \<and>
     (\<forall>key uid n b s e s' ps. UploadPart c key uid n b s = (Inr e, s') \<longrightarrow> pend s uid = Some ps \<longrightarrow>
        objs s' = objs s \<and> pend s' = (pend s)(uid \<mapsto> ps(n \<mapsto> (e, b)))) \<and>
     (\<forall>key uid parts s s' ps. CompleteMultipartUpload c key uid parts s = (Inr (), s') \<longrightarrow> pend s uid = Some ps \<longrightarrow> parts_known ps parts \<longrightarrow>
        objs s' = (objs s)(key \<mapsto> bodies ps parts) \<and> pend s' = (pend s)(uid := None)) \<and>
     (\<forall>key b s s'. PutObject c key b s = (Inr (), s') \<longrightarrow> objs s' = (objs s)(key \<mapsto> b) \<and> pend s' = pend s) \<and>
     (\<forall>key uid s r s'. AbortMultipartUpload c key uid s = (r, s') \<longrightarrow> objs s' = objs s) \<and>
     (\<forall>ks s s'. DeleteObjects c ks s = (Inr [], s') \<longrightarrow> objs s' = objs s |` (- set ks))"

lemmas s3_specD = s3_spec_def [THEN iffD1]

lemma s3_create:
  assumes "s3_spec c objs pend" "CreateMultipartUpload c key s = (Inr uid, s')"
  shows "objs s' = objs s \<and> pend s' = (pend s)(uid \<mapsto> Map.empty)"
  using s3_specD [OF assms(1), THEN conjunct1, rule_format, OF assms(2)] .

lemma s3_part:
  assumes "s3_spec c objs pend" "UploadPart c key uid n b s = (Inr e, s')" "pend s uid = Some ps"
  shows "objs s' = objs s \<and> pend s' = (pend s)(uid \<mapsto> ps(n \<mapsto> (e, b)))"
  using s3_specD [OF assms(1), THEN conjunct2, THEN conjunct1, rule_format, OF assms(2,3)] .

lemma s3_complete:
  assumes "s3_spec c objs pend" "CompleteMultipartUpload c key uid parts s = (Inr (), s')" "pend s uid = Some ps" "parts_known ps parts"
  shows "objs s' = (objs s)(key \<mapsto> bodies ps parts)"
  using s3_specD [OF assms(1), THEN conjunct2, THEN conjunct2, THEN conjunct1, rule_format, OF assms(2-4)] by (rule conjunct1)

lemma s3_put:
  assumes "s3_spec c objs pend" "PutObject c key b s = (Inr (), s')"
  shows "objs s' = (objs s)(key \<mapsto> b)"
  using s3_specD [OF assms(1), THEN conjunct2, THEN conjunct2, THEN conjunct2, THEN conjunct1, rule_format, OF assms(2)] by (rule conjunct1)

lemma s3_abort:
  assumes "s3_spec c objs pend"
  shows "objs (cleanupPartialUpload c key uid s) = objs s"
  using s3_specD [OF assms, THEN conjunct2, THEN conjunct2, THEN conjunct2, THEN conjunct2, THEN conjunct1, rule_format, OF prod.collapse [symmetric]]
  by (simp add: cleanupPartialUpload_def)

lemma s3_deleted:
  assumes "s3_spec c objs pend" "DeleteObjects c ks s = (Inr [], s')"
  shows "objs s' = objs s |` (- set ks)"
  using s3_specD [OF assms(1), THEN conjunct2, THEN conjunct2, THEN conjunct2, THEN conjunct2, THEN conjunct2, rule_format, OF assms(2)] .

section \<open>The progress of an upload\<close>

text \<open>
  The completed parts are known to the service, in ascending order, each of at least the minimal size, and with the buffer they make up
  what has been read so far.
\<close>

definition progress :: "('s \<Rightarrow> string \<rightharpoonup> int \<rightharpoonup> string \<times> string) \<Rightarrow> int \<Rightarrow> string \<Rightarrow> string \<Rightarrow> upload \<Rightarrow> 's \<Rightarrow> bool" where
  "progress pend minPart uid data up s \<longleftrightarrow>
     (\<exists>ps. pend s uid = Some ps \<and> parts_known ps (up_completedParts up) \<and> bodies ps (up_completedParts up) @ up_buffer up = data \<and>
       list_all (\<lambda>(e, n). n < up_partNumber up \<and> minPart \<le> int (length (snd (the (ps n))))) (up_completedParts up)) \<and>
     up_hasUploadedParts up = (up_completedParts up \<noteq> []) \<and> int (length (up_buffer up)) < minPart"

lemma bodies_snoc [simp]: "bodies ps (xs @ [(e, n)]) = bodies ps xs @ snd (the (ps n))"
  by (simp add: bodies_def)

lemma bodies_other: "list_all (\<lambda>(e, n). n < m) xs \<Longrightarrow> bodies (ps(m \<mapsto> v)) xs = bodies ps xs"
  by (induction xs) (auto simp: bodies_def)

lemma parts_known_snoc:
  assumes "parts_known ps xs" "list_all (\<lambda>(e, n). n < m) xs"
  shows "parts_known (ps(m \<mapsto> (e, b))) (xs @ [(e, m)])"
  using assms unfolding parts_known_def
  by (auto simp: list_all_iff sorted_wrt_append)

lemma uploadPart_progress:
  assumes spec: "s3_spec c objs pend" and up: "uploadPart c key uid up s = (None, up', s')"
    and pend: "pend s uid = Some ps" "parts_known ps (up_completedParts up)" "bodies ps (up_completedParts up) @ up_buffer up = data"
    and all: "list_all (\<lambda>(e, n). n < up_partNumber up \<and> minPart \<le> int (length (snd (the (ps n))))) (up_completedParts up)"
  shows "objs s' = objs s \<and> up_buffer up' = '''' \<and> up_completedParts up' \<noteq> [] \<and> up_partNumber up' = up_partNumber up \<and>
    up_hasUploadedParts up' = up_hasUploadedParts up \<and>
    (\<exists>ps'. pend s' uid = Some ps' \<and> parts_known ps' (up_completedParts up') \<and> bodies ps' (up_completedParts up') = data \<and>
      (minPart \<le> int (length (up_buffer up)) \<longrightarrow>
        list_all (\<lambda>(e, n). n < up_partNumber up + 1 \<and> minPart \<le> int (length (snd (the (ps' n))))) (up_completedParts up')))"
proof -
  obtain e where e: "UploadPart c key uid (up_partNumber up) (up_buffer up) s = (Inr e, s')"
    and up': "up' = up\<lparr>up_completedParts := up_completedParts up @ [(e, up_partNumber up)], up_buffer := ''''\<rparr>"
    using up by (auto simp: uploadPart_def split: prod.splits sum.splits)
  have less: "list_all (\<lambda>(e, n). n < up_partNumber up) (up_completedParts up)"
    using all by (auto simp: list_all_iff)
  let ?ps = "ps(up_partNumber up \<mapsto> (e, up_buffer up))"
  have "objs s' = objs s" "pend s' uid = Some ?ps" using s3_part [OF spec e pend(1)] by simp_all
  moreover have "parts_known ?ps (up_completedParts up')"
    unfolding up' using parts_known_snoc [OF pend(2) less] by simp
  moreover have "bodies ?ps (up_completedParts up') = data"
    unfolding up' using bodies_other [OF less] pend(3) by simp
  moreover have "list_all (\<lambda>(e, n). n < up_partNumber up + 1 \<and> minPart \<le> int (length (snd (the (?ps n))))) (up_completedParts up')"
    if "minPart \<le> int (length (up_buffer up))"
    using all that unfolding up' by (fastforce simp: list_all_iff)
  ultimately show ?thesis unfolding up' by simp
qed

lemma take_chunk_progress:
  assumes spec: "s3_spec c objs pend" and pr: "progress pend minPart uid data up s"
    and t: "take_chunk c minPart key uid chunk up s = (None, up', s')" and "0 < minPart"
  shows "progress pend minPart uid (data @ chunk) up' s' \<and> objs s' = objs s"
proof -
  obtain ps where ps: "pend s uid = Some ps" "parts_known ps (up_completedParts up)" "bodies ps (up_completedParts up) @ up_buffer up = data"
    "list_all (\<lambda>(e, n). n < up_partNumber up \<and> minPart \<le> int (length (snd (the (ps n))))) (up_completedParts up)"
    using pr unfolding progress_def by blast
  show ?thesis
  proof (cases "minPart \<le> int (length (up_buffer up @ chunk))")
    case False
    then have "up' = up\<lparr>up_buffer := up_buffer up @ chunk\<rparr>" "s' = s" using t by (auto simp: take_chunk_def)
    then show ?thesis using pr ps False unfolding progress_def by (auto intro!: exI [of _ ps])
  next
    case True
    let ?up = "up\<lparr>up_buffer := up_buffer up @ chunk, up_hasUploadedParts := True\<rparr>"
    obtain up1 where u: "uploadPart c key uid ?up s = (None, up1, s')" and up': "up' = up1\<lparr>up_partNumber := up_partNumber up1 + 1\<rparr>"
      using t True by (auto simp: take_chunk_def Let_def split: prod.splits option.splits)
    have "bodies ps (up_completedParts ?up) @ up_buffer ?up = data @ chunk" using ps(3) by simp
    from uploadPart_progress [OF spec u, of ps, OF _ _ this, of minPart] ps True \<open>0 < minPart\<close>
    show ?thesis unfolding progress_def up' by auto
  qed
qed

lemma read_loop_progress:
  assumes "s3_spec c objs pend" "0 < minPart"
  shows "progress pend minPart uid data up s \<Longrightarrow> read_loop c minPart key uid chunks final ending up s = (Inr b, up', s') \<Longrightarrow>
    objs s' = objs s \<and> (if b then \<exists>msg. ending = StreamError msg \<and> stream_broken msg
      else ending = StreamEOF \<and> progress pend minPart uid (data @ concat chunks @ final) up' s')"
proof (induction chunks arbitrary: data up s)
  case Nil
  show ?case
  proof (cases ending)
    case StreamEOF
    then have "take_chunk c minPart key uid final up s = (None, up', s')" "\<not> b"
      using Nil(2) by (auto split: prod.splits option.splits)
    then show ?thesis using take_chunk_progress [OF assms(1) Nil(1) _ assms(2)] StreamEOF by simp
  next
    case (StreamError msg)
    then show ?thesis using Nil(2) s3_abort [OF assms(1)] by (auto split: if_splits)
  qed
next
  case (Cons chunk chunks)
  obtain up1 s1 where t: "take_chunk c minPart key uid chunk up s = (None, up1, s1)"
    and r: "read_loop c minPart key uid chunks final ending up1 s1 = (Inr b, up', s')"
    using Cons(3) by (auto split: prod.splits option.splits)
  have p: "progress pend minPart uid (data @ chunk) up1 s1" "objs s1 = objs s"
    using take_chunk_progress [OF assms(1) Cons(2) t assms(2)] by simp_all
  show ?case using Cons.IH [OF p(1) r] p(2) by (cases b) simp_all
qed

lemma finish_upload_stores:
  assumes spec: "s3_spec c objs pend" and pr: "progress pend minPart uid data up s"
    and f: "finish_upload c minPart key uid up s = (None, b, s', err)"
  shows "b \<and> \<not> err \<and> objs s' = (if data = '''' then objs s else (objs s)(key \<mapsto> data))"
proof -
  obtain ps where ps: "pend s uid = Some ps" "parts_known ps (up_completedParts up)" "bodies ps (up_completedParts up) @ up_buffer up = data"
    "list_all (\<lambda>(e, n). n < up_partNumber up \<and> minPart \<le> int (length (snd (the (ps n))))) (up_completedParts up)"
    and started: "up_hasUploadedParts up = (up_completedParts up \<noteq> [])" and short: "int (length (up_buffer up)) < minPart"
    using pr unfolding progress_def by blast
  have nonempty: "data \<noteq> ''''" if "up_completedParts up \<noteq> []"
  proof -
    obtain e n xs where "up_completedParts up = (e, n) # xs" using \<open>up_completedParts up \<noteq> []\<close> by (cases "up_completedParts up") auto
    then show ?thesis using ps(3,4) short by (auto simp: bodies_def)
  qed
  show ?thesis
  proof (cases "up_hasUploadedParts up")
    case False
    then have "data = up_buffer up" using started ps(3) by (simp add: bodies_def)
    then show ?thesis using f False short s3_put [OF spec]
      by (auto simp: finish_upload_def split: prod.splits sum.splits if_splits)
  next
    case True
    show ?thesis
    proof (cases "up_buffer up = ''''")
      case buf: True
      then have "CompleteMultipartUpload c key uid (up_completedParts up) s = (Inr (), s')" "b" "\<not> err"
        using f True by (auto simp: finish_upload_def split: prod.splits sum.splits if_splits)
      then show ?thesis using s3_complete [OF spec _ ps(1,2)] ps(3) buf nonempty True started by simp
    next
      case buf: False
      obtain r up1 s1 where r: "uploadPart c key uid up s = (r, up1, s1)" by (cases "uploadPart c key uid up s") auto
      have "r = None" using f buf True r by (cases r) (simp_all add: finish_upload_def)
      then have u: "uploadPart c key uid up s = (None, up1, s1)" using r by simp
      from uploadPart_progress [OF spec u ps] obtain ps' where ps': "pend s1 uid = Some ps'" "parts_known ps' (up_completedParts up1)"
        "bodies ps' (up_completedParts up1) = data" "objs s1 = objs s" "up_hasUploadedParts up1" using True by auto
      then have "CompleteMultipartUpload c key uid (up_completedParts up1) s1 = (Inr (), s')" "b" "\<not> err"
        using f buf True u by (simp_all add: finish_upload_def split: prod.splits sum.splits)
      then show ?thesis using s3_complete [OF spec _ ps'(1,2)] ps' nonempty True started by simp
    qed
  qed
qed

lemma min_part_pos: "0 \<le> n \<Longrightarrow> 0 < min_part n"
  by (simp add: min_part_def defaultMinPartSize_def)

lemma progress_start:
  assumes "pend s uid = Some Map.empty" "0 < minPart"
  shows "progress pend minPart uid '''' \<lparr>up_buffer = '''', up_completedParts = [], up_partNumber = 1, up_hasUploadedParts = False\<rparr> s"
  using assms by (simp add: progress_def parts_known_def bodies_def)

lemma s3_multipart_stores:
  assumes spec: "s3_spec c objs pend" and pos: "0 < minPart" and m: "s3_multipart c minPart key st s = (r, True, s')"
  shows "r = None \<and> (case st_end st of
      StreamEOF \<Rightarrow> objs s' = (if stream_data st = '''' then objs s else (objs s)(key \<mapsto> stream_data st))
    | StreamError msg \<Rightarrow> stream_broken msg \<and> objs s' = objs s)"
proof -
  let ?up = "\<lparr>up_buffer = '''', up_completedParts = [], up_partNumber = 1, up_hasUploadedParts = False\<rparr>"
  obtain uid s1 where cr: "CreateMultipartUpload c key s = (Inr uid, s1)"
    using m by (auto simp: s3_multipart_def split: prod.splits sum.splits)
  obtain q up s2 where rl: "read_loop c minPart key uid (st_reads st) (st_last st) (st_end st) ?up s1 = (q, up, s2)"
    by (metis prod_cases3)
  have s1: "objs s1 = objs s" "pend s1 uid = Some Map.empty" using s3_create [OF spec cr] by simp_all
  note inv = read_loop_progress [OF spec pos progress_start [where pend = pend and uid = uid and s = s1, OF s1(2) pos]]
  obtain b where q: "q = Inr b" using m cr rl by (cases q) (simp_all add: s3_multipart_def)
  show ?thesis
  proof (cases b)
    case True
    then have "r = None" "objs s' = objs s2" using m cr rl q s3_abort [OF spec] by (auto simp: s3_multipart_def split: if_splits)
    then show ?thesis using inv [OF rl [unfolded q]] True s1 by auto
  next
    case False
    obtain b' s3 err where f: "finish_upload c minPart key uid up s2 = (r, b', s3, err)" and b': b'
      using m cr rl q False by (auto simp: s3_multipart_def split: prod.splits)
    have "objs s' = objs s3" using m cr rl q False f s3_abort [OF spec] by (auto simp: s3_multipart_def)
    moreover have "r = None" using f b' by (auto simp: finish_upload_def uploadPart_def split: prod.splits sum.splits if_splits)
    moreover have "st_end st = StreamEOF" "progress pend minPart uid (stream_data st) up s2" "objs s2 = objs s"
      using inv [OF rl [unfolded q]] False s1 by (simp_all add: stream_data_def)
    ultimately show ?thesis using finish_upload_stores [OF spec _ f [unfolded \<open>r = None\<close>]] by simp
  qed
qed

section \<open>Uploads\<close>

text \<open>
  (C11) What it means for the log when collecting it into S3 removes the finalizer of the pod. There are three cases. The stream of the log was opened and
  came to its end: then the whole log is stored under the key of the pod, whatever the sizes of the reads and of the parts, and nothing else has changed; of an
  empty log no object is made. Opening the stream was answered with \<open>not found\<close>: the bucket is as it was. A read failed with a message that the
  code takes for the deletion of the pod, which are \<open>not found\<close>, \<open>connection refused\<close> and \<open>has been terminated\<close>: then no object is stored and what had been read is
  lost, and nothing in the code makes sure that the pod is gone. A failed upload, any other read error and a failed opening never remove the finalizer.
\<close>

theorem s3_logs_stored:
  assumes "s3_spec c objs pend" "0 \<le> minPartSize" "s3_UploadLogs kb c minPartSize streamRetryCount dagrunId opens pod s k = (r, s', k')" "k' \<noteq> k"
  shows "r = None \<and>
    (case open_loop s3_gone (\<lambda>_. False) opens 0 (nat (if streamRetryCount = 0 then 3 else streamRetryCount)) of
       Opened st \<Rightarrow>
         (case st_end st of
            StreamEOF \<Rightarrow> objs s' = (if stream_data st = '''' then objs s else (objs s)(s3_object_key dagrunId pod \<mapsto> stream_data st))
          | StreamError msg \<Rightarrow> stream_broken msg \<and> objs s' = objs s)
     | PodGone \<Rightarrow> s' = s
     | _ \<Rightarrow> False)"
proof -
  have u: "s3_uploadLogsWithGetter c minPartSize streamRetryCount dagrunId opens pod s = (r, True, s')"
    using assms(3,4) by (auto simp: s3_UploadLogs_def finaliserCleanup_def split: prod.splits if_splits)
  show ?thesis
  proof (cases "open_loop s3_gone (\<lambda>_. False) opens 0 (nat (if streamRetryCount = 0 then 3 else streamRetryCount))")
    case (Opened st)
    then have "s3_multipart c (min_part minPartSize) (s3_object_key dagrunId pod) st s = (r, True, s')"
      using u by (auto simp: s3_uploadLogsWithGetter_def defaultStreamRetryCount_def Let_def split: if_splits)
    from s3_multipart_stores [OF assms(1) min_part_pos [OF assms(2)] this] Opened show ?thesis by simp
  qed (use u in \<open>auto simp: s3_uploadLogsWithGetter_def defaultStreamRetryCount_def Let_def split: if_splits\<close>)
qed

lemma uploadPart_works:
  assumes "\<And>key uid n b s. \<exists>e s'. UploadPart c key uid n b s = (Inr e, s')"
  obtains up' s' where "uploadPart c key uid up s = (None, up', s')"
  using assms [of key uid "up_partNumber up" "up_buffer up" s] by (auto simp: uploadPart_def)

lemma take_chunk_works:
  assumes "\<And>key uid n b s. \<exists>e s'. UploadPart c key uid n b s = (Inr e, s')"
  obtains up' s' where "take_chunk c minPart key uid chunk up s = (None, up', s')"
proof -
  obtain up1 s1 where "uploadPart c key uid (up\<lparr>up_buffer := up_buffer up @ chunk, up_hasUploadedParts := True\<rparr>) s = (None, up1, s1)"
    using uploadPart_works [OF assms] .
  then have "\<exists>up' s'. take_chunk c minPart key uid chunk up s = (None, up', s')" by (simp add: take_chunk_def Let_def)
  then show ?thesis using that by blast
qed

lemma read_error_progress:
  assumes spec: "s3_spec c objs pend" "0 < minPart" and works: "\<And>key uid n b s. \<exists>e s'. UploadPart c key uid n b s = (Inr e, s')"
    and "\<not> stream_broken msg"
  shows "progress pend minPart uid data up s \<Longrightarrow>
    \<exists>up' s'. read_loop c minPart key uid chunks final (StreamError msg) up s = (Inl (Err ''error reading logs''), up', s') \<and>
      progress pend minPart uid (data @ concat chunks) up' s'"
proof (induction chunks arbitrary: data up s)
  case Nil
  then show ?case using assms(4) by simp
next
  case (Cons chunk chunks)
  obtain up1 s1 where t: "take_chunk c minPart key uid chunk up s = (None, up1, s1)" using take_chunk_works [OF works] .
  from Cons.IH [OF conjunct1 [OF take_chunk_progress [OF spec(1) Cons(2) t spec(2)]]] show ?case by (simp add: t)
qed

lemma broken_stream_ends:
  assumes spec: "s3_spec c objs pend" "0 < minPart" and works: "\<And>key uid n b s. \<exists>e s'. UploadPart c key uid n b s = (Inr e, s')"
    and "stream_broken msg"
  shows "progress pend minPart uid data up s \<Longrightarrow>
    \<exists>up' s'. read_loop c minPart key uid chunks final (StreamError msg) up s = (Inr True, up', s')"
proof (induction chunks arbitrary: data up s)
  case Nil
  then show ?case using assms(4) by simp
next
  case (Cons chunk chunks)
  obtain up1 s1 where t: "take_chunk c minPart key uid chunk up s = (None, up1, s1)" using take_chunk_works [OF works] .
  from Cons.IH [OF conjunct1 [OF take_chunk_progress [OF spec(1) Cons(2) t spec(2)]]] show ?case by (simp add: t)
qed

text \<open>
  The third case above does occur with a pod that is still there: after a refused connection in the middle of the log, however much has been read and
  although every call of the service works, the collection reports success, removes the finalizer and stores nothing.
\<close>

theorem broken_stream_loses_log:
  assumes "s3_spec c objs pend" "0 \<le> minPartSize" "0 \<le> streamRetryCount" "sp_Containers (pod_Spec pod) \<noteq> []"
    and "\<And>key uid n b s. \<exists>e s'. UploadPart c key uid n b s = (Inr e, s')" "\<And>key s. \<exists>uid s'. CreateMultipartUpload c key s = (Inr uid, s')"
    and "opens 0 = Inr st" "st_end st = StreamError msg" "stream_broken msg"
  shows "\<exists>s'. s3_UploadLogs kb c minPartSize streamRetryCount dagrunId opens pod s k = (None, s', finaliserCleanup kb pod True k) \<and> objs s' = objs s"
proof -
  let ?key = "s3_object_key dagrunId pod"
  obtain uid s1 where cr: "CreateMultipartUpload c ?key s = (Inr uid, s1)" using assms(6) by blast
  have pos: "0 < min_part minPartSize" by (rule min_part_pos [OF assms(2)])
  have "pend s1 uid = Some Map.empty" using s3_create [OF assms(1) cr] by simp
  from broken_stream_ends [OF assms(1) pos assms(5,9) progress_start [where pend = pend, OF this pos]]
  obtain up' s2 where rl: "read_loop c (min_part minPartSize) ?key uid (st_reads st) (st_last st) (st_end st)
      \<lparr>up_buffer = '''', up_completedParts = [], up_partNumber = 1, up_hasUploadedParts = False\<rparr> s1 = (Inr True, up', s2)"
    unfolding assms(8) by blast
  obtain n where n: "nat (if streamRetryCount = 0 then 3 else streamRetryCount) = Suc n"
    using assms(3) by (cases "nat (if streamRetryCount = 0 then 3 else streamRetryCount)") (auto split: if_splits)
  have "open_loop s3_gone (\<lambda>_. False) opens 0 (nat (if streamRetryCount = 0 then 3 else streamRetryCount)) = Opened st"
    by (simp add: n assms(7))
  then have g: "s3_uploadLogsWithGetter c minPartSize streamRetryCount dagrunId opens pod s = s3_multipart c (min_part minPartSize) ?key st s"
    using assms(4) by (simp add: s3_uploadLogsWithGetter_def defaultStreamRetryCount_def Let_def cong: if_cong)
  obtain s' where m: "s3_multipart c (min_part minPartSize) ?key st s = (None, True, s')"
    using cr rl by (auto simp: s3_multipart_def)
  from s3_multipart_stores [OF assms(1) pos m] have "objs s' = objs s" by (simp add: assms(8))
  then show ?thesis using g m by (auto simp: s3_UploadLogs_def finaliserCleanup_def)
qed

text \<open>
  A read error leaves a multipart upload behind: the deferred clean-up runs only if no part was uploaded or the completion failed, so an error
  of the stream after the first part, which is not that of a deleted pod, returns with the upload and its parts still in progress.
\<close>

theorem s3_read_error_leaks_upload:
  assumes "s3_spec c objs pend" "0 < minPart" "\<And>key uid n b s. \<exists>e s'. UploadPart c key uid n b s = (Inr e, s')"
    and "CreateMultipartUpload c key s = (Inr uid, s1)"
    and "st_end st = StreamError msg" "\<not> stream_broken msg" "minPart \<le> int (length (concat (st_reads st)))"
  shows "\<exists>s' ps. s3_multipart c minPart key st s = (Some (Err ''error reading logs''), False, s') \<and> pend s' uid = Some ps \<and> ps \<noteq> Map.empty"
proof -
  have "pend s1 uid = Some Map.empty" using s3_create [OF assms(1,4)] by simp
  from read_error_progress [OF assms(1-3,6) progress_start [where pend = pend, OF this assms(2)], of key "st_reads st" "st_last st"]
  obtain up' s' where rl: "read_loop c minPart key uid (st_reads st) (st_last st) (st_end st)
      \<lparr>up_buffer = '''', up_completedParts = [], up_partNumber = 1, up_hasUploadedParts = False\<rparr> s1 = (Inl (Err ''error reading logs''), up', s')"
    and pr: "progress pend minPart uid (concat (st_reads st)) up' s'" using assms(5) by auto
  obtain ps where ps: "pend s' uid = Some ps" "parts_known ps (up_completedParts up')"
    "bodies ps (up_completedParts up') @ up_buffer up' = concat (st_reads st)" "int (length (up_buffer up')) < minPart"
    "up_hasUploadedParts up' = (up_completedParts up' \<noteq> [])" using pr unfolding progress_def by blast
  have ne: "up_completedParts up' \<noteq> []"
  proof
    assume "up_completedParts up' = []"
    then have "up_buffer up' = concat (st_reads st)" using ps(3) by (simp add: bodies_def)
    then show False using ps(4) assms(7) by simp
  qed
  then have "ps \<noteq> Map.empty" using ps(2) by (cases "up_completedParts up'") (auto simp: parts_known_def)
  moreover have "s3_multipart c minPart key st s = (Some (Err ''error reading logs''), False, s')"
    using assms(4) rl ps(5) ne by (simp add: s3_multipart_def)
  ultimately show ?thesis using ps(1) by blast
qed

section \<open>Deletions\<close>

text \<open>The pages the service answers to a listing, from a continuation token on.\<close>

inductive pages :: "'s s3Client \<Rightarrow> string \<Rightarrow> 's \<Rightarrow> string option \<Rightarrow> string list \<Rightarrow> bool" for c prefix s where
  last_page: "ListObjectsV2 c prefix t s = Inr (ks, False, next) \<Longrightarrow> pages c prefix s t ks"
| next_page: "ListObjectsV2 c prefix t s = Inr (ks, True, next) \<Longrightarrow> pages c prefix s next rest \<Longrightarrow> pages c prefix s t (ks @ rest)"

lemma list_objects_pages: "pages c prefix s t ks \<Longrightarrow> list_objects c prefix t acc s = Some (Inr (acc @ ks))"
  by (induction arbitrary: acc rule: pages.induct) (simp_all add: list_objects.simps)

lemma delete_batches_exact:
  assumes "s3_spec c objs pend" "\<And>ks s. length ks \<le> maxBatchSize \<Longrightarrow> \<exists>s'. DeleteObjects c ks s = (Inr [], s')"
  shows "\<exists>s'. delete_batches c xs s = (None, s') \<and> objs s' = objs s |` (- set xs)"
proof (induction "length xs" arbitrary: xs s rule: less_induct)
  case less
  show ?case
  proof (cases "xs = []")
    case True
    then show ?thesis by (simp add: delete_batches.simps restrict_map_def)
  next
    case False
    obtain s1 where s1: "DeleteObjects c (take maxBatchSize xs) s = (Inr [], s1)" using assms(2) by (metis length_take min.cobounded2)
    obtain s' where s': "delete_batches c (drop maxBatchSize xs) s1 = (None, s')" "objs s' = objs s1 |` (- set (drop maxBatchSize xs))"
      using less [of "drop maxBatchSize xs" s1] False by (auto simp: maxBatchSize_def)
    have "set xs = set (take maxBatchSize xs) \<union> set (drop maxBatchSize xs)" by (metis append_take_drop_id set_append)
    then have "objs s' = objs s |` (- set xs)" using s'(2) s3_deleted [OF assms(1) s1] by (simp add: Int_commute)
    moreover have "delete_batches c xs s = (None, s')" using False s1 s'(1) by (subst delete_batches.simps) simp
    ultimately show ?thesis by blast
  qed
qed

lemma digits_then_slash:
  assumes "list_all is_digit xs" "list_all is_digit ys" "\<not> is_digit c" "xs @ c # us = ys @ c # vs"
  shows "xs = ys \<and> us = vs"
  using assms
proof (induction xs arbitrary: ys)
  case Nil
  then show ?case by (cases ys) auto
next
  case (Cons x xs)
  then show ?case by (cases ys) auto
qed

lemma not_digit_slash [simp]: "\<not> is_digit (CHR ''/'')"
  by (simp add: is_digit_def)

lemma Itoa_digits: "0 \<le> i \<Longrightarrow> list_all is_digit (Itoa i)"
  by (simp add: Itoa_def FormatUint_digits)

lemma Itoa_inj: "0 \<le> i \<Longrightarrow> 0 \<le> j \<Longrightarrow> Itoa i = Itoa j \<longleftrightarrow> i = j"
  by (auto simp: Itoa_def inj_FormatUint)

lemma run_prefix:
  assumes "0 \<le> i" "0 \<le> j"
  shows "take (length (Itoa i @ ''/'')) (Itoa j @ ''/'' @ rest) = Itoa i @ ''/'' \<longleftrightarrow> i = j"
proof
  assume "take (length (Itoa i @ ''/'')) (Itoa j @ ''/'' @ rest) = Itoa i @ ''/''"
  then have "(Itoa i @ ''/'') @ drop (length (Itoa i @ ''/'')) (Itoa j @ ''/'' @ rest) = Itoa j @ ''/'' @ rest"
    by (metis append_take_drop_id)
  then have "Itoa i = Itoa j" using digits_then_slash [OF Itoa_digits [OF assms(1)] Itoa_digits [OF assms(2)] not_digit_slash] by simp
  then show "i = j" using Itoa_inj [OF assms] by simp
qed simp

text \<open>
  Deleting the logs of a run deletes all of them and no others: if the pages of the listing, however many, hold the keys with
  the prefix, and deletions of at most 1000 keys succeed, then the deletion ends, the logs of the run are gone, and those of every other
  run are as they were, run 71 being another one than run 7.
\<close>

theorem s3_delete_logs_exact:
  assumes "s3_spec c objs pend" "\<And>ks s. length ks \<le> maxBatchSize \<Longrightarrow> \<exists>s'. DeleteObjects c ks s = (Inr [], s')"
    and "pages c (s3_prefix dagrunId) s None ks" "set ks = {k \<in> dom (objs s). take (length (s3_prefix dagrunId)) k = s3_prefix dagrunId}"
    and "0 \<le> dagrunId"
  shows "\<exists>s'. s3_DeleteLogs c dagrunId s = Some (None, s') \<and>
    (\<forall>j pod. 0 \<le> j \<longrightarrow> objs s' (s3_object_key j pod) = (if j = dagrunId then None else objs s (s3_object_key j pod)))"
proof -
  obtain s' where s': "delete_batches c ks s = (None, s')" "objs s' = objs s |` (- set ks)"
    using delete_batches_exact [OF assms(1,2)] by blast
  have "s3_DeleteLogs c dagrunId s = Some (None, s')"
    by (simp add: s3_DeleteLogs_def list_objects_pages [OF assms(3)] s'(1))
  moreover have "objs s' (s3_object_key j pod) = (if j = dagrunId then None else objs s (s3_object_key j pod))" if "0 \<le> j" for j pod
    using run_prefix [OF assms(5) that, of "pod_UID pod @ ''-log.txt''"] s'(2) assms(4)
    by (auto simp: restrict_map_def s3_object_key_def s3_prefix_def)
  ultimately show ?thesis by blast
qed

end
