(* ===== verification/Log_Collection.thy ===== *)
theory Log_Collection
  imports Log_Store_Laws Worker_Safety
begin

text \<open>
  How a worker collects the logs of a pod (\<open>performLogCollection\<close> of \<open>internal/workers/workers.go\<close>) into either log store: one
  goroutine as a function, and the interleaving of all of them on the set of pods being fetched as a step relation.
\<close>

section \<open>The interface\<close>

text \<open>
  A log store as the worker sees it: its own state, and the cluster state that removing a finalizer changes. A deletion that never
  ends has no result.
\<close>

record ('l, 'k) LogStore =
  ls_IsFetching :: "int \<Rightarrow> Pod \<Rightarrow> 'l \<Rightarrow> bool"
  ls_MarkAsFetching :: "int \<Rightarrow> Pod \<Rightarrow> 'l \<Rightarrow> check \<times> 'l"
  ls_UnlistFetching :: "int \<Rightarrow> Pod \<Rightarrow> 'l \<Rightarrow> 'l"
  ls_UploadLogs :: "int \<Rightarrow> Pod \<Rightarrow> 'l \<Rightarrow> 'k \<Rightarrow> check \<times> 'l \<times> 'k"
  ls_DeleteLogs :: "int \<Rightarrow> 'l \<Rightarrow> (check \<times> 'l) option"

text \<open>The file system store, with what the operating system and the API server answer to this collection.\<close>

definition fs_store ::
    "'k kube \<Rightarrow> fs_calls \<Rightarrow> remove_result \<Rightarrow> string set \<Rightarrow> string \<Rightarrow> int \<Rightarrow> (nat \<Rightarrow> bool) \<Rightarrow> (nat \<Rightarrow> log_stream kresult) \<Rightarrow>
      (fetching \<times> files, 'k) LogStore" where
  "fs_store kb io answer kept baseDir retryCount cancelled opens =
     \<lparr>ls_IsFetching = (\<lambda>i pod l. fs_IsFetching i pod (fst l)),
      ls_MarkAsFetching = (\<lambda>i pod l. case fs_MarkAsFetching i pod (fst l) of (r, f) \<Rightarrow> (r, f, snd l)),
      ls_UnlistFetching = (\<lambda>i pod l. (fs_UnlistFetching i pod (fst l), snd l)),
      ls_UploadLogs = (\<lambda>i pod l k. case fs_UploadLogs kb io baseDir retryCount i cancelled opens pod (snd l) k of
        (r, s, k') \<Rightarrow> (r, (fst l, s), k')),
      ls_DeleteLogs = (\<lambda>i l. case fs_DeleteLogs answer kept baseDir i (snd l) of (r, s) \<Rightarrow> Some (r, fst l, s))\<rparr>"

definition s3_store ::
    "'k kube \<Rightarrow> 's s3Client \<Rightarrow> int \<Rightarrow> int \<Rightarrow> (nat \<Rightarrow> log_stream kresult) \<Rightarrow> (fetching \<times> 's, 'k) LogStore" where
  "s3_store kb c minPartSize streamRetryCount opens =
     \<lparr>ls_IsFetching = (\<lambda>i pod l. s3_IsFetching i pod (fst l)),
      ls_MarkAsFetching = (\<lambda>i pod l. case s3_MarkAsFetching i pod (fst l) of (r, f) \<Rightarrow> (r, f, snd l)),
      ls_UnlistFetching = (\<lambda>i pod l. (s3_UnlistFetching i pod (fst l), snd l)),
      ls_UploadLogs = (\<lambda>i pod l k. case s3_UploadLogs kb c minPartSize streamRetryCount i opens pod (snd l) k of
        (r, s, k') \<Rightarrow> (r, (fst l, s), k')),
      ls_DeleteLogs = (\<lambda>i l. map_option (\<lambda>(r, s). (r, fst l, s)) (s3_DeleteLogs c i (snd l)))\<rparr>"

section \<open>Collecting the logs of a pod\<close>

definition cleanupLogsForDeletedDagrun :: "('l, 'k) LogStore \<Rightarrow> int \<Rightarrow> 'l \<Rightarrow> 'l option" where
  "cleanupLogsForDeletedDagrun store dagRunId l = map_option snd (ls_DeleteLogs store dagRunId l)"

definition uploadLogsAndCleanup :: "'k worker \<Rightarrow> ('l, 'k) LogStore \<Rightarrow> int \<Rightarrow> Pod \<Rightarrow> db \<Rightarrow> 'l \<Rightarrow> 'k \<Rightarrow> ('l \<times> 'k) option" where
  "uploadLogsAndCleanup w store dagRunId pod s l k =
     (case ls_UploadLogs store dagRunId pod l k of
        (_, l1, k1) \<Rightarrow>
          if db_DagrunExists (wk_dbManager w) (row_id dagRunId) s then Some (l1, k1)
          else map_option (\<lambda>l2. (l2, k1)) (cleanupLogsForDeletedDagrun store dagRunId l1))"

definition performLogCollection :: "'k worker \<Rightarrow> ('l, 'k) LogStore \<Rightarrow> Pod \<Rightarrow> db \<Rightarrow> 'l \<Rightarrow> 'k \<Rightarrow> ('l \<times> 'k) option" where
  "performLogCollection w store pod s l k =
     (case getDagRunID pod of
        Inl _ \<Rightarrow> Some (l, k)
      | Inr dagRunId \<Rightarrow>
          if ls_IsFetching store dagRunId pod l then Some (l, k)
          else case ls_MarkAsFetching store dagRunId pod l of
                 (Some _, l1) \<Rightarrow> Some (l1, k)
               | (None, l1) \<Rightarrow>
                   map_option (\<lambda>(l2, k2). (ls_UnlistFetching store dagRunId pod l2, k2))
                     (uploadLogsAndCleanup w store dagRunId pod s l1 k))"

section \<open>Goroutines\<close>

text \<open>
  Every event of a pod starts a goroutine, and they interleave: the test of \<open>IsFetching\<close> and the call of \<open>MarkAsFetching\<close> are two
  steps, each under the lock of the store. Goroutine \<open>g\<close> collects for the run and pod \<open>job g\<close>.
\<close>

datatype collector = Started | Tested | Fetching | Finished

inductive collect_step ::
    "(int \<Rightarrow> Pod \<Rightarrow> 'l \<Rightarrow> bool) \<Rightarrow> (int \<Rightarrow> Pod \<Rightarrow> 'l \<Rightarrow> check \<times> 'l) \<Rightarrow> (int \<Rightarrow> Pod \<Rightarrow> 'l \<Rightarrow> 'l) \<Rightarrow> (nat \<Rightarrow> int \<times> Pod) \<Rightarrow>
      (nat \<Rightarrow> collector) \<times> 'l \<Rightarrow> (nat \<Rightarrow> collector) \<times> 'l \<Rightarrow> bool"
  for isFetching mark unlist job where
  tested: "ph g = Started \<Longrightarrow> job g = (i, pod) \<Longrightarrow>
    collect_step isFetching mark unlist job (ph, l) (ph(g := if isFetching i pod l then Finished else Tested), l)"
| marked: "ph g = Tested \<Longrightarrow> job g = (i, pod) \<Longrightarrow> mark i pod l = (None, l') \<Longrightarrow>
    collect_step isFetching mark unlist job (ph, l) (ph(g := Fetching), l')"
| refused: "ph g = Tested \<Longrightarrow> job g = (i, pod) \<Longrightarrow> mark i pod l = (Some e, l') \<Longrightarrow>
    collect_step isFetching mark unlist job (ph, l) (ph(g := Finished), l')"
| unlisted: "ph g = Fetching \<Longrightarrow> job g = (i, pod) \<Longrightarrow>
    collect_step isFetching mark unlist job (ph, l) (ph(g := Finished), unlist i pod l)"

text \<open>What the collectors rely on: marking succeeds once, until the pod is unlisted, and concerns no other pod of the run.\<close>

locale fetch_registry =
  fixes isFetching :: "int \<Rightarrow> Pod \<Rightarrow> 'l \<Rightarrow> bool"
    and mark :: "int \<Rightarrow> Pod \<Rightarrow> 'l \<Rightarrow> check \<times> 'l"
    and unlist :: "int \<Rightarrow> Pod \<Rightarrow> 'l \<Rightarrow> 'l"
    and key :: "int \<Rightarrow> Pod \<Rightarrow> string"
  assumes mark_new: "mark i pod l = (None, l') \<Longrightarrow> \<not> isFetching i pod l \<and> isFetching j p l' = (isFetching j p l \<or> key j p = key i pod)"
    and mark_old: "mark i pod l = (Some e, l') \<Longrightarrow> isFetching i pod l \<and> l' = l"
    and unlisted_key: "isFetching j p (unlist i pod l) = (isFetching j p l \<and> key j p \<noteq> key i pod)"
    and by_key: "key i pod = key j p \<Longrightarrow> isFetching i pod l = isFetching j p l"
begin

text \<open>The registry holds exactly the keys of the goroutines that fetch, one for each key.\<close>

definition holders :: "(nat \<Rightarrow> collector) \<Rightarrow> nat set" where
  "holders ph = {g. ph g = Fetching}"

definition consistent :: "(nat \<Rightarrow> int \<times> Pod) \<Rightarrow> (nat \<Rightarrow> collector) \<times> 'l \<Rightarrow> bool" where
  "consistent job x \<longleftrightarrow>
     (\<forall>i pod. isFetching i pod (snd x) \<longleftrightarrow> key i pod \<in> (\<lambda>g. case_prod key (job g)) ` holders (fst x)) \<and>
     inj_on (\<lambda>g. case_prod key (job g)) (holders (fst x))"

lemma holders_same: "ph g \<noteq> Fetching \<Longrightarrow> c \<noteq> Fetching \<Longrightarrow> holders (ph(g := c)) = holders ph"
  and holders_insert: "holders (ph(g := Fetching)) = insert g (holders ph)"
  and holders_remove: "holders (ph(g := Finished)) = holders ph - {g}"
  by (auto simp: holders_def)

lemma step_consistent:
  assumes "collect_step isFetching mark unlist job x y" "consistent job x"
  shows "consistent job y"
  using assms
proof (cases rule: collect_step.cases)
  case (tested ph g i pod l)
  then show ?thesis using assms(2) by (simp add: consistent_def holders_same)
next
  case (marked ph g i pod l l')
  let ?k = "\<lambda>g. case_prod key (job g)"
  have old: "isFetching j p l = (key j p \<in> ?k ` holders ph)" for j p
    using assms(2) marked(1) by (simp add: consistent_def)
  have inj: "inj_on ?k (holders ph)" using assms(2) marked(1) by (simp add: consistent_def)
  have g: "?k g = key i pod" using marked(4) by simp
  have "key i pod \<notin> ?k ` holders ph" using mark_new [OF marked(5), THEN conjunct1] unfolding old .
  then have "?k g \<notin> ?k ` (holders ph - {g})" unfolding g by blast
  then have "inj_on ?k (insert g (holders ph))" unfolding inj_on_insert using inj by (intro conjI)
  moreover have "isFetching j p l' = (key j p \<in> ?k ` insert g (holders ph))" for j p
    unfolding mark_new [OF marked(5), THEN conjunct2] old image_insert g by blast
  ultimately show ?thesis unfolding marked(2) consistent_def fst_conv snd_conv holders_insert by blast
next
  case (refused ph g i pod l e l')
  then show ?thesis using assms(2) mark_old [OF refused(5)] by (simp add: consistent_def holders_same)
next
  case (unlisted ph g i pod l)
  let ?k = "\<lambda>g. case_prod key (job g)"
  have g: "{g} \<subseteq> holders ph" using unlisted(3) by (simp add: holders_def)
  have inj: "inj_on ?k (holders ph)" using assms(2) unlisted(1) by (simp add: consistent_def)
  have "?k ` (holders ph - {g}) = ?k ` holders ph - ?k ` {g}" by (rule inj_on_image_set_diff [OF inj Diff_subset g])
  moreover have "isFetching j p (unlist i pod l) = (key j p \<in> ?k ` holders ph - ?k ` {g})" for j p
    using assms(2) unlisted(1,4) unfolding unlisted_key by (simp add: consistent_def)
  ultimately show ?thesis using inj_on_diff [OF inj] unfolding unlisted(2) consistent_def fst_conv snd_conv holders_remove by simp
qed

lemma reachable_consistent:
  assumes "(collect_step isFetching mark unlist job)\<^sup>*\<^sup>* x y" "consistent job x"
  shows "consistent job y"
  using assms by (induction rule: rtranclp_induct) (auto intro: step_consistent)

lemma start_consistent:
  assumes "\<And>i pod. \<not> isFetching i pod l"
  shows "consistent job (\<lambda>_. Started, l)"
  using assms by (simp add: consistent_def holders_def)

end

interpretation fs_registry: fetch_registry fs_IsFetching fs_MarkAsFetching fs_UnlistFetching fetch_key
  by unfold_locales (simp_all add: fs_IsFetching_def fs_MarkAsFetching_def fs_UnlistFetching_def Let_def split: if_splits, blast)

interpretation s3_registry: fetch_registry s3_IsFetching s3_MarkAsFetching s3_UnlistFetching fetch_key
  by unfold_locales (simp_all add: s3_IsFetching_def s3_MarkAsFetching_def s3_UnlistFetching_def Let_def split: if_splits, blast)

lemma not_digit_dash: "\<not> is_digit (CHR ''-'')"
  by simp

lemma fetch_key_inj:
  assumes "0 \<le> i" "0 \<le> j" "fetch_key i pod = fetch_key j p"
  shows "i = j \<and> pod_UID pod = pod_UID p"
  using digits_then_slash [OF Itoa_digits [OF assms(1)] Itoa_digits [OF assms(2)] not_digit_dash, of "pod_UID pod" "pod_UID p"] assms
  by (simp add: fetch_key_def Itoa_inj)

text \<open>
  (C12) The log of a pod is fetched by one goroutine at a time: however the goroutines that events start interleave, two that fetch
  for the same run and pod are the same one, and a pod is listed as being fetched exactly while one of them does. The same holds for the file
  system store, whose registry satisfies the same contract.
\<close>

theorem logs_fetched_once:
  assumes "(collect_step s3_IsFetching s3_MarkAsFetching s3_UnlistFetching job)\<^sup>*\<^sup>* (\<lambda>_. Started, {}) (ph, f)"
    and "\<And>g. 0 \<le> fst (job g)" "0 \<le> i"
  shows "(s3_IsFetching i pod f \<longleftrightarrow> (\<exists>g p. ph g = Fetching \<and> job g = (i, p) \<and> pod_UID p = pod_UID pod)) \<and>
    (\<forall>g h p q. ph g = Fetching \<longrightarrow> ph h = Fetching \<longrightarrow> job g = (i, p) \<longrightarrow> job h = (i, q) \<longrightarrow> pod_UID p = pod_UID q \<longrightarrow> g = h)"
proof -
  have c: "s3_registry.consistent job (ph, f)"
    by (rule s3_registry.reachable_consistent [OF assms(1) s3_registry.start_consistent]) (simp add: s3_IsFetching_def)
  have key: "case_prod fetch_key (job g) = fetch_key i pod \<longleftrightarrow> fst (job g) = i \<and> pod_UID (snd (job g)) = pod_UID pod" for g
    using fetch_key_inj [OF assms(2,3), of g "snd (job g)" pod] by (auto simp: case_prod_beta fetch_key_def)
  have "s3_IsFetching i pod f = (\<exists>g. ph g = Fetching \<and> case_prod fetch_key (job g) = fetch_key i pod)"
    using c by (auto simp: s3_registry.consistent_def s3_registry.holders_def image_iff)
  then have "s3_IsFetching i pod f \<longleftrightarrow> (\<exists>g p. ph g = Fetching \<and> job g = (i, p) \<and> pod_UID p = pod_UID pod)"
    unfolding key by (metis fst_conv snd_conv prod.collapse)
  moreover have "g = h" if "ph g = Fetching" "ph h = Fetching" "job g = (i, p)" "job h = (i, q)" "pod_UID p = pod_UID q" for g h p q
  proof -
    have "case_prod fetch_key (job g) = case_prod fetch_key (job h)" using that by (simp add: fetch_key_def)
    then show ?thesis using c that(1,2) by (simp add: s3_registry.consistent_def s3_registry.holders_def inj_on_def)
  qed
  ultimately show ?thesis by blast
qed

lemma below_log_dir:
  assumes "0 \<le> i" "0 \<le> j"
  shows "below (log_dir base i) (log_path base j p) \<longleftrightarrow> i = j"
proof -
  have "log_path base j p \<noteq> log_dir base i"
  proof
    assume "log_path base j p = log_dir base i"
    then have "Itoa j @ ''/'' @ pod_UID p @ ''-log.txt'' = Itoa i" by (simp add: log_path_def log_dir_def)
    with Itoa_digits [OF assms(1)] have "list_all is_digit (Itoa j @ ''/'' @ pod_UID p @ ''-log.txt'')" by simp
    then show False by simp
  qed
  moreover have "take (length (log_dir base i) + 1) (log_path base j p) = log_dir base i @ ''/'' \<longleftrightarrow> i = j"
    using run_prefix [OF assms, of "pod_UID p @ ''-log.txt''"] by (simp add: log_path_def log_dir_def)
  ultimately show ?thesis by (simp add: below_def)
qed

lemma log_path_run: "0 \<le> i \<Longrightarrow> 0 \<le> j \<Longrightarrow> log_path base i p = log_path base j q \<Longrightarrow> i = j"
  using below_log_dir [of i j base q] below_log_dir [of i i base p] by simp

text \<open>
  The log follows its run: a collection into the file system that meets no error leaves the complete log of the pod in its
  file if the run still exists in the database, and nothing if the run was deleted meanwhile; it touches no log of another run, removes the
  finalizer and leaves the pod unlisted.
\<close>

theorem collected_log_follows_run:
  assumes "getDagRunID pod = Inr i" "0 \<le> i" "fetch_key i pod \<notin> f" "sp_Containers (pod_Spec pod) \<noteq> []"
    and "fs_mkdir io = None" "fs_create io = None" "fs_flush io = None"
    and "open_loop fs_gone cancelled opens 0 (nat (if retryCount \<le> 0 then 3 else retryCount)) = Opened st" "st_end st = StreamEOF"
  shows "\<exists>files'. performLogCollection w (fs_store kb io Removed kept baseDir retryCount cancelled opens) pod s (f, files) k =
      Some ((f, files'), snd (RemoveFinalizer kb (pod_Name pod) (pod_Namespace pod) ''kontroler/logcollection'' k)) \<and>
    files' (log_path baseDir i pod) = (if db_DagrunExists (wk_dbManager w) (row_id i) s then Some (stream_data st) else None) \<and>
    (\<forall>j p. 0 \<le> j \<longrightarrow> j \<noteq> i \<longrightarrow> files' (log_path baseDir j p) = files (log_path baseDir j p))"
proof -
  let ?all = "files(log_path baseDir i pod \<mapsto> stream_data st)"
  let ?files = "if db_DagrunExists (wk_dbManager w) (row_id i) s then ?all else ?all |` {p. \<not> below (log_dir baseDir i) p}"
  have up: "fs_UploadLogs kb io baseDir retryCount i cancelled opens pod files k =
      (None, ?all, snd (RemoveFinalizer kb (pod_Name pod) (pod_Namespace pod) ''kontroler/logcollection'' k))"
    using assms(4-9) by (cases "retryCount \<le> 0") (simp_all add: fs_UploadLogs_def fs_uploadLogsWithGetter_def fs_copy_def finaliserCleanup_def logFinalizer_def defaultStreamRetryCount_def Let_def)
  have "performLogCollection w (fs_store kb io Removed kept baseDir retryCount cancelled opens) pod s (f, files) k =
      Some ((f, ?files), snd (RemoveFinalizer kb (pod_Name pod) (pod_Namespace pod) ''kontroler/logcollection'' k))"
    using assms(1,3) up by (simp add: performLogCollection_def uploadLogsAndCleanup_def cleanupLogsForDeletedDagrun_def fs_store_def fs_IsFetching_def
        fs_MarkAsFetching_def fs_UnlistFetching_def fs_DeleteLogs_def Let_def)
  moreover have "?files (log_path baseDir i pod) = (if db_DagrunExists (wk_dbManager w) (row_id i) s then Some (stream_data st) else None)"
    using below_log_dir [OF assms(2,2)] by (simp add: restrict_map_def)
  moreover have "?files (log_path baseDir j p) = files (log_path baseDir j p)" if "0 \<le> j" "j \<noteq> i" for j p
    using that log_path_run [OF assms(2) that(1), of baseDir pod p] below_log_dir [OF assms(2) that(1)] by (auto simp: restrict_map_def)
  ultimately show ?thesis by blast
qed

section \<open>Examples\<close>

text \<open>A bucket as a list of objects and the uploads in progress.\<close>

type_synonym bucket = "(string \<times> string) list \<times> (string \<rightharpoonup> int \<rightharpoonup> string \<times> string)"

definition ex_s3 :: "bucket s3Client" where
  "ex_s3 =
     \<lparr>CreateMultipartUpload = (\<lambda>key (ob, p). (Inr ''u'', (ob, p(''u'' \<mapsto> Map.empty)))),
      UploadPart = (\<lambda>key uid n b (ob, p). (Inr ''e'', (ob, p(uid \<mapsto> (case p uid of None \<Rightarrow> Map.empty | Some ps \<Rightarrow> ps)(n \<mapsto> (''e'', b)))))),
      CompleteMultipartUpload = (\<lambda>key uid parts (ob, p). (Inr (), ((key, bodies (the (p uid)) parts) # ob, p(uid := None)))),
      PutObject = (\<lambda>key b (ob, p). (Inr (), ((key, b) # ob, p))),
      AbortMultipartUpload = (\<lambda>key uid (ob, p). (Inr (), (ob, p(uid := None)))),
      DeleteObjects = (\<lambda>ks (ob, p). (Inr [], (filter (\<lambda>kv. fst kv \<notin> set ks) ob, p))),
      ListObjectsV2 = (\<lambda>prefix t (ob, p). Inr (filter (\<lambda>k. take (length prefix) k = prefix) (map fst ob), False, None))\<rparr>"

lemma map_of_filter_keys: "map_of (filter (\<lambda>kv. fst kv \<notin> A) ob) = map_of ob |` (- A)"
  by (induction ob) (auto simp: restrict_map_def fun_eq_iff)

lemma ex_s3_spec: "s3_spec ex_s3 (map_of \<circ> fst) snd"
  unfolding s3_spec_def by (auto simp: ex_s3_def map_of_filter_keys)

definition ex_log_pod :: Pod where
  "ex_log_pod = new_pool_pod\<lparr>pod_Name := ''p'', pod_Namespace := ''ns'', pod_UID := ''u1'', pod_Finalizers := [''kontroler/logcollection''],
     pod_Annotations := [''kontroler/dagRun-id'' \<mapsto> ''7''],
     pod_Spec := empty_PodSpec\<lparr>sp_Containers := [\<lparr>c_Name = ''c'', c_Image = ''i'', c_Command = [], c_Args = [], c_Env = [], c_VolumeMounts = [], c_Resources = no_resources\<rparr>]\<rparr>\<rparr>"

definition ex_stream :: log_stream where
  "ex_stream = \<lparr>st_reads = [''ab'', ''c''], st_last = ''d'', st_end = StreamEOF\<rparr>"

lemma ex_log_pod_simps: "pod_Name ex_log_pod = ''p''" "pod_Namespace ex_log_pod = ''ns''" "pod_UID ex_log_pod = ''u1''"
  "pod_Finalizers ex_log_pod = [''kontroler/logcollection'']" "sp_Containers (pod_Spec ex_log_pod) \<noteq> []"
  "pod_Annotations ex_log_pod ''kontroler/dagRun-id'' = Some ''7''"
  by (simp_all add: ex_log_pod_def)

lemma ex_stream_data: "stream_data ex_stream = ''abcd''" "st_end ex_stream = StreamEOF"
  by (simp_all add: ex_stream_def stream_data_def)

lemma ex_opened: "open_loop g c (\<lambda>_. Inr st) 0 (nat 3) = Opened st"
  by (simp add: numeral_eq_Suc)

text \<open>The run removes the finalizer, so the cluster changes.\<close>

lemma ex_finalizer: "snd (RemoveFinalizer ex_kube ''p'' ''ns'' ''kontroler/logcollection'' ([ex_log_pod], [])) = ([ex_log_pod\<lparr>pod_Finalizers := []\<rparr>], [])"
  by (simp add: RemoveFinalizer_def numeral_eq_Suc ex_kube_def find_pod_def ex_log_pod_simps ex_log_pod_def)

theorem s3_logs_stored_witness:
  "map_of (fst (fst (snd (s3_UploadLogs ex_kube ex_s3 2 0 7 (\<lambda>_. Inr ex_stream) ex_log_pod ([], Map.empty) ([ex_log_pod], []))))) =
     [s3_object_key 7 ex_log_pod \<mapsto> ''abcd'']"
proof -
  obtain r s' k' where u: "s3_UploadLogs ex_kube ex_s3 2 0 7 (\<lambda>_. Inr ex_stream) ex_log_pod ([], Map.empty) ([ex_log_pod], []) = (r, s', k')"
    by (metis prod_cases3)
  have "k' = ([ex_log_pod\<lparr>pod_Finalizers := []\<rparr>], [])"
    using u by (simp add: s3_UploadLogs_def s3_uploadLogsWithGetter_def ex_log_pod_simps defaultStreamRetryCount_def ex_opened [simplified]
        s3_multipart_def min_part_def ex_s3_def ex_stream_def take_chunk_def uploadPart_def finish_upload_def finaliserCleanup_def logFinalizer_def ex_finalizer)
  then have "k' \<noteq> ([ex_log_pod], [])" using ex_log_pod_simps(4) by (auto dest: arg_cong [where f = pod_Finalizers])
  from s3_logs_stored [OF ex_s3_spec _ u this] show ?thesis using u by (simp add: ex_opened [simplified] ex_stream_data)
qed

definition ex_refused_stream :: log_stream where
  "ex_refused_stream = \<lparr>st_reads = [''abc''], st_last = [], st_end = StreamError ''dial tcp: connection refused''\<rparr>"

theorem broken_stream_loses_log_witness:
  "\<exists>s'. s3_UploadLogs ex_kube ex_s3 2 0 7 (\<lambda>_. Inr ex_refused_stream) ex_log_pod ([], Map.empty) ([ex_log_pod], []) =
     (None, s', finaliserCleanup ex_kube ex_log_pod True ([ex_log_pod], [])) \<and> map_of (fst s') = Map.empty"
proof -
  have b: "stream_broken ''dial tcp: connection refused''" by code_simp
  have e: "st_end ex_refused_stream = StreamError ''dial tcp: connection refused''" by (simp add: ex_refused_stream_def)
  have "\<exists>s'. s3_UploadLogs ex_kube ex_s3 2 0 7 (\<lambda>_. Inr ex_refused_stream) ex_log_pod ([], Map.empty) ([ex_log_pod], []) =
      (None, s', finaliserCleanup ex_kube ex_log_pod True ([ex_log_pod], [])) \<and> (map_of \<circ> fst) s' = (map_of \<circ> fst) (([], Map.empty) :: bucket)"
    by (rule broken_stream_loses_log [where opens = "\<lambda>_. Inr ex_refused_stream", OF ex_s3_spec _ _ ex_log_pod_simps(5) _ _ refl e b])
      (simp_all add: ex_s3_def split_beta)
  then show ?thesis by simp
qed

theorem s3_read_error_leaks_upload_witness:
  "\<exists>s' ps. s3_multipart ex_s3 2 ''7/u1-log.txt'' \<lparr>st_reads = [''abc''], st_last = '''', st_end = StreamError ''reset''\<rparr> ([], Map.empty) =
     (Some (Err ''error reading logs''), False, s') \<and> snd s' ''u'' = Some ps \<and> ps \<noteq> Map.empty"
proof (rule s3_read_error_leaks_upload [OF ex_s3_spec])
  show "\<not> stream_broken ''reset''" by code_simp
qed (simp_all add: ex_s3_def split_beta)

definition ex_bucket :: bucket where
  "ex_bucket = ([(''7/u1-log.txt'', ''abcd''), (''71/u1-log.txt'', ''e'')], Map.empty)"

theorem s3_delete_logs_exact_witness:
  "\<exists>s'. s3_DeleteLogs ex_s3 7 ex_bucket = Some (None, s') \<and>
    (\<forall>j pod. 0 \<le> j \<longrightarrow> (map_of \<circ> fst) s' (s3_object_key j pod) = (if j = 7 then None else (map_of \<circ> fst) ex_bucket (s3_object_key j pod)))"
proof (rule s3_delete_logs_exact [OF ex_s3_spec])
  have p: "s3_prefix 7 = ''7/''" by code_simp
  show "pages ex_s3 (s3_prefix 7) ex_bucket None [''7/u1-log.txt'']" by (rule last_page) (simp add: ex_s3_def ex_bucket_def p)
  show "set [''7/u1-log.txt''] = {k \<in> dom ((map_of \<circ> fst) ex_bucket). take (length (s3_prefix 7)) k = s3_prefix 7}"
    by (auto simp: p ex_bucket_def split: if_splits)
  show "\<exists>s'. DeleteObjects ex_s3 ks s = (Inr [], s')" for ks s by (simp add: ex_s3_def split_beta)
qed simp

theorem logs_fetched_once_witness:
  "\<exists>ph f. (collect_step s3_IsFetching s3_MarkAsFetching s3_UnlistFetching (\<lambda>_. (7, ex_log_pod)))\<^sup>*\<^sup>* (\<lambda>_. Started, {}) (ph, f) \<and>
    ph 0 = Fetching \<and> ph 1 = Tested \<and> s3_IsFetching 7 ex_log_pod f \<and> ph 2 \<noteq> Fetching"
proof -
  let ?job = "\<lambda>_::nat. (7::int, ex_log_pod)"
  let ?R = "collect_step s3_IsFetching s3_MarkAsFetching s3_UnlistFetching ?job"
  let ?p0 = "\<lambda>_::nat. Started"
  let ?ph = "?p0(0 := Tested, 1 := Tested, 0 := Fetching)"
  let ?f = "{fetch_key 7 ex_log_pod}"
  have 1: "?R (?p0, {}) (?p0(0 := Tested), {})"
    using collect_step.tested [of ?p0 0 ?job 7 ex_log_pod s3_IsFetching s3_MarkAsFetching s3_UnlistFetching "{}"] by (simp add: s3_IsFetching_def)
  have 2: "?R (?p0(0 := Tested), {}) (?p0(0 := Tested, 1 := Tested), {})"
    using collect_step.tested [of "?p0(0 := Tested)" 1 ?job 7 ex_log_pod s3_IsFetching s3_MarkAsFetching s3_UnlistFetching "{}"] by (simp add: s3_IsFetching_def)
  have 3: "?R (?p0(0 := Tested, 1 := Tested), {}) (?ph, ?f)"
    by (rule collect_step.marked [where i = 7 and pod = ex_log_pod]) (simp_all add: s3_MarkAsFetching_def Let_def)
  have r: "?R\<^sup>*\<^sup>* (?p0, {}) (?ph, ?f)"
    using 1 2 3 by (meson converse_rtranclp_into_rtranclp r_into_rtranclp)
  have "s3_IsFetching 7 ex_log_pod ?f"
    by (subst conjunct1 [OF logs_fetched_once [OF r]]) (simp_all add: exI [of _ "0::nat"])
  with r show ?thesis by (intro exI [of _ ?ph] exI [of _ ?f] conjI) simp_all
qed

theorem collected_log_follows_run_witness:
  "\<exists>files'. performLogCollection (ex_worker (SqliteManager 0)) (fs_store ex_kube \<lparr>fs_mkdir = None, fs_create = None, fs_flush = None, fs_written = 0\<rparr>
        Removed {} ''/logs'' 0 (\<lambda>_. False) (\<lambda>_. Inr ex_stream)) ex_log_pod ex_run_db ({}, Map.empty) ([ex_log_pod], []) =
      Some (({}, files'), ([ex_log_pod\<lparr>pod_Finalizers := []\<rparr>], [])) \<and> files' (log_path ''/logs'' 7 ex_log_pod) = None"
proof -
  have "getDagRunID ex_log_pod = Inr 7" by (simp add: getDagRunID_def ex_log_pod_simps) code_simp
  moreover have "\<not> db_DagrunExists (SqliteManager 0) (row_id 7) ex_run_db" by code_simp
  ultimately show ?thesis
    using collected_log_follows_run [of ex_log_pod 7 "{}" "\<lparr>fs_mkdir = None, fs_create = None, fs_flush = None, fs_written = 0\<rparr>"
      "\<lambda>_. False" "\<lambda>_. Inr ex_stream" 0 ex_stream "ex_worker (SqliteManager 0)" ex_kube "{}" "''/logs''" ex_run_db Map.empty "([ex_log_pod], [])"]
    by (simp add: ex_log_pod_simps ex_opened [simplified] ex_stream_data ex_finalizer) (auto simp: ex_worker_def)
qed

end
