(* ===== verification/Server_Paging.thy ===== *)
theory Server_Paging
  imports Go_Strconv "HOL-Library.Signed_Division"
begin

text \<open>
  What the queries of the API server share: \<open>LIMIT\<close> and \<open>OFFSET\<close> of the two database systems, the page counts computed from a number of rows,
  the text patterns of \<open>LIKE\<close>, and \<open>strings.Split\<close>.
\<close>

section \<open>Pages\<close>

text \<open>In SQLite a negative limit is no limit and a negative offset is zero; Postgres refuses both.\<close>

definition sqlite_page :: "int \<Rightarrow> int \<Rightarrow> 'r list \<Rightarrow> 'r list" where
  "sqlite_page limit offset rows = (let rest = drop (nat offset) rows in if limit < 0 then rest else take (nat limit) rest)"

definition postgres_page :: "int \<Rightarrow> int \<Rightarrow> 'r list \<Rightarrow> 'r list result" where
  "postgres_page limit offset rows =
     (if limit < 0 then Inl (Err ''LIMIT must not be negative'') else if offset < 0 then Inl (Err ''OFFSET must not be negative'')
      else Inr (take (nat limit) (drop (nat offset) rows)))"

text \<open>
  The number of pages, by a division with a correction or by a division that rounds up. Go truncates towards zero and panics on a division by zero,
  which is \<open>None\<close>.
\<close>

definition page_count :: "nat \<Rightarrow> int \<Rightarrow> int option" where
  "page_count count limit =
     (if limit = 0 then None else Some (int count sdiv limit + (if int count smod limit > 0 then 1 else 0)))"

definition page_count_up :: "nat \<Rightarrow> int \<Rightarrow> int option" where
  "page_count_up count limit = (if limit = 0 then None else Some ((int count + limit - 1) sdiv limit))"

lemma sdiv_nonneg: "0 \<le> a \<Longrightarrow> 0 < b \<Longrightarrow> a sdiv b = a div (b :: int)" "0 \<le> a \<Longrightarrow> 0 < b \<Longrightarrow> a smod b = a mod (b :: int)"
  by (cases "a = 0"; simp add: signed_divide_int_def signed_modulo_int_def minus_mult_div_eq_mod sgn_if)+

lemma div_up:
  assumes "0 < n"
  shows "(c + n - 1) div n = c div n + (if 0 < c mod n then 1 else (0 :: int))"
proof -
  have "c + n - 1 = (c mod n + n - 1) + (c div n) * n" using div_mult_mod_eq [of c n] by linarith
  then have "(c + n - 1) div n = c div n + (c mod n + n - 1) div n" using assms by (simp only: div_mult_self1)
  also have "(c mod n + n - 1) div n = (if 0 < c mod n then 1 else 0)"
  proof (cases "0 < c mod n")
    case True
    moreover have "c mod n < n" using assms by simp
    ultimately have "(c mod n - 1) div n = 0" by (intro div_pos_pos_trivial) linarith+
    moreover have "(c mod n - 1 + 1 * n) div n = 1 + (c mod n - 1) div n" using assms by (subst div_mult_self1) simp_all
    ultimately show ?thesis using True by (simp add: algebra_simps)
  next
    case False
    with assms have "c mod n = 0" using pos_mod_sign [of n c] by linarith
    with assms show ?thesis by (simp add: div_pos_pos_trivial)
  qed
  finally show ?thesis .
qed

lemma page_counts_agree: "0 < limit \<Longrightarrow> page_count_up count limit = page_count count limit"
  by (simp add: page_count_def page_count_up_def sdiv_nonneg div_up)

text \<open>The pages up to the page count are all the rows, each once and in order.\<close>

lemma pages_cover_nat:
  assumes "length rows \<le> k * n"
  shows "concat (map (\<lambda>p. take n (drop (p * n) rows)) [0..<k]) = rows"
proof -
  have "concat (map (\<lambda>p. take n (drop (p * n) rows)) [0..<k]) = take (k * n) rows" for k
  proof (induction k)
    case (Suc k)
    have "take (k * n) rows @ take n (drop (k * n) rows) = take (k * n + n) rows" by (simp add: take_add)
    with Suc show ?case by (simp add: add.commute)
  qed simp
  with assms show ?thesis by simp
qed

lemma pages_enough:
  assumes "page_count count limit = Some k" "0 < limit"
  shows "count \<le> nat k * nat limit"
proof -
  have k: "k = int count div limit + (if 0 < int count mod limit then 1 else 0)"
    using assms by (simp add: page_count_def sdiv_nonneg)
  have "0 \<le> int count mod limit" "int count mod limit < limit" using assms(2) by simp_all
  moreover have "int count = (int count div limit) * limit + int count mod limit" by simp
  ultimately have "int count \<le> k * limit" unfolding k by (simp only: distrib_right split: if_split) linarith
  moreover have "0 \<le> k" using assms(2) unfolding k by (simp add: pos_imp_zdiv_nonneg_iff)
  ultimately show ?thesis using assms(2) by (metis nat_int nat_le_eq_zle nat_mult_distrib of_nat_0_le_iff mult_nonneg_nonneg order_less_imp_le)
qed

lemma sqlite_pages_cover:
  assumes "page_count (length rows) limit = Some k" "0 < limit"
  shows "concat (map (\<lambda>p. sqlite_page limit (int p * limit) rows) [0..<nat k]) = rows"
  using pages_cover_nat [OF pages_enough [OF assms]] assms(2) by (simp add: sqlite_page_def nat_mult_distrib)

section \<open>Patterns\<close>

definition lower :: "char \<Rightarrow> char" where
  "lower c = (if 65 \<le> (of_char c :: nat) \<and> (of_char c :: nat) \<le> 90 then char_of ((of_char c :: nat) + 32) else c)"

text \<open>\<open>LIKE\<close> of SQLite, which ignores the case of ASCII letters, and \<open>ILIKE\<close> of Postgres, where a backslash makes the next character literal.\<close>

fun sqlite_like :: "string \<Rightarrow> string \<Rightarrow> bool" where
  "sqlite_like [] s \<longleftrightarrow> s = []"
| "sqlite_like (p # ps) [] \<longleftrightarrow> p = CHR ''%'' \<and> sqlite_like ps []"
| "sqlite_like (p # ps) (c # s) \<longleftrightarrow>
     (if p = CHR ''%'' then sqlite_like ps (c # s) \<or> sqlite_like (p # ps) s
      else (p = CHR ''_'' \<or> lower p = lower c) \<and> sqlite_like ps s)"

datatype pat = AnyText | AnyChar | Lit char

fun pat_of :: "string \<Rightarrow> pat list" where
  "pat_of [] = []"
| "pat_of (c # cs) =
     (if c = CHR 92 then (case cs of [] \<Rightarrow> [Lit c] | d # ds \<Rightarrow> Lit d # pat_of ds)
      else if c = CHR ''%'' then AnyText # pat_of cs else if c = CHR ''_'' then AnyChar # pat_of cs else Lit c # pat_of cs)"

fun pat_match :: "pat list \<Rightarrow> string \<Rightarrow> bool" where
  "pat_match [] s \<longleftrightarrow> s = []"
| "pat_match (AnyText # ps) [] \<longleftrightarrow> pat_match ps []"
| "pat_match (AnyText # ps) (c # s) \<longleftrightarrow> pat_match ps (c # s) \<or> pat_match (AnyText # ps) s"
| "pat_match (AnyChar # ps) [] \<longleftrightarrow> False"
| "pat_match (AnyChar # ps) (c # s) \<longleftrightarrow> pat_match ps s"
| "pat_match (Lit d # ps) [] \<longleftrightarrow> False"
| "pat_match (Lit d # ps) (c # s) \<longleftrightarrow> lower d = lower c \<and> pat_match ps s"

definition postgres_ilike :: "string \<Rightarrow> string \<Rightarrow> bool" where
  "postgres_ilike p s \<longleftrightarrow> pat_match (pat_of p) s"

text \<open>A term without the special characters is searched for as it is, up to case.\<close>

definition plain :: "string \<Rightarrow> bool" where
  "plain term \<longleftrightarrow> set term \<inter> {CHR ''%'', CHR ''_'', CHR 92} = {}"

definition contains_fold :: "string \<Rightarrow> string \<Rightarrow> bool" where
  "contains_fold term s \<longleftrightarrow> (\<exists>a b c. s = a @ b @ c \<and> map lower b = map lower term)"

lemma sqlite_like_any: "sqlite_like [CHR ''%''] s"
  by (induction s) simp_all

lemma sqlite_like_prefix:
  "plain term \<Longrightarrow> sqlite_like (term @ [CHR ''%'']) s \<longleftrightarrow> (\<exists>b c. s = b @ c \<and> map lower b = map lower term)"
proof (induction "term" arbitrary: s)
  case Nil
  show ?case by (simp add: sqlite_like_any)
next
  case (Cons t ts)
  then have t: "t \<noteq> CHR ''%''" "t \<noteq> CHR ''_''" "plain ts" by (auto simp: plain_def)
  show ?case
  proof (cases s)
    case (Cons c cs)
    show ?thesis
    proof
      assume "sqlite_like ((t # ts) @ [CHR ''%'']) s"
      with Cons t have l: "lower t = lower c" "sqlite_like (ts @ [CHR ''%'']) cs" by simp_all
      with Cons.IH [OF t(3)] obtain b d where "cs = b @ d" "map lower b = map lower ts" by blast
      with Cons l(1) show "\<exists>b c. s = b @ c \<and> map lower b = map lower (t # ts)" by (intro exI [of _ "c # b"] exI [of _ d]) simp
    next
      assume "\<exists>b c. s = b @ c \<and> map lower b = map lower (t # ts)"
      with Cons obtain b d where "cs = b @ d" "map lower b = map lower ts" "lower c = lower t" by (auto simp: Cons_eq_append_conv)
      with Cons Cons.IH [OF t(3)] t show "sqlite_like ((t # ts) @ [CHR ''%'']) s" by auto
    qed
  qed (use t in simp)
qed

lemma sqlite_like_contains:
  "plain term \<Longrightarrow> sqlite_like (CHR ''%'' # term @ [CHR ''%'']) s \<longleftrightarrow> contains_fold term s"
proof (induction s)
  case Nil
  then show ?case by (cases "term") (auto simp: contains_fold_def plain_def)
next
  case (Cons c s)
  have "contains_fold term (c # s) \<longleftrightarrow> (\<exists>b d. c # s = b @ d \<and> map lower b = map lower term) \<or> contains_fold term s"
    (is "_ \<longleftrightarrow> ?here \<or> _")
  proof
    assume "contains_fold term (c # s)"
    then obtain a b d where abd: "c # s = a @ b @ d" "map lower b = map lower term" unfolding contains_fold_def by blast
    show "?here \<or> contains_fold term s"
    proof (cases a)
      case Nil
      with abd show ?thesis by auto
    next
      case (Cons x a')
      with abd(1) have "s = a' @ b @ d" by simp
      with abd(2) show ?thesis unfolding contains_fold_def by blast
    qed
  next
    assume "?here \<or> contains_fold term s"
    then show "contains_fold term (c # s)"
    proof
      assume ?here
      then obtain b d where "c # s = b @ d" "map lower b = map lower term" by blast
      then show ?thesis unfolding contains_fold_def by (intro exI [of _ "[]"] exI [of _ b] exI [of _ d]) simp
    next
      assume "contains_fold term s"
      then obtain a b d where "s = a @ b @ d" "map lower b = map lower term" unfolding contains_fold_def by blast
      then show ?thesis unfolding contains_fold_def by (intro exI [of _ "c # a"] exI [of _ b] exI [of _ d]) simp
    qed
  qed
  with Cons sqlite_like_prefix [OF Cons.prems, of "c # s"] show ?case by simp
qed

section \<open>Splitting\<close>

text \<open>\<open>strings.Split\<close> with a separator of one byte, and the text that \<open>GROUP_CONCAT\<close> makes.\<close>

fun Split :: "char \<Rightarrow> string \<Rightarrow> string list" where
  "Split c [] = [[]]"
| "Split c (x # xs) = (if x = c then [] # Split c xs else (case Split c xs of [] \<Rightarrow> [[x]] | w # ws \<Rightarrow> (x # w) # ws))"

fun group_concat :: "string list \<Rightarrow> string" where
  "group_concat [] = []"
| "group_concat [w] = w"
| "group_concat (w # ws) = w @ CHR '','' # group_concat ws"

lemma Split_word: "c \<notin> set w \<Longrightarrow> Split c w = [w]"
  by (induction w) auto

lemma Split_append: "c \<notin> set w \<Longrightarrow> Split c (w @ c # s) = w # Split c s"
  by (induction w) auto

lemma Split_group_concat:
  assumes "ws \<noteq> []" "\<And>w. w \<in> set ws \<Longrightarrow> CHR '','' \<notin> set w"
  shows "Split (CHR '','') (group_concat ws) = ws"
  using assms by (induction ws rule: group_concat.induct) (simp_all add: Split_word Split_append)

end
