(* ===== verification/Server_Db.thy ===== *)
theory Server_Db
  imports Dag_Store Server_Paging
begin

text \<open>
  The read-only queries of the API server over the database that the controller writes (\<open>internal/server/db\<close>): \<open>ss_\<close> is the SQLite manager
  (\<open>sqlite.go\<close>), \<open>sg_\<close> the Postgres manager (\<open>postgres.go\<close>). A join is a list of pairs of rows in table order. The serial key of
  \<open>DAG_Parameters\<close> is not a column of the model, so \<open>DBParameter\<close> has no \<open>ID\<close>; a pod template is the value its text encodes.
\<close>

section \<open>Results\<close>

type_synonym connections = "(nat, nat list) gomap"

record DBDAGMetaData =
  dm_DagId :: nat
  dm_Name :: string
  dm_Namespace :: string
  dm_Schedule :: string
  dm_Version :: int
  dm_Active :: bool
  dm_NextTime :: "int option"
  dm_IsSuspended :: bool
  dm_Connections :: connections

record DBTaskInfo =
  ti_Status :: string
  ti_Name :: string

record DBDagRunMeta =
  rm_Id :: nat
  rm_DagId :: nat
  rm_Status :: string
  rm_SuccessfulCount :: nat
  rm_FailedCount :: nat
  rm_Namespace :: string
  rm_Name :: string

record DBDagRun =
  rv_Connections :: connections
  rv_TaskInfo :: "(nat, DBTaskInfo) gomap"

record DBDagRunAll =
  ra_Id :: int
  ra_DagId :: nat
  ra_Status :: string
  ra_SuccessfulCount :: nat
  ra_FailedCount :: nat
  ra_Connections :: connections
  ra_TaskInfo :: "(nat, DBTaskInfo) gomap"

record DBTaskPod =
  tp_PodUID :: string
  tp_ExitCode :: "int option"
  tp_Name :: string
  tp_Status :: string
  tp_Duration :: "int option"

record DBTaskRunDetails =
  tv_Id :: nat
  tv_Status :: string
  tv_Attempts :: nat
  tv_Pods :: "DBTaskPod list"

text \<open>The surrogate key of a parameter row is not a column of the model, so it is not shown either.\<close>

record DBParameter =
  dq_Name :: string
  dq_IsSecret :: bool
  dq_DefaultValue :: string

record DBTaskDetails =
  td_ID :: nat
  td_Name :: string
  td_Command :: "string list"
  td_Args :: "string list"
  td_Image :: string
  td_Parameters :: "DBParameter list"
  td_BackOffLimit :: int
  td_IsConditional :: bool
  td_PodTemplate :: "PodTemplateSpec option"
  td_RetryCodes :: "int list"
  td_Script :: string

record DBDagTaskDetails =
  dtd_ID :: nat
  dtd_Name :: string
  dtd_Command :: "string list"
  dtd_Args :: "string list"
  dtd_Image :: string
  dtd_Parameters :: "string list"
  dtd_BackOffLimit :: int
  dtd_IsConditional :: bool
  dtd_PodTemplate :: "PodTemplateSpec option"
  dtd_RetryCodes :: "int list"
  dtd_Script :: string

record DBDailyDagRunCount =
  dc_Day :: int
  dc_SuccessfulCount :: nat
  dc_FailedCount :: nat

record DBDashboardStats =
  st_DAGCount :: nat
  st_SuccessfulDagRuns :: nat
  st_FailedDagRuns :: nat
  st_TotalDagRuns :: nat
  st_ActiveDagRuns :: nat
  st_DAGTypeCounts :: "(string, nat) gomap"
  st_TaskOutcomes :: "(string, nat) gomap"
  st_DailyDagRunCounts :: "DBDailyDagRunCount list"

section \<open>Loops over result rows\<close>

text \<open>Assignment to a key of a Go map, and a scan loop that stops at the first error.\<close>

fun gomap_put :: "'k \<Rightarrow> 'v \<Rightarrow> ('k, 'v) gomap \<Rightarrow> ('k, 'v) gomap" where
  "gomap_put k v [] = [(k, v)]"
| "gomap_put k v ((k', v') # m) = (if k' = k then (k, v) # m else (k', v') # gomap_put k v m)"

definition gomap_puts :: "('k \<times> 'v) list \<Rightarrow> ('k, 'v) gomap \<Rightarrow> ('k, 'v) gomap" where
  "gomap_puts kvs m = fold (\<lambda>(k, v). gomap_put k v) kvs m"

fun map_result :: "('a \<Rightarrow> 'b result) \<Rightarrow> 'a list \<Rightarrow> 'b list result" where
  "map_result f [] = Inr []"
| "map_result f (x # xs) =
     (case f x of Inl e \<Rightarrow> Inl e | Inr y \<Rightarrow> (case map_result f xs of Inl e \<Rightarrow> Inl e | Inr ys \<Rightarrow> Inr (y # ys)))"

lemma map_of_gomap_put [simp]: "map_of (gomap_put k v m) = (map_of m)(k \<mapsto> v)"
  by (induction m) auto

lemma map_of_gomap_puts: "map_of (gomap_puts kvs m) = map_of m ++ map_of (rev kvs)"
  by (induction kvs arbitrary: m) (auto simp: gomap_puts_def map_add_def fun_eq_iff split: option.split)

lemma map_result_Inr: "(\<And>x. x \<in> set xs \<Longrightarrow> f x = Inr (g x)) \<Longrightarrow> map_result f xs = Inr (map g xs)"
  by (induction xs) simp_all

lemma map_result_cong: "(\<And>x. x \<in> set xs \<Longrightarrow> f x = g x) \<Longrightarrow> map_result f xs = map_result g xs"
proof (induction xs)
  case (Cons x xs)
  then have "f x = g x" "map_result f xs = map_result g xs" by simp_all
  then show ?case by (cases "g x") simp_all
qed simp

section \<open>Connections\<close>

text \<open>
  \<open>Tasks LEFT JOIN DAG_Tasks LEFT JOIN Dependencies\<close>, restricted to a DAG. Grouped by the task of the DAG, the aggregate of a group has a null for
  a task without dependencies.
\<close>

definition conn_rows :: "nat \<Rightarrow> db \<Rightarrow> (nat \<times> nat option) list" where
  "conn_rows dagId s =
     concat (map (\<lambda>t. concat (map (\<lambda>dt.
         (case filter (\<lambda>p. dp_task_id p = dk_id dt) (deps s) of
            [] \<Rightarrow> [(dk_id dt, None)] | ps \<Rightarrow> map (\<lambda>p. (dk_id dt, Some (dp_depends_on p))) ps))
       (filter (\<lambda>dt. dk_task_id dt = tk_id t \<and> dk_dag_id dt = dagId) (dagtasks s)))) (tasks s))"

definition agg :: "nat \<Rightarrow> (nat \<times> nat option) list \<Rightarrow> nat option list" where
  "agg k rows = map snd (filter (\<lambda>r. fst r = k) rows)"

definition group_keys :: "(nat \<times> 'a) list \<Rightarrow> nat list" where
  "group_keys rows = remdups (map fst rows)"

text \<open>SQLite joins the dependencies to a text, which the code splits and parses.\<close>

definition ss_dependencies :: "nat option list \<Rightarrow> string" where
  "ss_dependencies vs = group_concat (map FormatUint (List.map_filter id vs))"

definition parse_dep :: "string \<Rightarrow> nat result" where
  "parse_dep dep = (case Atoi dep of Inl e \<Rightarrow> Inl e | Inr n \<Rightarrow> Inr (nat n))"

definition ss_conn :: "nat \<times> string \<Rightarrow> (nat \<times> nat list) result" where
  "ss_conn row =
     (if snd row = '''' then Inr (fst row, [])
      else case map_result parse_dep (Split (CHR '','') (snd row)) of Inl e \<Rightarrow> Inl e | Inr taskDeps \<Rightarrow> Inr (fst row, taskDeps))"

text \<open>SQL leaves the order in which \<open>GROUP_CONCAT\<close> and \<open>array_agg\<close> collect rows open; both are modelled in the order of the table.\<close>

definition ss_getDagConnections :: "nat \<Rightarrow> db \<Rightarrow> connections result" where
  "ss_getDagConnections dagId s =
     (let rows = conn_rows dagId s
      in case map_result ss_conn (map (\<lambda>k. (k, ss_dependencies (agg k rows))) (group_keys rows)) of
           Inl e \<Rightarrow> Inl e | Inr kvs \<Rightarrow> Inr (gomap_puts kvs []))"

text \<open>Postgres builds an array; one that holds a null beside other values cannot be read into \<open>[]int\<close>.\<close>

definition sg_dependencies :: "nat option list \<Rightarrow> nat option list" where
  "sg_dependencies vs = (if vs = [None] then [] else vs)"

definition sg_conn :: "nat \<times> nat option list \<Rightarrow> (nat \<times> nat list) result" where
  "sg_conn row = (if None \<in> set (snd row) then Inl (Err ''cannot scan NULL'') else Inr (fst row, map the (snd row)))"

definition sg_getDagConnections :: "nat \<Rightarrow> db \<Rightarrow> connections result" where
  "sg_getDagConnections dagId s =
     (let rows = conn_rows dagId s
      in case map_result sg_conn (map (\<lambda>k. (k, sg_dependencies (agg k rows))) (group_keys rows)) of
           Inl e \<Rightarrow> Inl e | Inr kvs \<Rightarrow> Inr (gomap_puts kvs []))"

section \<open>DAGs and runs\<close>

definition meta_of :: "dag_row \<Rightarrow> connections \<Rightarrow> DBDAGMetaData" where
  "meta_of d c = \<lparr>dm_DagId = dg_id d, dm_Name = dg_name d, dm_Namespace = dg_namespace d, dm_Schedule = dg_schedule d, dm_Version = dg_version d,
     dm_Active = dg_active d, dm_NextTime = dg_nexttime d, dm_IsSuspended = dg_suspended d, dm_Connections = c\<rparr>"

definition active_dags :: "db \<Rightarrow> dag_row list" where
  "active_dags s = order_by_desc (\<lambda>d. int (dg_id d)) (filter dg_active (dags s))"

definition ss_GetAllDagMetaData :: "int \<Rightarrow> int \<Rightarrow> db \<Rightarrow> DBDAGMetaData list result" where
  "ss_GetAllDagMetaData limit offset s =
     map_result (\<lambda>d. case ss_getDagConnections (dg_id d) s of Inl e \<Rightarrow> Inl e | Inr c \<Rightarrow> Inr (meta_of d c)) (sqlite_page limit offset (active_dags s))"

definition sg_GetAllDagMetaData :: "int \<Rightarrow> int \<Rightarrow> db \<Rightarrow> DBDAGMetaData list result" where
  "sg_GetAllDagMetaData limit offset s =
     (case postgres_page limit offset (active_dags s) of
        Inl e \<Rightarrow> Inl e
      | Inr rows \<Rightarrow> map_result (\<lambda>d. case sg_getDagConnections (dg_id d) s of Inl e \<Rightarrow> Inl e | Inr c \<Rightarrow> Inr (meta_of d c)) rows)"

text \<open>\<open>DAG_Tasks JOIN Tasks LEFT JOIN Task_Runs\<close>: the tasks of the DAG with the status of their runs, \<open>pending\<close> without one.\<close>

definition task_info_rows :: "int \<Rightarrow> nat \<Rightarrow> db \<Rightarrow> (nat \<times> DBTaskInfo) list" where
  "task_info_rows dagRunId dagId s =
     concat (map (\<lambda>d. concat (map (\<lambda>t.
         (case filter (\<lambda>r. tr_task_id r = dk_id d \<and> int (tr_run_id r) = dagRunId) (taskruns s) of
            [] \<Rightarrow> [(dk_id d, \<lparr>ti_Status = ''pending'', ti_Name = dk_name d\<rparr>)]
          | rs \<Rightarrow> map (\<lambda>r. (dk_id d, \<lparr>ti_Status = tr_status r, ti_Name = dk_name d\<rparr>)) rs))
       (filter (\<lambda>t. tk_id t = dk_task_id d) (tasks s))))
     (filter (\<lambda>d. dk_dag_id d = dagId) (dagtasks s)))"

definition server_run :: "int \<Rightarrow> db \<Rightarrow> run_row option" where
  "server_run dagRunId s = query_row (filter (\<lambda>r. int (rn_id r) = dagRunId) (runs s))"

definition add_missing :: "connections \<Rightarrow> (nat, DBTaskInfo) gomap \<Rightarrow> (nat, DBTaskInfo) gomap" where
  "add_missing connections taskInfo =
     fold (\<lambda>(k, _) m. if map_of m k = None then gomap_put k \<lparr>ti_Status = ''pending'', ti_Name = ''''\<rparr> m else m) connections taskInfo"

definition ss_GetDagRun :: "int \<Rightarrow> db \<Rightarrow> DBDagRun result" where
  "ss_GetDagRun dagRunId s =
     (case server_run dagRunId s of
        None \<Rightarrow> Inl ErrNoRows
      | Some r \<Rightarrow>
          (case ss_getDagConnections (rn_dag_id r) s of
             Inl e \<Rightarrow> Inl e
           | Inr connections \<Rightarrow>
               Inr \<lparr>rv_Connections = connections, rv_TaskInfo = add_missing connections (gomap_puts (task_info_rows dagRunId (rn_dag_id r) s) [])\<rparr>))"

definition sg_GetDagRun :: "int \<Rightarrow> db \<Rightarrow> DBDagRun result" where
  "sg_GetDagRun dagRunId s =
     (case server_run dagRunId s of
        None \<Rightarrow> Inl ErrNoRows
      | Some r \<Rightarrow>
          (case sg_getDagConnections (rn_dag_id r) s of
             Inl e \<Rightarrow> Inl e
           | Inr connections \<Rightarrow>
               Inr \<lparr>rv_Connections = connections, rv_TaskInfo = gomap_puts (task_info_rows dagRunId (rn_dag_id r) s) []\<rparr>))"

definition run_meta_rows :: "db \<Rightarrow> DBDagRunMeta list" where
  "run_meta_rows s =
     concat (map (\<lambda>r. map (\<lambda>d. \<lparr>rm_Id = rn_id r, rm_DagId = dg_id d, rm_Status = rn_status r, rm_SuccessfulCount = rn_successfulCount r,
         rm_FailedCount = rn_failedCount r, rm_Namespace = dg_namespace d, rm_Name = rn_name r\<rparr>) (filter (\<lambda>d. dg_id d = rn_dag_id r) (dags s)))
       (order_by_desc (\<lambda>r. int (rn_id r)) (runs s)))"

definition ss_GetDagRuns :: "int \<Rightarrow> int \<Rightarrow> db \<Rightarrow> DBDagRunMeta list result" where
  "ss_GetDagRuns limit offset s = Inr (sqlite_page limit offset (run_meta_rows s))"

definition sg_GetDagRuns :: "int \<Rightarrow> int \<Rightarrow> db \<Rightarrow> DBDagRunMeta list result" where
  "sg_GetDagRuns limit offset s = postgres_page limit offset (run_meta_rows s)"

definition run_all :: "(nat \<Rightarrow> db \<Rightarrow> connections result) \<Rightarrow> int \<Rightarrow> db \<Rightarrow> DBDagRunAll result" where
  "run_all getDagConnections dagRunId s =
     (case server_run dagRunId s of
        None \<Rightarrow> Inl ErrNoRows
      | Some r \<Rightarrow>
          (case getDagConnections (rn_dag_id r) s of
             Inl e \<Rightarrow> Inl e
           | Inr connections \<Rightarrow>
               Inr \<lparr>ra_Id = dagRunId, ra_DagId = rn_dag_id r, ra_Status = rn_status r, ra_SuccessfulCount = rn_successfulCount r,
                    ra_FailedCount = rn_failedCount r, ra_Connections = connections,
                    ra_TaskInfo = gomap_puts (task_info_rows dagRunId (rn_dag_id r) s) []\<rparr>))"

definition ss_GetDagRunAll :: "int \<Rightarrow> db \<Rightarrow> DBDagRunAll result" where
  "ss_GetDagRunAll = run_all ss_getDagConnections"

definition sg_GetDagRunAll :: "int \<Rightarrow> db \<Rightarrow> DBDagRunAll result" where
  "sg_GetDagRunAll = run_all sg_getDagConnections"

definition ss_GetDagNames :: "string \<Rightarrow> int \<Rightarrow> db \<Rightarrow> string list result" where
  "ss_GetDagNames searched limit s =
     Inr (map dg_name (sqlite_page limit 0 (filter (\<lambda>d. sqlite_like (''%'' @ searched @ ''%'') (dg_name d)) (dags s))))"

definition sg_GetDagNames :: "string \<Rightarrow> int \<Rightarrow> db \<Rightarrow> string list result" where
  "sg_GetDagNames searched limit s =
     (case postgres_page limit 0 (filter (\<lambda>d. postgres_ilike (''%'' @ searched @ ''%'') (dg_name d)) (dags s)) of
        Inl e \<Rightarrow> Inl e | Inr rows \<Rightarrow> Inr (map dg_name rows))"

definition ss_GetDagPageCount :: "int \<Rightarrow> db \<Rightarrow> int option" where
  "ss_GetDagPageCount limit s = page_count_up (length (dags s)) limit"

definition sg_GetDagPageCount :: "int \<Rightarrow> db \<Rightarrow> int option" where
  "sg_GetDagPageCount limit s = page_count (length (dags s)) limit"

definition ss_GetDagRunPageCount :: "int \<Rightarrow> db \<Rightarrow> int option" where
  "ss_GetDagRunPageCount limit s = page_count (length (runs s)) limit"

definition sg_GetDagRunPageCount :: "int \<Rightarrow> db \<Rightarrow> int option" where
  "sg_GetDagRunPageCount limit s = page_count (length (runs s)) limit"

section \<open>Parameters\<close>

definition newest_named :: "string \<Rightarrow> db \<Rightarrow> dag_row option" where
  "newest_named dagName s = query_row (order_by_desc dg_version (filter (\<lambda>d. dg_name d = dagName) (dags s)))"

definition parameter_of :: "param_row \<Rightarrow> DBParameter" where
  "parameter_of p = \<lparr>dq_Name = pr_name p, dq_IsSecret = pr_isSecret p, dq_DefaultValue = pr_defaultValue p\<rparr>"

definition latest_params :: "string \<Rightarrow> db \<Rightarrow> param_row list" where
  "latest_params dagName s = filter (\<lambda>p. case newest_named dagName s of None \<Rightarrow> False | Some d \<Rightarrow> pr_dag_id p = dg_id d) (params s)"

definition ss_GetDagParameters :: "string \<Rightarrow> db \<Rightarrow> DBParameter list result" where
  "ss_GetDagParameters dagName s = Inr (map parameter_of (latest_params dagName s))"

definition sg_GetDagParameters :: "string \<Rightarrow> db \<Rightarrow> DBParameter list result" where
  "sg_GetDagParameters dagName s = Inr (map parameter_of (latest_params dagName s))"

definition check_names :: "string list \<Rightarrow> (string, bool) gomap \<Rightarrow> (string, bool) gomap result" where
  "check_names parameterNames results =
     (case first_check (\<lambda>n. if map_of results n = None then Some (Err (''parameter '' @ n @ '' does not exist'')) else None) parameterNames of
        Some e \<Rightarrow> Inl e | None \<Rightarrow> Inr results)"

definition ss_GetIsSecrets :: "string \<Rightarrow> string list \<Rightarrow> db \<Rightarrow> (string, bool) gomap result" where
  "ss_GetIsSecrets dagName parameterNames s =
     check_names parameterNames
       (gomap_puts (map (\<lambda>p. (pr_name p, pr_isSecret p)) (filter (\<lambda>p. pr_name p \<in> set parameterNames) (latest_params dagName s))) [])"

definition sg_GetIsSecrets :: "string \<Rightarrow> string list \<Rightarrow> db \<Rightarrow> (string, bool) gomap result" where
  "sg_GetIsSecrets dagName parameterNames s =
     check_names parameterNames (gomap_puts (map (\<lambda>p. (pr_name p, pr_isSecret p)) (latest_params dagName s)) [])"

section \<open>Tasks and pods\<close>

definition details_of :: "task_row \<Rightarrow> string \<Rightarrow> DBParameter list \<Rightarrow> DBTaskDetails" where
  "details_of t name ps = \<lparr>td_ID = tk_id t, td_Name = name, td_Command = tk_command t, td_Args = tk_args t, td_Image = tk_image t, td_Parameters = ps,
     td_BackOffLimit = tk_backoffLimit t, td_IsConditional = tk_isConditional t, td_PodTemplate = tk_podTemplate t,
     td_RetryCodes = tk_retryCodes t, td_Script = tk_script t\<rparr>"

definition task_rows :: "int \<Rightarrow> db \<Rightarrow> (task_row \<times> dagtask_row) list" where
  "task_rows taskId s =
     concat (map (\<lambda>t. map (\<lambda>dt. (t, dt)) (filter (\<lambda>dt. dk_task_id dt = tk_id t \<and> int (dk_id dt) = taskId) (dagtasks s))) (tasks s))"

text \<open>
  The parameters of a task come from its DAG. A task can belong to several: the scalar subquery of SQLite takes the first of them, the query of
  Postgres all of them.
\<close>

definition ss_GetTaskDetails :: "int \<Rightarrow> db \<Rightarrow> DBTaskDetails result" where
  "ss_GetTaskDetails taskId s =
     (case query_row (task_rows taskId s) of
        None \<Rightarrow> Inl ErrNoRows
      | Some (t, dt) \<Rightarrow>
          Inr (details_of t (dk_name dt)
            (map parameter_of (filter (\<lambda>p. (case query_row (filter (\<lambda>d. dk_task_id d = tk_id t) (dagtasks s)) of
                None \<Rightarrow> False | Some d \<Rightarrow> pr_dag_id p = dk_dag_id d) \<and> pr_name p \<in> set (tk_parameters t)) (params s)))))"

definition sg_GetTaskDetails :: "int \<Rightarrow> db \<Rightarrow> DBTaskDetails result" where
  "sg_GetTaskDetails taskId s =
     (case query_row (task_rows taskId s) of
        None \<Rightarrow> Inl ErrNoRows
      | Some (t, dt) \<Rightarrow>
          Inr (details_of t (dk_name dt)
            (map parameter_of (filter (\<lambda>p. pr_dag_id p \<in> set (map dk_dag_id (filter (\<lambda>d. dk_task_id d = tk_id t) (dagtasks s))) \<and>
                pr_name p \<in> set (tk_parameters t)) (params s)))))"

definition maxDurationSec :: int where
  "maxDurationSec = 10 * 365 * 24 * 3600"

definition shown_duration :: "int option \<Rightarrow> int option" where
  "shown_duration duration = (case duration of None \<Rightarrow> None | Some d \<Rightarrow> if d < 0 \<or> d > maxDurationSec then None else Some d)"

definition pod_view :: "pod_row \<Rightarrow> DBTaskPod" where
  "pod_view p = \<lparr>tp_PodUID = po_uid p, tp_ExitCode = po_exitCode p, tp_Name = po_name p, tp_Status = po_status p, tp_Duration = shown_duration (po_duration p)\<rparr>"

definition ss_GetTaskRunDetails :: "int \<Rightarrow> int \<Rightarrow> db \<Rightarrow> DBTaskRunDetails result" where
  "ss_GetTaskRunDetails dagRunId taskId s =
     (case query_row (filter (\<lambda>r. int (tr_run_id r) = dagRunId \<and> int (tr_task_id r) = taskId) (taskruns s)) of
        None \<Rightarrow> Inl ErrNoRows
      | Some r \<Rightarrow> Inr \<lparr>tv_Id = tr_id r, tv_Status = tr_status r, tv_Attempts = tr_attempts r,
                       tv_Pods = map pod_view (filter (\<lambda>p. po_task_run_id p = tr_id r) (pods s))\<rparr>)"

definition sg_GetTaskRunDetails :: "int \<Rightarrow> int \<Rightarrow> db \<Rightarrow> DBTaskRunDetails result" where
  "sg_GetTaskRunDetails = ss_GetTaskRunDetails"

definition dagtask_view :: "task_row \<Rightarrow> DBDagTaskDetails" where
  "dagtask_view t = \<lparr>dtd_ID = tk_id t, dtd_Name = tk_name t, dtd_Command = tk_command t, dtd_Args = tk_args t, dtd_Image = tk_image t,
     dtd_Parameters = tk_parameters t, dtd_BackOffLimit = tk_backoffLimit t, dtd_IsConditional = tk_isConditional t, dtd_PodTemplate = tk_podTemplate t,
     dtd_RetryCodes = tk_retryCodes t, dtd_Script = tk_script t\<rparr>"

definition shared_tasks :: "db \<Rightarrow> task_row list" where
  "shared_tasks s = filter (\<lambda>t. \<not> tk_inline t) (tasks s)"

definition ss_GetDagTasks :: "int \<Rightarrow> int \<Rightarrow> db \<Rightarrow> DBDagTaskDetails list result" where
  "ss_GetDagTasks limit offset s = Inr (map dagtask_view (sqlite_page limit offset (shared_tasks s)))"

definition sg_GetDagTasks :: "int \<Rightarrow> int \<Rightarrow> db \<Rightarrow> DBDagTaskDetails list result" where
  "sg_GetDagTasks limit offset s =
     (case postgres_page limit offset (shared_tasks s) of Inl e \<Rightarrow> Inl e | Inr rows \<Rightarrow> Inr (map dagtask_view rows))"

definition ss_GetDagTaskPageCount :: "int \<Rightarrow> db \<Rightarrow> int result" where
  "ss_GetDagTaskPageCount limit s =
     (if limit \<le> 0 then Inl (Err ''limit must be greater than zero'')
      else case page_count (length (shared_tasks s)) limit of Some k \<Rightarrow> Inr k | None \<Rightarrow> Inl (Err ''integer divide by zero''))"

definition sg_GetDagTaskPageCount :: "int \<Rightarrow> db \<Rightarrow> int result" where
  "sg_GetDagTaskPageCount = ss_GetDagTaskPageCount"

definition ss_PodExists :: "string \<Rightarrow> db \<Rightarrow> bool result" where
  "ss_PodExists podUID s = Inr (\<exists>p \<in> set (pods s). po_uid p = podUID)"

definition sg_PodExists :: "string \<Rightarrow> db \<Rightarrow> bool result" where
  "sg_PodExists = ss_PodExists"

definition ss_GetPodNameAndNamespace :: "string \<Rightarrow> db \<Rightarrow> (string \<times> string) result" where
  "ss_GetPodNameAndNamespace podUID s =
     (case query_row (filter (\<lambda>p. po_uid p = podUID) (pods s)) of None \<Rightarrow> Inl ErrNoRows | Some p \<Rightarrow> Inr (po_namespace p, po_name p))"

definition sg_GetPodNameAndNamespace :: "string \<Rightarrow> db \<Rightarrow> (string \<times> string) result" where
  "sg_GetPodNameAndNamespace = ss_GetPodNameAndNamespace"

section \<open>The dashboard\<close>

text \<open>
  The last thirty days. Times are in nanoseconds. SQLite compares texts of whole seconds; the text of a pod's time is local (offset \<open>tz\<close> in seconds)
  and longer than the one it is compared with.
\<close>

definition sg_recent :: "int \<Rightarrow> int \<Rightarrow> bool" where
  "sg_recent now t \<longleftrightarrow> now - 30 * 86400 * 1000000000 \<le> t"

definition ss_recent :: "int \<Rightarrow> int \<Rightarrow> bool" where
  "ss_recent now t \<longleftrightarrow> now div 1000000000 - 30 * 86400 \<le> t div 1000000000"

definition ss_recent_pod :: "int \<Rightarrow> int \<Rightarrow> int \<Rightarrow> bool" where
  "ss_recent_pod tz now t \<longleftrightarrow> now div 1000000000 - 30 * 86400 \<le> t div 1000000000 + tz"

definition day_of :: "int \<Rightarrow> int" where
  "day_of t = t div (86400 * 1000000000)"

definition count_where :: "('r \<Rightarrow> bool) \<Rightarrow> 'r list \<Rightarrow> nat" where
  "count_where P rows = length (filter P rows)"

text \<open>A sum over no rows is null.\<close>

definition sum_where :: "('r \<Rightarrow> bool) \<Rightarrow> 'r list \<Rightarrow> nat option" where
  "sum_where P rows = (if rows = [] then None else Some (count_where P rows))"

definition null_int :: "nat option \<Rightarrow> nat" where
  "null_int v = (case v of None \<Rightarrow> 0 | Some n \<Rightarrow> n)"

definition outcome_rows :: "(int \<Rightarrow> bool) \<Rightarrow> db \<Rightarrow> taskrun_row list" where
  "outcome_rows recent s =
     filter (\<lambda>r. let ups = map po_updated_at (filter (\<lambda>p. po_task_run_id p = tr_id r) (pods s)) in ups \<noteq> [] \<and> recent (fold max ups (hd ups))) (taskruns s)"

definition dag_type :: "dag_row \<Rightarrow> string" where
  "dag_type d = (if dg_schedule d = '''' then ''Event Driven'' else ''Scheduled'')"

definition dag_type_counts :: "db \<Rightarrow> (string, nat) gomap" where
  "dag_type_counts s =
     gomap_puts (map (\<lambda>k. (k, count_where (\<lambda>d. dag_type d = k) (dags s))) (remdups (map dag_type (dags s)))) []"

definition daily_counts :: "(int \<Rightarrow> bool) \<Rightarrow> db \<Rightarrow> DBDailyDagRunCount list" where
  "daily_counts recent s =
     (let rows = filter (\<lambda>r. recent (rn_run_time r)) (runs s)
      in map (\<lambda>d. \<lparr>dc_Day = d, dc_SuccessfulCount = count_where (\<lambda>r. day_of (rn_run_time r) = d \<and> rn_status r = ''success'') rows,
                   dc_FailedCount = count_where (\<lambda>r. day_of (rn_run_time r) = d \<and> rn_status r = ''failed'') rows\<rparr>)
           (sort (remdups (map (\<lambda>r. day_of (rn_run_time r)) rows))))"

text \<open>The five queries run concurrently and write different fields; they only read the database.\<close>

definition ss_GetDashboardStats :: "int \<Rightarrow> int \<Rightarrow> db \<Rightarrow> DBDashboardStats result" where
  "ss_GetDashboardStats tz now s =
     (let outcomes = outcome_rows (ss_recent_pod tz now) s;
          total = (\<lambda>P. null_int (sum_where P (runs s)))
      in Inr \<lparr>st_DAGCount = count_where dg_active (dags s),
              st_SuccessfulDagRuns = total (\<lambda>r. rn_status r = ''success'' \<and> ss_recent now (rn_run_time r)),
              st_FailedDagRuns = total (\<lambda>r. rn_status r = ''failed'' \<and> ss_recent now (rn_run_time r)),
              st_TotalDagRuns = total (\<lambda>r. ss_recent now (rn_run_time r)),
              st_ActiveDagRuns = total (\<lambda>r. rn_status r = ''running''),
              st_DAGTypeCounts = dag_type_counts s,
              st_TaskOutcomes = [(''Completed'', null_int (sum_where (\<lambda>r. tr_status r = ''success'') outcomes)),
                                 (''Failed'', null_int (sum_where (\<lambda>r. tr_status r = ''failed'') outcomes))],
              st_DailyDagRunCounts = daily_counts (ss_recent now) s\<rparr>)"

definition sg_GetDashboardStats :: "int \<Rightarrow> db \<Rightarrow> DBDashboardStats result" where
  "sg_GetDashboardStats now s =
     (let outcomes = outcome_rows (sg_recent now) s
      in case (sum_where (\<lambda>r. tr_status r = ''success'') outcomes, sum_where (\<lambda>r. tr_status r = ''failed'') outcomes) of
           (Some completed, Some failed) \<Rightarrow>
             Inr \<lparr>st_DAGCount = count_where dg_active (dags s),
                  st_SuccessfulDagRuns = count_where (\<lambda>r. rn_status r = ''success'' \<and> sg_recent now (rn_run_time r)) (runs s),
                  st_FailedDagRuns = count_where (\<lambda>r. rn_status r = ''failed'' \<and> sg_recent now (rn_run_time r)) (runs s),
                  st_TotalDagRuns = count_where (\<lambda>r. sg_recent now (rn_run_time r)) (runs s),
                  st_ActiveDagRuns = count_where (\<lambda>r. rn_status r = ''running'') (runs s),
                  st_DAGTypeCounts = dag_type_counts s,
                  st_TaskOutcomes = [(''Completed'', completed), (''Failed'', failed)],
                  st_DailyDagRunCounts = daily_counts (sg_recent now) s\<rparr>
         | _ \<Rightarrow> Inl (Err ''failed to execute taskOutcomesQuery''))"

end
