(* ===== verification/Server_Db_Laws.thy ===== *)
theory Server_Db_Laws
  imports Server_Db Postgres_Integrity
begin

text \<open>
  What the queries of the API server answer: the connections of a DAG are its stored dependencies, with both managers and whether they travel as a text
  or as an array; the views of runs agree; the pages cover the active DAGs; and when the dashboard of a Postgres server fails.
\<close>

section \<open>The connections of a DAG\<close>

text \<open>The rows of one task of a DAG in the join.\<close>

definition conn_block :: "db \<Rightarrow> dagtask_row \<Rightarrow> (nat \<times> nat option) list" where
  "conn_block s dt =
     (case filter (\<lambda>p. dp_task_id p = dk_id dt) (deps s) of
        [] \<Rightarrow> [(dk_id dt, None)] | ps \<Rightarrow> map (\<lambda>p. (dk_id dt, Some (dp_depends_on p))) ps)"

definition task_deps :: "nat \<Rightarrow> db \<Rightarrow> nat list" where
  "task_deps k s = map dp_depends_on (filter (\<lambda>p. dp_task_id p = k) (deps s))"

lemma conn_rows_blocks:
  "conn_rows dagId s =
     concat (map (\<lambda>t. concat (map (conn_block s) (filter (\<lambda>dt. dk_task_id dt = tk_id t \<and> dk_dag_id dt = dagId) (dagtasks s)))) (tasks s))"
  unfolding conn_rows_def conn_block_def by simp

lemma conn_block_fst: "r \<in> set (conn_block s dt) \<Longrightarrow> fst r = dk_id dt"
  by (auto simp: conn_block_def split: list.splits)

lemma conn_block_nonempty: "conn_block s dt \<noteq> []"
  by (simp add: conn_block_def split: list.split)

lemma conn_block_snd: "map snd (conn_block s dt) = (if task_deps (dk_id dt) s = [] then [None] else map Some (task_deps (dk_id dt) s))"
  by (auto simp: conn_block_def task_deps_def split: list.split)

definition shown_task :: "nat \<Rightarrow> db \<Rightarrow> nat \<Rightarrow> bool" where
  "shown_task dagId s k \<longleftrightarrow> (\<exists>dt \<in> set (dagtasks s). dk_id dt = k \<and> dk_dag_id dt = dagId \<and> dk_task_id dt \<in> tk_id ` set (tasks s))"

lemma conn_keys: "set (group_keys (conn_rows dagId s)) = {k. shown_task dagId s k}"
proof -
  have "fst ` set (conn_block s dt) = {dk_id dt}" for dt
    using conn_block_fst [of _ s dt] conn_block_nonempty [of s dt] by (cases "conn_block s dt") force+
  then show ?thesis
    unfolding group_keys_def conn_rows_blocks shown_task_def by (auto simp: image_UN image_iff)
qed

lemma filter_block: "filter (\<lambda>r. fst r = k) (conn_block s dt) = (if dk_id dt = k then conn_block s dt else [])"
  by (auto simp: filter_id_conv filter_empty_conv dest: conn_block_fst)

lemma filter_blocks:
  "filter (\<lambda>r. fst r = k) (concat (map (conn_block s) dts)) = concat (map (conn_block s) (filter (\<lambda>dt. dk_id dt = k) dts))"
  by (induction dts) (auto simp: filter_block)

lemma filter_concat_map: "filter P (concat (map f xs)) = concat (map (\<lambda>x. filter P (f x)) xs)"
  by (induction xs) simp_all

lemma map_result_map: "map_result f (map g xs) = map_result (\<lambda>x. f (g x)) xs"
  by (induction xs) (simp_all split: sum.split)

lemma filter_key:
  assumes "distinct (map f xs)" "a \<in> set xs"
  shows "filter (\<lambda>x. f x = f a \<and> Q x) xs = (if Q a then [a] else [])"
  using assms by (induction xs) (auto simp: filter_empty_conv image_iff)

lemma concat_key:
  assumes "distinct (map f xs)" "a \<in> set xs"
  shows "concat (map (\<lambda>x. if f a = f x then g x else []) xs) = g a"
  using assms
proof (induction xs)
  case (Cons x xs)
  have none: "concat (map (\<lambda>x. if f a = f x then g x else []) ys) = []" if "f a \<notin> f ` set ys" for ys
    using that by (induction ys) auto
  show ?case
  proof (cases "a = x")
    case True
    with Cons.prems none show ?thesis by auto
  next
    case False
    with Cons.prems have "f x \<noteq> f a" by (auto simp: image_iff)
    with False Cons show ?thesis by auto
  qed
qed simp

lemma agg_conn_rows:
  assumes "keys_ok s" "shown_task dagId s k"
  shows "agg k (conn_rows dagId s) = (if task_deps k s = [] then [None] else map Some (task_deps k s))"
proof -
  obtain dt t where dt: "dt \<in> set (dagtasks s)" "dk_id dt = k" "dk_dag_id dt = dagId" and t: "t \<in> set (tasks s)" "dk_task_id dt = tk_id t"
    using assms(2) unfolding shown_task_def by auto
  have dist: "distinct (map dk_id (dagtasks s))" "distinct (map tk_id (tasks s))"
    using assms(1) by (simp_all add: keys_ok_def keys_defs)
  have inner: "filter (\<lambda>x. dk_task_id x = tk_id u \<and> dk_dag_id x = dagId \<and> dk_id x = k) (dagtasks s) = (if tk_id t = tk_id u then [dt] else [])" for u
  proof -
    have "filter (\<lambda>x. dk_task_id x = tk_id u \<and> dk_dag_id x = dagId \<and> dk_id x = k) (dagtasks s) =
        filter (\<lambda>x. dk_id x = dk_id dt \<and> (dk_task_id x = tk_id u \<and> dk_dag_id x = dagId)) (dagtasks s)"
      using dt(2) by (intro filter_cong) auto
    also have "\<dots> = (if tk_id t = tk_id u then [dt] else [])" using filter_key [OF dist(1) dt(1)] dt(3) t(2) by simp
    finally show ?thesis .
  qed
  have "filter (\<lambda>r. fst r = k) (conn_rows dagId s) = concat (map (\<lambda>u. if tk_id t = tk_id u then conn_block s dt else []) (tasks s))"
    unfolding conn_rows_blocks by (subst filter_concat_map) (simp add: filter_blocks inner if_distrib [of "map _"] if_distrib [of concat] cong: if_cong)
  also have "\<dots> = conn_block s dt" using concat_key [OF dist(2) t(1), of "\<lambda>_. conn_block s dt"] by simp
  finally show ?thesis unfolding agg_def using conn_block_snd [of s dt] dt(2) by simp
qed

subsection \<open>Text and array\<close>

lemma map_filter_Some: "List.map_filter id (map Some xs) = xs"
  by (induction xs) (simp_all add: map_filter_simps)

lemma parse_FormatUint: "n < 2 ^ 63 \<Longrightarrow> parse_dep (FormatUint n) = Inr n"
  using Atoi_Itoa [of "int n"] by (simp add: parse_dep_def Itoa_def)

lemma comma_FormatUint: "CHR '','' \<notin> set (FormatUint n)"
  using FormatUint_digits [of n] by (auto simp: list_all_iff is_digit_def)

lemma group_concat_Nil: "group_concat (map FormatUint ns) = [] \<longleftrightarrow> ns = []"
  by (induction "map FormatUint ns" arbitrary: ns rule: group_concat.induct) auto

lemma ss_conn_deps:
  assumes "\<And>n. n \<in> set ns \<Longrightarrow> n < 2 ^ 63"
  shows "ss_conn (k, ss_dependencies (if ns = [] then [None] else map Some ns)) = Inr (k, ns)"
proof (cases "ns = []")
  case True
  then show ?thesis by (simp add: ss_conn_def ss_dependencies_def map_filter_simps)
next
  case False
  then have "Split (CHR '','') (group_concat (map FormatUint ns)) = map FormatUint ns"
    by (intro Split_group_concat) (auto simp: comma_FormatUint)
  moreover have "map_result parse_dep (map FormatUint ns) = Inr ns"
    using assms by (induction ns) (simp_all add: parse_FormatUint)
  ultimately show ?thesis using False by (simp add: ss_conn_def ss_dependencies_def map_filter_Some group_concat_Nil)
qed

lemma sg_conn_deps: "sg_conn (k, sg_dependencies (if ns = [] then [None] else map Some ns)) = Inr (k, ns)"
  by (cases ns) (auto simp: sg_conn_def sg_dependencies_def)

definition conn_list :: "nat \<Rightarrow> db \<Rightarrow> (nat \<times> nat list) list" where
  "conn_list dagId s = map (\<lambda>k. (k, task_deps k s)) (group_keys (conn_rows dagId s))"

lemma sg_connections:
  assumes "keys_ok s"
  shows "sg_getDagConnections dagId s = Inr (gomap_puts (conn_list dagId s) [])"
proof -
  have "map_result (\<lambda>k. sg_conn (k, sg_dependencies (agg k (conn_rows dagId s)))) (group_keys (conn_rows dagId s)) = Inr (conn_list dagId s)"
    unfolding conn_list_def by (rule map_result_Inr) (use conn_keys assms in \<open>auto simp: agg_conn_rows sg_conn_deps\<close>)
  then show ?thesis by (simp add: sg_getDagConnections_def Let_def map_result_map)
qed

lemma ss_connections:
  assumes "keys_ok s" "\<And>p. p \<in> set (deps s) \<Longrightarrow> dp_depends_on p < 2 ^ 63"
  shows "ss_getDagConnections dagId s = Inr (gomap_puts (conn_list dagId s) [])"
proof -
  have "n < 2 ^ 63" if "n \<in> set (task_deps k s)" for n k using that assms(2) by (auto simp: task_deps_def)
  then have "map_result (\<lambda>k. ss_conn (k, ss_dependencies (agg k (conn_rows dagId s)))) (group_keys (conn_rows dagId s)) = Inr (conn_list dagId s)"
    unfolding conn_list_def by (intro map_result_Inr) (use conn_keys assms(1) in \<open>auto simp: agg_conn_rows ss_conn_deps\<close>)
  then show ?thesis by (simp add: ss_getDagConnections_def Let_def map_result_map)
qed

lemma map_of_rev: "distinct (map fst m) \<Longrightarrow> map_of (rev m) = map_of m"
  by (induction m) (auto simp: map_add_def fun_eq_iff image_iff dest: map_of_SomeD split: option.split)

lemma conn_list_lookup: "map_of (gomap_puts (conn_list dagId s) []) k = (if shown_task dagId s k then Some (task_deps k s) else None)"
proof -
  have "distinct (map fst (conn_list dagId s))" by (simp add: conn_list_def comp_def group_keys_def)
  then have "map_of (gomap_puts (conn_list dagId s) []) = map_of (conn_list dagId s)"
    by (simp add: map_of_gomap_puts map_of_rev)
  moreover have "map_of (conn_list dagId s) k = (if k \<in> set (group_keys (conn_rows dagId s)) then Some (task_deps k s) else None)"
    unfolding conn_list_def by (simp add: map_of_map_restrict restrict_map_def)
  ultimately show ?thesis using conn_keys by simp
qed

text \<open>
  (C19) Both managers answer with the same connections: for every task of the DAG that has a stored definition, exactly its dependencies in the order
  of the table, whether they come as an array or through a comma-separated text that is split and parsed again.
\<close>

theorem connections_exact:
  assumes "keys_ok s" "\<forall>p \<in> set (deps s). dp_depends_on p < 2 ^ 63"
  shows "\<exists>c. ss_getDagConnections dagId s = Inr c \<and> sg_getDagConnections dagId s = Inr c \<and>
    (\<forall>k. map_of c k =
       (if \<exists>dt \<in> set (dagtasks s). dk_id dt = k \<and> dk_dag_id dt = dagId \<and> dk_task_id dt \<in> tk_id ` set (tasks s)
        then Some (map dp_depends_on (filter (\<lambda>p. dp_task_id p = k) (deps s))) else None))"
  using ss_connections [OF assms(1), of dagId] sg_connections [OF assms(1), of dagId] assms(2) conn_list_lookup [of dagId s]
  unfolding shown_task_def task_deps_def by auto

lemma shown_graph:
  assumes "keys_ok s" "tasks_exist dagId s"
  shows "dom (map_of (gomap_puts (conn_list dagId s) [])) = set (map dk_id (dag_tasks_of dagId s)) \<and>
    {(dk_name k, dk_name e) | k e ns. k \<in> set (dagtasks s) \<and> e \<in> set (dagtasks s) \<and>
       map_of (gomap_puts (conn_list dagId s) []) (dk_id k) = Some ns \<and> dk_id e \<in> set ns} = named_deps dagId s"
proof -
  let ?c = "gomap_puts (conn_list dagId s) []"
  have shown_task: "shown_task dagId s k \<longleftrightarrow> k \<in> set (map dk_id (dag_tasks_of dagId s))" for k
    using assms(2) unfolding shown_task_def dag_tasks_of_def tasks_exist_def by (fastforce simp: image_iff)
  have same: "dk_dag_id k = dagId \<longleftrightarrow> shown_task dagId s (dk_id k)" if "k \<in> set (dagtasks s)" for k
  proof -
    have "inj_on dk_id (set (dagtasks s))" using assms(1) by (simp add: keys_ok_def keys_defs distinct_map)
    with that show ?thesis unfolding shown_task dag_tasks_of_def by (auto dest: inj_onD)
  qed
  have edge: "(\<exists>ns. map_of ?c (dk_id k) = Some ns \<and> dk_id e \<in> set ns) \<longleftrightarrow>
      dk_dag_id k = dagId \<and> (\<exists>d \<in> set (deps s). dk_id k = dp_task_id d \<and> dk_id e = dp_depends_on d)" if "k \<in> set (dagtasks s)" for k e
    using same [OF that] by (simp add: conn_list_lookup task_deps_def image_iff) metis
  have "dom (map_of ?c) = set (map dk_id (dag_tasks_of dagId s))" using shown_task by (auto simp: conn_list_lookup split: if_splits)
  moreover have "{(dk_name k, dk_name e) | k e ns. k \<in> set (dagtasks s) \<and> e \<in> set (dagtasks s) \<and> map_of ?c (dk_id k) = Some ns \<and> dk_id e \<in> set ns} = named_deps dagId s"
    unfolding named_deps_def using edge by (intro Collect_cong) blast
  ultimately show ?thesis by (rule conjI)
qed

text \<open>
  What the API server draws is the stored graph: in every database the Postgres manager reaches, the connections of a DAG have exactly its tasks
  as keys, and read by name their edges are the dependencies stored for the DAG.
\<close>

theorem shown_graph_is_stored_graph:
  assumes "pg_reachable s" "keys_ok s"
  shows "\<exists>c. sg_getDagConnections dagId s = Inr c \<and> dom (map_of c) = set (map dk_id (dag_tasks_of dagId s)) \<and>
    {(dk_name k, dk_name e) | k e ns. k \<in> set (dagtasks s) \<and> e \<in> set (dagtasks s) \<and> map_of c (dk_id k) = Some ns \<and> dk_id e \<in> set ns} = named_deps dagId s"
proof -
  have "dk_task_id ` set (dagtasks s) \<subseteq> tk_id ` set (tasks s)" using pg_reachable_fk [OF assms(1)] unfolding pg_fk_def by simp
  then have "tasks_exist dagId s" by (auto simp: tasks_exist_def)
  from shown_graph [OF assms(2) this] sg_connections [OF assms(2)] show ?thesis by blast
qed

section \<open>The tasks of a run\<close>

definition info_block :: "int \<Rightarrow> db \<Rightarrow> dagtask_row \<Rightarrow> (nat \<times> DBTaskInfo) list" where
  "info_block run s d =
     (case filter (\<lambda>r. tr_task_id r = dk_id d \<and> int (tr_run_id r) = run) (taskruns s) of
        [] \<Rightarrow> [(dk_id d, \<lparr>ti_Status = ''pending'', ti_Name = dk_name d\<rparr>)]
      | rs \<Rightarrow> map (\<lambda>r. (dk_id d, \<lparr>ti_Status = tr_status r, ti_Name = dk_name d\<rparr>)) rs)"

lemma info_block_fst: "fst ` set (info_block run s d) = {dk_id d}"
  by (auto simp: info_block_def split: list.split)

lemma task_info_keys: "fst ` set (task_info_rows run dagId s) = {k. shown_task dagId s k}"
proof -
  have "task_info_rows run dagId s =
      concat (map (\<lambda>d. concat (map (\<lambda>t. info_block run s d) (filter (\<lambda>t. tk_id t = dk_task_id d) (tasks s)))) (filter (\<lambda>d. dk_dag_id d = dagId) (dagtasks s)))"
    unfolding task_info_rows_def info_block_def by simp
  then have "fst ` set (task_info_rows run dagId s) =
      (\<Union>d \<in> {d \<in> set (dagtasks s). dk_dag_id d = dagId}. \<Union>t \<in> {t \<in> set (tasks s). tk_id t = dk_task_id d}. fst ` set (info_block run s d))"
    by (simp only: set_concat set_map set_filter image_UN image_image)
  also have "\<dots> = {k. shown_task dagId s k}"
  proof -
    have ne: "dk_task_id d \<in> tk_id ` set (tasks s) \<longleftrightarrow> \<not> {t \<in> set (tasks s). tk_id t = dk_task_id d} = {}" for d by force
    have un: "(\<Union>d \<in> {d \<in> A. P d}. if Q d then {} else {f d}) = {k. \<exists>d \<in> A. f d = k \<and> P d \<and> \<not> Q d}" for A :: "dagtask_row set" and P Q and f :: "dagtask_row \<Rightarrow> nat"
      by auto
    show ?thesis unfolding shown_task_def info_block_fst UN_constant ne by (rule un)
  qed
  finally show ?thesis .
qed

lemma gomap_puts_dom: "map_of (gomap_puts kvs []) k = None \<longleftrightarrow> k \<notin> fst ` set kvs"
  by (simp add: map_of_gomap_puts map_of_eq_None_iff)

lemma add_missing_none: "fst ` set c \<subseteq> dom (map_of m) \<Longrightarrow> add_missing c m = m"
  unfolding add_missing_def by (induction c) auto

text \<open>
  The view of a run is the same with both managers: the loop with which the SQLite manager adds connected tasks without a state has nothing to
  add, since the query already yields every task of the DAG, \<open>pending\<close> when it has no run.
\<close>

theorem run_views_agree:
  assumes "keys_ok s" "\<forall>p \<in> set (deps s). dp_depends_on p < 2 ^ 63"
  shows "ss_GetDagRun dagRunId s = sg_GetDagRun dagRunId s \<and> ss_GetDagRunAll dagRunId s = sg_GetDagRunAll dagRunId s"
proof -
  have same: "ss_getDagConnections d s = Inr (gomap_puts (conn_list d s) [])" "sg_getDagConnections d s = Inr (gomap_puts (conn_list d s) [])" for d
    using ss_connections [OF assms(1)] sg_connections [OF assms(1)] assms(2) by blast+
  have "add_missing (gomap_puts (conn_list d s) []) (gomap_puts (task_info_rows dagRunId d s) []) = gomap_puts (task_info_rows dagRunId d s) []" for d
  proof (rule add_missing_none, rule subsetI)
    fix k assume "k \<in> fst ` set (gomap_puts (conn_list d s) [])"
    then have "map_of (gomap_puts (conn_list d s) []) k \<noteq> None" by (simp add: map_of_eq_None_iff)
    then have "shown_task d s k" by (simp add: conn_list_lookup split: if_splits)
    then show "k \<in> dom (map_of (gomap_puts (task_info_rows dagRunId d s) []))"
      using gomap_puts_dom [of "task_info_rows dagRunId d s" k] by (simp add: task_info_keys domIff)
  qed
  then show ?thesis
    by (simp add: ss_GetDagRun_def sg_GetDagRun_def ss_GetDagRunAll_def sg_GetDagRunAll_def run_all_def same split: option.split)
qed

section \<open>The dashboard\<close>

text \<open>
  The dashboard of a Postgres server fails whenever no task run has had a pod in the last thirty days, as in a new installation: the sums over no
  rows are null and cannot be read into integers. The SQLite server answers in every state.
\<close>

theorem postgres_dashboard_needs_pods:
  assumes "\<forall>p \<in> set (pods s). \<not> sg_recent now (po_updated_at p)"
  shows "(\<exists>e. sg_GetDashboardStats now s = Inl e) \<and> (\<exists>st. ss_GetDashboardStats tz now s = Inr st)"
proof -
  have mem: "fold max ups x \<in> insert x (set ups)" for ups and x :: int
    by (induction ups arbitrary: x) (auto simp: max_def)
  have "\<not> sg_recent now (fold max ups (hd ups))"
    if "ups = map po_updated_at (filter (\<lambda>p. po_task_run_id p = i) (pods s))" "ups \<noteq> []" for ups i
  proof -
    have "fold max ups (hd ups) \<in> set ups" using mem [of ups "hd ups"] that(2) by auto
    then show ?thesis using assms that(1) by auto
  qed
  then have "outcome_rows (sg_recent now) s = []" unfolding outcome_rows_def Let_def filter_empty_conv by blast
  then show ?thesis by (simp add: sg_GetDashboardStats_def sum_where_def ss_GetDashboardStats_def Let_def)
qed

section \<open>Pages\<close>

lemma length_insert_desc [simp]: "length (insert_desc key x ys) = Suc (length ys)"
  by (induction ys) simp_all

lemma length_order_by_desc [simp]: "length (order_by_desc key xs) = length xs"
  by (induction xs) simp_all

text \<open>
  The pages of DAGs of the SQLite server, read up to its page count, are all the active DAGs, each once and newest first. The count is taken over all
  stored versions, so there are as many empty pages at the end as the inactive versions fill.
\<close>

theorem dag_pages_cover:
  assumes "0 < limit"
  shows "\<exists>k. ss_GetDagPageCount limit s = Some k \<and> sg_GetDagPageCount limit s = Some k \<and>
    concat (map (\<lambda>p. sqlite_page limit (int p * limit) (active_dags s)) [0..<nat k]) = active_dags s \<and>
    set (active_dags s) = {d \<in> set (dags s). dg_active d} \<and>
    (\<forall>p. int (length (active_dags s)) \<le> int p * limit \<longrightarrow> ss_GetAllDagMetaData limit (int p * limit) s = Inr [])"
proof -
  have pc: "ss_GetDagPageCount limit s = sg_GetDagPageCount limit s"
    by (simp add: ss_GetDagPageCount_def sg_GetDagPageCount_def page_counts_agree assms)
  obtain k where k: "page_count (length (dags s)) limit = Some k" using assms by (auto simp: page_count_def)
  have "length (active_dags s) \<le> length (dags s)" by (simp add: active_dags_def)
  also note pages_enough [OF k assms]
  finally have "concat (map (\<lambda>p. sqlite_page limit (int p * limit) (active_dags s)) [0..<nat k]) = active_dags s"
    using pages_cover_nat [of "active_dags s" "nat k" "nat limit"] assms by (simp add: sqlite_page_def nat_mult_distrib)
  moreover have "ss_GetAllDagMetaData limit (int p * limit) s = Inr []" if "int (length (active_dags s)) \<le> int p * limit" for p
    using that assms by (simp add: ss_GetAllDagMetaData_def sqlite_page_def)
  ultimately show ?thesis using pc k by (auto simp: sg_GetDagPageCount_def active_dags_def)
qed

section \<open>Witnesses\<close>

text \<open>A DAG of two tasks, the second after the first, stored by the Postgres manager.\<close>

definition ex_pair :: DAG where
  "ex_pair = ex_dag\<lparr>dag_Spec := zero_DAGSpec\<lparr>ds_Task := [ex_task ''a'' [], ex_task ''b'' [''a'']]\<rparr>\<rparr>"

definition ex_shown :: db where
  "ex_shown = snd (pg_InsertDAG ex_digest ex_uuid ex_cron 0 ex_pair ''ns'' empty_db)"

lemma ex_shown_columns:
  "map dg_id (dags ex_shown) = [1]" "map tk_id (tasks ex_shown) = [1, 2]" "map dk_id (dagtasks ex_shown) = [1, 2]"
  "map dp_depends_on (deps ex_shown) = [1]" "runs ex_shown = []" "taskruns ex_shown = []"
  "next_dag ex_shown = 2" "next_task ex_shown = 3" "next_dagtask ex_shown = 3"
  unfolding ex_shown_def by code_simp+

lemma column_bound: "map f xs = ys \<Longrightarrow> \<forall>y \<in> set ys. 0 < y \<and> y < n \<Longrightarrow> \<forall>x \<in> set xs. 0 < f x \<and> f x < (n :: nat)"
  by auto

lemma ex_shown_reachable: "pg_reachable ex_shown"
  unfolding ex_shown_def by (intro pg_reachable.intros)

lemma ex_shown_keys: "keys_ok ex_shown" "\<forall>p \<in> set (deps ex_shown). dp_depends_on p < 2 ^ 63"
proof -
  have "\<forall>d \<in> set (dags ex_shown). 0 < dg_id d \<and> dg_id d < 2" "\<forall>t \<in> set (tasks ex_shown). 0 < tk_id t \<and> tk_id t < 3"
    "\<forall>t \<in> set (dagtasks ex_shown). 0 < dk_id t \<and> dk_id t < 3"
    by (rule column_bound [OF ex_shown_columns(1)] column_bound [OF ex_shown_columns(2)] column_bound [OF ex_shown_columns(3)], simp)+
  then show "keys_ok ex_shown" by (simp add: keys_ok_def keys_defs ex_shown_columns)
  show "\<forall>p \<in> set (deps ex_shown). dp_depends_on p < 2 ^ 63"
    using column_bound [OF ex_shown_columns(4), of "2 ^ 63"] by simp
qed

theorem connections_exact_witness:
  "\<exists>c. ss_getDagConnections 1 ex_shown = Inr c \<and> sg_getDagConnections 1 ex_shown = Inr c \<and> map_of c 2 = Some [1]"
proof -
  have "ss_getDagConnections 1 ex_shown = Inr [(1, []), (2, [1])]" unfolding ex_shown_def by code_simp
  with connections_exact [OF ex_shown_keys, of 1] show ?thesis by auto
qed

theorem shown_graph_is_stored_graph_witness:
  "\<exists>c. sg_getDagConnections 1 ex_shown = Inr c \<and> dom (map_of c) = set (map dk_id (dag_tasks_of 1 ex_shown)) \<and> map dk_id (dag_tasks_of 1 ex_shown) = [1, 2]"
proof -
  have "map dk_id (dag_tasks_of 1 ex_shown) = [1, 2]" unfolding ex_shown_def by code_simp
  moreover obtain c where "sg_getDagConnections 1 ex_shown = Inr c" "dom (map_of c) = set (map dk_id (dag_tasks_of 1 ex_shown))"
    using shown_graph_is_stored_graph [OF ex_shown_reachable ex_shown_keys(1), of 1] by (elim exE conjE)
  ultimately show ?thesis by (intro exI [of _ c]) simp
qed

theorem run_views_agree_witness: "ss_GetDagRun 1 ex_shown = sg_GetDagRun 1 ex_shown \<and> keys_ok ex_shown"
  using run_views_agree [OF ex_shown_keys, of 1] ex_shown_keys(1) by blast

theorem postgres_dashboard_needs_pods_witness: "(\<exists>e. sg_GetDashboardStats 0 empty_db = Inl e) \<and> (\<exists>st. ss_GetDashboardStats 0 0 empty_db = Inr st)"
  by (rule postgres_dashboard_needs_pods) (simp add: empty_db_def)

theorem dag_pages_cover_witness:
  "\<exists>k. ss_GetDagPageCount 10 ex_shown = Some k \<and> concat (map (\<lambda>p. sqlite_page 10 (int p * 10) (active_dags ex_shown)) [0..<nat k]) = active_dags ex_shown"
  using dag_pages_cover [of 10 ex_shown] by auto

end
