(* ===== verification/Server_Client.thy ===== *)
theory Server_Client
  imports Controllers Server_Db
begin

text \<open>
  The requests of the API server to the cluster (\<open>internal/server/kClient\<close>): the forms of the user interface, the resources built from them, and the
  calls of the dynamic client, which is a parameter like the rest of the cluster.
\<close>

section \<open>Forms\<close>

record FormDagParameterSpec =
  fp_ID :: string
  fp_Name :: string
  fp_IsSecret :: bool
  fp_Value :: string

record FormTaskSpec =
  ft_Name :: string
  ft_Command :: "string list"
  ft_Args :: "string list"
  ft_Script :: string
  ft_Image :: string
  ft_RunAfter :: "string list"
  ft_BackoffLimit :: int
  ft_RetryCodes :: "int list"
  ft_Parameters :: "string list"
  ft_PodTemplate :: string
  ft_TaskRef :: "TaskRef option"

record DagFormObj =
  df_Name :: string
  df_Schedule :: string
  df_Tasks :: "FormTaskSpec list"
  df_Parameters :: "FormDagParameterSpec list"
  df_Namespace :: string
  df_Webhook :: Webhook
  df_Workspace :: "Workspace option"

record DagRunForm =
  rf_Name :: string
  rf_RunName :: string
  rf_Parameters :: "(string, string) gomap"
  rf_Namespace :: string

record DagSuspendForm =
  sf_Name :: string
  sf_Namespace :: string
  sf_Suspend :: bool

section \<open>From a form to a resource\<close>

text \<open>
  The code builds an unstructured object; the model has the resource that the API server reads from it, in which fields that are not set have their
  zero values.
\<close>

definition convertFormParameter :: "FormDagParameterSpec \<Rightarrow> DagParameterSpec" where
  "convertFormParameter p =
     (if fp_IsSecret p then \<lparr>dp_Name = fp_Name p, dp_DefaultValue = '''', dp_DefaultFromSecret = fp_Value p\<rparr>
      else \<lparr>dp_Name = fp_Name p, dp_DefaultValue = fp_Value p, dp_DefaultFromSecret = ''''\<rparr>)"

definition convertFormParameters :: "FormDagParameterSpec list \<Rightarrow> DagParameterSpec list" where
  "convertFormParameters ps = map convertFormParameter ps"

definition paramNames :: "(string, string) gomap \<Rightarrow> FormTaskSpec \<Rightarrow> string list result" where
  "paramNames paramNameByID t =
     map_result (\<lambda>pid. case map_of paramNameByID pid of
         Some n \<Rightarrow> Inr n
       | None \<Rightarrow> Inl (Err (''task '' @ ft_Name t @ '' references unknown parameter id '' @ pid))) (ft_Parameters t)"

text \<open>\<open>json\<close> reads a pod template, or fails with the message of \<open>json.Unmarshal\<close>.\<close>

definition convertFormTask :: "(string \<Rightarrow> string + PodTemplateSpec) \<Rightarrow> (string, string) gomap \<Rightarrow> FormTaskSpec \<Rightarrow> TaskSpec result" where
  "convertFormTask json paramNameByID t =
     (case paramNames paramNameByID t of
        Inl e \<Rightarrow> Inl e
      | Inr names \<Rightarrow>
          let finish = (\<lambda>task. Inr (if ft_RunAfter t \<noteq> [] then task\<lparr>ts_RunAfter := ft_RunAfter t\<rparr> else task))
          in case ft_TaskRef t of
               Some ref \<Rightarrow> finish (zero_TaskSpec\<lparr>ts_Name := ft_Name t, ts_TaskRef := Some \<lparr>tr_Name = tr_Name ref, tr_Version = tr_Version ref\<rparr>\<rparr>)
             | None \<Rightarrow>
                 let task = zero_TaskSpec\<lparr>ts_Name := ft_Name t, ts_Image := ft_Image t, ts_Backoff := \<lparr>bo_Limit = ft_BackoffLimit t\<rparr>,
                       ts_Parameters := names, ts_Conditional := \<lparr>co_Enabled = ft_RetryCodes t \<noteq> [], co_RetryCodes = ft_RetryCodes t\<rparr>\<rparr>;
                     task1 = (if ft_Script t = '''' then task\<lparr>ts_Command := ft_Command t, ts_Args := ft_Args t\<rparr> else task\<lparr>ts_Script := ft_Script t\<rparr>)
                 in if ft_PodTemplate t = '''' then finish task1
                    else case json (ft_PodTemplate t) of
                           Inl msg \<Rightarrow> Inl (Err (''invalid podTemplate JSON for task '' @ ft_Name t @ '': '' @ msg))
                         | Inr template \<Rightarrow> finish (task1\<lparr>ts_PodTemplate := Some template\<rparr>))"

definition convertFormTasks :: "(string \<Rightarrow> string + PodTemplateSpec) \<Rightarrow> FormTaskSpec list \<Rightarrow> (string, string) gomap \<Rightarrow> TaskSpec list result" where
  "convertFormTasks json ts paramNameByID = map_result (convertFormTask json paramNameByID) ts"

definition server_labels :: "string \<Rightarrow> (string, string) gomap" where
  "server_labels name = [(''app.kubernetes.io/name'', ''dag''), (''app.kubernetes.io/instance'', name),
     (''app.kubernetes.io/part-of'', ''kontroler''), (''app.kubernetes.io/created-by'', ''server'')]"

definition BuildDAGUnstructured :: "(string \<Rightarrow> string + PodTemplateSpec) \<Rightarrow> DagFormObj \<Rightarrow> DAG result" where
  "BuildDAGUnstructured json dagForm =
     (let paramNameByID = gomap_puts (map (\<lambda>p. (fp_ID p, fp_Name p)) (df_Parameters dagForm)) []
      in case convertFormTasks json (df_Tasks dagForm) paramNameByID of
           Inl e \<Rightarrow> Inl e
         | Inr ts \<Rightarrow>
             let spec = zero_DAGSpec\<lparr>ds_Parameters := convertFormParameters (df_Parameters dagForm), ds_Task := ts\<rparr>;
                 spec1 = (if wh_URL (df_Webhook dagForm) \<noteq> '''' then spec\<lparr>ds_Webhook := df_Webhook dagForm\<rparr> else spec);
                 spec2 = (case df_Workspace dagForm of None \<Rightarrow> spec1 | Some w \<Rightarrow> spec1\<lparr>ds_Workspace := w\<rparr>)
             in Inr \<lparr>dag_Name = df_Name dagForm, dag_Spec = spec2, dag_Status = \<lparr>st_Phase = '''', st_Message = ''''\<rparr>, dag_Annotations = [],
                     dag_Finalizers = [], dag_Deleting = False\<rparr>)"

section \<open>The dynamic client\<close>

text \<open>The calls on DAGs and DAG runs in a namespace, on the state of the cluster.\<close>

record 'k dynClient =
  dy_createDag :: "string \<Rightarrow> DAG \<Rightarrow> 'k \<Rightarrow> unit kresult \<times> 'k"
  dy_getDag :: "string \<Rightarrow> string \<Rightarrow> 'k \<Rightarrow> DAG kresult"
  dy_updateDag :: "string \<Rightarrow> DAG \<Rightarrow> 'k \<Rightarrow> unit kresult \<times> 'k"
  dy_deleteDag :: "string \<Rightarrow> string \<Rightarrow> 'k \<Rightarrow> unit kresult \<times> 'k"
  dy_createDagRun :: "string \<Rightarrow> DagRun \<Rightarrow> 'k \<Rightarrow> unit kresult \<times> 'k"
  dy_deleteDagRun :: "string \<Rightarrow> string \<Rightarrow> 'k \<Rightarrow> unit kresult \<times> 'k"

text \<open>
  What the loop that waits for the reconciliation sees, up to the timeout: a tick with the answer to the status request, a cancelled context, or the
  timeout, which also ends the list.
\<close>

datatype wait_event = Tick "DAG kresult" | ContextDone | TimeoutFired

fun wait_reconciled :: "wait_event list \<Rightarrow> check" where
  "wait_reconciled [] = Some (Err ''timeout waiting for DAG reconciliation'')"
| "wait_reconciled (ContextDone # es) = Some (Err ''context cancelled while waiting for DAG reconciliation'')"
| "wait_reconciled (TimeoutFired # es) = Some (Err ''timeout waiting for DAG reconciliation'')"
| "wait_reconciled (Tick (Inl e) # es) = Some (Err (''failed to get DAG status: '' @ ke_Message e))"
| "wait_reconciled (Tick (Inr dag) # es) =
     (let status = st_Phase (dag_Status dag)
      in if status = '''' then wait_reconciled es
         else if status = ''Failed'' then Some (Err (''DAG failed to reconcile, reason: '' @ st_Phase (dag_Status dag)))
         else None)"

fun go_text :: "go_error \<Rightarrow> string" where
  "go_text (Err msg) = msg"
| "go_text ErrNoRows = ''sql: no rows in result set''"
| "go_text ErrTaskRunNotFound = ''task run not found''"
| "go_text ErrQueueIsEmpty = ''queue is empty''"
| "go_text ErrContext = ''context canceled''"

definition CreateDAG :: "(string \<Rightarrow> string + PodTemplateSpec) \<Rightarrow> 'k dynClient \<Rightarrow> wait_event list \<Rightarrow> DagFormObj \<Rightarrow> 'k \<Rightarrow> check \<times> 'k" where
  "CreateDAG json client events dagForm k =
     (if df_Namespace dagForm = '''' then (Some (Err ''request contains empty namespace''), k)
      else case BuildDAGUnstructured json dagForm of
             Inl e \<Rightarrow> (Some (Err (''failed to build DAG object: '' @ go_text e)), k)
           | Inr dag \<Rightarrow>
               (case dy_createDag client (df_Namespace dagForm) dag k of
                  (Inl e, k1) \<Rightarrow> (Some (Err (''failed to create DAG: '' @ ke_Message e)), k1)
                | (Inr _, k1) \<Rightarrow> (wait_reconciled events, k1)))"

definition validateDagRunInputs :: "DagRunForm \<Rightarrow> string \<Rightarrow> check" where
  "validateDagRunInputs form namespace =
     (if rf_Name form = '''' then Some (Err ''dagrun name cannot be empty'')
      else if rf_RunName form = '''' then Some (Err ''run name cannot be empty'')
      else if namespace = '''' then Some (Err ''namespace cannot be empty'')
      else None)"

definition run_parameter :: "(string, bool) gomap \<Rightarrow> string \<times> string \<Rightarrow> ParameterSpec result" where
  "run_parameter isSecretMap kv =
     (case map_of isSecretMap (fst kv) of
        None \<Rightarrow> Inl (Err (''parameter '' @ fst kv @ '' not found in isSecretMap''))
      | Some isSecret \<Rightarrow>
          Inr (if isSecret then \<lparr>ps_Name = fst kv, ps_Value = '''', ps_FromSecret = snd kv\<rparr> else \<lparr>ps_Name = fst kv, ps_Value = snd kv, ps_FromSecret = ''''\<rparr>))"

definition createDagRunResource :: "DagRunForm \<Rightarrow> (string, bool) gomap \<Rightarrow> string \<Rightarrow> DagRun result" where
  "createDagRunResource form isSecretMap namespace =
     (case map_result (run_parameter isSecretMap) (rf_Parameters form) of
        Inl e \<Rightarrow> Inl e
      | Inr parameters \<Rightarrow>
          Inr \<lparr>dro_Name = rf_RunName form, dro_Namespace = namespace, dro_Labels = server_labels (rf_Name form),
               dro_Spec = \<lparr>dr_DagName = rf_Name form, dr_Parameters = parameters\<rparr>, dro_Finalizers = [], dro_Deleting = False, dro_DagRunId = 0\<rparr>)"

text \<open>The answers to the requests for the run, one a second until the deadline.\<close>

fun waitForRunID :: "string \<Rightarrow> DagRun kresult list \<Rightarrow> nat result" where
  "waitForRunID runName [] = Inl (Err (''timed out waiting for DagRun '' @ runName @ '' to be reconciled''))"
| "waitForRunID runName (Inl e # rest) = Inl (Err (ke_Message e))"
| "waitForRunID runName (Inr run # rest) = (if dro_DagRunId run \<noteq> 0 then Inr (dro_DagRunId run) else waitForRunID runName rest)"

record CreateDagRunOpts =
  op_RunIDTimeout :: int
  op_Cleanup :: bool

definition DefaultCreateDagRunOpts :: CreateDagRunOpts where
  "DefaultCreateDagRunOpts = \<lparr>op_RunIDTimeout = 10 * 1000000000, op_Cleanup = True\<rparr>"

definition CreateDagRun ::
    "'k dynClient \<Rightarrow> (int \<Rightarrow> DagRun kresult list) \<Rightarrow> DagRunForm \<Rightarrow> (string, bool) gomap \<Rightarrow> string \<Rightarrow> CreateDagRunOpts option \<Rightarrow> 'k \<Rightarrow> nat result \<times> 'k" where
  "CreateDagRun client answers drForm isSecretMap namespace opts k =
     (let o1 = (case opts of None \<Rightarrow> DefaultCreateDagRunOpts | Some op \<Rightarrow> op)
      in case validateDagRunInputs drForm namespace of
           Some e \<Rightarrow> (Inl (Err (''validation failed: '' @ go_text e)), k)
         | None \<Rightarrow>
             (case createDagRunResource drForm isSecretMap namespace of
                Inl e \<Rightarrow> (Inl (Err (''failed to create dag run resource: '' @ go_text e)), k)
              | Inr dagRun \<Rightarrow>
                  (case dy_createDagRun client namespace dagRun k of
                     (Inl e, k1) \<Rightarrow> (Inl (Err (''failed to create dagrun in kubernetes: '' @ ke_Message e)), k1)
                   | (Inr _, k1) \<Rightarrow>
                       (case waitForRunID (rf_RunName drForm) (answers (op_RunIDTimeout o1)) of
                          Inr runID \<Rightarrow> (Inr runID, k1)
                        | Inl err \<Rightarrow>
                            if \<not> op_Cleanup o1 then (Inl err, k1)
                            else (case dy_deleteDagRun client namespace (dro_Name dagRun) k1 of
                                    (Inl ce, k2) \<Rightarrow> (Inl (Err (''run ID error: '' @ go_text err @ '', cleanup error: '' @ ke_Message ce)), k2)
                                  | (Inr _, k2) \<Rightarrow> (Inl (Err (''failed to get run ID: '' @ go_text err)), k2))))))"

definition DeleteDAG_resource :: "'k dynClient \<Rightarrow> string \<Rightarrow> string \<Rightarrow> 'k \<Rightarrow> unit kresult \<times> 'k" where
  "DeleteDAG_resource client namespace name = dy_deleteDag client namespace name"

definition DeleteDagRun_resource :: "'k dynClient \<Rightarrow> string \<Rightarrow> string \<Rightarrow> 'k \<Rightarrow> unit kresult \<times> 'k" where
  "DeleteDagRun_resource client namespace name = dy_deleteDagRun client namespace name"

definition SuspendDag :: "'k dynClient \<Rightarrow> DagSuspendForm \<Rightarrow> 'k \<Rightarrow> unit kresult \<times> 'k" where
  "SuspendDag client req k =
     (case dy_getDag client (sf_Namespace req) (sf_Name req) k of
        Inl e \<Rightarrow> (Inl e, k)
      | Inr existing \<Rightarrow>
          dy_updateDag client (sf_Namespace req) (existing\<lparr>dag_Spec := (dag_Spec existing)\<lparr>ds_Suspended := sf_Suspend req\<rparr>\<rparr>) k)"

section \<open>DAGs from forms\<close>

lemma map_result_list_all2: "map_result f xs = Inr ys \<longleftrightarrow> list_all2 (\<lambda>x y. f x = Inr y) xs ys"
proof (induction xs arbitrary: ys)
  case (Cons x xs)
  show ?case by (cases "f x"; cases "map_result f xs") (auto simp: list_all2_Cons1 Cons.IH [symmetric])
qed auto

lemma map_result_Inl: "(\<exists>e. map_result f xs = Inl e) \<longleftrightarrow> (\<exists>x \<in> set xs. \<exists>e. f x = Inl e)"
  by (induction xs) (auto split: sum.splits)

lemma convertFormTask_fields:
  assumes "convertFormTask json names_of t = Inr task"
  shows "ts_Name task = ft_Name t \<and> ts_RunAfter task = ft_RunAfter t \<and> ts_TaskRef task = ft_TaskRef t \<and>
    (ft_TaskRef t = None \<longrightarrow> list_all2 (\<lambda>pid n. map_of names_of pid = Some n) (ft_Parameters t) (ts_Parameters task) \<and>
       (ts_Script task = ft_Script t) \<and> (ft_Script t = '''' \<longrightarrow> ts_Command task = ft_Command t \<and> ts_Args task = ft_Args t))"
proof -
  obtain names where names: "paramNames names_of t = Inr names" using assms by (auto simp: convertFormTask_def split: sum.splits)
  then have "list_all2 (\<lambda>pid n. map_of names_of pid = Some n) (ft_Parameters t) names"
    unfolding paramNames_def map_result_list_all2 by (rule list_all2_mono) (auto split: option.splits)
  then show ?thesis using assms names
    by (auto simp: convertFormTask_def Let_def zero_TaskSpec_def split: option.splits sum.splits if_splits)
qed

lemma BuildDAGE:
  assumes "BuildDAGUnstructured json form = Inr dag"
  obtains ts where "convertFormTasks json (df_Tasks form) (gomap_puts (map (\<lambda>p. (fp_ID p, fp_Name p)) (df_Parameters form)) []) = Inr ts"
    "ds_Task (dag_Spec dag) = ts" "ds_Parameters (dag_Spec dag) = convertFormParameters (df_Parameters form)" "dag_Name dag = df_Name form"
    "ds_Schedule (dag_Spec dag) = ''''"
  using assms by (auto simp: BuildDAGUnstructured_def Let_def zero_DAGSpec_def split: sum.splits option.splits if_splits)

text \<open>
  The DAG built from a form has the tasks of the form in order with their dependencies, so the same dependency relation, and its parameters, each
  with the value of the form as a default or as the name of a secret.
\<close>

theorem form_becomes_dag:
  assumes "BuildDAGUnstructured json form = Inr dag"
  shows "map ts_Name (ds_Task (dag_Spec dag)) = map ft_Name (df_Tasks form) \<and>
    dep_rel (ds_Task (dag_Spec dag)) = {(ft_Name t, d) | t d. t \<in> set (df_Tasks form) \<and> d \<in> set (ft_RunAfter t)} \<and>
    map ts_TaskRef (ds_Task (dag_Spec dag)) = map ft_TaskRef (df_Tasks form) \<and>
    map (\<lambda>p. (dp_Name p, dp_DefaultValue p, dp_DefaultFromSecret p)) (ds_Parameters (dag_Spec dag)) =
      map (\<lambda>p. if fp_IsSecret p then (fp_Name p, '''', fp_Value p) else (fp_Name p, fp_Value p, '''')) (df_Parameters form)"
proof -
  from assms obtain ts where ts: "convertFormTasks json (df_Tasks form) (gomap_puts (map (\<lambda>p. (fp_ID p, fp_Name p)) (df_Parameters form)) []) = Inr ts"
    "ds_Task (dag_Spec dag) = ts" "ds_Parameters (dag_Spec dag) = convertFormParameters (df_Parameters form)" by (rule BuildDAGE)
  from ts(1) have l: "list_all2 (\<lambda>t task. ts_Name task = ft_Name t \<and> ts_RunAfter task = ft_RunAfter t \<and> ts_TaskRef task = ft_TaskRef t) (df_Tasks form) ts"
    unfolding convertFormTasks_def map_result_list_all2 by (rule list_all2_mono) (use convertFormTask_fields in blast)
  have cols: "map ts_Name ts = map ft_Name (df_Tasks form)" "map ts_TaskRef ts = map ft_TaskRef (df_Tasks form)"
    using l by (induction rule: list_all2_induct) simp_all
  have "dep_rel ts = {(ft_Name t, d) | t d. t \<in> set (df_Tasks form) \<and> d \<in> set (ft_RunAfter t)}"
  proof -
    have pairs: "{(f t, d) | t d. t \<in> set xs \<and> d \<in> set (g t)} = {(n, d) | n ds d. (n, ds) \<in> set (map (\<lambda>t. (f t, g t)) xs) \<and> d \<in> set ds}" for f g and xs :: "'x list"
      by (force simp: image_iff)
    have "map (\<lambda>t. (ts_Name t, ts_RunAfter t)) ts = map (\<lambda>t. (ft_Name t, ft_RunAfter t)) (df_Tasks form)"
      using l by (induction rule: list_all2_induct) simp_all
    then show ?thesis unfolding dep_rel_def pairs by simp
  qed
  moreover have "map (\<lambda>p. (dp_Name p, dp_DefaultValue p, dp_DefaultFromSecret p)) (convertFormParameters ps) =
      map (\<lambda>p. if fp_IsSecret p then (fp_Name p, '''', fp_Value p) else (fp_Name p, fp_Value p, '''')) ps" for ps
    by (simp add: convertFormParameters_def convertFormParameter_def)
  ultimately show ?thesis using cols ts(2,3) by simp
qed

text \<open>
  The schedule of a form is dropped: whatever schedule a user asks for, the DAG that is created has none, so it is never started by the scheduler.
\<close>

theorem form_schedule_dropped:
  assumes "BuildDAGUnstructured json form = Inr dag"
  shows "ds_Schedule (dag_Spec dag) = '''' \<and> BuildDAGUnstructured json (form\<lparr>df_Schedule := schedule\<rparr>) = BuildDAGUnstructured json form"
proof -
  have "BuildDAGUnstructured json (form\<lparr>df_Schedule := schedule\<rparr>) = BuildDAGUnstructured json form"
    by (simp add: BuildDAGUnstructured_def Let_def split: sum.split option.split)
  with assms show ?thesis by (metis BuildDAGE)
qed

section \<open>Runs from forms\<close>

lemma check_names_Inr: "check_names names results = Inr r \<longleftrightarrow> r = results \<and> (\<forall>n \<in> set names. map_of results n \<noteq> None)"
  by (auto simp: check_names_def split: option.splits dest!: first_check_Some split: if_splits)

text \<open>
  A run requested through the API server passes the admission check of DAG runs if it names a DAG and no parameter has an empty name or value: after
  the server has looked up which parameters are secrets, every parameter of the form is in the resource exactly once, as a secret exactly when the
  stored DAG says so.
\<close>

theorem run_form_admitted:
  assumes "ss_GetIsSecrets (rf_Name form) (map fst (rf_Parameters form)) s = Inr secrets \<or> sg_GetIsSecrets (rf_Name form) (map fst (rf_Parameters form)) s = Inr secrets"
    and "validateDagRunInputs form namespace = None" "\<forall>kv \<in> set (rf_Parameters form). fst kv \<noteq> '''' \<and> snd kv \<noteq> ''''"
  shows "\<exists>run. createDagRunResource form secrets namespace = Inr run \<and> validateDagRun (dro_Spec run) = None \<and>
    map ps_Name (dr_Parameters (dro_Spec run)) = map fst (rf_Parameters form) \<and>
    (\<forall>p \<in> set (dr_Parameters (dro_Spec run)). map_of secrets (ps_Name p) = Some (ps_FromSecret p \<noteq> ''''))"
proof -
  have known: "\<exists>b. map_of secrets (fst kv) = Some b" if "kv \<in> set (rf_Parameters form)" for kv
    using assms(1) that by (auto simp: ss_GetIsSecrets_def sg_GetIsSecrets_def check_names_Inr)
  define par where "par kv = (if map_of secrets (fst kv) = Some True then \<lparr>ps_Name = fst kv, ps_Value = '''', ps_FromSecret = snd kv\<rparr>
    else \<lparr>ps_Name = fst kv, ps_Value = snd kv, ps_FromSecret = ''''\<rparr>)" for kv :: "string \<times> string"
  have "map_result (run_parameter secrets) (rf_Parameters form) = Inr (map par (rf_Parameters form))"
  proof (rule map_result_Inr)
    fix kv assume "kv \<in> set (rf_Parameters form)"
    from known [OF this] show "run_parameter secrets kv = Inr (par kv)" by (auto simp: run_parameter_def par_def)
  qed
  then have "createDagRunResource form secrets namespace = Inr \<lparr>dro_Name = rf_RunName form, dro_Namespace = namespace, dro_Labels = server_labels (rf_Name form),
      dro_Spec = \<lparr>dr_DagName = rf_Name form, dr_Parameters = map par (rf_Parameters form)\<rparr>, dro_Finalizers = [], dro_Deleting = False, dro_DagRunId = 0\<rparr>" (is "_ = Inr ?run")
    by (simp add: createDagRunResource_def)
  moreover have "validateDagRun (dro_Spec ?run) = None"
    using assms(2,3) by (auto simp: validateDagRun_def validateDagRun_param_def validateDagRunInputs_def par_def split: if_splits)
  moreover have "map ps_Name (map par (rf_Parameters form)) = map fst (rf_Parameters form)" by (simp add: par_def)
  moreover have "\<forall>p \<in> set (map par (rf_Parameters form)). map_of secrets (ps_Name p) = Some (ps_FromSecret p \<noteq> '''')"
    using known assms(3) by (fastforce simp: par_def split: if_splits)
  ultimately show ?thesis by (intro exI [of _ ?run]) simp
qed

section \<open>Witnesses\<close>

definition ex_form :: DagFormObj where
  "ex_form = \<lparr>df_Name = ''etl'', df_Schedule = ''@daily'',
     df_Tasks = [\<lparr>ft_Name = ''a'', ft_Command = [''sh''], ft_Args = [], ft_Script = '''', ft_Image = ''alpine'', ft_RunAfter = [], ft_BackoffLimit = 1,
                   ft_RetryCodes = [], ft_Parameters = [''1''], ft_PodTemplate = '''', ft_TaskRef = None\<rparr>,
                 \<lparr>ft_Name = ''b'', ft_Command = [], ft_Args = [], ft_Script = ''echo'', ft_Image = ''alpine'', ft_RunAfter = [''a''], ft_BackoffLimit = 1,
                   ft_RetryCodes = [8], ft_Parameters = [], ft_PodTemplate = '''', ft_TaskRef = None\<rparr>],
     df_Parameters = [\<lparr>fp_ID = ''1'', fp_Name = ''key'', fp_IsSecret = True, fp_Value = ''vault''\<rparr>], df_Namespace = ''ns'',
     df_Webhook = \<lparr>wh_URL = '''', wh_VerifySSL = False\<rparr>, df_Workspace = None\<rparr>"

lemma ex_form_built: "\<exists>dag. BuildDAGUnstructured (\<lambda>_. Inl ''no'') ex_form = Inr dag"
  by (simp add: BuildDAGUnstructured_def ex_form_def Let_def convertFormTasks_def convertFormTask_def paramNames_def gomap_puts_def)

theorem form_becomes_dag_witness:
  "\<exists>dag. BuildDAGUnstructured (\<lambda>_. Inl ''no'') ex_form = Inr dag \<and> map ts_Name (ds_Task (dag_Spec dag)) = [''a'', ''b''] \<and>
     dep_rel (ds_Task (dag_Spec dag)) = {(''b'', ''a'')}"
proof -
  obtain dag where dag: "BuildDAGUnstructured (\<lambda>_. Inl ''no'') ex_form = Inr dag" using ex_form_built by blast
  have "{(ft_Name t, d) | t d. t \<in> set (df_Tasks ex_form) \<and> d \<in> set (ft_RunAfter t)} = {(''b'', ''a'')}"
    by (force simp: ex_form_def)
  moreover have "map ft_Name (df_Tasks ex_form) = [''a'', ''b'']" by (simp add: ex_form_def)
  ultimately show ?thesis using dag form_becomes_dag [OF dag] by simp
qed

theorem form_schedule_dropped_witness:
  "df_Schedule ex_form = ''@daily'' \<and> (\<exists>dag. BuildDAGUnstructured (\<lambda>_. Inl ''no'') ex_form = Inr dag \<and> ds_Schedule (dag_Spec dag) = '''')"
proof -
  obtain dag where dag: "BuildDAGUnstructured (\<lambda>_. Inl ''no'') ex_form = Inr dag" using ex_form_built by blast
  then show ?thesis using form_schedule_dropped [OF dag] by (simp add: ex_form_def)
qed

definition ex_run_form :: DagRunForm where
  "ex_run_form = \<lparr>rf_Name = ''etl'', rf_RunName = ''r1'', rf_Parameters = [(''key'', ''vault'')], rf_Namespace = ''ns''\<rparr>"

definition ex_param_db :: db where
  "ex_param_db = empty_db\<lparr>dags := [\<lparr>dg_id = 1, dg_name = ''etl'', dg_version = 1, dg_hash = ''h'', dg_schedule = '''', dg_namespace = ''ns'', dg_active = True,
       dg_taskCount = 1, dg_nexttime = None, dg_webhookUrl = '''', dg_sslVerification = False, dg_workspaceEnabled = None, dg_suspended = False\<rparr>],
     params := [\<lparr>pr_dag_id = 1, pr_name = ''key'', pr_isSecret = True, pr_defaultValue = ''''\<rparr>]\<rparr>"

theorem run_form_admitted_witness:
  "ss_GetIsSecrets ''etl'' [''key''] ex_param_db = Inr [(''key'', True)] \<and>
   (\<exists>run. createDagRunResource ex_run_form [(''key'', True)] ''ns'' = Inr run \<and> validateDagRun (dro_Spec run) = None)"
proof -
  have g: "ss_GetIsSecrets (rf_Name ex_run_form) (map fst (rf_Parameters ex_run_form)) ex_param_db = Inr [(''key'', True)]" by code_simp
  have "\<exists>run. createDagRunResource ex_run_form [(''key'', True)] ''ns'' = Inr run \<and> validateDagRun (dro_Spec run) = None \<and>
    map ps_Name (dr_Parameters (dro_Spec run)) = map fst (rf_Parameters ex_run_form) \<and>
    (\<forall>p \<in> set (dr_Parameters (dro_Spec run)). map_of [(''key'', True)] (ps_Name p) = Some (ps_FromSecret p \<noteq> ''''))"
    by (rule run_form_admitted [OF disjI1 [OF g]]) (simp_all add: ex_run_form_def validateDagRunInputs_def)
  then show ?thesis using g by (auto simp: ex_run_form_def)
qed

end
