(* ===== verification/Server_Auth.thy ===== *)
theory Server_Auth
  imports Server_Paging
begin

text \<open>
  Accounts and sessions of the API server (\<open>internal/server/auth\<close>, both managers). The password hash and the signing of tokens belong to libraries and are
  parameters; the two tables are lists of rows in insertion order, with the uniqueness constraints of the schema as failing insertions.
\<close>

section \<open>Tables\<close>

record account =
  ac_id :: string
  ac_username :: string
  ac_password_hash :: string
  ac_role :: string
  ac_created_at :: int

record token_row =
  tn_account_id :: string
  tn_token :: string
  tn_expires_at :: int
  tn_revoked :: bool

record auth_db =
  accounts :: "account list"
  tokens :: "token_row list"

record JwtClaims =
  jc_account_id :: string
  jc_exp :: int
  jc_iat :: int
  jc_jti :: string
  jc_role :: "string option"

text \<open>
  bcrypt and the JWT library: a salted hash, the comparison with a hash, signing with the server's key, and parsing of a token with a valid
  signature and an expiry time that has not passed. Times are in nanoseconds.
\<close>

record auth_lib =
  al_hash :: "string \<Rightarrow> string result"
  al_matches :: "string \<Rightarrow> string \<Rightarrow> bool"
  al_sign :: "JwtClaims \<Rightarrow> string result"
  al_parse :: "int \<Rightarrow> string \<Rightarrow> JwtClaims option"

record Credentials =
  cd_Username :: string
  cd_Password :: string

record CreateAccountReq =
  cq_Username :: string
  cq_Password :: string
  cq_Role :: string

record ChangeCredentials =
  cc_OldPassword :: string
  cc_Password :: string

record User =
  us_Username :: string
  us_Role :: string

type_synonym 'a auth_op = "auth_db \<Rightarrow> 'a result \<times> auth_db"

definition find_account :: "string \<Rightarrow> auth_db \<Rightarrow> account option" where
  "find_account username s = query_row (filter (\<lambda>a. ac_username a = username) (accounts s))"

text \<open>An insertion with a used identifier or user name breaks a constraint; the identifier is the random default of the column.\<close>

definition insert_account :: "string \<Rightarrow> int \<Rightarrow> string \<Rightarrow> string \<Rightarrow> string \<Rightarrow> unit auth_op" where
  "insert_account newId now username hash role s =
     (if \<exists>a \<in> set (accounts s). ac_username a = username \<or> ac_id a = newId then (Inl (Err ''failed to create account''), s)
      else (Inr (), s\<lparr>accounts := accounts s @
              [\<lparr>ac_id = newId, ac_username = username, ac_password_hash = hash, ac_role = role, ac_created_at = now\<rparr>]\<rparr>))"

definition insert_token :: "string \<Rightarrow> string \<Rightarrow> int \<Rightarrow> unit auth_op" where
  "insert_token accountId token expires s =
     (if \<exists>r \<in> set (tokens s). tn_token r = token then (Inl (Err ''failed to store token''), s)
      else (Inr (), s\<lparr>tokens := tokens s @
              [\<lparr>tn_account_id = accountId, tn_token = token, tn_expires_at = expires, tn_revoked = False\<rparr>]\<rparr>))"

section \<open>The SQLite manager\<close>

definition hashPassword :: "auth_lib \<Rightarrow> string \<Rightarrow> string result" where
  "hashPassword lib password = al_hash lib password"

definition sq_CreateAccount :: "auth_lib \<Rightarrow> string \<Rightarrow> int \<Rightarrow> CreateAccountReq \<Rightarrow> unit auth_op" where
  "sq_CreateAccount lib newId now req s =
     (case hashPassword lib (cq_Password req) of
        Inl e \<Rightarrow> (Inl e, s)
      | Inr hash \<Rightarrow> insert_account newId now (cq_Username req) hash (cq_Role req) s)"

definition sq_InitialiseDatabase :: "auth_lib \<Rightarrow> string \<Rightarrow> int \<Rightarrow> unit auth_op" where
  "sq_InitialiseDatabase lib newId now s =
     (if find_account ''admin'' s \<noteq> None then (Inr (), s)
      else case hashPassword lib ''adminpassword'' of
             Inl e \<Rightarrow> (Inl e, s)
           | Inr hash \<Rightarrow> insert_account newId now ''admin'' hash ''admin'' s)"

definition change_hash :: "string \<Rightarrow> string \<Rightarrow> auth_db \<Rightarrow> auth_db" where
  "change_hash username hash s =
     s\<lparr>accounts := update_where (\<lambda>a. ac_username a = username) (\<lambda>a. a\<lparr>ac_password_hash := hash\<rparr>) (accounts s)\<rparr>"

definition sq_ChangePassword :: "auth_lib \<Rightarrow> string \<Rightarrow> ChangeCredentials \<Rightarrow> unit auth_op" where
  "sq_ChangePassword lib username cc s =
     (case find_account username s of
        None \<Rightarrow> (Inl (Err ''user not found''), s)
      | Some a \<Rightarrow>
          if \<not> al_matches lib (ac_password_hash a) (cc_OldPassword cc) then (Inl (Err ''incorrect old password''), s)
          else case al_hash lib (cc_Password cc) of
                 Inl e \<Rightarrow> (Inl (Err ''failed to hash new password''), s)
               | Inr hash \<Rightarrow> (Inr (), change_hash username hash s))"

text \<open>The foreign key of the tokens is declared, but SQLite does not enforce it here: the tokens of a deleted account stay.\<close>

definition sq_DeleteUser :: "string \<Rightarrow> unit auth_op" where
  "sq_DeleteUser user s =
     (if user = ''admin'' then (Inl (Err ''cannot delete the admin account''), s)
      else (Inr (), s\<lparr>accounts := delete_where (\<lambda>a. ac_username a = user) (accounts s)\<rparr>))"

text \<open>Twenty-four hours, in nanoseconds; the claims carry whole seconds.\<close>

definition session_ttl :: int where
  "session_ttl = 24 * 3600 * 1000000000"

definition unix :: "int \<Rightarrow> int" where
  "unix t = t div 1000000000"

definition login_claims :: "account \<Rightarrow> int \<Rightarrow> string \<Rightarrow> JwtClaims" where
  "login_claims a now jti =
     \<lparr>jc_account_id = ac_id a, jc_exp = unix (now + session_ttl), jc_iat = unix now, jc_jti = jti, jc_role = Some (ac_role a)\<rparr>"

definition issue_token :: "auth_lib \<Rightarrow> account \<Rightarrow> int \<Rightarrow> string \<Rightarrow> int \<Rightarrow> (string \<times> string) auth_op" where
  "issue_token lib a now jti expires s =
     (case al_sign lib (login_claims a now jti) of
        Inl e \<Rightarrow> (Inl (Err ''failed to sign token''), s)
      | Inr signedToken \<Rightarrow>
          (case insert_token (ac_id a) signedToken expires s of
             (Inl e, s') \<Rightarrow> (Inl e, s') | (Inr _, s') \<Rightarrow> (Inr (signedToken, ac_role a), s')))"

text \<open>
  The SQLite driver writes the expiry time as local text with a fraction (offset \<open>tz\<close> in seconds). The comparison with \<open>CURRENT_TIMESTAMP\<close>, a UTC text
  of whole seconds, is one of texts: the longer one is greater when the seconds agree.
\<close>

definition sq_Login :: "auth_lib \<Rightarrow> int \<Rightarrow> string \<Rightarrow> int \<Rightarrow> Credentials \<Rightarrow> (string \<times> string) auth_op" where
  "sq_Login lib tz jti now cred s =
     (case find_account (cd_Username cred) s of
        None \<Rightarrow> (Inl (Err ''invalid credentials''), s)
      | Some a \<Rightarrow>
          if \<not> al_matches lib (ac_password_hash a) (cd_Password cred) then (Inl (Err ''invalid credentials''), s)
          else issue_token lib a now jti (unix (now + session_ttl) + tz) s)"

definition check_token :: "auth_lib \<Rightarrow> (int \<Rightarrow> bool) \<Rightarrow> int \<Rightarrow> string \<Rightarrow> auth_db \<Rightarrow> (string \<times> string) result" where
  "check_token lib live now tokenString s =
     (case al_parse lib now tokenString of
        None \<Rightarrow> Inl (Err ''invalid token'')
      | Some cl \<Rightarrow>
          (case jc_role cl of
             None \<Rightarrow> Inl (Err ''role not found in token'')
           | Some role \<Rightarrow>
               (case query_row (filter (\<lambda>r. tn_token r = tokenString \<and> live (tn_expires_at r)) (tokens s)) of
                  None \<Rightarrow> Inl (Err ''invalid or expired token'')
                | Some r \<Rightarrow>
                    if tn_revoked r then Inl (Err ''token has been revoked'')
                    else case query_row (filter (\<lambda>a. ac_id a = tn_account_id r) (accounts s)) of
                           None \<Rightarrow> Inl (Err ''could not find username'')
                         | Some a \<Rightarrow> Inr (ac_username a, role))))"

definition sq_IsValidLogin :: "auth_lib \<Rightarrow> int \<Rightarrow> string \<Rightarrow> auth_db \<Rightarrow> (string \<times> string) result" where
  "sq_IsValidLogin lib now = check_token lib (\<lambda>expires. unix now \<le> expires) now"

definition sq_RevokeToken :: "string \<Rightarrow> unit auth_op" where
  "sq_RevokeToken tokenString s =
     (Inr (), s\<lparr>tokens := update_where (\<lambda>r. tn_token r = tokenString) (\<lambda>r. r\<lparr>tn_revoked := True\<rparr>) (tokens s)\<rparr>)"

definition user_of :: "account \<Rightarrow> User" where
  "user_of a = \<lparr>us_Username = ac_username a, us_Role = ac_role a\<rparr>"

definition sq_GetUsers :: "int \<Rightarrow> int \<Rightarrow> auth_db \<Rightarrow> User list result" where
  "sq_GetUsers limit offset s = Inr (map user_of (sqlite_page limit offset (order_by_desc ac_created_at (accounts s))))"

definition sq_GetUserPageCount :: "int \<Rightarrow> auth_db \<Rightarrow> int option" where
  "sq_GetUserPageCount limit s = page_count (length (accounts s)) limit"

section \<open>The Postgres manager\<close>

text \<open>The password is hashed in the database; user names and roles are \<open>VARCHAR(255)\<close>, whose length is counted here in the characters of a \<open>string\<close>, one per byte.\<close>

definition pg_CreateAccount :: "auth_lib \<Rightarrow> string \<Rightarrow> int \<Rightarrow> CreateAccountReq \<Rightarrow> unit auth_op" where
  "pg_CreateAccount lib newId now req s =
     (case al_hash lib (cq_Password req) of
        Inl e \<Rightarrow> (Inl (Err ''failed to create account''), s)
      | Inr hash \<Rightarrow>
          if 255 < length (cq_Username req) \<or> 255 < length (cq_Role req) then (Inl (Err ''failed to create account''), s)
          else insert_account newId now (cq_Username req) hash (cq_Role req) s)"

definition pg_InitialiseDatabase :: "auth_lib \<Rightarrow> string \<Rightarrow> int \<Rightarrow> unit auth_op" where
  "pg_InitialiseDatabase lib newId now s =
     (if find_account ''admin'' s \<noteq> None then (Inr (), s)
      else case al_hash lib ''adminpassword'' of
             Inl e \<Rightarrow> (Inl (Err ''failed to create default account''), s)
           | Inr hash \<Rightarrow> insert_account newId now ''admin'' hash ''admin'' s)"

definition pg_Login :: "auth_lib \<Rightarrow> string \<Rightarrow> int \<Rightarrow> Credentials \<Rightarrow> (string \<times> string) auth_op" where
  "pg_Login lib jti now cred s =
     (case query_row (filter (\<lambda>a. ac_username a = cd_Username cred \<and> al_matches lib (ac_password_hash a) (cd_Password cred)) (accounts s)) of
        None \<Rightarrow> (Inl (Err ''invalid credentials''), s)
      | Some a \<Rightarrow> issue_token lib a now jti (now + session_ttl) s)"

definition pg_IsValidLogin :: "auth_lib \<Rightarrow> int \<Rightarrow> string \<Rightarrow> auth_db \<Rightarrow> (string \<times> string) result" where
  "pg_IsValidLogin lib now = check_token lib (\<lambda>expires. now < expires) now"

definition pg_RevokeToken :: "string \<Rightarrow> unit auth_op" where
  "pg_RevokeToken = sq_RevokeToken"

definition pg_GetUsers :: "int \<Rightarrow> int \<Rightarrow> auth_db \<Rightarrow> User list result" where
  "pg_GetUsers limit offset s =
     (case postgres_page limit offset (order_by_desc ac_created_at (accounts s)) of Inl e \<Rightarrow> Inl e | Inr rows \<Rightarrow> Inr (map user_of rows))"

definition pg_GetUserPageCount :: "int \<Rightarrow> auth_db \<Rightarrow> int option" where
  "pg_GetUserPageCount = sq_GetUserPageCount"

text \<open>Here the tokens of an account are deleted with it.\<close>

definition pg_DeleteUser :: "string \<Rightarrow> unit auth_op" where
  "pg_DeleteUser user s =
     (if user = ''admin'' then (Inl (Err ''cannot delete the admin account''), s)
      else let gone = set (map ac_id (filter (\<lambda>a. ac_username a = user) (accounts s)))
           in (Inr (), s\<lparr>accounts := delete_where (\<lambda>a. ac_username a = user) (accounts s),
                         tokens := delete_where (\<lambda>r. tn_account_id r \<in> gone) (tokens s)\<rparr>))"

definition pg_ChangePassword :: "auth_lib \<Rightarrow> string \<Rightarrow> ChangeCredentials \<Rightarrow> unit auth_op" where
  "pg_ChangePassword lib username cc s =
     (if \<not> (\<exists>a \<in> set (accounts s). ac_username a = username \<and> al_matches lib (ac_password_hash a) (cc_OldPassword cc))
      then (Inl (Err ''incorrect old password''), s)
      else case al_hash lib (cc_Password cc) of
             Inl e \<Rightarrow> (Inl e, s)
           | Inr hash \<Rightarrow> (Inr (), change_hash username hash s))"

section \<open>The interface\<close>

datatype auth_manager = AuthSqlite int | AuthPostgres

fun au_InitialiseDatabase :: "auth_manager \<Rightarrow> auth_lib \<Rightarrow> string \<Rightarrow> int \<Rightarrow> unit auth_op" where
  "au_InitialiseDatabase (AuthSqlite tz) = sq_InitialiseDatabase"
| "au_InitialiseDatabase AuthPostgres = pg_InitialiseDatabase"

fun au_CreateAccount :: "auth_manager \<Rightarrow> auth_lib \<Rightarrow> string \<Rightarrow> int \<Rightarrow> CreateAccountReq \<Rightarrow> unit auth_op" where
  "au_CreateAccount (AuthSqlite tz) = sq_CreateAccount"
| "au_CreateAccount AuthPostgres = pg_CreateAccount"

fun au_Login :: "auth_manager \<Rightarrow> auth_lib \<Rightarrow> string \<Rightarrow> int \<Rightarrow> Credentials \<Rightarrow> (string \<times> string) auth_op" where
  "au_Login (AuthSqlite tz) lib = sq_Login lib tz"
| "au_Login AuthPostgres lib = pg_Login lib"

fun au_IsValidLogin :: "auth_manager \<Rightarrow> auth_lib \<Rightarrow> int \<Rightarrow> string \<Rightarrow> auth_db \<Rightarrow> (string \<times> string) result" where
  "au_IsValidLogin (AuthSqlite tz) = sq_IsValidLogin"
| "au_IsValidLogin AuthPostgres = pg_IsValidLogin"

fun au_RevokeToken :: "auth_manager \<Rightarrow> string \<Rightarrow> unit auth_op" where
  "au_RevokeToken (AuthSqlite tz) = sq_RevokeToken"
| "au_RevokeToken AuthPostgres = pg_RevokeToken"

fun au_GetUsers :: "auth_manager \<Rightarrow> int \<Rightarrow> int \<Rightarrow> auth_db \<Rightarrow> User list result" where
  "au_GetUsers (AuthSqlite tz) = sq_GetUsers"
| "au_GetUsers AuthPostgres = pg_GetUsers"

fun au_GetUserPageCount :: "auth_manager \<Rightarrow> int \<Rightarrow> auth_db \<Rightarrow> int option" where
  "au_GetUserPageCount (AuthSqlite tz) = sq_GetUserPageCount"
| "au_GetUserPageCount AuthPostgres = pg_GetUserPageCount"

fun au_DeleteUser :: "auth_manager \<Rightarrow> string \<Rightarrow> unit auth_op" where
  "au_DeleteUser (AuthSqlite tz) = sq_DeleteUser"
| "au_DeleteUser AuthPostgres = pg_DeleteUser"

fun au_ChangePassword :: "auth_manager \<Rightarrow> auth_lib \<Rightarrow> string \<Rightarrow> ChangeCredentials \<Rightarrow> unit auth_op" where
  "au_ChangePassword (AuthSqlite tz) = sq_ChangePassword"
| "au_ChangePassword AuthPostgres = pg_ChangePassword"

section \<open>Histories of the tables\<close>

text \<open>
  One operation of the manager with any arguments. An identifier drawn for a new account has not been drawn before: \<open>used\<close> are those drawn so far.
\<close>

inductive auth_step :: "auth_manager \<Rightarrow> auth_lib \<Rightarrow> string set \<times> auth_db \<Rightarrow> string set \<times> auth_db \<Rightarrow> bool" for m lib where
  create: "newId \<notin> used \<Longrightarrow> auth_step m lib (used, s) (insert newId used, snd (au_CreateAccount m lib newId now req s))"
| login: "auth_step m lib (used, s) (used, snd (au_Login m lib jti now cred s))"
| revoke: "auth_step m lib (used, s) (used, snd (au_RevokeToken m t s))"
| delete: "auth_step m lib (used, s) (used, snd (au_DeleteUser m user s))"
| change: "auth_step m lib (used, s) (used, snd (au_ChangePassword m lib user cc s))"

text \<open>A database after \<open>InitialiseDatabase\<close> on empty tables and any operations after it.\<close>

definition auth_reachable :: "auth_manager \<Rightarrow> auth_lib \<Rightarrow> string set \<Rightarrow> auth_db \<Rightarrow> bool" where
  "auth_reachable m lib used s \<longleftrightarrow>
     (\<exists>newId now s0. au_InitialiseDatabase m lib newId now \<lparr>accounts = [], tokens = []\<rparr> = (Inr (), s0) \<and>
        (auth_step m lib)\<^sup>*\<^sup>* ({newId}, s0) (used, s))"

end
