(* ===== verification/Server_Sessions.thy ===== *)
theory Server_Sessions
  imports Server_Auth
begin

text \<open>
  The sessions of the API server are sound. A locale states what the account operations may do to the two tables; the invariant of the tables is
  proved once from it, and both managers of \<open>internal/server/auth\<close> are interpreted as instances. The properties of sessions, logouts and logins rest on it.
\<close>

section \<open>The contract of the managers\<close>

text \<open>
  What the operations do to the tables, whatever their result: an account is appended under a new identifier and name, a token of an existing
  account is appended if it is new, a token is marked as revoked, an account other than the administrator's is deleted, with its tokens or
  without, and a password hash is replaced.
\<close>

definition new_account :: "string \<Rightarrow> auth_db \<Rightarrow> auth_db \<Rightarrow> bool" where
  "new_account newId s s' \<longleftrightarrow>
     (\<exists>a. ac_id a = newId \<and> s' = s\<lparr>accounts := accounts s @ [a]\<rparr> \<and> (\<forall>b \<in> set (accounts s). ac_username b \<noteq> ac_username a \<and> ac_id b \<noteq> newId))"

definition new_token :: "auth_lib \<Rightarrow> auth_db \<Rightarrow> auth_db \<Rightarrow> bool" where
  "new_token lib s s' \<longleftrightarrow>
     (\<exists>a t cl expires. a \<in> set (accounts s) \<and> al_sign lib cl = Inr t \<and> jc_account_id cl = ac_id a \<and> jc_role cl = Some (ac_role a) \<and>
        t \<notin> tn_token ` set (tokens s) \<and>
        s' = s\<lparr>tokens := tokens s @ [\<lparr>tn_account_id = ac_id a, tn_token = t, tn_expires_at = expires, tn_revoked = False\<rparr>]\<rparr>)"

definition gone_account :: "auth_db \<Rightarrow> auth_db \<Rightarrow> bool" where
  "gone_account s s' \<longleftrightarrow>
     (\<exists>user P. user \<noteq> ''admin'' \<and> (\<forall>r. P r \<longrightarrow> tn_account_id r \<in> ac_id ` {a \<in> set (accounts s). ac_username a = user}) \<and>
        s' = s\<lparr>accounts := delete_where (\<lambda>a. ac_username a = user) (accounts s), tokens := delete_where P (tokens s)\<rparr>)"

locale account_manager =
  fixes lib :: auth_lib
    and create_op :: "string \<Rightarrow> int \<Rightarrow> CreateAccountReq \<Rightarrow> unit auth_op"
    and login_op :: "string \<Rightarrow> int \<Rightarrow> Credentials \<Rightarrow> (string \<times> string) auth_op"
    and revoke_op :: "string \<Rightarrow> unit auth_op"
    and delete_op :: "string \<Rightarrow> unit auth_op"
    and change_op :: "string \<Rightarrow> ChangeCredentials \<Rightarrow> unit auth_op"
  assumes create_law: "snd (create_op newId now req s) = s \<or> new_account newId s (snd (create_op newId now req s))"
    and login_law: "snd (login_op jti now cred s) = s \<or> new_token lib s (snd (login_op jti now cred s))"
    and revoke_law: "snd (revoke_op t s) = s\<lparr>tokens := update_where (\<lambda>r. tn_token r = t) (\<lambda>r. r\<lparr>tn_revoked := True\<rparr>) (tokens s)\<rparr>"
    and delete_law: "snd (delete_op user s) = s \<or> gone_account s (snd (delete_op user s))"
    and change_law: "snd (change_op user cc s) = s \<or> (\<exists>hash. snd (change_op user cc s) = change_hash user hash s)"
begin

definition sound :: "string set \<Rightarrow> auth_db \<Rightarrow> bool" where
  "sound used s \<longleftrightarrow>
     distinct (map ac_id (accounts s)) \<and> distinct (map ac_username (accounts s)) \<and> ac_id ` set (accounts s) \<subseteq> used \<and>
     (\<exists>a \<in> set (accounts s). ac_username a = ''admin'' \<and> ac_role a = ''admin'') \<and> distinct (map tn_token (tokens s)) \<and>
     (\<forall>r \<in> set (tokens s). tn_account_id r \<in> used \<and> (\<exists>cl. al_sign lib cl = Inr (tn_token r) \<and> jc_account_id cl = tn_account_id r \<and>
        (\<forall>a \<in> set (accounts s). ac_id a = tn_account_id r \<longrightarrow> jc_role cl = Some (ac_role a))))"

lemma soundI:
  assumes "distinct (map ac_id (accounts s))" "distinct (map ac_username (accounts s))" "ac_id ` set (accounts s) \<subseteq> used"
    "\<exists>a \<in> set (accounts s). ac_username a = ''admin'' \<and> ac_role a = ''admin''" "distinct (map tn_token (tokens s))"
    "\<And>r. r \<in> set (tokens s) \<Longrightarrow> tn_account_id r \<in> used \<and> (\<exists>cl. al_sign lib cl = Inr (tn_token r) \<and> jc_account_id cl = tn_account_id r \<and>
        (\<forall>a \<in> set (accounts s). ac_id a = tn_account_id r \<longrightarrow> jc_role cl = Some (ac_role a)))"
  shows "sound used s"
  using assms unfolding sound_def by blast

lemma soundD:
  assumes "sound used s"
  shows "distinct (map ac_id (accounts s))" "distinct (map ac_username (accounts s))" "ac_id ` set (accounts s) \<subseteq> used"
    "\<exists>a \<in> set (accounts s). ac_username a = ''admin'' \<and> ac_role a = ''admin''" "distinct (map tn_token (tokens s))"
    "\<And>r. r \<in> set (tokens s) \<Longrightarrow> tn_account_id r \<in> used \<and> (\<exists>cl. al_sign lib cl = Inr (tn_token r) \<and> jc_account_id cl = tn_account_id r \<and>
        (\<forall>a \<in> set (accounts s). ac_id a = tn_account_id r \<longrightarrow> jc_role cl = Some (ac_role a)))"
  using assms unfolding sound_def by blast+

lemma sound_create:
  assumes "sound used s" "newId \<notin> used"
  shows "sound (insert newId used) (snd (create_op newId now req s))"
proof (cases "snd (create_op newId now req s) = s")
  case True
  then show ?thesis using assms(1) unfolding sound_def by (simp, blast)
next
  case False
  then obtain a where a: "ac_id a = newId" "snd (create_op newId now req s) = s\<lparr>accounts := accounts s @ [a]\<rparr>"
    "\<forall>b \<in> set (accounts s). ac_username b \<noteq> ac_username a \<and> ac_id b \<noteq> newId"
    using create_law [of newId now req s] unfolding new_account_def by blast
  note d = soundD [OF assms(1)]
  show ?thesis unfolding a(2)
  proof (rule soundI)
    fix r assume "r \<in> set (tokens (s\<lparr>accounts := accounts s @ [a]\<rparr>))"
    then have r: "r \<in> set (tokens s)" by simp
    with d(6) assms(2) have "tn_account_id r \<noteq> newId" by blast
    with d(6) [OF r] a(1) show "tn_account_id r \<in> insert newId used \<and> (\<exists>cl. al_sign lib cl = Inr (tn_token r) \<and> jc_account_id cl = tn_account_id r \<and>
        (\<forall>b \<in> set (accounts (s\<lparr>accounts := accounts s @ [a]\<rparr>)). ac_id b = tn_account_id r \<longrightarrow> jc_role cl = Some (ac_role b)))"
      by auto
  qed (use d a(1,3) in \<open>auto\<close>)
qed

lemma sound_login:
  assumes "sound used s"
  shows "sound used (snd (login_op jti now cred s))"
proof (cases "snd (login_op jti now cred s) = s")
  case True
  then show ?thesis using assms by simp
next
  case False
  then obtain a t cl ex where a: "a \<in> set (accounts s)" "al_sign lib cl = Inr t" "jc_account_id cl = ac_id a" "jc_role cl = Some (ac_role a)"
    "t \<notin> tn_token ` set (tokens s)"
    "snd (login_op jti now cred s) = s\<lparr>tokens := tokens s @ [\<lparr>tn_account_id = ac_id a, tn_token = t, tn_expires_at = ex, tn_revoked = False\<rparr>]\<rparr>"
    using login_law [of jti now cred s] unfolding new_token_def by blast
  note d = soundD [OF assms]
  have same: "b = a" if "b \<in> set (accounts s)" "ac_id b = ac_id a" for b
    using that a(1) d(1) by (metis distinct_map inj_onD)
  show ?thesis unfolding a(6)
  proof (rule soundI)
    fix r assume "r \<in> set (tokens (s\<lparr>tokens := tokens s @ [\<lparr>tn_account_id = ac_id a, tn_token = t, tn_expires_at = ex, tn_revoked = False\<rparr>]\<rparr>))"
    then consider "r \<in> set (tokens s)" | "r = \<lparr>tn_account_id = ac_id a, tn_token = t, tn_expires_at = ex, tn_revoked = False\<rparr>" by auto
    then show "tn_account_id r \<in> used \<and> (\<exists>cl. al_sign lib cl = Inr (tn_token r) \<and> jc_account_id cl = tn_account_id r \<and>
        (\<forall>b \<in> set (accounts (s\<lparr>tokens := tokens s @ [\<lparr>tn_account_id = ac_id a, tn_token = t, tn_expires_at = ex, tn_revoked = False\<rparr>]\<rparr>)).
          ac_id b = tn_account_id r \<longrightarrow> jc_role cl = Some (ac_role b)))"
    proof cases
      case 1
      then show ?thesis using d(6) by simp
    next
      case 2
      then show ?thesis using a(1-4) d(3) same by (auto intro!: exI [of _ cl])
    qed
  qed (use d a(5) in \<open>auto\<close>)
qed

lemma sound_revoke:
  assumes "sound used s"
  shows "sound used (snd (revoke_op t s))"
  unfolding revoke_law
proof (rule soundI)
  show "distinct (map tn_token (tokens (s\<lparr>tokens := update_where (\<lambda>r. tn_token r = t) (\<lambda>r. r\<lparr>tn_revoked := True\<rparr>) (tokens s)\<rparr>)))"
    using soundD(5) [OF assms] by (simp add: map_update_where)
  fix r assume "r \<in> set (tokens (s\<lparr>tokens := update_where (\<lambda>r. tn_token r = t) (\<lambda>r. r\<lparr>tn_revoked := True\<rparr>) (tokens s)\<rparr>))"
  then obtain p where "p \<in> set (tokens s)" "r = (if tn_token p = t then p\<lparr>tn_revoked := True\<rparr> else p)" by (auto elim: update_whereE)
  then show "tn_account_id r \<in> used \<and> (\<exists>cl. al_sign lib cl = Inr (tn_token r) \<and> jc_account_id cl = tn_account_id r \<and>
      (\<forall>a \<in> set (accounts (s\<lparr>tokens := update_where (\<lambda>r. tn_token r = t) (\<lambda>r. r\<lparr>tn_revoked := True\<rparr>) (tokens s)\<rparr>)).
        ac_id a = tn_account_id r \<longrightarrow> jc_role cl = Some (ac_role a)))"
    using soundD(6) [OF assms, of p] by auto
qed (use soundD [OF assms] in \<open>simp_all\<close>)

lemma sound_delete:
  assumes "sound used s"
  shows "sound used (snd (delete_op user s))"
proof (cases "snd (delete_op user s) = s")
  case True
  then show ?thesis using assms by simp
next
  case False
  then obtain u P where g: "u \<noteq> ''admin''"
    "snd (delete_op user s) = s\<lparr>accounts := delete_where (\<lambda>a. ac_username a = u) (accounts s), tokens := delete_where P (tokens s)\<rparr>"
    using delete_law [of user s] unfolding gone_account_def by blast
  note d = soundD [OF assms]
  let ?s = "s\<lparr>accounts := delete_where (\<lambda>a. ac_username a = u) (accounts s), tokens := delete_where P (tokens s)\<rparr>"
  have sub: "set (accounts ?s) \<subseteq> set (accounts s)" "set (tokens ?s) \<subseteq> set (tokens s)" by auto
  show ?thesis unfolding g(2)
  proof (rule soundI)
    show "distinct (map ac_id (accounts ?s))" "distinct (map ac_username (accounts ?s))" "distinct (map tn_token (tokens ?s))"
      using d(1,2,5) by (simp_all add: distinct_map_delete_where)
    show "ac_id ` set (accounts ?s) \<subseteq> used" using d(3) sub(1) by blast
    show "\<exists>a \<in> set (accounts ?s). ac_username a = ''admin'' \<and> ac_role a = ''admin''" using d(4) g(1) by auto
    fix r assume "r \<in> set (tokens ?s)"
    with sub(2) d(6) have "tn_account_id r \<in> used \<and> (\<exists>cl. al_sign lib cl = Inr (tn_token r) \<and> jc_account_id cl = tn_account_id r \<and>
        (\<forall>a \<in> set (accounts s). ac_id a = tn_account_id r \<longrightarrow> jc_role cl = Some (ac_role a)))" by blast
    with sub(1) show "tn_account_id r \<in> used \<and> (\<exists>cl. al_sign lib cl = Inr (tn_token r) \<and> jc_account_id cl = tn_account_id r \<and>
        (\<forall>a \<in> set (accounts ?s). ac_id a = tn_account_id r \<longrightarrow> jc_role cl = Some (ac_role a)))" by blast
  qed
qed

lemma sound_change:
  assumes "sound used s"
  shows "sound used (snd (change_op user cc s))"
proof (cases "snd (change_op user cc s) = s")
  case True
  then show ?thesis using assms by simp
next
  case False
  then obtain hash where c: "snd (change_op user cc s) = change_hash user hash s" using change_law by blast
  note d = soundD [OF assms]
  let ?s = "change_hash user hash s"
  have ac: "\<exists>b \<in> set (accounts s). ac_id a = ac_id b \<and> ac_username a = ac_username b \<and> ac_role a = ac_role b" if "a \<in> set (accounts ?s)" for a
    using that by (auto simp: change_hash_def elim!: update_whereE)
  have ca: "\<exists>a \<in> set (accounts ?s). ac_id a = ac_id b \<and> ac_username a = ac_username b \<and> ac_role a = ac_role b" if "b \<in> set (accounts s)" for b
  proof -
    have "(if ac_username b = user then b\<lparr>ac_password_hash := hash\<rparr> else b) \<in> set (accounts ?s)"
      using that by (auto simp: change_hash_def set_update_where)
    then show ?thesis by (rule bexI [rotated]) simp
  qed
  have toks: "tokens ?s = tokens s" by (simp add: change_hash_def)
  show ?thesis unfolding c
  proof (rule soundI)
    show "distinct (map ac_id (accounts ?s))" "distinct (map ac_username (accounts ?s))"
      using d(1,2) by (simp_all add: change_hash_def map_update_where)
    show "ac_id ` set (accounts ?s) \<subseteq> used" using d(3) ac by (metis (no_types, lifting) image_subset_iff)
    show "\<exists>a \<in> set (accounts ?s). ac_username a = ''admin'' \<and> ac_role a = ''admin''" using d(4) ca by metis
    show "distinct (map tn_token (tokens ?s))" using d(5) toks by simp
    fix r assume "r \<in> set (tokens ?s)"
    then have "r \<in> set (tokens s)" by (simp add: toks)
    from d(6) [OF this] ac show "tn_account_id r \<in> used \<and> (\<exists>cl. al_sign lib cl = Inr (tn_token r) \<and> jc_account_id cl = tn_account_id r \<and>
        (\<forall>a \<in> set (accounts ?s). ac_id a = tn_account_id r \<longrightarrow> jc_role cl = Some (ac_role a)))"
      by metis
  qed
qed

lemmas sound_ops = sound_create sound_login sound_revoke sound_delete sound_change

end

section \<open>Both managers keep the contract\<close>

lemma insert_account_new:
  "snd (insert_account newId now user hash role s) = s \<or> new_account newId s (snd (insert_account newId now user hash role s))"
proof (cases "\<exists>a \<in> set (accounts s). ac_username a = user \<or> ac_id a = newId")
  case False
  then show ?thesis unfolding insert_account_def new_account_def
    by (intro disjI2 exI [of _ "\<lparr>ac_id = newId, ac_username = user, ac_password_hash = hash, ac_role = role, ac_created_at = now\<rparr>"]) auto
qed (simp add: insert_account_def)

lemma find_account_in: "find_account user s = Some a \<Longrightarrow> a \<in> set (accounts s) \<and> ac_username a = user"
  unfolding find_account_def by (drule query_row_Some_in) simp

lemma issue_token_new:
  assumes "a \<in> set (accounts s)"
  shows "snd (issue_token lib a now jti ex s) = s \<or> new_token lib s (snd (issue_token lib a now jti ex s))"
proof (cases "al_sign lib (login_claims a now jti)")
  case (Inr t)
  show ?thesis
  proof (cases "\<exists>r \<in> set (tokens s). tn_token r = t")
    case False
    then have "t \<notin> tn_token ` set (tokens s)" by auto
    moreover from False Inr have "snd (issue_token lib a now jti ex s) =
        s\<lparr>tokens := tokens s @ [\<lparr>tn_account_id = ac_id a, tn_token = t, tn_expires_at = ex, tn_revoked = False\<rparr>]\<rparr>"
      by (simp add: issue_token_def insert_token_def)
    ultimately show ?thesis using assms Inr unfolding new_token_def by (force simp: login_claims_def)
  qed (use Inr in \<open>simp add: issue_token_def insert_token_def\<close>)
qed (simp add: issue_token_def)

lemma create_new: "snd (au_CreateAccount m lib newId now req s) = s \<or> new_account newId s (snd (au_CreateAccount m lib newId now req s))"
  by (cases m) (auto simp: sq_CreateAccount_def pg_CreateAccount_def insert_account_new split: sum.split)

lemma login_new: "snd (au_Login m lib jti now cred s) = s \<or> new_token lib s (snd (au_Login m lib jti now cred s))"
proof (cases m)
  case (AuthSqlite tz)
  then show ?thesis
    by (cases "find_account (cd_Username cred) s") (simp_all add: sq_Login_def issue_token_new find_account_in)
next
  case AuthPostgres
  let ?rows = "filter (\<lambda>a. ac_username a = cd_Username cred \<and> al_matches lib (ac_password_hash a) (cd_Password cred)) (accounts s)"
  show ?thesis
  proof (cases "query_row ?rows")
    case (Some a)
    from query_row_Some_in [OF Some] have "a \<in> set (accounts s)" by simp
    with Some AuthPostgres show ?thesis by (simp add: pg_Login_def issue_token_new)
  qed (use AuthPostgres in \<open>simp add: pg_Login_def\<close>)
qed

lemma delete_gone: "snd (au_DeleteUser m user s) = s \<or> gone_account s (snd (au_DeleteUser m user s))"
proof (cases "user = ''admin''")
  case True
  then show ?thesis by (cases m) (simp_all add: sq_DeleteUser_def pg_DeleteUser_def)
next
  case False
  have none: "delete_where (\<lambda>r. False) rows = rows" for rows :: "token_row list" by (induction rows) simp_all
  show ?thesis
  proof (cases m)
    case (AuthSqlite tz)
    have "gone_account s (s\<lparr>accounts := delete_where (\<lambda>a. ac_username a = user) (accounts s)\<rparr>)"
      unfolding gone_account_def using False by (intro exI [of _ user] exI [of _ "\<lambda>r. False"]) (simp add: none)
    with AuthSqlite False show ?thesis by (simp add: sq_DeleteUser_def)
  next
    case AuthPostgres
    have "gone_account s (snd (pg_DeleteUser user s))"
      unfolding gone_account_def using False
      by (intro exI [of _ user] exI [of _ "\<lambda>r. tn_account_id r \<in> set (map ac_id (filter (\<lambda>a. ac_username a = user) (accounts s)))"])
        (simp add: pg_DeleteUser_def)
    with AuthPostgres show ?thesis by simp
  qed
qed

interpretation au: account_manager lib "au_CreateAccount m lib" "au_Login m lib" "au_RevokeToken m" "au_DeleteUser m" "au_ChangePassword m lib" for m lib
proof
  show "snd (au_RevokeToken m t s) = s\<lparr>tokens := update_where (\<lambda>r. tn_token r = t) (\<lambda>r. r\<lparr>tn_revoked := True\<rparr>) (tokens s)\<rparr>" for t s
    by (cases m) (simp_all add: sq_RevokeToken_def pg_RevokeToken_def)
  show "snd (au_ChangePassword m lib user cc s) = s \<or> (\<exists>hash. snd (au_ChangePassword m lib user cc s) = change_hash user hash s)" for user cc s
    by (cases m) (auto simp: sq_ChangePassword_def pg_ChangePassword_def split: option.split sum.split)
qed (rule create_new login_new delete_gone)+

lemma auth_step_sound: "auth_step m lib (used, s) (used', s') \<Longrightarrow> au.sound lib used s \<Longrightarrow> au.sound lib used' s'"
  by (cases rule: auth_step.cases) (auto intro: au.sound_ops)

lemma auth_steps_sound: "(auth_step m lib)\<^sup>*\<^sup>* (used, s) (used', s') \<Longrightarrow> au.sound lib used s \<Longrightarrow> au.sound lib used' s'"
  by (induction rule: rtranclp_induct2) (auto intro: auth_step_sound)

lemma initialised_sound:
  assumes "au_InitialiseDatabase m lib newId now \<lparr>accounts = [], tokens = []\<rparr> = (Inr (), s)"
  shows "au.sound lib {newId} s"
  using assms unfolding au.sound_def
  by (cases m) (auto simp: sq_InitialiseDatabase_def pg_InitialiseDatabase_def find_account_def insert_account_def split: sum.splits)

lemma auth_reachable_sound: "auth_reachable m lib used s \<Longrightarrow> au.sound lib used s"
  unfolding auth_reachable_def by (auto intro: auth_steps_sound initialised_sound)

section \<open>Sessions\<close>

text \<open>
  What the JWT library promises: a token signed with the key parses to the claims it was signed with, from the second of issue on and until
  the expiry time, and a token determines the claims it carries.
\<close>

definition jwt_ok :: "auth_lib \<Rightarrow> bool" where
  "jwt_ok lib \<longleftrightarrow>
     (\<forall>cl t now. al_sign lib cl = Inr t \<longrightarrow> al_parse lib now t = (if jc_iat cl \<le> unix now \<and> unix now < jc_exp cl then Some cl else None)) \<and>
     (\<forall>cl cl' t. al_sign lib cl = Inr t \<longrightarrow> al_sign lib cl' = Inr t \<longrightarrow> cl' = cl)"

lemma jwt_parse: "jwt_ok lib \<Longrightarrow> al_sign lib cl = Inr t \<Longrightarrow> al_parse lib now t = Some cl' \<Longrightarrow> cl' = cl"
  unfolding jwt_ok_def by (auto split: if_splits)

lemma IsValidLogin_check: "\<exists>live. au_IsValidLogin m lib now t s = check_token lib live now t s"
  by (cases m) (auto simp: sq_IsValidLogin_def pg_IsValidLogin_def)

lemma check_tokenE:
  assumes "check_token lib live now t s = Inr (user, role)"
  obtains cl r a where "al_parse lib now t = Some cl" "jc_role cl = Some role" "r \<in> set (tokens s)" "tn_token r = t" "\<not> tn_revoked r"
    "a \<in> set (accounts s)" "ac_id a = tn_account_id r" "ac_username a = user"
  using assms unfolding check_token_def
  by (auto split: option.splits if_splits dest!: query_row_Some_in)

lemma check_token_cases: "(\<exists>e. check_token lib live now t s = Inl e) \<or> (\<exists>user role. check_token lib live now t s = Inr (user, role))"
  by (cases "check_token lib live now t s") auto

lemma valid_login_account:
  assumes "auth_reachable m lib used s" "jwt_ok lib" "au_IsValidLogin m lib now t s = Inr (user, role)"
  shows "\<exists>a \<in> set (accounts s). ac_username a = user \<and> ac_role a = role \<and>
           (\<exists>r \<in> set (tokens s). tn_token r = t \<and> tn_account_id r = ac_id a \<and> \<not> tn_revoked r)"
proof -
  note d = au.soundD [OF auth_reachable_sound [OF assms(1)]]
  obtain live where "check_token lib live now t s = Inr (user, role)" using assms(3) IsValidLogin_check by metis
  then obtain cl r a where c: "al_parse lib now t = Some cl" "jc_role cl = Some role" "r \<in> set (tokens s)" "tn_token r = t" "\<not> tn_revoked r"
    "a \<in> set (accounts s)" "ac_id a = tn_account_id r" "ac_username a = user" by (rule check_tokenE)
  from d(6) [OF c(3)] c(4,6,7) obtain cl' where cl': "al_sign lib cl' = Inr t" "jc_role cl' = Some (ac_role a)" by blast
  with jwt_parse [OF assms(2) cl'(1) c(1)] c(2) have "ac_role a = role" by simp
  with c(3-8) show ?thesis by (intro bexI [of _ a] conjI bexI [of _ r]) simp_all
qed

text \<open>
  (C13) A session that the server accepts belongs to an account that exists, and carries that account's name and role: no history of account
  creation, login, logout, deletion and change of passwords lets a token grant a role that its account does not have, or outlive its account
  or its revocation.
\<close>

theorem session_sound:
  assumes "auth_reachable m lib used s" "jwt_ok lib" "au_IsValidLogin m lib now t s = Inr (user, role)"
  shows "\<exists>a \<in> set (accounts s). ac_username a = user \<and> ac_role a = role \<and>
           (\<exists>r \<in> set (tokens s). tn_token r = t \<and> tn_account_id r = ac_id a \<and> \<not> tn_revoked r)"
  by (rule valid_login_account [OF assms])

text \<open>
  In every history of the tables the names and identifiers of the accounts are unique, no token is stored twice, and the administrator's
  account exists with its role: nobody can delete it or take its name.
\<close>

theorem auth_tables_sound:
  assumes "auth_reachable m lib used s"
  shows "distinct (map ac_username (accounts s)) \<and> distinct (map ac_id (accounts s)) \<and> distinct (map tn_token (tokens s)) \<and>
    (\<exists>a. find_account ''admin'' s = Some a \<and> ac_role a = ''admin'')"
proof -
  note d = au.soundD [OF auth_reachable_sound [OF assms]]
  obtain a where a: "a \<in> set (accounts s)" "ac_username a = ''admin''" "ac_role a = ''admin''" using d(4) by blast
  then have "filter (\<lambda>a. ac_username a = ''admin'') (accounts s) \<noteq> []" by (auto simp: filter_empty_conv)
  then obtain b where b: "find_account ''admin'' s = Some b" unfolding find_account_def by fastforce
  from find_account_in [OF b] a d(2) have "b = a" by (metis distinct_map inj_onD)
  with a b d show ?thesis by simp
qed

subsection \<open>Logout\<close>

text \<open>A token is dead if it was signed for a known identifier and is either stored as revoked or gone together with its account.\<close>

definition dead :: "auth_lib \<Rightarrow> string \<Rightarrow> string set \<times> auth_db \<Rightarrow> bool" where
  "dead lib t us \<longleftrightarrow>
     (\<exists>cl. al_sign lib cl = Inr t \<and> jc_account_id cl \<in> fst us \<and> (\<forall>r \<in> set (tokens (snd us)). tn_token r = t \<longrightarrow> tn_revoked r) \<and>
        (t \<in> tn_token ` set (tokens (snd us)) \<or> jc_account_id cl \<notin> ac_id ` set (accounts (snd us))))"

lemma image_update_where:
  assumes "\<And>r. P r \<Longrightarrow> key (f r) = key r"
  shows "key ` set (update_where P f rows) = key ` set rows"
proof -
  have "map key (update_where P f rows) = map key rows" using assms by (simp add: map_update_where)
  then show ?thesis by (metis list.set_map)
qed

lemma dead_frame:
  assumes dead: "dead lib t (used, s)" and lib: "jwt_ok lib" and sound: "au.sound lib used s" and used: "used \<subseteq> used'"
    and ids: "ac_id ` set (accounts s') \<inter> used \<subseteq> ac_id ` set (accounts s)"
    and old: "\<And>r. r \<in> set (tokens s') \<Longrightarrow> tn_token r = t \<Longrightarrow> \<exists>p \<in> set (tokens s). tn_token p = t \<and> (tn_revoked p \<longrightarrow> tn_revoked r)"
    and kept: "\<And>p. p \<in> set (tokens s) \<Longrightarrow> tn_token p \<in> tn_token ` set (tokens s') \<or> tn_account_id p \<notin> ac_id ` set (accounts s')"
  shows "dead lib t (used', s')"
proof -
  from dead obtain cl where cl: "al_sign lib cl = Inr t" "jc_account_id cl \<in> used" "\<forall>r \<in> set (tokens s). tn_token r = t \<longrightarrow> tn_revoked r"
    "t \<in> tn_token ` set (tokens s) \<or> jc_account_id cl \<notin> ac_id ` set (accounts s)" unfolding dead_def by auto
  have "t \<in> tn_token ` set (tokens s') \<or> jc_account_id cl \<notin> ac_id ` set (accounts s')"
  proof (cases "t \<in> tn_token ` set (tokens s)")
    case True
    then obtain p where p: "p \<in> set (tokens s)" "tn_token p = t" by auto
    with au.soundD(6) [OF sound p(1)] cl(1) lib have "jc_account_id cl = tn_account_id p" unfolding jwt_ok_def by metis
    with kept [OF p(1)] p(2) show ?thesis by simp
  qed (use cl(2,4) ids in blast)
  moreover have "\<forall>r \<in> set (tokens s'). tn_token r = t \<longrightarrow> tn_revoked r" using old cl(3) by blast
  ultimately show ?thesis using cl(1,2) used unfolding dead_def by (intro exI [of _ cl]) auto
qed

lemma login_other:
  assumes "dead lib t (used, s)" "jwt_ok lib" "snd (au_Login m lib jti now cred s) \<noteq> s"
  obtains r where "tn_token r \<noteq> t" "snd (au_Login m lib jti now cred s) = s\<lparr>tokens := tokens s @ [r]\<rparr>"
proof -
  from assms(3) have "new_token lib s (snd (au_Login m lib jti now cred s))" using login_new by blast
  then obtain a t' cl' ex where a: "a \<in> set (accounts s)" "al_sign lib cl' = Inr t'" "jc_account_id cl' = ac_id a" "t' \<notin> tn_token ` set (tokens s)"
    "snd (au_Login m lib jti now cred s) = s\<lparr>tokens := tokens s @ [\<lparr>tn_account_id = ac_id a, tn_token = t', tn_expires_at = ex, tn_revoked = False\<rparr>]\<rparr>"
    unfolding new_token_def by blast
  have "t' \<noteq> t"
  proof
    assume t: "t' = t"
    obtain cl where cl: "al_sign lib cl = Inr t" "t \<in> tn_token ` set (tokens s) \<or> jc_account_id cl \<notin> ac_id ` set (accounts s)"
      using assms(1) unfolding dead_def by auto
    with a(2) t assms(2) have "cl' = cl" unfolding jwt_ok_def by metis
    with a(1,3,4) t cl(2) show False by auto
  qed
  then show ?thesis by (intro that [OF _ a(5)]) simp
qed

lemma dead_step:
  assumes "auth_step m lib us us'" "dead lib t us" "jwt_ok lib" "au.sound lib (fst us) (snd us)"
  shows "dead lib t us'"
proof -
  obtain used s where us: "us = (used, s)" by (cases us)
  note frame = dead_frame [OF assms(2) [unfolded us] assms(3)]
  have sound: "au.sound lib used s" using assms(4) us by simp
  from assms(1) show ?thesis unfolding us
  proof (cases rule: auth_step.cases)
    case (create newId now req)
    show ?thesis unfolding create(1)
      by (rule frame [OF sound]) (use create(2) create_new [of m lib newId now req s] in \<open>auto simp: new_account_def\<close>)
  next
    case (login jti now cred)
    show ?thesis
    proof (cases "snd (au_Login m lib jti now cred s) = s")
      case False
      from login_other [OF assms(2) [unfolded us] assms(3) False] obtain r
        where "tn_token r \<noteq> t" "snd (au_Login m lib jti now cred s) = s\<lparr>tokens := tokens s @ [r]\<rparr>" .
      then show ?thesis unfolding login by (intro frame [OF sound]) auto
    qed (use assms(2) us login in simp)
  next
    case (revoke t')
    show ?thesis unfolding revoke au.revoke_law
      by (intro frame [OF sound]) (auto simp: image_update_where elim!: update_whereE)
  next
    case (delete user)
    show ?thesis
    proof (cases "snd (au_DeleteUser m user s) = s")
      case False
      then have "gone_account s (snd (au_DeleteUser m user s))" using delete_gone [of m user s] by simp
      then obtain u P where P: "\<forall>r. P r \<longrightarrow> tn_account_id r \<in> ac_id ` {a \<in> set (accounts s). ac_username a = u}"
        "snd (au_DeleteUser m user s) = s\<lparr>accounts := delete_where (\<lambda>a. ac_username a = u) (accounts s), tokens := delete_where P (tokens s)\<rparr>"
        unfolding gone_account_def by (elim exE conjE) (rule that)
      have gone: "tn_account_id p \<notin> ac_id ` {a \<in> set (accounts s). ac_username a \<noteq> u}" if "P p" for p
      proof
        assume "tn_account_id p \<in> ac_id ` {a \<in> set (accounts s). ac_username a \<noteq> u}"
        then obtain b where b: "b \<in> set (accounts s)" "ac_username b \<noteq> u" "ac_id b = tn_account_id p" by auto
        from P(1) that obtain a where a: "a \<in> set (accounts s)" "ac_username a = u" "ac_id a = tn_account_id p" by fastforce
        have "a = b" using a b au.soundD(1) [OF sound] by (metis distinct_map inj_onD)
        with a b show False by simp
      qed
      show ?thesis unfolding delete P(2)
        by (rule frame [OF sound]) (use gone in \<open>auto\<close>)
    qed (use assms(2) us delete in simp)
  next
    case (change user cc)
    let ?s = "snd (au_ChangePassword m lib user cc s)"
    have "ac_id ` set (accounts ?s) = ac_id ` set (accounts s) \<and> tokens ?s = tokens s"
      using au.change_law [of m lib user cc s] by (elim disjE exE) (simp_all add: change_hash_def image_update_where)
    then show ?thesis unfolding change by (intro frame [OF sound]) auto
  qed
qed

lemma dead_steps:
  "(auth_step m lib)\<^sup>*\<^sup>* us us' \<Longrightarrow> dead lib t us \<Longrightarrow> jwt_ok lib \<Longrightarrow> au.sound lib (fst us) (snd us) \<Longrightarrow> dead lib t us' \<and> au.sound lib (fst us') (snd us')"
proof (induction rule: rtranclp_induct)
  case (step us' us'')
  then show ?case using dead_step [OF step(2)] auth_step_sound [of m lib "fst us'" "snd us'" "fst us''" "snd us''"] by simp
qed simp

text \<open>
  (C22) A logout is final: a stored token that has been revoked is rejected in every later state of the server, whatever accounts are created or
  deleted and whoever logs in afterwards.
\<close>

theorem logout_is_final:
  assumes "auth_reachable m lib used s" "jwt_ok lib" "t \<in> tn_token ` set (tokens s)"
    "(auth_step m lib)\<^sup>*\<^sup>* (used, snd (au_RevokeToken m t s)) (used', s')"
  shows "\<exists>e. au_IsValidLogin m lib now t s' = Inl e"
proof -
  note sound = auth_reachable_sound [OF assms(1)]
  from assms(3) obtain r where r: "r \<in> set (tokens s)" "tn_token r = t" by auto
  with au.soundD(6) [OF sound r(1)] obtain cl where cl: "al_sign lib cl = Inr t" "jc_account_id cl \<in> used" by metis
  have "dead lib t (used, snd (au_RevokeToken m t s))" unfolding dead_def au.revoke_law using cl r
    by (intro exI [of _ cl]) (auto simp: image_update_where elim!: update_whereE)
  from dead_steps [OF assms(4) this assms(2)] sound have "dead lib t (used', s')" by (simp add: au.sound_revoke)
  then have rev: "\<forall>r \<in> set (tokens s'). tn_token r = t \<longrightarrow> tn_revoked r" unfolding dead_def by auto
  obtain live where "au_IsValidLogin m lib now t s' = check_token lib live now t s'" using IsValidLogin_check by metis
  moreover have "check_token lib live now t s' \<noteq> Inr (user, role)" for user role by (metis check_tokenE rev)
  ultimately show ?thesis by (metis check_token_cases)
qed

subsection \<open>Login\<close>

text \<open>How long the row of a session counts as live: SQLite compares the local time it stored with the universal time.\<close>

fun live_until :: "auth_manager \<Rightarrow> int \<Rightarrow> int \<Rightarrow> bool" where
  "live_until (AuthSqlite tz) now later \<longleftrightarrow> unix later \<le> unix (now + session_ttl) + tz"
| "live_until AuthPostgres now later \<longleftrightarrow> later < now + session_ttl"

lemma LoginE:
  assumes "au_Login m lib jti now cred s = (Inr (t, role), s')"
  obtains a ex where "a \<in> set (accounts s)" "ac_username a = cd_Username cred" "al_sign lib (login_claims a now jti) = Inr t" "role = ac_role a"
    "al_matches lib (ac_password_hash a) (cd_Password cred)" "t \<notin> tn_token ` set (tokens s)"
    "s' = s\<lparr>tokens := tokens s @ [\<lparr>tn_account_id = ac_id a, tn_token = t, tn_expires_at = ex, tn_revoked = False\<rparr>]\<rparr>"
    "ex = (case m of AuthSqlite tz \<Rightarrow> unix (now + session_ttl) + tz | AuthPostgres \<Rightarrow> now + session_ttl)"
proof (cases m)
  case (AuthSqlite tz)
  with assms obtain a where a: "find_account (cd_Username cred) s = Some a" "al_matches lib (ac_password_hash a) (cd_Password cred)"
    "issue_token lib a now jti (unix (now + session_ttl) + tz) s = (Inr (t, role), s')"
    by (auto simp: sq_Login_def split: option.splits if_splits)
  with find_account_in [OF a(1)] AuthSqlite that show ?thesis
    by (auto simp: issue_token_def insert_token_def split: sum.splits if_splits)
next
  case AuthPostgres
  with assms obtain a where a: "query_row (filter (\<lambda>a. ac_username a = cd_Username cred \<and> al_matches lib (ac_password_hash a) (cd_Password cred)) (accounts s)) = Some a"
    "issue_token lib a now jti (now + session_ttl) s = (Inr (t, role), s')"
    by (auto simp: pg_Login_def split: option.splits if_splits)
  with query_row_Some_in [OF a(1)] AuthPostgres that show ?thesis
    by (auto simp: issue_token_def insert_token_def split: sum.splits if_splits)
qed

lemma filter_single: "x \<notin> f ` set xs \<Longrightarrow> filter (\<lambda>y. f y = x \<and> P y) xs = []"
  by (auto simp: filter_empty_conv)

lemma filter_unique:
  assumes "distinct (map f xs)" "a \<in> set xs"
  shows "filter (\<lambda>y. f y = f a) xs = [a]"
  using assms by (induction xs) (auto simp: filter_empty_conv image_iff)

text \<open>
  A login is for an account with the password it presents, and the token it returns is a session of that account with its role, from that
  moment until the 24 hours are over (with SQLite, until the local clock's distance from universal time takes its share of them).
\<close>

theorem login_then_valid:
  assumes "auth_reachable m lib used s" "jwt_ok lib" "au_Login m lib jti now cred s = (Inr (t, role), s')"
    "now \<le> later" "unix later < unix (now + session_ttl)" "live_until m now later"
  shows "au_IsValidLogin m lib later t s' = Inr (cd_Username cred, role) \<and>
    (\<exists>a \<in> set (accounts s). ac_username a = cd_Username cred \<and> ac_role a = role \<and> al_matches lib (ac_password_hash a) (cd_Password cred))"
proof -
  note d = au.soundD [OF auth_reachable_sound [OF assms(1)]]
  from assms(3) obtain a ex where a: "a \<in> set (accounts s)" "ac_username a = cd_Username cred" "al_sign lib (login_claims a now jti) = Inr t" "role = ac_role a"
    "al_matches lib (ac_password_hash a) (cd_Password cred)" "t \<notin> tn_token ` set (tokens s)"
    "s' = s\<lparr>tokens := tokens s @ [\<lparr>tn_account_id = ac_id a, tn_token = t, tn_expires_at = ex, tn_revoked = False\<rparr>]\<rparr>"
    "ex = (case m of AuthSqlite tz \<Rightarrow> unix (now + session_ttl) + tz | AuthPostgres \<Rightarrow> now + session_ttl)" by (rule LoginE)
  have "unix now \<le> unix later" using assms(4) by (simp add: unix_def zdiv_mono1)
  with assms(2,5) a(3) have p: "al_parse lib later t = Some (login_claims a now jti)"
    unfolding jwt_ok_def by (simp add: login_claims_def)
  have "check_token lib live later t s' = Inr (cd_Username cred, role)" if "live ex" for live
    using p that a(2,4) by (simp add: check_token_def a(7) filter_single [OF a(6)] filter_unique [OF d(1) a(1)] login_claims_def)
  moreover have "case m of AuthSqlite tz \<Rightarrow> unix later \<le> ex | AuthPostgres \<Rightarrow> later < ex"
    using assms(6) a(8) by (cases m) simp_all
  ultimately have "au_IsValidLogin m lib later t s' = Inr (cd_Username cred, role)"
    by (cases m) (simp_all add: sq_IsValidLogin_def pg_IsValidLogin_def)
  with a(1,2,4,5) show ?thesis by blast
qed

subsection \<open>Witnesses\<close>

text \<open>A small library: it signs one set of claims, and its hash marks a password with a prefix.\<close>

definition ex_claims :: JwtClaims where
  "ex_claims = \<lparr>jc_account_id = ''a1'', jc_exp = 86400, jc_iat = 0, jc_jti = ''j1'', jc_role = Some ''admin''\<rparr>"

definition ex_lib :: auth_lib where
  "ex_lib = \<lparr>al_hash = \<lambda>p. Inr (CHR ''#'' # p), al_matches = \<lambda>h p. h = CHR ''#'' # p,
     al_sign = \<lambda>cl. if cl = ex_claims then Inr ''tok'' else Inl (Err ''key''),
     al_parse = \<lambda>now t. if t = ''tok'' \<and> 0 \<le> unix now \<and> unix now < 86400 then Some ex_claims else None\<rparr>"

definition ex_accounts :: auth_db where
  "ex_accounts = snd (sq_InitialiseDatabase ex_lib ''a1'' 0 \<lparr>accounts = [], tokens = []\<rparr>)"

definition ex_cred :: Credentials where
  "ex_cred = \<lparr>cd_Username = ''admin'', cd_Password = ''adminpassword''\<rparr>"

definition ex_session :: auth_db where
  "ex_session = snd (au_Login AuthPostgres ex_lib ''j1'' 0 ex_cred ex_accounts)"

lemma ex_jwt: "jwt_ok ex_lib"
  by (simp add: jwt_ok_def ex_lib_def ex_claims_def)

lemmas ex_auth = ex_accounts_def ex_session_def ex_cred_def ex_lib_def ex_claims_def pg_InitialiseDatabase_def sq_InitialiseDatabase_def find_account_def insert_account_def
  pg_Login_def issue_token_def insert_token_def login_claims_def session_ttl_def unix_def pg_IsValidLogin_def check_token_def hashPassword_def

lemma ex_reachable: "auth_reachable AuthPostgres ex_lib {''a1''} ex_accounts"
  unfolding auth_reachable_def
  by (intro exI [of _ "''a1''"] exI [of _ 0] exI [of _ ex_accounts]) (simp add: ex_auth)

lemma ex_reachable_session: "auth_reachable AuthPostgres ex_lib {''a1''} ex_session"
  using ex_reachable auth_step.login [of AuthPostgres ex_lib "{''a1''}" ex_accounts "''j1''" 0 ex_cred] unfolding auth_reachable_def ex_session_def
  by (metis rtranclp.rtrancl_into_rtrancl)

theorem session_sound_witness:
  "au_IsValidLogin AuthPostgres ex_lib 5 ''tok'' ex_session = Inr (''admin'', ''admin'') \<and>
   (\<exists>a \<in> set (accounts ex_session). ac_username a = ''admin'' \<and> ac_role a = ''admin'' \<and>
      (\<exists>r \<in> set (tokens ex_session). tn_token r = ''tok'' \<and> tn_account_id r = ac_id a \<and> \<not> tn_revoked r))"
proof -
  have "au_IsValidLogin AuthPostgres ex_lib 5 ''tok'' ex_session = Inr (''admin'', ''admin'')" by (simp add: ex_auth)
  with session_sound [OF ex_reachable_session ex_jwt this] show ?thesis by simp
qed

theorem auth_tables_sound_witness:
  "auth_reachable AuthPostgres ex_lib {''a1''} ex_session \<and> (\<exists>a. find_account ''admin'' ex_session = Some a \<and> ac_role a = ''admin'')"
  using auth_tables_sound [OF ex_reachable_session] ex_reachable_session by blast

theorem logout_is_final_witness:
  "\<exists>e. au_IsValidLogin AuthPostgres ex_lib 5 ''tok'' (snd (au_RevokeToken AuthPostgres ''tok'' ex_session)) = Inl e"
  by (rule logout_is_final [OF ex_reachable_session ex_jwt _ rtranclp.rtrancl_refl]) (simp add: ex_auth)

theorem login_then_valid_witness:
  "au_Login AuthPostgres ex_lib ''j1'' 0 ex_cred ex_accounts = (Inr (''tok'', ''admin''), ex_session) \<and>
   au_IsValidLogin AuthPostgres ex_lib 3600000000000 ''tok'' ex_session = Inr (''admin'', ''admin'')"
proof -
  have l: "au_Login AuthPostgres ex_lib ''j1'' 0 ex_cred ex_accounts = (Inr (''tok'', ''admin''), ex_session)" by (simp add: ex_auth)
  have "cd_Username ex_cred = ''admin''" by (simp add: ex_cred_def)
  with login_then_valid [OF ex_reachable ex_jwt l, of 3600000000000] l show ?thesis by (simp add: session_ttl_def unix_def)
qed

end
