(* ===== verification/Server_Logs.thy ===== *)
theory Server_Logs
  imports Log_Collection Server_Paging
begin

text \<open>
  Reading logs through the API server (\<open>internal/server/logs\<close>): the fetchers for a file system and for S3, and \<open>ServeLogWithRange\<close>. A locale states what a
  fetcher promises; together with the stores of the worker it gives the way of a log from the pod to the user.
\<close>

section \<open>Fetchers\<close>

text \<open>A reader yields its bytes and then ends, or fails.\<close>

record log_reader =
  rd_data :: string
  rd_error :: check

record LogFetcher =
  RangeFetchLogs :: "string \<Rightarrow> int \<Rightarrow> int \<Rightarrow> log_reader result"
  FetchLogs :: "string \<Rightarrow> log_reader result"
  LogFileExists :: "string \<Rightarrow> (bool \<times> int) result"

text \<open>\<open>io.LimitReader\<close>: at most the given number of bytes.\<close>

definition LimitReader :: "string \<Rightarrow> int \<Rightarrow> string" where
  "LimitReader content n = take (nat n) content"

text \<open>
  The file system fetcher on the files it sees; a log key is a clean relative path. The difference of the bounds is a 64-bit integer, and so are
  the bounds.
\<close>

definition fs_RangeFetchLogs :: "string \<Rightarrow> files \<Rightarrow> string \<Rightarrow> int \<Rightarrow> int \<Rightarrow> log_reader result" where
  "fs_RangeFetchLogs basePath s logKey start stop =
     (case s (basePath @ ''/'' @ logKey) of
        None \<Rightarrow> Inl (Err ''no such file or directory'')
      | Some content \<Rightarrow>
          if start < 0 then Inl (Err ''invalid argument'')
          else Inr \<lparr>rd_data = LimitReader (drop (nat start) content) (sint (word_of_int (stop - start + 1) :: 64 word)), rd_error = None\<rparr>)"

definition fs_FetchLogs :: "string \<Rightarrow> files \<Rightarrow> string \<Rightarrow> log_reader result" where
  "fs_FetchLogs basePath s logKey =
     (case s (basePath @ ''/'' @ logKey) of
        None \<Rightarrow> Inl (Err ''no such file or directory'') | Some content \<Rightarrow> Inr \<lparr>rd_data = content, rd_error = None\<rparr>)"

definition fs_LogFileExists :: "string \<Rightarrow> files \<Rightarrow> string \<Rightarrow> (bool \<times> int) result" where
  "fs_LogFileExists basePath s logFileKey =
     (case s (basePath @ ''/'' @ logFileKey) of None \<Rightarrow> Inr (False, 0) | Some content \<Rightarrow> Inr (True, int (length content)))"

definition fsLogFetcher :: "string \<Rightarrow> files \<Rightarrow> LogFetcher" where
  "fsLogFetcher basePath s =
     \<lparr>RangeFetchLogs = fs_RangeFetchLogs basePath s, FetchLogs = fs_FetchLogs basePath s, LogFileExists = fs_LogFileExists basePath s\<rparr>"

text \<open>The two calls of the S3 client that read: the length of an object, if it is known, and an object or a range of it.\<close>

record 's s3Reader =
  HeadObject :: "string \<Rightarrow> 's \<Rightarrow> int option result"
  GetObject :: "string \<Rightarrow> string option \<Rightarrow> 's \<Rightarrow> log_reader result"

definition s3_range :: "int \<Rightarrow> int \<Rightarrow> string" where
  "s3_range start stop = ''bytes='' @ Itoa start @ ''-'' @ Itoa stop"

definition s3_RangeFetchLogs :: "'s s3Reader \<Rightarrow> 's \<Rightarrow> string \<Rightarrow> int \<Rightarrow> int \<Rightarrow> log_reader result" where
  "s3_RangeFetchLogs c s logKey start stop = GetObject c logKey (Some (s3_range start stop)) s"

definition s3_FetchLogs :: "'s s3Reader \<Rightarrow> 's \<Rightarrow> string \<Rightarrow> log_reader result" where
  "s3_FetchLogs c s logKey = GetObject c logKey None s"

definition s3_LogFileExists :: "'s s3Reader \<Rightarrow> 's \<Rightarrow> string \<Rightarrow> (bool \<times> int) result" where
  "s3_LogFileExists c s logFileKey =
     (case HeadObject c logFileKey s of
        Inl e \<Rightarrow> Inr (False, 0)
      | Inr None \<Rightarrow> Inr (False, 0)
      | Inr (Some fileSize) \<Rightarrow> if fileSize = 0 then Inr (False, 0) else Inr (True, fileSize))"

definition s3LogFetcher :: "'s s3Reader \<Rightarrow> 's \<Rightarrow> LogFetcher" where
  "s3LogFetcher c s =
     \<lparr>RangeFetchLogs = s3_RangeFetchLogs c s, FetchLogs = s3_FetchLogs c s, LogFileExists = s3_LogFileExists c s\<rparr>"

section \<open>Serving a log\<close>

record log_reply =
  re_Status :: int
  re_Body :: string
  re_ContentRange :: "string option"

definition status_reply :: "int \<Rightarrow> string \<Rightarrow> log_reply" where
  "status_reply code body = \<lparr>re_Status = code, re_Body = body, re_ContentRange = None\<rparr>"

definition TrimPrefix :: "string \<Rightarrow> string \<Rightarrow> string" where
  "TrimPrefix s prefix = (if take (length prefix) s = prefix then drop (length prefix) s else s)"

definition logFileKey :: "int \<Rightarrow> string \<Rightarrow> string" where
  "logFileKey dagRunId podName = Itoa dagRunId @ ''/'' @ podName @ ''-log.txt''"

definition content_range :: "int \<Rightarrow> int \<Rightarrow> int \<Rightarrow> string" where
  "content_range start stop fileSize = ''bytes '' @ Itoa start @ ''-'' @ Itoa stop @ ''/'' @ Itoa fileSize"

text \<open>\<open>io.Copy\<close> to the reply: the bytes, unless reading fails.\<close>

definition copy_reply :: "int \<Rightarrow> string option \<Rightarrow> string \<Rightarrow> log_reader \<Rightarrow> log_reply" where
  "copy_reply code header failure rd =
     (case rd_error rd of
        None \<Rightarrow> \<lparr>re_Status = code, re_Body = rd_data rd, re_ContentRange = header\<rparr>
      | Some _ \<Rightarrow> \<lparr>re_Status = 500, re_Body = failure, re_ContentRange = header\<rparr>)"

text \<open>The bounds of a \<open>Range\<close> header. \<open>ParseInt\<close> in base 10 accepts what \<open>Atoi\<close> does.\<close>

definition parse_range :: "string \<Rightarrow> int \<Rightarrow> log_reply + (int \<times> int)" where
  "parse_range rangeHeader fileSize =
     (let parts = Split (CHR ''-'') (TrimPrefix rangeHeader ''bytes='')
      in case Atoi (hd parts) of
           Inl e \<Rightarrow> Inl (status_reply 400 ''Invalid range start'')
         | Inr start \<Rightarrow>
             if length parts > 1 \<and> parts ! 1 \<noteq> ''''
             then (case Atoi (parts ! 1) of
                     Inl e \<Rightarrow> Inl (status_reply 400 ''Invalid range end'') | Inr stop \<Rightarrow> Inr (start, stop))
             else Inr (start, fileSize - 1))"

definition ServeLogWithRange :: "LogFetcher \<Rightarrow> string \<Rightarrow> int \<Rightarrow> string \<Rightarrow> log_reply" where
  "ServeLogWithRange lf rangeHeader dagRunId podName =
     (case LogFileExists lf (logFileKey dagRunId podName) of
        Inl e \<Rightarrow> status_reply 500 ''unable to check if file exists''
      | Inr (exists, fileSize) \<Rightarrow>
          if \<not> exists then status_reply 204 ''file was empty or did not exist''
          else if rangeHeader \<noteq> ''''
          then (case parse_range rangeHeader fileSize of
                  Inl reply \<Rightarrow> reply
                | Inr (start, stop) \<Rightarrow>
                    if start > stop \<or> start < 0 \<or> stop \<ge> fileSize then status_reply 416 (''Invalid byte range '' @ Itoa start @ ''-'' @ Itoa stop)
                    else case RangeFetchLogs lf (logFileKey dagRunId podName) start stop of
                           Inl e \<Rightarrow> status_reply 500 ''unable to fetch file range reader''
                         | Inr rd \<Rightarrow> copy_reply 206 (Some (content_range start stop fileSize)) ''Error streaming file'' rd)
          else (case FetchLogs lf (logFileKey dagRunId podName) of
                  Inl e \<Rightarrow> status_reply 500 ''unable to fetch file reader''
                | Inr rd \<Rightarrow> copy_reply 200 None ''Error streaming full file'' rd))"

section \<open>The contract of a fetcher\<close>

text \<open>
  A fetcher reads a set of named logs: it finds every log that is not empty and reports its size, and yields the log or the bytes of a range of it.
\<close>

locale log_fetcher =
  fixes contents :: "string \<rightharpoonup> string" and lf :: LogFetcher
  assumes exists_nonempty: "contents key = Some d \<Longrightarrow> d \<noteq> '''' \<Longrightarrow> LogFileExists lf key = Inr (True, int (length d))"
    and exists_only: "LogFileExists lf key = Inr (True, n) \<Longrightarrow> \<exists>d. contents key = Some d \<and> n = int (length d)"
    and fetch: "contents key = Some d \<Longrightarrow> FetchLogs lf key = Inr \<lparr>rd_data = d, rd_error = None\<rparr>"
    and range: "contents key = Some d \<Longrightarrow> int (length d) < 2 ^ 63 \<Longrightarrow> 0 \<le> a \<Longrightarrow> a \<le> b \<Longrightarrow> b < int (length d) \<Longrightarrow>
      RangeFetchLogs lf key a b = Inr \<lparr>rd_data = take (nat (b - a + 1)) (drop (nat a) d), rd_error = None\<rparr>"
begin

lemma full_served:
  assumes "contents (logFileKey run pod) = Some d" "d \<noteq> ''''"
  shows "ServeLogWithRange lf '''' run pod = \<lparr>re_Status = 200, re_Body = d, re_ContentRange = None\<rparr>"
  using assms by (simp add: ServeLogWithRange_def exists_nonempty fetch copy_reply_def)

lemma partial_is_slice:
  assumes "re_Status (ServeLogWithRange lf header run pod) = 206" "\<And>d. contents (logFileKey run pod) = Some d \<Longrightarrow> int (length d) < 2 ^ 63"
  shows "\<exists>d a b. contents (logFileKey run pod) = Some d \<and> 0 \<le> a \<and> a \<le> b \<and> b < int (length d) \<and>
    re_Body (ServeLogWithRange lf header run pod) = take (nat (b - a + 1)) (drop (nat a) d) \<and>
    re_ContentRange (ServeLogWithRange lf header run pod) = Some (content_range a b (int (length d)))"
proof (cases "LogFileExists lf (logFileKey run pod)")
  case (Inr r)
  obtain ex n where r: "r = (ex, n)" by (cases r)
  show ?thesis
  proof (cases "ex \<and> header \<noteq> ''''")
    case True
    with Inr r have "LogFileExists lf (logFileKey run pod) = Inr (True, n)" by simp
    from exists_only [OF this] obtain d where d: "contents (logFileKey run pod) = Some d" "n = int (length d)" by blast
    show ?thesis
    proof (cases "parse_range header n")
      case (Inl reply)
      then have "re_Status reply \<noteq> 206"
        by (auto simp: parse_range_def Let_def status_reply_def split: sum.splits if_splits)
      with Inl True Inr r assms(1) show ?thesis by (simp add: ServeLogWithRange_def)
    next
      case (Inr ab)
      obtain a b where ab: "ab = (a, b)" by (cases ab)
      show ?thesis
      proof (cases "a > b \<or> a < 0 \<or> b \<ge> n")
        case False
        with d assms(2) have "RangeFetchLogs lf (logFileKey run pod) a b = Inr \<lparr>rd_data = take (nat (b - a + 1)) (drop (nat a) d), rd_error = None\<rparr>"
          by (intro range) simp_all
        with False Inr ab True \<open>LogFileExists lf _ = Inr r\<close> r d show ?thesis
          by (intro exI [of _ d] exI [of _ a] exI [of _ b]) (simp add: ServeLogWithRange_def copy_reply_def)
      qed (use Inr ab True \<open>LogFileExists lf _ = Inr r\<close> r assms(1) in \<open>simp add: ServeLogWithRange_def status_reply_def\<close>)
    qed
  next
    case False
    with Inr r assms(1) show ?thesis
      by (auto simp: ServeLogWithRange_def status_reply_def copy_reply_def split: sum.splits option.splits if_splits)
  qed
qed (use assms(1) in \<open>simp add: ServeLogWithRange_def status_reply_def\<close>)

lemma range_served:
  assumes "contents (logFileKey run pod) = Some d" "a \<le> b" "b < length d" "length d < 2 ^ 63"
  shows "ServeLogWithRange lf (''bytes='' @ FormatUint a @ ''-'' @ FormatUint b) run pod =
    \<lparr>re_Status = 206, re_Body = take (b - a + 1) (drop a d), re_ContentRange = Some (content_range (int a) (int b) (int (length d)))\<rparr>"
proof -
  have dash: "CHR ''-'' \<notin> set (FormatUint n)" for n
    using FormatUint_digits [of n] by (auto simp: list_all_iff)
  have "Split (CHR ''-'') (FormatUint a @ CHR ''-'' # FormatUint b) = [FormatUint a, FormatUint b]"
    by (simp add: Split_append [OF dash] Split_word [OF dash])
  moreover have "Atoi (FormatUint n) = Inr (int n)" if "n < 2 ^ 63" for n
    using Atoi_Itoa [of "int n"] that by (simp add: Itoa_def)
  ultimately have "parse_range (''bytes='' @ FormatUint a @ ''-'' @ FormatUint b) (int (length d)) = Inr (int a, int b)"
    using assms(2-4) by (simp add: parse_range_def TrimPrefix_def)
  moreover have "d \<noteq> ''''" using assms(3) by auto
  moreover have "RangeFetchLogs lf (logFileKey run pod) (int a) (int b) = Inr \<lparr>rd_data = take (b - a + 1) (drop a d), rd_error = None\<rparr>"
  proof -
    have "int (length d) < 2 ^ 63" using assms(4) by (metis of_nat_less_iff of_nat_numeral of_nat_power)
    moreover have "nat (int b - int a + 1) = b - a + 1" using assms(2) by linarith
    ultimately show ?thesis using range [OF assms(1), of "int a" "int b"] assms(2,3) by simp
  qed
  ultimately show ?thesis using assms(1-3) by (simp add: ServeLogWithRange_def exists_nonempty copy_reply_def)
qed

end

text \<open>The file system fetcher keeps the contract.\<close>

interpretation fs_fetcher: log_fetcher "\<lambda>key. s (basePath @ ''/'' @ key)" "fsLogFetcher basePath s" for basePath s
proof
  fix key d and a b :: int
  assume d: "s (basePath @ ''/'' @ key) = Some d" and ab: "int (length d) < 2 ^ 63" "0 \<le> a" "a \<le> b" "b < int (length d)"
  have "sint (word_of_int (b - a + 1) :: 64 word) = b - a + 1"
    unfolding sint_sbintrunc' using ab by (intro signed_take_bit_int_eq_self) simp_all
  then show "RangeFetchLogs (fsLogFetcher basePath s) key a b = Inr \<lparr>rd_data = take (nat (b - a + 1)) (drop (nat a) d), rd_error = None\<rparr>"
    using d ab by (simp add: fsLogFetcher_def fs_RangeFetchLogs_def LimitReader_def)
qed (auto simp: fsLogFetcher_def fs_LogFileExists_def fs_FetchLogs_def split: option.splits)

text \<open>So does the S3 fetcher, if the service answers from its objects as documented.\<close>

definition s3_reads :: "'s s3Reader \<Rightarrow> ('s \<Rightarrow> string \<rightharpoonup> string) \<Rightarrow> bool" where
  "s3_reads c objs \<longleftrightarrow>
     (\<forall>key s. HeadObject c key s = (case objs s key of None \<Rightarrow> Inl (Err ''NotFound'') | Some d \<Rightarrow> Inr (Some (int (length d))))) \<and>
     (\<forall>key s d. objs s key = Some d \<longrightarrow> GetObject c key None s = Inr \<lparr>rd_data = d, rd_error = None\<rparr>) \<and>
     (\<forall>key s d a b. objs s key = Some d \<longrightarrow> 0 \<le> a \<longrightarrow> a \<le> b \<longrightarrow> b < int (length d) \<longrightarrow>
        GetObject c key (Some (s3_range a b)) s = Inr \<lparr>rd_data = take (nat (b - a + 1)) (drop (nat a) d), rd_error = None\<rparr>)"

lemma s3_log_fetcher:
  assumes "s3_reads c objs"
  shows "log_fetcher (objs s) (s3LogFetcher c s)"
proof
  show "\<exists>d. objs s key = Some d \<and> n = int (length d)" if "LogFileExists (s3LogFetcher c s) key = Inr (True, n)" for key n
    using that assms by (auto simp: s3_reads_def s3LogFetcher_def s3_LogFileExists_def split: sum.splits option.splits if_splits)
qed (use assms in \<open>auto simp: s3_reads_def s3LogFetcher_def s3_LogFileExists_def s3_FetchLogs_def s3_RangeFetchLogs_def\<close>)

section \<open>From the pod to the browser\<close>

text \<open>
  Whatever \<open>Range\<close> header a client sends, a partial reply of the file system fetcher is exactly the bytes of the log that its \<open>Content-Range\<close> names, within the
  log; and every well-formed range within the log is answered so.
\<close>

theorem range_reply_is_slice:
  assumes "\<And>d. s (basePath @ ''/'' @ logFileKey run pod) = Some d \<Longrightarrow> length d < 2 ^ 63"
  shows "(re_Status (ServeLogWithRange (fsLogFetcher basePath s) header run pod) = 206 \<longrightarrow>
      (\<exists>d a b. s (basePath @ ''/'' @ logFileKey run pod) = Some d \<and> 0 \<le> a \<and> a \<le> b \<and> b < int (length d) \<and>
         re_Body (ServeLogWithRange (fsLogFetcher basePath s) header run pod) = take (nat (b - a + 1)) (drop (nat a) d) \<and>
         re_ContentRange (ServeLogWithRange (fsLogFetcher basePath s) header run pod) = Some (content_range a b (int (length d))))) \<and>
    (s (basePath @ ''/'' @ logFileKey run pod) = Some log \<longrightarrow> i \<le> j \<longrightarrow> j < length log \<longrightarrow>
      re_Body (ServeLogWithRange (fsLogFetcher basePath s) (''bytes='' @ FormatUint i @ ''-'' @ FormatUint j) run pod) = take (j - i + 1) (drop i log))"
proof -
  have len: "int (length d) < 2 ^ 63" if "s (basePath @ ''/'' @ logFileKey run pod) = Some d" for d
    using assms [OF that] by (metis of_nat_less_iff of_nat_numeral of_nat_power)
  show ?thesis
    using fs_fetcher.partial_is_slice [of basePath s header run pod] len fs_fetcher.range_served [of s basePath run pod log i j] assms by auto
qed

lemma key_paths: "log_path baseDir run pod = baseDir @ [CHR ''/''] @ logFileKey run (pod_UID pod)" "s3_object_key run pod = logFileKey run (pod_UID pod)"
  by (simp_all add: log_path_def log_dir_def logFileKey_def s3_object_key_def)

text \<open>
  The log of a pod reaches the user through the file system: when the worker has copied the stream of a pod's log without an error, to its end, the API
  server on the same base directory serves exactly the bytes of the stream for that run and pod.
\<close>

theorem fs_log_served:
  assumes "fs_UploadLogs kb io baseDir n run cancelled opens pod s k = (None, s', k')" "st_end st = StreamEOF" "stream_data st \<noteq> []"
    and "open_loop fs_gone cancelled opens 0 (nat (if n \<le> 0 then 3 else n)) = Opened st"
  shows "ServeLogWithRange (fsLogFetcher baseDir s') [] run (pod_UID pod) = \<lparr>re_Status = 200, re_Body = stream_data st, re_ContentRange = None\<rparr>"
proof -
  have "s' (log_path baseDir run pod) = Some (stream_data st)"
    using assms by (auto simp: fs_UploadLogs_def fs_uploadLogsWithGetter_def Let_def defaultStreamRetryCount_def fs_copy_def split: if_splits option.splits)
  then show ?thesis using assms(3) by (intro fs_fetcher.full_served) (simp_all add: key_paths)
qed

text \<open>
  (C30) The log of a pod reaches the user through S3: when the worker has uploaded the stream of a pod's log without an error, in whatever parts, the API
  server on the same bucket serves exactly the bytes of the stream for that run and pod.
\<close>

theorem s3_log_served:
  assumes "s3_spec c objs pend" "s3_reads r objs" "0 \<le> minPartSize" "s3_UploadLogs kb c minPartSize n run opens pod s k = (None, s', k')"
    and "sp_Containers (pod_Spec pod) \<noteq> []" "st_end st = StreamEOF" "stream_data st \<noteq> []"
    and "open_loop s3_gone (\<lambda>_. False) opens 0 (nat (if n = 0 then 3 else n)) = Opened st"
  shows "ServeLogWithRange (s3LogFetcher r s') [] run (pod_UID pod) = \<lparr>re_Status = 200, re_Body = stream_data st, re_ContentRange = None\<rparr>"
proof -
  obtain b where m: "s3_multipart c (min_part minPartSize) (s3_object_key run pod) st s = (None, b, s')"
    using assms(4,5,8) by (auto simp: s3_UploadLogs_def s3_uploadLogsWithGetter_def defaultStreamRetryCount_def Let_def split: prod.splits if_splits)
  have b
  proof (rule ccontr)
    assume "\<not> b"
    with m show False
      by (auto simp: s3_multipart_def finish_upload_def uploadPart_def split: prod.splits sum.splits if_splits bool.splits)
  qed
  with m have "s3_multipart c (min_part minPartSize) (s3_object_key run pod) st s = (None, True, s')" by simp
  from s3_multipart_stores [OF assms(1) min_part_pos [OF assms(3)] this] assms(6,7)
  have "objs s' (s3_object_key run pod) = Some (stream_data st)" by simp
  then show ?thesis using log_fetcher.full_served [OF s3_log_fetcher [OF assms(2)]] assms(7) by (simp add: key_paths)
qed

section \<open>Witnesses\<close>

text \<open>A reader of the example bucket.\<close>

definition ex_slice :: "string \<Rightarrow> string \<Rightarrow> string" where
  "ex_slice h d = (case Split (CHR ''-'') (drop 6 h) of [a, b] \<Rightarrow> take (decimal b - decimal a + 1) (drop (decimal a) d) | _ \<Rightarrow> d)"

definition ex_reader :: "bucket s3Reader" where
  "ex_reader =
     \<lparr>HeadObject = \<lambda>key s. case map_of (fst s) key of None \<Rightarrow> Inl (Err ''NotFound'') | Some d \<Rightarrow> Inr (Some (int (length d))),
      GetObject = \<lambda>key r s. case map_of (fst s) key of
        None \<Rightarrow> Inl (Err ''NoSuchKey'')
      | Some d \<Rightarrow> Inr \<lparr>rd_data = (case r of None \<Rightarrow> d | Some h \<Rightarrow> ex_slice h d), rd_error = None\<rparr>\<rparr>"

lemma ex_slice_range:
  assumes "0 \<le> a" "a \<le> b"
  shows "ex_slice (s3_range a b) d = take (nat (b - a + 1)) (drop (nat a) d)"
proof -
  have dash: "CHR ''-'' \<notin> set (FormatUint n)" for n
    using FormatUint_digits [of n] by (auto simp: list_all_iff)
  have "Split (CHR ''-'') (drop 6 (s3_range a b)) = [FormatUint (nat a), FormatUint (nat b)]"
    using assms by (simp add: s3_range_def Itoa_def Split_append [OF dash] Split_word [OF dash])
  moreover have "nat (b - a + 1) = nat b - nat a + 1" using assms by linarith
  ultimately show ?thesis by (simp add: ex_slice_def)
qed

lemma ex_reads: "s3_reads ex_reader (map_of \<circ> fst)"
  by (simp add: s3_reads_def ex_reader_def ex_slice_range)

theorem range_reply_is_slice_witness:
  "re_Body (ServeLogWithRange (fsLogFetcher ''/logs'' [''/logs/7/u1-log.txt'' \<mapsto> ''abcd'']) (''bytes='' @ FormatUint 1 @ ''-'' @ FormatUint 2) 7 ''u1'') = ''bc''"
proof -
  have "logFileKey 7 ''u1'' = ''7/u1-log.txt''" by code_simp
  with range_reply_is_slice [of "[''/logs/7/u1-log.txt'' \<mapsto> ''abcd'']" "''/logs''" 7 "''u1''" "[]" "''abcd''" 1 2] show ?thesis by simp
qed

theorem fs_log_served_witness:
  "re_Body (ServeLogWithRange (fsLogFetcher ''/logs'' (fst (snd (fs_UploadLogs ex_kube \<lparr>fs_mkdir = None, fs_create = None, fs_flush = None, fs_written = 0\<rparr> ''/logs'' 0 7
     (\<lambda>_. False) (\<lambda>_. Inr ex_stream) ex_log_pod Map.empty ([ex_log_pod], []))))) '''' 7 ''u1'') = ''abcd''"
proof -
  let ?u = "fs_UploadLogs ex_kube \<lparr>fs_mkdir = None, fs_create = None, fs_flush = None, fs_written = 0\<rparr> ''/logs'' 0 7
     (\<lambda>_. False) (\<lambda>_. Inr ex_stream) ex_log_pod Map.empty ([ex_log_pod], [])"
  have "fst ?u = None"
    by (simp add: fs_UploadLogs_def fs_uploadLogsWithGetter_def ex_log_pod_simps defaultStreamRetryCount_def ex_opened [simplified] fs_copy_def ex_stream_data Let_def)
  then have "?u = (None, fst (snd ?u), snd (snd ?u))" by (metis prod.collapse)
  from fs_log_served [OF this, of ex_stream] show ?thesis by (simp add: ex_opened [simplified] ex_stream_data ex_log_pod_simps)
qed

theorem s3_log_served_witness:
  "re_Body (ServeLogWithRange (s3LogFetcher ex_reader (fst (snd (s3_UploadLogs ex_kube ex_s3 2 0 7 (\<lambda>_. Inr ex_stream) ex_log_pod ([], Map.empty) ([ex_log_pod], []))))) '''' 7 ''u1'') = ''abcd''"
proof -
  let ?u = "s3_UploadLogs ex_kube ex_s3 2 0 7 (\<lambda>_. Inr ex_stream) ex_log_pod ([], Map.empty) ([ex_log_pod], [])"
  have "fst ?u = None"
    by (simp add: s3_UploadLogs_def s3_uploadLogsWithGetter_def ex_log_pod_simps defaultStreamRetryCount_def ex_opened [simplified]
        s3_multipart_def min_part_def ex_s3_def ex_stream_def take_chunk_def uploadPart_def finish_upload_def)
  then have u: "?u = (None, fst (snd ?u), snd (snd ?u))" by (metis prod.collapse)
  show ?thesis using s3_log_served [OF ex_s3_spec ex_reads _ u ex_log_pod_simps(5), of ex_stream] by (simp add: ex_opened [simplified] ex_stream_data ex_log_pod_simps)
qed

end
