(* ===== verification/Server_Rest.thy ===== *)
theory Server_Rest
  imports Server_Client Server_Sessions Server_Logs
begin

text \<open>
  The REST server (\<open>internal/server/rest\<close>): the middlewares in front of the routes, the checks of new credentials, and the handler of every route over the
  managers of accounts and of the database, the client of the cluster and the log fetcher. The router of the web framework is not modelled: a request comes with
  the route it has matched. A handler that panics is \<open>None\<close>.
\<close>

section \<open>Roles\<close>

definition roleHierarchy :: "(string, int) gomap" where
  "roleHierarchy = [(''admin'', 3), (''editor'', 2), (''viewer'', 1)]"

definition isRoleGreaterOrEqual :: "string \<Rightarrow> string \<Rightarrow> bool" where
  "isRoleGreaterOrEqual userRole requiredRole =
     (case (map_of roleHierarchy userRole, map_of roleHierarchy requiredRole) of
        (Some userRank, Some requiredRank) \<Rightarrow> requiredRank \<le> userRank
      | _ \<Rightarrow> False)"

section \<open>Credentials of new accounts\<close>

text \<open>
  A \<open>range\<close> loop over a string decodes its bytes as UTF-8; a byte that starts no valid sequence is the replacement character. The classes of characters
  beyond ASCII are tables of the \<open>unicode\<close> package and a parameter.
\<close>

definition utf8_len :: "nat \<Rightarrow> nat \<Rightarrow> nat" where
  "utf8_len b c =
     (if 194 \<le> b \<and> b \<le> 223 \<and> 128 \<le> c \<and> c \<le> 191 then 2
      else if (b = 224 \<and> 160 \<le> c \<or> (225 \<le> b \<and> b \<le> 236 \<or> b = 238 \<or> b = 239) \<and> 128 \<le> c) \<and> c \<le> 191 \<or> b = 237 \<and> 128 \<le> c \<and> c \<le> 159 then 3
      else if (b = 240 \<and> 144 \<le> c \<or> 241 \<le> b \<and> b \<le> 243 \<and> 128 \<le> c) \<and> c \<le> 191 \<or> b = 244 \<and> 128 \<le> c \<and> c \<le> 143 then 4
      else 1)"

definition is_cont :: "nat \<Rightarrow> bool" where
  "is_cont c \<longleftrightarrow> 128 \<le> c \<and> c \<le> 191"

fun runes :: "nat list \<Rightarrow> nat list" where
  "runes [] = []"
| "runes [b] = [if b < 128 then b else 65533]"
| "runes (b # c # rest) =
     (if b < 128 then b # runes (c # rest)
      else if utf8_len b c = 2 then ((b mod 32) * 64 + c mod 64) # runes rest
      else if utf8_len b c = 3 \<and> rest \<noteq> [] \<and> is_cont (hd rest)
        then ((b mod 16) * 4096 + (c mod 64) * 64 + hd rest mod 64) # runes (tl rest)
      else if utf8_len b c = 4 \<and> 1 < length rest \<and> is_cont (hd rest) \<and> is_cont (hd (tl rest))
        then ((b mod 8) * 262144 + (c mod 64) * 4096 + (hd rest mod 64) * 64 + hd (tl rest) mod 64) # runes (tl (tl rest))
      else 65533 # runes (c # rest))"

definition go_bytes :: "string \<Rightarrow> nat list" where
  "go_bytes s = map of_char s"

record unicode =
  un_letter :: "nat \<Rightarrow> bool"
  un_number :: "nat \<Rightarrow> bool"

definition IsLetter :: "unicode \<Rightarrow> nat \<Rightarrow> bool" where
  "IsLetter u r = (if r < 128 then 65 \<le> r \<and> r \<le> 90 \<or> 97 \<le> r \<and> r \<le> 122 else un_letter u r)"

definition IsNumber :: "unicode \<Rightarrow> nat \<Rightarrow> bool" where
  "IsNumber u r = (if r < 128 then 48 \<le> r \<and> r \<le> 57 else un_number u r)"

definition ValidateCredentials :: "unicode \<Rightarrow> CreateAccountReq \<Rightarrow> check" where
  "ValidateCredentials u req =
     (let user = cq_Username req; pass = cq_Password req; alnum = (\<lambda>r. IsLetter u r \<or> IsNumber u r)
      in if length user < 3 \<or> 100 < length user then Some (Err ''username must be between 3 and 100 characters long'')
         else if \<not> IsLetter u (hd (go_bytes user)) then Some (Err ''username must start with a letter'')
         else if \<not> list_all alnum (runes (go_bytes user)) then Some (Err ''username must use only letter or number characters'')
         else if length pass < 8 then Some (Err ''password must be at least 8 characters long'')
         else if \<not> list_all alnum (runes (go_bytes pass)) then Some (Err ''password must use only letter or number characters'')
         else if \<not> list_ex (IsLetter u) (runes (go_bytes pass)) then Some (Err ''password must contain at least one letter'')
         else if cq_Role req \<notin> {''admin'', ''editor'', ''viewer''} then Some (Err ''role must be either admin, editor, or viewer'')
         else None)"

section \<open>Routes\<close>

text \<open>One constructor for each route, with its path parameters as texts.\<close>

datatype endpoint =
    DagSuspend | DagNames | DagParameters | DagMeta string | DagPagesCount | DagRunsPage string | DagRunById string | DagDelete string string
  | DagRunAllById string | DagRunTask string string | DagTaskById string | DagTaskPage string | DagTaskPagesCount | DagCreate | DagRunPagesCount
  | DagRunCreate | DagRunRemove | StatsDashboard | AuthLogin | AuthCreate | AuthPasswordChange | AuthLogout | AuthCheck | AuthUsersPage string
  | AuthUsersPagesCount | AuthDeleteUser string | LogsOfPod string string

fun required_role :: "endpoint \<Rightarrow> string option" where
  "required_role DagSuspend = Some ''editor''"
| "required_role (DagDelete namespace name) = Some ''editor''"
| "required_role DagCreate = Some ''editor''"
| "required_role DagRunCreate = Some ''editor''"
| "required_role DagRunRemove = Some ''editor''"
| "required_role AuthCreate = Some ''admin''"
| "required_role (AuthDeleteUser user) = Some ''admin''"
| "required_role AuthLogin = None"
| "required_role AuthPasswordChange = None"
| "required_role AuthLogout = None"
| "required_role AuthCheck = None"
| "required_role _ = Some ''viewer''"

fun route_path :: "endpoint \<Rightarrow> string" where
  "route_path DagSuspend = ''/api/v1/dag/suspend''"
| "route_path DagNames = ''/api/v1/dag/names''"
| "route_path DagParameters = ''/api/v1/dag/parameters''"
| "route_path (DagMeta page) = ''/api/v1/dag/meta/'' @ page"
| "route_path DagPagesCount = ''/api/v1/dag/pages/count''"
| "route_path (DagRunsPage page) = ''/api/v1/dag/runs/'' @ page"
| "route_path (DagRunById i) = ''/api/v1/dag/run/'' @ i"
| "route_path (DagDelete namespace name) = ''/api/v1/dag/dag/'' @ namespace @ ''/'' @ name"
| "route_path (DagRunAllById i) = ''/api/v1/dag/run/all/'' @ i"
| "route_path (DagRunTask runId taskId) = ''/api/v1/dag/run/task/'' @ runId @ ''/'' @ taskId"
| "route_path (DagTaskById taskId) = ''/api/v1/dag/task/'' @ taskId"
| "route_path (DagTaskPage page) = ''/api/v1/dag/dagTask/pages/page/'' @ page"
| "route_path DagTaskPagesCount = ''/api/v1/dag/dagTask/pages/count''"
| "route_path DagCreate = ''/api/v1/dag/create''"
| "route_path DagRunPagesCount = ''/api/v1/dag/run/pages/count''"
| "route_path DagRunCreate = ''/api/v1/dag/run/create''"
| "route_path DagRunRemove = ''/api/v1/dag/run/remove''"
| "route_path StatsDashboard = ''/api/v1/stats/dashboard''"
| "route_path AuthLogin = ''/api/v1/auth/login''"
| "route_path AuthCreate = ''/api/v1/auth/create''"
| "route_path AuthPasswordChange = ''/api/v1/auth/password/change''"
| "route_path AuthLogout = ''/api/v1/auth/logout''"
| "route_path AuthCheck = ''/api/v1/auth/check''"
| "route_path (AuthUsersPage page) = ''/api/v1/auth/users/page/'' @ page"
| "route_path AuthUsersPagesCount = ''/api/v1/auth/users/pages/count''"
| "route_path (AuthDeleteUser user) = ''/api/v1/auth/users/'' @ user"
| "route_path (LogsOfPod run pod) = ''/api/v1/logs/run/'' @ run @ ''/pod/'' @ pod"

definition HasSuffix :: "string \<Rightarrow> string \<Rightarrow> bool" where
  "HasSuffix s suffix \<longleftrightarrow> length suffix \<le> length s \<and> drop (length s - length suffix) s = suffix"

text \<open>The paths the authentication lets pass.\<close>

definition open_path :: "string \<Rightarrow> bool" where
  "open_path path \<longleftrightarrow> HasSuffix path ''/login'' \<or> HasSuffix path ''/check''"

section \<open>Requests and replies\<close>

text \<open>A request that has reached its route. The body is what \<open>BodyParser\<close> makes of it.\<close>

record request =
  rq_Path :: string
  rq_Endpoint :: endpoint
  rq_Cookie :: string
  rq_Query :: "string \<Rightarrow> string"
  rq_Range :: string
  rq_Suspend :: "DagSuspendForm result"
  rq_DagForm :: "DagFormObj result"
  rq_RunForm :: "DagRunForm result"
  rq_Credentials :: "Credentials result"
  rq_Account :: "CreateAccountReq result"
  rq_Change :: "ChangeCredentials result"

datatype payload =
    NoBody | Message string | Names "string list" | Parameters "DBParameter list" | Metas "DBDAGMetaData list" | Count int
  | Runs "DBDagRunMeta list" | RunView DBDagRun | RunAll DBDagRunAll | TaskRunView DBTaskRunDetails | TaskView DBTaskDetails
  | TaskViews "DBDagTaskDetails list" | RunId nat | Stats DBDashboardStats | RoleIs string | WhoAmI string string | Users "User list" | LogReply log_reply

record reply =
  ry_Status :: int
  ry_Payload :: payload
  ry_Cookie :: "string option"

definition json_reply :: "int \<Rightarrow> payload \<Rightarrow> reply" where
  "json_reply code body = \<lparr>ry_Status = code, ry_Payload = body, ry_Cookie = None\<rparr>"

definition SendStatus :: "int \<Rightarrow> reply" where
  "SendStatus code = json_reply code NoBody"

text \<open>The server's parts, what the outside world answers during a request, and the state.\<close>

record 'k server =
  sv_auth :: auth_manager
  sv_lib :: auth_lib
  sv_db :: db_manager
  sv_client :: "'k dynClient"
  sv_json :: "string \<Rightarrow> string + PodTemplateSpec"
  sv_unicode :: unicode
  sv_logs :: "LogFetcher option"

record env =
  en_now :: int
  en_newId :: string
  en_jti :: string
  en_events :: "wait_event list"
  en_answers :: "int \<Rightarrow> DagRun kresult list"

record 'k state =
  ss_auth :: auth_db
  ss_db :: db
  ss_kube :: 'k

record locals =
  lo_token :: string
  lo_username :: string
  lo_role :: string

text \<open>A handler answers and changes the state, or panics, which is \<open>None\<close>.\<close>

type_synonym 'k handled = "reply option \<times> 'k state"

section \<open>The database interface of the server\<close>

fun dm_GetAllDagMetaData :: "db_manager \<Rightarrow> int \<Rightarrow> int \<Rightarrow> db \<Rightarrow> DBDAGMetaData list result" where
  "dm_GetAllDagMetaData (SqliteManager tz) = ss_GetAllDagMetaData"
| "dm_GetAllDagMetaData PostgresManager = sg_GetAllDagMetaData"

fun dm_GetDagRuns :: "db_manager \<Rightarrow> int \<Rightarrow> int \<Rightarrow> db \<Rightarrow> DBDagRunMeta list result" where
  "dm_GetDagRuns (SqliteManager tz) = ss_GetDagRuns"
| "dm_GetDagRuns PostgresManager = sg_GetDagRuns"

fun dm_GetDagRun :: "db_manager \<Rightarrow> int \<Rightarrow> db \<Rightarrow> DBDagRun result" where
  "dm_GetDagRun (SqliteManager tz) = ss_GetDagRun"
| "dm_GetDagRun PostgresManager = sg_GetDagRun"

fun dm_GetDagRunAll :: "db_manager \<Rightarrow> int \<Rightarrow> db \<Rightarrow> DBDagRunAll result" where
  "dm_GetDagRunAll (SqliteManager tz) = ss_GetDagRunAll"
| "dm_GetDagRunAll PostgresManager = sg_GetDagRunAll"

fun dm_GetTaskDetails :: "db_manager \<Rightarrow> int \<Rightarrow> db \<Rightarrow> DBTaskDetails result" where
  "dm_GetTaskDetails (SqliteManager tz) = ss_GetTaskDetails"
| "dm_GetTaskDetails PostgresManager = sg_GetTaskDetails"

fun dm_GetTaskRunDetails :: "db_manager \<Rightarrow> int \<Rightarrow> int \<Rightarrow> db \<Rightarrow> DBTaskRunDetails result" where
  "dm_GetTaskRunDetails (SqliteManager tz) = ss_GetTaskRunDetails"
| "dm_GetTaskRunDetails PostgresManager = sg_GetTaskRunDetails"

fun dm_GetDashboardStats :: "db_manager \<Rightarrow> int \<Rightarrow> db \<Rightarrow> DBDashboardStats result" where
  "dm_GetDashboardStats (SqliteManager tz) = ss_GetDashboardStats tz"
| "dm_GetDashboardStats PostgresManager = sg_GetDashboardStats"

fun dm_GetDagRunPageCount :: "db_manager \<Rightarrow> int \<Rightarrow> db \<Rightarrow> int option" where
  "dm_GetDagRunPageCount (SqliteManager tz) = ss_GetDagRunPageCount"
| "dm_GetDagRunPageCount PostgresManager = sg_GetDagRunPageCount"

fun dm_GetDagPageCount :: "db_manager \<Rightarrow> int \<Rightarrow> db \<Rightarrow> int option" where
  "dm_GetDagPageCount (SqliteManager tz) = ss_GetDagPageCount"
| "dm_GetDagPageCount PostgresManager = sg_GetDagPageCount"

fun dm_GetDagNames :: "db_manager \<Rightarrow> string \<Rightarrow> int \<Rightarrow> db \<Rightarrow> string list result" where
  "dm_GetDagNames (SqliteManager tz) = ss_GetDagNames"
| "dm_GetDagNames PostgresManager = sg_GetDagNames"

fun dm_GetDagParameters :: "db_manager \<Rightarrow> string \<Rightarrow> db \<Rightarrow> DBParameter list result" where
  "dm_GetDagParameters (SqliteManager tz) = ss_GetDagParameters"
| "dm_GetDagParameters PostgresManager = sg_GetDagParameters"

fun dm_GetIsSecrets :: "db_manager \<Rightarrow> string \<Rightarrow> string list \<Rightarrow> db \<Rightarrow> (string, bool) gomap result" where
  "dm_GetIsSecrets (SqliteManager tz) = ss_GetIsSecrets"
| "dm_GetIsSecrets PostgresManager = sg_GetIsSecrets"

fun dm_GetDagTasks :: "db_manager \<Rightarrow> int \<Rightarrow> int \<Rightarrow> db \<Rightarrow> DBDagTaskDetails list result" where
  "dm_GetDagTasks (SqliteManager tz) = ss_GetDagTasks"
| "dm_GetDagTasks PostgresManager = sg_GetDagTasks"

fun dm_GetDagTaskPageCount :: "db_manager \<Rightarrow> int \<Rightarrow> db \<Rightarrow> int result" where
  "dm_GetDagTaskPageCount (SqliteManager tz) = ss_GetDagTaskPageCount"
| "dm_GetDagTaskPageCount PostgresManager = sg_GetDagTaskPageCount"

fun dm_PodExists :: "db_manager \<Rightarrow> string \<Rightarrow> db \<Rightarrow> bool result" where
  "dm_PodExists (SqliteManager tz) = ss_PodExists"
| "dm_PodExists PostgresManager = sg_PodExists"

section \<open>Handlers of DAGs and runs\<close>

text \<open>A query answered with status 200, or 500 on an error; a page count panics on a division by zero.\<close>

definition answer :: "('a \<Rightarrow> payload) \<Rightarrow> 'a result \<Rightarrow> reply option" where
  "answer view r = Some (case r of Inl e \<Rightarrow> SendStatus 500 | Inr x \<Rightarrow> json_reply 200 (view x))"

definition answer_count :: "int option \<Rightarrow> reply option" where
  "answer_count r = (case r of None \<Rightarrow> None | Some n \<Rightarrow> Some (json_reply 200 (Count n)))"

definition with_int :: "string \<Rightarrow> (int \<Rightarrow> reply option) \<Rightarrow> reply option" where
  "with_int text f = (case Atoi text of Inl e \<Rightarrow> Some (SendStatus 400) | Inr n \<Rightarrow> f n)"

text \<open>Pages count from one; the offset is a 64-bit product.\<close>

definition with_page :: "string \<Rightarrow> (int \<Rightarrow> reply option) \<Rightarrow> reply option" where
  "with_page text f =
     with_int text (\<lambda>page. if page < 1 then Some (SendStatus 400) else f (sint (word_of_int ((page - 1) * 10) :: 64 word)))"

definition bad_json :: reply where
  "bad_json = json_reply 400 (Message ''cannot parse JSON'')"

definition h_suspend :: "'k server \<Rightarrow> request \<Rightarrow> 'k \<Rightarrow> reply \<times> 'k" where
  "h_suspend sv rq k =
     (case rq_Suspend rq of
        Inl e \<Rightarrow> (bad_json, k)
      | Inr req \<Rightarrow>
          (case SuspendDag (sv_client sv) req k of
             (Inl e, k') \<Rightarrow> (json_reply 500 (Message (''Failed to suspend DAG: '' @ ke_Message e)), k')
           | (Inr _, k') \<Rightarrow> (json_reply 201 (Message ''DAG suspended successfully''), k')))"

definition h_names :: "'k server \<Rightarrow> request \<Rightarrow> db \<Rightarrow> reply option" where
  "h_names sv rq s =
     (let searched = rq_Query rq ''term''
      in if searched = '''' then Some (SendStatus 400) else answer Names (dm_GetDagNames (sv_db sv) searched 10 s))"

definition h_parameters :: "'k server \<Rightarrow> request \<Rightarrow> db \<Rightarrow> reply option" where
  "h_parameters sv rq s =
     (let name = rq_Query rq ''name''
      in if name = '''' then Some (SendStatus 400) else answer Parameters (dm_GetDagParameters (sv_db sv) name s))"

definition h_meta :: "'k server \<Rightarrow> string \<Rightarrow> db \<Rightarrow> reply option" where
  "h_meta sv page s = with_page page (\<lambda>offset. answer Metas (dm_GetAllDagMetaData (sv_db sv) 10 offset s))"

definition h_runs :: "'k server \<Rightarrow> string \<Rightarrow> db \<Rightarrow> reply option" where
  "h_runs sv page s = with_page page (\<lambda>offset. answer Runs (dm_GetDagRuns (sv_db sv) 10 offset s))"

definition h_run :: "'k server \<Rightarrow> string \<Rightarrow> db \<Rightarrow> reply option" where
  "h_run sv i s = with_int i (\<lambda>n. answer RunView (dm_GetDagRun (sv_db sv) n s))"

definition h_run_all :: "'k server \<Rightarrow> string \<Rightarrow> db \<Rightarrow> reply option" where
  "h_run_all sv i s = with_int i (\<lambda>n. answer RunAll (dm_GetDagRunAll (sv_db sv) n s))"

definition h_run_task :: "'k server \<Rightarrow> string \<Rightarrow> string \<Rightarrow> db \<Rightarrow> reply option" where
  "h_run_task sv runId taskId s = with_int runId (\<lambda>r. with_int taskId (\<lambda>t. answer TaskRunView (dm_GetTaskRunDetails (sv_db sv) r t s)))"

definition h_task :: "'k server \<Rightarrow> string \<Rightarrow> db \<Rightarrow> reply option" where
  "h_task sv taskId s = with_int taskId (\<lambda>t. answer TaskView (dm_GetTaskDetails (sv_db sv) t s))"

definition h_dagtasks :: "'k server \<Rightarrow> string \<Rightarrow> db \<Rightarrow> reply" where
  "h_dagtasks sv text s =
     (case Atoi text of
        Inl e \<Rightarrow> json_reply 400 (Message ''Invalid page number format'')
      | Inr page \<Rightarrow>
          if page < 1 then json_reply 400 (Message ''Page number must be greater than 0'')
          else case dm_GetDagTasks (sv_db sv) 10 (sint (word_of_int ((page - 1) * 10) :: 64 word)) s of
                 Inl e \<Rightarrow> json_reply 500 (Message ''Failed to retrieve DAG tasks'')
               | Inr ts \<Rightarrow> json_reply 200 (TaskViews ts))"

text \<open>The reply to a failed deletion depends on the text of the error. \<open>%q\<close> quotes a name.\<close>

definition quote_name :: "string \<Rightarrow> string" where
  "quote_name s = CHR 34 # s @ [CHR 34]"

definition h_delete_dag :: "'k server \<Rightarrow> string \<Rightarrow> string \<Rightarrow> 'k \<Rightarrow> reply \<times> 'k" where
  "h_delete_dag sv namespace name k =
     (if namespace = '''' \<or> name = '''' then (json_reply 400 (Message ''namespace and name are required''), k)
      else case DeleteDAG_resource (sv_client sv) namespace name k of
             (Inr _, k') \<Rightarrow> (SendStatus 202, k')
           | (Inl e, k') \<Rightarrow>
               (if contains (ke_Message e) ''permission denied'' then json_reply 403 (Message ''You don't have permission to delete this DAG'')
                else if contains (ke_Message e) ''not found'' then json_reply 404 (Message (''DAG '' @ quote_name name @ '' not found in namespace '' @ quote_name namespace))
                else if contains (ke_Message e) ''conflict'' then json_reply 409 (Message ''The DAG has been modified, please try again'')
                else json_reply 500 (Message ''Failed to delete DAG''), k'))"

definition h_create_dag :: "'k server \<Rightarrow> env \<Rightarrow> request \<Rightarrow> 'k \<Rightarrow> reply \<times> 'k" where
  "h_create_dag sv en rq k =
     (case rq_DagForm rq of
        Inl e \<Rightarrow> (bad_json, k)
      | Inr form \<Rightarrow>
          (case CreateDAG (sv_json sv) (sv_client sv) (en_events en) form k of
             (Some e, k') \<Rightarrow> (json_reply 500 (Message (''Failed to create DAG: '' @ go_text e)), k')
           | (None, k') \<Rightarrow> (json_reply 201 (Message ''DAG created successfully''), k')))"

definition h_create_run :: "'k server \<Rightarrow> env \<Rightarrow> request \<Rightarrow> db \<Rightarrow> 'k \<Rightarrow> reply \<times> 'k" where
  "h_create_run sv en rq s k =
     (case rq_RunForm rq of
        Inl e \<Rightarrow> (bad_json, k)
      | Inr form \<Rightarrow>
          (case dm_GetIsSecrets (sv_db sv) (rf_Name form) (map fst (rf_Parameters form)) s of
             Inl e \<Rightarrow> (SendStatus 400, k)
           | Inr isSecretMap \<Rightarrow>
               (case CreateDagRun (sv_client sv) (en_answers en) form isSecretMap (rf_Namespace form) None k of
                  (Inl e, k') \<Rightarrow> (json_reply 500 (Message (''Failed to create DagRun: '' @ go_text e)), k')
                | (Inr runId, k') \<Rightarrow> (json_reply 201 (RunId runId), k'))))"

definition h_remove_run :: "'k server \<Rightarrow> request \<Rightarrow> 'k \<Rightarrow> reply \<times> 'k" where
  "h_remove_run sv rq k =
     (let runName = rq_Query rq ''run''; namespace = rq_Query rq ''namespace''
      in if runName = '''' \<or> namespace = '''' then (json_reply 400 (Message ''run name and namespace are required''), k)
         else case DeleteDagRun_resource (sv_client sv) namespace runName k of
                (Inr _, k') \<Rightarrow> (SendStatus 202, k')
              | (Inl e, k') \<Rightarrow>
                  (if contains (ke_Message e) ''not found'' then json_reply 404 (Message (''DagRun '' @ quote_name runName @ '' not found in namespace '' @ quote_name namespace))
                   else json_reply 500 (Message ''Failed to delete DagRun''), k'))"

section \<open>Handlers of accounts and logs\<close>

definition h_login :: "'k server \<Rightarrow> env \<Rightarrow> request \<Rightarrow> auth_db \<Rightarrow> reply \<times> auth_db" where
  "h_login sv en rq a =
     (case rq_Credentials rq of
        Inl e \<Rightarrow> (json_reply 400 (Message (go_text e)), a)
      | Inr req \<Rightarrow>
          (case au_Login (sv_auth sv) (sv_lib sv) (en_jti en) (en_now en) req a of
             (Inl e, a') \<Rightarrow> (SendStatus 500, a')
           | (Inr (token, role), a') \<Rightarrow>
               if token = '''' then (SendStatus 401, a')
               else (\<lparr>ry_Status = 200, ry_Payload = RoleIs role, ry_Cookie = Some token\<rparr>, a')))"

definition h_create_account :: "'k server \<Rightarrow> env \<Rightarrow> request \<Rightarrow> auth_db \<Rightarrow> reply \<times> auth_db" where
  "h_create_account sv en rq a =
     (case rq_Account rq of
        Inl e \<Rightarrow> (json_reply 400 (Message (go_text e)), a)
      | Inr req \<Rightarrow>
          (case ValidateCredentials (sv_unicode sv) req of
             Some e \<Rightarrow> (json_reply 400 (Message (go_text e)), a)
           | None \<Rightarrow>
               (case au_CreateAccount (sv_auth sv) (sv_lib sv) (en_newId en) (en_now en) req a of
                  (Inl e, a') \<Rightarrow> (SendStatus 500, a') | (Inr _, a') \<Rightarrow> (SendStatus 201, a'))))"

text \<open>The type assertions on the locals panic when the authentication has not set them.\<close>

definition h_change_password :: "'k server \<Rightarrow> request \<Rightarrow> locals option \<Rightarrow> auth_db \<Rightarrow> reply option \<times> auth_db" where
  "h_change_password sv rq lo a =
     (case rq_Change rq of
        Inl e \<Rightarrow> (Some (json_reply 400 (Message (go_text e))), a)
      | Inr req \<Rightarrow>
          (case lo of
             None \<Rightarrow> (None, a)
           | Some l \<Rightarrow>
               (case au_ChangePassword (sv_auth sv) (sv_lib sv) (lo_username l) req a of
                  (Inl e, a') \<Rightarrow> (Some (SendStatus 500), a') | (Inr _, a') \<Rightarrow> (Some (SendStatus 201), a'))))"

definition h_logout :: "'k server \<Rightarrow> locals option \<Rightarrow> auth_db \<Rightarrow> reply option \<times> auth_db" where
  "h_logout sv lo a =
     (case lo of
        None \<Rightarrow> (None, a)
      | Some l \<Rightarrow>
          (case au_RevokeToken (sv_auth sv) (lo_token l) a of
             (Inl e, a') \<Rightarrow> (Some (SendStatus 500), a') | (Inr _, a') \<Rightarrow> (Some (SendStatus 202), a')))"

definition h_check :: "'k server \<Rightarrow> env \<Rightarrow> request \<Rightarrow> auth_db \<Rightarrow> reply" where
  "h_check sv en rq a =
     (if rq_Cookie rq = '''' then SendStatus 401
      else case au_IsValidLogin (sv_auth sv) (sv_lib sv) (en_now en) (rq_Cookie rq) a of
             Inl e \<Rightarrow> SendStatus 401 | Inr (username, role) \<Rightarrow> json_reply 200 (WhoAmI username role))"

definition h_users :: "'k server \<Rightarrow> string \<Rightarrow> auth_db \<Rightarrow> reply option" where
  "h_users sv text a =
     with_int text (\<lambda>page. if page < 0 then Some (SendStatus 400)
       else answer Users (au_GetUsers (sv_auth sv) 10 (sint (word_of_int (page * 10) :: 64 word)) a))"

definition h_delete_user :: "'k server \<Rightarrow> string \<Rightarrow> auth_db \<Rightarrow> reply \<times> auth_db" where
  "h_delete_user sv user a =
     (if user = '''' then (SendStatus 400, a)
      else if user = ''admin'' then (json_reply 400 (Message ''cannot delete admin account''), a)
      else case au_DeleteUser (sv_auth sv) user a of (Inl e, a') \<Rightarrow> (SendStatus 500, a') | (Inr _, a') \<Rightarrow> (SendStatus 200, a'))"

text \<open>The log routes are only there with a log store; without one the router answers 404.\<close>

definition h_logs :: "'k server \<Rightarrow> request \<Rightarrow> string \<Rightarrow> string \<Rightarrow> db \<Rightarrow> reply" where
  "h_logs sv rq runStr podUID s =
     (case sv_logs sv of
        None \<Rightarrow> SendStatus 404
      | Some lf \<Rightarrow>
          if podUID = '''' then SendStatus 400
          else case dm_PodExists (sv_db sv) podUID s of
                 Inl e \<Rightarrow> SendStatus 500
               | Inr exists \<Rightarrow>
                   if \<not> exists then SendStatus 404
                   else if runStr = '''' then SendStatus 400
                   else case Atoi runStr of
                          Inl e \<Rightarrow> SendStatus 400
                        | Inr runId \<Rightarrow>
                            let r = ServeLogWithRange lf (rq_Range rq) runId podUID in json_reply (re_Status r) (LogReply r))"

section \<open>The server\<close>

definition read_only :: "'k state \<Rightarrow> reply option \<Rightarrow> 'k handled" where
  "read_only st r = (r, st)"

definition on_auth :: "'k state \<Rightarrow> reply \<times> auth_db \<Rightarrow> 'k handled" where
  "on_auth st r = (Some (fst r), st\<lparr>ss_auth := snd r\<rparr>)"

definition on_auth_opt :: "'k state \<Rightarrow> reply option \<times> auth_db \<Rightarrow> 'k handled" where
  "on_auth_opt st r = (fst r, st\<lparr>ss_auth := snd r\<rparr>)"

definition on_kube :: "'k state \<Rightarrow> reply \<times> 'k \<Rightarrow> 'k handled" where
  "on_kube st r = (Some (fst r), st\<lparr>ss_kube := snd r\<rparr>)"

fun handle :: "'k server \<Rightarrow> env \<Rightarrow> request \<Rightarrow> locals option \<Rightarrow> endpoint \<Rightarrow> 'k state \<Rightarrow> 'k handled" where
  "handle sv en rq lo DagSuspend st = on_kube st (h_suspend sv rq (ss_kube st))"
| "handle sv en rq lo DagNames st = read_only st (h_names sv rq (ss_db st))"
| "handle sv en rq lo DagParameters st = read_only st (h_parameters sv rq (ss_db st))"
| "handle sv en rq lo (DagMeta page) st = read_only st (h_meta sv page (ss_db st))"
| "handle sv en rq lo DagPagesCount st = read_only st (answer_count (dm_GetDagPageCount (sv_db sv) 10 (ss_db st)))"
| "handle sv en rq lo (DagRunsPage page) st = read_only st (h_runs sv page (ss_db st))"
| "handle sv en rq lo (DagRunById i) st = read_only st (h_run sv i (ss_db st))"
| "handle sv en rq lo (DagDelete namespace name) st = on_kube st (h_delete_dag sv namespace name (ss_kube st))"
| "handle sv en rq lo (DagRunAllById i) st = read_only st (h_run_all sv i (ss_db st))"
| "handle sv en rq lo (DagRunTask runId taskId) st = read_only st (h_run_task sv runId taskId (ss_db st))"
| "handle sv en rq lo (DagTaskById taskId) st = read_only st (h_task sv taskId (ss_db st))"
| "handle sv en rq lo (DagTaskPage page) st = read_only st (Some (h_dagtasks sv page (ss_db st)))"
| "handle sv en rq lo DagTaskPagesCount st = read_only st (answer Count (dm_GetDagTaskPageCount (sv_db sv) 10 (ss_db st)))"
| "handle sv en rq lo DagCreate st = on_kube st (h_create_dag sv en rq (ss_kube st))"
| "handle sv en rq lo DagRunPagesCount st = read_only st (answer_count (dm_GetDagRunPageCount (sv_db sv) 10 (ss_db st)))"
| "handle sv en rq lo DagRunCreate st = on_kube st (h_create_run sv en rq (ss_db st) (ss_kube st))"
| "handle sv en rq lo DagRunRemove st = on_kube st (h_remove_run sv rq (ss_kube st))"
| "handle sv en rq lo StatsDashboard st = read_only st (answer Stats (dm_GetDashboardStats (sv_db sv) (en_now en) (ss_db st)))"
| "handle sv en rq lo AuthLogin st = on_auth st (h_login sv en rq (ss_auth st))"
| "handle sv en rq lo AuthCreate st = on_auth st (h_create_account sv en rq (ss_auth st))"
| "handle sv en rq lo AuthPasswordChange st = on_auth_opt st (h_change_password sv rq lo (ss_auth st))"
| "handle sv en rq lo AuthLogout st = on_auth_opt st (h_logout sv lo (ss_auth st))"
| "handle sv en rq lo AuthCheck st = read_only st (Some (h_check sv en rq (ss_auth st)))"
| "handle sv en rq lo (AuthUsersPage page) st = read_only st (h_users sv page (ss_auth st))"
| "handle sv en rq lo AuthUsersPagesCount st = read_only st (answer_count (au_GetUserPageCount (sv_auth sv) 10 (ss_auth st)))"
| "handle sv en rq lo (AuthDeleteUser user) st = on_auth st (h_delete_user sv user (ss_auth st))"
| "handle sv en rq lo (LogsOfPod run pod) st = read_only st (Some (h_logs sv rq run pod (ss_db st)))"

definition roleMiddleware :: "string \<Rightarrow> locals option \<Rightarrow> 'k handled \<Rightarrow> 'k state \<Rightarrow> 'k handled" where
  "roleMiddleware requiredRole lo continue st =
     (case lo of
        None \<Rightarrow> (Some (json_reply 401 (Message ''Unauthorized'')), st)
      | Some l \<Rightarrow>
          if \<not> isRoleGreaterOrEqual (lo_role l) requiredRole
          then (Some (json_reply 403 (Message (''Forbidden: You must have '' @ CHR 39 # requiredRole @ CHR 39 # '' or higher role''))), st)
          else continue)"

fun is_LogsOfPod :: "endpoint \<Rightarrow> bool" where
  "is_LogsOfPod (LogsOfPod run pod) = True"
| "is_LogsOfPod _ = False"

definition route :: "'k server \<Rightarrow> env \<Rightarrow> request \<Rightarrow> locals option \<Rightarrow> 'k state \<Rightarrow> 'k handled" where
  "route sv en rq lo st =
     (if sv_logs sv = None \<and> is_LogsOfPod (rq_Endpoint rq) then (Some (SendStatus 404), st)
      else case required_role (rq_Endpoint rq) of
             None \<Rightarrow> handle sv en rq lo (rq_Endpoint rq) st
           | Some role \<Rightarrow> roleMiddleware role lo (handle sv en rq lo (rq_Endpoint rq) st) st)"

definition Authentication :: "'k server \<Rightarrow> env \<Rightarrow> request \<Rightarrow> 'k state \<Rightarrow> 'k handled" where
  "Authentication sv en rq st =
     (if open_path (rq_Path rq) then route sv en rq None st
      else if rq_Cookie rq = '''' then (Some (SendStatus 401), st)
      else case au_IsValidLogin (sv_auth sv) (sv_lib sv) (en_now en) (rq_Cookie rq) (ss_auth st) of
             Inl e \<Rightarrow> (Some (SendStatus 401), st)
           | Inr (username, role) \<Rightarrow> route sv en rq (Some \<lparr>lo_token = rq_Cookie rq, lo_username = username, lo_role = role\<rparr>) st)"

end
