(* ===== verification/Server_Access.thy ===== *)
theory Server_Access
  imports Server_Rest
begin

text \<open>
  Who may do what through the REST server, and that it always answers.
\<close>

section \<open>Access control\<close>

lemma route_paths_closed:
  "\<not> open_path (route_path AuthPasswordChange)" "\<not> open_path (route_path AuthLogout)"
  by (simp_all add: open_path_def HasSuffix_def)

lemma open_paths: "open_path (route_path AuthLogin)" "open_path (route_path AuthCheck)"
  by (simp_all add: open_path_def HasSuffix_def)

lemma no_locals:
  assumes "route sv en rq None st = (r, st')" "rq_Endpoint rq \<noteq> AuthLogin" "rq_Endpoint rq \<noteq> AuthPasswordChange" "rq_Endpoint rq \<noteq> AuthLogout"
  shows "st' = st \<and> (\<exists>rep. r = Some rep \<and> (400 \<le> ry_Status rep \<or> rq_Endpoint rq = AuthCheck \<and> rep = h_check sv en rq (ss_auth st)))"
proof (cases "required_role (rq_Endpoint rq)")
  case None
  with assms(2-4) have "rq_Endpoint rq = AuthCheck" by (cases "rq_Endpoint rq") simp_all
  with assms(1) show ?thesis by (auto simp: route_def read_only_def)
next
  case (Some role)
  with assms(1) show ?thesis by (auto simp: route_def roleMiddleware_def json_reply_def SendStatus_def split: if_splits)
qed

text \<open>
  (C9) Access control, in every state of the accounts the server can reach: a request to any route but the login that succeeds, or that changes accounts,
  sessions or the cluster, carries the token of an unrevoked session of an existing account, and that account's role is at least the one the route asks for.
\<close>

theorem access_control:
  assumes "auth_reachable (sv_auth sv) (sv_lib sv) used (ss_auth st)" "jwt_ok (sv_lib sv)"
    and "rq_Path rq = route_path (rq_Endpoint rq)" "rq_Endpoint rq \<noteq> AuthLogin" "Authentication sv en rq st = (r, st')"
    and "st' \<noteq> st \<or> (\<exists>rep. r = Some rep \<and> ry_Status rep < 400)"
  shows "\<exists>a \<in> set (accounts (ss_auth st)). (\<exists>row \<in> set (tokens (ss_auth st)). tn_token row = rq_Cookie rq \<and> tn_account_id row = ac_id a \<and> \<not> tn_revoked row) \<and>
    (case required_role (rq_Endpoint rq) of None \<Rightarrow> True | Some role \<Rightarrow> isRoleGreaterOrEqual (ac_role a) role)"
proof (cases "open_path (rq_Path rq)")
  case True
  then have n: "rq_Endpoint rq \<noteq> AuthPasswordChange" "rq_Endpoint rq \<noteq> AuthLogout" using assms(3) route_paths_closed by auto
  have "route sv en rq None st = (r, st')" using assms(5) True by (simp add: Authentication_def)
  from no_locals [OF this assms(4) n] assms(6) have c: "rq_Endpoint rq = AuthCheck" "ry_Status (h_check sv en rq (ss_auth st)) < 400" by auto
  then obtain user role where "au_IsValidLogin (sv_auth sv) (sv_lib sv) (en_now en) (rq_Cookie rq) (ss_auth st) = Inr (user, role)"
    by (auto simp: h_check_def SendStatus_def json_reply_def split: if_splits sum.splits)
  from valid_login_account [OF assms(1,2) this] c(1) show ?thesis by auto
next
  case False
  show ?thesis
  proof (cases "au_IsValidLogin (sv_auth sv) (sv_lib sv) (en_now en) (rq_Cookie rq) (ss_auth st)")
    case (Inl e)
    with assms(5,6) False show ?thesis by (auto simp: Authentication_def SendStatus_def json_reply_def split: if_splits)
  next
    case (Inr p)
    obtain user role where p: "p = (user, role)" by (cases p)
    let ?lo = "\<lparr>lo_token = rq_Cookie rq, lo_username = user, lo_role = role\<rparr>"
    have e: "r = Some (SendStatus 401) \<and> st' = st \<or> route sv en rq (Some ?lo) st = (r, st')"
      using assms(5) False Inr p by (auto simp: Authentication_def split: if_splits)
    have "case required_role (rq_Endpoint rq) of None \<Rightarrow> True | Some q \<Rightarrow> isRoleGreaterOrEqual role q"
    proof (cases "required_role (rq_Endpoint rq)")
      case (Some q)
      with e assms(6) show ?thesis
        by (auto simp: route_def roleMiddleware_def SendStatus_def json_reply_def split: if_splits)
    qed simp
    with valid_login_account [OF assms(1,2) Inr [unfolded p]] show ?thesis by blast
  qed
qed

section \<open>No panics\<close>

text \<open>A handler that answers.\<close>

definition answered :: "reply option \<Rightarrow> bool" where
  "answered r \<longleftrightarrow> r \<noteq> None"

lemma answered_Some [simp]: "answered (Some rep)" "answered (answer view r)"
  by (simp_all add: answered_def answer_def)

lemma answered_int [intro!]: "(\<And>n. answered (f n)) \<Longrightarrow> answered (with_int text f)"
  by (simp add: with_int_def split: sum.split)

lemma answered_page [intro!]: "(\<And>n. answered (f n)) \<Longrightarrow> answered (with_page text f)"
  unfolding with_page_def by (rule answered_int) simp

lemma answered_counts [simp]:
  "answered (answer_count (dm_GetDagPageCount m 10 s))" "answered (answer_count (dm_GetDagRunPageCount m 10 s))"
  by (cases m; simp add: answered_def answer_count_def ss_GetDagPageCount_def sg_GetDagPageCount_def ss_GetDagRunPageCount_def sg_GetDagRunPageCount_def
      page_count_def page_count_up_def)+

lemma answered_users [simp]: "answered (answer_count (au_GetUserPageCount m 10 a))"
  by (cases m) (simp_all add: answered_def answer_count_def sq_GetUserPageCount_def pg_GetUserPageCount_def page_count_def)

lemma handle_answers:
  assumes "e \<in> {AuthPasswordChange, AuthLogout} \<Longrightarrow> lo \<noteq> None"
  shows "answered (fst (handle sv en rq lo e st))"
  using assms
  by (cases e) (auto simp: on_kube_def on_auth_def on_auth_opt_def read_only_def h_names_def h_parameters_def h_meta_def h_runs_def h_run_def h_run_all_def
      h_run_task_def h_task_def h_users_def h_change_password_def h_logout_def Let_def split: sum.splits option.splits prod.splits)

text \<open>
  No request brings the server down: whatever the body, cookie, query and path parameters, every route answers. The unchecked type assertions of the
  logout and of the change of passwords are safe because their paths always pass the authentication, and no page count divides by zero.
\<close>

theorem server_never_panics:
  assumes "rq_Path rq = route_path (rq_Endpoint rq)"
  shows "fst (Authentication sv en rq st) \<noteq> None"
proof -
  have "answered (fst (route sv en rq lo st))" if "rq_Endpoint rq \<in> {AuthPasswordChange, AuthLogout} \<Longrightarrow> lo \<noteq> None" for lo
    using handle_answers [of "rq_Endpoint rq" lo sv en rq st] that by (auto simp: route_def roleMiddleware_def split: option.split)
  moreover have "\<not> open_path (rq_Path rq)" if "rq_Endpoint rq \<in> {AuthPasswordChange, AuthLogout}"
    using that assms route_paths_closed by auto
  ultimately have "answered (fst (Authentication sv en rq st))" by (auto simp: Authentication_def split: sum.split prod.split)
  then show ?thesis by (simp add: answered_def)
qed

section \<open>Accounts that cannot be deleted\<close>

text \<open>
  The authentication skips every path that ends in \<open>/login\<close> or \<open>/check\<close>, not only the two routes it is meant for. A user with one of these names can be
  created but not deleted: for every session, also the administrator's, the request is answered with 401.
\<close>

theorem user_named_login_undeletable:
  assumes "user \<in> {''login'', ''check''}" "rq_Endpoint rq = AuthDeleteUser user" "rq_Path rq = route_path (AuthDeleteUser user)"
  shows "Authentication sv en rq st = (Some (json_reply 401 (Message ''Unauthorized'')), st) \<and>
    ValidateCredentials u \<lparr>cq_Username = user, cq_Password = ''password'', cq_Role = ''admin''\<rparr> = None"
proof -
  have "open_path (route_path (AuthDeleteUser user))" using assms(1) by (auto simp: open_path_def HasSuffix_def)
  then have "Authentication sv en rq st = (Some (json_reply 401 (Message ''Unauthorized'')), st)"
    using assms(2,3) by (simp add: Authentication_def route_def roleMiddleware_def)
  moreover have "ValidateCredentials u \<lparr>cq_Username = user, cq_Password = ''password'', cq_Role = ''admin''\<rparr> = None"
    using assms(1) by (auto simp: ValidateCredentials_def Let_def go_bytes_def IsLetter_def)
  ultimately show ?thesis by simp
qed

section \<open>Witnesses\<close>

definition ex_dyn :: "unit dynClient" where
  "ex_dyn = \<lparr>dy_createDag = \<lambda>_ _ k. (Inr (), k), dy_getDag = \<lambda>_ _ _. Inl \<lparr>ke_Reason = NotFound, ke_Message = ''not found''\<rparr>,
     dy_updateDag = \<lambda>_ _ k. (Inr (), k), dy_deleteDag = \<lambda>_ _ k. (Inr (), k), dy_createDagRun = \<lambda>_ _ k. (Inr (), k), dy_deleteDagRun = \<lambda>_ _ k. (Inr (), k)\<rparr>"

definition ex_server :: "unit server" where
  "ex_server = \<lparr>sv_auth = AuthPostgres, sv_lib = ex_lib, sv_db = PostgresManager, sv_client = ex_dyn, sv_json = \<lambda>_. Inl ''no'',
     sv_unicode = \<lparr>un_letter = \<lambda>_. False, un_number = \<lambda>_. False\<rparr>, sv_logs = None\<rparr>"

definition ex_env :: env where
  "ex_env = \<lparr>en_now = 5, en_newId = ''a2'', en_jti = ''j2'', en_events = [], en_answers = \<lambda>_. []\<rparr>"

definition ex_state :: "unit state" where
  "ex_state = \<lparr>ss_auth = ex_session, ss_db = empty_db, ss_kube = ()\<rparr>"

definition ex_request :: "endpoint \<Rightarrow> request" where
  "ex_request e = \<lparr>rq_Path = route_path e, rq_Endpoint = e, rq_Cookie = ''tok'', rq_Query = \<lambda>_. '''', rq_Range = '''', rq_Suspend = Inl (Err ''''),
     rq_DagForm = Inl (Err ''''), rq_RunForm = Inl (Err ''''), rq_Credentials = Inl (Err ''''), rq_Account = Inl (Err ''''), rq_Change = Inl (Err '''')\<rparr>"

lemma ex_valid: "au_IsValidLogin AuthPostgres ex_lib 5 ''tok'' ex_session = Inr (''admin'', ''admin'')"
  by (simp add: ex_auth)

lemma ex_logout:
  "Authentication ex_server ex_env (ex_request AuthLogout) ex_state = (Some (SendStatus 202), ex_state\<lparr>ss_auth := snd (au_RevokeToken AuthPostgres ''tok'' ex_session)\<rparr>)"
  using ex_valid route_paths_closed(2)
  by (simp add: Authentication_def ex_server_def ex_env_def ex_request_def ex_state_def route_def on_auth_opt_def h_logout_def pg_RevokeToken_def sq_RevokeToken_def)

theorem access_control_witness:
  "\<exists>a \<in> set (accounts ex_session). \<exists>row \<in> set (tokens ex_session). tn_token row = ''tok'' \<and> tn_account_id row = ac_id a \<and> \<not> tn_revoked row"
proof -
  have "\<exists>a \<in> set (accounts (ss_auth ex_state)).
      (\<exists>row \<in> set (tokens (ss_auth ex_state)). tn_token row = rq_Cookie (ex_request AuthLogout) \<and> tn_account_id row = ac_id a \<and> \<not> tn_revoked row) \<and>
      (case required_role (rq_Endpoint (ex_request AuthLogout)) of None \<Rightarrow> True | Some role \<Rightarrow> isRoleGreaterOrEqual (ac_role a) role)"
  proof (rule access_control [OF _ _ _ _ ex_logout])
    show "auth_reachable (sv_auth ex_server) (sv_lib ex_server) {''a1''} (ss_auth ex_state)" "jwt_ok (sv_lib ex_server)"
      using ex_reachable_session ex_jwt by (simp_all add: ex_server_def ex_state_def)
  qed (simp_all add: ex_request_def SendStatus_def json_reply_def)
  then show ?thesis by (simp add: ex_state_def ex_request_def)
qed

theorem server_never_panics_witness: "fst (Authentication ex_server ex_env (ex_request AuthLogout) ex_state) \<noteq> None"
  by (rule server_never_panics) (simp add: ex_request_def)

theorem user_named_login_undeletable_witness:
  "Authentication ex_server ex_env (ex_request (AuthDeleteUser ''login'')) ex_state = (Some (json_reply 401 (Message ''Unauthorized'')), ex_state)"
  using user_named_login_undeletable [of "''login''" "ex_request (AuthDeleteUser ''login'')" ex_server ex_env ex_state] by (simp add: ex_request_def)

end
