(* ===== verification/Worker_Pool.thy ===== *)
theory Worker_Pool
  imports Task_Allocator
begin

text \<open>
  Worker pools (\<open>internal/controller/workerpool_controller.go\<close>, \<open>workerpool_rbac.go\<close>, \<open>api/v1alpha1/workerpool_types.go\<close>): the deployment of workers a pool
  stands for, the permissions prepared for it, and its deletion.
\<close>

section \<open>Resources\<close>

record WorkerPoolSpec =
  ws_Replicas :: "int option"
  ws_Image :: string
  ws_Concurrency :: "(int option \<times> int option) option"
  ws_Lease :: "int option option"
  ws_PodTemplate :: "PodTemplateSpec option"
  ws_DBSecretRef :: string
  ws_Metrics :: "(bool \<times> int option) option"
  ws_GracefulShutdownSeconds :: "int option"

record WorkerPoolStatus =
  wst_Replicas :: int
  wst_ReadyReplicas :: int
  wst_LastReconcileTime :: "int option"

record WorkerPool =
  wp_Name :: string
  wp_Namespace :: string
  wp_Finalizers :: "string list"
  wp_Deleting :: bool
  wp_Spec :: WorkerPoolSpec
  wp_Status :: WorkerPoolStatus

text \<open>
  A deployment, with the pod of its template. The port and the pull policy of the container are constants of the code and not fields of the model.
\<close>

record Deployment =
  dl_Name :: string
  dl_Namespace :: string
  dl_Labels :: "(string, string) gomap"
  dl_Owner :: "string option"
  dl_Selector :: "(string, string) gomap"
  dl_Replicas :: "int option"
  dl_TemplateLabels :: "(string, string) gomap"
  dl_Pod :: PodSpec
  dl_ReadyReplicas :: int

record PolicyRule =
  pl_APIGroups :: "string list"
  pl_Resources :: "string list"
  pl_Verbs :: "string list"

text \<open>
  The calls of the controller's client. \<open>CreateOrUpdate\<close> belongs to a library: it takes the object to create, replaces it by the stored one if there is one, lets the
  given function change it, and stores the outcome. \<open>pk_setOwner\<close> is \<open>SetControllerReference\<close>.
\<close>

record 'k pool_client =
  pk_getPool :: "string \<Rightarrow> string \<Rightarrow> 'k \<Rightarrow> WorkerPool kresult"
  pk_updatePool :: "WorkerPool \<Rightarrow> 'k \<Rightarrow> unit kresult \<times> 'k"
  pk_updatePoolStatus :: "WorkerPool \<Rightarrow> 'k \<Rightarrow> unit kresult \<times> 'k"
  pk_getDeployment :: "string \<Rightarrow> string \<Rightarrow> 'k \<Rightarrow> Deployment kresult"
  pk_updateDeployment :: "Deployment \<Rightarrow> 'k \<Rightarrow> unit kresult \<times> 'k"
  pk_applyDeployment :: "Deployment \<Rightarrow> (Deployment \<Rightarrow> Deployment kresult) \<Rightarrow> 'k \<Rightarrow> Deployment kresult \<times> 'k"
  pk_applyServiceAccount :: "string \<Rightarrow> string \<Rightarrow> 'k \<Rightarrow> unit kresult \<times> 'k"
  pk_applyRole :: "string \<Rightarrow> string \<Rightarrow> PolicyRule list \<Rightarrow> 'k \<Rightarrow> unit kresult \<times> 'k"
  pk_applyRoleBinding :: "string \<Rightarrow> string \<Rightarrow> string \<Rightarrow> string \<Rightarrow> 'k \<Rightarrow> unit kresult \<times> 'k"
  pk_setOwner :: "WorkerPool \<Rightarrow> string \<Rightarrow> kube_error option"
  pk_setDeploymentOwner :: "WorkerPool \<Rightarrow> Deployment \<Rightarrow> Deployment kresult"

section \<open>Permissions of the workers\<close>

definition worker_rules :: "PolicyRule list" where
  "worker_rules =
     [\<lparr>pl_APIGroups = [''''], pl_Resources = [''pods''], pl_Verbs = [''create'', ''get'', ''list'', ''watch'', ''update'', ''patch'', ''delete'']\<rparr>,
      \<lparr>pl_APIGroups = [''''], pl_Resources = [''pods/exec''], pl_Verbs = [''create'']\<rparr>]"

definition ensureWorkerRBAC :: "'k pool_client \<Rightarrow> WorkerPool \<Rightarrow> 'k \<Rightarrow> string kresult \<times> 'k" where
  "ensureWorkerRBAC c wp k =
     (let saName = wp_Name wp @ ''-sa''; roleName = wp_Name wp @ ''-pod-ops''; rbName = wp_Name wp @ ''-pod-ops-binding''
      in case pk_setOwner c wp saName of
           Some e \<Rightarrow> (Inl e, k)
         | None \<Rightarrow>
             (case pk_applyServiceAccount c (wp_Namespace wp) saName k of
                (Inl e, k1) \<Rightarrow> (Inl e, k1)
              | (Inr _, k1) \<Rightarrow>
                  (case pk_applyRole c (wp_Namespace wp) roleName worker_rules k1 of
                     (Inl e, k2) \<Rightarrow> (Inl e, k2)
                   | (Inr _, k2) \<Rightarrow>
                       (case pk_applyRoleBinding c (wp_Namespace wp) rbName roleName saName k2 of
                          (Inl e, k3) \<Rightarrow> (Inl e, k3) | (Inr _, k3) \<Rightarrow> (Inr saName, k3)))))"

section \<open>The deployment of a pool\<close>

definition fmtIntPtr :: "int option \<Rightarrow> string" where
  "fmtIntPtr p = (case p of None \<Rightarrow> '''' | Some n \<Rightarrow> Itoa n)"

definition env_value :: "string \<Rightarrow> string \<Rightarrow> EnvVar" where
  "env_value name value = \<lparr>e_Name = name, e_Value = value, e_SecretKeyRef = None\<rparr>"

definition env_if :: "string \<Rightarrow> string \<Rightarrow> EnvVar list" where
  "env_if name value = (if value \<noteq> '''' then [env_value name value] else [])"

text \<open>\<open>getenv\<close> is the environment of the controller.\<close>

definition worker_envs :: "(string \<Rightarrow> string) \<Rightarrow> WorkerPool \<Rightarrow> EnvVar list" where
  "worker_envs getenv wp =
     (let secretName = (if getenv ''DB_PASSWORD_SECRET'' = '''' then ''postgres-postgresql'' else getenv ''DB_PASSWORD_SECRET'');
          secretKey = (if getenv ''DB_PASSWORD_KEY'' = '''' then ''postgres-password'' else getenv ''DB_PASSWORD_KEY'')
      in [env_value ''WORKERPOOL_NAME'' (wp_Name wp)] @
         env_if ''DB_TYPE'' (getenv ''DB_TYPE'') @ env_if ''DB_ENDPOINT'' (getenv ''DB_ENDPOINT'') @
         env_if ''DB_NAME'' (getenv ''DB_NAME'') @ env_if ''DB_USER'' (getenv ''DB_USER'') @
         [\<lparr>e_Name = ''DB_PASSWORD'', e_Value = '''', e_SecretKeyRef = Some (secretName, secretKey)\<rparr>] @
         (case ws_Concurrency (wp_Spec wp) of
            None \<Rightarrow> []
          | Some (maxClaims, batch) \<Rightarrow>
              (if batch \<noteq> None then [env_value ''CLAIM_BATCH_SIZE'' (fmtIntPtr batch)] else []) @
              (if maxClaims \<noteq> None then [env_value ''MAX_CONCURRENT_CLAIMS'' (fmtIntPtr maxClaims)] else [])) @
         (case ws_Lease (wp_Spec wp) of
            Some (Some ttl) \<Rightarrow> [env_value ''DEFAULT_LEASE_TTL_SECONDS'' (fmtIntPtr (Some ttl))] | _ \<Rightarrow> []) @
         env_if ''DB_SECRET_NAME'' (ws_DBSecretRef (wp_Spec wp)))"

definition parse_quantities :: "(string \<Rightarrow> string option) \<Rightarrow> (string, string) gomap \<Rightarrow> (string, string) gomap" where
  "parse_quantities quantity m = List.map_filter (\<lambda>(k, v). map_option (Pair k) (quantity v)) m"

definition merge_template :: "(string \<Rightarrow> string option) \<Rightarrow> (Affinity \<Rightarrow> string) \<Rightarrow> string \<Rightarrow> PodTemplateSpec \<Rightarrow> PodSpec \<Rightarrow> PodSpec" where
  "merge_template quantity affinity defaultSA pt s0 =
     (let s1 = (if pt_NodeSelector pt \<noteq> [] then s0\<lparr>sp_NodeSelector := pt_NodeSelector pt\<rparr> else s0);
          s2 = (if pt_ServiceAccountName pt \<noteq> '''' then s1\<lparr>sp_ServiceAccountName := pt_ServiceAccountName pt\<rparr>
                else if defaultSA \<noteq> '''' then s1\<lparr>sp_ServiceAccountName := defaultSA\<rparr> else s1);
          s3 = (case pt_AutomountServiceAccountToken pt of None \<Rightarrow> s2 | Some a \<Rightarrow> s2\<lparr>sp_AutomountServiceAccountToken := Some a\<rparr>);
          s4 = (case pt_ActiveDeadlineSeconds pt of None \<Rightarrow> s3 | Some d \<Rightarrow> s3\<lparr>sp_ActiveDeadlineSeconds := Some d\<rparr>);
          s5 = (if pt_ImagePullSecrets pt \<noteq> [] then s4\<lparr>sp_ImagePullSecrets := pt_ImagePullSecrets pt\<rparr> else s4);
          s6 = (if pt_Tolerations pt \<noteq> [] then s5\<lparr>sp_Tolerations := pt_Tolerations pt\<rparr> else s5);
          volume = (\<lambda>v. if v_EmptyDir v \<noteq> None then v\<lparr>v_PersistentVolumeClaim := None\<rparr> else v);
          s7 = (if pt_Volumes pt \<noteq> [] then s6\<lparr>sp_Volumes := sp_Volumes s6 @ map volume (pt_Volumes pt)\<rparr> else s6);
          s8 = (if pt_VolumeMounts pt \<noteq> [] then on_first (\<lambda>c. c\<lparr>c_VolumeMounts := c_VolumeMounts c @ pt_VolumeMounts pt\<rparr>) s7 else s7);
          s9 = (case pt_SecurityContext pt of None \<Rightarrow> s8 | Some sc \<Rightarrow> s8\<lparr>sp_SecurityContext := Some \<lparr>psc_FSGroup = psc_FSGroup sc\<rparr>\<rparr>);
          s10 = (case pt_Resources pt of
                   None \<Rightarrow> s9
                 | Some r \<Rightarrow> on_first (\<lambda>c. c\<lparr>c_Resources := \<lparr>cr_Limits = parse_quantities quantity (rr_Limits r), cr_Requests = parse_quantities quantity (rr_Requests r)\<rparr>\<rparr>) s9)
      in case pt_Affinity pt of None \<Rightarrow> s10 | Some a \<Rightarrow> s10\<lparr>sp_Affinity := Some (affinity a)\<rparr>)"

definition worker_pod :: "(string \<Rightarrow> string) \<Rightarrow> WorkerPool \<Rightarrow> PodSpec" where
  "worker_pod getenv wp =
     empty_PodSpec\<lparr>sp_RestartPolicy := '''', sp_Containers := [\<lparr>c_Name = ''worker'', c_Image = (if ws_Image (wp_Spec wp) \<noteq> '''' then ws_Image (wp_Spec wp) else ''greedykomodo/kontroler-worker:latest''),
       c_Command = [], c_Args = [], c_Env = worker_envs getenv wp, c_VolumeMounts = [], c_Resources = no_resources\<rparr>]\<rparr>"

text \<open>What \<open>CreateOrUpdate\<close> does to the deployment.\<close>

definition fill_deployment ::
    "'k pool_client \<Rightarrow> (string \<Rightarrow> string option) \<Rightarrow> (Affinity \<Rightarrow> string) \<Rightarrow> (string \<Rightarrow> string) \<Rightarrow> WorkerPool \<Rightarrow> string \<Rightarrow> int \<Rightarrow> Deployment \<Rightarrow> Deployment kresult" where
  "fill_deployment c quantity affinity getenv wp defaultSA replicas dep =
     (case pk_setDeploymentOwner c wp dep of
        Inl e \<Rightarrow> Inl e
      | Inr dep1 \<Rightarrow>
          let pod = worker_pod getenv wp;
              pod1 = (case ws_PodTemplate (wp_Spec wp) of None \<Rightarrow> pod | Some pt \<Rightarrow> merge_template quantity affinity defaultSA pt pod)
          in Inr (dep1\<lparr>dl_Replicas := Some replicas, dl_Selector := dl_Labels dep1, dl_TemplateLabels := dl_Labels dep1, dl_Pod := pod1\<rparr>))"

section \<open>Reconciliation\<close>

definition workerPoolFinalizer :: string where
  "workerPoolFinalizer = ''workerpool.finalizers.kontroler.greedykomodo''"

definition new_deployment :: "WorkerPool \<Rightarrow> Deployment" where
  "new_deployment wp =
     (let labels = [(''app'', ''kontroler-worker''), (''workerpool'', wp_Name wp)]
      in \<lparr>dl_Name = wp_Name wp @ ''-workers'', dl_Namespace = wp_Namespace wp, dl_Labels = labels, dl_Owner = None, dl_Selector = labels, dl_Replicas = None,
          dl_TemplateLabels = [], dl_Pod = empty_PodSpec\<lparr>sp_RestartPolicy := ''''\<rparr>, dl_ReadyReplicas = 0\<rparr>)"

text \<open>The result of a reconciliation: an error, or the time after which to queue the request again, in nanoseconds.\<close>

type_synonym 'k pool_result = "int option kresult \<times> 'k"

definition pool_handleDeletion :: "'k pool_client \<Rightarrow> WorkerPool \<Rightarrow> 'k \<Rightarrow> 'k pool_result" where
  "pool_handleDeletion c wp k =
     (let gone = wp\<lparr>wp_Finalizers := filter (\<lambda>f. f \<noteq> workerPoolFinalizer) (wp_Finalizers wp)\<rparr>;
          remove = (\<lambda>k. case pk_updatePool c gone k of (Inl e, k') \<Rightarrow> (Inl e, k') | (Inr _, k') \<Rightarrow> (Inr None, k'))
      in case pk_getDeployment c (wp_Namespace wp) (wp_Name wp @ ''-workers'') k of
           Inr existing \<Rightarrow>
             (case (if dl_Replicas existing \<noteq> Some 0 then pk_updateDeployment c (existing\<lparr>dl_Replicas := Some 0\<rparr>) k else (Inr (), k)) of
                (Inl e, k1) \<Rightarrow> (Inl e, k1)
              | (Inr _, k1) \<Rightarrow> if 0 < dl_ReadyReplicas existing then (Inr (Some (2 * 1000000000)), k1) else remove k1)
         | Inl e \<Rightarrow> if workerPoolFinalizer \<in> set (wp_Finalizers wp) then remove k else (Inr None, k))"

definition pool_status :: "'k pool_client \<Rightarrow> int \<Rightarrow> int \<Rightarrow> Deployment \<Rightarrow> WorkerPool \<Rightarrow> 'k \<Rightarrow> 'k" where
  "pool_status c now replicas dep wp k =
     (case pk_getDeployment c (dl_Namespace dep) (dl_Name dep) k of
        Inl e \<Rightarrow> k
      | Inr current \<Rightarrow>
          snd (pk_updatePoolStatus c (wp\<lparr>wp_Status := \<lparr>wst_Replicas = replicas, wst_ReadyReplicas = dl_ReadyReplicas current, wst_LastReconcileTime = Some now\<rparr>\<rparr>) k))"

definition pool_Reconcile ::
    "'k pool_client \<Rightarrow> (string \<Rightarrow> string option) \<Rightarrow> (Affinity \<Rightarrow> string) \<Rightarrow> (string \<Rightarrow> string) \<Rightarrow> int \<Rightarrow> string \<Rightarrow> string \<Rightarrow> 'k \<Rightarrow> 'k pool_result" where
  "pool_Reconcile c quantity affinity getenv now namespace name k =
     (case pk_getPool c namespace name k of
        Inl e \<Rightarrow> (if ke_Reason e = NotFound then Inr None else Inl e, k)
      | Inr wp \<Rightarrow>
          let replicas = (case ws_Replicas (wp_Spec wp) of None \<Rightarrow> 1 | Some n \<Rightarrow> n);
              noAccount = (case ws_PodTemplate (wp_Spec wp) of None \<Rightarrow> True | Some pt \<Rightarrow> pt_ServiceAccountName pt = '''')
          in case (if noAccount then ensureWorkerRBAC c wp k else (Inr '''', k)) of
               (Inl e, k1) \<Rightarrow> (Inl e, k1)
             | (Inr defaultSA, k1) \<Rightarrow>
                 if wp_Deleting wp then pool_handleDeletion c wp k1
                 else let present = workerPoolFinalizer \<in> set (wp_Finalizers wp);
                          wp1 = (if present then wp else wp\<lparr>wp_Finalizers := wp_Finalizers wp @ [workerPoolFinalizer]\<rparr>)
                      in case (if present then (Inr (), k1) else pk_updatePool c wp1 k1) of
                           (Inl e, k2) \<Rightarrow> (Inl e, k2)
                         | (Inr _, k2) \<Rightarrow>
                             (case pk_applyDeployment c (new_deployment wp1) (fill_deployment c quantity affinity getenv wp1 defaultSA replicas) k2 of
                                (Inl e, k3) \<Rightarrow> (Inl e, k3)
                              | (Inr dep, k3) \<Rightarrow> (Inr None, pool_status c now replicas dep wp1 k3)))"

section \<open>Which account the workers run under\<close>

lemma ensureWorkerRBAC_name: "ensureWorkerRBAC c wp k = (Inr sa, k') \<Longrightarrow> sa = wp_Name wp @ ''-sa''"
  by (auto simp: ensureWorkerRBAC_def Let_def split: option.splits prod.splits sum.splits)

lemma on_first_account [simp]: "sp_ServiceAccountName (on_first f spec) = sp_ServiceAccountName spec"
  by (simp add: on_first_def split: list.split)

lemma merge_template_account:
  "sp_ServiceAccountName (merge_template quantity affinity sa pt spec) =
     (if pt_ServiceAccountName pt \<noteq> '''' then pt_ServiceAccountName pt else if sa \<noteq> '''' then sa else sp_ServiceAccountName spec)"
proof -
  have acc: "sp_ServiceAccountName (case x of None \<Rightarrow> t | Some y \<Rightarrow> f y) = sp_ServiceAccountName t"
    if "\<And>y. sp_ServiceAccountName (f y) = sp_ServiceAccountName t" for x :: "'x option" and t and f :: "'x \<Rightarrow> PodSpec"
    using that by (cases x) simp_all
  show ?thesis unfolding merge_template_def Let_def by (simp add: acc)
qed

text \<open>
  (C40) A pool without a pod template does not use the account that is created for it: the reconciler prepares a service account with the permissions of a worker,
  but names it in the pods only when a template is given. The workers of a plain pool run under the default account of the namespace.
\<close>

theorem plain_pool_lacks_account:
  assumes "ensureWorkerRBAC c wp k = (Inr sa, k')" "fill_deployment c quantity affinity getenv wp sa replicas dep = Inr d"
  shows "sa = wp_Name wp @ ''-sa'' \<and>
    sp_ServiceAccountName (dl_Pod d) =
      (case ws_PodTemplate (wp_Spec wp) of None \<Rightarrow> ''''
       | Some pt \<Rightarrow> if pt_ServiceAccountName pt \<noteq> '''' then pt_ServiceAccountName pt else wp_Name wp @ ''-sa'')"
proof -
  have sa: "sa = wp_Name wp @ ''-sa''" by (rule ensureWorkerRBAC_name [OF assms(1)])
  then have "sa \<noteq> ''''" by simp
  then show ?thesis using assms(2) sa
    by (auto simp: fill_deployment_def Let_def merge_template_account worker_pod_def empty_PodSpec_def split: sum.splits option.splits)
qed

section \<open>Deletion\<close>

text \<open>
  When a pool is deleted its finalizer stays while the deployment reports ready workers: the deployment is scaled to zero and the request queued again, and the pool is
  not written. But the wait is only as good as the read: any failed read of the deployment, not just its absence, removes the finalizer at once.
\<close>

theorem pool_deletion_waits:
  assumes "\<And>d k. \<exists>k'. pk_updateDeployment c d k = (Inr (), k')"
  shows "(pk_getDeployment c (wp_Namespace wp) (wp_Name wp @ ''-workers'') k = Inr existing \<longrightarrow> 0 < dl_ReadyReplicas existing \<longrightarrow>
      pool_handleDeletion c wp k =
        (Inr (Some 2000000000), if dl_Replicas existing = Some 0 then k else snd (pk_updateDeployment c (existing\<lparr>dl_Replicas := Some 0\<rparr>) k))) \<and>
    (pk_getDeployment c (wp_Namespace wp) (wp_Name wp @ ''-workers'') k = Inl e \<longrightarrow> workerPoolFinalizer \<in> set (wp_Finalizers wp) \<longrightarrow>
      snd (pool_handleDeletion c wp k) =
        snd (pk_updatePool c (wp\<lparr>wp_Finalizers := filter (\<lambda>f. f \<noteq> workerPoolFinalizer) (wp_Finalizers wp)\<rparr>) k))"
proof -
  obtain k' where "pk_updateDeployment c (existing\<lparr>dl_Replicas := Some 0\<rparr>) k = (Inr (), k')" using assms by blast
  then show ?thesis by (auto simp: pool_handleDeletion_def Let_def split: prod.splits sum.splits)
qed

section \<open>Witnesses\<close>

definition ex_pool :: WorkerPool where
  "ex_pool = \<lparr>wp_Name = ''p'', wp_Namespace = ''ns'', wp_Finalizers = [workerPoolFinalizer], wp_Deleting = False,
     wp_Spec = \<lparr>ws_Replicas = None, ws_Image = '''', ws_Concurrency = None, ws_Lease = None, ws_PodTemplate = None, ws_DBSecretRef = '''',
                ws_Metrics = None, ws_GracefulShutdownSeconds = None\<rparr>,
     wp_Status = \<lparr>wst_Replicas = 0, wst_ReadyReplicas = 0, wst_LastReconcileTime = None\<rparr>\<rparr>"

text \<open>A cluster that counts the writes to the pool, and whose deployment has one ready worker or cannot be read.\<close>

definition ex_pool_client :: "Deployment kresult \<Rightarrow> nat pool_client" where
  "ex_pool_client d =
     \<lparr>pk_getPool = \<lambda>_ _ _. Inr ex_pool, pk_updatePool = \<lambda>_ k. (Inr (), Suc k), pk_updatePoolStatus = \<lambda>_ k. (Inr (), k), pk_getDeployment = \<lambda>_ _ _. d,
      pk_updateDeployment = \<lambda>_ k. (Inr (), k), pk_applyDeployment = \<lambda>dep f k. (f dep, k), pk_applyServiceAccount = \<lambda>_ _ k. (Inr (), k),
      pk_applyRole = \<lambda>_ _ _ k. (Inr (), k), pk_applyRoleBinding = \<lambda>_ _ _ _ k. (Inr (), k), pk_setOwner = \<lambda>_ _. None, pk_setDeploymentOwner = \<lambda>_ dep. Inr dep\<rparr>"

theorem plain_pool_lacks_account_witness:
  "\<exists>d. fill_deployment (ex_pool_client (Inl \<lparr>ke_Reason = NotFound, ke_Message = ''''\<rparr>)) Some (\<lambda>_. '''') (\<lambda>_. '''') ex_pool ''p-sa'' 1 (new_deployment ex_pool) = Inr d \<and>
     sp_ServiceAccountName (dl_Pod d) = ''''"
proof -
  let ?c = "ex_pool_client (Inl \<lparr>ke_Reason = NotFound, ke_Message = ''''\<rparr>)"
  have "ensureWorkerRBAC ?c ex_pool 0 = (Inr ''p-sa'', 0)" by (simp add: ensureWorkerRBAC_def ex_pool_client_def ex_pool_def)
  moreover obtain d where "fill_deployment ?c Some (\<lambda>_. '''') (\<lambda>_. '''') ex_pool ''p-sa'' 1 (new_deployment ex_pool) = Inr d"
    by (simp add: fill_deployment_def ex_pool_client_def Let_def)
  ultimately show ?thesis using plain_pool_lacks_account [of ?c ex_pool 0 "''p-sa''" 0 Some "\<lambda>_. ''''" "\<lambda>_. ''''" 1 "new_deployment ex_pool" d]
    by (simp add: ex_pool_def)
qed

theorem pool_deletion_waits_witness:
  "pool_handleDeletion (ex_pool_client (Inr ((new_deployment ex_pool)\<lparr>dl_ReadyReplicas := 1\<rparr>))) ex_pool 0 = (Inr (Some 2000000000), 0)"
  using pool_deletion_waits [of "ex_pool_client (Inr ((new_deployment ex_pool)\<lparr>dl_ReadyReplicas := 1\<rparr>))" ex_pool 0 "(new_deployment ex_pool)\<lparr>dl_ReadyReplicas := 1\<rparr>"]
  by (simp add: ex_pool_client_def)

end
