(* ===== verification/Metrics.thy ===== *)
theory Metrics
  imports Kontroler_Prelude
begin

text \<open>
  \<open>internal/metrics\<close>: the collectors that the controller registers with Prometheus, and the functions that record into them. A collector is a
  family of series, one for each list of label values. A counter starts at zero; a gauge has no value until it is set; a histogram keeps its
  observations here, durations in nanoseconds.
\<close>

section \<open>Collectors\<close>

datatype collector =
    DatabaseConnectionsActive | DatabaseConnectionsIdle | DatabaseConnectionsMax
  | DatabaseQueryDuration | DatabaseQueryTotal | DatabaseTransactionDuration | DatabaseTransactionTotal
  | DatabaseDAGsTotal | DatabaseDAGRunsTotal | DatabaseTaskRunsTotal | DatabaseErrorsTotal
  | DatabaseMigrationDuration | DatabaseMigrationTotal | DatabaseCleanupDuration | DatabaseCleanupItemsTotal
  | TaskOutcomeTotal | TaskExecutionDuration | TaskRetryTotal
  | WorkerQueueSize | WorkerTaskProcessingTotal | TaskClaimsTotal | LeaseRenewTotal | LeaseExpiredTotal | ClaimedInFlight

text \<open>The variable labels of a collector, also of the four for migrations and clean-ups, which nothing writes to; \<open>WithLabelValues\<close> panics when it is given another number of values.\<close>

fun label_names :: "collector \<Rightarrow> string list" where
  "label_names DatabaseConnectionsActive = [''database_type'']"
| "label_names DatabaseConnectionsIdle = [''database_type'']"
| "label_names DatabaseConnectionsMax = [''database_type'']"
| "label_names DatabaseQueryDuration = [''database_type'', ''operation'', ''table'']"
| "label_names DatabaseQueryTotal = [''database_type'', ''operation'', ''table'', ''status'']"
| "label_names DatabaseTransactionDuration = [''database_type'', ''operation'']"
| "label_names DatabaseTransactionTotal = [''database_type'', ''operation'', ''status'']"
| "label_names DatabaseDAGsTotal = [''database_type'', ''namespace'', ''status'']"
| "label_names DatabaseDAGRunsTotal = [''database_type'', ''status'']"
| "label_names DatabaseTaskRunsTotal = [''database_type'', ''status'']"
| "label_names DatabaseErrorsTotal = [''database_type'', ''operation'', ''error_type'']"
| "label_names DatabaseMigrationDuration = [''database_type'', ''migration_version'']"
| "label_names DatabaseMigrationTotal = [''database_type'', ''migration_version'', ''status'']"
| "label_names DatabaseCleanupDuration = [''database_type'', ''cleanup_type'']"
| "label_names DatabaseCleanupItemsTotal = [''database_type'', ''cleanup_type'']"
| "label_names TaskOutcomeTotal = [''namespace'', ''dag_name'', ''task_name'', ''outcome'']"
| "label_names TaskExecutionDuration = [''namespace'', ''dag_name'', ''task_name'', ''outcome'']"
| "label_names TaskRetryTotal = [''namespace'', ''dag_name'', ''task_name'', ''retry_reason'']"
| "label_names WorkerQueueSize = [''worker_id'']"
| "label_names WorkerTaskProcessingTotal = [''worker_id'', ''event_type'']"
| "label_names TaskClaimsTotal = [''worker_id'', ''result'']"
| "label_names LeaseRenewTotal = [''worker_id'', ''result'']"
| "label_names LeaseExpiredTotal = [''worker_id'']"
| "label_names ClaimedInFlight = [''worker_id'']"

type_synonym series = "collector \<times> string list"

record prom =
  counters :: "series \<Rightarrow> nat"
  gauges :: "series \<Rightarrow> int option"
  histograms :: "series \<Rightarrow> int list"

definition new_registry :: prom where
  "new_registry = \<lparr>counters = (\<lambda>_. 0), gauges = (\<lambda>_. None), histograms = (\<lambda>_. [])\<rparr>"

definition inc_counter :: "collector \<Rightarrow> string list \<Rightarrow> prom \<Rightarrow> prom" where
  "inc_counter c ls p = p\<lparr>counters := (counters p)((c, ls) := Suc (counters p (c, ls)))\<rparr>"

definition set_gauge :: "collector \<Rightarrow> string list \<Rightarrow> int \<Rightarrow> prom \<Rightarrow> prom" where
  "set_gauge c ls v p = p\<lparr>gauges := (gauges p)((c, ls) := Some v)\<rparr>"

definition gauge_value :: "collector \<Rightarrow> string list \<Rightarrow> prom \<Rightarrow> int" where
  "gauge_value c ls p = (case gauges p (c, ls) of None \<Rightarrow> 0 | Some v \<Rightarrow> v)"

definition observe :: "collector \<Rightarrow> string list \<Rightarrow> int \<Rightarrow> prom \<Rightarrow> prom" where
  "observe c ls v p = p\<lparr>histograms := (histograms p)((c, ls) := histograms p (c, ls) @ [v])\<rparr>"

lemma counters_simps [simp]:
  "counters (inc_counter c ls p) = (counters p)((c, ls) := Suc (counters p (c, ls)))"
  "counters (set_gauge c ls v p) = counters p" "counters (observe c ls v p) = counters p"
  by (simp_all add: inc_counter_def set_gauge_def observe_def)

lemma gauges_simps [simp]:
  "gauges (inc_counter c ls p) = gauges p"
  "gauges (set_gauge c ls v p) = (gauges p)((c, ls) := Some v)" "gauges (observe c ls v p) = gauges p"
  by (simp_all add: inc_counter_def set_gauge_def observe_def)

lemma histograms_simps [simp]:
  "histograms (inc_counter c ls p) = histograms p" "histograms (set_gauge c ls v p) = histograms p"
  "histograms (observe c ls v p) = (histograms p)((c, ls) := histograms p (c, ls) @ [v])"
  by (simp_all add: inc_counter_def set_gauge_def observe_def)

section \<open>Database metrics\<close>

definition RecordQueryMetrics :: "string \<Rightarrow> string \<Rightarrow> string \<Rightarrow> string \<Rightarrow> int \<Rightarrow> prom \<Rightarrow> prom" where
  "RecordQueryMetrics dbType operation table status duration p =
     inc_counter DatabaseQueryTotal [dbType, operation, table, status] (observe DatabaseQueryDuration [dbType, operation, table] duration p)"

definition RecordTransactionMetrics :: "string \<Rightarrow> string \<Rightarrow> string \<Rightarrow> int \<Rightarrow> prom \<Rightarrow> prom" where
  "RecordTransactionMetrics dbType operation status duration p =
     inc_counter DatabaseTransactionTotal [dbType, operation, status] (observe DatabaseTransactionDuration [dbType, operation] duration p)"

definition RecordErrorMetrics :: "string \<Rightarrow> string \<Rightarrow> string \<Rightarrow> prom \<Rightarrow> prom" where
  "RecordErrorMetrics dbType operation errorType = inc_counter DatabaseErrorsTotal [dbType, operation, errorType]"

definition UpdateConnectionMetrics :: "string \<Rightarrow> int \<Rightarrow> int \<Rightarrow> int \<Rightarrow> prom \<Rightarrow> prom" where
  "UpdateConnectionMetrics dbType active idle maxConns p =
     set_gauge DatabaseConnectionsMax [dbType] maxConns (set_gauge DatabaseConnectionsIdle [dbType] idle (set_gauge DatabaseConnectionsActive [dbType] active p))"

text \<open>The counts are maps from a status; the order in which Go visits them does not matter, since each status has its own series.\<close>

definition set_counts :: "collector \<Rightarrow> (string \<Rightarrow> string list) \<Rightarrow> (string, nat) gomap \<Rightarrow> prom \<Rightarrow> prom" where
  "set_counts c labels counts p = fold (\<lambda>(status, count). set_gauge c (labels status) (int count)) counts p"

definition UpdateContentMetrics ::
    "string \<Rightarrow> string \<Rightarrow> (string, nat) gomap \<Rightarrow> (string, nat) gomap \<Rightarrow> (string, nat) gomap \<Rightarrow> prom \<Rightarrow> prom" where
  "UpdateContentMetrics dbType namespace dags dagRuns taskRuns p =
     set_counts DatabaseTaskRunsTotal (\<lambda>status. [dbType, status]) taskRuns
       (set_counts DatabaseDAGRunsTotal (\<lambda>status. [dbType, status]) dagRuns
         (set_counts DatabaseDAGsTotal (\<lambda>status. [dbType, namespace, status]) dags p))"

lemma set_counts_simps [simp]:
  "set_counts c labels [] p = p"
  "set_counts c labels ((status, count) # counts) p = set_counts c labels counts (set_gauge c (labels status) (int count) p)"
  by (simp_all add: set_counts_def)

lemma set_counts_other [simp]:
  "counters (set_counts c labels counts p) = counters p" "histograms (set_counts c labels counts p) = histograms p"
  by (induction counts arbitrary: p) auto

section \<open>Worker metrics\<close>

definition RecordTaskOutcome :: "string \<Rightarrow> string \<Rightarrow> string \<Rightarrow> string \<Rightarrow> prom \<Rightarrow> prom" where
  "RecordTaskOutcome namespace dagName taskName outcome = inc_counter TaskOutcomeTotal [namespace, dagName, taskName, outcome]"

definition RecordTaskExecutionDuration :: "string \<Rightarrow> string \<Rightarrow> string \<Rightarrow> string \<Rightarrow> int \<Rightarrow> prom \<Rightarrow> prom" where
  "RecordTaskExecutionDuration namespace dagName taskName outcome duration =
     observe TaskExecutionDuration [namespace, dagName, taskName, outcome] duration"

definition RecordTaskRetry :: "string \<Rightarrow> string \<Rightarrow> string \<Rightarrow> string \<Rightarrow> prom \<Rightarrow> prom" where
  "RecordTaskRetry namespace dagName taskName retryReason = inc_counter TaskRetryTotal [namespace, dagName, taskName, retryReason]"

definition UpdateWorkerQueueSize :: "string \<Rightarrow> int \<Rightarrow> prom \<Rightarrow> prom" where
  "UpdateWorkerQueueSize workerID queueSize = set_gauge WorkerQueueSize [workerID] queueSize"

definition RecordWorkerTaskProcessing :: "string \<Rightarrow> string \<Rightarrow> prom \<Rightarrow> prom" where
  "RecordWorkerTaskProcessing workerID eventType = inc_counter WorkerTaskProcessingTotal [workerID, eventType]"

definition RecordTaskClaim :: "string \<Rightarrow> string \<Rightarrow> prom \<Rightarrow> prom" where
  "RecordTaskClaim workerID res = inc_counter TaskClaimsTotal [workerID, res]"

definition RecordLeaseRenew :: "string \<Rightarrow> string \<Rightarrow> prom \<Rightarrow> prom" where
  "RecordLeaseRenew workerID res = inc_counter LeaseRenewTotal [workerID, res]"

text \<open>A loop from zero up to a signed count.\<close>

definition RecordLeaseExpired :: "string \<Rightarrow> int \<Rightarrow> prom \<Rightarrow> prom" where
  "RecordLeaseExpired workerID count p = (inc_counter LeaseExpiredTotal [workerID] ^^ nat count) p"

definition IncClaimed :: "string \<Rightarrow> prom \<Rightarrow> prom" where
  "IncClaimed workerID p = set_gauge ClaimedInFlight [workerID] (gauge_value ClaimedInFlight [workerID] p + 1) p"

definition DecClaimed :: "string \<Rightarrow> prom \<Rightarrow> prom" where
  "DecClaimed workerID p = set_gauge ClaimedInFlight [workerID] (gauge_value ClaimedInFlight [workerID] p - 1) p"

section \<open>Well-typed registries\<close>

text \<open>Every series that was ever written to has as many values as its collector has labels.\<close>

definition prom_typed :: "prom \<Rightarrow> bool" where
  "prom_typed p \<longleftrightarrow> (\<forall>c ls. counters p (c, ls) \<noteq> 0 \<or> gauges p (c, ls) \<noteq> None \<or> histograms p (c, ls) \<noteq> [] \<longrightarrow> length ls = length (label_names c))"

lemma new_registry_typed [simp]: "prom_typed new_registry"
  by (simp add: prom_typed_def new_registry_def)

lemma write_typed:
  assumes "prom_typed p" "length ls = length (label_names c)"
  shows "prom_typed (inc_counter c ls p)" "prom_typed (set_gauge c ls v p)" "prom_typed (observe c ls v p)"
  using assms by (auto simp: prom_typed_def)

lemma set_counts_typed: "prom_typed p \<Longrightarrow> (\<And>status. length (labels status) = length (label_names c)) \<Longrightarrow> prom_typed (set_counts c labels counts p)"
  by (induction counts arbitrary: p) (auto simp: write_typed)

lemma funpow_typed: "prom_typed p \<Longrightarrow> (\<And>q. prom_typed q \<Longrightarrow> prom_typed (f q)) \<Longrightarrow> prom_typed ((f ^^ n) p)"
  by (induction n) simp_all

lemma database_typed:
  assumes "prom_typed p"
  shows "prom_typed (RecordQueryMetrics dbType operation table status duration p)"
    "prom_typed (RecordTransactionMetrics dbType operation status duration p)"
    "prom_typed (RecordErrorMetrics dbType operation errorType p)"
    "prom_typed (UpdateConnectionMetrics dbType active idle maxConns p)"
    "prom_typed (UpdateContentMetrics dbType namespace dags dagRuns taskRuns p)"
  using assms
  by (simp_all add: RecordQueryMetrics_def RecordTransactionMetrics_def RecordErrorMetrics_def UpdateConnectionMetrics_def UpdateContentMetrics_def
    write_typed set_counts_typed)

lemma RecordLeaseExpired_adds:
  "counters (RecordLeaseExpired w count p) = (counters p)((LeaseExpiredTotal, [w]) := counters p (LeaseExpiredTotal, [w]) + nat count)"
proof -
  have "counters ((inc_counter LeaseExpiredTotal [w] ^^ n) p) =
      (counters p)((LeaseExpiredTotal, [w]) := counters p (LeaseExpiredTotal, [w]) + n)" for n
    by (induction n) auto
  then show ?thesis by (simp add: RecordLeaseExpired_def)
qed

lemma worker_typed:
  assumes "prom_typed p"
  shows "prom_typed (RecordTaskOutcome namespace dagName taskName outcome p)"
    "prom_typed (RecordTaskExecutionDuration namespace dagName taskName outcome duration p)"
    "prom_typed (RecordTaskRetry namespace dagName taskName retryReason p)"
    "prom_typed (UpdateWorkerQueueSize w queueSize p)" "prom_typed (RecordWorkerTaskProcessing w eventType p)"
    "prom_typed (RecordTaskClaim w res p)" "prom_typed (RecordLeaseRenew w res p)"
    "prom_typed (RecordLeaseExpired w count p)" "prom_typed (IncClaimed w p)" "prom_typed (DecClaimed w p)"
  using assms
  by (simp_all add: RecordTaskOutcome_def RecordTaskExecutionDuration_def RecordTaskRetry_def UpdateWorkerQueueSize_def RecordWorkerTaskProcessing_def
    RecordTaskClaim_def RecordLeaseRenew_def RecordLeaseExpired_def IncClaimed_def DecClaimed_def write_typed funpow_typed)

end
