(* ===== verification/Migrations.thy ===== *)
theory Migrations
  imports Go_Strconv
begin

text \<open>
  \<open>internal/db/migrations/registry.go\<close> and the two migration managers (\<open>sqliteMigrationManager.go\<close>, \<open>postgresMigrationManager.go\<close>): the embedded
  files whose name has the form \<open>NNN_description.up.sql\<close> are registered in the order of their numbers, and \<open>MigrateUp\<close> runs those that the table
  \<open>schema_migrations\<close> does not list, in one transaction. What a script does to the schema is the argument \<open>exec\<close>.
\<close>

record migration =
  mg_version :: int
  mg_description :: string
  mg_up :: string

section \<open>Registration\<close>

text \<open>The regular expression \<open>^(\d{3})_(.+)\.up\.sql$\<close>, where the dot does not match a line break.\<close>

definition match_name :: "string \<Rightarrow> (string \<times> string) option" where
  "match_name name =
     (let number = take 3 name; rest = drop 4 name; desc = take (length rest - 7) rest
      in if length number = 3 \<and> list_all is_digit number \<and> take 1 (drop 3 name) = ''_'' \<and> 7 < length rest \<and>
            drop (length rest - 7) rest = ''.up.sql'' \<and> CHR 0x0A \<notin> set desc
         then Some (number, desc) else None)"

record entry =
  en_name :: string
  en_dir :: bool
  en_content :: string

definition migration_of :: "entry \<Rightarrow> migration option" where
  "migration_of e =
     (if en_dir e then None
      else case match_name (en_name e) of
             None \<Rightarrow> None
           | Some (number, desc) \<Rightarrow>
               (case Atoi number of
                  Inl _ \<Rightarrow> None
                | Inr version \<Rightarrow>
                    Some \<lparr>mg_version = version, mg_description = map (\<lambda>c. if c = CHR ''-'' then CHR '' '' else c) desc, mg_up = en_content e\<rparr>))"

definition RegisterMigration :: "migration \<Rightarrow> migration list \<Rightarrow> migration list" where
  "RegisterMigration m ms = ms @ [m]"

text \<open>The directory of a database type holds the embedded files; both managers start with no migrations.\<close>

definition RegisterMigrations :: "(string \<Rightarrow> entry list) \<Rightarrow> string \<Rightarrow> migration list result" where
  "RegisterMigrations files dbType =
     (if dbType \<noteq> ''postgresql'' \<and> dbType \<noteq> ''sqlite'' then Inl (Err (''unsupported database type: '' @ dbType))
      else Inr (foldl (\<lambda>ms m. RegisterMigration m ms) [] (sort_key mg_version (List.map_filter migration_of (files dbType)))))"

section \<open>Migration\<close>

text \<open>The schema with its data, and the table of applied migrations, which is missing in a new database.\<close>

record 's schema =
  sc_state :: 's
  sc_applied :: "(int \<times> string) list option"

definition applied_rows :: "'s schema \<Rightarrow> (int \<times> string) list" where
  "applied_rows d = (case sc_applied d of None \<Rightarrow> [] | Some rows \<Rightarrow> rows)"

definition record_migration :: "migration \<Rightarrow> (int \<times> string) list \<Rightarrow> (int \<times> string) list result" where
  "record_migration m rows =
     (if mg_version m \<in> fst ` set rows then Inl (Err ''failed to record migration'')
      else Inr (rows @ [(mg_version m, mg_description m)]))"

fun sq_apply :: "(string \<Rightarrow> 's \<Rightarrow> check \<times> 's) \<Rightarrow> int set \<Rightarrow> migration list \<Rightarrow> 's \<Rightarrow> (int \<times> string) list \<Rightarrow> ('s \<times> (int \<times> string) list) result" where
  "sq_apply exec applied [] s rows = Inr (s, rows)"
| "sq_apply exec applied (m # ms) s rows =
     (if mg_version m \<in> applied then sq_apply exec applied ms s rows
      else case exec (mg_up m) s of
             (Some _, _) \<Rightarrow> Inl (Err ''failed to apply migration'')
           | (None, s') \<Rightarrow>
               (case record_migration m rows of
                  Inl e \<Rightarrow> Inl e
                | Inr rows' \<Rightarrow> sq_apply exec applied ms s' rows'))"

text \<open>The Postgres manager goes on, without a record, when a script fails with \<open>pgx.ErrNoRows\<close>.\<close>

fun pg_apply :: "(string \<Rightarrow> 's \<Rightarrow> check \<times> 's) \<Rightarrow> int set \<Rightarrow> migration list \<Rightarrow> 's \<Rightarrow> (int \<times> string) list \<Rightarrow> ('s \<times> (int \<times> string) list) result" where
  "pg_apply exec applied [] s rows = Inr (s, rows)"
| "pg_apply exec applied (m # ms) s rows =
     (if mg_version m \<in> applied then pg_apply exec applied ms s rows
      else case exec (mg_up m) s of
             (Some e, s') \<Rightarrow> if e = ErrNoRows then pg_apply exec applied ms s' rows else Inl (Err ''failed to apply migration'')
           | (None, s') \<Rightarrow>
               (case record_migration m rows of
                  Inl e \<Rightarrow> Inl e
                | Inr rows' \<Rightarrow> pg_apply exec applied ms s' rows'))"

text \<open>The table is created before the transaction starts, so it stays when the transaction is rolled back.\<close>

definition sq_MigrateUp :: "(string \<Rightarrow> 's \<Rightarrow> check \<times> 's) \<Rightarrow> migration list \<Rightarrow> 's schema \<Rightarrow> unit result \<times> 's schema" where
  "sq_MigrateUp exec ms d =
     (let rows = applied_rows d
      in case sq_apply exec (fst ` set rows) ms (sc_state d) rows of
           Inl e \<Rightarrow> (Inl e, d\<lparr>sc_applied := Some rows\<rparr>)
         | Inr (s, rows') \<Rightarrow> (Inr (), d\<lparr>sc_state := s, sc_applied := Some rows'\<rparr>))"

definition pg_MigrateUp :: "(string \<Rightarrow> 's \<Rightarrow> check \<times> 's) \<Rightarrow> migration list \<Rightarrow> 's schema \<Rightarrow> unit result \<times> 's schema" where
  "pg_MigrateUp exec ms d =
     (let rows = applied_rows d
      in case pg_apply exec (fst ` set rows) ms (sc_state d) rows of
           Inl e \<Rightarrow> (Inl e, d\<lparr>sc_applied := Some rows\<rparr>)
         | Inr (s, rows') \<Rightarrow> (Inr (), d\<lparr>sc_state := s, sc_applied := Some rows'\<rparr>))"

definition sq_InitaliseDatabase :: "(string \<Rightarrow> 's \<Rightarrow> check \<times> 's) \<Rightarrow> migration list \<Rightarrow> 's schema \<Rightarrow> unit result \<times> 's schema" where
  "sq_InitaliseDatabase = sq_MigrateUp"

definition pg_InitaliseDatabase :: "(string \<Rightarrow> 's \<Rightarrow> check \<times> 's) \<Rightarrow> migration list \<Rightarrow> 's schema \<Rightarrow> unit result \<times> 's schema" where
  "pg_InitaliseDatabase = pg_MigrateUp"

section \<open>The scripts that are run\<close>

text \<open>What a run of scripts does when each of them succeeds.\<close>

fun run_scripts :: "(string \<Rightarrow> 's \<Rightarrow> check \<times> 's) \<Rightarrow> migration list \<Rightarrow> 's \<Rightarrow> 's option" where
  "run_scripts exec [] s = Some s"
| "run_scripts exec (m # ms) s = (case exec (mg_up m) s of (Some _, _) \<Rightarrow> None | (None, s') \<Rightarrow> run_scripts exec ms s')"

definition pending :: "(int \<times> string) list \<Rightarrow> migration list \<Rightarrow> migration list" where
  "pending rows ms = filter (\<lambda>m. mg_version m \<notin> fst ` set rows) ms"

definition row_of :: "migration \<Rightarrow> int \<times> string" where
  "row_of m = (mg_version m, mg_description m)"

lemma run_scripts_append: "run_scripts exec (ms @ ns) s = Option.bind (run_scripts exec ms s) (run_scripts exec ns)"
  by (induction ms arbitrary: s) (auto split: option.splits prod.splits)

lemma sq_apply_eq:
  assumes "distinct (map mg_version ms)" "applied \<subseteq> fst ` set rows" "\<forall>m \<in> set ms. mg_version m \<in> fst ` set rows \<longrightarrow> mg_version m \<in> applied"
  shows "sq_apply exec applied ms s rows =
    (case run_scripts exec (filter (\<lambda>m. mg_version m \<notin> applied) ms) s of
       None \<Rightarrow> Inl (Err ''failed to apply migration'')
     | Some s' \<Rightarrow> Inr (s', rows @ map row_of (filter (\<lambda>m. mg_version m \<notin> applied) ms)))"
  using assms
proof (induction ms arbitrary: s rows)
  case (Cons m ms)
  show ?case
  proof (cases "mg_version m \<in> applied")
    case False
    then have "record_migration m rows = Inr (rows @ [row_of m])" using Cons.prems by (auto simp: record_migration_def row_of_def)
    moreover have "\<forall>k \<in> set ms. mg_version k \<in> fst ` set (rows @ [row_of m]) \<longrightarrow> mg_version k \<in> applied"
    proof
      fix k assume "k \<in> set ms"
      moreover from this have "mg_version k \<noteq> mg_version m" using Cons.prems(1) by (metis distinct.simps(2) image_eqI list.set_map list.simps(9))
      ultimately show "mg_version k \<in> fst ` set (rows @ [row_of m]) \<longrightarrow> mg_version k \<in> applied" using Cons.prems(3) by (simp add: row_of_def)
    qed
    then have "sq_apply exec applied ms s' (rows @ [row_of m]) =
        (case run_scripts exec (filter (\<lambda>m. mg_version m \<notin> applied) ms) s' of
           None \<Rightarrow> Inl (Err ''failed to apply migration'')
         | Some s'' \<Rightarrow> Inr (s'', (rows @ [row_of m]) @ map row_of (filter (\<lambda>m. mg_version m \<notin> applied) ms)))" for s'
      using Cons.prems by (intro Cons.IH) (auto simp: row_of_def)
    ultimately show ?thesis using False by (cases "exec (mg_up m) s"; cases "fst (exec (mg_up m) s)") (simp_all split: option.split)
  qed (use Cons in \<open>simp split: option.split\<close>)
qed simp

lemma sq_MigrateUp_eq:
  assumes "distinct (map mg_version ms)"
  shows "sq_MigrateUp exec ms d =
    (case run_scripts exec (pending (applied_rows d) ms) (sc_state d) of
       None \<Rightarrow> (Inl (Err ''failed to apply migration''), d\<lparr>sc_applied := Some (applied_rows d)\<rparr>)
     | Some s \<Rightarrow> (Inr (), d\<lparr>sc_state := s, sc_applied := Some (applied_rows d @ map row_of (pending (applied_rows d) ms))\<rparr>))"
  unfolding sq_MigrateUp_def Let_def pending_def
  by (subst sq_apply_eq) (use assms in \<open>simp_all split: option.split\<close>)

text \<open>Without that error of the driver, both managers migrate alike.\<close>

lemma pg_apply_eq:
  assumes "\<And>up s s'. exec up s \<noteq> (Some ErrNoRows, s')"
  shows "pg_apply exec applied ms s rows = sq_apply exec applied ms s rows"
proof (induction ms arbitrary: s rows)
  case (Cons m ms)
  obtain r s' where r: "exec (mg_up m) s = (r, s')" by fastforce
  then have "r \<noteq> Some ErrNoRows" using assms by metis
  with r Cons show ?case by (cases r) (auto split: sum.splits)
qed simp

lemma pg_MigrateUp_eq: "(\<And>up s s'. exec up s \<noteq> (Some ErrNoRows, s')) \<Longrightarrow> pg_MigrateUp exec ms d = sq_MigrateUp exec ms d"
  by (simp add: pg_MigrateUp_def sq_MigrateUp_def pg_apply_eq)

lemma registered: "foldl (\<lambda>ms m. RegisterMigration m ms) acc xs = acc @ xs"
  by (induction xs arbitrary: acc) (simp_all add: RegisterMigration_def)

lemma RegisterMigrations_sorted:
  assumes "RegisterMigrations files dbType = Inr ms"
  shows "sorted (map mg_version ms) \<and> set ms = {m. \<exists>e \<in> set (files dbType). migration_of e = Some m}"
proof -
  have "ms = sort_key mg_version (List.map_filter migration_of (files dbType))" using assms by (auto simp: RegisterMigrations_def registered split: if_splits)
  moreover have "set (List.map_filter f xs) = {y. \<exists>x \<in> set xs. f x = Some y}" for f :: "entry \<Rightarrow> migration option" and xs
    by (induction xs) (auto simp: map_filter_simps split: option.splits)
  ultimately show ?thesis by simp
qed

text \<open>
  (C16) Upgrading gives what a new installation gives. Take the migrations of a release and those of a later one, which has more files with higher
  numbers. A database that was migrated by the first release and then by the second has the schema and the record of a database migrated by
  the second alone, with either manager; migrating once more changes nothing; and when a script fails, the schema and the record are those before.
\<close>

theorem upgrade_equals_fresh_install:
  assumes "RegisterMigrations files dbType = Inr ms" "RegisterMigrations files' dbType = Inr (ms @ ns)"
    and "distinct (map mg_version (ms @ ns))" "\<And>up s s'. exec up s \<noteq> (Some ErrNoRows, s')"
    and "mig = sq_MigrateUp exec \<or> mig = pg_MigrateUp exec" "sc_applied d = None" "mig ms d = (Inr (), d1)"
  shows "(\<forall>d2. mig (ms @ ns) d1 = (Inr (), d2) \<longrightarrow> mig (ms @ ns) d = (Inr (), d2) \<and> mig (ms @ ns) d2 = (Inr (), d2) \<and>
      sc_applied d2 = Some (map row_of (ms @ ns)) \<and> sorted (map fst (applied_rows d2))) \<and>
    (\<forall>e d2. mig (ms @ ns) d1 = (Inl e, d2) \<longrightarrow> d2 = d1)"
proof -
  have mig: "mig ks = sq_MigrateUp exec ks" for ks
    using assms(5) pg_MigrateUp_eq [OF assms(4)] by (auto simp: fun_eq_iff)
  have dist: "distinct (map mg_version ms)" using assms(3) by simp
  have fresh: "applied_rows d = []" by (simp add: applied_rows_def assms(6))
  then obtain s1 where s1: "run_scripts exec ms (sc_state d) = Some s1" and d1: "d1 = d\<lparr>sc_state := s1, sc_applied := Some (map row_of ms)\<rparr>"
    using assms(7) by (auto simp: mig sq_MigrateUp_eq [OF dist] pending_def split: option.splits)
  have rows1: "applied_rows d1 = map row_of ms" by (simp add: d1 applied_rows_def)
  have "filter (\<lambda>m. mg_version m \<notin> mg_version ` set ms) ns = ns" using assms(3) by (auto simp: filter_id_conv)
  then have pend: "pending (map row_of ms) (ms @ ns) = ns" by (simp add: pending_def row_of_def image_image filter_empty_conv)
  have up: "mig (ms @ ns) d1 = (case run_scripts exec ns s1 of
      None \<Rightarrow> (Inl (Err ''failed to apply migration''), d1)
    | Some s2 \<Rightarrow> (Inr (), d\<lparr>sc_state := s2, sc_applied := Some (map row_of (ms @ ns))\<rparr>))"
    unfolding mig sq_MigrateUp_eq [OF assms(3)] rows1 pend by (simp add: d1 split: option.split)
  have all: "pending (map row_of (ms @ ns)) (ms @ ns) = []" by (auto simp: pending_def row_of_def image_Un image_image filter_empty_conv)
  have "mig (ms @ ns) d = (Inr (), d2) \<and> mig (ms @ ns) d2 = (Inr (), d2) \<and> sc_applied d2 = Some (map row_of (ms @ ns)) \<and> sorted (map fst (applied_rows d2))"
    if up2: "mig (ms @ ns) d1 = (Inr (), d2)" for d2
  proof -
    obtain s2 where s2: "run_scripts exec ns s1 = Some s2" and d2: "d2 = d\<lparr>sc_state := s2, sc_applied := Some (map row_of (ms @ ns))\<rparr>"
      using up2 unfolding up by (auto split: option.splits)
    have rows2: "applied_rows d2 = map row_of (ms @ ns)" by (simp add: d2 applied_rows_def)
    have "mig (ms @ ns) d = (Inr (), d2)"
      unfolding mig sq_MigrateUp_eq [OF assms(3)] fresh by (simp add: pending_def run_scripts_append s1 s2 d2)
    moreover have "mig (ms @ ns) d2 = (Inr (), d2)"
      unfolding mig sq_MigrateUp_eq [OF assms(3)] rows2 all by (simp add: d2)
    moreover have "map fst (applied_rows d2) = map mg_version (ms @ ns)" unfolding rows2 by (simp add: row_of_def)
    ultimately show ?thesis using RegisterMigrations_sorted [OF assms(2)] d2 by simp
  qed
  then show ?thesis unfolding up by (auto split: option.splits)
qed

section \<open>Examples\<close>

definition ex_files :: "string list \<Rightarrow> string \<Rightarrow> entry list" where
  "ex_files names dbType = map (\<lambda>n. \<lparr>en_name = n, en_dir = False, en_content = n\<rparr>) names"

definition ex_exec :: "string \<Rightarrow> string list \<Rightarrow> check \<times> string list" where
  "ex_exec up s = (None, s @ [up])"

lemma ex_registered:
  "RegisterMigrations (ex_files [''001_initial-schema.up.sql'', ''README'']) ''sqlite'' =
    Inr [\<lparr>mg_version = 1, mg_description = ''initial schema'', mg_up = ''001_initial-schema.up.sql''\<rparr>]"
  "RegisterMigrations (ex_files [''002_add.up.sql'', ''001_initial-schema.up.sql'']) ''sqlite'' =
    Inr ([\<lparr>mg_version = 1, mg_description = ''initial schema'', mg_up = ''001_initial-schema.up.sql''\<rparr>] @
      [\<lparr>mg_version = 2, mg_description = ''add'', mg_up = ''002_add.up.sql''\<rparr>])"
  by code_simp+

theorem upgrade_equals_fresh_install_witness:
  "\<exists>ms ns d2. RegisterMigrations (ex_files [''002_add.up.sql'', ''001_initial-schema.up.sql'']) ''sqlite'' = Inr (ms @ ns) \<and>
    sq_MigrateUp ex_exec (ms @ ns) (snd (sq_MigrateUp ex_exec ms \<lparr>sc_state = [], sc_applied = None\<rparr>)) = (Inr (), d2) \<and>
    sq_MigrateUp ex_exec (ms @ ns) \<lparr>sc_state = [], sc_applied = None\<rparr> = (Inr (), d2) \<and> ns \<noteq> []"
proof -
  let ?ms = "[\<lparr>mg_version = 1, mg_description = ''initial schema'', mg_up = ''001_initial-schema.up.sql''\<rparr>]"
  let ?ns = "[\<lparr>mg_version = 2, mg_description = ''add'', mg_up = ''002_add.up.sql''\<rparr>]"
  let ?d = "\<lparr>sc_state = [], sc_applied = None\<rparr>" and ?d1 = "snd (sq_MigrateUp ex_exec ?ms \<lparr>sc_state = [], sc_applied = None\<rparr>)"
  have d1: "sq_MigrateUp ex_exec ?ms ?d = (Inr (), ?d1)" by (simp add: sq_MigrateUp_def ex_exec_def applied_rows_def record_migration_def)
  obtain d2 where d2: "sq_MigrateUp ex_exec (?ms @ ?ns) ?d1 = (Inr (), d2)"
    by (simp add: sq_MigrateUp_def ex_exec_def applied_rows_def record_migration_def)
  have "sq_MigrateUp ex_exec (?ms @ ?ns) ?d = (Inr (), d2)"
    using upgrade_equals_fresh_install [OF ex_registered, of ex_exec "sq_MigrateUp ex_exec" ?d ?d1] d1 d2 by (simp add: ex_exec_def)
  with d2 ex_registered(2) show ?thesis by blast
qed

end
