(* ===== verification/Db_Metrics.thy ===== *)
theory Db_Metrics
  imports Metrics Migrations Db_Manager Postgres_Integrity
begin

text \<open>
  \<open>internal/db/sqliteMetrics.go\<close> and \<open>internal/db/postgresMetrics.go\<close>: the two managers wrapped with metrics. Every method calls the wrapped
  manager, records the call as a query or as a transaction, and returns what the manager returned. The first argument of a method is the time the
  call took. Once a minute the content of the database is counted into gauges.
\<close>

section \<open>Recording a call\<close>

type_synonym 'a metered = "db \<Rightarrow> prom \<Rightarrow> 'a result \<times> db \<times> prom"

fun err_of :: "'a result \<Rightarrow> check" where
  "err_of (Inl e) = Some e"
| "err_of (Inr _) = None"

abbreviation failed :: "'a result \<Rightarrow> bool" where
  "failed r \<equiv> err_of r \<noteq> None"

definition ms_recordQueryMetrics :: "string \<Rightarrow> string \<Rightarrow> int \<Rightarrow> check \<Rightarrow> prom \<Rightarrow> prom" where
  "ms_recordQueryMetrics operation table t err p =
     (case err of
        None \<Rightarrow> RecordQueryMetrics ''sqlite'' operation table ''success'' t p
      | Some _ \<Rightarrow> RecordQueryMetrics ''sqlite'' operation table ''error'' t (RecordErrorMetrics ''sqlite'' operation ''query_error'' p))"

definition ms_recordTransactionMetrics :: "string \<Rightarrow> int \<Rightarrow> check \<Rightarrow> prom \<Rightarrow> prom" where
  "ms_recordTransactionMetrics operation t err p =
     (case err of
        None \<Rightarrow> RecordTransactionMetrics ''sqlite'' operation ''success'' t p
      | Some _ \<Rightarrow> RecordTransactionMetrics ''sqlite'' operation ''error'' t (RecordErrorMetrics ''sqlite'' operation ''transaction_error'' p))"

definition mp_recordQueryMetrics :: "string \<Rightarrow> string \<Rightarrow> int \<Rightarrow> check \<Rightarrow> prom \<Rightarrow> prom" where
  "mp_recordQueryMetrics operation table t err p =
     (case err of
        None \<Rightarrow> RecordQueryMetrics ''postgresql'' operation table ''success'' t p
      | Some _ \<Rightarrow> RecordQueryMetrics ''postgresql'' operation table ''error'' t (RecordErrorMetrics ''postgresql'' operation ''query_error'' p))"

definition mp_recordTransactionMetrics :: "string \<Rightarrow> int \<Rightarrow> check \<Rightarrow> prom \<Rightarrow> prom" where
  "mp_recordTransactionMetrics operation t err p =
     (case err of
        None \<Rightarrow> RecordTransactionMetrics ''postgresql'' operation ''success'' t p
      | Some _ \<Rightarrow>
          RecordTransactionMetrics ''postgresql'' operation ''error'' t (RecordErrorMetrics ''postgresql'' operation ''transaction_error'' p))"

text \<open>The shape of every method, and the operations of the managers that only read.\<close>

definition measured :: "(check \<Rightarrow> prom \<Rightarrow> prom) \<Rightarrow> ('s \<Rightarrow> 'a result \<times> 's) \<Rightarrow> 's \<Rightarrow> prom \<Rightarrow> 'a result \<times> 's \<times> prom" where
  "measured record f s p = (let (r, s') = f s in (r, s', record (err_of r) p))"

definition query_op :: "(db \<Rightarrow> 'a result) \<Rightarrow> 'a op" where
  "query_op f s = (f s, s)"

definition read_op :: "(db \<Rightarrow> 'a) \<Rightarrow> 'a op" where
  "read_op f s = (Inr (f s), s)"

definition claims_op :: "(db \<Rightarrow> 'a \<times> db) \<Rightarrow> 'a op" where
  "claims_op f s = (let (claims, s') = f s in (Inr claims, s'))"

section \<open>The methods over SQLite\<close>

definition ms_InitaliseDatabase :: "int \<Rightarrow> (string \<Rightarrow> 's \<Rightarrow> check \<times> 's) \<Rightarrow> migration list \<Rightarrow> 's schema \<Rightarrow> prom \<Rightarrow> unit result \<times> 's schema \<times> prom" where
  "ms_InitaliseDatabase t exec ms = measured (ms_recordTransactionMetrics ''initialize_database'' t) (sq_InitaliseDatabase exec ms)"

definition ms_GetID :: "int \<Rightarrow> string \<Rightarrow> string metered" where
  "ms_GetID t newUUID = measured (ms_recordQueryMetrics ''select'' ''idtable'' t) (GetID newUUID)"

definition ms_GetDAGsToStartAndUpdate :: "int \<Rightarrow> cron \<Rightarrow> (int \<Rightarrow> int \<Rightarrow> bool) \<Rightarrow> int \<Rightarrow> int \<Rightarrow> DagInfo list metered" where
  "ms_GetDAGsToStartAndUpdate t cron due tm now = measured (ms_recordTransactionMetrics ''get_dags_to_start_and_update'' t) (GetDAGsToStartAndUpdate cron (due tm) now)"

definition ms_InsertDAG :: "int \<Rightarrow> (DAGSpec \<Rightarrow> string) \<Rightarrow> (nat \<Rightarrow> string) \<Rightarrow> cron \<Rightarrow> int \<Rightarrow> DAG \<Rightarrow> string \<Rightarrow> unit metered" where
  "ms_InsertDAG t digest uuid cron now dag namespace = measured (ms_recordTransactionMetrics ''insert_dag'' t) (InsertDAG digest uuid cron now dag namespace)"

definition ms_CreateDAGRun :: "int \<Rightarrow> string \<Rightarrow> DagRunSpec \<Rightarrow> ParameterSpec list \<Rightarrow> string option \<Rightarrow> int \<Rightarrow> nat metered" where
  "ms_CreateDAGRun t name dag parameters pvcName now = measured (ms_recordTransactionMetrics ''create_dag_run'' t) (CreateDAGRun name dag parameters pvcName now)"

definition ms_TaskRunExists :: "int \<Rightarrow> nat \<Rightarrow> nat \<Rightarrow> bool metered" where
  "ms_TaskRunExists t runId dagTaskId = measured (ms_recordQueryMetrics ''select'' ''task_runs'' t) (read_op (TaskRunExists runId dagTaskId))"

definition ms_GetStartingTasks :: "int \<Rightarrow> string \<Rightarrow> nat \<Rightarrow> Task list metered" where
  "ms_GetStartingTasks t dagName dagrun = measured (ms_recordQueryMetrics ''select'' ''tasks'' t) (query_op (GetStartingTasks dagName dagrun))"

definition ms_MarkTaskAsStarted :: "int \<Rightarrow> nat \<Rightarrow> nat \<Rightarrow> nat metered" where
  "ms_MarkTaskAsStarted t runId taskId = measured (ms_recordQueryMetrics ''insert'' ''task_runs'' t) (MarkTaskAsStarted runId taskId)"

definition ms_IncrementAttempts :: "int \<Rightarrow> nat \<Rightarrow> unit metered" where
  "ms_IncrementAttempts t taskRunId = measured (ms_recordQueryMetrics ''update'' ''task_runs'' t) (IncrementAttempts taskRunId)"

definition ms_MarkSuccessAndGetNextTasks :: "int \<Rightarrow> nat \<Rightarrow> Task list metered" where
  "ms_MarkSuccessAndGetNextTasks t taskRunId = measured (ms_recordTransactionMetrics ''mark_success_and_get_next_tasks'' t) (MarkSuccessAndGetNextTasks taskRunId)"

definition ms_MarkDAGRunOutcome :: "int \<Rightarrow> nat \<Rightarrow> string \<Rightarrow> unit metered" where
  "ms_MarkDAGRunOutcome t dagRunId outcome = measured (ms_recordQueryMetrics ''update'' ''dag_runs'' t) (MarkDAGRunOutcome dagRunId outcome)"

definition ms_GetDagParameters :: "int \<Rightarrow> string \<Rightarrow> (string \<rightharpoonup> Parameter) metered" where
  "ms_GetDagParameters t dagName = measured (ms_recordQueryMetrics ''select'' ''dag_parameters'' t) (read_op (GetDagParameters dagName))"

definition ms_DagExists :: "int \<Rightarrow> string \<Rightarrow> (bool \<times> int) metered" where
  "ms_DagExists t dagName = measured (ms_recordQueryMetrics ''select'' ''dags'' t) (read_op (DagExists dagName))"

definition ms_ShouldRerun :: "int \<Rightarrow> nat \<Rightarrow> int \<Rightarrow> bool metered" where
  "ms_ShouldRerun t taskRunid exitCode = measured (ms_recordQueryMetrics ''select'' ''task_runs'' t) (query_op (ShouldRerun taskRunid exitCode))"

definition ms_MarkTaskAsFailed :: "int \<Rightarrow> nat \<Rightarrow> unit metered" where
  "ms_MarkTaskAsFailed t taskRunId = measured (ms_recordQueryMetrics ''update'' ''task_runs'' t) (MarkTaskAsFailed taskRunId)"

definition ms_MarkPodStatus :: "int \<Rightarrow> string \<Rightarrow> string \<Rightarrow> nat \<Rightarrow> string \<Rightarrow> int \<Rightarrow> int option \<Rightarrow> string \<Rightarrow> unit metered" where
  "ms_MarkPodStatus t podUid name taskRunID status tStamp exitCode namespace = measured (ms_recordQueryMetrics ''upsert'' ''task_pods'' t) (MarkPodStatus podUid name taskRunID status tStamp exitCode namespace)"

definition ms_DeleteDAG :: "int \<Rightarrow> string \<Rightarrow> string \<Rightarrow> string list metered" where
  "ms_DeleteDAG t name namespace = measured (ms_recordTransactionMetrics ''delete_dag'' t) (DeleteDAG name namespace)"

definition ms_FindExistingDAGRun :: "int \<Rightarrow> string \<Rightarrow> bool metered" where
  "ms_FindExistingDAGRun t name = measured (ms_recordQueryMetrics ''select'' ''dag_runs'' t) (read_op (FindExistingDAGRun name))"

definition ms_GetTaskScriptAndInjectorImage :: "int \<Rightarrow> nat \<Rightarrow> (string \<times> string) metered" where
  "ms_GetTaskScriptAndInjectorImage t taskId = measured (ms_recordQueryMetrics ''select'' ''tasks'' t) (query_op (GetTaskScriptAndInjectorImage taskId))"

definition ms_AddTask :: "int \<Rightarrow> (DagTaskSpec \<Rightarrow> string) \<Rightarrow> string \<Rightarrow> DagTaskSpec \<Rightarrow> string \<Rightarrow> unit metered" where
  "ms_AddTask t digest name spec namespace = measured (ms_recordTransactionMetrics ''add_task'' t) (AddTask digest name spec namespace)"

definition ms_DeleteTask :: "int \<Rightarrow> string \<Rightarrow> string \<Rightarrow> unit metered" where
  "ms_DeleteTask t taskName namespace = measured (ms_recordTransactionMetrics ''delete_task'' t) (DeleteTask taskName namespace)"

definition ms_GetTaskRefsParameters :: "int \<Rightarrow> TaskRef list \<Rightarrow> (TaskRef \<rightharpoonup> string list) metered" where
  "ms_GetTaskRefsParameters t taskRefs = measured (ms_recordQueryMetrics ''select'' ''tasks'' t) (query_op (\<lambda>s. GetTaskRefsParameters taskRefs s Map.empty))"

definition ms_GetWebhookDetails :: "int \<Rightarrow> nat \<Rightarrow> Webhook metered" where
  "ms_GetWebhookDetails t dagRunID = measured (ms_recordQueryMetrics ''select'' ''webhooks'' t) (query_op (GetWebhookDetails dagRunID))"

definition ms_GetWorkspacePVCTemplate :: "int \<Rightarrow> nat \<Rightarrow> PVC option metered" where
  "ms_GetWorkspacePVCTemplate t dagId = measured (ms_recordQueryMetrics ''select'' ''workspace'' t) (read_op (GetWorkspacePVCTemplate dagId))"

definition ms_CheckIfAllTasksDone :: "int \<Rightarrow> nat \<Rightarrow> bool metered" where
  "ms_CheckIfAllTasksDone t dagRunID = measured (ms_recordQueryMetrics ''select'' ''dag_runs'' t) (query_op (CheckIfAllTasksDone dagRunID))"

definition ms_MarkConnectingTasksAsSuspended :: "int \<Rightarrow> nat \<Rightarrow> nat \<Rightarrow> string list metered" where
  "ms_MarkConnectingTasksAsSuspended t dagRunID taskRunId = measured (ms_recordTransactionMetrics ''mark_connecting_tasks_suspended'' t) (MarkConnectingTasksAsSuspended dagRunID taskRunId)"

definition ms_AddPodDuration :: "int \<Rightarrow> nat \<Rightarrow> int \<Rightarrow> unit metered" where
  "ms_AddPodDuration t taskRunId durationSec = measured (ms_recordQueryMetrics ''update'' ''task_pods'' t) (AddPodDuration taskRunId durationSec)"

definition ms_SuspendDagRun :: "int \<Rightarrow> nat \<Rightarrow> RunningPodInfo list metered" where
  "ms_SuspendDagRun t dagRunId = measured (ms_recordTransactionMetrics ''suspend_dag_run'' t) (SuspendDagRun dagRunId)"

definition ms_DeleteDagRun :: "int \<Rightarrow> nat \<Rightarrow> unit metered" where
  "ms_DeleteDagRun t dagRunId = measured (ms_recordTransactionMetrics ''delete_dag_run'' t) (DeleteDagRun dagRunId)"

definition ms_DagrunExists :: "int \<Rightarrow> nat \<Rightarrow> bool metered" where
  "ms_DagrunExists t dagrunId = measured (ms_recordQueryMetrics ''select'' ''dag_runs'' t) (read_op (DagrunExists dagrunId))"

definition ms_GetTaskRunInfo :: "int \<Rightarrow> nat \<Rightarrow> (string \<times> string \<times> string) metered" where
  "ms_GetTaskRunInfo t taskRunId = measured (ms_recordQueryMetrics ''select'' ''task_runs'' t) (query_op (GetTaskRunInfo taskRunId))"

definition ms_SaveRetryEnv :: "int \<Rightarrow> nat \<Rightarrow> string \<Rightarrow> unit metered" where
  "ms_SaveRetryEnv t taskRunId envJSON = measured (ms_recordQueryMetrics ''update'' ''task_runs'' t) (SaveRetryEnv taskRunId envJSON)"

definition ms_ClaimTaskByID :: "int \<Rightarrow> int \<Rightarrow> string \<Rightarrow> int \<Rightarrow> int \<Rightarrow> nat \<Rightarrow> TaskClaim metered" where
  "ms_ClaimTaskByID t tz workerId leaseTTL now taskRunId = measured (ms_recordQueryMetrics ''update'' ''task_runs'' t) (ClaimTaskByID tz workerId leaseTTL now taskRunId)"

definition ms_GetTaskRunStatus :: "int \<Rightarrow> nat \<Rightarrow> string metered" where
  "ms_GetTaskRunStatus t taskRunId = measured (ms_recordQueryMetrics ''select'' ''task_runs'' t) (query_op (GetTaskRunStatus taskRunId))"

definition ms_ClaimTasks :: "int \<Rightarrow> int \<Rightarrow> nat \<Rightarrow> string \<Rightarrow> int \<Rightarrow> int \<Rightarrow> TaskClaim list metered" where
  "ms_ClaimTasks t tz limit workerId leaseTTL now = measured (ms_recordQueryMetrics ''update'' ''task_runs'' t) (claims_op (ClaimTasks tz limit workerId leaseTTL now))"

definition ms_RenewLease :: "int \<Rightarrow> int \<Rightarrow> string \<Rightarrow> int \<Rightarrow> int \<Rightarrow> nat \<Rightarrow> unit metered" where
  "ms_RenewLease t tz workerId leaseTTL now taskRunId = measured (ms_recordQueryMetrics ''update'' ''task_runs'' t) (RenewLease tz workerId leaseTTL now taskRunId)"

definition ms_FinalizeClaimToRunning :: "int \<Rightarrow> string \<Rightarrow> nat \<Rightarrow> unit metered" where
  "ms_FinalizeClaimToRunning t workerId taskRunId = measured (ms_recordQueryMetrics ''update'' ''task_runs'' t) (FinalizeClaimToRunning workerId taskRunId)"

definition ms_RecoverExpiredLeases :: "int \<Rightarrow> int \<Rightarrow> nat metered" where
  "ms_RecoverExpiredLeases t now = measured (ms_recordQueryMetrics ''update'' ''task_runs'' t) (RecoverExpiredLeases now)"

section \<open>The methods over Postgres\<close>

definition mp_InitaliseDatabase :: "int \<Rightarrow> (string \<Rightarrow> 's \<Rightarrow> check \<times> 's) \<Rightarrow> migration list \<Rightarrow> 's schema \<Rightarrow> prom \<Rightarrow> unit result \<times> 's schema \<times> prom" where
  "mp_InitaliseDatabase t exec ms = measured (mp_recordTransactionMetrics ''initialize_database'' t) (pg_InitaliseDatabase exec ms)"

definition mp_GetID :: "int \<Rightarrow> string \<Rightarrow> string metered" where
  "mp_GetID t newUUID = measured (mp_recordQueryMetrics ''select'' ''idtable'' t) (pg_GetID newUUID)"

definition mp_GetDAGsToStartAndUpdate :: "int \<Rightarrow> cron \<Rightarrow> int \<Rightarrow> int \<Rightarrow> DagInfo list metered" where
  "mp_GetDAGsToStartAndUpdate t cron tm now = measured (mp_recordTransactionMetrics ''get_dags_to_start_and_update'' t) (pg_GetDAGsToStartAndUpdate cron tm now)"

definition mp_InsertDAG :: "int \<Rightarrow> (DAGSpec \<Rightarrow> string) \<Rightarrow> (nat \<Rightarrow> string) \<Rightarrow> cron \<Rightarrow> int \<Rightarrow> DAG \<Rightarrow> string \<Rightarrow> unit metered" where
  "mp_InsertDAG t digest uuid cron now dag namespace = measured (mp_recordTransactionMetrics ''insert_dag'' t) (pg_InsertDAG digest uuid cron now dag namespace)"

definition mp_CreateDAGRun :: "int \<Rightarrow> string \<Rightarrow> DagRunSpec \<Rightarrow> ParameterSpec list \<Rightarrow> string option \<Rightarrow> int \<Rightarrow> nat metered" where
  "mp_CreateDAGRun t name dag parameters pvcName now = measured (mp_recordTransactionMetrics ''create_dag_run'' t) (pg_CreateDAGRun name dag parameters pvcName now)"

definition mp_TaskRunExists :: "int \<Rightarrow> nat \<Rightarrow> nat \<Rightarrow> bool metered" where
  "mp_TaskRunExists t runId dagTaskId = measured (mp_recordQueryMetrics ''select'' ''task_runs'' t) (read_op (pg_TaskRunExists runId dagTaskId))"

definition mp_GetStartingTasks :: "int \<Rightarrow> string \<Rightarrow> nat \<Rightarrow> Task list metered" where
  "mp_GetStartingTasks t dagName dagrun = measured (mp_recordQueryMetrics ''select'' ''tasks'' t) (query_op (pg_GetStartingTasks dagName dagrun))"

definition mp_MarkTaskAsStarted :: "int \<Rightarrow> nat \<Rightarrow> nat \<Rightarrow> nat metered" where
  "mp_MarkTaskAsStarted t runId taskId = measured (mp_recordQueryMetrics ''insert'' ''task_runs'' t) (pg_MarkTaskAsStarted runId taskId)"

definition mp_IncrementAttempts :: "int \<Rightarrow> nat \<Rightarrow> unit metered" where
  "mp_IncrementAttempts t taskRunId = measured (mp_recordQueryMetrics ''update'' ''task_runs'' t) (pg_IncrementAttempts taskRunId)"

definition mp_MarkSuccessAndGetNextTasks :: "int \<Rightarrow> nat \<Rightarrow> Task list metered" where
  "mp_MarkSuccessAndGetNextTasks t taskRunId = measured (mp_recordTransactionMetrics ''mark_success_and_get_next_tasks'' t) (pg_MarkSuccessAndGetNextTasks taskRunId)"

definition mp_MarkDAGRunOutcome :: "int \<Rightarrow> nat \<Rightarrow> string \<Rightarrow> unit metered" where
  "mp_MarkDAGRunOutcome t dagRunId outcome = measured (mp_recordQueryMetrics ''update'' ''dag_runs'' t) (pg_MarkDAGRunOutcome dagRunId outcome)"

definition mp_GetDagParameters :: "int \<Rightarrow> string \<Rightarrow> (string \<rightharpoonup> Parameter) metered" where
  "mp_GetDagParameters t dagName = measured (mp_recordQueryMetrics ''select'' ''dag_parameters'' t) (read_op (pg_GetDagParameters dagName))"

definition mp_DagExists :: "int \<Rightarrow> string \<Rightarrow> (bool \<times> int) metered" where
  "mp_DagExists t dagName = measured (mp_recordQueryMetrics ''select'' ''dags'' t) (read_op (pg_DagExists dagName))"

definition mp_ShouldRerun :: "int \<Rightarrow> nat \<Rightarrow> int \<Rightarrow> bool metered" where
  "mp_ShouldRerun t taskRunid exitCode = measured (mp_recordQueryMetrics ''select'' ''task_runs'' t) (query_op (pg_ShouldRerun taskRunid exitCode))"

definition mp_MarkTaskAsFailed :: "int \<Rightarrow> nat \<Rightarrow> unit metered" where
  "mp_MarkTaskAsFailed t taskRunId = measured (mp_recordQueryMetrics ''update'' ''task_runs'' t) (pg_MarkTaskAsFailed taskRunId)"

definition mp_MarkPodStatus :: "int \<Rightarrow> string \<Rightarrow> string \<Rightarrow> nat \<Rightarrow> string \<Rightarrow> int \<Rightarrow> int option \<Rightarrow> string \<Rightarrow> unit metered" where
  "mp_MarkPodStatus t podUid name taskRunID status tStamp exitCode namespace = measured (mp_recordQueryMetrics ''upsert'' ''task_pods'' t) (pg_MarkPodStatus podUid name taskRunID status tStamp exitCode namespace)"

definition mp_DeleteDAG :: "int \<Rightarrow> string \<Rightarrow> string \<Rightarrow> string list metered" where
  "mp_DeleteDAG t name namespace = measured (mp_recordTransactionMetrics ''delete_dag'' t) (pg_DeleteDAG name namespace)"

definition mp_FindExistingDAGRun :: "int \<Rightarrow> string \<Rightarrow> bool metered" where
  "mp_FindExistingDAGRun t name = measured (mp_recordQueryMetrics ''select'' ''dag_runs'' t) (read_op (pg_FindExistingDAGRun name))"

definition mp_GetTaskScriptAndInjectorImage :: "int \<Rightarrow> nat \<Rightarrow> (string \<times> string) metered" where
  "mp_GetTaskScriptAndInjectorImage t taskId = measured (mp_recordQueryMetrics ''select'' ''tasks'' t) (query_op (pg_GetTaskScriptAndInjectorImage taskId))"

definition mp_AddTask :: "int \<Rightarrow> (DagTaskSpec \<Rightarrow> string) \<Rightarrow> string \<Rightarrow> DagTaskSpec \<Rightarrow> string \<Rightarrow> unit metered" where
  "mp_AddTask t digest name spec namespace = measured (mp_recordTransactionMetrics ''add_task'' t) (pg_AddTask digest name spec namespace)"

definition mp_DeleteTask :: "int \<Rightarrow> string \<Rightarrow> string \<Rightarrow> unit metered" where
  "mp_DeleteTask t taskName namespace = measured (mp_recordTransactionMetrics ''delete_task'' t) (pg_DeleteTask taskName namespace)"

definition mp_GetTaskRefsParameters :: "int \<Rightarrow> TaskRef list \<Rightarrow> (TaskRef \<rightharpoonup> string list) metered" where
  "mp_GetTaskRefsParameters t taskRefs = measured (mp_recordQueryMetrics ''select'' ''tasks'' t) (query_op (pg_GetTaskRefsParameters taskRefs))"

definition mp_GetWebhookDetails :: "int \<Rightarrow> nat \<Rightarrow> Webhook metered" where
  "mp_GetWebhookDetails t dagRunID = measured (mp_recordQueryMetrics ''select'' ''webhooks'' t) (query_op (pg_GetWebhookDetails dagRunID))"

definition mp_GetWorkspacePVCTemplate :: "int \<Rightarrow> nat \<Rightarrow> PVC option metered" where
  "mp_GetWorkspacePVCTemplate t dagId = measured (mp_recordQueryMetrics ''select'' ''workspace'' t) (read_op (pg_GetWorkspacePVCTemplate dagId))"

definition mp_CheckIfAllTasksDone :: "int \<Rightarrow> nat \<Rightarrow> bool metered" where
  "mp_CheckIfAllTasksDone t dagRunID = measured (mp_recordQueryMetrics ''select'' ''dag_runs'' t) (query_op (pg_CheckIfAllTasksDone dagRunID))"

definition mp_MarkConnectingTasksAsSuspended :: "int \<Rightarrow> nat \<Rightarrow> nat \<Rightarrow> string list metered" where
  "mp_MarkConnectingTasksAsSuspended t dagRunID taskRunId = measured (mp_recordTransactionMetrics ''mark_connecting_tasks_suspended'' t) (db_MarkConnectingTasksAsSuspended PostgresManager dagRunID taskRunId)"

definition mp_AddPodDuration :: "int \<Rightarrow> nat \<Rightarrow> int \<Rightarrow> unit metered" where
  "mp_AddPodDuration t taskRunId durationSec = measured (mp_recordQueryMetrics ''update'' ''task_pods'' t) (pg_AddPodDuration taskRunId durationSec)"

definition mp_SuspendDagRun :: "int \<Rightarrow> nat \<Rightarrow> RunningPodInfo list metered" where
  "mp_SuspendDagRun t dagRunId = measured (mp_recordTransactionMetrics ''suspend_dag_run'' t) (pg_SuspendDagRun dagRunId)"

definition mp_DeleteDagRun :: "int \<Rightarrow> nat \<Rightarrow> unit metered" where
  "mp_DeleteDagRun t dagRunId = measured (mp_recordTransactionMetrics ''delete_dag_run'' t) (pg_DeleteDagRun dagRunId)"

definition mp_DagrunExists :: "int \<Rightarrow> nat \<Rightarrow> bool metered" where
  "mp_DagrunExists t dagrunId = measured (mp_recordQueryMetrics ''select'' ''dag_runs'' t) (read_op (pg_DagrunExists dagrunId))"

definition mp_GetTaskRunInfo :: "int \<Rightarrow> nat \<Rightarrow> (string \<times> string \<times> string) metered" where
  "mp_GetTaskRunInfo t taskRunId = measured (mp_recordQueryMetrics ''select'' ''task_runs'' t) (query_op (pg_GetTaskRunInfo taskRunId))"

definition mp_SaveRetryEnv :: "int \<Rightarrow> nat \<Rightarrow> string \<Rightarrow> unit metered" where
  "mp_SaveRetryEnv t taskRunId envJSON = measured (mp_recordQueryMetrics ''update'' ''task_runs'' t) (pg_SaveRetryEnv taskRunId envJSON)"

definition mp_ClaimTaskByID :: "int \<Rightarrow> string \<Rightarrow> int \<Rightarrow> int \<Rightarrow> nat \<Rightarrow> TaskClaim metered" where
  "mp_ClaimTaskByID t workerId leaseTTL now taskRunId = measured (mp_recordQueryMetrics ''update'' ''task_runs'' t) (pg_ClaimTaskByID workerId leaseTTL now taskRunId)"

definition mp_GetTaskRunStatus :: "int \<Rightarrow> nat \<Rightarrow> string metered" where
  "mp_GetTaskRunStatus t taskRunId = measured (mp_recordQueryMetrics ''select'' ''task_runs'' t) (query_op (pg_GetTaskRunStatus taskRunId))"

definition mp_ClaimTasks :: "int \<Rightarrow> nat set \<Rightarrow> nat \<Rightarrow> string \<Rightarrow> int \<Rightarrow> int \<Rightarrow> TaskClaim list metered" where
  "mp_ClaimTasks t locked limit workerId leaseTTL now = measured (mp_recordQueryMetrics ''update'' ''task_runs'' t) (claims_op (pg_ClaimTasks locked limit workerId leaseTTL now))"

definition mp_RenewLease :: "int \<Rightarrow> string \<Rightarrow> int \<Rightarrow> int \<Rightarrow> nat \<Rightarrow> unit metered" where
  "mp_RenewLease t workerId leaseTTL now taskRunId = measured (mp_recordQueryMetrics ''update'' ''task_runs'' t) (pg_RenewLease workerId leaseTTL now taskRunId)"

definition mp_FinalizeClaimToRunning :: "int \<Rightarrow> string \<Rightarrow> nat \<Rightarrow> unit metered" where
  "mp_FinalizeClaimToRunning t workerId taskRunId = measured (mp_recordQueryMetrics ''update'' ''task_runs'' t) (pg_FinalizeClaimToRunning workerId taskRunId)"

definition mp_RecoverExpiredLeases :: "int \<Rightarrow> int \<Rightarrow> nat metered" where
  "mp_RecoverExpiredLeases t now = measured (mp_recordQueryMetrics ''update'' ''task_runs'' t) (pg_RecoverExpiredLeases now)"

definition mp_AddPendingTaskRun :: "int \<Rightarrow> nat \<Rightarrow> nat \<Rightarrow> nat metered" where
  "mp_AddPendingTaskRun t runId dagTaskId = measured (mp_recordQueryMetrics ''insert'' ''task_runs'' t) (pg_AddPendingTaskRun runId dagTaskId)"

definition mp_GetTaskForRun :: "int \<Rightarrow> nat \<Rightarrow> nat \<Rightarrow> (Task \<times> string \<times> string) metered" where
  "mp_GetTaskForRun t runId dagTaskId = measured (mp_recordQueryMetrics ''select'' ''tasks'' t) (query_op (pg_GetTaskForRun runId dagTaskId))"

section \<open>The content of the database\<close>

text \<open>The queries of one collection; each of them may fail, for instance when its context of thirty seconds is over.\<close>

datatype content_query = DagCounts | DagScan string | RunCounts string | TaskRunCounts string

definition count_where :: "('a \<Rightarrow> bool) \<Rightarrow> 'a list \<Rightarrow> nat" where
  "count_where P xs = length (filter P xs)"

definition dag_counts :: "string \<Rightarrow> db \<Rightarrow> (string, nat) gomap" where
  "dag_counts namespace s =
     (let rows = filter (\<lambda>d. dg_namespace d = namespace) (dags s)
      in [(''active'', count_where (\<lambda>d. dg_active d \<and> \<not> dg_suspended d) rows), (''suspended'', count_where (\<lambda>d. dg_active d \<and> dg_suspended d) rows),
          (''inactive'', count_where (\<lambda>d. \<not> dg_active d) rows)])"

definition status_counts :: "string list \<Rightarrow> (string, nat) gomap" where
  "status_counts statuses = map (\<lambda>status. (status, count_list statuses status)) [''running'', ''success'', ''failed'', ''pending'']"

definition dag_run_counts :: "string \<Rightarrow> db \<Rightarrow> (string, nat) gomap" where
  "dag_run_counts namespace s = status_counts [rn_status r. r <- runs s, d <- dags s, rn_dag_id r = dg_id d, dg_namespace d = namespace]"

definition task_run_counts :: "string \<Rightarrow> db \<Rightarrow> (string, nat) gomap" where
  "task_run_counts namespace s =
     status_counts [tr_status t. t <- taskruns s, r <- runs s, tr_run_id t = rn_id r, d <- dags s, rn_dag_id r = dg_id d, dg_namespace d = namespace]"

text \<open>One namespace; a failed query leaves the gauges of the namespace as they are.\<close>

definition namespace_metrics :: "string \<Rightarrow> (content_query \<Rightarrow> bool) \<Rightarrow> db \<Rightarrow> string \<Rightarrow> prom \<Rightarrow> prom" where
  "namespace_metrics dbType fails s namespace p =
     (if fails (DagScan namespace) then RecordErrorMetrics dbType ''collect_content_metrics'' ''dag_scan_error'' p
      else if fails (RunCounts namespace) then RecordErrorMetrics dbType ''collect_content_metrics'' ''dag_run_counts_error'' p
      else if fails (TaskRunCounts namespace) then RecordErrorMetrics dbType ''collect_content_metrics'' ''task_run_counts_error'' p
      else UpdateContentMetrics dbType namespace (dag_counts namespace s) (dag_run_counts namespace s) (task_run_counts namespace s) p)"

text \<open>The groups come in an order of the database's choice, which is the argument \<open>order\<close>.\<close>

definition namespaces :: "(string list \<Rightarrow> string list) \<Rightarrow> db \<Rightarrow> string list" where
  "namespaces order s = order (remdups (map dg_namespace (dags s)))"

definition ms_updateContentMetrics :: "(content_query \<Rightarrow> bool) \<Rightarrow> (string list \<Rightarrow> string list) \<Rightarrow> db \<Rightarrow> prom \<Rightarrow> prom" where
  "ms_updateContentMetrics fails order s p =
     (if fails DagCounts then RecordErrorMetrics ''sqlite'' ''collect_content_metrics'' ''dag_counts_error'' p
      else fold (namespace_metrics ''sqlite'' fails s) (namespaces order s) p)"

definition mp_updateContentMetrics :: "(content_query \<Rightarrow> bool) \<Rightarrow> (string list \<Rightarrow> string list) \<Rightarrow> db \<Rightarrow> prom \<Rightarrow> prom" where
  "mp_updateContentMetrics fails order s p =
     (if fails DagCounts then RecordErrorMetrics ''postgresql'' ''collect_content_metrics'' ''dag_counts_error'' p
      else fold (namespace_metrics ''postgresql'' fails s) (namespaces order s) p)"

text \<open>
  The two collectors run in the background until the manager is stopped: once at the start, then at every tick of their timer. The arguments are what
  they find each time.
\<close>

record pool_stats =
  ps_active :: int
  ps_idle :: int
  ps_max :: int

definition ms_collectConnectionMetrics :: "pool_stats \<Rightarrow> pool_stats list \<Rightarrow> prom \<Rightarrow> prom" where
  "ms_collectConnectionMetrics first ticks p =
     fold (\<lambda>st. UpdateConnectionMetrics ''sqlite'' (ps_active st) (ps_idle st) (ps_max st)) ticks
       (UpdateConnectionMetrics ''sqlite'' (ps_active first) (ps_idle first) (ps_max first) p)"

definition mp_collectConnectionMetrics :: "pool_stats \<Rightarrow> pool_stats list \<Rightarrow> prom \<Rightarrow> prom" where
  "mp_collectConnectionMetrics first ticks p =
     fold (\<lambda>st. UpdateConnectionMetrics ''postgresql'' (ps_active st) (ps_idle st) (ps_max st)) ticks
       (UpdateConnectionMetrics ''postgresql'' (ps_active first) (ps_idle first) (ps_max first) p)"

type_synonym content_tick = "(content_query \<Rightarrow> bool) \<times> (string list \<Rightarrow> string list) \<times> db"

definition ms_collectContentMetrics :: "content_tick \<Rightarrow> content_tick list \<Rightarrow> prom \<Rightarrow> prom" where
  "ms_collectContentMetrics first ticks p =
     fold (\<lambda>(fails, order, s). ms_updateContentMetrics fails order s) ticks ((\<lambda>(fails, order, s). ms_updateContentMetrics fails order s) first p)"

definition mp_collectContentMetrics :: "content_tick \<Rightarrow> content_tick list \<Rightarrow> prom \<Rightarrow> prom" where
  "mp_collectContentMetrics first ticks p =
     fold (\<lambda>(fails, order, s). mp_updateContentMetrics fails order s) ticks ((\<lambda>(fails, order, s). mp_updateContentMetrics fails order s) first p)"

section \<open>The log of the calls\<close>

text \<open>What the metrics should tell: the calls in their order, with their labels and whether they failed.\<close>

datatype sample = Query string string bool | Transaction string bool

definition status_of :: "bool \<Rightarrow> string" where
  "status_of bad = (if bad then ''error'' else ''success'')"

definition shows_log :: "string \<Rightarrow> sample list \<Rightarrow> prom \<Rightarrow> bool" where
  "shows_log dbType log p \<longleftrightarrow>
     (\<forall>operation table bad. counters p (DatabaseQueryTotal, [dbType, operation, table, status_of bad]) = count_list log (Query operation table bad)) \<and>
     (\<forall>operation bad. counters p (DatabaseTransactionTotal, [dbType, operation, status_of bad]) = count_list log (Transaction operation bad)) \<and>
     (\<forall>operation table. length (histograms p (DatabaseQueryDuration, [dbType, operation, table])) =
        count_list log (Query operation table True) + count_list log (Query operation table False)) \<and>
     (\<forall>operation. length (histograms p (DatabaseTransactionDuration, [dbType, operation])) =
        count_list log (Transaction operation True) + count_list log (Transaction operation False)) \<and>
     (\<forall>operation. counters p (DatabaseErrorsTotal, [dbType, operation, ''query_error'']) = length (filter (\<lambda>e. \<exists>table. e = Query operation table True) log)) \<and>
     (\<forall>operation. counters p (DatabaseErrorsTotal, [dbType, operation, ''transaction_error'']) = count_list log (Transaction operation True))"

text \<open>The contract of the two recorders, and what a sequence of calls needs of it.\<close>

locale call_recorder =
  fixes query :: "string \<Rightarrow> string \<Rightarrow> int \<Rightarrow> check \<Rightarrow> prom \<Rightarrow> prom"
    and transaction :: "string \<Rightarrow> int \<Rightarrow> check \<Rightarrow> prom \<Rightarrow> prom"
    and dbType :: string
  assumes query_shows: "shows_log dbType log p \<Longrightarrow> shows_log dbType (log @ [Query operation table (err \<noteq> None)]) (query operation table t err p)"
    and transaction_shows: "shows_log dbType log p \<Longrightarrow> shows_log dbType (log @ [Transaction operation (err \<noteq> None)]) (transaction operation t err p)"
    and query_typed: "prom_typed p \<Longrightarrow> prom_typed (query operation table t err p)"
    and transaction_typed: "prom_typed p \<Longrightarrow> prom_typed (transaction operation t err p)"
begin

definition good :: "sample list \<Rightarrow> db \<times> prom \<Rightarrow> bool" where
  "good log c \<longleftrightarrow> shows_log dbType log (snd c) \<and> prom_typed (snd c)"

lemma good_query: "good log (s, p) \<Longrightarrow> measured (query operation table t) f s p = (r, c) \<Longrightarrow> good (log @ [Query operation table (failed r)]) c"
  by (cases "f s") (auto simp: measured_def good_def query_shows query_typed simp del: not_None_eq)

lemma good_transaction: "good log (s, p) \<Longrightarrow> measured (transaction operation t) f s p = (r, c) \<Longrightarrow> good (log @ [Transaction operation (failed r)]) c"
  by (cases "f s") (auto simp: measured_def good_def transaction_shows transaction_typed simp del: not_None_eq)

end

lemma shows_log_query:
  assumes "shows_log dbType log p"
  shows "shows_log dbType (log @ [Query operation table True]) (RecordQueryMetrics dbType operation table ''error'' t (RecordErrorMetrics dbType operation ''query_error'' p))"
    "shows_log dbType (log @ [Query operation table False]) (RecordQueryMetrics dbType operation table ''success'' t p)"
  using assms by (auto simp: shows_log_def RecordQueryMetrics_def RecordErrorMetrics_def status_of_def all_bool_eq)

lemma shows_log_transaction:
  assumes "shows_log dbType log p"
  shows "shows_log dbType (log @ [Transaction operation True])
      (RecordTransactionMetrics dbType operation ''error'' t (RecordErrorMetrics dbType operation ''transaction_error'' p))"
    "shows_log dbType (log @ [Transaction operation False]) (RecordTransactionMetrics dbType operation ''success'' t p)"
  using assms by (auto simp: shows_log_def RecordTransactionMetrics_def RecordErrorMetrics_def status_of_def all_bool_eq)

interpretation ms_rec: call_recorder ms_recordQueryMetrics ms_recordTransactionMetrics "''sqlite''"
  by unfold_locales
    (auto simp: ms_recordQueryMetrics_def ms_recordTransactionMetrics_def shows_log_query shows_log_transaction database_typed split: option.split simp del: not_None_eq)

interpretation mp_rec: call_recorder mp_recordQueryMetrics mp_recordTransactionMetrics "''postgresql''"
  by unfold_locales
    (auto simp: mp_recordQueryMetrics_def mp_recordTransactionMetrics_def shows_log_query shows_log_transaction database_typed split: option.split simp del: not_None_eq)

section \<open>Sequences of calls\<close>

text \<open>
  The calls on a database that has been initialised. The wrapped \<open>InitaliseDatabase\<close>, which records one more transaction, works on the
  schema and not on the tables (theory \<open>Migrations\<close>), and is no step here.
\<close>

inductive mp_run :: "sample list \<Rightarrow> db \<times> prom \<Rightarrow> db \<times> prom \<Rightarrow> bool" where
  idle: "mp_run [] c c"
| GetID: "mp_run log c (s, m) \<Longrightarrow> mp_GetID t newUUID s m = (r, c') \<Longrightarrow> mp_run (log @ [Query ''select'' ''idtable'' (failed r)]) c c'"
| GetDAGsToStartAndUpdate: "mp_run log c (s, m) \<Longrightarrow> mp_GetDAGsToStartAndUpdate t cron tm now s m = (r, c') \<Longrightarrow> mp_run (log @ [Transaction ''get_dags_to_start_and_update'' (failed r)]) c c'"
| InsertDAG: "mp_run log c (s, m) \<Longrightarrow> mp_InsertDAG t digest uuid cron now dag namespace s m = (r, c') \<Longrightarrow> mp_run (log @ [Transaction ''insert_dag'' (failed r)]) c c'"
| CreateDAGRun: "mp_run log c (s, m) \<Longrightarrow> mp_CreateDAGRun t name dag parameters pvcName now s m = (r, c') \<Longrightarrow> mp_run (log @ [Transaction ''create_dag_run'' (failed r)]) c c'"
| TaskRunExists: "mp_run log c (s, m) \<Longrightarrow> mp_TaskRunExists t runId dagTaskId s m = (r, c') \<Longrightarrow> mp_run (log @ [Query ''select'' ''task_runs'' (failed r)]) c c'"
| GetStartingTasks: "mp_run log c (s, m) \<Longrightarrow> mp_GetStartingTasks t dagName dagrun s m = (r, c') \<Longrightarrow> mp_run (log @ [Query ''select'' ''tasks'' (failed r)]) c c'"
| MarkTaskAsStarted: "mp_run log c (s, m) \<Longrightarrow> mp_MarkTaskAsStarted t runId taskId s m = (r, c') \<Longrightarrow> mp_run (log @ [Query ''insert'' ''task_runs'' (failed r)]) c c'"
| IncrementAttempts: "mp_run log c (s, m) \<Longrightarrow> mp_IncrementAttempts t taskRunId s m = (r, c') \<Longrightarrow> mp_run (log @ [Query ''update'' ''task_runs'' (failed r)]) c c'"
| MarkSuccessAndGetNextTasks: "mp_run log c (s, m) \<Longrightarrow> mp_MarkSuccessAndGetNextTasks t taskRunId s m = (r, c') \<Longrightarrow> mp_run (log @ [Transaction ''mark_success_and_get_next_tasks'' (failed r)]) c c'"
| MarkDAGRunOutcome: "mp_run log c (s, m) \<Longrightarrow> mp_MarkDAGRunOutcome t dagRunId outcome s m = (r, c') \<Longrightarrow> mp_run (log @ [Query ''update'' ''dag_runs'' (failed r)]) c c'"
| GetDagParameters: "mp_run log c (s, m) \<Longrightarrow> mp_GetDagParameters t dagName s m = (r, c') \<Longrightarrow> mp_run (log @ [Query ''select'' ''dag_parameters'' (failed r)]) c c'"
| DagExists: "mp_run log c (s, m) \<Longrightarrow> mp_DagExists t dagName s m = (r, c') \<Longrightarrow> mp_run (log @ [Query ''select'' ''dags'' (failed r)]) c c'"
| ShouldRerun: "mp_run log c (s, m) \<Longrightarrow> mp_ShouldRerun t taskRunid exitCode s m = (r, c') \<Longrightarrow> mp_run (log @ [Query ''select'' ''task_runs'' (failed r)]) c c'"
| MarkTaskAsFailed: "mp_run log c (s, m) \<Longrightarrow> mp_MarkTaskAsFailed t taskRunId s m = (r, c') \<Longrightarrow> mp_run (log @ [Query ''update'' ''task_runs'' (failed r)]) c c'"
| MarkPodStatus: "mp_run log c (s, m) \<Longrightarrow> mp_MarkPodStatus t podUid name taskRunID status tStamp exitCode namespace s m = (r, c') \<Longrightarrow> mp_run (log @ [Query ''upsert'' ''task_pods'' (failed r)]) c c'"
| DeleteDAG: "mp_run log c (s, m) \<Longrightarrow> mp_DeleteDAG t name namespace s m = (r, c') \<Longrightarrow> mp_run (log @ [Transaction ''delete_dag'' (failed r)]) c c'"
| FindExistingDAGRun: "mp_run log c (s, m) \<Longrightarrow> mp_FindExistingDAGRun t name s m = (r, c') \<Longrightarrow> mp_run (log @ [Query ''select'' ''dag_runs'' (failed r)]) c c'"
| GetTaskScriptAndInjectorImage: "mp_run log c (s, m) \<Longrightarrow> mp_GetTaskScriptAndInjectorImage t taskId s m = (r, c') \<Longrightarrow> mp_run (log @ [Query ''select'' ''tasks'' (failed r)]) c c'"
| AddTask: "mp_run log c (s, m) \<Longrightarrow> mp_AddTask t digest name spec namespace s m = (r, c') \<Longrightarrow> mp_run (log @ [Transaction ''add_task'' (failed r)]) c c'"
| DeleteTask: "mp_run log c (s, m) \<Longrightarrow> mp_DeleteTask t taskName namespace s m = (r, c') \<Longrightarrow> mp_run (log @ [Transaction ''delete_task'' (failed r)]) c c'"
| GetTaskRefsParameters: "mp_run log c (s, m) \<Longrightarrow> mp_GetTaskRefsParameters t taskRefs s m = (r, c') \<Longrightarrow> mp_run (log @ [Query ''select'' ''tasks'' (failed r)]) c c'"
| GetWebhookDetails: "mp_run log c (s, m) \<Longrightarrow> mp_GetWebhookDetails t dagRunID s m = (r, c') \<Longrightarrow> mp_run (log @ [Query ''select'' ''webhooks'' (failed r)]) c c'"
| GetWorkspacePVCTemplate: "mp_run log c (s, m) \<Longrightarrow> mp_GetWorkspacePVCTemplate t dagId s m = (r, c') \<Longrightarrow> mp_run (log @ [Query ''select'' ''workspace'' (failed r)]) c c'"
| CheckIfAllTasksDone: "mp_run log c (s, m) \<Longrightarrow> mp_CheckIfAllTasksDone t dagRunID s m = (r, c') \<Longrightarrow> mp_run (log @ [Query ''select'' ''dag_runs'' (failed r)]) c c'"
| MarkConnectingTasksAsSuspended: "mp_run log c (s, m) \<Longrightarrow> mp_MarkConnectingTasksAsSuspended t dagRunID taskRunId s m = (r, c') \<Longrightarrow> mp_run (log @ [Transaction ''mark_connecting_tasks_suspended'' (failed r)]) c c'"
| AddPodDuration: "mp_run log c (s, m) \<Longrightarrow> mp_AddPodDuration t taskRunId durationSec s m = (r, c') \<Longrightarrow> mp_run (log @ [Query ''update'' ''task_pods'' (failed r)]) c c'"
| SuspendDagRun: "mp_run log c (s, m) \<Longrightarrow> mp_SuspendDagRun t dagRunId s m = (r, c') \<Longrightarrow> mp_run (log @ [Transaction ''suspend_dag_run'' (failed r)]) c c'"
| DeleteDagRun: "mp_run log c (s, m) \<Longrightarrow> mp_DeleteDagRun t dagRunId s m = (r, c') \<Longrightarrow> mp_run (log @ [Transaction ''delete_dag_run'' (failed r)]) c c'"
| DagrunExists: "mp_run log c (s, m) \<Longrightarrow> mp_DagrunExists t dagrunId s m = (r, c') \<Longrightarrow> mp_run (log @ [Query ''select'' ''dag_runs'' (failed r)]) c c'"
| GetTaskRunInfo: "mp_run log c (s, m) \<Longrightarrow> mp_GetTaskRunInfo t taskRunId s m = (r, c') \<Longrightarrow> mp_run (log @ [Query ''select'' ''task_runs'' (failed r)]) c c'"
| SaveRetryEnv: "mp_run log c (s, m) \<Longrightarrow> mp_SaveRetryEnv t taskRunId envJSON s m = (r, c') \<Longrightarrow> mp_run (log @ [Query ''update'' ''task_runs'' (failed r)]) c c'"
| ClaimTaskByID: "mp_run log c (s, m) \<Longrightarrow> mp_ClaimTaskByID t workerId leaseTTL now taskRunId s m = (r, c') \<Longrightarrow> mp_run (log @ [Query ''update'' ''task_runs'' (failed r)]) c c'"
| GetTaskRunStatus: "mp_run log c (s, m) \<Longrightarrow> mp_GetTaskRunStatus t taskRunId s m = (r, c') \<Longrightarrow> mp_run (log @ [Query ''select'' ''task_runs'' (failed r)]) c c'"
| ClaimTasks: "mp_run log c (s, m) \<Longrightarrow> mp_ClaimTasks t locked limit workerId leaseTTL now s m = (r, c') \<Longrightarrow> mp_run (log @ [Query ''update'' ''task_runs'' (failed r)]) c c'"
| RenewLease: "mp_run log c (s, m) \<Longrightarrow> mp_RenewLease t workerId leaseTTL now taskRunId s m = (r, c') \<Longrightarrow> mp_run (log @ [Query ''update'' ''task_runs'' (failed r)]) c c'"
| FinalizeClaimToRunning: "mp_run log c (s, m) \<Longrightarrow> mp_FinalizeClaimToRunning t workerId taskRunId s m = (r, c') \<Longrightarrow> mp_run (log @ [Query ''update'' ''task_runs'' (failed r)]) c c'"
| RecoverExpiredLeases: "mp_run log c (s, m) \<Longrightarrow> mp_RecoverExpiredLeases t now s m = (r, c') \<Longrightarrow> mp_run (log @ [Query ''update'' ''task_runs'' (failed r)]) c c'"
| AddPendingTaskRun: "mp_run log c (s, m) \<Longrightarrow> mp_AddPendingTaskRun t runId dagTaskId s m = (r, c') \<Longrightarrow> mp_run (log @ [Query ''insert'' ''task_runs'' (failed r)]) c c'"
| GetTaskForRun: "mp_run log c (s, m) \<Longrightarrow> mp_GetTaskForRun t runId dagTaskId s m = (r, c') \<Longrightarrow> mp_run (log @ [Query ''select'' ''tasks'' (failed r)]) c c'"

text \<open>The wrapper of SQLite has no method for two operations of the interface: calls of them go to the embedded manager and leave no trace.\<close>

inductive ms_run :: "sample list \<Rightarrow> db \<times> prom \<Rightarrow> db \<times> prom \<Rightarrow> bool" where
  idle: "ms_run [] c c"
| GetID: "ms_run log c (s, m) \<Longrightarrow> ms_GetID t newUUID s m = (r, c') \<Longrightarrow> ms_run (log @ [Query ''select'' ''idtable'' (failed r)]) c c'"
| GetDAGsToStartAndUpdate: "ms_run log c (s, m) \<Longrightarrow> ms_GetDAGsToStartAndUpdate t cron due tm now s m = (r, c') \<Longrightarrow> ms_run (log @ [Transaction ''get_dags_to_start_and_update'' (failed r)]) c c'"
| InsertDAG: "ms_run log c (s, m) \<Longrightarrow> ms_InsertDAG t digest uuid cron now dag namespace s m = (r, c') \<Longrightarrow> ms_run (log @ [Transaction ''insert_dag'' (failed r)]) c c'"
| CreateDAGRun: "ms_run log c (s, m) \<Longrightarrow> ms_CreateDAGRun t name dag parameters pvcName now s m = (r, c') \<Longrightarrow> ms_run (log @ [Transaction ''create_dag_run'' (failed r)]) c c'"
| TaskRunExists: "ms_run log c (s, m) \<Longrightarrow> ms_TaskRunExists t runId dagTaskId s m = (r, c') \<Longrightarrow> ms_run (log @ [Query ''select'' ''task_runs'' (failed r)]) c c'"
| GetStartingTasks: "ms_run log c (s, m) \<Longrightarrow> ms_GetStartingTasks t dagName dagrun s m = (r, c') \<Longrightarrow> ms_run (log @ [Query ''select'' ''tasks'' (failed r)]) c c'"
| MarkTaskAsStarted: "ms_run log c (s, m) \<Longrightarrow> ms_MarkTaskAsStarted t runId taskId s m = (r, c') \<Longrightarrow> ms_run (log @ [Query ''insert'' ''task_runs'' (failed r)]) c c'"
| IncrementAttempts: "ms_run log c (s, m) \<Longrightarrow> ms_IncrementAttempts t taskRunId s m = (r, c') \<Longrightarrow> ms_run (log @ [Query ''update'' ''task_runs'' (failed r)]) c c'"
| MarkSuccessAndGetNextTasks: "ms_run log c (s, m) \<Longrightarrow> ms_MarkSuccessAndGetNextTasks t taskRunId s m = (r, c') \<Longrightarrow> ms_run (log @ [Transaction ''mark_success_and_get_next_tasks'' (failed r)]) c c'"
| MarkDAGRunOutcome: "ms_run log c (s, m) \<Longrightarrow> ms_MarkDAGRunOutcome t dagRunId outcome s m = (r, c') \<Longrightarrow> ms_run (log @ [Query ''update'' ''dag_runs'' (failed r)]) c c'"
| GetDagParameters: "ms_run log c (s, m) \<Longrightarrow> ms_GetDagParameters t dagName s m = (r, c') \<Longrightarrow> ms_run (log @ [Query ''select'' ''dag_parameters'' (failed r)]) c c'"
| DagExists: "ms_run log c (s, m) \<Longrightarrow> ms_DagExists t dagName s m = (r, c') \<Longrightarrow> ms_run (log @ [Query ''select'' ''dags'' (failed r)]) c c'"
| ShouldRerun: "ms_run log c (s, m) \<Longrightarrow> ms_ShouldRerun t taskRunid exitCode s m = (r, c') \<Longrightarrow> ms_run (log @ [Query ''select'' ''task_runs'' (failed r)]) c c'"
| MarkTaskAsFailed: "ms_run log c (s, m) \<Longrightarrow> ms_MarkTaskAsFailed t taskRunId s m = (r, c') \<Longrightarrow> ms_run (log @ [Query ''update'' ''task_runs'' (failed r)]) c c'"
| MarkPodStatus: "ms_run log c (s, m) \<Longrightarrow> ms_MarkPodStatus t podUid name taskRunID status tStamp exitCode namespace s m = (r, c') \<Longrightarrow> ms_run (log @ [Query ''upsert'' ''task_pods'' (failed r)]) c c'"
| DeleteDAG: "ms_run log c (s, m) \<Longrightarrow> ms_DeleteDAG t name namespace s m = (r, c') \<Longrightarrow> ms_run (log @ [Transaction ''delete_dag'' (failed r)]) c c'"
| FindExistingDAGRun: "ms_run log c (s, m) \<Longrightarrow> ms_FindExistingDAGRun t name s m = (r, c') \<Longrightarrow> ms_run (log @ [Query ''select'' ''dag_runs'' (failed r)]) c c'"
| GetTaskScriptAndInjectorImage: "ms_run log c (s, m) \<Longrightarrow> ms_GetTaskScriptAndInjectorImage t taskId s m = (r, c') \<Longrightarrow> ms_run (log @ [Query ''select'' ''tasks'' (failed r)]) c c'"
| AddTask: "ms_run log c (s, m) \<Longrightarrow> ms_AddTask t digest name spec namespace s m = (r, c') \<Longrightarrow> ms_run (log @ [Transaction ''add_task'' (failed r)]) c c'"
| DeleteTask: "ms_run log c (s, m) \<Longrightarrow> ms_DeleteTask t taskName namespace s m = (r, c') \<Longrightarrow> ms_run (log @ [Transaction ''delete_task'' (failed r)]) c c'"
| GetTaskRefsParameters: "ms_run log c (s, m) \<Longrightarrow> ms_GetTaskRefsParameters t taskRefs s m = (r, c') \<Longrightarrow> ms_run (log @ [Query ''select'' ''tasks'' (failed r)]) c c'"
| GetWebhookDetails: "ms_run log c (s, m) \<Longrightarrow> ms_GetWebhookDetails t dagRunID s m = (r, c') \<Longrightarrow> ms_run (log @ [Query ''select'' ''webhooks'' (failed r)]) c c'"
| GetWorkspacePVCTemplate: "ms_run log c (s, m) \<Longrightarrow> ms_GetWorkspacePVCTemplate t dagId s m = (r, c') \<Longrightarrow> ms_run (log @ [Query ''select'' ''workspace'' (failed r)]) c c'"
| CheckIfAllTasksDone: "ms_run log c (s, m) \<Longrightarrow> ms_CheckIfAllTasksDone t dagRunID s m = (r, c') \<Longrightarrow> ms_run (log @ [Query ''select'' ''dag_runs'' (failed r)]) c c'"
| MarkConnectingTasksAsSuspended: "ms_run log c (s, m) \<Longrightarrow> ms_MarkConnectingTasksAsSuspended t dagRunID taskRunId s m = (r, c') \<Longrightarrow> ms_run (log @ [Transaction ''mark_connecting_tasks_suspended'' (failed r)]) c c'"
| AddPodDuration: "ms_run log c (s, m) \<Longrightarrow> ms_AddPodDuration t taskRunId durationSec s m = (r, c') \<Longrightarrow> ms_run (log @ [Query ''update'' ''task_pods'' (failed r)]) c c'"
| SuspendDagRun: "ms_run log c (s, m) \<Longrightarrow> ms_SuspendDagRun t dagRunId s m = (r, c') \<Longrightarrow> ms_run (log @ [Transaction ''suspend_dag_run'' (failed r)]) c c'"
| DeleteDagRun: "ms_run log c (s, m) \<Longrightarrow> ms_DeleteDagRun t dagRunId s m = (r, c') \<Longrightarrow> ms_run (log @ [Transaction ''delete_dag_run'' (failed r)]) c c'"
| DagrunExists: "ms_run log c (s, m) \<Longrightarrow> ms_DagrunExists t dagrunId s m = (r, c') \<Longrightarrow> ms_run (log @ [Query ''select'' ''dag_runs'' (failed r)]) c c'"
| GetTaskRunInfo: "ms_run log c (s, m) \<Longrightarrow> ms_GetTaskRunInfo t taskRunId s m = (r, c') \<Longrightarrow> ms_run (log @ [Query ''select'' ''task_runs'' (failed r)]) c c'"
| SaveRetryEnv: "ms_run log c (s, m) \<Longrightarrow> ms_SaveRetryEnv t taskRunId envJSON s m = (r, c') \<Longrightarrow> ms_run (log @ [Query ''update'' ''task_runs'' (failed r)]) c c'"
| ClaimTaskByID: "ms_run log c (s, m) \<Longrightarrow> ms_ClaimTaskByID t tz workerId leaseTTL now taskRunId s m = (r, c') \<Longrightarrow> ms_run (log @ [Query ''update'' ''task_runs'' (failed r)]) c c'"
| GetTaskRunStatus: "ms_run log c (s, m) \<Longrightarrow> ms_GetTaskRunStatus t taskRunId s m = (r, c') \<Longrightarrow> ms_run (log @ [Query ''select'' ''task_runs'' (failed r)]) c c'"
| ClaimTasks: "ms_run log c (s, m) \<Longrightarrow> ms_ClaimTasks t tz limit workerId leaseTTL now s m = (r, c') \<Longrightarrow> ms_run (log @ [Query ''update'' ''task_runs'' (failed r)]) c c'"
| RenewLease: "ms_run log c (s, m) \<Longrightarrow> ms_RenewLease t tz workerId leaseTTL now taskRunId s m = (r, c') \<Longrightarrow> ms_run (log @ [Query ''update'' ''task_runs'' (failed r)]) c c'"
| FinalizeClaimToRunning: "ms_run log c (s, m) \<Longrightarrow> ms_FinalizeClaimToRunning t workerId taskRunId s m = (r, c') \<Longrightarrow> ms_run (log @ [Query ''update'' ''task_runs'' (failed r)]) c c'"
| RecoverExpiredLeases: "ms_run log c (s, m) \<Longrightarrow> ms_RecoverExpiredLeases t now s m = (r, c') \<Longrightarrow> ms_run (log @ [Query ''update'' ''task_runs'' (failed r)]) c c'"
| AddPendingTaskRun: "ms_run log c (s, m) \<Longrightarrow> AddPendingTaskRun runId dagTaskId s = (r, s') \<Longrightarrow> ms_run log c (s', m)"
| GetTaskForRun: "ms_run log c (s, m) \<Longrightarrow> GetTaskForRun runId dagTaskId s = r \<Longrightarrow> ms_run log c (s, m)"

lemmas ms_methods =
  ms_GetID_def
  ms_GetDAGsToStartAndUpdate_def
  ms_InsertDAG_def
  ms_CreateDAGRun_def
  ms_TaskRunExists_def
  ms_GetStartingTasks_def
  ms_MarkTaskAsStarted_def
  ms_IncrementAttempts_def
  ms_MarkSuccessAndGetNextTasks_def
  ms_MarkDAGRunOutcome_def
  ms_GetDagParameters_def
  ms_DagExists_def
  ms_ShouldRerun_def
  ms_MarkTaskAsFailed_def
  ms_MarkPodStatus_def
  ms_DeleteDAG_def
  ms_FindExistingDAGRun_def
  ms_GetTaskScriptAndInjectorImage_def
  ms_AddTask_def
  ms_DeleteTask_def
  ms_GetTaskRefsParameters_def
  ms_GetWebhookDetails_def
  ms_GetWorkspacePVCTemplate_def
  ms_CheckIfAllTasksDone_def
  ms_MarkConnectingTasksAsSuspended_def
  ms_AddPodDuration_def
  ms_SuspendDagRun_def
  ms_DeleteDagRun_def
  ms_DagrunExists_def
  ms_GetTaskRunInfo_def
  ms_SaveRetryEnv_def
  ms_ClaimTaskByID_def
  ms_GetTaskRunStatus_def
  ms_ClaimTasks_def
  ms_RenewLease_def
  ms_FinalizeClaimToRunning_def
  ms_RecoverExpiredLeases_def

lemmas mp_methods =
  mp_GetID_def
  mp_GetDAGsToStartAndUpdate_def
  mp_InsertDAG_def
  mp_CreateDAGRun_def
  mp_TaskRunExists_def
  mp_GetStartingTasks_def
  mp_MarkTaskAsStarted_def
  mp_IncrementAttempts_def
  mp_MarkSuccessAndGetNextTasks_def
  mp_MarkDAGRunOutcome_def
  mp_GetDagParameters_def
  mp_DagExists_def
  mp_ShouldRerun_def
  mp_MarkTaskAsFailed_def
  mp_MarkPodStatus_def
  mp_DeleteDAG_def
  mp_FindExistingDAGRun_def
  mp_GetTaskScriptAndInjectorImage_def
  mp_AddTask_def
  mp_DeleteTask_def
  mp_GetTaskRefsParameters_def
  mp_GetWebhookDetails_def
  mp_GetWorkspacePVCTemplate_def
  mp_CheckIfAllTasksDone_def
  mp_MarkConnectingTasksAsSuspended_def
  mp_AddPodDuration_def
  mp_SuspendDagRun_def
  mp_DeleteDagRun_def
  mp_DagrunExists_def
  mp_GetTaskRunInfo_def
  mp_SaveRetryEnv_def
  mp_ClaimTaskByID_def
  mp_GetTaskRunStatus_def
  mp_ClaimTasks_def
  mp_RenewLease_def
  mp_FinalizeClaimToRunning_def
  mp_RecoverExpiredLeases_def
  mp_AddPendingTaskRun_def
  mp_GetTaskForRun_def

lemma measured_keeps: "measured record f s p = (r, c) \<Longrightarrow> P (snd (f s)) \<Longrightarrow> P (fst c)"
  by (cases "f s") (auto simp: measured_def)

lemma reading_keeps [simp]: "snd (query_op f s) = s" "snd (read_op g s) = s" "snd (claims_op h s) = snd (h s)"
  by (simp_all add: query_op_def read_op_def claims_op_def case_prod_beta)

lemma mp_run_good: "mp_run log c c' \<Longrightarrow> mp_rec.good [] c \<Longrightarrow> mp_rec.good log c'"
  by (induction rule: mp_run.induct) (auto simp only: mp_methods intro: mp_rec.good_query mp_rec.good_transaction)

lemma ms_run_good: "ms_run log c c' \<Longrightarrow> ms_rec.good [] c \<Longrightarrow> ms_rec.good log c'"
proof (induction rule: ms_run.induct)
  case (AddPendingTaskRun log c s m runId dagTaskId r s')
  then show ?case by (simp add: ms_rec.good_def)
qed (auto simp only: ms_methods intro: ms_rec.good_query ms_rec.good_transaction)

lemma measured_typed: "measured record f s p = (r, c) \<Longrightarrow> (\<And>e. prom_typed (record e p)) \<Longrightarrow> prom_typed (snd c)"
  by (cases "f s") (auto simp: measured_def)

lemma ms_run_typed: "ms_run log c c' \<Longrightarrow> prom_typed (snd c) \<Longrightarrow> prom_typed (snd c')"
proof (induction rule: ms_run.induct)
  case (AddPendingTaskRun log c s m runId dagTaskId r s')
  then show ?case by simp
qed (auto simp only: ms_methods snd_conv intro: measured_typed ms_rec.query_typed ms_rec.transaction_typed)

lemma suspended_reachable: "pg_reachable s \<Longrightarrow> pg_reachable (snd (db_MarkConnectingTasksAsSuspended PostgresManager run i s))"
  by (auto split: option.split intro: pg_reachable.connected)

lemmas reachable_calls = suspended_reachable pg_reachable.intros(2-13) pg_reachable.intros(15-)

lemma mp_run_reachable: "mp_run log c c' \<Longrightarrow> pg_reachable (fst c) \<Longrightarrow> pg_reachable (fst c')"
proof (induction rule: mp_run.induct)
qed (simp_all only: mp_methods fst_conv, (erule measured_keeps, simp only: reading_keeps reachable_calls)+)

section \<open>What the metrics tell\<close>

text \<open>
  (C15) The metrics of the wrapped Postgres manager are the log of its calls. After any sequence of calls on a reachable database with new metrics,
  the database is again one that the manager alone can reach, every counter of queries and transactions is the number of the calls with its
  labels, every histogram has one observation for each of them, the error counters are the numbers of the failed calls, and each series has the
  labels that its collector declares.
\<close>

theorem metrics_show_the_calls:
  assumes "mp_run log (s, new_registry) (s', p)" "pg_reachable s"
  shows "pg_reachable s' \<and> shows_log ''postgresql'' log p \<and> prom_typed p"
proof -
  have "mp_rec.good [] (s, new_registry)" by (simp add: mp_rec.good_def shows_log_def new_registry_def prom_typed_def)
  with assms(1) have "mp_rec.good log (s', p)" by (rule mp_run_good)
  moreover have "pg_reachable s'" using mp_run_reachable [OF assms(1)] assms(2) by simp
  ultimately show ?thesis by (simp add: mp_rec.good_def)
qed

theorem metrics_show_the_calls_witness:
  "counters (snd (snd (mp_IncrementAttempts 4 7 empty_db (snd (snd (mp_GetTaskRunStatus 5 7 empty_db new_registry))))))
     (DatabaseErrorsTotal, [''postgresql'', ''select'', ''query_error'']) = 1"
proof -
  let ?p = "snd (snd (mp_GetTaskRunStatus 5 7 empty_db new_registry))"
  let ?q = "snd (snd (mp_IncrementAttempts 4 7 empty_db ?p))"
  have one: "mp_GetTaskRunStatus 5 7 empty_db new_registry = (Inl ErrTaskRunNotFound, empty_db, ?p)"
    by (simp add: mp_methods measured_def query_op_def pg_GetTaskRunStatus_def GetTaskRunStatus_def find_taskrun_def empty_db_def)
  have two: "mp_IncrementAttempts 4 7 empty_db ?p = (Inr (), empty_db, ?q)"
    by (simp add: mp_methods measured_def pg_IncrementAttempts_def IncrementAttempts_def update_where_def empty_db_def)
  have "mp_run [Query ''select'' ''task_runs'' True, Query ''update'' ''task_runs'' False] (empty_db, new_registry) (empty_db, ?q)"
    using mp_run.IncrementAttempts [OF mp_run.GetTaskRunStatus [OF mp_run.idle one] two] by simp
  from metrics_show_the_calls [OF this pg_reachable.initial] show ?thesis by (simp add: shows_log_def)
qed

text \<open>The same of SQLite, for the calls that its wrapper sees.\<close>

lemma sqlite_metrics_show_the_calls:
  assumes "ms_run log (s, new_registry) (s', p)"
  shows "shows_log ''sqlite'' log p \<and> prom_typed p"
proof -
  have "ms_rec.good [] (s, new_registry)" by (simp add: ms_rec.good_def shows_log_def new_registry_def prom_typed_def)
  from ms_run_good [OF assms this] show ?thesis by (simp add: ms_rec.good_def)
qed

lemma gauges_set_counts_other: "c' \<noteq> c \<or> ls \<notin> labels ` fst ` set counts \<Longrightarrow> gauges (set_counts c labels counts p) (c', ls) = gauges p (c', ls)"
  by (induction counts arbitrary: p) auto

lemma gauges_set_counts:
  "distinct (map fst counts) \<Longrightarrow> inj labels \<Longrightarrow> (status, n) \<in> set counts \<Longrightarrow> gauges (set_counts c labels counts p) (c, labels status) = Some (int n)"
proof (induction counts arbitrary: p)
  case (Cons x counts)
  obtain status' n' where x: "x = (status', n')" by (cases x)
  have "status' \<noteq> status" if "(status, n) \<in> set counts" using Cons.prems(1) that x by force
  moreover have "labels status' \<notin> labels ` fst ` set counts" using Cons.prems(1,2) x by (auto simp: inj_image_mem_iff)
  ultimately show ?case using Cons x by (auto simp: gauges_set_counts_other)
qed simp

lemma counts_distinct [simp]:
  "distinct (map fst (dag_counts ns s))" "distinct (map fst (dag_run_counts ns s))" "distinct (map fst (task_run_counts ns s))"
  by (simp_all add: dag_counts_def dag_run_counts_def task_run_counts_def status_counts_def Let_def)

lemma labels_inj [simp]: "inj (\<lambda>status. [dbType, status])" "inj (\<lambda>status. [dbType, namespace, status])"
  by (simp_all add: inj_def)

lemma run_gauges:
  "(status, n) \<in> set (dag_run_counts ns s) \<Longrightarrow>
     gauges (UpdateContentMetrics dbType ns (dag_counts ns s) (dag_run_counts ns s) (task_run_counts ns s) p) (DatabaseDAGRunsTotal, [dbType, status]) = Some (int n)"
  "(status, n) \<in> set (task_run_counts ns s) \<Longrightarrow>
     gauges (UpdateContentMetrics dbType ns (dag_counts ns s) (dag_run_counts ns s) (task_run_counts ns s) p) (DatabaseTaskRunsTotal, [dbType, status]) = Some (int n)"
  using gauges_set_counts [of _ "\<lambda>status. [dbType, status]" status n] by (simp_all add: UpdateContentMetrics_def gauges_set_counts_other)

lemma dag_gauges:
  "(status, n) \<in> set (dag_counts ns s) \<Longrightarrow>
     gauges (UpdateContentMetrics dbType ns (dag_counts ns s) rc tc p) (DatabaseDAGsTotal, [dbType, ns, status]) = Some (int n)"
  using gauges_set_counts [of _ "\<lambda>status. [dbType, ns, status]" status n] by (simp add: UpdateContentMetrics_def gauges_set_counts_other)

lemma dag_gauges_other:
  assumes "ns' \<noteq> ns"
  shows "gauges (UpdateContentMetrics dbType ns' dc rc tc p) (DatabaseDAGsTotal, [dbType, ns, status]) = gauges p (DatabaseDAGsTotal, [dbType, ns, status])"
proof -
  have "[dbType, ns, status] \<notin> (\<lambda>status. [dbType, ns', status]) ` fst ` set dc" using assms by auto
  then show ?thesis by (simp add: UpdateContentMetrics_def gauges_set_counts_other)
qed

lemma fold_dag_gauges:
  assumes "\<And>q. \<not> fails q" "ns \<in> set nss" "(status, n) \<in> set (dag_counts ns s)"
  shows "gauges (fold (namespace_metrics dbType fails s) nss p) (DatabaseDAGsTotal, [dbType, ns, status]) = Some (int n)"
  using assms(2)
proof (induction nss rule: rev_induct)
  case (snoc ns' nss)
  then show ?case using assms(1,3) by (cases "ns' = ns") (simp_all add: namespace_metrics_def dag_gauges dag_gauges_other)
qed simp

lemma fold_run_gauges:
  assumes "\<And>q. \<not> fails q" "nss \<noteq> []" "(status, n) \<in> set (dag_run_counts (last nss) s)"
  shows "gauges (fold (namespace_metrics dbType fails s) nss p) (DatabaseDAGRunsTotal, [dbType, status]) = Some (int n)"
  using assms by (cases nss rule: rev_cases) (simp_all add: namespace_metrics_def run_gauges)

lemma fold_typed: "prom_typed p \<Longrightarrow> (\<And>x q. prom_typed q \<Longrightarrow> prom_typed (f x q)) \<Longrightarrow> prom_typed (fold f xs p)"
  by (induction xs arbitrary: p) simp_all

lemma content_typed:
  assumes "prom_typed p"
  shows "prom_typed (ms_updateContentMetrics fails order s p)" "prom_typed (mp_updateContentMetrics fails order s p)"
proof -
  have "prom_typed (namespace_metrics dbType fails s ns q)" if "prom_typed q" for dbType ns q
    using that by (simp add: namespace_metrics_def database_typed)
  then show "prom_typed (ms_updateContentMetrics fails order s p)" "prom_typed (mp_updateContentMetrics fails order s p)"
    using assms by (simp_all add: ms_updateContentMetrics_def mp_updateContentMetrics_def database_typed fold_typed)
qed

text \<open>
  (C32) Every series that the collectors in the background and the methods of the SQLite wrapper write has exactly the labels that its
  collector declares, so \<open>WithLabelValues\<close> never panics: from new metrics, whatever the collectors find at each tick and whatever calls follow, the
  registry is well typed.
\<close>

theorem registry_is_typed:
  assumes "ms_run log (s, ms_collectContentMetrics d ds (ms_collectConnectionMetrics st sts new_registry)) (s', p)"
  shows "prom_typed p"
proof -
  have "prom_typed (ms_collectConnectionMetrics st sts new_registry)"
    by (simp add: ms_collectConnectionMetrics_def fold_typed database_typed)
  then have start: "prom_typed (ms_collectContentMetrics d ds (ms_collectConnectionMetrics st sts new_registry))"
    by (cases d) (simp add: ms_collectContentMetrics_def fold_typed content_typed case_prod_beta)
  show ?thesis using ms_run_typed [OF assms] start by simp
qed

theorem registry_is_typed_witness:
  "prom_typed (snd (snd (ms_GetTaskRunStatus 5 7 empty_db (ms_collectContentMetrics (\<lambda>_. False, id, empty_db) [(\<lambda>_. True, id, empty_db)]
     (ms_collectConnectionMetrics \<lparr>ps_active = 1, ps_idle = 0, ps_max = 0\<rparr> [] new_registry)))))"
proof -
  let ?p = "ms_collectContentMetrics (\<lambda>_. False, id, empty_db) [(\<lambda>_. True, id, empty_db)]
     (ms_collectConnectionMetrics \<lparr>ps_active = 1, ps_idle = 0, ps_max = 0\<rparr> [] new_registry)"
  have "ms_GetTaskRunStatus 5 7 empty_db ?p = (Inl ErrTaskRunNotFound, empty_db, snd (snd (ms_GetTaskRunStatus 5 7 empty_db ?p)))"
    by (simp add: ms_methods measured_def query_op_def GetTaskRunStatus_def find_taskrun_def empty_db_def)
  from registry_is_typed [OF ms_run.GetTaskRunStatus [OF ms_run.idle this]] show ?thesis .
qed

text \<open>
  A collection whose queries succeed sets the gauges of DAGs of every namespace to the numbers of its active, suspended and inactive rows. The
  gauges of the runs have no label for the namespace: they end as the numbers of the namespace that came last, not of the whole database.
\<close>

theorem content_gauges:
  assumes "\<And>q. \<not> fails q" "set (namespaces order s) = dg_namespace ` set (dags s)" "p' = mp_updateContentMetrics fails order s p"
    and "ns \<in> dg_namespace ` set (dags s)"
  shows "gauges p' (DatabaseDAGsTotal, [''postgresql'', ns, ''active'']) =
      Some (int (length (filter (\<lambda>d. dg_namespace d = ns \<and> dg_active d \<and> \<not> dg_suspended d) (dags s)))) \<and>
    gauges p' (DatabaseDAGsTotal, [''postgresql'', ns, ''suspended'']) =
      Some (int (length (filter (\<lambda>d. dg_namespace d = ns \<and> dg_active d \<and> dg_suspended d) (dags s)))) \<and>
    gauges p' (DatabaseDAGsTotal, [''postgresql'', ns, ''inactive'']) =
      Some (int (length (filter (\<lambda>d. dg_namespace d = ns \<and> \<not> dg_active d) (dags s)))) \<and>
    gauges p' (DatabaseDAGRunsTotal, [''postgresql'', ''running'']) =
      Some (int (count_list [rn_status r. r <- runs s, d <- dags s, rn_dag_id r = dg_id d, dg_namespace d = last (namespaces order s)] ''running''))"
proof -
  have p': "p' = fold (namespace_metrics ''postgresql'' fails s) (namespaces order s) p" using assms(1,3) by (simp add: mp_updateContentMetrics_def)
  have dag: "gauges p' (DatabaseDAGsTotal, [''postgresql'', ns, status]) = Some (int n)" if "(status, n) \<in> set (dag_counts ns s)" for status n
    unfolding p' using assms(2,4) that by (intro fold_dag_gauges [OF assms(1)]) simp_all
  have "namespaces order s \<noteq> []" using assms(2,4) by force
  then have run: "gauges p' (DatabaseDAGRunsTotal, [''postgresql'', status]) = Some (int n)"
    if "(status, n) \<in> set (dag_run_counts (last (namespaces order s)) s)" for status n
    unfolding p' using that by (intro fold_run_gauges [OF assms(1)])
  show ?thesis
    by (intro conjI; (rule dag | rule run); simp add: dag_counts_def dag_run_counts_def status_counts_def count_where_def Let_def; meson)
qed

definition ex_content_db :: db where
  "ex_content_db = ex_run_db\<lparr>dags := [ex_dag_row\<lparr>dg_namespace := ''a'', dg_active := True, dg_suspended := False\<rparr>,
     ex_dag_row\<lparr>dg_id := dg_id ex_dag_row + 1, dg_namespace := ''b''\<rparr>]\<rparr>"

theorem content_gauges_witness:
  "gauges (mp_updateContentMetrics (\<lambda>_. False) id ex_content_db new_registry) (DatabaseDAGsTotal, [''postgresql'', ''a'', ''active'']) = Some 1 \<and>
   gauges (mp_updateContentMetrics (\<lambda>_. False) id ex_content_db new_registry) (DatabaseDAGRunsTotal, [''postgresql'', ''running'']) = Some 0"
  using content_gauges [of "\<lambda>_. False" id ex_content_db "mp_updateContentMetrics (\<lambda>_. False) id ex_content_db new_registry" new_registry "''a''"]
  by (simp add: ex_content_db_def namespaces_def ex_run_defs)

end
