(* ===== verification/Go_Path.thy ===== *)
theory Go_Path
  imports Go_Strconv
begin

text \<open>
  The functions of Go's standard library that the start-up code uses on paths (\<open>filepath.Clean\<close>, \<open>IsAbs\<close> and \<open>Join\<close>, on Unix) and on
  durations (\<open>time.ParseDuration\<close>).
\<close>

section \<open>Paths\<close>

text \<open>The segments between the separators, empty ones included.\<close>

fun segments :: "string \<Rightarrow> string list" where
  "segments [] = [[]]"
| "segments (c # cs) = (if c = CHR ''/'' then [] # segments cs else (case segments cs of [] \<Rightarrow> [[c]] | s # ss \<Rightarrow> (c # s) # ss))"

fun join_segments :: "string list \<Rightarrow> string" where
  "join_segments [] = []"
| "join_segments [s] = s"
| "join_segments (s # ss) = s @ CHR ''/'' # join_segments ss"

definition IsAbs :: "string \<Rightarrow> bool" where
  "IsAbs path \<longleftrightarrow> take 1 path = ''/''"

text \<open>One segment: empty ones and dots are dropped, and a double dot takes back the segment before it, if there is one to take.\<close>

definition clean_step :: "bool \<Rightarrow> string list \<Rightarrow> string \<Rightarrow> string list" where
  "clean_step rooted acc s =
     (if s = [] \<or> s = ''.'' then acc
      else if s = ''..'' then
        (if acc \<noteq> [] \<and> last acc \<noteq> ''..'' then butlast acc else if rooted then acc else acc @ [s])
      else acc @ [s])"

definition Clean :: "string \<Rightarrow> string" where
  "Clean path =
     (let body = join_segments (foldl (clean_step (IsAbs path)) [] (segments path))
      in if IsAbs path then CHR ''/'' # body else if body = [] then ''.'' else body)"

definition path_Join :: "string \<Rightarrow> string \<Rightarrow> string" where
  "path_Join a b = (if a = [] then (if b = [] then [] else Clean b) else Clean (a @ CHR ''/'' # b))"

text \<open>A segment that names a file or a directory.\<close>

definition plain :: "string \<Rightarrow> bool" where
  "plain s \<longleftrightarrow> s \<noteq> [] \<and> s \<noteq> ''.'' \<and> s \<noteq> ''..'' \<and> CHR ''/'' \<notin> set s"

definition clean_path :: "string \<Rightarrow> bool" where
  "clean_path path \<longleftrightarrow> IsAbs path \<and> (tl path = [] \<or> list_all plain (segments (tl path)))"

lemma segments_ne [simp]: "segments path \<noteq> []"
  by (induction path) (auto split: list.splits)

lemma segments_no_sep: "s \<in> set (segments path) \<Longrightarrow> CHR ''/'' \<notin> set s"
  by (induction path arbitrary: s) (auto split: list.splits if_splits)

lemma segments_plain: "CHR ''/'' \<notin> set s \<Longrightarrow> segments s = [s]"
  by (induction s) auto

lemma segments_append: "CHR ''/'' \<notin> set s \<Longrightarrow> segments (s @ CHR ''/'' # rest) = s # segments rest"
  by (induction s) auto

lemma segments_join: "ss \<noteq> [] \<Longrightarrow> (\<forall>s \<in> set ss. CHR ''/'' \<notin> set s) \<Longrightarrow> segments (join_segments ss) = ss"
  by (induction ss rule: join_segments.induct) (simp_all add: segments_plain segments_append)

lemma clean_steps_plain:
  "list_all plain acc \<Longrightarrow> (\<forall>s \<in> set ss. CHR ''/'' \<notin> set s) \<Longrightarrow> list_all plain (foldl (clean_step True) acc ss)"
proof (induction ss arbitrary: acc)
  case (Cons s ss)
  have "list_all plain (clean_step True acc s)"
    using Cons.prems by (auto simp: clean_step_def plain_def list_all_iff dest: in_set_butlastD)
  then show ?case using Cons by simp
qed simp

lemma clean_steps_id:
  "list_all plain ss \<Longrightarrow> foldl (clean_step rooted) acc ss = acc @ ss"
  by (induction ss arbitrary: acc) (auto simp: clean_step_def plain_def)

lemma IsAbs_Cons [simp]: "IsAbs (CHR ''/'' # p)" "\<not> IsAbs []"
  by (simp_all add: IsAbs_def)

lemma clean_steps_named:
  assumes "\<forall>s \<in> set ss. CHR ''/'' \<notin> set s" "\<forall>s \<in> set acc. s \<noteq> [] \<and> CHR ''/'' \<notin> set s"
  shows "\<forall>s \<in> set (foldl (clean_step rooted) acc ss). s \<noteq> [] \<and> CHR ''/'' \<notin> set s"
  using assms
proof (induction ss arbitrary: acc)
  case (Cons s ss)
  have "t \<in> set acc \<or> t = s \<and> s \<noteq> []" if "t \<in> set (clean_step rooted acc s)" for t
    using that by (simp add: clean_step_def split: if_splits) (blast dest: in_set_butlastD)+
  moreover have "CHR ''/'' \<notin> set s" "\<forall>s \<in> set ss. CHR ''/'' \<notin> set s" using Cons.prems(1) by simp_all
  ultimately have "\<forall>t \<in> set (clean_step rooted acc s). t \<noteq> [] \<and> CHR ''/'' \<notin> set t" using Cons.prems(2) by blast
  from Cons.IH [OF \<open>\<forall>s \<in> set ss. CHR ''/'' \<notin> set s\<close> this] show ?case by (simp only: foldl_Cons)
qed simp

lemma join_relative: "\<forall>s \<in> set ss. s \<noteq> [] \<and> CHR ''/'' \<notin> set s \<Longrightarrow> \<not> IsAbs (join_segments ss)"
  by (induction ss rule: join_segments.induct) (auto simp: IsAbs_def neq_Nil_conv)

lemma IsAbs_Clean [simp]: "IsAbs (Clean path) \<longleftrightarrow> IsAbs path"
proof (cases "IsAbs path")
  case False
  have "\<not> IsAbs (join_segments (foldl (clean_step False) [] (segments path)))"
    by (rule join_relative, rule clean_steps_named) (simp_all add: segments_no_sep)
  then show ?thesis using False by (simp add: Clean_def Let_def) (simp add: IsAbs_def)
qed (simp add: Clean_def Let_def)

lemma join_segments_Cons: "join_segments ((c # s) # ss) = c # join_segments (s # ss)"
  by (cases ss) simp_all

lemma join_segments_segments: "join_segments (segments path) = path"
proof (induction path)
  case (Cons c path)
  obtain s ss where "segments path = s # ss" by (cases "segments path") auto
  then show ?case using Cons by (simp add: join_segments_Cons)
qed simp

lemma Clean_abs: "IsAbs path \<Longrightarrow> clean_path (Clean path)"
proof -
  assume abs: "IsAbs path"
  let ?ss = "foldl (clean_step True) [] (segments path)"
  have "list_all plain ?ss" by (rule clean_steps_plain) (simp_all add: segments_no_sep)
  then show ?thesis using abs
    by (cases "?ss = []") (auto simp: clean_path_def Clean_def Let_def segments_join list_all_iff plain_def)
qed

lemma Clean_clean: "clean_path path \<Longrightarrow> Clean path = path"
proof -
  assume clean: "clean_path path"
  then obtain p where path: "path = CHR ''/'' # p" by (cases path) (auto simp: clean_path_def IsAbs_def)
  have "foldl (clean_step True) [] (segments path) = (if p = [] then [] else segments p)"
    using clean path by (auto simp: clean_path_def clean_steps_id clean_step_def)
  then show ?thesis using path join_segments_segments [of p] by (simp add: Clean_def Let_def)
qed

section \<open>Durations\<close>

text \<open>
  The units in nanoseconds; the two spellings of the micro sign are their UTF-8 bytes. A fraction is taken exactly here, while Go computes it in
  floating point.
\<close>

definition unit_of :: "string \<Rightarrow> nat option" where
  "unit_of u = map_of
     [(''ns'', 1), (''us'', 1000), ([CHR 0xC2, CHR 0xB5, CHR ''s''], 1000), ([CHR 0xCE, CHR 0xBC, CHR ''s''], 1000), (''ms'', 1000000),
      (''s'', 1000000000), (''m'', 60000000000), (''h'', 3600000000000)] u"

function duration_terms :: "string \<Rightarrow> nat \<Rightarrow> nat result" where
  "duration_terms s d =
     (if s = [] then Inr d
      else let digits = takeWhile is_digit s; s1 = dropWhile is_digit s;
               point = take 1 s1 = ''.''; s2 = (if point then tl s1 else s1);
               fraction = (if point then takeWhile is_digit s2 else []); s3 = (if point then dropWhile is_digit s2 else s2);
               name = takeWhile (\<lambda>c. \<not> (c = CHR ''.'' \<or> is_digit c)) s3; s4 = dropWhile (\<lambda>c. \<not> (c = CHR ''.'' \<or> is_digit c)) s3
           in if decimal digits > 2 ^ 63 \<or> digits = [] \<and> fraction = [] then Inl (Err ''time: invalid duration'')
              else if name = [] then Inl (Err ''time: missing unit in duration'')
              else case unit_of name of
                     None \<Rightarrow> Inl (Err ''time: unknown unit'')
                   | Some unit \<Rightarrow>
                       (let v = decimal digits * unit + decimal fraction * unit div 10 ^ length fraction
                        in if v > 2 ^ 63 \<or> d + v > 2 ^ 63 then Inl (Err ''time: invalid duration'') else duration_terms s4 (d + v)))"
  by pat_completeness auto
termination
proof (relation "measure (\<lambda>(s, d). length s)", simp, goal_cases)
  case (1 s d digits s1 point s2 fraction s3 name s4 unit v)
  have "length s4 + length name = length s3" unfolding 1(8,9) by (metis add.commute length_append takeWhile_dropWhile_id)
  moreover have "length s3 \<le> length s2" unfolding 1(7) by (simp add: length_dropWhile_le)
  moreover have "length s2 \<le> length s1" unfolding 1(5) by simp
  moreover have "length s1 \<le> length s" unfolding 1(3) by (simp add: length_dropWhile_le)
  moreover have "0 < length name" using 1 by simp
  ultimately show ?case by (simp only: in_measure prod.case)
qed

definition ParseDuration :: "string \<Rightarrow> int result" where
  "ParseDuration s =
     (let neg = (take 1 s = ''-''); s' = (if take 1 s = ''-'' \<or> take 1 s = ''+'' then tl s else s)
      in if s' = ''0'' then Inr 0
         else if s' = [] then Inl (Err ''time: invalid duration'')
         else case duration_terms s' 0 of
                Inl e \<Rightarrow> Inl e
              | Inr d \<Rightarrow> if neg then Inr (- int d) else if d > 2 ^ 63 - 1 then Inl (Err ''time: invalid duration'') else Inr (int d))"

declare duration_terms.simps [simp del]

lemma duration_terms_bounded: "duration_terms s d = Inr v \<Longrightarrow> d \<le> 2 ^ 63 \<Longrightarrow> v \<le> 2 ^ 63"
proof (induction s d rule: duration_terms.induct)
  case (1 s d)
  from "1.prems" show ?case
    by (subst (asm) duration_terms.simps) (auto simp: Let_def split: if_splits option.splits dest!: "1.IH" [OF _ refl refl refl refl refl refl refl refl])
qed

lemma ParseDuration_int64: "ParseDuration s = Inr d \<Longrightarrow> - (2 ^ 63) \<le> d \<and> d < 2 ^ 63"
  by (auto simp: ParseDuration_def Let_def dest!: duration_terms_bounded split: if_splits sum.splits)

lemma default_poll: "ParseDuration ''100ms'' = Inr 100000000"
  by (simp add: ParseDuration_def duration_terms.simps Let_def is_digit_def decimal_def digit_val_def unit_of_def)

end
