(* ===== verification/Configuration.thy ===== *)
theory Configuration
  imports Go_Path Migrations
begin

text \<open>
  How the two processes are configured and started: \<open>internal/config\<close> and the start of \<open>cmd/controller/main.go\<close> for the controller,
  \<open>internal/server/config\<close> and the choice of the log fetcher for the API server, and the database settings of both. The environment is a partial
  function. Reading a file, decoding YAML, creating a directory and asking S3 for a bucket are arguments.
\<close>

section \<open>Settings\<close>

record WorkerConfig =
  wc_Namespace :: string
  wc_Count :: int

record WorkerConfigs =
  wcs_WorkerType :: string
  wcs_QueueDir :: string
  wcs_Workers :: "WorkerConfig list"
  wcs_PollDuration :: string

record S3LogStoreConfig =
  sl_BucketName :: string
  sl_Endpoint :: string

record LogStoreConfig =
  lc_StoreType :: string
  lc_BaseDir :: string
  lc_S3Configs :: S3LogStoreConfig

record ControllerConfig =
  cc_KubeConfigPath :: string
  cc_LeaderElectionID :: string
  cc_Workers :: WorkerConfigs
  cc_LogStore :: LogStoreConfig

record ServerConfig =
  sv_KubeConfigPath :: string
  sv_LogStorage :: LogStoreConfig

type_synonym environment = "string \<Rightarrow> string option"

definition Getenv :: "environment \<Rightarrow> string \<Rightarrow> string" where
  "Getenv env key = (case env key of None \<Rightarrow> [] | Some v \<Rightarrow> v)"

definition zero_LogStoreConfig :: LogStoreConfig where
  "zero_LogStoreConfig = \<lparr>lc_StoreType = [], lc_BaseDir = [], lc_S3Configs = \<lparr>sl_BucketName = [], sl_Endpoint = []\<rparr>\<rparr>"

section \<open>The controller\<close>

definition validateLogStore :: "LogStoreConfig \<Rightarrow> LogStoreConfig result" where
  "validateLogStore store =
     (if lc_StoreType store = ''filesystem'' then
        (if lc_BaseDir store = [] then Inl (Err ''baseDir must be specified for filesystem log store'')
         else if \<not> IsAbs (Clean (lc_BaseDir store)) then Inl (Err (''baseDir must be an absolute path, got: '' @ lc_BaseDir store))
         else Inr (store\<lparr>lc_BaseDir := Clean (lc_BaseDir store)\<rparr>))
      else if lc_StoreType store = ''s3'' then
        (if sl_BucketName (lc_S3Configs store) = [] then Inl (Err ''bucketName must be specified for s3 log store'') else Inr store)
      else Inl (Err ''invalid log store type''))"

datatype read_error = IsNotExist | ReadError go_error

definition validateWorkers :: "(string \<Rightarrow> check) \<Rightarrow> WorkerConfigs \<Rightarrow> WorkerConfigs result" where
  "validateWorkers mkdirAll w =
     (if wcs_Workers w = [] then Inl (Err ''missing worker configs, must provide at least one worker config'')
      else if wcs_WorkerType w \<noteq> ''memory'' \<and> wcs_WorkerType w \<noteq> ''pebble'' then Inl (Err ''invalid worker type'')
      else if wcs_WorkerType w = ''pebble'' \<and> wcs_QueueDir w = [] then Inl (Err ''queueDir must be specified when using pebble worker type'')
      else if wcs_WorkerType w = ''pebble'' \<and> mkdirAll (wcs_QueueDir w) \<noteq> None then Inl (Err ''failed to create queue directory'')
      else Inr (if wcs_PollDuration w = [] then w\<lparr>wcs_PollDuration := ''100ms''\<rparr> else w))"

definition leaderElectionID :: "environment \<Rightarrow> string \<Rightarrow> string result" where
  "leaderElectionID env configured =
     (if Getenv env ''LEADER_ELECTION_ID'' \<noteq> [] then Inr (Getenv env ''LEADER_ELECTION_ID'')
      else if configured = [] then Inl (Err ''missing LEADER_ELECTION_ID, must provide LEADER_ELECTION_ID'')
      else Inr configured)"

text \<open>The default of the log store: the file system, with the directory of \<open>LOG_DIR\<close> when none is configured.\<close>

definition default_store :: "environment \<Rightarrow> LogStoreConfig \<Rightarrow> LogStoreConfig" where
  "default_store env store =
     (if lc_StoreType store = [] then
        store\<lparr>lc_StoreType := ''filesystem'', lc_BaseDir := (if lc_BaseDir store = [] then Getenv env ''LOG_DIR'' else lc_BaseDir store)\<rparr>
      else store)"

definition ParseConfig ::
    "environment \<Rightarrow> (string \<Rightarrow> read_error + string) \<Rightarrow> (string \<Rightarrow> ControllerConfig result) \<Rightarrow> (string \<Rightarrow> check) \<Rightarrow> string \<Rightarrow> ControllerConfig result" where
  "ParseConfig env readFile unmarshal mkdirAll configPath =
     (case readFile configPath of
        Inl IsNotExist \<Rightarrow> Inl (Err ''no such file or directory'')
      | Inl (ReadError e) \<Rightarrow> Inl e
      | Inr yaml \<Rightarrow>
     (case unmarshal yaml of
        Inl e \<Rightarrow> Inl e
      | Inr c \<Rightarrow>
     (case validateWorkers mkdirAll (cc_Workers c) of
        Inl e \<Rightarrow> Inl e
      | Inr w \<Rightarrow>
     (case leaderElectionID env (cc_LeaderElectionID c) of
        Inl e \<Rightarrow> Inl e
      | Inr leader \<Rightarrow>
     (case validateLogStore (default_store env (cc_LogStore c)) of
        Inl e \<Rightarrow> Inl e
      | Inr store \<Rightarrow> Inr (c\<lparr>cc_Workers := w, cc_LeaderElectionID := leader, cc_LogStore := store\<rparr>))))))"

text \<open>The configuration that the controller starts with; without a path it has a default.\<close>

definition default_config :: "environment \<Rightarrow> ControllerConfig" where
  "default_config env =
     \<lparr>cc_KubeConfigPath = [],
      cc_LeaderElectionID = (if Getenv env ''LEADER_ELECTION_ID'' = [] then ''kontroler'' else Getenv env ''LEADER_ELECTION_ID''),
      cc_Workers = \<lparr>wcs_WorkerType = ''memory'', wcs_QueueDir = [], wcs_Workers = [\<lparr>wc_Namespace = ''default'', wc_Count = 1\<rparr>],
        wcs_PollDuration = ''100ms''\<rparr>,
      cc_LogStore = zero_LogStoreConfig\<lparr>lc_StoreType := ''filesystem'', lc_BaseDir := ''/tmp/kontroler-logs''\<rparr>\<rparr>"

definition start_config ::
    "environment \<Rightarrow> (string \<Rightarrow> read_error + string) \<Rightarrow> (string \<Rightarrow> ControllerConfig result) \<Rightarrow> (string \<Rightarrow> check) \<Rightarrow> string \<Rightarrow> ControllerConfig result" where
  "start_config env readFile unmarshal mkdirAll configPath =
     (if configPath = [] then Inr (default_config env) else ParseConfig env readFile unmarshal mkdirAll configPath)"

section \<open>Where the logs are written\<close>

text \<open>The argument \<open>s3\<close> is the check of a bucket at an endpoint, with the credentials of the process.\<close>

datatype log_target = NoLogs | FileLogs string | S3Logs string string

definition NewFileSystemLogStore :: "(string \<Rightarrow> check) \<Rightarrow> string \<Rightarrow> log_target result" where
  "NewFileSystemLogStore mkdirAll baseDir =
     (let dir = (if baseDir = [] then ''/tmp/kontroler-logs'' else baseDir)
      in if mkdirAll dir \<noteq> None then Inl (Err ''failed to create log directory'') else Inr (FileLogs dir))"

definition NewLogStore :: "environment \<Rightarrow> (string \<Rightarrow> string \<Rightarrow> check) \<Rightarrow> log_target result" where
  "NewLogStore env s3 =
     (let endpoint = Getenv env ''S3_ENDPOINT''; bucket = Getenv env ''S3_BUCKETNAME''
      in if bucket = [] then Inr NoLogs
         else case s3 endpoint bucket of Some e \<Rightarrow> Inl e | None \<Rightarrow> Inr (S3Logs endpoint bucket))"

definition createLogStore :: "environment \<Rightarrow> (string \<Rightarrow> check) \<Rightarrow> (string \<Rightarrow> string \<Rightarrow> check) \<Rightarrow> LogStoreConfig \<Rightarrow> log_target result" where
  "createLogStore env mkdirAll s3 store =
     (if lc_StoreType store = ''filesystem'' then NewFileSystemLogStore mkdirAll (lc_BaseDir store)
      else if lc_StoreType store = ''s3'' then NewLogStore env s3
      else Inl (Err (''unsupported log store type: '' @ lc_StoreType store)))"

section \<open>The API server\<close>

definition loadConfigFromYAML :: "(string \<Rightarrow> read_error + string) \<Rightarrow> (string \<Rightarrow> ServerConfig result) \<Rightarrow> string \<Rightarrow> ServerConfig result" where
  "loadConfigFromYAML readFile unmarshal configPath =
     (let empty = \<lparr>sv_KubeConfigPath = [], sv_LogStorage = zero_LogStoreConfig\<rparr>
      in if configPath = [] then Inr empty
         else case readFile configPath of
                Inl IsNotExist \<Rightarrow> Inr empty
              | Inl (ReadError e) \<Rightarrow> Inl (Err ''failed to read config file'')
              | Inr yaml \<Rightarrow> (case unmarshal yaml of Inl e \<Rightarrow> Inl (Err ''failed to parse config file'') | Inr c \<Rightarrow> Inr c))"

definition store_from_environment :: "environment \<Rightarrow> LogStoreConfig \<Rightarrow> LogStoreConfig" where
  "store_from_environment env store =
     (if lc_StoreType store = [] then
        (if Getenv env ''S3_BUCKETNAME'' \<noteq> [] then
           store\<lparr>lc_StoreType := ''s3'', lc_S3Configs := \<lparr>sl_BucketName = Getenv env ''S3_BUCKETNAME'', sl_Endpoint = Getenv env ''S3_ENDPOINT''\<rparr>\<rparr>
         else if Getenv env ''LOG_DIR'' \<noteq> [] then store\<lparr>lc_StoreType := ''filesystem'', lc_BaseDir := Getenv env ''LOG_DIR''\<rparr>
         else store)
      else if lc_StoreType store = ''s3'' then
        (let c = lc_S3Configs store
         in store\<lparr>lc_S3Configs := \<lparr>sl_BucketName = (if sl_BucketName c = [] then Getenv env ''S3_BUCKETNAME'' else sl_BucketName c),
              sl_Endpoint = (if sl_Endpoint c = [] then Getenv env ''S3_ENDPOINT'' else sl_Endpoint c)\<rparr>\<rparr>)
      else if lc_StoreType store = ''filesystem'' \<and> lc_BaseDir store = [] then store\<lparr>lc_BaseDir := Getenv env ''LOG_DIR''\<rparr>
      else store)"

definition applyEnvironmentConfig :: "environment \<Rightarrow> ServerConfig \<Rightarrow> ServerConfig" where
  "applyEnvironmentConfig env c = c\<lparr>sv_LogStorage := store_from_environment env (sv_LogStorage c)\<rparr>"

definition validateConfig :: "ServerConfig \<Rightarrow> check" where
  "validateConfig c =
     (let store = sv_LogStorage c
      in if lc_StoreType store = [] then None
         else if lc_StoreType store = ''s3'' then
           (if sl_BucketName (lc_S3Configs store) = [] then Some (Err ''s3 bucket name is required for s3 log storage'') else None)
         else if lc_StoreType store = ''filesystem'' then
           (if lc_BaseDir store = [] then Some (Err ''directory path is required for filesystem log storage'') else None)
         else Some (Err (''invalid log storage type: '' @ lc_StoreType store)))"

definition validatePaths :: "ServerConfig \<Rightarrow> ServerConfig result" where
  "validatePaths c =
     (if sv_KubeConfigPath c = [] then Inr c
      else if \<not> IsAbs (Clean (sv_KubeConfigPath c)) then Inl (Err (''kubeConfigPath must be an absolute path, got: '' @ sv_KubeConfigPath c))
      else Inr (c\<lparr>sv_KubeConfigPath := Clean (sv_KubeConfigPath c)\<rparr>))"

definition ss_ParseConfig ::
    "environment \<Rightarrow> (string \<Rightarrow> read_error + string) \<Rightarrow> (string \<Rightarrow> ServerConfig result) \<Rightarrow> string \<Rightarrow> ServerConfig result" where
  "ss_ParseConfig env readFile unmarshal configPath =
     (case (if configPath \<noteq> [] then loadConfigFromYAML readFile unmarshal configPath
            else Inr \<lparr>sv_KubeConfigPath = [], sv_LogStorage = zero_LogStoreConfig\<rparr>) of
        Inl e \<Rightarrow> Inl e
      | Inr c \<Rightarrow>
          (let c' = applyEnvironmentConfig env c
           in case validateConfig c' of Some e \<Rightarrow> Inl e | None \<Rightarrow> validatePaths c'))"

text \<open>The argument \<open>stat\<close> tells whether a path is a directory.\<close>

definition NewFSLogFetcher :: "(string \<Rightarrow> read_error + bool) \<Rightarrow> string \<Rightarrow> log_target result" where
  "NewFSLogFetcher stat basePath =
     (case stat basePath of
        Inl IsNotExist \<Rightarrow> Inl (Err (''log directory does not exist: '' @ basePath))
      | Inl (ReadError e) \<Rightarrow> Inl (Err ''error checking log directory'')
      | Inr isDir \<Rightarrow> if isDir then Inr (FileLogs basePath) else Inl (Err (''path is not a directory: '' @ basePath)))"

definition NewLogFetcher :: "environment \<Rightarrow> (string \<Rightarrow> read_error + bool) \<Rightarrow> (string \<Rightarrow> string \<Rightarrow> check) \<Rightarrow> ServerConfig \<Rightarrow> log_target result" where
  "NewLogFetcher env stat s3 c =
     (let store = sv_LogStorage c
      in if lc_StoreType store = [] then Inr NoLogs
         else if lc_StoreType store = ''s3'' then
           (let endpoint = Getenv env ''S3_ENDPOINT''; bucket = sl_BucketName (lc_S3Configs store)
            in case s3 endpoint bucket of Some e \<Rightarrow> Inl (Err ''failed to connect to S3 bucket'') | None \<Rightarrow> Inr (S3Logs endpoint bucket))
         else if lc_StoreType store = ''filesystem'' then NewFSLogFetcher stat (lc_BaseDir store)
         else Inl (Err (''unsupported log storage type: '' @ lc_StoreType store)))"

section \<open>The workers of the controller\<close>

text \<open>
  What a start-up can end in. A pebble queue is a database in a directory; \<open>openDb\<close> opens one, given the directories that the process has open
  already.
\<close>

datatype 'a start = Started 'a | Exited go_error | Panicked

datatype queue_of = MemoryQueueOf | PebbleQueueAt string string

fun queue_dirs :: "queue_of list \<Rightarrow> string list" where
  "queue_dirs [] = []"
| "queue_dirs (MemoryQueueOf # qs) = queue_dirs qs"
| "queue_dirs (PebbleQueueAt dir namespace # qs) = dir # queue_dirs qs"

definition worker_dir :: "string \<Rightarrow> string \<Rightarrow> nat \<Rightarrow> string" where
  "worker_dir queueDir namespace j = path_Join queueDir (namespace @ ''-worker-'' @ Itoa (int j))"

definition new_queue :: "(string list \<Rightarrow> string \<Rightarrow> check) \<Rightarrow> WorkerConfigs \<Rightarrow> string \<Rightarrow> nat \<Rightarrow> queue_of list \<Rightarrow> queue_of start" where
  "new_queue openDb w namespace j created =
     (if wcs_WorkerType w = ''memory'' then Started MemoryQueueOf
      else if wcs_WorkerType w = ''pebble'' then
        (let dir = worker_dir (wcs_QueueDir w) namespace j
         in case openDb (queue_dirs created) dir of Some e \<Rightarrow> Exited e | None \<Rightarrow> Started (PebbleQueueAt dir namespace))
      else Exited (Err ''unsupported worker type provided''))"

text \<open>
  The inner loop over \<open>j\<close>, with the number of rounds that are left: the queue of a worker goes to the queues of its namespace, and the worker to
  the next slot of a slice whose length is the sum of the counts. An index outside the slice panics.
\<close>

fun fill_queues ::
    "(string list \<Rightarrow> string \<Rightarrow> check) \<Rightarrow> WorkerConfigs \<Rightarrow> string \<Rightarrow> nat \<Rightarrow> nat \<Rightarrow> queue_of option list \<Rightarrow> queue_of list \<Rightarrow> queue_of list \<Rightarrow>
      (queue_of option list \<times> queue_of list) start" where
  "fill_queues openDb w namespace 0 j wrkers created queues = Started (wrkers, queues)"
| "fill_queues openDb w namespace (Suc n) j wrkers created queues =
     (case new_queue openDb w namespace j (created @ queues) of
        Exited e \<Rightarrow> Exited e
      | Panicked \<Rightarrow> Panicked
      | Started que \<Rightarrow>
          (let currentIndex = length created + length queues
           in if currentIndex < length wrkers
              then fill_queues openDb w namespace n (Suc j) (wrkers[currentIndex := Some que]) created (queues @ [que])
              else Panicked))"

text \<open>The outer loop over the worker configurations; \<open>make\<close> panics at a negative length.\<close>

fun start_namespaces ::
    "(string list \<Rightarrow> string \<Rightarrow> check) \<Rightarrow> WorkerConfigs \<Rightarrow> WorkerConfig list \<Rightarrow> queue_of option list \<Rightarrow> queue_of list list \<Rightarrow>
      (queue_of option list \<times> queue_of list list) start" where
  "start_namespaces openDb w [] wrkers qss = Started (wrkers, qss)"
| "start_namespaces openDb w (c # cs) wrkers qss =
     (if wc_Count c < 0 then Panicked
      else case ParseDuration (wcs_PollDuration w) of
             Inl e \<Rightarrow> Exited e
           | Inr pollDuration \<Rightarrow>
               (case fill_queues openDb w (wc_Namespace c) (nat (wc_Count c)) 0 wrkers (concat qss) [] of
                  Exited e \<Rightarrow> Exited e
                | Panicked \<Rightarrow> Panicked
                | Started (wrkers', queues) \<Rightarrow> start_namespaces openDb w cs wrkers' (qss @ [queues])))"

text \<open>Counts and their sum are integers here; a sum beyond 64 bits, or a slice too large to make, would be another panic in Go.\<close>

definition start_workers :: "(string list \<Rightarrow> string \<Rightarrow> check) \<Rightarrow> WorkerConfigs \<Rightarrow> (queue_of option list \<times> queue_of list list) start" where
  "start_workers openDb w =
     (let totalWorkers = sum_list (map wc_Count (wcs_Workers w))
      in if totalWorkers < 0 then Panicked
         else start_namespaces openDb w (wcs_Workers w) (replicate (nat totalWorkers) None) [])"

section \<open>Starting the workers\<close>

text \<open>The slots that are filled so far are the created queues in their order.\<close>

definition filled :: "queue_of option list \<Rightarrow> queue_of list \<Rightarrow> nat \<Rightarrow> bool" where
  "filled wrkers created k \<longleftrightarrow> wrkers = map Some created @ replicate k None"

lemma filled_step: "filled wrkers created (Suc k) \<Longrightarrow> filled (wrkers[length created := Some q]) (created @ [q]) k"
  by (simp add: filled_def list_update_append)

lemma filled_length: "filled wrkers created k \<Longrightarrow> length wrkers = length created + k"
  by (simp add: filled_def)

lemma fill_Started:
  assumes "fill_queues openDb w ns n j wrkers created queues = Started (wrkers', queues')" "filled wrkers (created @ queues) k"
  shows "n \<le> k \<and> length queues' = length queues + n \<and> filled wrkers' (created @ queues') (k - n)"
  using assms
proof (induction n arbitrary: j wrkers queues k)
  case (Suc n)
  obtain q where step: "fill_queues openDb w ns n (Suc j) (wrkers[length (created @ queues) := Some q]) created (queues @ [q]) = Started (wrkers', queues')"
    and "length created + length queues < length wrkers"
    using Suc.prems(1) by (auto simp: Let_def split: start.splits if_splits)
  then obtain k' where k: "k = Suc k'" using filled_length [OF Suc.prems(2)] by (cases k) auto
  have "filled (wrkers[length (created @ queues) := Some q]) (created @ (queues @ [q])) k'"
    using filled_step [of wrkers "created @ queues" k' q] Suc.prems(2) k by simp
  from Suc.IH [OF step this] show ?case using k by simp
qed simp

lemma fill_memory:
  assumes "wcs_WorkerType w = ''memory''" "length created + length queues + n \<le> length wrkers"
  shows "\<exists>r. fill_queues openDb w ns n j wrkers created queues = Started r"
  using assms(2)
proof (induction n arbitrary: j wrkers queues)
  case (Suc n)
  then show ?case using assms(1) by (simp add: new_queue_def Let_def)
qed simp

lemma start_Started:
  assumes "start_namespaces openDb w cs wrkers qss = Started (wrkers', qss')" "filled wrkers (concat qss) k"
  shows "(\<forall>c \<in> set cs. 0 \<le> wc_Count c) \<and> (cs \<noteq> [] \<longrightarrow> (\<exists>d. ParseDuration (wcs_PollDuration w) = Inr d)) \<and>
    (\<exists>new. qss' = qss @ new \<and> map (int \<circ> length) new = map wc_Count cs) \<and>
    filled wrkers' (concat qss') (k - nat (sum_list (map wc_Count cs)))"
  using assms
proof (induction cs arbitrary: wrkers qss k)
  case (Cons c cs)
  obtain d wrkers1 queues where first: "0 \<le> wc_Count c" "ParseDuration (wcs_PollDuration w) = Inr d"
    "fill_queues openDb w (wc_Namespace c) (nat (wc_Count c)) 0 wrkers (concat qss) [] = Started (wrkers1, queues)"
    and rest: "start_namespaces openDb w cs wrkers1 (qss @ [queues]) = Started (wrkers', qss')"
    using Cons.prems(1) by (auto split: if_splits sum.splits start.splits)
  have fill: "length queues = nat (wc_Count c)" "filled wrkers1 (concat (qss @ [queues])) (k - nat (wc_Count c))"
    using fill_Started [OF first(3)] Cons.prems(2) by simp_all
  note IH = Cons.IH [OF rest fill(2)]
  have "0 \<le> sum_list (map wc_Count cs)" using IH by (intro sum_list_nonneg) auto
  then show ?case using IH first(1,2) fill(1) by (auto simp: nat_add_distrib)
qed simp

lemma start_memory:
  assumes "wcs_WorkerType w = ''memory''" "ParseDuration (wcs_PollDuration w) = Inr d"
    and "\<forall>c \<in> set cs. 0 \<le> wc_Count c" "filled wrkers (concat qss) k" "sum_list (map wc_Count cs) \<le> int k"
  shows "\<exists>r. start_namespaces openDb w cs wrkers qss = Started r"
  using assms(3-)
proof (induction cs arbitrary: wrkers qss k)
  case (Cons c cs)
  have "0 \<le> sum_list (map wc_Count cs)" using Cons.prems(1) by (intro sum_list_nonneg) auto
  with Cons.prems have "nat (wc_Count c) \<le> k" by simp
  then obtain wrkers1 queues where fill:
    "fill_queues openDb w (wc_Namespace c) (nat (wc_Count c)) 0 wrkers (concat qss) [] = Started (wrkers1, queues)"
    using fill_memory [OF assms(1), of "concat qss" "[]"] filled_length [OF Cons.prems(2)] by (metis add.right_neutral list.size(3) nat_add_left_cancel_le surj_pair)
  from fill_Started [OF this] Cons.prems(2) have "filled wrkers1 (concat (qss @ [queues])) (k - nat (wc_Count c))" by simp
  moreover have "sum_list (map wc_Count cs) \<le> int (k - nat (wc_Count c))" using Cons.prems \<open>nat (wc_Count c) \<le> k\<close> by simp
  ultimately show ?case using Cons.IH [of wrkers1 "qss @ [queues]" "k - nat (wc_Count c)"] Cons.prems(1) fill assms(2) by simp
qed simp

text \<open>
  (C18) With queues in memory, the controller starts its workers exactly when no count is negative and the poll duration can be parsed. Then every
  slot of the slice of workers holds a worker, in the order of the configuration, and each namespace has as many queues as its count: the
  index into the slice never runs over its end.
\<close>

theorem workers_start:
  assumes "wcs_WorkerType w = ''memory''" "wcs_Workers w \<noteq> []"
  shows "((\<exists>r. start_workers openDb w = Started r) \<longleftrightarrow>
      (\<forall>c \<in> set (wcs_Workers w). 0 \<le> wc_Count c) \<and> (\<exists>d. ParseDuration (wcs_PollDuration w) = Inr d)) \<and>
    (\<forall>wrkers qss. start_workers openDb w = Started (wrkers, qss) \<longrightarrow>
      wrkers = map Some (concat qss) \<and> map (int \<circ> length) qss = map wc_Count (wcs_Workers w))"
proof -
  let ?total = "sum_list (map wc_Count (wcs_Workers w))"
  have init: "filled (replicate (nat ?total) None) (concat []) (nat ?total)" by (simp add: filled_def)
  have shape: "(\<forall>c \<in> set (wcs_Workers w). 0 \<le> wc_Count c) \<and> (\<exists>d. ParseDuration (wcs_PollDuration w) = Inr d) \<and>
      wrkers = map Some (concat qss) \<and> map (int \<circ> length) qss = map wc_Count (wcs_Workers w)"
    if started: "start_workers openDb w = Started (wrkers, qss)" for wrkers qss
  proof -
    from started have "start_namespaces openDb w (wcs_Workers w) (replicate (nat ?total) None) [] = Started (wrkers, qss)"
      by (simp add: start_workers_def Let_def split: if_splits)
    from start_Started [OF this init] assms(2) show ?thesis by (auto simp: filled_def)
  qed
  have "\<exists>r. start_workers openDb w = Started r"
    if "\<forall>c \<in> set (wcs_Workers w). 0 \<le> wc_Count c" "ParseDuration (wcs_PollDuration w) = Inr d" for d
  proof -
    have "0 \<le> ?total" using that(1) by (intro sum_list_nonneg) auto
    then show ?thesis using start_memory [OF assms(1) that(2,1) init] by (simp add: start_workers_def)
  qed
  with shape show ?thesis by (metis surj_pair)
qed

theorem workers_start_witness:
  "(\<exists>r. start_workers (\<lambda>_ _. None) (cc_Workers (default_config (\<lambda>_. None))) = Started r) \<and>
   \<not> (\<exists>r. start_workers (\<lambda>_ _. None) ((cc_Workers (default_config (\<lambda>_. None)))\<lparr>wcs_PollDuration := ''soon''\<rparr>) = Started r)"
proof -
  have "\<exists>d. ParseDuration ''100ms'' = Inr d" using default_poll by blast
  moreover have "\<not> (\<exists>d. ParseDuration ''soon'' = Inr d)"
    by (simp add: ParseDuration_def duration_terms.simps Let_def is_digit_def decimal_def digit_val_def unit_of_def)
  ultimately show ?thesis
    using workers_start [of "cc_Workers (default_config (\<lambda>_. None))" "\<lambda>_ _. None"]
      workers_start [of "(cc_Workers (default_config (\<lambda>_. None)))\<lparr>wcs_PollDuration := ''soon''\<rparr>" "\<lambda>_ _. None"]
    by (simp add: default_config_def)
qed

section \<open>Queues on disk\<close>

lemma queue_dirs_append [simp]: "queue_dirs (xs @ ys) = queue_dirs xs @ queue_dirs ys"
  by (induction xs rule: queue_dirs.induct) simp_all

lemma fill_pebble:
  assumes "fill_queues openDb w ns n j wrkers created queues = Started (wrkers', queues')" "wcs_WorkerType w = ''pebble''"
    and lock: "\<And>opened dir. dir \<in> set opened \<Longrightarrow> openDb opened dir \<noteq> None" and "distinct (queue_dirs (created @ queues))"
  shows "distinct (queue_dirs (created @ queues')) \<and> queue_dirs queues' = queue_dirs queues @ map (\<lambda>i. worker_dir (wcs_QueueDir w) ns i) [j..<j + n]"
  using assms(1,4)
proof (induction n arbitrary: j wrkers queues)
  case (Suc n)
  let ?dir = "worker_dir (wcs_QueueDir w) ns j"
  have step: "fill_queues openDb w ns n (Suc j) (wrkers[length created + length queues := Some (PebbleQueueAt ?dir ns)]) created
      (queues @ [PebbleQueueAt ?dir ns]) = Started (wrkers', queues')"
    and "openDb (queue_dirs (created @ queues)) ?dir = None"
    using Suc.prems(1) assms(2) by (auto simp: new_queue_def Let_def split: start.splits if_splits option.splits)
  with lock have "?dir \<notin> set (queue_dirs (created @ queues))" by blast
  then have "distinct (queue_dirs (created @ (queues @ [PebbleQueueAt ?dir ns])))" using Suc.prems(2) by simp
  note IH = Suc.IH [OF step this]
  show ?case
  proof
    show "distinct (queue_dirs (created @ queues'))" using IH by (rule conjunct1)
    have "[j..<j + Suc n] = j # [Suc j..<Suc j + n]" by (simp add: upt_conv_Cons)
    then show "queue_dirs queues' = queue_dirs queues @ map (\<lambda>i. worker_dir (wcs_QueueDir w) ns i) [j..<j + Suc n]"
      using conjunct2 [OF IH] by (simp only: queue_dirs_append queue_dirs.simps list.map append_assoc append_Cons append_Nil)
  qed
qed simp

definition dirs_of :: "WorkerConfigs \<Rightarrow> WorkerConfig \<Rightarrow> string list" where
  "dirs_of w c = map (worker_dir (wcs_QueueDir w) (wc_Namespace c)) [0..<nat (wc_Count c)]"

lemma start_pebble:
  assumes "start_namespaces openDb w cs wrkers qss = Started (wrkers', qss')" "wcs_WorkerType w = ''pebble''"
    and lock: "\<And>opened dir. dir \<in> set opened \<Longrightarrow> openDb opened dir \<noteq> None" and "distinct (queue_dirs (concat qss))"
  shows "distinct (queue_dirs (concat qss')) \<and> queue_dirs (concat qss') = queue_dirs (concat qss) @ concat (map (dirs_of w) cs)"
  using assms(1,4)
proof (induction cs arbitrary: wrkers qss)
  case (Cons c cs)
  obtain wrkers1 queues where first:
    "fill_queues openDb w (wc_Namespace c) (nat (wc_Count c)) 0 wrkers (concat qss) [] = Started (wrkers1, queues)"
    and rest: "start_namespaces openDb w cs wrkers1 (qss @ [queues]) = Started (wrkers', qss')"
    using Cons.prems(1) by (auto split: if_splits sum.splits start.splits)
  have fill: "distinct (queue_dirs (concat qss @ queues)) \<and> queue_dirs queues = dirs_of w c"
    using fill_pebble [OF first assms(2) lock] Cons.prems(2) unfolding dirs_of_def by (simp only: append_Nil2 queue_dirs.simps append_Nil add_0)
  have all: "concat (qss @ [queues]) = concat qss @ queues" by simp
  have "distinct (queue_dirs (concat (qss @ [queues])))" unfolding all using fill by (rule conjunct1)
  note IH = Cons.IH [OF rest this]
  show ?case
  proof
    show "distinct (queue_dirs (concat qss'))" using IH by (rule conjunct1)
    show "queue_dirs (concat qss') = queue_dirs (concat qss) @ concat (map (dirs_of w) (c # cs))"
      using conjunct2 [OF IH] conjunct2 [OF fill] unfolding all by (simp only: queue_dirs_append list.map concat.simps append_assoc)
  qed
qed simp

text \<open>
  With queues on disk, two entries of the configuration for the same namespace keep the controller from starting: the directory of a queue is
  named after the namespace and the position in its entry, and a database that the process has open already cannot be opened again.
\<close>

theorem namespace_twice_never_starts:
  assumes "wcs_WorkerType w = ''pebble''" "\<And>opened dir. dir \<in> set opened \<Longrightarrow> openDb opened dir \<noteq> None"
    and "wcs_Workers w = xs @ c # ys @ c' # zs" "wc_Namespace c = wc_Namespace c'" "0 < wc_Count c" "0 < wc_Count c'"
  shows "start_workers openDb w \<noteq> Started r"
proof
  assume started: "start_workers openDb w = Started r"
  obtain wrkers qss where r: "r = (wrkers, qss)" by (cases r)
  have "worker_dir (wcs_QueueDir w) (wc_Namespace c) 0 \<in> set (dirs_of w c) \<inter> set (dirs_of w c')"
    using assms(4-6) by (auto simp: dirs_of_def)
  then have "\<not> distinct (concat (map (dirs_of w) (wcs_Workers w)))" using assms(3) by auto
  moreover have "start_namespaces openDb w (wcs_Workers w) (replicate (nat (sum_list (map wc_Count (wcs_Workers w)))) None) [] = Started (wrkers, qss)"
    using started by (simp add: start_workers_def Let_def r split: if_splits)
  from start_pebble [OF this assms(1,2)] have "distinct (concat (map (dirs_of w) (wcs_Workers w)))" by auto
  ultimately show False by simp
qed

definition ex_twice :: WorkerConfigs where
  "ex_twice = \<lparr>wcs_WorkerType = ''pebble'', wcs_QueueDir = ''/q'',
     wcs_Workers = [\<lparr>wc_Namespace = ''a'', wc_Count = 1\<rparr>, \<lparr>wc_Namespace = ''a'', wc_Count = 2\<rparr>], wcs_PollDuration = ''100ms''\<rparr>"

theorem namespace_twice_never_starts_witness:
  "\<forall>r. start_workers (\<lambda>opened dir. if dir \<in> set opened then Some (Err ''lock held by current process'') else None) ex_twice \<noteq> Started r"
  by (rule allI, rule namespace_twice_never_starts [of _ _ "[]" "\<lparr>wc_Namespace = ''a'', wc_Count = 1\<rparr>" "[]" "\<lparr>wc_Namespace = ''a'', wc_Count = 2\<rparr>" "[]"])
    (auto simp: ex_twice_def)

section \<open>Where the two processes look for logs\<close>

text \<open>
  (C34) The controller and the API server with the same section on logs. On the file system both end up in the same directory, which the controller
  has cleaned and which is absolute. With S3 the server reads the configured bucket, while the controller writes to the bucket of its
  environment, or writes nothing when the environment names none: the two agree exactly when \<open>S3_BUCKETNAME\<close> is the configured bucket.
\<close>

theorem log_places:
  assumes "validateLogStore store = Inr store'" "createLogStore env mkdirAll s3 store' = Inr place"
    and "validateConfig (applyEnvironmentConfig env c) = None" "sv_LogStorage c = store"
    and "NewLogFetcher env stat s3 (applyEnvironmentConfig env c) = Inr place'"
  shows "(lc_StoreType store = ''filesystem'' \<longrightarrow> (\<exists>dir dir'. place = FileLogs dir \<and> place' = FileLogs dir' \<and> clean_path dir \<and> Clean dir' = dir)) \<and>
    (lc_StoreType store = ''s3'' \<longrightarrow>
      place' = S3Logs (Getenv env ''S3_ENDPOINT'') (sl_BucketName (lc_S3Configs store)) \<and>
      place = (if Getenv env ''S3_BUCKETNAME'' = [] then NoLogs else S3Logs (Getenv env ''S3_ENDPOINT'') (Getenv env ''S3_BUCKETNAME'')) \<and>
      (place = place' \<longleftrightarrow> Getenv env ''S3_BUCKETNAME'' = sl_BucketName (lc_S3Configs store)))"
proof (intro conjI impI)
  assume fs: "lc_StoreType store = ''filesystem''"
  with assms(1) have v: "IsAbs (lc_BaseDir store)" "lc_BaseDir store \<noteq> []" "store' = store\<lparr>lc_BaseDir := Clean (lc_BaseDir store)\<rparr>"
    by (auto simp: validateLogStore_def split: if_splits)
  from v(1) have "clean_path (Clean (lc_BaseDir store))" by (rule Clean_abs)
  moreover from this have "Clean (lc_BaseDir store) \<noteq> []" using v(1) IsAbs_Clean [of "lc_BaseDir store"] by force
  moreover have "place' = FileLogs (lc_BaseDir store)"
    using assms(4,5) fs v(2) by (auto simp: NewLogFetcher_def NewFSLogFetcher_def applyEnvironmentConfig_def store_from_environment_def Let_def
      split: sum.splits read_error.splits if_splits)
  ultimately show "\<exists>dir dir'. place = FileLogs dir \<and> place' = FileLogs dir' \<and> clean_path dir \<and> Clean dir' = dir"
    using assms(2) fs v(3) by (auto simp: createLogStore_def NewFileSystemLogStore_def Let_def split: if_splits)
next
  assume s3: "lc_StoreType store = ''s3''"
  with assms(1) have v: "sl_BucketName (lc_S3Configs store) \<noteq> []" "store' = store" by (auto simp: validateLogStore_def split: if_splits)
  show server: "place' = S3Logs (Getenv env ''S3_ENDPOINT'') (sl_BucketName (lc_S3Configs store))"
    using assms(4,5) s3 v(1) by (auto simp: NewLogFetcher_def applyEnvironmentConfig_def store_from_environment_def Let_def split: option.splits)
  show controller: "place = (if Getenv env ''S3_BUCKETNAME'' = [] then NoLogs else S3Logs (Getenv env ''S3_ENDPOINT'') (Getenv env ''S3_BUCKETNAME''))"
    using assms(2) s3 v(2) by (auto simp: createLogStore_def NewLogStore_def Let_def split: option.splits if_splits)
  show "place = place' \<longleftrightarrow> Getenv env ''S3_BUCKETNAME'' = sl_BucketName (lc_S3Configs store)"
    using server controller v(1) by auto
qed

theorem log_places_witness:
  "S3Logs [] ''logs'' \<noteq> NoLogs \<and> Getenv (\<lambda>_. None) ''S3_BUCKETNAME'' \<noteq> ''logs'' \<and>
   createLogStore (\<lambda>_. None) (\<lambda>_. None) (\<lambda>_ _. None) (zero_LogStoreConfig\<lparr>lc_StoreType := ''s3'', lc_S3Configs := \<lparr>sl_BucketName = ''logs'', sl_Endpoint = []\<rparr>\<rparr>) =
     Inr NoLogs"
proof -
  let ?store = "zero_LogStoreConfig\<lparr>lc_StoreType := ''s3'', lc_S3Configs := \<lparr>sl_BucketName = ''logs'', sl_Endpoint = []\<rparr>\<rparr>"
  let ?c = "\<lparr>sv_KubeConfigPath = [], sv_LogStorage = ?store\<rparr>"
  note defs = validateLogStore_def createLogStore_def NewLogStore_def validateConfig_def applyEnvironmentConfig_def store_from_environment_def
    NewLogFetcher_def zero_LogStoreConfig_def Getenv_def
  have "validateLogStore ?store = Inr ?store" "createLogStore (\<lambda>_. None) (\<lambda>_. None) (\<lambda>_ _. None) ?store = Inr NoLogs"
    "validateConfig (applyEnvironmentConfig (\<lambda>_. None) ?c) = None"
    "NewLogFetcher (\<lambda>_. None) (\<lambda>_. Inr True) (\<lambda>_ _. None) (applyEnvironmentConfig (\<lambda>_. None) ?c) = Inr (S3Logs [] ''logs'')"
    by (simp_all add: defs)
  from log_places [OF this(1,2,3) _ this(4)] this(2) show ?thesis by (simp add: zero_LogStoreConfig_def Getenv_def)
qed

end
