(* ===== verification/Startup.thy ===== *)
theory Startup
  imports Configuration
begin

text \<open>
  The database settings of the two processes (\<open>internal/db/config.go\<close>, \<open>internal/server/db/configs.go\<close>, \<open>internal/server/auth/config.go\<close>), the
  opening of the SQLite database, and how \<open>cmd/controller/main.go\<close> ends. Certificates are read by arguments, and the connection string is parsed by
  the driver, which is an argument too. An error that a settings function returns makes both processes exit, which is its value \<open>Exited\<close> here.
\<close>

section \<open>Postgres\<close>

record tls_config =
  tl_RootCAs :: "string option"
  tl_Certificates :: "string list"
  tl_ServerName :: string
  tl_InsecureSkipVerify :: bool

definition zero_tls :: tls_config where
  "zero_tls = \<lparr>tl_RootCAs = None, tl_Certificates = [], tl_ServerName = [], tl_InsecureSkipVerify = False\<rparr>"

text \<open>What the code sets as the TLS configuration of the driver; it may also leave what the driver found in the connection string.\<close>

datatype tls_setting = FromDSN | NoTLS | WithTLS tls_config

record 'c pg_config =
  pc_pool :: 'c
  pc_tls :: tls_setting

definition UpdateDBSSLConfig ::
    "environment \<Rightarrow> (string \<Rightarrow> string result) \<Rightarrow> (string \<Rightarrow> string \<Rightarrow> string result) \<Rightarrow> tls_config \<Rightarrow> tls_config result" where
  "UpdateDBSSLConfig env readFile keyPair tls =
     (case (if Getenv env ''DB_SSL_CA_CERT'' = [] then Inr tls
            else case readFile (Getenv env ''DB_SSL_CA_CERT'') of Inl e \<Rightarrow> Inl e | Inr caCert \<Rightarrow> Inr (tls\<lparr>tl_RootCAs := Some caCert\<rparr>)) of
        Inl e \<Rightarrow> Inl e
      | Inr tls1 \<Rightarrow>
          if Getenv env ''DB_SSL_CERT'' = [] \<or> Getenv env ''DB_SSL_KEY'' = [] then Inr tls1
          else case keyPair (Getenv env ''DB_SSL_CERT'') (Getenv env ''DB_SSL_KEY'') of
                 Inl e \<Rightarrow> Inl e | Inr cert \<Rightarrow> Inr (tls1\<lparr>tl_Certificates := [cert]\<rparr>))"

definition dsn :: "string \<Rightarrow> string \<Rightarrow> string \<Rightarrow> string \<Rightarrow> string" where
  "dsn user password endpoint name = ''postgres://'' @ user @ '':'' @ password @ ''@'' @ endpoint @ ''/'' @ name"

definition sslMode :: "environment \<Rightarrow> string" where
  "sslMode env = (case env ''DB_SSL_MODE'' of None \<Rightarrow> ''disable'' | Some mode \<Rightarrow> mode)"

text \<open>The TLS configuration of a mode other than \<open>disable\<close>; a certificate that cannot be read is a panic.\<close>

definition tls_for :: "environment \<Rightarrow> (string \<Rightarrow> string result) \<Rightarrow> (string \<Rightarrow> string \<Rightarrow> string result) \<Rightarrow> string \<Rightarrow> tls_config start" where
  "tls_for env readFile keyPair mode =
     (case UpdateDBSSLConfig env readFile keyPair zero_tls of
        Inl e \<Rightarrow> Panicked
      | Inr tls \<Rightarrow>
          Started (if mode = ''require'' then tls\<lparr>tl_InsecureSkipVerify := True\<rparr>
                   else if mode = ''verify-ca'' \<or> mode = ''verify-full'' then tls\<lparr>tl_InsecureSkipVerify := False\<rparr> else tls))"

text \<open>In the controller the check of the endpoint looks at the user again.\<close>

definition ConfigurePostgres ::
    "environment \<Rightarrow> (string \<Rightarrow> string result) \<Rightarrow> (string \<Rightarrow> string \<Rightarrow> string result) \<Rightarrow> (string \<Rightarrow> 'c result) \<Rightarrow> 'c pg_config start" where
  "ConfigurePostgres env readFile keyPair parseDSN =
     (let dbName = Getenv env ''DB_NAME''; dbUser = Getenv env ''DB_USER''; pgEndpoint = Getenv env ''DB_ENDPOINT''; dbPassword = Getenv env ''DB_PASSWORD'';
          mode = sslMode env
      in if dbName = [] then Exited (Err ''missing DB_NAME'')
         else if dbUser = [] then Exited (Err ''missing DB_USER'')
         else if dbUser = [] then Exited (Err ''missing DB_ENDPOINT'')
         else if dbPassword = [] then Exited (Err ''missing DB_PASSWORD'')
         else case parseDSN (dsn dbUser dbPassword pgEndpoint dbName @ ''?sslmode='' @ mode) of
                Inl e \<Rightarrow> Exited e
              | Inr pool \<Rightarrow>
                  if mode = ''disable'' then Started \<lparr>pc_pool = pool, pc_tls = FromDSN\<rparr>
                  else case tls_for env readFile keyPair mode of
                         Exited e \<Rightarrow> Exited e
                       | Panicked \<Rightarrow> Panicked
                       | Started tls \<Rightarrow> Started \<lparr>pc_pool = pool, pc_tls = WithTLS tls\<rparr>)"

definition ss_ConfigurePostgres ::
    "environment \<Rightarrow> (string \<Rightarrow> string result) \<Rightarrow> (string \<Rightarrow> string \<Rightarrow> string result) \<Rightarrow> (string \<Rightarrow> 'c result) \<Rightarrow> 'c pg_config start" where
  "ss_ConfigurePostgres env readFile keyPair parseDSN =
     (let dbName = Getenv env ''DB_NAME''; dbUser = Getenv env ''DB_USER''; pgEndpoint = Getenv env ''DB_ENDPOINT''; dbPassword = Getenv env ''DB_PASSWORD'';
          mode = sslMode env; base = dsn dbUser dbPassword pgEndpoint dbName
      in if dbName = [] then Exited (Err ''missing DB_NAME'')
         else if dbUser = [] then Exited (Err ''missing DB_USER'')
         else if pgEndpoint = [] then Exited (Err ''missing DB_ENDPOINT'')
         else if dbPassword = [] then Exited (Err ''missing DB_PASSWORD'')
         else case parseDSN (if mode = ''disable'' then base else base @ ''?sslmode='' @ mode) of
                Inl e \<Rightarrow> Exited e
              | Inr pool \<Rightarrow>
                  if mode = ''disable'' then Started \<lparr>pc_pool = pool, pc_tls = NoTLS\<rparr>
                  else case tls_for env readFile keyPair mode of
                         Exited e \<Rightarrow> Exited e
                       | Panicked \<Rightarrow> Panicked
                       | Started tls \<Rightarrow> Started \<lparr>pc_pool = pool, pc_tls = WithTLS tls\<rparr>)"

section \<open>SQLite\<close>

record SQLiteConfig =
  sc_DBPath :: string
  sc_JournalMode :: string
  sc_Synchronous :: string
  sc_CacheSize :: int
  sc_TempStore :: string

definition or_default :: "string \<Rightarrow> string \<Rightarrow> string" where
  "or_default v d = (if v = [] then d else v)"

text \<open>A cache size in the environment is not parsed: the field keeps its zero value.\<close>

definition ConfigureSqlite :: "environment \<Rightarrow> SQLiteConfig result" where
  "ConfigureSqlite env =
     (if Getenv env ''SQLITE_PATH'' = [] then Inl (Err ''missing SQLITE_PATH'')
      else Inr \<lparr>sc_DBPath = Getenv env ''SQLITE_PATH'', sc_JournalMode = or_default (Getenv env ''SQLITE_JOURNAL_MODE'') ''WAL'',
             sc_Synchronous = or_default (Getenv env ''SQLITE_SYNCHRONOUS'') ''NORMAL'',
             sc_CacheSize = (if Getenv env ''SQLITE_CACHE_SIZE'' = [] then - 2000 else 0),
             sc_TempStore = or_default (Getenv env ''SQLITE_TEMP_STORE'') ''MEMORY''\<rparr>)"

definition ConfigureAuthSqlite :: "environment \<Rightarrow> SQLiteConfig result" where
  "ConfigureAuthSqlite env =
     (if Getenv env ''AUTH_SQLITE_PATH'' = [] then Inl (Err ''missing SQLITE_PATH'')
      else Inr \<lparr>sc_DBPath = Getenv env ''AUTH_SQLITE_PATH'', sc_JournalMode = or_default (Getenv env ''SQLITE_JOURNAL_MODE'') ''WAL'',
             sc_Synchronous = or_default (Getenv env ''SQLITE_SYNCHRONOUS'') ''NORMAL'',
             sc_CacheSize = (if Getenv env ''SQLITE_CACHE_SIZE'' = [] then - 2000 else 0),
             sc_TempStore = or_default (Getenv env ''SQLITE_TEMP_STORE'') ''MEMORY''\<rparr>)"

record SQLiteReadOnlyConfig =
  ro_DBPath :: string
  ro_Synchronous :: string
  ro_CacheSize :: int

definition ss_ConfigureSqlite :: "environment \<Rightarrow> SQLiteReadOnlyConfig result" where
  "ss_ConfigureSqlite env =
     (if Getenv env ''SQLITE_PATH'' = [] then Inl (Err ''missing SQLITE_PATH'')
      else Inr \<lparr>ro_DBPath = Getenv env ''SQLITE_PATH'', ro_Synchronous = or_default (Getenv env ''SQLITE_SYNCHRONOUS'') ''NORMAL'',
             ro_CacheSize = (if Getenv env ''SQLITE_CACHE_SIZE'' = [] then - 2000 else 0)\<rparr>)"

text \<open>
  Opening the database of the controller: the settings as statements, each with the error that its failure is reported as. A statement fails through
  the argument \<open>exec\<close>; the database is closed again after an error. The result is the registered migrations, with the statements that ran.
\<close>

definition pragmas :: "SQLiteConfig \<Rightarrow> (string \<times> string) list" where
  "pragmas c =
     (if sc_JournalMode c = [] then [] else [(''PRAGMA journal_mode='' @ sc_JournalMode c @ '';'', ''failed to set journal mode'')]) @
     (if sc_Synchronous c = [] then [] else [(''PRAGMA synchronous='' @ sc_Synchronous c @ '';'', ''failed to set synchronous mode'')]) @
     (if sc_CacheSize c = 0 then [] else [(''PRAGMA cache_size='' @ Itoa (sc_CacheSize c) @ '';'', ''failed to set cache size'')]) @
     (if sc_TempStore c = [] then [] else [(''PRAGMA temp_store='' @ sc_TempStore c @ '';'', ''failed to set temp store'')])"

definition NewSqliteManager ::
    "(string \<Rightarrow> check) \<Rightarrow> (string \<Rightarrow> check) \<Rightarrow> check \<Rightarrow> (string \<Rightarrow> entry list) \<Rightarrow> SQLiteConfig \<Rightarrow> (migration list \<times> string list) result" where
  "NewSqliteManager openDb exec ping files config =
     (if openDb (sc_DBPath config) \<noteq> None then Inl (Err ''failed to open SQLite database'')
      else case first_check (\<lambda>(statement, message). if exec statement = None then None else Some (Err message)) (pragmas config) of
             Some e \<Rightarrow> Inl e
           | None \<Rightarrow>
               if ping \<noteq> None then Inl (Err ''failed to connect to SQLite database'')
               else case RegisterMigrations files ''sqlite'' of
                      Inl e \<Rightarrow> Inl (Err ''failed to register migrations'')
                    | Inr ms \<Rightarrow> Inr (ms, map fst (pragmas config)))"

definition NewPostgresDAGManager :: "(string \<Rightarrow> entry list) \<Rightarrow> migration list result" where
  "NewPostgresDAGManager files =
     (case RegisterMigrations files ''postgresql'' of Inl e \<Rightarrow> Inl (Err ''failed to register migrations'') | Inr ms \<Rightarrow> Inr ms)"

section \<open>The settings that the environment gives\<close>

lemma Update_keeps:
  "UpdateDBSSLConfig env readFile keyPair tls = Inr tls' \<Longrightarrow> tl_ServerName tls' = tl_ServerName tls \<and> tl_InsecureSkipVerify tls' = tl_InsecureSkipVerify tls"
  by (auto simp: UpdateDBSSLConfig_def split: if_splits sum.splits)

lemma tls_for_Started:
  "tls_for env readFile keyPair mode = Started tls \<Longrightarrow> tl_ServerName tls = [] \<and> (tl_InsecureSkipVerify tls \<longleftrightarrow> mode = ''require'')"
  by (auto simp: tls_for_def zero_tls_def dest!: Update_keeps split: sum.splits if_splits)

text \<open>
  The certificate of the database is checked in every SSL mode but \<open>disable\<close> and \<open>require\<close>, by both processes. The TLS configuration then replaces
  that of the driver and has no server name, with which Go refuses a handshake that is not told to skip verification.
\<close>

theorem verified_modes:
  assumes "sslMode env \<noteq> ''disable''" "sslMode env \<noteq> ''require''"
    and "ConfigurePostgres env readFile keyPair parseDSN = Started c \<or> ss_ConfigurePostgres env readFile keyPair parseDSN = Started c"
  shows "\<exists>tls. pc_tls c = WithTLS tls \<and> \<not> tl_InsecureSkipVerify tls \<and> tl_ServerName tls = []"
  using assms
  by (auto simp: ConfigurePostgres_def ss_ConfigurePostgres_def Let_def dest!: tls_for_Started split: if_splits sum.splits start.splits)

definition ex_pg_env :: environment where
  "ex_pg_env = map_of [(''DB_NAME'', ''k''), (''DB_USER'', ''u''), (''DB_PASSWORD'', ''p''), (''DB_SSL_MODE'', ''verify-full'')]"

theorem verified_modes_witness:
  "\<exists>c tls. ConfigurePostgres ex_pg_env (\<lambda>_. Inr ''cert'') (\<lambda>_ _. Inr ''pair'') Inr = Started c \<and>
     pc_pool c = ''postgres://u:p@/k?sslmode=verify-full'' \<and> pc_tls c = WithTLS tls \<and> \<not> tl_InsecureSkipVerify tls"
proof -
  note defs = ConfigurePostgres_def tls_for_def UpdateDBSSLConfig_def sslMode_def Getenv_def ex_pg_env_def dsn_def
  obtain c where c: "ConfigurePostgres ex_pg_env (\<lambda>_. Inr ''cert'') (\<lambda>_ _. Inr ''pair'') Inr = Started c"
    "pc_pool c = ''postgres://u:p@/k?sslmode=verify-full''"
    by (simp add: defs)
  have "\<exists>tls. pc_tls c = WithTLS tls \<and> \<not> tl_InsecureSkipVerify tls \<and> tl_ServerName tls = []"
    by (rule verified_modes [OF _ _ disjI1 [OF c(1)]]) (simp_all add: defs)
  with c show ?thesis by blast
qed

text \<open>
  A missing endpoint. The API server reports it; the controller never does, and hands the driver a connection string without a host.
\<close>

theorem missing_endpoint:
  assumes "Getenv env ''DB_ENDPOINT'' = []" "Getenv env ''DB_NAME'' \<noteq> []" "Getenv env ''DB_USER'' \<noteq> []" "Getenv env ''DB_PASSWORD'' \<noteq> []"
    and "sslMode env = ''disable''" "\<And>d. parseDSN d = Inr (f d)"
  shows "ss_ConfigurePostgres env readFile keyPair parseDSN = Exited (Err ''missing DB_ENDPOINT'') \<and>
    ConfigurePostgres env readFile keyPair parseDSN =
      Started \<lparr>pc_pool = f (''postgres://'' @ Getenv env ''DB_USER'' @ '':'' @ Getenv env ''DB_PASSWORD'' @ ''@/'' @ Getenv env ''DB_NAME'' @ ''?sslmode=disable''),
        pc_tls = FromDSN\<rparr>"
  using assms by (simp add: ConfigurePostgres_def ss_ConfigurePostgres_def Let_def dsn_def)

theorem missing_endpoint_witness:
  "ConfigurePostgres (ex_pg_env(''DB_SSL_MODE'' := None)) (\<lambda>_. Inr ''c'') (\<lambda>_ _. Inr ''k'') Inr =
     Started \<lparr>pc_pool = ''postgres://u:p@/k?sslmode=disable'', pc_tls = FromDSN\<rparr>"
  using missing_endpoint [of "ex_pg_env(''DB_SSL_MODE'' := None)" Inr id "\<lambda>_. Inr ''c''" "\<lambda>_ _. Inr ''k''"]
  by (simp add: ex_pg_env_def Getenv_def sslMode_def)

text \<open>A cache size in the environment only switches the setting off.\<close>

lemma cache_size_ignored:
  assumes "ConfigureSqlite env = Inr c" "Getenv env ''SQLITE_CACHE_SIZE'' \<noteq> []"
  shows "sc_CacheSize c = 0 \<and> (\<forall>(statement, message) \<in> set (pragmas c). take 18 statement \<noteq> ''PRAGMA cache_size='')"
  using assms by (auto simp: ConfigureSqlite_def pragmas_def or_default_def split: if_splits)

section \<open>The end of the controller\<close>

text \<open>
  The goroutines of the controller and how they end. The goroutine of the signals cancels the root context and closes the channel \<open>shutdown\<close>. An error
  of the orphan reconciler or of the manager only cancels the context. The main goroutine waits for \<open>shutdown\<close>, closes the channels of the watchers, waits
  for the goroutines of its wait group and returns. The scheduler, the orphan reconciler (\<open>pr_loops\<close>) and the workers end when the context is cancelled,
  the watchers when their channels are closed.

  The listener of the webhooks (\<open>webhookManager.Listen\<close>) ends when the context is cancelled too, and its deferred call closes the channel of the
  notifications, which holds ten of them. A worker sends on that channel from goroutines of their own, which no wait group counts (\<open>pr_senders\<close>: \<open>go\<close>
  \<open>NotifyTaskRun\<close>, \<open>go NotifyPodEvent\<close>), and in \<open>handleStartedTaskRun\<close> from the worker's own goroutine (\<open>pr_blocked\<close>: the workers that are in this call).
  A send on a closed channel panics, also a send that was waiting for room when the channel was closed, and nothing recovers it, so the process is over.
  The panics of the goroutines' own work are not steps of this relation, nor is the kill by the operating system.
\<close>

datatype main_state = AwaitShutdown | AwaitGoroutines | Ended

record process =
  pr_cancelled :: bool
  pr_shutdown :: bool
  pr_main :: main_state
  pr_loops :: nat
  pr_workers :: nat
  pr_watchers :: nat
  pr_listening :: bool
  pr_buffered :: nat
  pr_senders :: nat
  pr_blocked :: nat
  pr_panicked :: bool

datatype main_event = Signal | OrphanError | ManagerError | LoopEnds | WorkerEnds | WatcherEnds | MainGoesOn
  | Notifies | NotifiesInCall | Sent | SentInCall | SendPanics | Received | ListenerEnds

definition webhook_capacity :: nat where
  "webhook_capacity = 10"

inductive main_step :: "main_event \<Rightarrow> process \<Rightarrow> process \<Rightarrow> bool" where
  signal: "\<not> pr_shutdown p \<Longrightarrow> main_step Signal p (p\<lparr>pr_cancelled := True, pr_shutdown := True\<rparr>)"
| orphan: "main_step OrphanError p (p\<lparr>pr_cancelled := True\<rparr>)"
| manager: "main_step ManagerError p (p\<lparr>pr_cancelled := True\<rparr>)"
| loop: "pr_cancelled p \<Longrightarrow> pr_loops p = Suc n \<Longrightarrow> main_step LoopEnds p (p\<lparr>pr_loops := n\<rparr>)"
| worker: "pr_cancelled p \<Longrightarrow> pr_workers p = Suc n \<Longrightarrow> main_step WorkerEnds p (p\<lparr>pr_workers := n\<rparr>)"
| watcher: "pr_main p = AwaitGoroutines \<Longrightarrow> pr_watchers p = Suc n \<Longrightarrow> main_step WatcherEnds p (p\<lparr>pr_watchers := n\<rparr>)"
| received: "pr_main p = AwaitShutdown \<Longrightarrow> pr_shutdown p \<Longrightarrow> main_step MainGoesOn p (p\<lparr>pr_main := AwaitGoroutines\<rparr>)"
| finished: "pr_main p = AwaitGoroutines \<Longrightarrow> pr_loops p = 0 \<Longrightarrow> pr_workers p = 0 \<Longrightarrow> pr_blocked p = 0 \<Longrightarrow> pr_watchers p = 0 \<Longrightarrow>
    \<not> pr_listening p \<Longrightarrow> main_step MainGoesOn p (p\<lparr>pr_main := Ended\<rparr>)"
| notify: "0 < pr_workers p \<Longrightarrow> main_step Notifies p (p\<lparr>pr_senders := pr_senders p + 1\<rparr>)"
| notify_call: "pr_workers p = Suc n \<Longrightarrow> main_step NotifiesInCall p (p\<lparr>pr_workers := n, pr_blocked := pr_blocked p + 1\<rparr>)"
| sent: "pr_listening p \<Longrightarrow> pr_buffered p < webhook_capacity \<Longrightarrow> pr_senders p = Suc n \<Longrightarrow>
    main_step Sent p (p\<lparr>pr_senders := n, pr_buffered := pr_buffered p + 1\<rparr>)"
| sent_call: "pr_listening p \<Longrightarrow> pr_buffered p < webhook_capacity \<Longrightarrow> pr_blocked p = Suc n \<Longrightarrow>
    main_step SentInCall p (p\<lparr>pr_blocked := n, pr_workers := pr_workers p + 1, pr_buffered := pr_buffered p + 1\<rparr>)"
| panic: "\<not> pr_listening p \<Longrightarrow> 0 < pr_senders p + pr_blocked p \<Longrightarrow> main_step SendPanics p (p\<lparr>pr_panicked := True\<rparr>)"
| take: "pr_listening p \<Longrightarrow> pr_buffered p = Suc n \<Longrightarrow> main_step Received p (p\<lparr>pr_buffered := n\<rparr>)"
| listener: "pr_cancelled p \<Longrightarrow> pr_listening p \<Longrightarrow> main_step ListenerEnds p (p\<lparr>pr_listening := False\<rparr>)"

definition over :: "process \<Rightarrow> bool" where
  "over p \<longleftrightarrow> pr_panicked p \<or> pr_main p = Ended"

inductive main_run :: "main_event list \<Rightarrow> process \<Rightarrow> process \<Rightarrow> bool" where
  start: "main_run [] p p"
| step: "main_run es p q \<Longrightarrow> \<not> over q \<Longrightarrow> main_step e q r \<Longrightarrow> main_run (es @ [e]) p r"

definition started_process :: "nat \<Rightarrow> nat \<Rightarrow> nat \<Rightarrow> process" where
  "started_process l n k = \<lparr>pr_cancelled = False, pr_shutdown = False, pr_main = AwaitShutdown, pr_loops = l, pr_workers = n, pr_watchers = k,
     pr_listening = True, pr_buffered = 0, pr_senders = 0, pr_blocked = 0, pr_panicked = False\<rparr>"

definition cancelling :: "main_event set" where
  "cancelling = {Signal, OrphanError, ManagerError}"

inductive_cases panicE: "main_step SendPanics p q"

lemma main_run_append: "main_run fs q r \<Longrightarrow> main_run es p q \<Longrightarrow> main_run (es @ fs) p r"
proof (induction rule: main_run.induct)
  case (step fs q r e s)
  from main_run.step [OF step.IH [OF step.prems] step.hyps(2,3)] show ?case by simp
qed simp

text \<open>What every state of a run satisfies: the causes of what it shows.\<close>

definition run_inv :: "main_event set \<Rightarrow> process \<Rightarrow> bool" where
  "run_inv E q \<longleftrightarrow> (pr_shutdown q \<longrightarrow> Signal \<in> E \<and> pr_cancelled q) \<and> (pr_main q \<noteq> AwaitShutdown \<longrightarrow> pr_shutdown q) \<and>
     (pr_cancelled q \<longrightarrow> E \<inter> cancelling \<noteq> {}) \<and> (\<not> pr_listening q \<longrightarrow> pr_cancelled q) \<and> (pr_panicked q \<longrightarrow> \<not> pr_listening q) \<and>
     pr_buffered q \<le> webhook_capacity"

lemma run_inv_step: "main_step e q r \<Longrightarrow> run_inv E q \<Longrightarrow> run_inv (insert e E) r"
  by (cases rule: main_step.cases, assumption) (auto simp: run_inv_def cancelling_def)

lemma run_inv_run: "main_run es p q \<Longrightarrow> p = started_process l n k \<Longrightarrow> run_inv (set es) q"
proof (induction rule: main_run.induct)
  case (step es p q e r)
  then show ?case using run_inv_step [of e q r "set es"] by simp
qed (simp add: started_process_def run_inv_def)

text \<open>Once the channel is closed and a worker is in a send, the process cannot end but by the panic of that send.\<close>

definition doomed :: "process \<Rightarrow> bool" where
  "doomed q \<longleftrightarrow> \<not> pr_listening q \<and> 0 < pr_blocked q"

lemma doomed_step: "main_step e q r \<Longrightarrow> doomed q \<Longrightarrow> doomed r \<and> (pr_main r = Ended \<longrightarrow> pr_main q = Ended)"
  by (cases rule: main_step.cases, assumption) (auto simp: doomed_def)

lemma doomed_run: "main_run es q r \<Longrightarrow> doomed q \<Longrightarrow> pr_main q \<noteq> Ended \<Longrightarrow> doomed r \<and> pr_main r \<noteq> Ended"
  by (induction rule: main_run.induct) (auto dest: doomed_step)

text \<open>A process that is being stopped and is not doomed can take a step that brings it nearer to its end.\<close>

definition stopping :: "process \<Rightarrow> bool" where
  "stopping q \<longleftrightarrow> pr_cancelled q \<and> pr_shutdown q \<and> \<not> over q \<and> \<not> doomed q \<and> pr_buffered q \<le> webhook_capacity"

definition distance :: "process \<Rightarrow> nat" where
  "distance q = 3 * pr_blocked q + pr_buffered q + pr_workers q + pr_loops q + pr_watchers q + (if pr_listening q then 1 else 0) +
     (if pr_main q = AwaitShutdown then 1 else 0)"

lemma stopping_moves:
  assumes "stopping q"
  obtains e r where "main_step e q r" "pr_main r = Ended \<and> \<not> pr_panicked r \<or> stopping r \<and> distance r < distance q"
proof -
  note defs = stopping_def distance_def doomed_def over_def
  consider (call) n where "pr_blocked q = Suc n" | (none) "pr_blocked q = 0" by (cases "pr_blocked q") auto
  then show thesis
  proof cases
    case call
    then have l: "pr_listening q" using assms by (simp add: defs)
    show thesis
    proof (cases "pr_buffered q < webhook_capacity")
      case True
      show thesis by (rule that [OF main_step.sent_call [OF l True call]]) (use assms True call l in \<open>simp add: defs\<close>)
    next
      case False
      then obtain m where m: "pr_buffered q = Suc m" by (cases "pr_buffered q") (auto simp: webhook_capacity_def)
      show thesis by (rule that [OF main_step.take [OF l m]]) (use assms m l in \<open>simp add: defs\<close>)
    qed
  next
    case none
    have c: "pr_cancelled q" "pr_shutdown q" using assms by (simp_all add: defs)
    consider "pr_listening q" | n where "pr_workers q = Suc n" | n where "pr_loops q = Suc n" | "pr_main q = AwaitShutdown"
      | n where "pr_watchers q = Suc n" "pr_main q = AwaitGoroutines"
      | "\<not> pr_listening q" "pr_workers q = 0" "pr_loops q = 0" "pr_watchers q = 0" "pr_main q = AwaitGoroutines"
      using assms by (cases "pr_workers q"; cases "pr_loops q"; cases "pr_watchers q"; cases "pr_main q") (auto simp: defs)
    then show thesis
    proof cases
      case 1 show thesis by (rule that [OF main_step.listener [OF c(1) 1]]) (use assms none 1 in \<open>simp add: defs\<close>)
    next
      case 2 show thesis by (rule that [OF main_step.worker [OF c(1) 2]]) (use assms none 2 in \<open>simp add: defs\<close>)
    next
      case 3 show thesis by (rule that [OF main_step.loop [OF c(1) 3]]) (use assms none 3 in \<open>simp add: defs\<close>)
    next
      case 4 show thesis by (rule that [OF main_step.received [OF 4 c(2)]]) (use assms none 4 in \<open>simp add: defs\<close>)
    next
      case 5 show thesis by (rule that [OF main_step.watcher [OF 5(2,1)]]) (use assms none 5 in \<open>simp add: defs\<close>)
    next
      case 6 show thesis
        by (rule that [OF main_step.finished [OF 6(5) 6(3) 6(2) none 6(4) 6(1)]]) (use assms none 6 in \<open>simp add: defs\<close>)
    qed
  qed
qed

lemma stopping_ends: "stopping q \<Longrightarrow> \<exists>es r. main_run es q r \<and> pr_main r = Ended \<and> \<not> pr_panicked r"
proof (induction "distance q" arbitrary: q rule: less_induct)
  case less
  from less.prems obtain e r where e: "main_step e q r" "pr_main r = Ended \<and> \<not> pr_panicked r \<or> stopping r \<and> distance r < distance q"
    by (rule stopping_moves)
  have "\<not> over q" using less.prems by (simp add: stopping_def)
  with main_run.step [OF main_run.start _ e(1)] have one: "main_run [e] q r" by simp
  show ?case
  proof (cases "pr_main r = Ended \<and> \<not> pr_panicked r")
    case True
    with one show ?thesis by blast
  next
    case False
    then obtain es t where "main_run es r t" "pr_main t = Ended \<and> \<not> pr_panicked t" using less.hyps e(2) by blast
    with main_run_append [OF _ one] show ?thesis by blast
  qed
qed

lemma can_end:
  assumes "main_run es (started_process l n k) q" "\<not> over q" "\<not> doomed q"
  shows "\<exists>fs r. main_run fs q r \<and> pr_main r = Ended \<and> \<not> pr_panicked r"
proof -
  have inv: "run_inv (set es) q" by (rule run_inv_run [OF assms(1) refl])
  show ?thesis
  proof (cases "pr_shutdown q")
    case True
    then have "stopping q" using inv assms(2,3) by (auto simp: stopping_def run_inv_def)
    then show ?thesis by (rule stopping_ends)
  next
    case False
    let ?s = "q\<lparr>pr_cancelled := True, pr_shutdown := True\<rparr>"
    have one: "main_run [Signal] q ?s" using main_run.step [OF main_run.start assms(2) main_step.signal [OF False]] by simp
    have "stopping ?s" using inv assms(2,3) by (auto simp: stopping_def run_inv_def over_def doomed_def)
    from stopping_ends [OF this] main_run_append [OF _ one] show ?thesis by blast
  qed
qed

text \<open>
  (C33) How the controller can end. Its main function returns only after a signal, also when the manager or the orphan reconciler has failed and
  cancelled the context; without a signal it is over only by the panic of a notification, and this happens only after a signal or such a failure,
  when the listener has closed the channel. As long as the process is not over, a run to the regular end exists, whatever the number of its goroutines
  and of its pending notifications, except when the channel is closed and a worker is in the call that notifies of a start: then none exists.
\<close>

theorem ends_by_signal_only:
  assumes "main_run es (started_process l n k) q"
  shows "(pr_main q = Ended \<longrightarrow> Signal \<in> set es) \<and>
    (pr_panicked q \<longrightarrow> set es \<inter> {Signal, OrphanError, ManagerError} \<noteq> {} \<and> \<not> pr_listening q) \<and>
    (\<not> over q \<longrightarrow> ((\<exists>fs r. main_run fs q r \<and> pr_main r = Ended \<and> \<not> pr_panicked r) \<longleftrightarrow> pr_listening q \<or> pr_blocked q = 0))"
proof -
  have inv: "run_inv (set es) q" by (rule run_inv_run [OF assms refl])
  have "(\<exists>fs r. main_run fs q r \<and> pr_main r = Ended \<and> \<not> pr_panicked r) \<longleftrightarrow> pr_listening q \<or> pr_blocked q = 0" if q: "\<not> over q"
  proof
    assume "\<exists>fs r. main_run fs q r \<and> pr_main r = Ended \<and> \<not> pr_panicked r"
    then obtain fs r where "main_run fs q r" "pr_main r = Ended" by blast
    then show "pr_listening q \<or> pr_blocked q = 0" using doomed_run q by (auto simp: doomed_def over_def)
  next
    assume "pr_listening q \<or> pr_blocked q = 0"
    then show "\<exists>fs r. main_run fs q r \<and> pr_main r = Ended \<and> \<not> pr_panicked r" by (intro can_end [OF assms q]) (auto simp: doomed_def)
  qed
  then show ?thesis using inv by (auto simp: run_inv_def cancelling_def)
qed

text \<open>A failure of the manager while a notification is on its way: the listener closes the channel and the notification ends the process.\<close>

definition failed_process :: process where
  "failed_process = (started_process 2 3 2)\<lparr>pr_senders := 1, pr_cancelled := True, pr_listening := False, pr_panicked := True\<rparr>"

lemma notification_ends_process:
  "main_run [Notifies, ManagerError, ListenerEnds, SendPanics] (started_process 2 3 2) failed_process"
proof -
  let ?p = "started_process 2 3 2"
  let ?q = "?p\<lparr>pr_senders := 1, pr_cancelled := True, pr_listening := False\<rparr>"
  have "main_run [Notifies] ?p (?p\<lparr>pr_senders := 1\<rparr>)"
    using main_run.step [OF main_run.start _ main_step.notify, of ?p] by (simp add: started_process_def over_def)
  from main_run.step [OF this _ main_step.manager]
  have "main_run [Notifies, ManagerError] ?p (?p\<lparr>pr_senders := 1, pr_cancelled := True\<rparr>)" by (simp add: started_process_def over_def)
  from main_run.step [OF this _ main_step.listener]
  have "main_run [Notifies, ManagerError, ListenerEnds] ?p ?q" by (simp add: started_process_def over_def)
  from main_run.step [OF this _ main_step.panic]
  show ?thesis by (simp add: started_process_def over_def failed_process_def)
qed

theorem ends_by_signal_only_witness:
  "main_run [Notifies, ManagerError, ListenerEnds, SendPanics] (started_process 2 3 2) failed_process \<and>
   pr_panicked failed_process \<and> pr_main failed_process \<noteq> Ended \<and>
   set [Notifies, ManagerError, ListenerEnds, SendPanics] \<inter> {Signal, OrphanError, ManagerError} \<noteq> {} \<and> \<not> pr_listening failed_process"
proof -
  have "pr_panicked failed_process" by (simp add: failed_process_def)
  with ends_by_signal_only [OF notification_ends_process] show ?thesis using notification_ends_process by auto
qed

end
