(* ===== verification/Live_Logs.thy ===== *)
theory Live_Logs
  imports Server_Sessions Server_Db Db_Manager
begin

text \<open>
  \<open>internal/server/ws\<close>: the log of a running pod, followed over a web socket. The middleware checks the session before the connection is upgraded;
  the handler looks the pod up in the database and relays what it reads, chunk by chunk. Kubernetes gives the stream of a pod as the results of its
  reads, each of them data and an error; a failed write ends the loop.
\<close>

section \<open>The handler\<close>

datatype frame = TextFrame string | CloseFrame string

definition ws_Auth :: "auth_manager \<Rightarrow> auth_lib \<Rightarrow> int \<Rightarrow> string \<Rightarrow> auth_db \<Rightarrow> string + string" where
  "ws_Auth m lib now cookie a =
     (if cookie = [] then Inl ''Missing authentication token''
      else case au_IsValidLogin m lib now cookie a of
             Inl _ \<Rightarrow> Inl ''Invalid token''
           | Inr (username, role) \<Rightarrow> Inr username)"

fun dm_GetPodNameAndNamespace :: "db_manager \<Rightarrow> string \<Rightarrow> db \<Rightarrow> (string \<times> string) result" where
  "dm_GetPodNameAndNamespace (SqliteManager tz) = ss_GetPodNameAndNamespace"
| "dm_GetPodNameAndNamespace PostgresManager = sg_GetPodNameAndNamespace"

text \<open>The loop: the data of a read that reports an error is not sent. The argument \<open>writes\<close> tells which of the messages fail.\<close>

fun relay :: "(nat \<Rightarrow> check) \<Rightarrow> nat \<Rightarrow> (string \<times> check) list \<Rightarrow> frame list" where
  "relay writes i [] = []"
| "relay writes i ((buf, Some e) # reads) = []"
| "relay writes i ((buf, None) # reads) = (if writes i = None then TextFrame buf # relay writes (Suc i) reads else [])"

definition StreamLogs ::
    "db_manager \<Rightarrow> (string \<Rightarrow> string \<Rightarrow> (string \<times> check) list result) \<Rightarrow> (nat \<Rightarrow> check) \<Rightarrow> string \<Rightarrow> db \<Rightarrow> frame list" where
  "StreamLogs m open_stream writes podUUID s =
     (if podUUID = [] then [CloseFrame ''Missing pod UUID'']
      else case dm_GetPodNameAndNamespace m podUUID s of
             Inl _ \<Rightarrow> [CloseFrame ''Failed to get logs'']
           | Inr (namespace, name) \<Rightarrow>
               (case open_stream namespace name of
                  Inl _ \<Rightarrow> [CloseFrame ''Failed to get logs'']
                | Inr reads \<Rightarrow> relay writes 0 reads @ [CloseFrame ''finished'']))"

text \<open>The route: a request that the middleware refuses is answered with status 401 and never upgraded.\<close>

definition ws_logs ::
    "db_manager \<Rightarrow> auth_manager \<Rightarrow> auth_lib \<Rightarrow> (string \<Rightarrow> string \<Rightarrow> (string \<times> check) list result) \<Rightarrow> (nat \<Rightarrow> check) \<Rightarrow> int \<Rightarrow> string \<Rightarrow> string \<Rightarrow>
      auth_db \<Rightarrow> db \<Rightarrow> nat + frame list" where
  "ws_logs m am lib open_stream writes now cookie podUUID a s =
     (case ws_Auth am lib now cookie a of Inl _ \<Rightarrow> Inl 401 | Inr username \<Rightarrow> Inr (StreamLogs m open_stream writes podUUID s))"

section \<open>What a client receives\<close>

fun frame_text :: "frame \<Rightarrow> string" where
  "frame_text (TextFrame t) = t"
| "frame_text (CloseFrame _) = []"

lemma relay_all: "(\<And>i. writes i = None) \<Longrightarrow> concat (map frame_text (relay writes i reads)) = concat (map fst (takeWhile (\<lambda>r. snd r = None) reads))"
  by (induction writes i reads rule: relay.induct) simp_all

lemma relay_text: "f \<in> set (relay writes i reads) \<Longrightarrow> \<exists>buf. f = TextFrame buf \<and> (buf, None) \<in> set reads"
  by (induction writes i reads rule: relay.induct) (auto split: if_splits)

lemma pod_of_request:
  "dm_GetPodNameAndNamespace m podUUID s = Inr (namespace, name) \<Longrightarrow> \<exists>p \<in> set (pods s). po_uid p = podUUID \<and> po_namespace p = namespace \<and> po_name p = name"
  by (cases m) (auto simp: ss_GetPodNameAndNamespace_def sg_GetPodNameAndNamespace_def split: option.splits dest!: query_row_Some_in)

lemma StreamLogs_text:
  assumes "TextFrame text \<in> set (StreamLogs m open_stream writes podUUID s)"
  shows "\<exists>p \<in> set (pods s). \<exists>reads. po_uid p = podUUID \<and> open_stream (po_namespace p) (po_name p) = Inr reads \<and> (text, None) \<in> set reads"
proof -
  obtain namespace name where pod: "dm_GetPodNameAndNamespace m podUUID s = Inr (namespace, name)"
    using assms by (cases "dm_GetPodNameAndNamespace m podUUID s") (auto simp: StreamLogs_def split: if_splits)
  with assms obtain reads where reads: "open_stream namespace name = Inr reads" "TextFrame text \<in> set (relay writes 0 reads)"
    by (cases "open_stream namespace name") (auto simp: StreamLogs_def split: if_splits)
  from pod_of_request [OF pod] reads(1) relay_text [OF reads(2)] show ?thesis by auto
qed

text \<open>
  (C17) Log lines reach only clients with a live session, and only those of the pod they asked for: when a message of text is sent, the
  cookie is a token that was not revoked, of an account that exists, the pod is one of the database, and the message is what a read of the
  stream of that pod returned.
\<close>

theorem live_logs_guarded:
  assumes "auth_reachable am lib used a" "jwt_ok lib" "ws_logs m am lib open_stream writes now cookie podUUID a s = Inr frames"
    and "TextFrame text \<in> set frames"
  shows "(\<exists>acc \<in> set (accounts a). \<exists>r \<in> set (tokens a). tn_token r = cookie \<and> tn_account_id r = ac_id acc \<and> \<not> tn_revoked r) \<and>
    (\<exists>p \<in> set (pods s). \<exists>reads. po_uid p = podUUID \<and> open_stream (po_namespace p) (po_name p) = Inr reads \<and> (text, None) \<in> set reads)"
proof
  from assms(3) obtain user role where "au_IsValidLogin am lib now cookie a = Inr (user, role)"
    and frames: "frames = StreamLogs m open_stream writes podUUID s"
    by (auto simp: ws_logs_def ws_Auth_def split: if_splits sum.splits)
  from valid_login_account [OF assms(1,2) this(1)]
  show "\<exists>acc \<in> set (accounts a). \<exists>r \<in> set (tokens a). tn_token r = cookie \<and> tn_account_id r = ac_id acc \<and> \<not> tn_revoked r" by blast
  show "\<exists>p \<in> set (pods s). \<exists>reads. po_uid p = podUUID \<and> open_stream (po_namespace p) (po_name p) = Inr reads \<and> (text, None) \<in> set reads"
    using StreamLogs_text assms(4) unfolding frames by blast
qed

definition ex_live_db :: db where
  "ex_live_db = empty_db\<lparr>pods := [\<lparr>po_uid = ''u'', po_task_run_id = 1, po_exitCode = None, po_name = ''p'', po_status = ''Running'', po_namespace = ''ns'',
     po_updated_at = 0, po_duration = None\<rparr>]\<rparr>"

theorem live_logs_guarded_witness:
  "\<exists>p \<in> set (pods ex_live_db). po_uid p = ''u'' \<and>
     ws_logs PostgresManager AuthPostgres ex_lib (\<lambda>ns n. Inr [(''hello'', None), ([], Some (Err ''EOF''))]) (\<lambda>_. None) 5 ''tok'' ''u'' ex_session ex_live_db =
       Inr [TextFrame ''hello'', CloseFrame ''finished'']"
proof -
  let ?open = "\<lambda>ns n. Inr [(''hello'', None), ([], Some (Err ''EOF''))] :: (string \<times> check) list result"
  have "au_IsValidLogin AuthPostgres ex_lib 5 ''tok'' ex_session = Inr (''admin'', ''admin'')" by (simp add: ex_auth)
  then have run: "ws_logs PostgresManager AuthPostgres ex_lib ?open (\<lambda>_. None) 5 ''tok'' ''u'' ex_session ex_live_db =
      Inr [TextFrame ''hello'', CloseFrame ''finished'']"
    by (simp add: ws_logs_def ws_Auth_def StreamLogs_def sg_GetPodNameAndNamespace_def ss_GetPodNameAndNamespace_def ex_live_db_def)
  from live_logs_guarded [OF ex_reachable_session ex_jwt this, of "''hello''"] run show ?thesis by auto
qed

text \<open>The data that comes with the error of the last read is lost, which a reader may return.\<close>

lemma last_chunk_lost: "StreamLogs PostgresManager (\<lambda>ns n. Inr [(''last words'', Some (Err ''EOF''))]) (\<lambda>_. None) ''u'' ex_live_db = [CloseFrame ''finished'']"
  by (simp add: StreamLogs_def sg_GetPodNameAndNamespace_def ss_GetPodNameAndNamespace_def ex_live_db_def)

end
