(* ===== verification/Watchers.thy ===== *)
theory Watchers
  imports Task_Allocator Pod_Events
begin

text \<open>
  \<open>internal/dag/taskWatcher.go\<close> and \<open>eventWatcher.go\<close>: which pods the two informers of a controller report to its queues, for pods that its own
  allocator or that of a standalone worker (\<open>cmd/worker/main.go\<close>) has made. An informer asks the API server for the objects of a namespace
  that match a label selector; what matches, and that a watch reports an object which comes to match as new and one which ceases to match as
  removed, is what Kubernetes documents.
\<close>

section \<open>Selection\<close>

definition task_selector :: "string \<Rightarrow> (string \<times> string) list" where
  "task_selector ident = [(''managed-by'', ''kontroler''), (''kontroler/type'', ''task''), (''kontroler/id'', ident)]"

definition selects :: "(string \<times> string) list \<Rightarrow> Pod \<Rightarrow> bool" where
  "selects sel pod \<longleftrightarrow> (\<forall>(key, v) \<in> set sel. pod_Labels pod key = Some v)"

text \<open>\<open>informers.WithNamespace\<close>: the empty name stands for every namespace.\<close>

definition in_scope :: "string \<Rightarrow> string \<Rightarrow> bool" where
  "in_scope namespace ns \<longleftrightarrow> namespace = [] \<or> ns = namespace"

section \<open>The watcher of pods\<close>

text \<open>Changes of pods in the cluster. The resynchronisation of an informer is an update of a pod to itself.\<close>

datatype pod_change = Added Pod | Updated Pod Pod | Removed Pod

fun changed_pod :: "pod_change \<Rightarrow> Pod" where
  "changed_pod (Added p) = p"
| "changed_pod (Updated old p) = p"
| "changed_pod (Removed p) = p"

text \<open>The handler that the informer calls for a change.\<close>

fun handle_change :: "(Pod \<Rightarrow> bool) \<Rightarrow> (string \<Rightarrow> 64 word) \<Rightarrow> int \<Rightarrow> pod_change \<Rightarrow> queues \<Rightarrow> queues" where
  "handle_change sel hash now (Added p) qs = (if sel p then pod_HandleAdd hash now p qs else qs)"
| "handle_change sel hash now (Updated old p) qs =
     (if sel p then (if sel old then pod_HandleUpdate hash now old p qs else pod_HandleAdd hash now p qs)
      else if sel old then pod_HandleDelete p qs else qs)"
| "handle_change sel hash now (Removed p) qs = (if sel p then pod_HandleDelete p qs else qs)"

definition NewTaskWatcher :: "string \<Rightarrow> string \<Rightarrow> (string \<Rightarrow> 64 word) \<Rightarrow> int \<Rightarrow> pod_change \<Rightarrow> queues \<Rightarrow> queues" where
  "NewTaskWatcher ident namespace hash now change qs =
     (if in_scope namespace (pod_Namespace (changed_pod change))
      then handle_change (selects (task_selector ident)) hash now change qs else qs)"

section \<open>The watcher of events\<close>

text \<open>
  Changes of event objects, each with the namespace the object is in. The watcher has no selector, and it does not use the identifier it is given;
  the handlers look up the pod an event is about.
\<close>

datatype event_change = EventAdded string KubeEvent | EventUpdated string KubeEvent | EventRemoved string KubeEvent

fun NewEventWatcher ::
    "string \<Rightarrow> string \<Rightarrow> (string \<Rightarrow> 64 word) \<Rightarrow> 'k kube \<Rightarrow> int \<Rightarrow> event_change \<Rightarrow> 'k \<Rightarrow> queues \<Rightarrow> queues" where
  "NewEventWatcher ident namespace hash kb now (EventAdded ns event) k qs =
     (if in_scope namespace ns then event_HandleAdd hash kb now event k qs else qs)"
| "NewEventWatcher ident namespace hash kb now (EventUpdated ns event) k qs =
     (if in_scope namespace ns then event_HandleUpdate hash kb now event k qs else qs)"
| "NewEventWatcher ident namespace hash kb now (EventRemoved ns event) k qs = qs"

section \<open>Pods of the allocator\<close>

lemma prepared_labels:
  assumes "pool_ok p" "pod_Labels pod = pod_Labels (prepare_pod allocatorId taskId dagRunId taskRunId claimedBy spec p)"
  shows "pod_Labels pod = [''managed-by'' \<mapsto> ''kontroler'', ''kontroler/type'' \<mapsto> ''task'', ''kontroler/id'' \<mapsto> allocatorId]"
proof -
  have "(pod_Labels p)(''kontroler/id'' := None) = [''managed-by'' \<mapsto> ''kontroler'', ''kontroler/type'' \<mapsto> ''task'']"
    using assms(1) by (simp add: pool_ok_def)
  then have "((pod_Labels p)(''kontroler/id'' := None))(''kontroler/id'' \<mapsto> allocatorId) =
      [''managed-by'' \<mapsto> ''kontroler'', ''kontroler/type'' \<mapsto> ''task'', ''kontroler/id'' \<mapsto> allocatorId]" by (simp only:)
  then show ?thesis by (simp add: assms(2) prepare_pod_def Let_def)
qed

lemma labelled_selects:
  "pod_Labels pod = [''managed-by'' \<mapsto> ''kontroler'', ''kontroler/type'' \<mapsto> ''task'', ''kontroler/id'' \<mapsto> allocatorId] \<Longrightarrow>
    selects (task_selector ident) pod \<longleftrightarrow> ident = allocatorId"
  by (auto simp: selects_def task_selector_def)

lemma labelled_required:
  assumes "pod_Labels pod = [''managed-by'' \<mapsto> ''kontroler'', ''kontroler/type'' \<mapsto> ''task'', ''kontroler/id'' \<mapsto> allocatorId]"
    and "or_Kind obj = ''Pod''" "kb_getPod kb (or_Namespace obj) (or_Name obj) k = Inr pod"
  shows "hasRequiredLabels kb obj k = Some pod"
  using assms by (simp add: hasRequiredLabels_def)

text \<open>
  (C31) What the two watchers of a namespace put into the queues about a pod that an allocator has made, whatever object of the pool the pod was made
  from. The watcher of pods queues a new pod, and a change of its phase, exactly when the pod is in the namespace and was allocated with the identifier of
  the watcher, and a removal never. So a controller does not hear of the end of a pod of a standalone worker, which allocates under an
  identifier of its own. The watcher of events queues every warning about such a pod in the namespace, whoever has allocated it.
\<close>

theorem watcher_sees_own_pods:
  assumes "pool_ok p" "pod_Labels pod = pod_Labels (prepare_pod allocatorId taskId dagRunId taskRunId claimedBy spec p)"
    and "pod_Labels old = pod_Labels pod"
    and "ke_InvolvedObject event = obj" "or_Kind obj = ''Pod''" "kb_getPod kb (or_Namespace obj) (or_Name obj) k = Inr pod"
  shows "NewTaskWatcher ident ns hash now (Added pod) qs =
      (if in_scope ns (pod_Namespace pod) \<and> ident = allocatorId
       then push_to (pod_getQueueIndex hash (length qs) pod) \<lparr>pe_Pod = pod, pe_Event = ''add'', pe_EventTime = now\<rparr> qs else qs) \<and>
    NewTaskWatcher ident ns hash now (Updated old pod) qs =
      (if in_scope ns (pod_Namespace pod) \<and> ident = allocatorId \<and> pod_Phase old \<noteq> pod_Phase pod
       then push_to (pod_getQueueIndex hash (length qs) pod) \<lparr>pe_Pod = pod, pe_Event = ''update'', pe_EventTime = now\<rparr> qs else qs) \<and>
    NewTaskWatcher ident ns hash now (Removed pod) qs = qs \<and>
    NewEventWatcher ident ns hash kb now (EventAdded ens event) k qs =
      (if in_scope ns ens \<and> ke_Type event = ''Warning''
       then push_to (event_getQueueIndex hash (length qs) event) \<lparr>pe_Pod = pod, pe_Event = ''update'', pe_EventTime = now\<rparr> qs else qs) \<and>
    NewEventWatcher ident ns hash kb now (EventUpdated ens event) k qs = NewEventWatcher ident ns hash kb now (EventAdded ens event) k qs"
proof -
  note l = prepared_labels [OF assms(1,2)]
  have lo: "pod_Labels old = [''managed-by'' \<mapsto> ''kontroler'', ''kontroler/type'' \<mapsto> ''task'', ''kontroler/id'' \<mapsto> allocatorId]"
    by (rule trans [OF assms(3) l])
  note sel = labelled_selects [OF l] labelled_selects [OF lo]
  note req = labelled_required [OF l assms(5,6)]
  show ?thesis
    by (simp add: NewTaskWatcher_def sel pod_HandleAdd_def pod_HandleUpdate_def pod_HandleDelete_def
        event_HandleAdd_def event_Handle_def event_HandleUpdate_def assms(4) req)
qed

text \<open>A pod of a standalone worker: its end is not queued, a warning about it is.\<close>

definition standalone_pod :: Pod where
  "standalone_pod = (prepare_pod ''standalone'' 1 1 1 [] empty_PodSpec new_pool_pod)\<lparr>pod_Name := ''p'', pod_Namespace := ''ns'', pod_Phase := ''Running''\<rparr>"

definition pod_warning :: KubeEvent where
  "pod_warning = \<lparr>ke_Type = ''Warning'', ke_InvolvedObject = \<lparr>or_Kind = ''Pod'', or_Name = ''p'', or_Namespace = ''ns''\<rparr>\<rparr>"

theorem watcher_sees_own_pods_witness:
  "NewTaskWatcher ''controller'' ''ns'' (\<lambda>_. 0) 0 (Updated standalone_pod (standalone_pod\<lparr>pod_Phase := ''Succeeded''\<rparr>)) [[], []] = [[], []] \<and>
   NewTaskWatcher ''standalone'' ''ns'' (\<lambda>_. 0) 0 (Updated standalone_pod (standalone_pod\<lparr>pod_Phase := ''Succeeded''\<rparr>)) [[], []] =
     [[\<lparr>pe_Pod = standalone_pod\<lparr>pod_Phase := ''Succeeded''\<rparr>, pe_Event = ''update'', pe_EventTime = 0\<rparr>], []] \<and>
   NewEventWatcher ''controller'' ''ns'' (\<lambda>_. 0) ex_kube 0 (EventAdded ''ns'' pod_warning) ([standalone_pod\<lparr>pod_Phase := ''Succeeded''\<rparr>], []) [[], []] =
     [[\<lparr>pe_Pod = standalone_pod\<lparr>pod_Phase := ''Succeeded''\<rparr>, pe_Event = ''update'', pe_EventTime = 0\<rparr>], []]"
proof -
  let ?pod = "standalone_pod\<lparr>pod_Phase := ''Succeeded''\<rparr>"
  let ?k = "([?pod], []) :: cluster"
  have l: "pod_Labels ?pod = pod_Labels (prepare_pod ''standalone'' 1 1 1 [] empty_PodSpec new_pool_pod)" by (simp add: standalone_pod_def)
  have o': "pod_Labels standalone_pod = pod_Labels ?pod" by simp
  have nm: "pod_Name ?pod = ''p''" "pod_Namespace ?pod = ''ns''" "pod_Phase standalone_pod = ''Running''" by (simp_all add: standalone_pod_def)
  have g: "kb_getPod ex_kube (or_Namespace (ke_InvolvedObject pod_warning)) (or_Name (ke_InvolvedObject pod_warning)) ?k = Inr ?pod"
    by (simp add: ex_kube_def find_pod_def pod_warning_def nm [simplified])
  have kd: "or_Kind (ke_InvolvedObject pod_warning) = ''Pod''" "ke_Type pod_warning = ''Warning''" by (simp_all add: pod_warning_def)
  have ix: "pod_getQueueIndex (\<lambda>_. 0) (length [[], []]) ?pod = 0" "event_getQueueIndex (\<lambda>_. 0) (length [[], []]) pod_warning = 0"
    by (simp_all add: pod_getQueueIndex_def event_getQueueIndex_def queue_index_def)
  note own = watcher_sees_own_pods [OF pool_ok_new l o' refl kd(1) g, where ns = "''ns''" and hash = "\<lambda>_. 0" and now = 0 and qs = "[[], []]" and ens = "''ns''"]
  show ?thesis
    using own [where ident = "''controller''"] own [where ident = "''standalone''"]
    by (simp add: in_scope_def nm [simplified] kd ix [simplified] push_to_def)
qed

end
