(* ===== verification/Spec2Isabelle.thy ===== *)
theory Spec2Isabelle
  imports Dag_DSL Pod_Queue Pod_Events Controller_Safety Log_Collection Server_Db_Laws Server_Access Worker_Pool Db_Metrics Startup Live_Logs Watchers
begin

text \<open>
  A verification development of Kontroler, a workflow engine for Kubernetes written in Go (\<open>src/controller\<close>).

  \<^bold>\<open>The program.\<close> A user describes a DAG of tasks as a custom resource, as a text in a small language, or in a form of the web interface. The
  controller validates it and stores a version of it in a database (SQLite or Postgres). A run is started by a resource, by the API server or by the
  scheduler. Its starting tasks become pending task runs; workers claim them under a lease, allocate a pod for each, and follow the pods through
  events that informers put into queues. When a task succeeds, the tasks whose dependencies are met become pending; when it fails for good, the
  tasks that depend on it are suspended. Logs are collected from the pods into a file system or S3, and webhooks report what happens. The API server
  has accounts and sessions, reads the database for the web interface, and creates and deletes the resources.

  \<^bold>\<open>The theories\<close>, with the sources under \<open>src/controller\<close> they model and what their lemmas show. Names are those of the Go functions; where two
  files define the same method, a prefix tells them apart: \<open>pg_\<close> for the Postgres manager (none for SQLite), \<open>ss_\<close> and \<open>sg_\<close> for the API server over
  SQLite and Postgres, \<open>ms_\<close> and \<open>mp_\<close> for the managers with metrics, \<open>mq_\<close> and \<open>pq_\<close> for the queues, \<open>fs_\<close> and \<open>s3_\<close> for the log stores.

  \<^item> \<open>Kontroler_Prelude\<close>, \<open>Go_Strconv\<close>, \<open>Go_Path\<close>: Go errors and results, the SQL statements as functions on lists of rows, Go maps, and the parts of
    Go's library that the code uses on numbers, paths and durations, with their round trips.
  \<^item> \<open>Dag_Types\<close>, \<open>Dag_Validation\<close> (\<open>api/v1alpha1\<close>): the resources, and \<open>ValidateDAG\<close> with its six checks. The cycle check and the connectivity check
    decide acyclicity and connectivity, and what is accepted is characterised check by check.
  \<^item> \<open>Dag_DSL\<close> (\<open>internal/dagdsl\<close>): from the syntax tree to a specification, and the validator of the language against that of the resources.
  \<^item> \<open>Dag_Store\<close>, \<open>Sqlite_Dags\<close>, \<open>Sqlite_Runs\<close>, \<open>Task_Claims\<close> (\<open>internal/db/sqliteManager.go\<close>, \<open>queries.go\<close>): the tables, the transactions, and every
    operation of the SQLite manager. The stored graph is that of the specification, one version of a DAG is active, the
    tasks that a success releases are characterised exactly (with the two errors of the query: a pending task is released again, and two successes
    of one dependency count for two), the suspended ones are exactly the dependents, and leases exclude each other with Postgres and for the single claim of
    SQLite, whose batch claim does not see them.
  \<^item> \<open>Postgres_Manager\<close>, \<open>Postgres_Integrity\<close>, \<open>Db_Manager\<close> (\<open>internal/db/postgresDAGManager.go\<close>, \<open>dbManagers.go\<close>): the Postgres manager with its
    cascading deletes, where it agrees with SQLite and where it suspends more, that its references hold in every reachable database, and the interface of the two.
  \<^item> \<open>Migrations\<close>, \<open>Metrics\<close>, \<open>Db_Metrics\<close> (\<open>internal/db/migrations\<close>, \<open>internal/metrics\<close>, \<open>sqliteMetrics.go\<close>, \<open>postgresMetrics.go\<close>): an upgraded
    database has the schema of a fresh one; the metrics of a manager are the log of its calls, and every series has the labels of its collector.
  \<^item> \<open>Pod_Queue\<close>, \<open>Pod_Events\<close>, \<open>Watchers\<close> (\<open>internal/queue\<close>, \<open>internal/workers/*Handler.go\<close>, \<open>internal/dag/taskWatcher.go\<close>,
    \<open>eventWatcher.go\<close>): both queues refine a first-in-first-out list, no wake-up is lost, and the events of a pod stay in one queue in their order. The
    watcher of pods queues those of its own allocator, the watcher of events warnings about all of them.
  \<^item> \<open>Kube_Api\<close>, \<open>Task_Allocator\<close>, \<open>Webhooks\<close>, \<open>Worker\<close>, \<open>Worker_Safety\<close>, \<open>Worker_Pool\<close> (\<open>internal/workers\<close>, \<open>internal/webhook\<close>,
    \<open>workerpool_controller.go\<close>): pods and claims of Kubernetes, the pod built for a task independently of the pooled object it reuses, the handlers of the
    worker, and what they keep of the database; a success event adds exactly the released tasks.
  \<^item> \<open>Controllers\<close>, \<open>Controller_Safety\<close> (\<open>internal/controller\<close>, \<open>internal/dag/dagScheduler.go\<close>): the reconcilers, the orphan reconciler and the
    scheduler. A reconciled DAG is acyclic and starting a run twice starts its tasks once.
  \<^item> \<open>Log_Store\<close>, \<open>Log_Store_Laws\<close>, \<open>Log_Collection\<close> (\<open>internal/object\<close>): both log stores and the collection by workers. What a removed
    finalizer means: the whole log is stored, or the pod was not found, or a read failed in a way that is taken for its deletion and the log is
    lost. One goroutine at a time fetches a log.
  \<^item> \<open>Server_Paging\<close>, \<open>Server_Auth\<close>, \<open>Server_Sessions\<close>, \<open>Server_Db\<close>, \<open>Server_Db_Laws\<close>, \<open>Server_Client\<close>, \<open>Server_Logs\<close>, \<open>Server_Rest\<close>, \<open>Server_Access\<close>,
    \<open>Live_Logs\<close> (\<open>internal/server\<close>): accounts and sessions, the read side of the database, the creation of resources, logs, and the routes
    with their middleware. A session belongs to an account with its role, a logout is final, each route needs its role, and the connections shown are those stored.
  \<^item> \<open>Configuration\<close>, \<open>Startup\<close> (\<open>internal/config\<close>, \<open>internal/server/config\<close>, \<open>internal/db/config.go\<close>, \<open>cmd/controller/main.go\<close>): settings, where
    the two processes look for logs, the creation of the workers, and how the controller ends: it returns only after a signal, and a notification on the closed webhook channel can
    end it before.
  \<^item> This theory: the way of a DAG from the form of a user through validation and storage to the graph that is shown.

  \<^bold>\<open>State.\<close> The database is a record of tables, each a list of rows in the order of insertion, with the next value of each sequence; an operation
  returns its result and the database after it, and a transaction that fails returns the old one. The cluster is a type variable with the operations
  of the API server as a record of functions. Concurrent processes are inductive step relations: workers with leases, consumers of a queue, goroutines
  that fetch a log, histories of accounts, and the shutdown of the controller with
  its webhook listener.

  \<^bold>\<open>Interfaces\<close> are locales, interpreted on the definitions of the model: \<open>pod_queue\<close> (both queues), \<open>lease_core\<close> and \<open>lease_batch\<close> (claims),
  \<open>retry_manager\<close>, \<open>worker_invariant\<close> (what every handler keeps), \<open>fetch_registry\<close> and \<open>log_fetcher\<close> (log stores), \<open>account_manager\<close>, and
  \<open>call_recorder\<close> (metrics).

  \<^bold>\<open>Loops.\<close> Recursion is structural or has a termination proof. The two graph searches of validation take fuel; \<open>visit_fuel\<close> and \<open>dfs_fuel\<close> show that the
  fuel they are given, one unit per task name and dependency name and one more, is enough, so \<open>ValidateDAG\<close> always returns. The listing of a bucket and the
  recursive query of Postgres may run forever and are partial functions into an option; that the query ends on an acyclic graph is proved.

  \<^bold>\<open>Parameters\<close> stand for code outside the repository: the API server, S3, the Pebble store, the JWT and bcrypt libraries, the cron, YAML and DSL
  parsers, hashes, clocks and random names, and the outcome of a network call. Statements of a database fail only for the reasons that the model has
  (constraints, ranges, missing rows), not because a connection is lost.

  \<^bold>\<open>Not modelled\<close>: the construction of clients and HTTP listeners and the registration of controllers, which are calls of client-go, controller-runtime
  and fiber; the calls of the worker to the metrics, which have no effect on its state; the exact text of wrapped errors; the generated deep copies,
  since values have no aliasing; and the web interface, which is not Go code.
\<close>

section \<open>From the form of a user to the graph on the screen\<close>

text \<open>
  (C14) The whole way of a DAG through the system, with SQLite: an editor fills in a form, the API server builds the resource, the controller reconciles
  it, the manager stores a new version, and the API server reads it back. The graph it then shows has the tasks of the form as nodes and the
  dependencies of the form as edges, and it has no cycle.
\<close>

theorem form_graph_is_shown:
  assumes "dag_reachable s" "rc_dbManager rc = SqliteManager tz" "BuildDAGUnstructured json form = Inr dag"
    and "cr_getDag (rc_client rc) namespace name k = Inr dag" "dag_Reconcile rc namespace name s k = (r, s', k')"
    and "next_dag s' \<noteq> next_dag s" "next_dagtask s' \<le> 2 ^ 63"
  shows "\<exists>c. ss_getDagConnections (next_dag s) s' = Inr c \<and>
    {dk_name d | d. d \<in> set (dagtasks s') \<and> dk_id d \<in> dom (map_of c)} = ft_Name ` set (df_Tasks form) \<and>
    {(dk_name d, dk_name e) | d e ns. d \<in> set (dagtasks s') \<and> e \<in> set (dagtasks s') \<and> map_of c (dk_id d) = Some ns \<and> dk_id e \<in> set ns} =
      {(ft_Name t, n) | t n. t \<in> set (df_Tasks form) \<and> n \<in> set (ft_RunAfter t)} \<and>
    acyclic {(ft_Name t, n) | t n. t \<in> set (df_Tasks form) \<and> n \<in> set (ft_RunAfter t)}"
proof -
  let ?i = "next_dag s" and ?edges = "{(ft_Name t, n) | t n. t \<in> set (df_Tasks form) \<and> n \<in> set (ft_RunAfter t)}"
  have inv: "keys_ok s" "refs_ok s" using dag_inv_reachable [OF assms(1)] by (simp_all add: dag_inv_def)
  have "ds_DSL (dag_Spec dag) = ''''" "\<not> dag_Deleting dag"
    using assms(3) by (auto simp: BuildDAGUnstructured_def Let_def zero_DAGSpec_def split: sum.splits option.splits if_splits)
  with assms(4,5) have store: "store_dag rc namespace dag s k = (r, s', k')" by (simp add: dag_Reconcile_def)
  have ins: "InsertDAG (rc_digest rc) (rc_uuid rc) (rc_cron rc) (rc_now rc) dag namespace s = (Inr (), s')"
  proof (rule store_dag_cases [OF store])
    fix e assume "db_InsertDAG (rc_dbManager rc) (rc_digest rc) (rc_uuid rc) (rc_cron rc) (rc_now rc) dag namespace s = (Inl e, s')"
    then have "s' = s" using assms(2) by (simp add: InsertDAG_error_same)
    with assms(6) show ?thesis by simp
  qed (use assms(2,6) in simp_all)
  have inv': "keys_ok s'" "refs_ok s'"
    using dag_inv_reachable [OF dag_reachable.insert [OF assms(1)]] ins by (metis dag_inv_def snd_conv)+
  have graph: "named_deps ?i s' = ?edges" "map dk_name (dag_tasks_of ?i s') = map ft_Name (df_Tasks form)"
    using InsertDAG_graph [OF inv ins assms(6)] form_becomes_dag [OF assms(3)] by simp_all
  have "acyclic ?edges" using store_dag_graph [OF assms(2) inv store assms(6)] graph(1) by simp
  let ?c = "gomap_puts (conn_list ?i s') []"
  have shown: "dom (map_of ?c) = set (map dk_id (dag_tasks_of ?i s'))"
    "{(dk_name d, dk_name e) | d e ns. d \<in> set (dagtasks s') \<and> e \<in> set (dagtasks s') \<and> map_of ?c (dk_id d) = Some ns \<and> dk_id e \<in> set ns} = ?edges"
    using shown_graph [OF inv'(1) InsertDAG_tasks_exist [OF inv(2) ins assms(6)]] graph(1) by simp_all
  have "\<forall>p \<in> set (deps s'). dp_depends_on p < 2 ^ 63" using inv'(2) assms(7) by (auto simp: refs_ok_def)
  then have "ss_getDagConnections ?i s' = Inr ?c" using ss_connections [OF inv'(1)] by simp
  moreover have "{dk_name d | d. d \<in> set (dagtasks s') \<and> dk_id d \<in> dom (map_of ?c)} = set (map dk_name (dag_tasks_of ?i s'))"
  proof -
    have "inj_on dk_id (set (dagtasks s'))" using inv'(1) by (simp add: keys_ok_def keys_defs distinct_map)
    then have "{d \<in> set (dagtasks s'). dk_id d \<in> set (map dk_id (dag_tasks_of ?i s'))} = set (dag_tasks_of ?i s')"
      by (auto simp: dag_tasks_of_def dest: inj_onD)
    then show ?thesis unfolding shown(1) by auto
  qed
  ultimately show ?thesis using shown(2) graph(2) \<open>acyclic ?edges\<close> by (intro exI [of _ ?c]) (simp del: set_map add: set_map [symmetric])
qed

section \<open>Examples\<close>

definition ex_form_dag :: DAG where
  "ex_form_dag = (case BuildDAGUnstructured (\<lambda>_. Inl '''') ex_form of Inr dag \<Rightarrow> dag | Inl _ \<Rightarrow> ex_dag)"

definition ex_form_reconciler :: "cluster reconciler" where
  "ex_form_reconciler = (ex_reconciler (SqliteManager 0) [])\<lparr>rc_client := (ex_client [])\<lparr>cr_getDag := (\<lambda>_ _ _. Inr ex_form_dag)\<rparr>, rc_startNode := ''a''\<rparr>"

definition ex_form_db :: db where
  "ex_form_db = snd (InsertDAG ex_digest ex_uuid ex_cron 0 ex_form_dag ''ns'' empty_db)"

lemma ex_form_dag:
  "BuildDAGUnstructured (\<lambda>_. Inl '''') ex_form = Inr ex_form_dag" "collect_refs (ds_Task (dag_Spec ex_form_dag)) = Some []"
  "ds_DSL (dag_Spec ex_form_dag) = ''''" "\<not> dag_Deleting ex_form_dag"
  unfolding ex_form_dag_def
  by (simp_all add: BuildDAGUnstructured_def ex_form_def Let_def convertFormTasks_def convertFormTask_def paramNames_def gomap_puts_def collect_refs_def
      zero_TaskSpec_def zero_DAGSpec_def)

lemma ex_form_valid: "ValidateDAG ''a'' (dag_Spec ex_form_dag) Map.empty = Some None" by code_simp

lemma ex_form_inserted:
  "InsertDAG ex_digest ex_uuid ex_cron 0 ex_form_dag ''ns'' empty_db = (Inr (), ex_form_db)" "next_dag ex_form_db = 2" "next_dagtask ex_form_db = 3"
proof -
  have "isl (fst (InsertDAG ex_digest ex_uuid ex_cron 0 ex_form_dag ''ns'' empty_db)) = False" by code_simp
  then show "InsertDAG ex_digest ex_uuid ex_cron 0 ex_form_dag ''ns'' empty_db = (Inr (), ex_form_db)"
    unfolding ex_form_db_def by (cases "InsertDAG ex_digest ex_uuid ex_cron 0 ex_form_dag ''ns'' empty_db"; cases "fst (InsertDAG ex_digest ex_uuid ex_cron 0 ex_form_dag ''ns'' empty_db)") auto
  show "next_dag ex_form_db = 2" "next_dagtask ex_form_db = 3" by code_simp+
qed

lemma ex_form_reconciled: "\<exists>r k'. dag_Reconcile ex_form_reconciler ''ns'' ''etl'' empty_db ([], []) = (r, ex_form_db, k')"
proof -
  have "fst (snd (dag_Reconcile ex_form_reconciler ''ns'' ''etl'' empty_db ([], []))) = ex_form_db"
    using ex_form_inserted(1) ex_form_valid ex_form_dag
    by (simp add: dag_Reconcile_def store_dag_def ex_form_reconciler_def ex_reconciler_def ex_client_def markDAGSuccessful_def markDAG_db)
  then show ?thesis by (metis prod.collapse)
qed

theorem form_graph_is_shown_witness:
  "\<exists>c. ss_getDagConnections 1 ex_form_db = Inr c \<and>
     {(dk_name d, dk_name e) | d e ns. d \<in> set (dagtasks ex_form_db) \<and> e \<in> set (dagtasks ex_form_db) \<and> map_of c (dk_id d) = Some ns \<and> dk_id e \<in> set ns} = {(''b'', ''a'')}"
proof -
  obtain r k' where rec: "dag_Reconcile ex_form_reconciler ''ns'' ''etl'' empty_db ([], []) = (r, ex_form_db, k')" using ex_form_reconciled by blast
  have "{(ft_Name t, n) | t n. t \<in> set (df_Tasks ex_form) \<and> n \<in> set (ft_RunAfter t)} = {(''b'', ''a'')}" by (force simp: ex_form_def)
  then show ?thesis
    using form_graph_is_shown [OF dag_reachable.start _ ex_form_dag(1) _ rec, of 0] ex_form_inserted(2,3)
    by (auto simp: ex_form_reconciler_def ex_reconciler_def ex_client_def empty_db_def)
qed

end
